(* ===== verification/Prelude.thy ===== *)
theory Prelude
  imports Main "HOL-Library.Word" "HOL-Library.Multiset"
begin

text \<open>
  Shared vocabulary of the development: the machine integers of the Rust programs, the
  checked, saturating and overflow-checked (panicking) operations of the standard library,
  the result type with its \<open>?\<close>-style sequencing, and the list operations
  (\<open>iter().position\<close>, swap-remove) that several programs use.

  The rules collected in \<open>ok_simps\<close> turn the hypothesis that a sequence of
  fallible steps returned a value into the facts each step established; the rules in
  \<open>nat_simps\<close> read word arithmetic on natural numbers.
\<close>

named_theorems ok_simps "when a fallible computation returns a value"
named_theorems err_simps "when a fallible computation returns an error"
named_theorems nat_simps "word operations read on natural numbers"
named_theorems eval_simps "definitions and rules that evaluate the model on numerals"

section \<open>Types\<close>

type_synonym u8 = "8 word"
type_synonym u16 = "16 word"
type_synonym u32 = "32 word"
type_synonym u64 = "64 word"
type_synonym u128 = "128 word"
type_synonym i64 = "64 word"   \<comment> \<open>two's complement, read with \<open>sint\<close>\<close>
type_synonym i128 = "128 word"  \<comment> \<open>two's complement, read with \<open>sint\<close>\<close>

text \<open>A Solana public key: 32 bytes. \<open>Pubkey::default()\<close> is all zero.\<close>

type_synonym pubkey = "256 word"

abbreviation default_pubkey :: pubkey where
  "default_pubkey \<equiv> 0"

section \<open>Results\<close>

text \<open>
  What stops an instruction: an error code of the program, a Rust panic (the workspace
  builds with \<open>overflow-checks = true\<close>, so a bare \<open>a - b\<close> that underflows panics),
  a failing call into another program, or a failing Anchor account constraint that
  carries no error code of the program. In every case the transaction is rolled back.
\<close>

datatype 'e fault = Raise 'e | Panic | CpiFailed | BadAccount

type_synonym ('e, 'a) result = "'e fault + 'a"

abbreviation Ok :: "'a \<Rightarrow> ('e, 'a) result" where
  "Ok \<equiv> Inr"

abbreviation Err :: "'e \<Rightarrow> ('e, 'a) result" where
  "Err e \<equiv> Inl (Raise e)"

definition and_then :: "('e, 'a) result \<Rightarrow> ('a \<Rightarrow> ('e, 'b) result) \<Rightarrow> ('e, 'b) result" where
  "and_then m f = (case m of Inl e \<Rightarrow> Inl e | Inr x \<Rightarrow> f x)"

definition require :: "bool \<Rightarrow> 'e \<Rightarrow> ('e, unit) result" where
  "require b e = (if b then Inr () else Inl (Raise e))"

definition ok_or :: "'a option \<Rightarrow> 'e \<Rightarrow> ('e, 'a) result" where
  "ok_or x e = (case x of None \<Rightarrow> Inl (Raise e) | Some y \<Rightarrow> Inr y)"

definition or_panic :: "'a option \<Rightarrow> ('e, 'a) result" where
  "or_panic x = (case x of None \<Rightarrow> Inl Panic | Some y \<Rightarrow> Inr y)"

definition constraint :: "bool \<Rightarrow> ('e, unit) result" where
  "constraint b = (if b then Inr () else Inl BadAccount)"

definition account :: "'a option \<Rightarrow> ('e, 'a) result" where
  "account x = (case x of None \<Rightarrow> Inl BadAccount | Some y \<Rightarrow> Inr y)"

definition cpi :: "'a option \<Rightarrow> ('e, 'a) result" where
  "cpi x = (case x of None \<Rightarrow> Inl CpiFailed | Some y \<Rightarrow> Inr y)"

lemma and_then_simps [simp]:
  "and_then (Inr x) f = f x" "and_then (Inl e) f = Inl e"
  by (simp_all add: and_then_def)

lemma and_then_Ok_iff [ok_simps]: "and_then m f = Inr y \<longleftrightarrow> (\<exists>x. m = Inr x \<and> f x = Inr y)"
  by (cases m) simp_all

lemma and_then_OkE:
  assumes "and_then m f = Inr y"
  obtains x where "m = Inr x" "f x = Inr y"
  using assms by (cases m) simp_all

lemma and_then_prod_OkE:
  assumes "and_then m (\<lambda>(a, b). f a b) = Inr y"
  obtains a b where "m = Inr (a, b)" "f a b = Inr y"
  using assms by (cases m) auto

lemma and_then_prod3_OkE:
  assumes "and_then m (\<lambda>(a, b, c). f a b c) = Inr y"
  obtains a b c where "m = Inr (a, b, c)" "f a b c = Inr y"
  using assms by (cases m) auto

lemmas steps_OkE = and_then_prod3_OkE and_then_prod_OkE and_then_OkE

lemma and_then_Err_iff [err_simps]:
  "and_then m f = Inl e \<longleftrightarrow> m = Inl e \<or> (\<exists>x. m = Inr x \<and> f x = Inl e)"
  by (cases m) simp_all

lemma require_Ok_iff [ok_simps]: "require b e = Inr u \<longleftrightarrow> b"
  by (simp add: require_def)

lemma require_Err_iff [err_simps]: "require b e = Inl e' \<longleftrightarrow> \<not> b \<and> e' = Raise e"
  by (auto simp: require_def)

lemma require_simps [simp]: "require True e = Inr ()" "require False e = Inl (Raise e)"
  by (simp_all add: require_def)

lemma constraint_Ok_iff [ok_simps]: "constraint b = Inr u \<longleftrightarrow> b"
  by (simp add: constraint_def)

lemma constraint_Err_iff [err_simps]: "constraint b = Inl e' \<longleftrightarrow> \<not> b \<and> e' = BadAccount"
  by (auto simp: constraint_def)

lemma constraint_simps [simp]: "constraint True = Inr ()" "constraint False = Inl BadAccount"
  by (simp_all add: constraint_def)

lemma ok_or_Ok_iff [ok_simps]: "ok_or x e = Inr y \<longleftrightarrow> x = Some y"
  by (cases x) (simp_all add: ok_or_def)

lemma ok_or_Err_iff [err_simps]: "ok_or x e = Inl e' \<longleftrightarrow> x = None \<and> e' = Raise e"
  by (cases x) (auto simp: ok_or_def)

lemma ok_or_simps [simp]: "ok_or (Some y) e = Inr y" "ok_or None e = Inl (Raise e)"
  by (simp_all add: ok_or_def)

lemma or_panic_Ok_iff [ok_simps]: "or_panic x = Inr y \<longleftrightarrow> x = Some y"
  by (cases x) (simp_all add: or_panic_def)

lemma or_panic_Err_iff [err_simps]: "or_panic x = Inl e' \<longleftrightarrow> x = None \<and> e' = Panic"
  by (cases x) (auto simp: or_panic_def)

lemma or_panic_simps [simp]: "or_panic (Some y) = Inr y" "or_panic None = Inl Panic"
  by (simp_all add: or_panic_def)

lemma account_Ok_iff [ok_simps]: "account x = Inr y \<longleftrightarrow> x = Some y"
  by (cases x) (simp_all add: account_def)

lemma account_Err_iff [err_simps]: "account x = Inl e' \<longleftrightarrow> x = None \<and> e' = BadAccount"
  by (cases x) (auto simp: account_def)

lemma account_simps [simp]: "account (Some y) = Inr y" "account None = Inl BadAccount"
  by (simp_all add: account_def)

lemma cpi_Ok_iff [ok_simps]: "cpi x = Inr y \<longleftrightarrow> x = Some y"
  by (cases x) (simp_all add: cpi_def)

lemma cpi_Err_iff [err_simps]: "cpi x = Inl e' \<longleftrightarrow> x = None \<and> e' = CpiFailed"
  by (cases x) (auto simp: cpi_def)

lemma cpi_simps [simp]: "cpi (Some y) = Inr y" "cpi None = Inl CpiFailed"
  by (simp_all add: cpi_def)

text \<open>Takes a successful sequence apart without reading the arithmetic in it.\<close>

lemmas step_iffs = and_then_Ok_iff require_Ok_iff ok_or_Ok_iff or_panic_Ok_iff
  constraint_Ok_iff account_Ok_iff cpi_Ok_iff

section \<open>Checked and saturating arithmetic\<close>

definition checked_add :: "'a::len word \<Rightarrow> 'a word \<Rightarrow> 'a word option" where
  "checked_add x y = (if unat x + unat y < 2 ^ LENGTH('a) then Some (x + y) else None)"

definition checked_sub :: "'a::len word \<Rightarrow> 'a word \<Rightarrow> 'a word option" where
  "checked_sub x y = (if y \<le> x then Some (x - y) else None)"

definition checked_mul :: "'a::len word \<Rightarrow> 'a word \<Rightarrow> 'a word option" where
  "checked_mul x y = (if unat x * unat y < 2 ^ LENGTH('a) then Some (x * y) else None)"

definition checked_div :: "'a::len word \<Rightarrow> 'a word \<Rightarrow> 'a word option" where
  "checked_div x y = (if y = 0 then None else Some (x div y))"

definition saturating_sub :: "'a::len word \<Rightarrow> 'a word \<Rightarrow> 'a word" where
  "saturating_sub x y = (if x < y then 0 else x - y)"

definition saturating_add :: "'a::len word \<Rightarrow> 'a word \<Rightarrow> 'a word" where
  "saturating_add x y = (if unat x + unat y < 2 ^ LENGTH('a) then x + y else -1)"

definition saturating_mul :: "'a::len word \<Rightarrow> 'a word \<Rightarrow> 'a word" where
  "saturating_mul x y = (if unat x * unat y < 2 ^ LENGTH('a) then x * y else -1)"

text \<open>Signed addition and subtraction on two's complement words.\<close>

definition checked_sadd :: "'a::len word \<Rightarrow> 'a word \<Rightarrow> 'a word option" where
  "checked_sadd x y =
     (if - (2 ^ (LENGTH('a) - 1)) \<le> sint x + sint y \<and> sint x + sint y < 2 ^ (LENGTH('a) - 1)
      then Some (x + y) else None)"

definition checked_ssub :: "'a::len word \<Rightarrow> 'a word \<Rightarrow> 'a word option" where
  "checked_ssub x y =
     (if - (2 ^ (LENGTH('a) - 1)) \<le> sint x - sint y \<and> sint x - sint y < 2 ^ (LENGTH('a) - 1)
      then Some (x - y) else None)"

definition saturating_sadd :: "'a::len word \<Rightarrow> 'a word \<Rightarrow> 'a word" where
  "saturating_sadd x y =
     (if sint x + sint y < - (2 ^ (LENGTH('a) - 1)) then word_of_int (- (2 ^ (LENGTH('a) - 1)))
      else if 2 ^ (LENGTH('a) - 1) \<le> sint x + sint y then word_of_int (2 ^ (LENGTH('a) - 1) - 1)
      else x + y)"

definition saturating_ssub :: "'a::len word \<Rightarrow> 'a word \<Rightarrow> 'a word" where
  "saturating_ssub x y =
     (if sint x - sint y < - (2 ^ (LENGTH('a) - 1)) then word_of_int (- (2 ^ (LENGTH('a) - 1)))
      else if 2 ^ (LENGTH('a) - 1) \<le> sint x - sint y then word_of_int (2 ^ (LENGTH('a) - 1) - 1)
      else x - y)"

lemmas [eval_simps] = checked_add_def checked_sub_def checked_mul_def checked_div_def
  saturating_sub_def saturating_add_def saturating_mul_def checked_sadd_def checked_ssub_def
  saturating_sadd_def saturating_ssub_def word_div_def word_mod_def

definition u64_max :: u64 where
  [eval_simps]: "u64_max = 18446744073709551615"

text \<open>Success of a checked operation says what its result is on natural numbers.\<close>

lemma unat_max_word: "unat (- 1 :: 'a::len word) = 2 ^ LENGTH('a) - 1"
  by (simp add: unsigned_minus_1_eq_mask mask_eq_exp_minus_1)

lemma unat_eq_iff: "x = y \<longleftrightarrow> unat x = unat y" for x y :: "'a::len word"
  by (simp add: word_unat_eq_iff)

lemma checked_add_Some [nat_simps]:
  "checked_add x y = Some z \<longleftrightarrow> unat z = unat x + unat y" for x y z :: "'a::len word"
proof
  assume "checked_add x y = Some z"
  then show "unat z = unat x + unat y"
    by (auto simp: checked_add_def unat_word_ariths split: if_splits)
next
  assume h: "unat z = unat x + unat y"
  have "unat z < 2 ^ LENGTH('a)" by (rule unsigned_less)
  with h show "checked_add x y = Some z"
    by (auto simp: checked_add_def unat_eq_iff unat_word_ariths)
qed

lemma checked_sub_Some [nat_simps]:
  "checked_sub x y = Some z \<longleftrightarrow> unat x = unat z + unat y" for x y z :: "'a::len word"
proof
  assume "checked_sub x y = Some z"
  then have "y \<le> x" "z = x - y" by (auto simp: checked_sub_def split: if_splits)
  then show "unat x = unat z + unat y"
    by (simp add: unat_sub_if_size word_le_nat_alt)
next
  assume h: "unat x = unat z + unat y"
  then have "y \<le> x" by (simp add: word_le_nat_alt)
  moreover have "unat (x - y) = unat z"
    using h \<open>y \<le> x\<close> by (simp add: unat_sub_if_size word_le_nat_alt)
  ultimately show "checked_sub x y = Some z"
    by (simp add: checked_sub_def unat_eq_iff)
qed

lemma checked_mul_Some [nat_simps]:
  "checked_mul x y = Some z \<longleftrightarrow> unat z = unat x * unat y" for x y z :: "'a::len word"
proof
  assume "checked_mul x y = Some z"
  then show "unat z = unat x * unat y"
    by (auto simp: checked_mul_def unat_word_ariths split: if_splits)
next
  assume h: "unat z = unat x * unat y"
  have "unat z < 2 ^ LENGTH('a)" by (rule unsigned_less)
  with h show "checked_mul x y = Some z"
    by (auto simp: checked_mul_def unat_eq_iff unat_word_ariths)
qed

lemma checked_div_Some [nat_simps]:
  "checked_div x y = Some z \<longleftrightarrow> unat y \<noteq> 0 \<and> unat z = unat x div unat y"
  for x y z :: "'a::len word"
  by (auto simp: checked_div_def unat_eq_iff unat_div)

lemma checked_add_None [nat_simps]:
  "checked_add x y = None \<longleftrightarrow> 2 ^ LENGTH('a) \<le> unat x + unat y" for x y :: "'a::len word"
  by (simp add: checked_add_def not_less)

lemma checked_sub_None [nat_simps]:
  "checked_sub x y = None \<longleftrightarrow> unat x < unat y" for x y :: "'a::len word"
  by (simp add: checked_sub_def word_le_nat_alt not_le)

lemma checked_mul_None [nat_simps]:
  "checked_mul x y = None \<longleftrightarrow> 2 ^ LENGTH('a) \<le> unat x * unat y" for x y :: "'a::len word"
  by (simp add: checked_mul_def not_less)

lemma checked_div_None [nat_simps]: "checked_div x y = None \<longleftrightarrow> y = 0" for x y :: "'a::len word"
  by (simp add: checked_div_def)

lemma unat_saturating_sub [nat_simps]: "unat (saturating_sub x y) = unat x - unat y"
  for x y :: "'a::len word"
  by (simp add: saturating_sub_def unat_sub_if_size word_less_nat_alt word_le_nat_alt)

lemma unat_saturating_add [nat_simps]:
  "unat (saturating_add x y) = min (unat x + unat y) (2 ^ LENGTH('a) - 1)"
  for x y :: "'a::len word"
proof (cases "unat x + unat y < 2 ^ LENGTH('a)")
  case True
  then show ?thesis by (simp add: saturating_add_def unat_word_ariths)
next
  case False
  then show ?thesis by (simp add: saturating_add_def unat_max_word)
qed

lemma unat_saturating_mul [nat_simps]:
  "unat (saturating_mul x y) = min (unat x * unat y) (2 ^ LENGTH('a) - 1)"
  for x y :: "'a::len word"
proof (cases "unat x * unat y < 2 ^ LENGTH('a)")
  case True
  then show ?thesis by (simp add: saturating_mul_def unat_word_ariths)
next
  case False
  then show ?thesis by (simp add: saturating_mul_def unat_max_word)
qed

lemma checked_sadd_Some [nat_simps]:
  "checked_sadd x y = Some z \<longleftrightarrow> sint z = sint x + sint y" for x y z :: "'a::len word"
proof
  assume h: "checked_sadd x y = Some z"
  then have "- (2 ^ (LENGTH('a) - 1)) \<le> sint x + sint y"
    "sint x + sint y < 2 ^ (LENGTH('a) - 1)" "z = x + y"
    by (auto simp: checked_sadd_def split: if_splits)
  then show "sint z = sint x + sint y"
    by (simp add: sint_word_ariths signed_take_bit_int_eq_self)
next
  assume h: "sint z = sint x + sint y"
  have r: "- (2 ^ (LENGTH('a) - 1)) \<le> sint z" "sint z < 2 ^ (LENGTH('a) - 1)"
    using sint_ge [of z] sint_lt [of z] by simp_all
  then have "sint (x + y) = sint z"
    using h by (simp add: sint_word_ariths signed_take_bit_int_eq_self)
  then have "x + y = z" by (rule signed_word_eqI)
  with r h show "checked_sadd x y = Some z" by (simp add: checked_sadd_def)
qed

lemma checked_ssub_Some [nat_simps]:
  "checked_ssub x y = Some z \<longleftrightarrow> sint z = sint x - sint y" for x y z :: "'a::len word"
proof
  assume h: "checked_ssub x y = Some z"
  then have "- (2 ^ (LENGTH('a) - 1)) \<le> sint x - sint y"
    "sint x - sint y < 2 ^ (LENGTH('a) - 1)" "z = x - y"
    by (auto simp: checked_ssub_def split: if_splits)
  then show "sint z = sint x - sint y"
    by (simp add: sint_word_ariths signed_take_bit_int_eq_self)
next
  assume h: "sint z = sint x - sint y"
  have r: "- (2 ^ (LENGTH('a) - 1)) \<le> sint z" "sint z < 2 ^ (LENGTH('a) - 1)"
    using sint_ge [of z] sint_lt [of z] by simp_all
  then have "sint (x - y) = sint z"
    using h by (simp add: sint_word_ariths signed_take_bit_int_eq_self)
  then have "x - y = z" by (rule signed_word_eqI)
  with r h show "checked_ssub x y = Some z" by (simp add: checked_ssub_def)
qed

text \<open>A non-negative two's complement word reinterpreted as unsigned keeps its value.\<close>

lemma uint_nonneg_sint:
  assumes "0 \<le> sint x"
  shows "int (unat (x :: 'a::len word)) = sint x"
proof -
  have "(2::int) ^ (LENGTH('a) - 1) \<le> 2 ^ LENGTH('a)"
    by (rule power_increasing) simp_all
  then have "sint x < 2 ^ LENGTH('a)"
    using sint_lt [of x] by (rule less_le_trans [rotated])
  with assms show ?thesis by (simp add: uint_sint take_bit_int_eq_self)
qed

lemma unat_le_iff [nat_simps]: "x \<le> y \<longleftrightarrow> unat x \<le> unat y" for x y :: "'a::len word"
  by (rule word_le_nat_alt)

lemma unat_less_iff [nat_simps]: "x < y \<longleftrightarrow> unat x < unat y" for x y :: "'a::len word"
  by (rule word_less_nat_alt)

lemma unat_min [nat_simps]: "unat (min x y) = min (unat x) (unat y)" for x y :: "'a::len word"
  by (simp add: min_def word_le_nat_alt)

lemma unat_div_word [nat_simps]: "unat (x div y) = unat x div unat y" for x y :: "'a::len word"
  by (rule unat_div)

lemma unat_u64_bound: "unat (x::u64) < 18446744073709551616"
  using unsigned_less [of x, where ?'a = nat] by simp

lemma unat_u128_bound: "unat (x::u128) < 340282366920938463463374607431768211456"
  using unsigned_less [of x, where ?'a = nat] by simp

lemma unat_u64_max [nat_simps]: "unat u64_max = 18446744073709551615"
  by (simp add: u64_max_def)

text \<open>Widening casts keep the value; a narrowing cast keeps it when it fits.\<close>

lemma unat_ucast_fits:
  assumes "unat x < 2 ^ LENGTH('b)"
  shows "unat (ucast x :: 'b::len word) = unat (x :: 'a::len word)"
  using assms by (simp add: unsigned_ucast_eq take_bit_nat_eq_self)

lemma unat_ucast_widen:
  assumes "LENGTH('a) \<le> LENGTH('b)"
  shows "unat (ucast x :: 'b::len word) = unat (x :: 'a::len word)"
proof (rule unat_ucast_fits)
  have "unat x < 2 ^ LENGTH('a)" by (rule unsigned_less)
  also have "\<dots> \<le> 2 ^ LENGTH('b)" using assms by simp
  finally show "unat x < 2 ^ LENGTH('b)" .
qed

lemma unat_ucast_u64_u128 [nat_simps]: "unat (ucast (x::u64) :: u128) = unat x"
  by (rule unat_ucast_widen) simp

lemma unat_ucast_u16_u128 [nat_simps]: "unat (ucast (x::u16) :: u128) = unat x"
  by (rule unat_ucast_widen) simp

lemma unat_ucast_u16_u32 [nat_simps]: "unat (ucast (x::u16) :: u32) = unat x"
  by (rule unat_ucast_widen) simp

lemma ucast_u64_u128_eq_0 [simp]: "(ucast (x::u64) :: u128) = 0 \<longleftrightarrow> x = 0"
  using unat_ucast_u64_u128 [of x] by (metis unat_eq_zero)

lemma unat_ucast_u128_u64:
  "unat x \<le> 18446744073709551615 \<Longrightarrow> unat (ucast (x::u128) :: u64) = unat x"
  by (rule unat_ucast_fits) simp

lemma unat_u16_bound: "unat (x::u16) < 65536"
  using unsigned_less [of x, where ?'a = nat] by simp

text \<open>
  Products of a 64-bit and a 16-bit, or of two 64-bit, values never leave \<open>u128\<close>: the
  source's widening before \<open>checked_mul\<close> makes those multiplications total.
\<close>

lemma u64_times_u64_fits: "unat (x::u64) * unat (y::u64) < 2 ^ 128"
proof -
  have "unat x * unat y \<le> 18446744073709551615 * 18446744073709551615"
    using unat_u64_bound [of x] unat_u64_bound [of y] by (intro mult_le_mono) simp_all
  then show ?thesis by simp
qed

lemma u64_times_u16_fits: "unat (x::u64) * unat (y::u16) + 65536 < 2 ^ 128"
proof -
  have "unat x * unat y \<le> 18446744073709551615 * 65535"
    using unat_u64_bound [of x] unat_u16_bound [of y] by (intro mult_le_mono) simp_all
  then show ?thesis by simp
qed

text \<open>A word with a given value; \<open>checked_mul\<close> followed by \<open>checked_div\<close> as one step.\<close>

lemma unat_word_of_nat_fits: "n < 2 ^ LENGTH('a) \<Longrightarrow> unat (word_of_nat n :: 'a::len word) = n"
  by (simp add: unsigned_of_nat take_bit_nat_eq_self)

lemma ex_unat: "(\<exists>z::'a::len word. unat z = n) \<longleftrightarrow> n < 2 ^ LENGTH('a)"
  using unat_word_of_nat_fits [of n, where ?'a = 'a]
  by (auto intro: exI [of _ "word_of_nat n"])

lemma ex_unat_and:
  "(\<exists>z::'a::len word. unat z = n \<and> P (unat z)) \<longleftrightarrow> n < 2 ^ LENGTH('a) \<and> P n"
  using ex_unat [of n, where ?'a = 'a] by auto

lemma bind_Some_iff: "Option.bind x f = Some z \<longleftrightarrow> (\<exists>y. x = Some y \<and> f y = Some z)"
  by (cases x) auto

lemma bind_None_iff:
  "Option.bind x f = None \<longleftrightarrow> x = None \<or> (\<exists>y. x = Some y \<and> f y = None)"
  by (cases x) auto

lemma muldiv_Some [ok_simps]:
  "Option.bind (checked_mul x y) (\<lambda>v. checked_div v d) = Some z \<longleftrightarrow>
     unat x * unat y < 2 ^ LENGTH('a) \<and> d \<noteq> 0 \<and> unat z = unat x * unat y div unat d"
  for x y d z :: "'a::len word"
  using ex_unat [of "unat x * unat y", where ?'a = 'a]
  by (auto simp: bind_Some_iff nat_simps unat_eq_zero)

lemma muldiv_None:
  "Option.bind (checked_mul x y) (\<lambda>v. checked_div v d) = None \<longleftrightarrow>
     2 ^ LENGTH('a) \<le> unat x * unat y \<or> d = 0"
  for x y d :: "'a::len word"
proof (cases "checked_mul x y")
  case None
  then show ?thesis using checked_mul_None [of x y] by simp
next
  case (Some v)
  then have "\<not> 2 ^ LENGTH('a) \<le> unat x * unat y"
    by (simp add: checked_mul_def split: if_splits)
  with Some show ?thesis by (simp add: checked_div_None)
qed

section \<open>Floor division\<close>

lemma div_le_of_le_mult: "(a::nat) \<le> b * c \<Longrightarrow> a div c \<le> b"
  by (metis div_le_mono div_mult_self_is_m div_by_0 le0 neq0_conv)

lemma mult_div_le_self: "(a::nat) * b div d \<le> a" if "b \<le> d"
proof (rule div_le_of_le_mult)
  show "a * b \<le> a * d" using that by simp
qed

lemma div_add_le: "(a::nat) div d + b div d \<le> (a + b) div d"
  by (metis add_mult_distrib div_le_mono div_mult_self_is_m div_times_less_eq_dividend
      add_mono gr0I div_by_0 le0 add_0)

lemma div_add_ge: "(a + b) div d \<le> a div d + b div d + (1::nat)"
proof (cases "d = 0")
  case False
  then have "a mod d + b mod d < 2 * d"
    using mod_less_divisor [of d a] mod_less_divisor [of d b] by linarith
  then have "(a mod d + b mod d) div d < 2" by (rule less_mult_imp_div_less)
  then show ?thesis by (simp add: div_add1_eq [of a b d])
qed simp

section \<open>Lists: \<open>iter().position\<close> and swap-remove\<close>

fun position :: "'a \<Rightarrow> 'a list \<Rightarrow> nat option" where
  "position k [] = None"
| "position k (x # xs) = (if x = k then Some 0 else map_option Suc (position k xs))"

text \<open>\<open>xs[i]\<close>, which panics out of range.\<close>

definition at_index :: "'a list \<Rightarrow> nat \<Rightarrow> ('e, 'a) result" where
  "at_index xs i = (if i < length xs then Ok (xs ! i) else Inl Panic)"

lemma at_index_Ok [ok_simps]: "at_index xs i = Inr y \<longleftrightarrow> i < length xs \<and> xs ! i = y"
  by (auto simp: at_index_def)

lemma position_None: "position k xs = None \<longleftrightarrow> k \<notin> set xs"
  by (induction xs) auto

lemma position_notin [simp]: "k \<notin> set xs \<Longrightarrow> position k xs = None"
  by (simp add: position_None)

lemma position_Some: "position k xs = Some i \<Longrightarrow> i < length xs \<and> xs ! i = k"
  by (induction xs arbitrary: i) (auto split: if_splits)

lemma mset_butlast: "ys \<noteq> [] \<Longrightarrow> mset (butlast ys) = mset ys - {#last ys#}"
  by (induction ys rule: rev_induct) simp_all

lemma mset_swap_remove:
  assumes "i < length xs"
  shows "mset (butlast (xs[i := last xs])) = mset xs - {#xs ! i#}"
proof -
  have ne: "xs \<noteq> []" using assms by auto
  have "last (xs[i := last xs]) = last xs"
    using assms ne by (simp add: last_list_update last_conv_nth nth_list_update)
  with ne show ?thesis
    by (simp add: mset_butlast mset_update assms)
qed

lemma mset_remove1_distinct:
  assumes "mset ys = mset xs - {#k#}" "distinct xs"
  shows "distinct ys \<and> set ys = set xs - {k}"
proof -
  have "mset ys = mset (remove1 k xs)" using assms(1) by simp
  then have "distinct ys = distinct (remove1 k xs)" "set ys = set (remove1 k xs)"
    by (rule mset_eq_imp_distinct_iff, rule mset_eq_setD)
  with assms(2) show ?thesis by simp
qed

section \<open>Sums over finite maps\<close>

text \<open>The total of a quantity over the accounts of a map keyed by their PDA seeds.\<close>

definition msum :: "('v \<Rightarrow> nat) \<Rightarrow> ('k \<rightharpoonup> 'v) \<Rightarrow> nat" where
  "msum f m = (\<Sum>k\<in>dom m. f (the (m k)))"

lemma msum_empty [simp]: "msum f Map.empty = 0"
  by (simp add: msum_def)

lemma msum_upd:
  assumes "finite (dom m)"
  shows "msum f (m(k \<mapsto> v)) + (case m k of None \<Rightarrow> 0 | Some x \<Rightarrow> f x) = msum f m + f v"
proof -
  let ?D = "dom m - {k}"
  have rest: "(\<Sum>i\<in>?D. f (the ((m(k \<mapsto> v)) i))) = (\<Sum>i\<in>?D. f (the (m i)))"
    by (rule sum.cong) auto
  have new: "msum f (m(k \<mapsto> v)) = f v + (\<Sum>i\<in>?D. f (the (m i)))"
    unfolding msum_def using assms rest
    by (simp add: sum.insert_remove)
  show ?thesis
  proof (cases "m k")
    case None
    then have "?D = dom m" by auto
    with None new show ?thesis by (simp add: msum_def)
  next
    case (Some x)
    then have "k \<in> dom m" by auto
    then have "msum f m = f x + (\<Sum>i\<in>?D. f (the (m i)))"
      unfolding msum_def using assms Some by (simp add: sum.remove)
    with Some new show ?thesis by simp
  qed
qed

lemma msum_member:
  assumes "finite (dom m)" "m k = Some v"
  shows "f v \<le> msum f m"
proof -
  have "k \<in> dom m" using assms by auto
  then have "f (the (m k)) \<le> msum f m"
    unfolding msum_def using assms by (intro member_le_sum) auto
  with assms show ?thesis by simp
qed

end
