(* ===== verification/Grai_Types.thy ===== *)
theory Grai_Types
  imports Prelude
begin

text \<open>
  The accounts of the GRAI program (\<open>programs/grai/src/lib.rs\<close>) and its error codes
  (\<open>errors.rs\<close>), the SPL-token accounts it reads, and the environment it runs in.

  A program-derived account is addressed by the seeds it is derived from, so the accounts
  of one kind are a map from the seed's parameters: \<open>assets\<close> by mint, \<open>escrows\<close> by user,
  \<open>positions\<close> by user and mint, \<open>books\<close> by locker. \<open>None\<close> is an account that is not
  initialised (empty data, or not owned by the program). Token accounts are addressed by
  their key.

  The SPL-token program, the address derivation of the runtime, the associated-token
  derivation, the oracles and the system program are not part of this repository: they are
  the fields of \<open>env\<close> (\<open>Grai_World\<close>), and what the code relies on is stated by
  \<open>env_laws\<close> there.
\<close>

section \<open>Error codes\<close>

datatype (plugins only: code size) ErrorCode =
    Unauthorized | InvalidPendingOwner | AmountZero | InvalidAmount | MathOverflow |
    BpsTooHigh | PeriodZero | InvalidMint | InvalidDestination | InvalidDepositSource |
    InvalidGrinders | GrindersGraiMismatch | ZeroAddress | AlreadyBound | ReferralLoop |
    InvalidShares | AssetUnknown | AssetAlreadyRegistered | NotPaused | Paused |
    AssetBalanceNonZero | NotBribeable | InvalidCuts | VotesOpen | LiquidationOpen |
    LiquidationClosed | LiquidationQuorumNotMet | LiquidationDelay | RedeemPeriodActive |
    ChainlinkReadError | ChainlinkRoundMissing | InvalidChainlinkPrice | StaleChainlinkPrice
    | InvalidChainlinkFeed | InvalidCustomPriceFeed | PythReadError | StalePythPrice |
    InvalidPythPrice | InvalidRemainingAccounts | InvalidVoteEscrow |
    InsufficientGraiBalance | InsolventRevive | InsolventBook | GrindersGrinding |
    InvalidLockerRange | InvalidVoterRange | InvalidReferrer | InvalidReferralRange |
    InvalidPdaInit | InvalidPythFeedId

type_synonym 'a res = "(ErrorCode, 'a) result"

section \<open>Program accounts\<close>

record Config =
  dividend_cut_bps :: u16
  treasury_cut_bps :: u16
  revenue_share_bps :: u16
  claim_tip_bps :: u16
  bribe_premium_bps :: u16
  quorum_bps :: u16
  unlock_penalty_bps :: u16
  poach_fee_bps :: u16
  liquidation_period :: u32
  redeem_period :: u32
  mint_premium_bps_per_year :: u16

record GraiState =
  gs_owner :: pubkey
  gs_pending_owner :: pubkey
  gs_beneficiar :: pubkey
  gs_grinders :: pubkey
  total_value :: u128
  total_locked :: u64
  total_voted :: u64
  liquidation :: bool
  liquidation_at :: i64
  mint_premium_at :: i64
  gs_grai_mint :: pubkey
  gs_config :: Config
  royalty_bps :: u16
  affiliate_levels :: u8
  affiliate_share_bps :: "u16 list"
  asset_mints :: "pubkey list"
  lockers :: "pubkey list"
  voters :: "pubkey list"
  referrers :: "pubkey list"
  gs_bump :: u8

record AssetConfig =
  ac_asset_mint :: pubkey
  ac_price_feed :: pubkey
  ac_paused :: bool
  ac_bribeable :: bool
  ac_id :: u32
  acc_share :: u128
  total_claimable :: u64
  total_yielded :: u64
  ac_bump :: u8
  pyth_feed_id :: "256 word"

record Escrow =
  es_amount :: u64
  es_voted :: u64
  es_voted_at :: i64
  es_locker_id :: u32
  es_voter_id :: u32
  es_bump :: u8

record Position =
  po_debt :: u128
  po_claimable :: u64
  po_yielded :: u64
  po_bump :: u8

record Referrer =
  rf_referrer :: pubkey
  rf_nft_mint :: pubkey
  rf_value :: u128
  rf_l1_value :: u128
  rf_l2_value :: u128
  rf_bump :: u8

text \<open>An oracle reading, \<open>price_feed.rs\<close>; the price is an \<open>i128\<close>.\<close>

record PriceData =
  pd_price :: i128
  pd_decimals :: u8
  pd_updated_at :: i64
  pd_updated_slot :: u64

text \<open>\<open>GraiState::space\<close>: the account's size for given list lengths.\<close>

definition MAX_AFFILIATE_LEVELS :: nat where
  "MAX_AFFILIATE_LEVELS = 2"

definition Config_LEN :: nat where
  "Config_LEN = 2 * 9 + 4 * 2"

definition GraiState_FIXED_LEN :: nat where
  "GraiState_FIXED_LEN = 32 * 4 + 16 + 8 + 8 + 1 + 8 + 8 + 32 + Config_LEN + 2 + 1
     + 2 * MAX_AFFILIATE_LEVELS + 1"

definition GraiState_space :: "nat \<Rightarrow> nat \<Rightarrow> nat \<Rightarrow> nat \<Rightarrow> nat" where
  "GraiState_space asset_count locker_count voter_count referrer_count =
     8 + GraiState_FIXED_LEN + 4 + asset_count * 32 + 4 + locker_count * 32
       + 4 + voter_count * 32 + 4 + referrer_count * 32"

end
