(* ===== verification/Tokenomics.thy ===== *)
theory Tokenomics
  imports Grai_Types
begin

text \<open>
  \<open>programs/grai/src/tokenomics.rs\<close>: the pure arithmetic of the protocol - basis-point cuts,
  the unlock penalty, pending dividends, oracle valuation, the deposit mint with its compound
  premium, the dynamic bribe ask, the quorum test and the liquidation shares. Each function
  keeps the source's widths, widening casts, checked operations and error codes; the lemmas
  read each one on natural numbers.
\<close>

section \<open>Constants\<close>

definition BPS :: u16 where "BPS = 10000"

definition DIVIDEND_PRECISION :: u128 where "DIVIDEND_PRECISION = 1000000000000000000"

definition USD_DECIMALS :: u8 where "USD_DECIMALS = 6"

definition DEFAULT_DIVIDEND_CUT_BPS :: u16 where "DEFAULT_DIVIDEND_CUT_BPS = 5000"
definition DEFAULT_TREASURY_CUT_BPS :: u16 where "DEFAULT_TREASURY_CUT_BPS = 5000"
definition DEFAULT_REVENUE_SHARE_BPS :: u16 where "DEFAULT_REVENUE_SHARE_BPS = 500"
definition DEFAULT_CLAIM_TIP_BPS :: u16 where "DEFAULT_CLAIM_TIP_BPS = 100"
definition MAX_CLAIM_TIP_BPS :: u16 where "MAX_CLAIM_TIP_BPS = 500"
definition DEFAULT_BRIBE_PREMIUM_BPS :: u16 where "DEFAULT_BRIBE_PREMIUM_BPS = 200"
definition DEFAULT_QUORUM_BPS :: u16 where "DEFAULT_QUORUM_BPS = 6667"
definition DEFAULT_UNLOCK_PENALTY_BPS :: u16 where "DEFAULT_UNLOCK_PENALTY_BPS = 100"
definition MAX_UNLOCK_PENALTY_BPS :: u16 where "MAX_UNLOCK_PENALTY_BPS = 1000"
definition DEFAULT_POACH_FEE_BPS :: u16 where "DEFAULT_POACH_FEE_BPS = 100"
definition MAX_POACH_FEE_BPS :: u16 where "MAX_POACH_FEE_BPS = 1000"
definition DEFAULT_LIQUIDATION_PERIOD :: u32 where "DEFAULT_LIQUIDATION_PERIOD = 24 * 60 * 60"
definition DEFAULT_REDEEM_PERIOD :: u32 where "DEFAULT_REDEEM_PERIOD = 7 * 24 * 60 * 60"
definition DEFAULT_MINT_PREMIUM_BPS_PER_YEAR :: u16 where
  "DEFAULT_MINT_PREMIUM_BPS_PER_YEAR = 500"
definition MAX_MINT_PREMIUM_YEARS :: u64 where "MAX_MINT_PREMIUM_YEARS = 100"
definition MINT_PREMIUM_YEAR_SECONDS :: i64 where
  "MINT_PREMIUM_YEAR_SECONDS = 365 * 24 * 60 * 60"

lemmas cap_defs = BPS_def MAX_CLAIM_TIP_BPS_def MAX_UNLOCK_PENALTY_BPS_def MAX_POACH_FEE_BPS_def

lemma unat_BPS [nat_simps, simp]: "unat BPS = 10000"
  by (simp add: BPS_def)

lemma BPS_u128 [nat_simps, simp]:
  "unat (ucast BPS :: u128) = 10000" "unat (ucast BPS - 1 :: u128) = 9999"
  "(ucast BPS :: u128) \<noteq> 0"
  by (simp_all add: BPS_def)

lemma unat_DIVIDEND_PRECISION [nat_simps, simp]:
  "unat DIVIDEND_PRECISION = 1000000000000000000"
  by (simp add: DIVIDEND_PRECISION_def)

section \<open>The protocol configuration\<close>

definition default_protocol_config :: Config where
  "default_protocol_config =
     \<lparr> dividend_cut_bps = DEFAULT_DIVIDEND_CUT_BPS,
       treasury_cut_bps = DEFAULT_TREASURY_CUT_BPS,
       revenue_share_bps = DEFAULT_REVENUE_SHARE_BPS,
       claim_tip_bps = DEFAULT_CLAIM_TIP_BPS,
       bribe_premium_bps = DEFAULT_BRIBE_PREMIUM_BPS,
       quorum_bps = DEFAULT_QUORUM_BPS,
       unlock_penalty_bps = DEFAULT_UNLOCK_PENALTY_BPS,
       poach_fee_bps = DEFAULT_POACH_FEE_BPS,
       liquidation_period = DEFAULT_LIQUIDATION_PERIOD,
       redeem_period = DEFAULT_REDEEM_PERIOD,
       mint_premium_bps_per_year = DEFAULT_MINT_PREMIUM_BPS_PER_YEAR \<rparr>"

definition validate_protocol_config :: "Config \<Rightarrow> unit res" where
  "validate_protocol_config cfg =
     and_then (require (dividend_cut_bps cfg \<le> BPS) BpsTooHigh) (\<lambda>_.
     and_then (require (treasury_cut_bps cfg \<le> BPS) BpsTooHigh) (\<lambda>_.
     and_then (require (revenue_share_bps cfg \<le> treasury_cut_bps cfg) BpsTooHigh) (\<lambda>_.
     and_then (require (claim_tip_bps cfg \<le> MAX_CLAIM_TIP_BPS) BpsTooHigh) (\<lambda>_.
     and_then (require (2 \<le> quorum_bps cfg \<and> quorum_bps cfg < BPS) BpsTooHigh) (\<lambda>_.
     and_then (require (dividend_cut_bps cfg \<noteq> 0) InvalidCuts) (\<lambda>_.
     and_then (require (unlock_penalty_bps cfg \<le> MAX_UNLOCK_PENALTY_BPS) BpsTooHigh) (\<lambda>_.
     and_then (require (poach_fee_bps cfg \<le> MAX_POACH_FEE_BPS) BpsTooHigh) (\<lambda>_.
     and_then (require (2 * (ucast (bribe_premium_bps cfg) :: u32) \<le> ucast BPS) BpsTooHigh) (\<lambda>_.
     and_then (require ((ucast (dividend_cut_bps cfg) :: u32) + ucast (treasury_cut_bps cfg)
                 = ucast BPS) InvalidCuts) (\<lambda>_.
     and_then (require (liquidation_period cfg \<noteq> 0 \<and> redeem_period cfg \<noteq> 0) PeriodZero) (\<lambda>_.
     and_then (require (mint_premium_bps_per_year cfg \<le> BPS) BpsTooHigh) (\<lambda>_.
     Ok ()))))))))))))"

section \<open>Cuts\<close>

text \<open>The final narrowing cast \<open>v as u64\<close> guarded by \<open>v <= u64::MAX\<close>.\<close>

definition narrow :: "u128 \<Rightarrow> u64 res" where
  "narrow v = and_then (require (v \<le> ucast u64_max) MathOverflow) (\<lambda>_. Ok (ucast v))"

lemmas [eval_simps] = BPS_def DIVIDEND_PRECISION_def USD_DECIMALS_def narrow_def

definition bps_of :: "u64 \<Rightarrow> u16 \<Rightarrow> u64 res" where
  "bps_of amount bps =
     and_then (ok_or (Option.bind (checked_mul (ucast amount) (ucast bps))
                 (\<lambda>v. checked_div v (ucast BPS))) MathOverflow) (\<lambda>cut.
     narrow cut)"

definition bps_ceil :: "u64 \<Rightarrow> u16 \<Rightarrow> u64 res" where
  "bps_ceil amount bps =
     (if bps = 0 \<or> amount = 0 then Ok 0
      else
        and_then (ok_or (Option.bind (checked_mul (ucast amount) (ucast bps)) (\<lambda>v.
                    Option.bind (checked_add v (ucast BPS - 1)) (\<lambda>v.
                    checked_div v (ucast BPS)))) MathOverflow) (\<lambda>cut.
        narrow cut))"

definition mul_div :: "u64 \<Rightarrow> u64 \<Rightarrow> u64 \<Rightarrow> u64 res" where
  "mul_div a b d =
     and_then (require (d \<noteq> 0) MathOverflow) (\<lambda>_.
     and_then (ok_or (Option.bind (checked_mul (ucast a) (ucast b))
                 (\<lambda>v. checked_div v (ucast d))) MathOverflow) (\<lambda>value.
     narrow value))"

definition split_cuts :: "u64 \<Rightarrow> Config \<Rightarrow> (u64 \<times> u64) res" where
  "split_cuts amount cfg =
     and_then (bps_of amount (dividend_cut_bps cfg)) (\<lambda>dividend.
     and_then (ok_or (checked_sub amount dividend) MathOverflow) (\<lambda>treasury.
     Ok (treasury, dividend)))"

definition preview_unlock :: "u64 \<Rightarrow> u64 \<Rightarrow> u16 \<Rightarrow> (u64 \<times> u64) res" where
  "preview_unlock grai_amount escrow_amount unlock_penalty_bps' =
     and_then (require (grai_amount \<le> escrow_amount) InvalidAmount) (\<lambda>_.
     if unlock_penalty_bps' = 0 \<or> grai_amount = 0 then Ok (grai_amount, 0)
     else
       let min_unlock = (ucast BPS + ucast unlock_penalty_bps' - 1) div ucast unlock_penalty_bps' in
       and_then (require (min_unlock \<le> (ucast grai_amount :: u128)) InvalidAmount) (\<lambda>_.
       and_then (ok_or (Option.bind (checked_mul (ucast grai_amount) (ucast unlock_penalty_bps'))
                   (\<lambda>v. Option.bind (checked_add v (ucast BPS - 1)) (\<lambda>v.
                   checked_div v (ucast BPS)))) MathOverflow) (\<lambda>penalty.
       and_then (narrow penalty) (\<lambda>penalty.
       and_then (ok_or (checked_sub grai_amount penalty) MathOverflow) (\<lambda>unlock_amount.
       Ok (unlock_amount, penalty))))))"

section \<open>Dividends\<close>

definition pending_dividend :: "u64 \<Rightarrow> u128 \<Rightarrow> u128 \<Rightarrow> u64 \<Rightarrow> u64 res" where
  "pending_dividend locked acc debt claimable =
     and_then (ok_or (Option.bind (checked_mul (ucast locked) acc)
                 (\<lambda>v. checked_div v DIVIDEND_PRECISION)) MathOverflow) (\<lambda>accumulated.
     and_then (narrow (saturating_sub accumulated debt)) (\<lambda>unrealized.
     ok_or (checked_add claimable unrealized) MathOverflow))"

definition preview_claim :: "u64 \<Rightarrow> u64 \<Rightarrow> u64" where
  "preview_claim amount pending =
     (if amount = u64_max \<or> pending \<le> amount then pending else amount)"

section \<open>Valuation\<close>

text \<open>\<open>10u128.pow(decimals)\<close> overflows, and panics, from 39 decimals on.\<close>

definition pow10 :: "u8 \<Rightarrow> u128 res" where
  "pow10 decimals = (if unat decimals \<le> 38 then Ok (10 ^ unat decimals) else Inl Panic)"

definition usd_value :: "u64 \<Rightarrow> u8 \<Rightarrow> PriceData \<Rightarrow> u128 res" where
  "usd_value amount asset_decimals price =
     (if amount = 0 then Ok 0
      else
        and_then (require (0 < sint (pd_price price)) InvalidChainlinkPrice) (\<lambda>_.
        and_then (ok_or (checked_mul (ucast amount) (pd_price price)) MathOverflow) (\<lambda>v.
        and_then (pow10 USD_DECIMALS) (\<lambda>p6.
        and_then (ok_or (checked_mul v p6) MathOverflow) (\<lambda>numerator.
        and_then (pow10 asset_decimals) (\<lambda>pa.
        and_then (pow10 (pd_decimals price)) (\<lambda>pp.
        and_then (ok_or (checked_mul pa pp) MathOverflow) (\<lambda>denominator.
        ok_or (checked_div numerator denominator) MathOverflow))))))))"

definition settlement_amount :: "u128 \<Rightarrow> u8 \<Rightarrow> PriceData \<Rightarrow> u64 res" where
  "settlement_amount usd_amount settlement_decimals settlement_price =
     and_then (require (0 < sint (pd_price settlement_price)) InvalidChainlinkPrice) (\<lambda>_.
     and_then (pow10 settlement_decimals) (\<lambda>ps.
     and_then (ok_or (checked_mul usd_amount ps) MathOverflow) (\<lambda>v.
     and_then (pow10 (pd_decimals settlement_price)) (\<lambda>pp.
     and_then (ok_or (checked_mul v pp) MathOverflow) (\<lambda>numerator.
     and_then (pow10 USD_DECIMALS) (\<lambda>p6.
     and_then (ok_or (checked_mul (pd_price settlement_price) p6) MathOverflow) (\<lambda>denominator.
     and_then (ok_or (checked_div numerator denominator) MathOverflow) (\<lambda>amount.
     narrow amount))))))))"

section \<open>The deposit mint\<close>

definition preview_deposit_book :: "u128 \<Rightarrow> u64 \<Rightarrow> u128 \<Rightarrow> u64 res" where
  "preview_deposit_book value total_supply tot_value =
     and_then (if 0 < tot_value
               then ok_or (Option.bind (checked_mul value (ucast total_supply))
                      (\<lambda>v. checked_div v tot_value)) MathOverflow
               else Ok value) (\<lambda>grai_out.
     narrow grai_out)"

text \<open>The \<open>for _ in 0..years\<close> loop that compounds the ask price.\<close>

fun compound :: "nat \<Rightarrow> u16 \<Rightarrow> u128 \<Rightarrow> u128 res" where
  "compound 0 rate_bps price_bps = Ok price_bps"
| "compound (Suc n) rate_bps price_bps =
     and_then (ok_or (Option.bind (checked_mul price_bps (ucast BPS + ucast rate_bps))
                 (\<lambda>v. checked_div v (ucast BPS))) MathOverflow) (\<lambda>price_bps.
     compound n rate_bps price_bps)"

lemma compound_numeral [eval_simps]:
  "compound (numeral k) rate_bps p =
     and_then (ok_or (Option.bind (checked_mul p (ucast BPS + ucast rate_bps))
                 (\<lambda>v. checked_div v (ucast BPS))) MathOverflow) (compound (pred_numeral k) rate_bps)"
  "compound 1 rate_bps p =
     and_then (ok_or (Option.bind (checked_mul p (ucast BPS + ucast rate_bps))
                 (\<lambda>v. checked_div v (ucast BPS))) MathOverflow) (compound 0 rate_bps)"
  by (simp_all add: numeral_eq_Suc)

definition apply_mint_premium :: "u64 \<Rightarrow> u16 \<Rightarrow> i64 \<Rightarrow> i64 \<Rightarrow> u64 res" where
  "apply_mint_premium book rate_bps premium_at now =
     (if book = 0 \<or> rate_bps = 0 \<or> premium_at = 0 \<or> sint now < sint premium_at then Ok book
      else
        and_then (or_panic (checked_ssub now premium_at)) (\<lambda>elapsed.
        let years = elapsed div MINT_PREMIUM_YEAR_SECONDS in
        if years = 0 then Ok book
        else
          let years = (if MAX_MINT_PREMIUM_YEARS < years then MAX_MINT_PREMIUM_YEARS else years) in
          and_then (compound (unat years) rate_bps (ucast BPS)) (\<lambda>price_bps.
          and_then (ok_or (Option.bind (checked_mul (ucast book) (ucast BPS))
                      (\<lambda>v. checked_div v price_bps)) MathOverflow) (\<lambda>grai_out.
          narrow grai_out))))"

definition preview_deposit_soft ::
  "u128 \<Rightarrow> u64 \<Rightarrow> u128 \<Rightarrow> u16 \<Rightarrow> i64 \<Rightarrow> i64 \<Rightarrow> u64 res" where
  "preview_deposit_soft value total_supply tot_value rate_bps premium_at now =
     and_then (preview_deposit_book value total_supply tot_value) (\<lambda>book.
     apply_mint_premium book rate_bps premium_at now)"

definition preview_deposit ::
  "u128 \<Rightarrow> u64 \<Rightarrow> u128 \<Rightarrow> u16 \<Rightarrow> i64 \<Rightarrow> i64 \<Rightarrow> u64 res" where
  "preview_deposit value total_supply tot_value rate_bps premium_at now =
     and_then (preview_deposit_soft value total_supply tot_value rate_bps premium_at now)
       (\<lambda>grai_out.
     and_then (require (0 < grai_out) AmountZero) (\<lambda>_.
     Ok grai_out))"

section \<open>The bribe ask\<close>

text \<open>Below half quorum the ask carries a premium: \<open>(bribe, premium, discount = 0)\<close>.\<close>

definition bribe_premium_leg ::
  "u128 \<Rightarrow> u128 \<Rightarrow> u128 \<Rightarrow> u128 \<Rightarrow> u128 \<Rightarrow> (u128 \<times> u128 \<times> u128) res" where
  "bribe_premium_leg book max_adj half_bps vote_bps span =
     and_then (or_panic (checked_sub half_bps vote_bps)) (\<lambda>gap.
     and_then (ok_or (Option.bind (checked_mul max_adj gap) (\<lambda>v. checked_div v span))
                 MathOverflow) (\<lambda>adj.
     and_then (or_panic (checked_add (ucast BPS) adj)) (\<lambda>ask.
     and_then (ok_or (Option.bind (checked_mul book ask) (\<lambda>v. checked_div v (ucast BPS)))
                 MathOverflow) (\<lambda>bribe.
     and_then (or_panic (checked_sub bribe book)) (\<lambda>premium.
     Ok (bribe, premium, 0))))))"

text \<open>From half quorum on it carries a discount; half the gap is the briber's saving.\<close>

definition bribe_discount_leg ::
  "u128 \<Rightarrow> u128 \<Rightarrow> u128 \<Rightarrow> u128 \<Rightarrow> u128 \<Rightarrow> (u128 \<times> u128 \<times> u128) res" where
  "bribe_discount_leg book max_adj half_bps vote_bps span =
     and_then (or_panic (checked_sub vote_bps half_bps)) (\<lambda>gap.
     and_then (ok_or (Option.bind (checked_mul max_adj gap) (\<lambda>v. checked_div v span))
                 MathOverflow) (\<lambda>adj.
     and_then (if ucast BPS \<le> adj then Ok 0
               else
                 and_then (or_panic (checked_sub (ucast BPS) adj)) (\<lambda>ask.
                 ok_or (Option.bind (checked_mul book ask) (\<lambda>v. checked_div v (ucast BPS)))
                   MathOverflow)) (\<lambda>full_ask.
     and_then (or_panic (checked_sub book full_ask)) (\<lambda>gap2.
     let discount = gap2 div 2 in
     and_then (or_panic (checked_sub book discount)) (\<lambda>bribe.
     Ok (bribe, 0, discount))))))"

definition preview_bribe ::
  "u64 \<Rightarrow> u64 \<Rightarrow> u128 \<Rightarrow> u64 \<Rightarrow> u16 \<Rightarrow> u16 \<Rightarrow> u8 \<Rightarrow> PriceData \<Rightarrow> (u64 \<times> u64 \<times> u64) res" where
  "preview_bribe grai_amount total_supply tot_value tot_voted quorum premium_scale
       settlement_decimals settlement_price =
     and_then (require (0 < grai_amount) AmountZero) (\<lambda>_.
     and_then (if 0 < total_supply
               then ok_or (Option.bind (checked_mul (ucast grai_amount) tot_value)
                      (\<lambda>v. checked_div v (ucast total_supply))) MathOverflow
               else Ok 0) (\<lambda>value.
     and_then (settlement_amount value settlement_decimals settlement_price) (\<lambda>book64.
     let book = (ucast book64 :: u128);
         half_bps = (ucast quorum :: u128) div 2 in
     and_then (if 0 < total_supply
               then ok_or (Option.bind (checked_mul (ucast tot_voted) (ucast BPS))
                      (\<lambda>v. checked_div v (ucast total_supply))) MathOverflow
               else Ok 0) (\<lambda>vote_bps.
     let span = (if 0 < half_bps then half_bps else 1);
         max_adj = (ucast premium_scale :: u128) in
     and_then (if vote_bps < half_bps
               then bribe_premium_leg book max_adj half_bps vote_bps span
               else bribe_discount_leg book max_adj half_bps vote_bps span)
       (\<lambda>(bribe_amount, premium, discount).
     and_then (require (0 < bribe_amount) AmountZero) (\<lambda>_.
     and_then (require (bribe_amount \<le> ucast u64_max) MathOverflow) (\<lambda>_.
     Ok (ucast bribe_amount, ucast premium, ucast discount))))))))"

section \<open>Quorum and liquidation shares\<close>

definition has_quorum :: "u64 \<Rightarrow> u64 \<Rightarrow> u16 \<Rightarrow> bool res" where
  "has_quorum tot_voted total_supply liquidation_quorum_bps =
     and_then (or_panic (checked_mul (ucast tot_voted :: u128) (ucast BPS))) (\<lambda>l.
     and_then (or_panic (checked_mul (ucast total_supply) (ucast liquidation_quorum_bps))) (\<lambda>r.
     Ok (r < l)))"

definition preview_liquidate_share :: "u64 \<Rightarrow> u64 \<Rightarrow> u64 \<Rightarrow> u64 res" where
  "preview_liquidate_share asset_balance grai_amount total_supply =
     (if asset_balance = 0 \<or> total_supply = 0 then Ok 0
      else
        and_then (ok_or (Option.bind (checked_mul (ucast asset_balance) (ucast grai_amount))
                    (\<lambda>v. checked_div v (ucast total_supply))) MathOverflow) (\<lambda>share.
        narrow share))"

definition liquidate_value :: "u64 \<Rightarrow> u64 \<Rightarrow> u128 \<Rightarrow> u128 res" where
  "liquidate_value grai_amount total_supply tot_value =
     (if total_supply = 0 then Ok 0
      else
        ok_or (Option.bind (checked_mul (ucast grai_amount) tot_value)
          (\<lambda>v. checked_div v (ucast total_supply))) MathOverflow)"

end
