(* ===== verification/Tokenomics_Facts.thy ===== *)
theory Tokenomics_Facts
  imports Tokenomics
begin

text \<open>
  What the functions of \<open>tokenomics.rs\<close> compute, read on natural numbers. The lemmas
  \<open>..._Ok\<close> characterise success and its value; the properties state the contracts the
  protocol relies on.
\<close>

section \<open>Readings on natural numbers\<close>

lemma narrow_Ok [ok_simps]: "narrow v = Ok c \<longleftrightarrow> unat c = unat v"
proof (cases "unat v \<le> 18446744073709551615")
  case True
  then show ?thesis
    by (auto simp: narrow_def ok_simps word_le_nat_alt nat_simps unat_eq_iff unat_ucast_u128_u64)
next
  case False
  then show ?thesis
    using unat_u64_bound [of c]
    by (auto simp: narrow_def ok_simps word_le_nat_alt nat_simps)
qed

lemma narrow_Err [err_simps]:
  "narrow v = Inl e \<longleftrightarrow> e = Raise MathOverflow \<and> 18446744073709551615 < unat v"
  by (auto simp: narrow_def err_simps word_le_nat_alt nat_simps)

text \<open>The widened product divided and narrowed: the shape of every cut and share.\<close>

lemma muldiv_narrow_Ok:
  "and_then (ok_or (Option.bind (checked_mul x y) (\<lambda>v. checked_div v d)) MathOverflow) narrow
     = Ok c \<longleftrightarrow>
   unat x * unat y < 2 ^ 128 \<and> d \<noteq> 0 \<and> unat c = unat x * unat y div unat d"
  (is "?L \<longleftrightarrow> ?R") for x y d :: u128
proof
  assume ?L then show ?R by (auto simp: ok_simps muldiv_Some)
next
  assume r: ?R
  then have "unat x * unat y div unat d < 2 ^ 128"
    by (meson div_le_dividend le_less_trans)
  then obtain z :: u128 where "unat z = unat x * unat y div unat d"
    using ex_unat [of "unat x * unat y div unat d", where ?'a = 128] by auto
  with r show ?L by (auto simp: ok_simps muldiv_Some)
qed

lemma muldiv_narrow_Err:
  "and_then (ok_or (Option.bind (checked_mul x y) (\<lambda>v. checked_div v d)) MathOverflow) narrow
     = Inl e \<Longrightarrow> e = Raise MathOverflow"
  for x y d :: u128
  by (auto simp: err_simps)

lemma bps_of_Ok [ok_simps]: "bps_of a b = Ok c \<longleftrightarrow> unat c = unat a * unat b div 10000"
  using u64_times_u16_fits [of a b]
  by (simp add: bps_of_def muldiv_narrow_Ok nat_simps unat_eq_iff)

lemma bps_of_Err: "bps_of a b = Inl e \<Longrightarrow> e = Raise MathOverflow"
  unfolding bps_of_def by (rule muldiv_narrow_Err)

lemma mul_div_Ok [ok_simps]:
  "mul_div a b d = Ok c \<longleftrightarrow> d \<noteq> 0 \<and> unat c = unat a * unat b div unat d"
  using u64_times_u64_fits [of a b]
  by (cases "d = 0") (simp_all add: mul_div_def muldiv_narrow_Ok nat_simps unat_eq_iff)

lemma mul_div_Err:
  "mul_div a b d = Inl e \<longleftrightarrow>
     e = Raise MathOverflow \<and> (d = 0 \<or> 18446744073709551616 \<le> unat a * unat b div unat d)"
  (is "_ \<longleftrightarrow> ?R")
proof (cases "d = 0 \<or> 18446744073709551616 \<le> unat a * unat b div unat d")
  case True
  have "mul_div a b d \<noteq> Ok c" for c
    using True unat_u64_bound [of c] by (auto simp: mul_div_Ok)
  then obtain e' where e': "mul_div a b d = Inl e'" by (cases "mul_div a b d") auto
  have "e' = Raise MathOverflow"
    using e' by (auto simp: mul_div_def err_simps split: if_splits)
  with True e' show ?thesis by auto
next
  case False
  then obtain c :: u64 where "unat c = unat a * unat b div unat d"
    using ex_unat [of "unat a * unat b div unat d", where ?'a = 64] by auto
  with False have "mul_div a b d = Ok c" by (simp add: mul_div_Ok)
  with False show ?thesis by simp
qed

text \<open>A cut of at most 100% always succeeds and is at most the amount.\<close>

lemma bps_of_total:
  assumes "unat b \<le> 10000"
  obtains c where "bps_of a b = Ok c" "unat c = unat a * unat b div 10000" "unat c \<le> unat a"
proof -
  have le: "unat a * unat b div 10000 \<le> unat a"
    using assms by (rule mult_div_le_self)
  then obtain c :: u64 where "unat c = unat a * unat b div 10000"
    using unat_u64_bound [of a] ex_unat [of "unat a * unat b div 10000", where ?'a = 64]
    by (auto simp: le_less_trans)
  with le show thesis using that [of c] by (metis bps_of_Ok)
qed

lemma split_cuts_Ok [ok_simps]:
  "split_cuts amount cfg = Ok (t, d) \<longleftrightarrow>
     unat d = unat amount * unat (dividend_cut_bps cfg) div 10000 \<and>
     unat amount = unat t + unat d"
  by (auto simp: split_cuts_def ok_simps nat_simps)

lemma bps_ceil_Ok [ok_simps]:
  "bps_ceil a b = Ok c \<longleftrightarrow> unat c = (unat a * unat b + 9999) div 10000"
proof (cases "b = 0 \<or> a = 0")
  case True
  then show ?thesis by (auto simp: bps_ceil_def unat_eq_iff)
next
  case False
  let ?N = "unat a * unat b"
  have fits: "?N + 65536 < 2 ^ 128" by (rule u64_times_u16_fits)
  have one: "unat (ucast BPS - 1 :: u128) = 9999" by (simp add: BPS_def)
  have bind: "Option.bind (checked_mul (ucast a :: u128) (ucast b)) (\<lambda>v.
          Option.bind (checked_add v (ucast BPS - 1)) (\<lambda>v. checked_div v (ucast BPS))) = Some z
     \<longleftrightarrow> unat z = (?N + 9999) div 10000" for z
    using fits ex_unat [of ?N, where ?'a = 128] ex_unat [of "?N + 9999", where ?'a = 128]
    by (auto simp: bind_Some_iff nat_simps one) (metis (no_types))
  have "(?N + 9999) div 10000 < 2 ^ 128"
    using fits by (intro le_less_trans [OF div_le_dividend]) simp
  then show ?thesis
    using False ex_unat [of "(?N + 9999) div 10000", where ?'a = 128]
    by (auto simp: bps_ceil_def ok_simps bind)
qed

lemma checked_ceil_Some [ok_simps]:
  "Option.bind (checked_mul x y) (\<lambda>v. Option.bind (checked_add v k) (\<lambda>v. checked_div v d)) = Some z
     \<longleftrightarrow> unat x * unat y + unat k < 2 ^ LENGTH('a) \<and> d \<noteq> 0
         \<and> unat z = (unat x * unat y + unat k) div unat d"
  for x y k d z :: "'a::len word"
proof -
  have "(\<exists>v::'a word. unat v = unat x * unat y + unat k) \<longleftrightarrow>
      unat x * unat y + unat k < 2 ^ LENGTH('a)"
    by (rule ex_unat)
  moreover have "unat x * unat y + unat k < 2 ^ LENGTH('a) \<Longrightarrow> \<exists>v::'a word. unat v = unat x * unat y"
    using ex_unat [of "unat x * unat y", where ?'a = 'a] by simp
  ultimately show ?thesis
    by (auto simp: bind_Some_iff nat_simps unat_eq_zero) metis
qed

section \<open>The unlock penalty\<close>

text \<open>The source's \<open>ceil(BPS / penalty)\<close> on \<open>u128\<close>.\<close>

lemma min_unlock_nat:
  assumes "p \<noteq> (0::u16)"
  shows "unat ((ucast BPS + ucast p - 1) div ucast p :: u128) = (9999 + unat p) div unat p"
proof -
  have p: "1 \<le> unat p" "unat p < 65536"
    using assms unat_u16_bound [of p] by (simp_all add: unat_gt_0 Suc_le_eq)
  have "unat (ucast BPS + ucast p :: u128) = 10000 + unat p"
    using p by (simp add: unat_word_ariths nat_simps)
  moreover have "(1::u128) \<le> ucast BPS + ucast p"
    using calculation p by (simp add: word_le_nat_alt)
  ultimately have "unat (ucast BPS + ucast p - 1 :: u128) = 9999 + unat p"
    by (simp add: unat_sub)
  then show ?thesis by (simp add: unat_div nat_simps)
qed

lemma preview_unlock_Ok:
  "preview_unlock g e p = Ok (u, pen) \<longleftrightarrow>
     unat g \<le> unat e \<and> unat pen = (unat g * unat p + 9999) div 10000 \<and>
     unat g = unat u + unat pen \<and>
     (p = 0 \<or> g = 0 \<or> (9999 + unat p) div unat p \<le> unat g)"
proof (cases "p = 0 \<or> g = 0")
  case True
  then have "preview_unlock g e p = Ok (u, pen) \<longleftrightarrow> unat g \<le> unat e \<and> u = g \<and> pen = 0"
    by (auto simp: preview_unlock_def ok_simps word_le_nat_alt)
  moreover have "(unat g * unat p + 9999) div 10000 = 0" using True by auto
  ultimately show ?thesis using True by (auto simp: unat_eq_iff [of u] unat_eq_iff [of pen])
next
  case False
  have fits: "unat g * unat p + 65536 < 2 ^ 128" by (rule u64_times_u16_fits)
  have lt: "(unat g * unat p + 9999) div 10000 < 2 ^ 128"
    using fits by (intro le_less_trans [OF div_le_dividend]) simp
  have ex: "(\<exists>x::u128. unat x = (unat g * unat p + 9999) div 10000 \<and> unat pen = unat x \<and> Q) \<longleftrightarrow>
      unat pen = (unat g * unat p + 9999) div 10000 \<and> Q" for Q
    using lt ex_unat [of "(unat g * unat p + 9999) div 10000", where ?'a = 128] by auto
  have "unat g * unat p < 340282366920938463463374607431768201457" using fits by simp
  with False ex show ?thesis
    by (simp add: preview_unlock_def min_unlock_nat Let_def ok_simps word_le_nat_alt
        unat_ucast_u64_u128 unat_ucast_u16_u128 checked_sub_Some)
      (auto simp: conj_ac)
qed

section \<open>The mint premium\<close>

lemma compound_step_fits:
  assumes "unat p \<le> 10000 * 2 ^ k" "k \<le> 99" "unat r \<le> 10000"
  shows "unat (p::u128) * (10000 + unat (r::u16)) < 2 ^ 128"
proof -
  have "(2::nat) ^ k \<le> 2 ^ 99" using assms(2) by (rule power_increasing) simp
  then have "unat p \<le> 10000 * 2 ^ 99" using assms(1) by simp
  then have "unat p * (10000 + unat r) \<le> 10000 * 2 ^ 99 * 20000"
    using assms(3) by (intro mult_le_mono) simp_all
  then show ?thesis by simp
qed

lemma unat_BPS_plus: "unat (ucast BPS + ucast (r::u16) :: u128) = 10000 + unat r"
  using unat_u16_bound [of r] by (simp add: unat_word_ariths nat_simps)

text \<open>
  The ask price as a plain iteration on natural numbers: the reference the fallible 128-bit
  loop is compared with.
\<close>

definition ask_step :: "nat \<Rightarrow> nat \<Rightarrow> nat" where
  "ask_step r p = p * (10000 + r) div 10000"

lemma ask_step_ge: "p \<le> ask_step r p"
  using div_le_mono [of "p * 10000" "p * (10000 + r)" 10000] by (simp add: ask_step_def)

lemma ask_price_mono: "m \<le> n \<Longrightarrow> (ask_step r ^^ m) p \<le> (ask_step r ^^ n) p"
proof (induction n rule: nat_induct_at_least)
  case base
  show ?case by simp
next
  case (Suc n)
  then show ?case using ask_step_ge [of "(ask_step r ^^ n) p" r] by simp
qed

lemma ask_price_zero_rate [simp]: "(ask_step 0 ^^ n) p = p"
  by (induction n) (simp_all add: ask_step_def)

lemma compound_exact:
  assumes "unat r \<le> 10000" "unat p \<le> 10000 * 2 ^ k" "k + n \<le> 100"
  shows "\<exists>q. compound n r p = Ok q \<and> unat q = (ask_step (unat r) ^^ n) (unat p)"
  using assms(2,3)
proof (induction n arbitrary: k p)
  case 0
  then show ?case by simp
next
  case (Suc n)
  have fits: "unat p * (10000 + unat r) < 2 ^ 128"
    using compound_step_fits [of p k r] Suc.prems assms(1) by simp
  then have "ask_step (unat r) (unat p) < 2 ^ 128"
    unfolding ask_step_def by (rule le_less_trans [OF div_le_dividend])
  then obtain p' :: u128 where p': "unat p' = ask_step (unat r) (unat p)"
    using ex_unat [of "ask_step (unat r) (unat p)", where ?'a = 128] by auto
  have step: "Option.bind (checked_mul p (ucast BPS + ucast r)) (\<lambda>v. checked_div v (ucast BPS))
      = Some p'"
    using fits p' by (simp add: muldiv_Some unat_BPS_plus ask_step_def)
  have "unat p * (10000 + unat r) \<le> (unat p * 2) * 10000"
    using assms(1) mult_le_mono2 [of "10000 + unat r" 20000 "unat p"] by simp
  then have "unat p' \<le> unat p * 2" unfolding p' ask_step_def by (rule div_le_of_le_mult)
  then have "unat p' \<le> 10000 * 2 ^ Suc k" using Suc.prems(1) by simp
  then obtain q where "compound n r p' = Ok q" "unat q = (ask_step (unat r) ^^ n) (unat p')"
    using Suc.IH [of p' "Suc k"] Suc.prems(2) by auto
  with step p' show ?case by (simp add: funpow_swap1)
qed

lemma elapsed_nat:
  assumes "checked_ssub now at = Some e" "sint at \<le> sint (now::i64)"
  shows "int (unat e) = sint now - sint at"
  using assms uint_nonneg_sint [of e] by (simp add: checked_ssub_Some)

text \<open>The number of whole years the source compounds.\<close>

definition premium_years :: "i64 \<Rightarrow> i64 \<Rightarrow> nat" where
  "premium_years at now = min (nat (sint now - sint at) div 31536000) 100"

lemma premium_years_le: "premium_years at now \<le> 100"
  by (simp add: premium_years_def)

lemma premium_years_mono:
  "sint now \<le> sint later \<Longrightarrow> premium_years at now \<le> premium_years at later"
  by (auto simp: premium_years_def intro!: min.mono div_le_mono nat_mono)

lemma apply_mint_premium_eq:
  assumes "sint at \<le> sint now" "0 \<le> sint at" "at \<noteq> 0" "book \<noteq> 0" "rate \<noteq> 0"
  shows "apply_mint_premium book rate at now =
    (if premium_years at now = 0 then Ok book
     else and_then (compound (premium_years at now) rate (ucast BPS)) (\<lambda>q.
          and_then (ok_or (Option.bind (checked_mul (ucast book) (ucast BPS))
                      (\<lambda>v. checked_div v q)) MathOverflow) narrow))"
proof -
  have "sint now < 2 ^ 63" using sint_lt [of now] by simp
  then obtain e where e: "checked_ssub now at = Some e"
    using assms by (auto simp: checked_ssub_def)
  have e_nat: "unat e = nat (sint now - sint at)"
    using elapsed_nat [OF e assms(1)] by linarith
  have year: "unat MINT_PREMIUM_YEAR_SECONDS = 31536000"
    by (simp add: MINT_PREMIUM_YEAR_SECONDS_def)
  have y: "unat (e div MINT_PREMIUM_YEAR_SECONDS) = nat (sint now - sint at) div 31536000"
    by (simp add: unat_div e_nat year)
  have maxy: "unat MAX_MINT_PREMIUM_YEARS = 100" by (simp add: MAX_MINT_PREMIUM_YEARS_def)
  have "unat (if MAX_MINT_PREMIUM_YEARS < e div MINT_PREMIUM_YEAR_SECONDS
      then MAX_MINT_PREMIUM_YEARS else e div MINT_PREMIUM_YEAR_SECONDS) = premium_years at now"
    by (simp add: premium_years_def word_less_nat_alt y maxy min_def)
  moreover have "e div MINT_PREMIUM_YEAR_SECONDS = 0 \<longleftrightarrow> premium_years at now = 0"
    using y by (auto simp: premium_years_def min_def unat_eq_zero [symmetric])
  ultimately show ?thesis
    using assms e by (simp add: apply_mint_premium_def Let_def not_less)
qed

definition premium_price :: "nat \<Rightarrow> i64 \<Rightarrow> i64 \<Rightarrow> nat" where
  "premium_price rate at now =
     (if at = 0 \<or> sint now < sint at then 10000
      else (ask_step rate ^^ premium_years at now) 10000)"

lemma premium_price_ge: "10000 \<le> premium_price rate at now"
  using ask_price_mono [of 0 "premium_years at now" rate 10000] by (simp add: premium_price_def)

lemma premium_price_mono:
  "sint now \<le> sint later \<Longrightarrow> premium_price rate at now \<le> premium_price rate at later"
  using ask_price_mono [OF premium_years_mono, of now later at rate 10000]
    premium_price_ge [of rate at later]
  by (auto simp: premium_price_def)

lemma apply_mint_premium_value:
  assumes "unat rate \<le> 10000" "0 \<le> sint at"
  shows "\<exists>out. apply_mint_premium book rate at now = Ok out \<and>
           unat out = unat book * 10000 div premium_price (unat rate) at now"
proof (cases "book = 0 \<or> rate = 0 \<or> at = 0 \<or> sint now < sint at")
  case True
  then have "unat book * 10000 div premium_price (unat rate) at now = unat book"
    by (auto simp: premium_price_def)
  with True show ?thesis by (simp add: apply_mint_premium_def)
next
  case False
  let ?y = "premium_years at now"
  obtain q where q: "compound ?y rate (ucast BPS) = Ok q"
      "unat q = (ask_step (unat rate) ^^ ?y) 10000"
    using compound_exact [of rate "ucast BPS" 0 ?y] assms(1) premium_years_le [of at now] by auto
  have q_price: "unat q = premium_price (unat rate) at now"
    using q(2) False by (simp add: premium_price_def)
  then have q_ge: "10000 \<le> unat q" using premium_price_ge by simp
  have "unat book * 10000 div unat q \<le> unat book"
    using q_ge by (rule mult_div_le_self)
  then have "unat book * 10000 div unat q < 2 ^ 64"
    using unat_u64_bound [of book] by simp
  then obtain out :: u64 where out: "unat out = unat book * 10000 div unat q"
    using ex_unat [of "unat book * 10000 div unat q", where ?'a = 64] by auto
  have "unat book * 10000 < 2 ^ 128" using unat_u64_bound [of book] by simp
  moreover have "q \<noteq> 0" using q_ge by auto
  ultimately have "apply_mint_premium book rate at now = Ok out" if "?y \<noteq> 0"
    using False assms(2) out that q(1)
    by (simp add: apply_mint_premium_eq muldiv_narrow_Ok nat_simps not_less)
  moreover have "apply_mint_premium book rate at now = Ok out" if "?y = 0"
  proof -
    have "out = book" using out that q by (simp add: unat_eq_iff [of out])
    with that False assms(2) show ?thesis by (simp add: apply_mint_premium_eq not_less)
  qed
  ultimately show ?thesis using out q_price by auto
qed

text \<open>
  C30. The compound mint premium. For every rate up to 100% a year and every premium clock the
  128-bit loop never overflows, so the deposit path never fails there; the shares minted are
  exactly \<open>book * BPS / price\<close> for the price obtained by plain iteration over the
  completed years (at most 100), and never more than the book value.
\<close>

theorem apply_mint_premium_exact:
  assumes "unat rate \<le> 10000" "0 \<le> sint at"
  shows "\<exists>out. apply_mint_premium book rate at now = Ok out \<and> out \<le> book \<and>
           unat out = unat book * 10000 div premium_price (unat rate) at now"
  using apply_mint_premium_value [OF assms] mult_div_le_self [OF premium_price_ge]
  by (fastforce simp: word_le_nat_alt)

theorem apply_mint_premium_exact_witness:
  "\<exists>out. apply_mint_premium 1000000 500 1 100000000 = Ok out \<and> out \<le> 1000000 \<and>
     unat out = 1000000 * 10000 div premium_price 500 1 100000000"
  using apply_mint_premium_exact [of 500 1 1000000 100000000] by simp

lemma compound_Ok_ge: "compound n r p = Ok q \<Longrightarrow> unat p \<le> unat q"
proof (induction n arbitrary: p)
  case (Suc n)
  then obtain p' where p': "unat p' = ask_step (unat r) (unat p)" "compound n r p' = Ok q"
    by (auto simp: ok_simps unat_BPS_plus ask_step_def)
  with Suc.IH [of p'] ask_step_ge [of "unat p" "unat r"] show ?case by simp
qed simp

lemma apply_mint_premium_le:
  assumes "apply_mint_premium book rate at now = Ok out"
  shows "unat out \<le> unat book"
proof -
  have narrowed: "unat out \<le> unat book"
    if prem: "and_then (compound y rate (ucast BPS)) (\<lambda>q.
          and_then (ok_or (Option.bind (checked_mul (ucast book) (ucast BPS))
                      (\<lambda>v. checked_div v q)) MathOverflow) narrow) = Ok out" for y
  proof -
    obtain q where q: "compound y rate (ucast BPS) = Ok q"
        and out: "and_then (ok_or (Option.bind (checked_mul (ucast book) (ucast BPS))
                      (\<lambda>v. checked_div v q)) MathOverflow) narrow = Ok out"
      using prem by (rule and_then_OkE)
    from out have "q \<noteq> 0" "unat out = unat book * 10000 div unat q"
      by (simp_all add: muldiv_narrow_Ok nat_simps)
    moreover note q
    ultimately show ?thesis
      using compound_Ok_ge [of y rate "ucast BPS" q] by (simp add: mult_div_le_self)
  qed
  show ?thesis
  proof (cases "book = 0 \<or> rate = 0 \<or> at = 0 \<or> sint now < sint at")
    case True
    then show ?thesis using assms by (simp add: apply_mint_premium_def)
  next
    case False
    with assms narrowed show ?thesis
      by (auto simp: apply_mint_premium_def Let_def or_panic_Ok_iff
          and_then_Ok_iff [where m = "or_panic x" for x] split: if_splits)
  qed
qed

text \<open>
  The premium never mints above book value, and waiting never makes a deposit of the same
  book value mint more: the shares are antitone in the time of the deposit.
\<close>

theorem mint_premium_antitone:
  assumes "apply_mint_premium book rate at now = Ok out"
    and "apply_mint_premium book rate at later = Ok out'"
    and "sint now \<le> sint later" "unat rate \<le> 10000" "0 \<le> sint at"
  shows "unat out' \<le> unat out \<and> unat out \<le> unat book"
proof -
  have out: "unat out = unat book * 10000 div premium_price (unat rate) at now"
    using apply_mint_premium_value [OF assms(4,5), of book now] assms(1) by auto
  have out': "unat out' = unat book * 10000 div premium_price (unat rate) at later"
    using apply_mint_premium_value [OF assms(4,5), of book later] assms(2) by auto
  have "unat out' \<le> unat out"
    unfolding out out'
    using premium_price_mono [OF assms(3)] premium_price_ge [of "unat rate" at now]
    by (intro div_le_mono2) (auto simp: Suc_le_eq intro: less_le_trans)
  then show ?thesis using apply_mint_premium_le [OF assms(1)] by simp
qed

lemmas premium_eval = apply_mint_premium_def MINT_PREMIUM_YEAR_SECONDS_def
  MAX_MINT_PREMIUM_YEARS_def eval_simps

theorem mint_premium_antitone_witness:
  "unat (9070294 :: u64) \<le> unat (9523809 :: u64) \<and> unat (9523809 :: u64) \<le> unat (10000000 :: u64)"
proof -
  have "apply_mint_premium 10000000 500 1 40000000 = Ok 9523809"
    by (simp add: premium_eval)
  moreover have "apply_mint_premium 10000000 500 1 70000000 = Ok 9070294"
    by (simp add: premium_eval)
  ultimately show ?thesis
    using mint_premium_antitone [of 10000000 500 1 40000000 9523809 70000000 9070294] by simp
qed

section \<open>The deposit mint\<close>

lemma preview_deposit_book_Ok [ok_simps]:
  "preview_deposit_book value supply tv = Ok book \<longleftrightarrow>
     (if tv = 0 then unat book = unat value
      else unat value * unat supply < 2 ^ 128 \<and> unat book = unat value * unat supply div unat tv)"
proof (cases "tv = 0")
  case True
  then show ?thesis by (simp add: preview_deposit_book_def narrow_Ok)
next
  case False
  then have "0 < tv" by (simp add: word_gt_0)
  with False show ?thesis
    by (simp add: preview_deposit_book_def muldiv_narrow_Ok nat_simps)
qed

text \<open>
  C22. Deposits never dilute: when the deposit path accepts a value and mints shares, it mints
  at least one, and the book value per share does not fall. Cross-multiplied,
  \<open>total_value / supply <= (total_value + value) / (supply + out)\<close>; on an empty book the
  mint is at most one share per unit of value.
\<close>

theorem preview_deposit_no_dilution:
  assumes "preview_deposit value supply tv rate at now = Ok out"
  shows "0 < unat out \<and>
    (if tv = 0 then unat out \<le> unat value
     else unat tv * (unat supply + unat out) \<le> (unat tv + unat value) * unat supply)"
proof -
  obtain book where book: "preview_deposit_book value supply tv = Ok book"
      "apply_mint_premium book rate at now = Ok out" and pos: "0 < out"
    using assms by (auto simp: preview_deposit_def preview_deposit_soft_def ok_simps)
  have le: "unat out \<le> unat book" by (rule apply_mint_premium_le [OF book(2)])
  have pos': "0 < unat out" using pos by (simp add: unat_gt_0 word_gt_0)
  show ?thesis
  proof (cases "tv = 0")
    case True
    then show ?thesis using book le pos' by (simp add: preview_deposit_book_Ok)
  next
    case False
    then have "unat book * unat tv \<le> unat value * unat supply"
      using book by (simp add: preview_deposit_book_Ok)
    moreover have "unat out * unat tv \<le> unat book * unat tv"
      by (rule mult_le_mono1 [OF le])
    ultimately have "unat out * unat tv \<le> unat value * unat supply" by linarith
    then show ?thesis using pos' False by (simp add: algebra_simps)
  qed
qed

theorem preview_deposit_no_dilution_witness:
  "0 < unat (333333 :: u64) \<and>
   unat (3000000 :: u128) * (unat (1000000 :: u64) + unat (333333 :: u64)) \<le>
     (unat (3000000 :: u128) + unat (1000000 :: u128)) * unat (1000000 :: u64)"
proof -
  have "preview_deposit 1000000 1000000 3000000 0 0 0 = Ok 333333"
    by (simp add: preview_deposit_def preview_deposit_soft_def preview_deposit_book_def
        apply_mint_premium_def eval_simps)
  from preview_deposit_no_dilution [OF this] show ?thesis by simp
qed

section \<open>The configuration and the cuts\<close>

text \<open>What a validated configuration promises, on natural numbers.\<close>

definition valid_config :: "Config \<Rightarrow> bool" where
  "valid_config cfg \<longleftrightarrow>
     0 < unat (dividend_cut_bps cfg) \<and>
     unat (dividend_cut_bps cfg) + unat (treasury_cut_bps cfg) = 10000 \<and>
     unat (revenue_share_bps cfg) \<le> unat (treasury_cut_bps cfg) \<and>
     unat (claim_tip_bps cfg) \<le> 500 \<and>
     2 \<le> unat (quorum_bps cfg) \<and> unat (quorum_bps cfg) < 10000 \<and>
     unat (unlock_penalty_bps cfg) \<le> 1000 \<and>
     unat (poach_fee_bps cfg) \<le> 1000 \<and>
     2 * unat (bribe_premium_bps cfg) \<le> 10000 \<and>
     liquidation_period cfg \<noteq> 0 \<and> redeem_period cfg \<noteq> 0 \<and>
     unat (mint_premium_bps_per_year cfg) \<le> 10000"

lemma u32_sum_u16: "unat (ucast (x::u16) + ucast (y::u16) :: u32) = unat x + unat y"
  using unat_u16_bound [of x] unat_u16_bound [of y]
  by (simp add: unat_word_ariths nat_simps)

lemma u32_double_u16: "unat (2 * ucast (x::u16) :: u32) = 2 * unat x"
  using unat_u16_bound [of x] by (simp add: unat_word_ariths nat_simps)

lemma unat_BPS_u32: "unat (ucast BPS :: u32) = 10000"
  by (simp add: BPS_def)

lemma cuts_sum_u32:
  "(ucast (x::u16) + ucast (y::u16) :: u32) = ucast BPS \<longleftrightarrow> unat x + unat y = 10000"
  by (simp add: unat_eq_iff [of "ucast x + ucast y"] u32_sum_u16 unat_BPS_u32)

text \<open>
  Validation is exact: \<open>validate_protocol_config\<close> accepts a configuration if and only if
  every bound of the protocol holds (cuts that sum to 100% with a non-zero dividend cut,
  revenue share within the treasury cut, capped tip, penalty and poach fee, quorum in
  [0.02%, 100%), at most a 50% bribe scale, non-zero periods).
\<close>

theorem validate_protocol_config_iff:
  "validate_protocol_config cfg = Ok () \<longleftrightarrow> valid_config cfg"
proof -
  have two: "(2 \<le> (x::u16)) = (2 \<le> unat x)" for x by (simp add: word_le_nat_alt)
  have ten: "(x < (10000::u16)) = (unat x < 10000)" "(x \<le> (10000::u16)) = (unat x \<le> 10000)"
    "(x \<le> (500::u16)) = (unat x \<le> 500)" "(x \<le> (1000::u16)) = (unat x \<le> 1000)" for x
    by (simp_all add: word_le_nat_alt word_less_nat_alt)
  have dbl: "(2 * ucast (x::u16) \<le> (10000 :: u32)) = (2 * unat x \<le> 10000)" for x
    using u32_double_u16 [of x] by (simp add: word_le_nat_alt)
  have sum: "(ucast x + ucast y = (10000 :: u32)) = (unat x + unat y = 10000)" for x y :: u16
    using cuts_sum_u32 [of x y] by (simp add: BPS_def)
  show ?thesis
    unfolding validate_protocol_config_def valid_config_def
    by (simp add: ok_simps sum dbl ten two cap_defs word_le_nat_alt [of "revenue_share_bps cfg"]
        unat_gt_0) auto
qed

lemma default_config_valid: "valid_config default_protocol_config"
  by (simp add: valid_config_def default_protocol_config_def DEFAULT_DIVIDEND_CUT_BPS_def
      DEFAULT_TREASURY_CUT_BPS_def DEFAULT_REVENUE_SHARE_BPS_def DEFAULT_CLAIM_TIP_BPS_def
      DEFAULT_BRIBE_PREMIUM_BPS_def DEFAULT_QUORUM_BPS_def DEFAULT_UNLOCK_PENALTY_BPS_def
      DEFAULT_POACH_FEE_BPS_def DEFAULT_LIQUIDATION_PERIOD_def DEFAULT_REDEEM_PERIOD_def
      DEFAULT_MINT_PREMIUM_BPS_PER_YEAR_def)

lemma split_cuts_total:
  assumes "valid_config cfg"
  obtains t d where "split_cuts amount cfg = Ok (t, d)" "unat t + unat d = unat amount"
    "unat d = unat amount * unat (dividend_cut_bps cfg) div 10000"
proof -
  have "unat (dividend_cut_bps cfg) \<le> 10000" using assms by (simp add: valid_config_def)
  then obtain d where d: "bps_of amount (dividend_cut_bps cfg) = Ok d"
      "unat d = unat amount * unat (dividend_cut_bps cfg) div 10000" "unat d \<le> unat amount"
    by (rule bps_of_total)
  then obtain t where t: "checked_sub amount d = Some t"
    by (cases "checked_sub amount d") (auto simp: nat_simps)
  have "split_cuts amount cfg = Ok (t, d)" using d t by (simp add: split_cuts_def)
  moreover have "unat t + unat d = unat amount" using t by (simp add: nat_simps)
  ultimately show thesis using d that by blast
qed

section \<open>Quorum\<close>

text \<open>
  The quorum test never overflows (its bare 128-bit products fit), and it holds exactly
  when the voted share of the supply strictly exceeds the quorum.
\<close>

theorem has_quorum_exact:
  "has_quorum voted supply q = Ok (unat supply * unat q < unat voted * 10000)"
proof -
  have "checked_mul (ucast voted :: u128) (ucast BPS) = Some (ucast voted * ucast BPS)"
    using u64_times_u16_fits [of voted BPS] by (simp add: checked_mul_def nat_simps)
  moreover have "checked_mul (ucast supply :: u128) (ucast q) = Some (ucast supply * ucast q)"
    using u64_times_u16_fits [of "supply" q] by (simp add: checked_mul_def nat_simps)
  moreover have "unat (ucast voted * ucast BPS :: u128) = unat voted * 10000"
    using u64_times_u16_fits [of voted BPS] by (simp add: unat_word_ariths nat_simps)
  moreover have "unat (ucast supply * ucast q :: u128) = unat supply * unat q"
    using u64_times_u16_fits [of "supply" q] by (simp add: unat_word_ariths nat_simps)
  ultimately show ?thesis by (simp add: has_quorum_def word_less_nat_alt)
qed

section \<open>Liquidation shares\<close>

lemma preview_liquidate_share_Ok [ok_simps]:
  "preview_liquidate_share bal g supply = Ok share \<longleftrightarrow>
     unat share = (if supply = 0 then 0 else unat bal * unat g div unat supply)"
proof (cases "bal = 0 \<or> supply = 0")
  case True
  then show ?thesis by (auto simp: preview_liquidate_share_def unat_eq_zero)
next
  case False
  then show ?thesis
    using u64_times_u64_fits [of bal g]
    by (simp add: preview_liquidate_share_def muldiv_narrow_Ok nat_simps)
qed

text \<open>
  C32. Redeeming is fair to those who stay: for a redemption of at most the supply the share
  always computes, is at most the balance, and what remains per remaining share is at least
  what it was, \<open>(balance - share) * supply >= balance * (supply - grai_amount)\<close>.
\<close>

theorem liquidate_share_fair:
  assumes "g \<le> supply" "supply \<noteq> 0"
  shows "\<exists>share. preview_liquidate_share bal g supply = Ok share \<and> share \<le> bal \<and>
           unat bal * (unat supply - unat g) \<le> (unat bal - unat share) * unat supply"
proof -
  have le: "unat bal * unat g div unat supply \<le> unat bal"
    using assms(1) by (intro mult_div_le_self) (simp add: word_le_nat_alt)
  then obtain share :: u64 where sh: "unat share = unat bal * unat g div unat supply"
    using unat_u64_bound [of bal] ex_unat [of "unat bal * unat g div unat supply", where ?'a = 64]
    by (auto simp: le_less_trans)
  have "unat share * unat supply \<le> unat bal * unat g" by (simp add: sh)
  then have "unat bal * (unat supply - unat g) \<le> (unat bal - unat share) * unat supply"
    by (simp add: diff_mult_distrib diff_mult_distrib2)
  then show ?thesis using sh le assms(2) by (auto simp: preview_liquidate_share_Ok word_le_nat_alt)
qed

theorem liquidate_share_fair_witness:
  "\<exists>share. preview_liquidate_share 1000 3 7 = Ok share \<and> share \<le> 1000 \<and>
     unat (1000 :: u64) * (unat (7 :: u64) - unat (3 :: u64)) \<le>
       (unat (1000 :: u64) - unat share) * unat (7 :: u64)"
  using liquidate_share_fair [of 3 7 1000] by simp

end
