(* ===== verification/Bribe_Ask.thy ===== *)
theory Bribe_Ask
  imports Tokenomics_Facts
begin

text \<open>
  The dynamic bribe ask of \<open>preview_bribe\<close>, the unlock penalty and the two directions of the
  oracle valuation (\<open>usd_value\<close>, \<open>settlement_amount\<close>).
\<close>

section \<open>The two regimes of the ask\<close>

lemma bribe_premium_leg_Ok:
  assumes "bribe_premium_leg book max_adj half vote span = Ok (bribe, premium, discount)"
    and "half \<le> span"
  shows "discount = 0 \<and> unat bribe = unat book + unat premium \<and>
    unat premium * 10000 \<le> unat book * unat max_adj"
proof -
  obtain gap adj ask where "checked_sub half vote = Some gap"
      "Option.bind (checked_mul max_adj gap) (\<lambda>v. checked_div v span) = Some adj"
      "checked_add (ucast BPS) adj = Some ask"
      "Option.bind (checked_mul book ask) (\<lambda>v. checked_div v (ucast BPS)) = Some bribe"
      "checked_sub bribe book = Some premium" and d: "discount = 0"
    using assms(1) by (auto simp: bribe_premium_leg_def step_iffs)
  then have h: "unat half = unat gap + unat vote"
      "unat adj = unat max_adj * unat gap div unat span" "unat ask = 10000 + unat adj"
      "unat bribe = unat book * unat ask div 10000" "unat bribe = unat premium + unat book"
    by (simp_all add: muldiv_Some checked_sub_Some checked_add_Some)
  have "unat gap \<le> unat span" using h(1) assms(2) by (simp add: word_le_nat_alt)
  then have adj: "unat adj \<le> unat max_adj" unfolding h(2) by (rule mult_div_le_self)
  have "unat bribe * 10000 \<le> unat book * unat ask" by (simp add: h(4))
  also have "\<dots> \<le> unat book * (10000 + unat max_adj)"
    unfolding h(3) using adj by (intro mult_le_mono) simp_all
  finally have "unat premium * 10000 \<le> unat book * unat max_adj"
    unfolding h(5) by (simp add: algebra_simps)
  then show ?thesis using h d by simp
qed

lemma bribe_discount_leg_Ok:
  assumes "bribe_discount_leg book max_adj half vote span = Ok (bribe, premium, discount)"
  shows "premium = 0 \<and> unat bribe + unat discount = unat book \<and>
    2 * unat discount \<le> unat book \<and> (vote = half \<longrightarrow> discount = 0)"
proof -
  obtain gap adj full gap2 where steps: "checked_sub vote half = Some gap"
      "Option.bind (checked_mul max_adj gap) (\<lambda>v. checked_div v span) = Some adj"
      "checked_sub book full = Some gap2" "checked_sub book (gap2 div 2) = Some bribe"
    and full: "(if ucast BPS \<le> adj then Ok 0
               else
                 and_then (or_panic (checked_sub (ucast BPS) adj)) (\<lambda>ask.
                 ok_or (Option.bind (checked_mul book ask) (\<lambda>v. checked_div v (ucast BPS)))
                   MathOverflow)) = (Ok full :: u128 res)"
    and d: "discount = gap2 div 2" "premium = 0"
    using assms by (auto simp: bribe_discount_leg_def Let_def step_iffs split del: if_split)
  have h: "unat vote = unat gap + unat half" "unat adj = unat max_adj * unat gap div unat span"
      "unat book = unat gap2 + unat full" "unat book = unat bribe + unat discount"
    using steps d by (simp_all add: muldiv_Some checked_sub_Some)
  have "discount = 0" if "vote = half"
  proof -
    have "unat adj = 0" using h(1,2) that by simp
    then have "unat full = unat book" using full
      by (auto simp: ok_simps checked_sub_Some word_le_nat_alt split: if_splits)
    then have "gap2 = 0" using h(3) unat_eq_zero [of gap2] by simp
    then show ?thesis using d by simp
  qed
  moreover have "2 * unat discount \<le> unat book"
    using h(3) d by (simp add: unat_div)
  ultimately show ?thesis using h d by simp
qed

text \<open>The voted share of the supply in basis points, floored; 0 on an empty supply.\<close>

definition vote_share_bps :: "u64 \<Rightarrow> u64 \<Rightarrow> nat" where
  "vote_share_bps voted tot = unat voted * 10000 div unat tot"

text \<open>
  C29. The bribe ask has two regimes around half quorum. With the settlement price of the
  votes' book value \<open>book\<close>: strictly below half quorum the ask is \<open>book + premium\<close> with no
  discount and the premium is at most \<open>book * scale\<close> (in bps); from half quorum on it is
  \<open>book - discount\<close> with no premium and the discount is at most half of book; at exactly
  half quorum the ask is par. The ask is never zero.
\<close>

theorem preview_bribe_regimes:
  assumes "preview_bribe g tot tv voted quorum scale dec price = Ok (ask, premium, discount)"
  shows "0 < unat ask \<and> (\<exists>value book. settlement_amount value dec price = Ok book \<and>
    unat value = unat g * unat tv div unat tot \<and>
    (if vote_share_bps voted tot < unat quorum div 2
     then discount = 0 \<and> unat ask = unat book + unat premium \<and>
          unat premium * 10000 \<le> unat book * unat scale
     else premium = 0 \<and> unat ask + unat discount = unat book \<and>
          2 * unat discount \<le> unat book \<and>
          (vote_share_bps voted tot = unat quorum div 2 \<longrightarrow> ask = book)))"
proof -
  define half :: u128 where "half = ucast quorum div 2"
  define span where "span = (if 0 < half then half else 1)"
  obtain "value" book vote ask' premium' discount'
    where v: "(if 0 < tot
               then ok_or (Option.bind (checked_mul (ucast g) tv)
                      (\<lambda>v. checked_div v (ucast tot))) MathOverflow
               else Ok 0) = Ok value"
      and book: "settlement_amount value dec price = Ok book"
      and vote: "(if 0 < tot
               then ok_or (Option.bind (checked_mul (ucast voted) (ucast BPS))
                      (\<lambda>v. checked_div v (ucast tot))) MathOverflow
               else Ok 0) = Ok vote"
      and leg: "(if vote < half
               then bribe_premium_leg (ucast book) (ucast scale) half vote span
               else bribe_discount_leg (ucast book) (ucast scale) half vote span)
               = Ok (ask', premium', discount')"
      and ask': "0 < ask'" "ask' \<le> ucast u64_max"
      and eqs: "ask = ucast ask'" "premium = ucast premium'" "discount = ucast discount'"
    using assms unfolding preview_bribe_def Let_def half_def [symmetric] span_def [symmetric]
    by (auto simp: step_iffs split del: if_split split: prod.splits)
  have half_nat: "unat half = unat quorum div 2"
    by (simp add: half_def unat_div nat_simps)
  have vote_nat: "unat vote = vote_share_bps voted tot"
    using vote by (auto simp: vote_share_bps_def step_iffs muldiv_Some nat_simps split: if_splits)
  have v_nat: "unat value = unat g * unat tv div unat tot"
    using v by (auto simp: step_iffs muldiv_Some nat_simps split: if_splits)
  have fits: "unat ask' \<le> 18446744073709551615"
    using ask'(2) by (simp add: word_le_nat_alt nat_simps)
  have ask_nat: "unat ask = unat ask'" by (simp add: eqs unat_ucast_u128_u64 [OF fits])
  have pos: "0 < unat ask" using ask'(1) ask_nat by (simp add: word_less_nat_alt)
  have "half \<le> span" by (simp add: span_def word_le_nat_alt word_less_nat_alt)
  have cases: "(if vote_share_bps voted tot < unat quorum div 2
     then discount = 0 \<and> unat ask = unat book + unat premium \<and>
          unat premium * 10000 \<le> unat book * unat scale
     else premium = 0 \<and> unat ask + unat discount = unat book \<and>
          2 * unat discount \<le> unat book \<and>
          (vote_share_bps voted tot = unat quorum div 2 \<longrightarrow> ask = book))"
  proof (cases "vote < half")
    case True
    with leg have "bribe_premium_leg (ucast book) (ucast scale) half vote span
        = Ok (ask', premium', discount')" by simp
    from bribe_premium_leg_Ok [OF this \<open>half \<le> span\<close>]
    have p: "discount' = 0" "unat ask' = unat book + unat premium'"
      "unat premium' * 10000 \<le> unat book * unat scale" by (simp_all add: nat_simps)
    have "unat premium = unat premium'"
      unfolding eqs by (rule unat_ucast_u128_u64) (use p fits in simp)
    with p ask_nat True show ?thesis
      by (simp add: word_less_nat_alt vote_nat half_nat eqs(3))
  next
    case False
    with leg have "bribe_discount_leg (ucast book) (ucast scale) half vote span
        = Ok (ask', premium', discount')" by simp
    from bribe_discount_leg_Ok [OF this]
    have p: "premium' = 0" "unat ask' + unat discount' = unat book"
      "2 * unat discount' \<le> unat book" "vote = half \<longrightarrow> discount' = 0" by (simp_all add: nat_simps)
    have d: "unat discount = unat discount'"
      unfolding eqs by (rule unat_ucast_u128_u64) (use p unat_u64_bound [of book] in simp)
    have "ask = book" if "vote_share_bps voted tot = unat quorum div 2"
    proof -
      have "vote = half" using that by (simp add: unat_eq_iff [of vote] vote_nat half_nat)
      with p have "unat ask' = unat book" by simp
      with ask_nat show ?thesis by (simp add: unat_eq_iff [of ask])
    qed
    with p d ask_nat False show ?thesis
      by (simp add: word_less_nat_alt vote_nat half_nat eqs(2))
  qed
  show ?thesis using pos book v_nat cases by blast
qed

definition sample_price :: PriceData where
  "sample_price = \<lparr> pd_price = 200000000, pd_decimals = 8, pd_updated_at = 0, pd_updated_slot = 0 \<rparr>"

theorem preview_bribe_regimes_witness:
  "\<exists>ask premium discount value book. preview_bribe 1000000 10000000 50000000 0 6667 200 6 sample_price
     = Ok (ask, premium, discount) \<and> settlement_amount value 6 sample_price = Ok book \<and>
     unat ask = unat book + unat premium"
proof -
  have run: "preview_bribe 1000000 10000000 50000000 0 6667 200 6 sample_price =
      Ok (2550000, 50000, 0)"
    by (simp add: preview_bribe_def settlement_amount_def pow10_def sample_price_def Let_def
        bribe_premium_leg_def eval_simps)
  have "vote_share_bps 0 10000000 < unat (6667 :: u16) div 2"
    by (simp add: vote_share_bps_def)
  with preview_bribe_regimes [OF run] run show ?thesis by auto
qed

section \<open>The unlock penalty\<close>

text \<open>The dust floor \<open>ceil(BPS / p) <= g\<close> is the condition \<open>BPS <= g * p\<close>.\<close>

lemma dust_floor:
  assumes "0 < (p::nat)"
  shows "(9999 + p) div p \<le> g \<longleftrightarrow> 10000 \<le> g * p"
proof -
  have "(9999 + p) div p \<le> g \<longleftrightarrow> (9999 + p) div p < Suc g" by auto
  also have "\<dots> \<longleftrightarrow> 9999 + p < Suc g * p" using assms by (rule div_less_iff_less_mult)
  finally show ?thesis by auto
qed

lemma ceil_cut_le:
  assumes "p \<le> 10000"
  shows "((g::nat) * p + 9999) div 10000 \<le> g"
proof -
  have "g * p + 9999 < Suc g * 10000" unfolding mult_Suc using mult_le_mono2 [OF assms, of g] by linarith
  then have "(g * p + 9999) div 10000 < Suc g" by (rule less_mult_imp_div_less)
  then show ?thesis by simp
qed

lemma preview_unlock_Err:
  "preview_unlock g e p = Inl x \<Longrightarrow> x = Raise InvalidAmount \<or> x = Raise MathOverflow"
  by (auto simp: preview_unlock_def err_simps Let_def split: if_splits)

lemma preview_unlock_rejects:
  assumes "e < g \<or> p \<noteq> 0 \<and> g \<noteq> 0 \<and> unat g * unat p < 10000"
  shows "preview_unlock g e p = Err InvalidAmount"
proof (cases "g \<le> e")
  case False
  then show ?thesis by (simp add: preview_unlock_def)
next
  case True
  with assms have p: "p \<noteq> 0" "g \<noteq> 0" "unat g * unat p < 10000" by auto
  then have "0 < unat p" by (simp add: unat_gt_0)
  then have "\<not> (ucast BPS + ucast p - 1) div ucast p \<le> (ucast g :: u128)"
    using p dust_floor [of "unat p" "unat g"]
    by (simp add: word_le_nat_alt min_unlock_nat unat_ucast_u64_u128)
  with p show ?thesis by (simp add: preview_unlock_def Let_def require_def)
qed

text \<open>
  The unlock penalty is exact on every branch. For a penalty of at most 100%, an unlock is
  accepted if and only if it does not exceed the lock and is zero, free of penalty, or at
  least \<open>ceil(BPS / penalty)\<close>; then net and penalty add up to the unlocked amount and the
  penalty is the rounded-up share. Everything else is \<open>InvalidAmount\<close>.
\<close>

theorem preview_unlock_exact:
  assumes "unat p \<le> 10000"
  shows "if g \<le> e \<and> (p = 0 \<or> g = 0 \<or> 10000 \<le> unat g * unat p)
         then \<exists>net pen. preview_unlock g e p = Ok (net, pen) \<and> unat net + unat pen = unat g \<and>
                unat g * unat p \<le> unat pen * 10000 \<and> unat pen * 10000 < unat g * unat p + 10000
         else preview_unlock g e p = Err InvalidAmount"
proof (cases "g \<le> e \<and> (p = 0 \<or> g = 0 \<or> 10000 \<le> unat g * unat p)")
  case True
  let ?P = "(unat g * unat p + 9999) div 10000"
  have le: "?P \<le> unat g" using assms by (rule ceil_cut_le)
  then obtain pen :: u64 where pen: "unat pen = ?P"
    using unat_u64_bound [of g] ex_unat [of ?P, where ?'a = 64] by (auto simp: le_less_trans)
  obtain net :: u64 where net: "unat net = unat g - unat pen"
    using unat_u64_bound [of g] ex_unat [of "unat g - unat pen", where ?'a = 64]
    by (auto simp: less_imp_diff_less)
  have "p = 0 \<or> g = 0 \<or> (9999 + unat p) div unat p \<le> unat g"
    using True dust_floor [of "unat p" "unat g"] by (auto simp: unat_gt_0)
  then have "preview_unlock g e p = Ok (net, pen)"
    using True pen net le by (auto simp: preview_unlock_Ok word_le_nat_alt)
  moreover have "unat g * unat p \<le> unat pen * 10000" "unat pen * 10000 < unat g * unat p + 10000"
    unfolding pen by linarith+
  ultimately show ?thesis using True pen net le by auto
next
  case False
  then have "e < g \<or> p \<noteq> 0 \<and> g \<noteq> 0 \<and> unat g * unat p < 10000" by auto
  then have "preview_unlock g e p = Err InvalidAmount" by (rule preview_unlock_rejects)
  with False show ?thesis by auto
qed

theorem preview_unlock_exact_witness:
  "\<exists>net pen. preview_unlock 1000 5000 100 = Ok (net, pen) \<and> unat net + unat pen = 1000"
  using preview_unlock_exact [of 100 1000 5000] by auto

text \<open>
  C31. Leaving in parts is never cheaper than leaving at once. After unlocking one part, unlocking
  another out of what is left succeeds only where the two could have been unlocked together, and
  together they return at least as much, with a penalty that is the same or one unit less.
\<close>

theorem unlock_in_parts:
  assumes "preview_unlock g1 e p = Ok (u1, q1)" "preview_unlock g2 (e - g1) p = Ok (u2, q2)"
  shows "\<exists>u q. preview_unlock (g1 + g2) e p = Ok (u, q) \<and> unat u + unat q = unat g1 + unat g2 \<and>
    unat u1 + unat u2 \<le> unat u \<and> unat q \<le> unat q1 + unat q2 \<and> unat q1 + unat q2 \<le> unat q + 1"
proof -
  let ?a = "unat g1 * unat p" and ?b = "unat g2 * unat p"
  let ?P = "(?a + ?b + 9999) div 10000"
  have 1: "unat g1 \<le> unat e" "unat q1 = (?a + 9999) div 10000" "unat g1 = unat u1 + unat q1"
      "p = 0 \<or> g1 = 0 \<or> (9999 + unat p) div unat p \<le> unat g1"
    using assms(1) [unfolded preview_unlock_Ok] by blast+
  have 2: "unat g2 \<le> unat (e - g1)" "unat q2 = (?b + 9999) div 10000" "unat g2 = unat u2 + unat q2"
      "p = 0 \<or> g2 = 0 \<or> (9999 + unat p) div unat p \<le> unat g2"
    using assms(2) [unfolded preview_unlock_Ok] by blast+
  have fits: "unat g1 + unat g2 \<le> unat e" using 1(1) 2(1) by (simp add: unat_sub word_le_nat_alt)
  then have g: "unat (g1 + g2) = unat g1 + unat g2"
    using unat_u64_bound [of e] by (intro unat_add_lem [THEN iffD1]) simp
  have P: "?P \<le> unat q1 + unat q2" "unat q1 + unat q2 \<le> ?P + 1" unfolding 1(2) 2(2) by linarith+
  then have "?P < 2 ^ 64" using 1(3) 2(3) fits unat_u64_bound [of e] by simp
  then obtain q :: u64 where q: "unat q = ?P" using ex_unat [of ?P, where ?'a = 64] by auto
  have "unat g1 + unat g2 - ?P < 2 ^ 64" using fits unat_u64_bound [of e] by simp
  then obtain u :: u64 where u: "unat u = unat g1 + unat g2 - ?P"
    using ex_unat [of "unat g1 + unat g2 - ?P", where ?'a = 64] by auto
  have sum: "unat u + unat q = unat g1 + unat g2" using P(1) 1(3) 2(3) by (simp add: q u)
  have "p = 0 \<or> g1 + g2 = 0 \<or> (9999 + unat p) div unat p \<le> unat (g1 + g2)"
    using 1(4) 2(4) g by auto
  then have "preview_unlock (g1 + g2) e p = Ok (u, q)"
    using fits sum q g by (simp add: preview_unlock_Ok algebra_simps)
  moreover have "unat u1 + unat u2 \<le> unat u" using P(1) 1(3) 2(3) by (simp add: u)
  ultimately show ?thesis using sum P q by auto
qed

theorem unlock_in_parts_witness:
  "preview_unlock 150 5000 100 = Ok (148, 2) \<and> preview_unlock 150 (5000 - 150) 100 = Ok (148, 2) \<and>
   (\<exists>u q. preview_unlock (150 + 150) 5000 100 = Ok (u, q) \<and> 296 \<le> unat u \<and> unat q \<le> 4)"
proof -
  have a: "preview_unlock 150 5000 100 = Ok (148, 2)" "preview_unlock 150 (5000 - 150) 100 = Ok (148, 2)"
    by (simp_all add: preview_unlock_Ok)
  show ?thesis using unlock_in_parts [OF a] a by auto
qed

text \<open>
  Dust locks cannot leave: while the penalty is positive and the whole lock is below
  \<open>ceil(BPS / penalty)\<close> units, no positive amount - not even the whole lock - can be
  unlocked.
\<close>

theorem dust_lock_stuck:
  assumes "p \<noteq> 0" "unat e * unat p < 10000" "g \<noteq> 0"
  shows "preview_unlock g e p = Err InvalidAmount"
proof (cases "g \<le> e")
  case True
  then have "unat g * unat p \<le> unat e * unat p" by (simp add: word_le_nat_alt mult_le_mono1)
  with assms show ?thesis by (intro preview_unlock_rejects) linarith
next
  case False
  then have "e < g" by simp
  then show ?thesis by (intro preview_unlock_rejects) simp
qed

theorem dust_lock_stuck_witness: "preview_unlock 99 99 100 = Err InvalidAmount"
  using dust_lock_stuck [of 100 99 99] by simp

section \<open>Valuation\<close>

lemma pow10_Ok: "pow10 d = Ok v \<longleftrightarrow> unat d \<le> 38 \<and> unat v = 10 ^ unat d"
proof (cases "unat d \<le> 38")
  case True
  then have "(10::nat) ^ unat d \<le> 10 ^ 38" by (rule power_increasing) simp
  then have "unat (10 ^ unat d :: u128) = 10 ^ unat d"
    using unat_word_of_nat_fits [of "10 ^ unat d", where ?'a = 128] by simp
  with True show ?thesis using unat_eq_iff [of "10 ^ unat d" v] by (auto simp: pow10_def)
qed (simp add: pow10_def)

lemma unat_USD_DECIMALS: "unat USD_DECIMALS = 6"
  by (simp add: USD_DECIMALS_def)

lemma usd_value_Ok:
  assumes "usd_value amount dec price = Ok v"
  shows "amount = 0 \<and> v = 0 \<or> 0 < sint (pd_price price) \<and>
    unat v = unat amount * unat (pd_price price) * 10 ^ 6 div (10 ^ unat dec * 10 ^ unat (pd_decimals price))"
  using assms
  by (auto simp: usd_value_def step_iffs checked_mul_Some checked_div_Some pow10_Ok
      unat_USD_DECIMALS unat_ucast_u64_u128 split: if_splits)

lemma settlement_amount_Ok:
  assumes "settlement_amount v dec price = Ok a"
  shows "0 < sint (pd_price price) \<and>
    unat a = unat v * 10 ^ unat dec * 10 ^ unat (pd_decimals price) div (unat (pd_price price) * 10 ^ 6)"
  using assms
  by (auto simp: settlement_amount_def step_iffs checked_mul_Some checked_div_Some pow10_Ok
      unat_USD_DECIMALS narrow_Ok)

text \<open>
  Valuing an amount in USD and settling that value back in the same asset at the same
  price never returns more than the amount: rounding is always against the caller.
\<close>

theorem settlement_of_usd_value_le:
  assumes "usd_value amount dec price = Ok v" "settlement_amount v dec price = Ok a"
  shows "a \<le> amount"
proof -
  let ?D = "10 ^ unat dec * 10 ^ unat (pd_decimals price) :: nat"
  let ?p = "unat (pd_price price) * 10 ^ 6"
  have a: "unat a = unat v * ?D div ?p"
    using settlement_amount_Ok [OF assms(2)] by (simp add: mult.assoc)
  consider "v = 0" | "unat v = unat amount * ?p div ?D"
    using usd_value_Ok [OF assms(1)] by (auto simp: mult.assoc)
  then have "unat a \<le> unat amount"
  proof cases
    case 1
    then show ?thesis using a by simp
  next
    case 2
    have "unat v * ?D \<le> unat amount * ?p" unfolding 2 by simp
    then show ?thesis unfolding a by (rule div_le_of_le_mult)
  qed
  then show ?thesis by (simp add: word_le_nat_alt)
qed

theorem settlement_of_usd_value_le_witness: "(1234567 :: u64) \<le> 1234567"
proof -
  have "usd_value 1234567 6 sample_price = Ok 2469134"
    by (simp add: usd_value_def pow10_def sample_price_def eval_simps)
  moreover have "settlement_amount 2469134 6 sample_price = Ok 1234567"
    by (simp add: settlement_amount_def pow10_def sample_price_def eval_simps)
  ultimately show ?thesis by (rule settlement_of_usd_value_le)
qed

end
