(* ===== verification/Dividend.thy ===== *)
theory Dividend
  imports Tokenomics_Facts
begin

text \<open>
  The dividend index of \<open>programs/grai/src/dividend.rs\<close>: \<open>distribute_dividend\<close> bumps the
  per-share index of an asset and reserves the matching vault inventory, \<open>settle\<close> checkpoints
  one position against it. The lemmas relate the inventory reserved to what the lockers can
  accrue, and the read-only \<open>pending_dividend\<close> to the checkpoint.
\<close>

section \<open>The operations\<close>

definition distribute_dividend :: "AssetConfig \<Rightarrow> u64 \<Rightarrow> u64 \<Rightarrow> (AssetConfig \<times> u64) res" where
  "distribute_dividend asset amount eligible =
     (if amount = 0 then Ok (asset, 0)
      else
        and_then (if 0 < eligible
                  then ok_or (Option.bind (checked_mul (ucast amount) DIVIDEND_PRECISION)
                         (\<lambda>v. checked_div v (ucast eligible))) MathOverflow
                  else Ok 0) (\<lambda>index_increase.
        if index_increase = 0 then Ok (asset, amount)
        else
          let old_share = acc_share asset in
          and_then (ok_or (checked_add old_share index_increase) MathOverflow) (\<lambda>new_share.
          and_then (ok_or (Option.bind (checked_mul new_share (ucast eligible))
                      (\<lambda>v. checked_div v DIVIDEND_PRECISION)) MathOverflow) (\<lambda>new_max.
          and_then (ok_or (Option.bind (checked_mul old_share (ucast eligible))
                      (\<lambda>v. checked_div v DIVIDEND_PRECISION)) MathOverflow) (\<lambda>old_max.
          and_then (narrow (saturating_sub new_max old_max)) (\<lambda>reserved.
          if reserved = 0 then Ok (asset, amount)
          else
            and_then (ok_or (checked_add (total_claimable asset) reserved) MathOverflow) (\<lambda>tc.
            Ok (asset\<lparr>acc_share := new_share, total_claimable := tc\<rparr>,
                saturating_sub amount reserved))))))))"

definition settle :: "u128 \<Rightarrow> u64 \<Rightarrow> u64 \<Rightarrow> Position \<Rightarrow> Position res" where
  "settle acc old_locked new_locked pos =
     and_then (ok_or (Option.bind (checked_mul (ucast old_locked) acc)
                 (\<lambda>v. checked_div v DIVIDEND_PRECISION)) MathOverflow) (\<lambda>accumulated_old.
     and_then (narrow (saturating_sub accumulated_old (po_debt pos))) (\<lambda>delta.
     and_then (ok_or (checked_add (po_claimable pos) delta) MathOverflow) (\<lambda>claimable.
     and_then (ok_or (Option.bind (checked_mul (ucast new_locked) acc)
                 (\<lambda>v. checked_div v DIVIDEND_PRECISION)) MathOverflow) (\<lambda>accumulated_new.
     Ok (pos\<lparr>po_claimable := claimable, po_debt := accumulated_new\<rparr>)))))"

section \<open>The index on natural numbers\<close>

text \<open>What a lock of \<open>l\<close> units has accumulated under index \<open>acc\<close>: \<open>floor(l * acc / 1e18)\<close>.\<close>

definition accrued :: "nat \<Rightarrow> nat \<Rightarrow> nat" where
  "accrued l acc = l * acc div 1000000000000000000"

lemma accrued_mono: "acc \<le> acc' \<Longrightarrow> accrued l acc \<le> accrued l acc'"
  by (simp add: accrued_def div_le_mono)

lemma accrued_add_le: "accrued l acc + accrued m acc \<le> accrued (l + m) acc"
  unfolding accrued_def add_mult_distrib by (rule div_add_le)

lemma accrued_add_ge: "accrued (l + m) acc \<le> accrued l acc + accrued m acc + 1"
  unfolding accrued_def add_mult_distrib by (rule div_add_ge)

lemma accrued_sum_le: "(\<Sum>l\<leftarrow>ls. accrued l acc) \<le> accrued (sum_list ls) acc"
proof (induction ls)
  case (Cons l ls)
  then show ?case using accrued_add_le [of l acc "sum_list ls"] by simp
qed simp

lemma accrued_sum_ge:
  "accrued (sum_list ls) acc \<le> (\<Sum>l\<leftarrow>ls. accrued l acc) + (length ls - 1)"
proof (induction ls)
  case (Cons l ls)
  then show ?case
    using accrued_add_ge [of l "sum_list ls" acc] by (cases ls) (simp_all add: accrued_def)
qed (simp add: accrued_def)

lemma DIVIDEND_PRECISION_nz: "DIVIDEND_PRECISION \<noteq> 0"
  by (simp add: DIVIDEND_PRECISION_def)

lemma if_Ok_else: "(if b then Ok x else y) = Ok z \<Longrightarrow> x \<noteq> z \<Longrightarrow> \<not> b \<and> y = Ok z"
  by (simp split: if_splits)

lemma distribute_dividend_Ok:
  assumes "distribute_dividend a amount eligible = Ok (a', dust)"
  shows "acc_share a \<le> acc_share a' \<and>
    unat (total_claimable a') + accrued (unat eligible) (unat (acc_share a)) =
      unat (total_claimable a) + accrued (unat eligible) (unat (acc_share a')) \<and>
    unat dust + unat (total_claimable a') = unat amount + unat (total_claimable a) \<and>
    a' = a\<lparr>acc_share := acc_share a', total_claimable := total_claimable a'\<rparr>"
proof (cases "a' = a \<and> dust = amount")
  case True
  then show ?thesis by simp
next
  case False
  then have "amount \<noteq> 0" using assms by (auto simp: distribute_dividend_def)
  define ic :: "u128 res" where "ic = (if 0 < eligible
        then ok_or (Option.bind (checked_mul (ucast amount) DIVIDEND_PRECISION)
                         (\<lambda>v. checked_div v (ucast eligible))) MathOverflow
        else Ok 0)"
  obtain inc new_max old_max reserved where "ic = Ok inc" "inc \<noteq> 0"
      and new: "checked_add (acc_share a) inc = Some (acc_share a')"
      and maxes: "Option.bind (checked_mul (acc_share a') (ucast eligible))
                      (\<lambda>v. checked_div v DIVIDEND_PRECISION) = Some new_max"
        "Option.bind (checked_mul (acc_share a) (ucast eligible))
                      (\<lambda>v. checked_div v DIVIDEND_PRECISION) = Some old_max"
      and res: "narrow (saturating_sub new_max old_max) = Ok reserved"
      and tc: "checked_add (total_claimable a) reserved = Some (total_claimable a')"
      and dust: "dust = saturating_sub amount reserved"
      and frame: "a' = a\<lparr>acc_share := acc_share a', total_claimable := total_claimable a'\<rparr>"
    using assms unfolding distribute_dividend_def ic_def [symmetric] Let_def if_not_P [OF \<open>amount \<noteq> 0\<close>]
    apply (elim and_then_OkE)
    apply (drule if_Ok_else)
    subgoal using False by simp blast
    apply (elim conjE and_then_OkE)
    apply (drule if_Ok_else)
    subgoal using False by simp blast
    by (elim conjE and_then_OkE, rule that) (auto simp: ok_or_Ok_iff)
  then have inc: "unat inc = unat amount * 1000000000000000000 div unat eligible" "eligible \<noteq> 0"
    by (auto simp: ic_def step_iffs muldiv_Some nat_simps split: if_splits)
  have acc: "unat (acc_share a') = unat (acc_share a) + unat inc"
    using new by (simp add: checked_add_Some)
  have new_max: "unat new_max = accrued (unat eligible) (unat (acc_share a'))"
    and old_max: "unat old_max = accrued (unat eligible) (unat (acc_share a))"
    using maxes by (simp_all add: muldiv_Some accrued_def nat_simps mult.commute)
  have reserved: "unat reserved = unat new_max - unat old_max"
    using res by (simp add: narrow_Ok nat_simps)
  have mono: "unat old_max \<le> unat new_max"
    unfolding old_max new_max acc by (rule accrued_mono) simp
  have "unat eligible * unat inc \<le> unat amount * 1000000000000000000"
    unfolding inc by (metis mult.commute times_div_less_eq_dividend)
  then have "unat eligible * unat (acc_share a') \<le>
      unat eligible * unat (acc_share a) + unat amount * 1000000000000000000"
    unfolding acc by (simp add: algebra_simps)
  then have "unat new_max \<le> unat old_max + unat amount"
    unfolding new_max old_max accrued_def
    using div_le_mono [of _ _ "1000000000000000000::nat"] by fastforce
  then have "unat reserved \<le> unat amount" using reserved by simp
  then have d: "unat dust + unat reserved = unat amount" using dust by (simp add: nat_simps)
  have "acc_share a \<le> acc_share a'" using acc by (simp add: word_le_nat_alt)
  then show ?thesis
    using d tc reserved mono frame new_max old_max by (simp add: checked_add_Some)
qed

text \<open>
  C20. Conservation of a distributed cut: what \<open>distribute_dividend\<close> does not reserve for the
  lockers is returned as dust for the treasury, unit for unit, and the reserve grows by
  exactly the growth of the whole base's accumulated dividend
  \<open>floor(eligible * acc_share / 1e18)\<close>; nothing else of the asset changes.
\<close>

theorem distribute_dividend_conserves:
  assumes "distribute_dividend a amount eligible = Ok (a', dust)"
  shows "unat (total_claimable a') - unat (total_claimable a) + unat dust = unat amount \<and>
    unat (total_claimable a) \<le> unat (total_claimable a') \<and>
    unat (total_claimable a') - unat (total_claimable a) =
      accrued (unat eligible) (unat (acc_share a')) - accrued (unat eligible) (unat (acc_share a)) \<and>
    a' = a\<lparr>acc_share := acc_share a', total_claimable := total_claimable a'\<rparr>"
proof -
  note d = distribute_dividend_Ok [OF assms]
  have "accrued (unat eligible) (unat (acc_share a)) \<le> accrued (unat eligible) (unat (acc_share a'))"
    using d by (intro accrued_mono) (simp add: word_le_nat_alt)
  then show ?thesis using d by auto
qed

definition sample_asset :: AssetConfig where
  "sample_asset =
     \<lparr> ac_asset_mint = 7, ac_price_feed = 9, ac_paused = False, ac_bribeable = True, ac_id = 0,
       acc_share = 0, total_claimable = 0, total_yielded = 0, ac_bump = 255, pyth_feed_id = 0 \<rparr>"

theorem distribute_dividend_conserves_witness:
  "\<exists>a' dust. distribute_dividend sample_asset 1000 7 = Ok (a', dust) \<and>
     unat (total_claimable a') - unat (total_claimable sample_asset) + unat dust = unat (1000 :: u64)"
proof -
  have "case distribute_dividend sample_asset 1000 7 of Inr _ \<Rightarrow> True | Inl _ \<Rightarrow> False"
    by (simp add: distribute_dividend_def sample_asset_def eval_simps)
  then obtain a' dust where "distribute_dividend sample_asset 1000 7 = Ok (a', dust)"
    by (auto split: sum.splits)
  with distribute_dividend_conserves [OF this] show ?thesis by blast
qed

section \<open>Any number of harvests over a fixed lock set\<close>

text \<open>A run of harvests of one asset while the lock book does not change.\<close>

fun harvests :: "AssetConfig \<Rightarrow> u64 list \<Rightarrow> u64 \<Rightarrow> AssetConfig res" where
  "harvests a [] eligible = Ok a"
| "harvests a (x # xs) eligible =
     and_then (distribute_dividend a x eligible) (\<lambda>(a', dust). harvests a' xs eligible)"

lemma harvests_Ok:
  "harvests a xs eligible = Ok a' \<Longrightarrow>
    acc_share a \<le> acc_share a' \<and>
    unat (total_claimable a') + accrued (unat eligible) (unat (acc_share a)) =
      unat (total_claimable a) + accrued (unat eligible) (unat (acc_share a'))"
proof (induction xs arbitrary: a)
  case (Cons x xs)
  then obtain b dust where b: "distribute_dividend a x eligible = Ok (b, dust)"
      "harvests b xs eligible = Ok a'"
    by (auto simp: step_iffs split: prod.splits)
  with Cons.IH [OF b(2)] distribute_dividend_Ok [OF b(1)] show ?case by auto
qed simp

text \<open>
  C21. The reserve follows what lockers can accrue, however many harvests there are. Let the
  locks of \<open>n\<close> accounts be \<open>ls\<close>, with sum \<open>total_locked\<close>. After any sequence of
  distributions, what the accounts accrue in total differs from what was reserved by at most
  \<open>n - 1\<close> base units in either direction; a sole locker accrues exactly the reserve.
\<close>

theorem harvests_track_accruals:
  assumes "harvests a xs eligible = Ok a'" and "sum_list ls = unat eligible"
  shows "let reserved = unat (total_claimable a') - unat (total_claimable a);
             accruals = (\<Sum>l\<leftarrow>ls. accrued l (unat (acc_share a'))) - (\<Sum>l\<leftarrow>ls. accrued l (unat (acc_share a)))
         in accruals \<le> reserved + (length ls - 1) \<and> reserved \<le> accruals + (length ls - 1)"
proof -
  note h = harvests_Ok [OF assms(1)]
  have hi: "(\<Sum>l\<leftarrow>ls. accrued l (unat (acc_share a'))) \<le> accrued (unat eligible) (unat (acc_share a'))"
    "accrued (unat eligible) (unat (acc_share a')) \<le>
      (\<Sum>l\<leftarrow>ls. accrued l (unat (acc_share a'))) + (length ls - 1)"
    using accrued_sum_le [of "unat (acc_share a')" ls] accrued_sum_ge [of ls "unat (acc_share a')"]
      assms(2) by simp_all
  have lo: "(\<Sum>l\<leftarrow>ls. accrued l (unat (acc_share a))) \<le> accrued (unat eligible) (unat (acc_share a))"
    "accrued (unat eligible) (unat (acc_share a)) \<le>
      (\<Sum>l\<leftarrow>ls. accrued l (unat (acc_share a))) + (length ls - 1)"
    using accrued_sum_le [of "unat (acc_share a)" ls] accrued_sum_ge [of ls "unat (acc_share a)"]
      assms(2) by simp_all
  have "accrued (unat eligible) (unat (acc_share a)) \<le> accrued (unat eligible) (unat (acc_share a'))"
    using h by (intro accrued_mono) (simp add: word_le_nat_alt)
  with h hi lo show ?thesis unfolding Let_def by linarith
qed

theorem harvests_track_accruals_witness:
  "\<exists>a'. harvests sample_asset [1000, 55] 7 = Ok a' \<and>
     unat (total_claimable a') - unat (total_claimable sample_asset) \<le>
       (\<Sum>l\<leftarrow>[3, 4]. accrued l (unat (acc_share a'))) -
         (\<Sum>l\<leftarrow>[3, 4]. accrued l (unat (acc_share sample_asset))) + 1"
proof -
  have "case harvests sample_asset [1000, 55] 7 of Inr _ \<Rightarrow> True | Inl _ \<Rightarrow> False"
    by (simp add: distribute_dividend_def sample_asset_def eval_simps)
  then obtain a' where a': "harvests sample_asset [1000, 55] 7 = Ok a'"
    by (auto split: sum.splits)
  have "sum_list [3, 4] = unat (7 :: u64)" by simp
  from harvests_track_accruals [OF a' this] a' show ?thesis by (simp add: Let_def)
qed

section \<open>Checkpoints\<close>

lemma settle_Ok:
  "settle acc old new p = Ok p' \<longleftrightarrow>
     unat old * unat acc < 2 ^ 128 \<and> unat new * unat acc < 2 ^ 128 \<and>
     unat (po_claimable p') =
       unat (po_claimable p) + (accrued (unat old) (unat acc) - unat (po_debt p)) \<and>
     unat (po_debt p') = accrued (unat new) (unat acc) \<and>
     p' = p\<lparr>po_claimable := po_claimable p', po_debt := po_debt p'\<rparr>"
  (is "?L \<longleftrightarrow> ?R")
proof
  assume ?L
  then obtain ao d c an where
      "Option.bind (checked_mul (ucast old) acc) (\<lambda>v. checked_div v DIVIDEND_PRECISION) = Some ao"
      "narrow (saturating_sub ao (po_debt p)) = Ok d" "checked_add (po_claimable p) d = Some c"
      "Option.bind (checked_mul (ucast new) acc) (\<lambda>v. checked_div v DIVIDEND_PRECISION) = Some an"
      "p' = p\<lparr>po_claimable := c, po_debt := an\<rparr>"
    by (auto simp: settle_def step_iffs)
  then show ?R by (simp add: muldiv_Some narrow_Ok checked_add_Some nat_simps accrued_def)
next
  assume r: ?R
  let ?ao = "accrued (unat old) (unat acc)"
  have "?ao < 2 ^ 128"
    unfolding accrued_def using r by (blast intro: le_less_trans [OF div_le_dividend])
  then obtain ao :: u128 where ao: "unat ao = ?ao"
    using ex_unat [of ?ao, where ?'a = 128] by auto
  obtain d :: u64 where d: "unat d = unat ao - unat (po_debt p)"
    using r ao unat_u64_bound [of "po_claimable p'"]
      ex_unat [of "unat ao - unat (po_debt p)", where ?'a = 64] by auto
  have "Option.bind (checked_mul (ucast old) acc) (\<lambda>v. checked_div v DIVIDEND_PRECISION) = Some ao"
    using r ao DIVIDEND_PRECISION_nz by (simp add: muldiv_Some nat_simps accrued_def)
  moreover have "narrow (saturating_sub ao (po_debt p)) = Ok d"
    using d by (simp add: narrow_Ok nat_simps)
  moreover have "checked_add (po_claimable p) d = Some (po_claimable p')"
    using r d ao by (simp add: checked_add_Some)
  moreover have "Option.bind (checked_mul (ucast new) acc) (\<lambda>v. checked_div v DIVIDEND_PRECISION)
      = Some (po_debt p')"
    using r DIVIDEND_PRECISION_nz by (simp add: muldiv_Some nat_simps accrued_def)
  moreover have "p' = p\<lparr>po_claimable := po_claimable p', po_debt := po_debt p'\<rparr>" using r by blast
  ultimately show ?L unfolding settle_def by (metis and_then_simps(1) ok_or_simps(1))
qed

lemma settle_Err: "settle acc old new p = Inl e \<Longrightarrow> e = Raise MathOverflow"
  by (auto simp: settle_def err_simps)

text \<open>
  The read-only quote is the checkpoint: \<open>pending_dividend\<close> returns exactly the
  \<open>claimable\<close> a settlement at the same lock would store, and fails exactly when it fails.
\<close>

theorem pending_dividend_eq_settle:
  "pending_dividend locked acc (po_debt p) (po_claimable p) =
     and_then (settle acc locked locked p) (\<lambda>p'. Ok (po_claimable p'))"
proof (cases "Option.bind (checked_mul (ucast locked) acc)
                (\<lambda>v. checked_div v DIVIDEND_PRECISION)")
  case None
  then show ?thesis by (simp add: pending_dividend_def settle_def)
next
  case (Some ao)
  show ?thesis
  proof (cases "narrow (saturating_sub ao (po_debt p))")
    case (Inl e)
    with Some show ?thesis by (simp add: pending_dividend_def settle_def)
  next
    case (Inr d)
    with Some show ?thesis
      by (cases "checked_add (po_claimable p) d") (simp_all add: pending_dividend_def settle_def)
  qed
qed

text \<open>
  Checkpoints compose: settling a position at the same index twice, first to a lock \<open>l1\<close>
  and then from \<open>l1\<close> to \<open>l2\<close>, is settling it once to \<open>l2\<close>, errors included. Repeating a
  settlement can never accrue a dividend twice.
\<close>

theorem settle_compose:
  assumes "settle acc l0 l1 p = Ok p1"
  shows "settle acc l1 l2 p1 = settle acc l0 l2 p"
proof -
  note s = assms [unfolded settle_Ok]
  have iff: "settle acc l1 l2 p1 = Ok q \<longleftrightarrow> settle acc l0 l2 p = Ok q" for q
    using s by (cases p; cases p1; cases q) (auto simp: settle_Ok)
  show ?thesis
  proof (cases "settle acc l0 l2 p")
    case (Inr q)
    then show ?thesis using iff by simp
  next
    case (Inl e)
    then have "settle acc l1 l2 p1 \<noteq> Ok q" for q using iff by simp
    then obtain e' where "settle acc l1 l2 p1 = Inl e'" by (cases "settle acc l1 l2 p1") auto
    with Inl settle_Err show ?thesis by metis
  qed
qed

theorem settle_compose_witness:
  "\<exists>p1. settle 5000000000000000000 3 4 \<lparr> po_debt = 2, po_claimable = 1, po_yielded = 0, po_bump = 0 \<rparr>
     = Ok p1 \<and>
   settle 5000000000000000000 4 9 p1 =
   settle 5000000000000000000 3 9 \<lparr> po_debt = 2, po_claimable = 1, po_yielded = 0, po_bump = 0 \<rparr>"
proof -
  let ?p = "\<lparr> po_debt = 2, po_claimable = 1, po_yielded = 0, po_bump = 0 \<rparr>"
  have "case settle 5000000000000000000 3 4 ?p of Inr _ \<Rightarrow> True | Inl _ \<Rightarrow> False"
    by (simp add: settle_def eval_simps)
  then obtain p1 where "settle 5000000000000000000 3 4 ?p = Ok p1"
    by (auto split: sum.splits)
  with settle_compose [OF this] show ?thesis by blast
qed

end
