(* ===== verification/Ownable.thy ===== *)
theory Ownable
  imports Prelude
begin

text \<open>
  The two-step ownership contract (\<open>Ownable2Step\<close>) that three programs of the workspace
  implement: the owner proposes a successor, and only the proposed account can complete the
  handoff. The interface states what one call promises; what a sequence of calls can do is
  proved once here and obtained for each program by interpretation.
\<close>

datatype own_op = Transfer_Ownership pubkey pubkey | Accept_Ownership pubkey

text \<open>A run of ownership calls, each with its signer; a failing call leaves the state.\<close>

fun run_own ::
  "(pubkey \<Rightarrow> pubkey \<Rightarrow> 's \<Rightarrow> ('e, 's) result) \<Rightarrow> (pubkey \<Rightarrow> 's \<Rightarrow> ('e, 's) result) \<Rightarrow>
   own_op list \<Rightarrow> 's \<Rightarrow> 's" where
  "run_own transfer accept [] s = s"
| "run_own transfer accept (Transfer_Ownership signer new # ops) s =
     run_own transfer accept ops (case transfer signer new s of Inl _ \<Rightarrow> s | Inr s' \<Rightarrow> s')"
| "run_own transfer accept (Accept_Ownership signer # ops) s =
     run_own transfer accept ops (case accept signer s of Inl _ \<Rightarrow> s | Inr s' \<Rightarrow> s')"

locale ownable2step =
  fixes owner_of :: "'s \<Rightarrow> pubkey"
    and pending_of :: "'s \<Rightarrow> pubkey"
    and transfer :: "pubkey \<Rightarrow> pubkey \<Rightarrow> 's \<Rightarrow> ('e, 's) result"
    and accept :: "pubkey \<Rightarrow> 's \<Rightarrow> ('e, 's) result"
  assumes transfer_promise: "transfer signer new s = Inr s' \<Longrightarrow>
      signer = owner_of s \<and> new \<noteq> owner_of s \<and> owner_of s' = owner_of s \<and> pending_of s' = new"
    and accept_promise: "accept signer s = Inr s' \<Longrightarrow>
      signer = pending_of s \<and> signer \<noteq> default_pubkey \<and>
      owner_of s' = signer \<and> pending_of s' = default_pubkey"
begin

lemma own_op_cases:
  "owner_of (run_own transfer accept [op] s) = owner_of s \<or>
   op = Accept_Ownership (pending_of s) \<and> pending_of s \<noteq> default_pubkey \<and>
   owner_of (run_own transfer accept [op] s) = pending_of s"
  by (cases op) (auto split: sum.splits dest: transfer_promise accept_promise)

lemma pending_cases:
  assumes "pending_of (run_own transfer accept [op] s) = p" "p \<noteq> default_pubkey"
  shows "p = pending_of s \<or> (\<exists>signer. op = Transfer_Ownership signer p)"
  using assms by (cases op) (auto split: sum.splits dest: transfer_promise accept_promise)

lemma run_own_Cons:
  "run_own transfer accept (op # ops) s = run_own transfer accept ops (run_own transfer accept [op] s)"
  by (cases op) simp_all

text \<open>Whoever ends up owner accepted in person and had been proposed.\<close>

lemma owner_accepted:
  "owner_of (run_own transfer accept ops s) \<noteq> owner_of s \<Longrightarrow>
   Accept_Ownership (owner_of (run_own transfer accept ops s)) \<in> set ops \<and>
   owner_of (run_own transfer accept ops s) \<noteq> default_pubkey \<and>
   (owner_of (run_own transfer accept ops s) = pending_of s \<or>
    (\<exists>signer. Transfer_Ownership signer (owner_of (run_own transfer accept ops s)) \<in> set ops))"
proof (induction ops arbitrary: s)
  case (Cons op ops)
  let ?s = "run_own transfer accept [op] s" and ?s' = "run_own transfer accept (op # ops) s"
  have e: "?s' = run_own transfer accept ops ?s" by (rule run_own_Cons)
  show ?case
  proof (cases "owner_of ?s' = owner_of ?s")
    case True
    then show ?thesis using own_op_cases [of op s] Cons.prems by auto
  next
    case False
    then have ih: "Accept_Ownership (owner_of ?s') \<in> set ops \<and> owner_of ?s' \<noteq> default_pubkey \<and>
        (owner_of ?s' = pending_of ?s \<or> (\<exists>signer. Transfer_Ownership signer (owner_of ?s') \<in> set ops))"
      unfolding e by (rule Cons.IH)
    then consider "owner_of ?s' = pending_of ?s"
      | "\<exists>signer. Transfer_Ownership signer (owner_of ?s') \<in> set ops" by blast
    then have "owner_of ?s' = pending_of s \<or>
        (\<exists>signer. Transfer_Ownership signer (owner_of ?s') \<in> set (op # ops))"
    proof cases
      case 1
      then have "owner_of ?s' = pending_of s \<or> (\<exists>signer. op = Transfer_Ownership signer (owner_of ?s'))"
        using ih by (intro pending_cases) simp_all
      then show ?thesis by (metis list.set_intros(1))
    next
      case 2
      then show ?thesis by (metis list.set_intros(2))
    qed
    then show ?thesis using ih by (metis list.set_intros(2))
  qed
qed simp

end

end
