(* ===== verification/Custom_Feed.thy ===== *)
theory Custom_Feed
  imports Ownable
begin

text \<open>
  The \<open>custom_price_feed\<close> program (\<open>programs/custom_price_feed/src/lib.rs\<close>): a configuration
  account with two-step ownership and one price feed per mint, written by its oracle. Every
  instruction is modelled with the checks of its \<open>Accounts\<close> struct.
\<close>

datatype FeedError =
    Feed_Unauthorized | InvalidPrice | InvalidDecimals | Feed_InvalidMint
  | Feed_InvalidPendingOwner | InvalidOracle

record FeedConfig =
  fc_owner :: pubkey
  fc_pending_owner :: pubkey
  fc_bump :: u8

record CustomPriceFeed =
  cf_oracle :: pubkey
  cf_asset_mint :: pubkey
  cf_description :: "256 word"
  cf_price :: i128
  cf_decimals :: u8
  cf_updated_at :: i64

text \<open>The program's accounts: the one configuration and the feeds by mint.\<close>

record feed_world =
  fw_config :: "FeedConfig option"
  fw_feeds :: "pubkey \<rightharpoonup> CustomPriceFeed"

type_synonym 'a feed_res = "(FeedError, 'a) result"

definition initialize_config :: "u8 \<Rightarrow> pubkey \<Rightarrow> feed_world \<Rightarrow> feed_world feed_res" where
  "initialize_config bump owner w =
     and_then (constraint (fw_config w = None)) (\<lambda>_.
     Ok (w\<lparr>fw_config := Some \<lparr> fc_owner = owner, fc_pending_owner = default_pubkey,
                                fc_bump = bump \<rparr>\<rparr>))"

text \<open>\<open>has_one = owner @ Unauthorized\<close> on the configuration account.\<close>

definition feed_owner_config :: "pubkey \<Rightarrow> feed_world \<Rightarrow> FeedConfig feed_res" where
  "feed_owner_config owner w =
     and_then (account (fw_config w)) (\<lambda>c.
     and_then (require (fc_owner c = owner) Feed_Unauthorized) (\<lambda>_.
     Ok c))"

definition feed_transfer_ownership :: "pubkey \<Rightarrow> pubkey \<Rightarrow> feed_world \<Rightarrow> feed_world feed_res" where
  "feed_transfer_ownership owner new_owner w =
     and_then (feed_owner_config owner w) (\<lambda>c.
     and_then (require (new_owner \<noteq> owner) Feed_InvalidPendingOwner) (\<lambda>_.
     Ok (w\<lparr>fw_config := Some (c\<lparr>fc_pending_owner := new_owner\<rparr>)\<rparr>)))"

definition feed_accept_ownership :: "pubkey \<Rightarrow> feed_world \<Rightarrow> feed_world feed_res" where
  "feed_accept_ownership pending_owner w =
     and_then (account (fw_config w)) (\<lambda>c.
     and_then (require (fc_pending_owner c \<noteq> default_pubkey) Feed_Unauthorized) (\<lambda>_.
     and_then (require (fc_pending_owner c = pending_owner) Feed_Unauthorized) (\<lambda>_.
     Ok (w\<lparr>fw_config := Some (c\<lparr>fc_owner := pending_owner,
                                  fc_pending_owner := default_pubkey\<rparr>)\<rparr>))))"

definition feed_initialize ::
  "i64 \<Rightarrow> pubkey \<Rightarrow> pubkey \<Rightarrow> i128 \<Rightarrow> u8 \<Rightarrow> 256 word \<Rightarrow> pubkey \<Rightarrow> feed_world \<Rightarrow> feed_world feed_res" where
  "feed_initialize now owner mint price decimals description oracle w =
     and_then (feed_owner_config owner w) (\<lambda>_.
     and_then (constraint (fw_feeds w mint = None)) (\<lambda>_.
     and_then (require (0 < sint price) InvalidPrice) (\<lambda>_.
     and_then (require (decimals \<le> 18) InvalidDecimals) (\<lambda>_.
     and_then (require (oracle \<noteq> default_pubkey) InvalidOracle) (\<lambda>_.
     Ok (w\<lparr>fw_feeds := (fw_feeds w)(mint \<mapsto>
       \<lparr> cf_oracle = oracle, cf_asset_mint = mint, cf_description = description,
         cf_price = price, cf_decimals = decimals, cf_updated_at = now \<rparr>)\<rparr>))))))"

definition feed_set_oracle :: "pubkey \<Rightarrow> pubkey \<Rightarrow> pubkey \<Rightarrow> feed_world \<Rightarrow> feed_world feed_res" where
  "feed_set_oracle owner mint oracle w =
     and_then (feed_owner_config owner w) (\<lambda>_.
     and_then (account (fw_feeds w mint)) (\<lambda>f.
     and_then (require (cf_asset_mint f = mint) Feed_InvalidMint) (\<lambda>_.
     and_then (require (oracle \<noteq> default_pubkey) InvalidOracle) (\<lambda>_.
     Ok (w\<lparr>fw_feeds := (fw_feeds w)(mint \<mapsto> f\<lparr>cf_oracle := oracle\<rparr>)\<rparr>)))))"

definition feed_set_price ::
  "i64 \<Rightarrow> pubkey \<Rightarrow> pubkey \<Rightarrow> i128 \<Rightarrow> feed_world \<Rightarrow> feed_world feed_res" where
  "feed_set_price now oracle mint price w =
     and_then (account (fw_feeds w mint)) (\<lambda>f.
     and_then (require (cf_asset_mint f = mint) Feed_InvalidMint) (\<lambda>_.
     and_then (require (cf_oracle f = oracle) Feed_Unauthorized) (\<lambda>_.
     and_then (require (0 < sint price) InvalidPrice) (\<lambda>_.
     Ok (w\<lparr>fw_feeds := (fw_feeds w)(mint \<mapsto> f\<lparr>cf_price := price, cf_updated_at := now\<rparr>)\<rparr>)))))"

section \<open>Transitions and the feed invariant\<close>

text \<open>
  The instructions of the program with their signers and arguments, and the entry points. The
  clock and the bump of the configuration account are the runtime's.
\<close>

datatype feed_instruction =
    FeedInitializeConfig pubkey
  | FeedTransferOwnership pubkey pubkey
  | FeedAcceptOwnership pubkey
  | FeedInitialize pubkey pubkey i128 u8 "256 word" pubkey
  | FeedSetOracle pubkey pubkey pubkey
  | FeedSetPrice pubkey pubkey i128

fun feed_dispatch :: "u8 \<Rightarrow> i64 \<Rightarrow> feed_instruction \<Rightarrow> feed_world \<Rightarrow> feed_world feed_res" where
  "feed_dispatch bump now (FeedInitializeConfig owner) w = initialize_config bump owner w"
| "feed_dispatch bump now (FeedTransferOwnership owner new_owner) w = feed_transfer_ownership owner new_owner w"
| "feed_dispatch bump now (FeedAcceptOwnership pending_owner) w = feed_accept_ownership pending_owner w"
| "feed_dispatch bump now (FeedInitialize owner mint price decimals description oracle) w =
     feed_initialize now owner mint price decimals description oracle w"
| "feed_dispatch bump now (FeedSetOracle owner mint oracle) w = feed_set_oracle owner mint oracle w"
| "feed_dispatch bump now (FeedSetPrice oracle mint price) w = feed_set_price now oracle mint price w"

inductive feed_step :: "feed_world \<Rightarrow> feed_world \<Rightarrow> bool" where
  "feed_dispatch bump now i w = Ok w' \<Longrightarrow> feed_step w w'"

inductive_cases feed_stepE: "feed_step w w'"

definition feed_genesis :: feed_world where
  "feed_genesis = \<lparr> fw_config = None, fw_feeds = Map.empty \<rparr>"

text \<open>Every feed is well formed and bound to its own mint.\<close>

definition good_feed :: "pubkey \<Rightarrow> CustomPriceFeed \<Rightarrow> bool" where
  "good_feed mint f \<longleftrightarrow> cf_asset_mint f = mint \<and> 0 < sint (cf_price f) \<and>
     unat (cf_decimals f) \<le> 18 \<and> cf_oracle f \<noteq> default_pubkey"

definition feeds_ok :: "feed_world \<Rightarrow> bool" where
  "feeds_ok w \<longleftrightarrow> (\<forall>mint f. fw_feeds w mint = Some f \<longrightarrow> good_feed mint f)"

lemma config_frame:
  "initialize_config bump owner w = Ok w' \<Longrightarrow> fw_feeds w' = fw_feeds w"
  "feed_transfer_ownership owner new w = Ok w' \<Longrightarrow> fw_feeds w' = fw_feeds w"
  "feed_accept_ownership pending w = Ok w' \<Longrightarrow> fw_feeds w' = fw_feeds w"
  by (auto simp: initialize_config_def feed_transfer_ownership_def feed_accept_ownership_def
      ok_simps)

lemma feeds_ok_upd:
  "feeds_ok w \<Longrightarrow> good_feed mint f \<Longrightarrow> feeds_ok (w\<lparr>fw_feeds := (fw_feeds w)(mint \<mapsto> f)\<rparr>)"
  by (simp add: feeds_ok_def)

lemma feed_set_oracle_Ok:
  assumes "feed_set_oracle owner mint orc w = Ok w'"
  obtains c f where "fw_config w = Some c" "fc_owner c = owner" "fw_feeds w mint = Some f"
    "orc \<noteq> default_pubkey" "w' = w\<lparr>fw_feeds := (fw_feeds w)(mint \<mapsto> f\<lparr>cf_oracle := orc\<rparr>)\<rparr>"
  using assms by (auto simp: feed_set_oracle_def feed_owner_config_def ok_simps)

lemma feed_set_price_Ok:
  assumes "feed_set_price now orc mint price w = Ok w'"
  obtains f where "fw_feeds w mint = Some f" "cf_oracle f = orc" "0 < sint price"
    "w' = w\<lparr>fw_feeds := (fw_feeds w)(mint \<mapsto> f\<lparr>cf_price := price, cf_updated_at := now\<rparr>)\<rparr>"
  using assms by (auto simp: feed_set_price_def ok_simps)

lemma feed_initialize_Ok:
  assumes "feed_initialize now owner mint price dec descr orc w = Ok w'"
  obtains f where "fw_feeds w mint = None" "good_feed mint f"
    "w' = w\<lparr>fw_feeds := (fw_feeds w)(mint \<mapsto> f)\<rparr>"
proof -
  let ?f = "\<lparr> cf_oracle = orc, cf_asset_mint = mint, cf_description = descr, cf_price = price,
               cf_decimals = dec, cf_updated_at = now \<rparr>"
  have "fw_feeds w mint = None" "good_feed mint ?f"
    "w' = w\<lparr>fw_feeds := (fw_feeds w)(mint \<mapsto> ?f)\<rparr>"
    using assms by (auto simp: feed_initialize_def good_feed_def ok_simps word_le_nat_alt)
  then show thesis by (rule that)
qed

lemma feed_dispatch_ok: "feed_dispatch bump now i w = Ok w' \<Longrightarrow> feeds_ok w \<Longrightarrow> feeds_ok w'"
proof (cases i)
  case (FeedInitialize owner mint price dec descr orc)
  moreover assume "feed_dispatch bump now i w = Ok w'" "feeds_ok w"
  ultimately show ?thesis by (auto elim!: feed_initialize_Ok intro: feeds_ok_upd)
next
  case (FeedSetOracle owner mint orc)
  moreover assume ok: "feed_dispatch bump now i w = Ok w'" "feeds_ok w"
  ultimately obtain f where f: "fw_feeds w mint = Some f" "orc \<noteq> default_pubkey"
      "w' = w\<lparr>fw_feeds := (fw_feeds w)(mint \<mapsto> f\<lparr>cf_oracle := orc\<rparr>)\<rparr>"
    by (auto elim: feed_set_oracle_Ok)
  then have "good_feed mint (f\<lparr>cf_oracle := orc\<rparr>)" using ok(2) by (simp add: feeds_ok_def good_feed_def)
  with f ok(2) show ?thesis by (simp add: feeds_ok_upd)
next
  case (FeedSetPrice orc mint price)
  moreover assume ok: "feed_dispatch bump now i w = Ok w'" "feeds_ok w"
  ultimately obtain f where f: "fw_feeds w mint = Some f" "0 < sint price"
      "w' = w\<lparr>fw_feeds := (fw_feeds w)(mint \<mapsto> f\<lparr>cf_price := price, cf_updated_at := now\<rparr>)\<rparr>"
    by (auto elim: feed_set_price_Ok)
  then have "good_feed mint (f\<lparr>cf_price := price, cf_updated_at := now\<rparr>)"
    using ok(2) by (simp add: feeds_ok_def good_feed_def)
  with f ok(2) show ?thesis by (simp add: feeds_ok_upd)
qed (simp_all add: feeds_ok_def config_frame)

lemma reachable_feed_good:
  assumes "feed_step\<^sup>*\<^sup>* feed_genesis w" "fw_feeds w mint = Some f"
  shows "good_feed mint f"
proof -
  have "feeds_ok w" using assms(1)
  proof (induction rule: rtranclp_induct)
    case base
    show ?case by (simp add: feeds_ok_def feed_genesis_def)
  next
    case (step y z)
    then show ?case using feed_dispatch_ok by (blast elim: feed_stepE)
  qed
  then show ?thesis using assms(2) by (simp add: feeds_ok_def)
qed

text \<open>
  C33. Every feed of every reachable state of the custom feed program is bound to the mint it
  is derived from, quotes a positive price with at most 18 decimals, and has an oracle.
\<close>

theorem reachable_feeds_ok:
  assumes "feed_step\<^sup>*\<^sup>* feed_genesis w" "fw_feeds w mint = Some f"
  shows "cf_asset_mint f = mint \<and> 0 < sint (cf_price f) \<and> unat (cf_decimals f) \<le> 18 \<and>
    cf_oracle f \<noteq> default_pubkey"
  using reachable_feed_good [OF assms] by (simp add: good_feed_def)

definition sample_feed :: CustomPriceFeed where
  "sample_feed = \<lparr> cf_oracle = 3, cf_asset_mint = 7, cf_description = 0, cf_price = 100,
                    cf_decimals = 8, cf_updated_at = 12 \<rparr>"

definition sample_feed_world :: feed_world where
  "sample_feed_world =
     \<lparr> fw_config = Some \<lparr> fc_owner = 1, fc_pending_owner = 0, fc_bump = 255 \<rparr>,
       fw_feeds = [7 \<mapsto> sample_feed] \<rparr>"

lemma sample_feed_reached: "feed_step\<^sup>*\<^sup>* feed_genesis sample_feed_world"
proof -
  let ?w = "feed_genesis\<lparr>fw_config := Some \<lparr> fc_owner = 1, fc_pending_owner = 0, fc_bump = 255 \<rparr>\<rparr>"
  have "initialize_config 255 1 feed_genesis = Ok ?w"
    by (simp add: initialize_config_def feed_genesis_def)
  then have "feed_step feed_genesis ?w" by (metis feed_dispatch.simps(1) feed_step.intros)
  moreover have "feed_initialize 12 1 7 100 8 0 3 ?w = Ok sample_feed_world"
    by (simp add: feed_initialize_def feed_owner_config_def feed_genesis_def sample_feed_world_def
        sample_feed_def)
  then have "feed_step ?w sample_feed_world" by (metis feed_dispatch.simps(4) feed_step.intros)
  ultimately show ?thesis by simp
qed

theorem reachable_feeds_ok_witness:
  "cf_asset_mint sample_feed = 7 \<and> 0 < sint (cf_price sample_feed) \<and>
   unat (cf_decimals sample_feed) \<le> 18 \<and> cf_oracle sample_feed \<noteq> default_pubkey"
  by (rule reachable_feeds_ok [OF sample_feed_reached]) (simp add: sample_feed_world_def)

text \<open>
  C34. Who may do what to a feed. A feed that exists changes only by \<open>set_price\<close> signed by its own
  oracle, which writes the price and its time, and by \<open>set_oracle\<close> signed by the configured owner,
  which writes the oracle; whoever else signs either of them fails. A feed comes into existence
  only by \<open>initialize\<close> signed by the owner, and none disappears.
\<close>

theorem feed_change_authorised:
  assumes "feed_dispatch bump now i w = Ok w'"
  shows "case fw_feeds w mint of
      Some f \<Rightarrow> \<exists>f'. fw_feeds w' mint = Some f' \<and>
        (f' = f \<and> (\<forall>s price oracle. i \<noteq> FeedSetPrice s mint price \<and> i \<noteq> FeedSetOracle s mint oracle) \<or>
         (\<exists>price. i = FeedSetPrice (cf_oracle f) mint price \<and> f' = f\<lparr>cf_price := price, cf_updated_at := now\<rparr>) \<or>
         (\<exists>c oracle. fw_config w = Some c \<and> i = FeedSetOracle (fc_owner c) mint oracle \<and> f' = f\<lparr>cf_oracle := oracle\<rparr>))
    | None \<Rightarrow> fw_feeds w' mint = None \<or>
        (\<exists>c price dec descr oracle. fw_config w = Some c \<and>
           i = FeedInitialize (fc_owner c) mint price dec descr oracle)"
  using assms
  by (cases i)
    (auto simp: config_frame feed_initialize_def feed_owner_config_def step_iffs
      elim!: feed_set_oracle_Ok feed_set_price_Ok split: option.split)

theorem feed_change_authorised_witness:
  "\<exists>w'. feed_dispatch 255 20 (FeedSetPrice 3 7 150) sample_feed_world = Ok w' \<and>
     fw_feeds w' 7 = Some (sample_feed\<lparr>cf_price := 150, cf_updated_at := 20\<rparr>)"
proof -
  obtain w' where w': "feed_dispatch 255 20 (FeedSetPrice 3 7 150) sample_feed_world = Ok w'"
    by (simp add: feed_set_price_def sample_feed_world_def sample_feed_def)
  from feed_change_authorised [OF this, of 7] w' show ?thesis by (auto simp: sample_feed_world_def)
qed

section \<open>The ownership contract\<close>

definition feed_owner :: "feed_world \<Rightarrow> pubkey" where
  "feed_owner w = (case fw_config w of None \<Rightarrow> default_pubkey | Some c \<Rightarrow> fc_owner c)"

definition feed_pending :: "feed_world \<Rightarrow> pubkey" where
  "feed_pending w = (case fw_config w of None \<Rightarrow> default_pubkey | Some c \<Rightarrow> fc_pending_owner c)"

interpretation feed_own: ownable2step feed_owner feed_pending feed_transfer_ownership
  feed_accept_ownership
  by unfold_locales
    (auto simp: feed_transfer_ownership_def feed_accept_ownership_def feed_owner_config_def
      feed_owner_def feed_pending_def ok_simps split: option.splits)

end
