(* ===== verification/Grai_World.thy ===== *)
theory Grai_World
  imports Dividend Custom_Feed
begin

text \<open>
  The state the GRAI program runs on and the environment it calls.

  \<open>world\<close> holds the program's own accounts and the \<open>ledger\<close> of the accounts that belong to the
  SPL-token and system programs. \<open>env\<close> holds what is not in this repository: the runtime's
  address derivation and clock, the SPL-token program, the system program, Anchor's account
  initialisation and the external oracles. \<open>env_laws\<close> states what the GRAI code relies on of
  them: an SPL transfer, mint or burn moves exactly its amount and touches no other account,
  a created token account is empty, and the system program does not touch token accounts.

  The theory also models \<open>vault.rs\<close> and the account-creation helpers of \<open>state.rs\<close>.
\<close>

section \<open>Ledger\<close>

record TokenAccount =
  tk_mint :: pubkey
  tk_owner :: pubkey
  tk_amount :: u64

record Mint =
  mi_supply :: u64
  mi_decimals :: u8
  mi_authority :: "pubkey option"

record ledger =
  token_accounts :: "pubkey \<rightharpoonup> TokenAccount"
  mints :: "pubkey \<rightharpoonup> Mint"
  lamports :: "pubkey \<Rightarrow> u64"
  data_len :: "pubkey \<Rightarrow> nat"
  program_owner :: "pubkey \<Rightarrow> pubkey"
  raw_data :: "pubkey \<Rightarrow> u8 list"   \<comment> \<open>accounts of the Grinders program\<close>
  executable :: "pubkey \<Rightarrow> bool"

section \<open>Environment\<close>

text \<open>The seed lists the program derives addresses from.\<close>

datatype (plugins only: code size) seed =
    GraiStateSeed
  | AssetSeed pubkey
  | VaultSeed pubkey
  | TreasuryVaultSeed pubkey
  | EscrowSeed pubkey
  | PositionSeed pubkey pubkey
  | ReferrerSeed pubkey
  | TreasuryNftSeed pubkey
  | CustomFeedSeed pubkey

text \<open>An external price account, by the program that owns it.\<close>

record PythPrice =
  pp_price :: i64
  pp_expo :: "32 word"
  pp_publish_time :: i64

record PythPriceUpdateV2 =
  pu_full :: bool
  pu_feed_id :: "256 word"
  pu_price :: i64
  pu_exponent :: "32 word"
  pu_publish_time :: i64
  pu_posted_slot :: u64

record ChainlinkRound =
  cl_answer :: i128
  cl_timestamp :: u32
  cl_slot :: u64

record env =
  pda :: "seed \<Rightarrow> pubkey"
  pda_bump :: "seed \<Rightarrow> u8"
  ata :: "pubkey \<Rightarrow> pubkey \<Rightarrow> pubkey"
  unix_timestamp :: i64
  clock_slot :: u64
  spl_transfer :: "pubkey \<Rightarrow> pubkey \<Rightarrow> pubkey \<Rightarrow> u64 \<Rightarrow> ledger \<Rightarrow> ledger option"
  spl_mint_to :: "pubkey \<Rightarrow> pubkey \<Rightarrow> pubkey \<Rightarrow> u64 \<Rightarrow> ledger \<Rightarrow> ledger option"
  spl_burn :: "pubkey \<Rightarrow> pubkey \<Rightarrow> pubkey \<Rightarrow> u64 \<Rightarrow> ledger \<Rightarrow> ledger option"
  spl_init_account :: "pubkey \<Rightarrow> pubkey \<Rightarrow> pubkey \<Rightarrow> pubkey \<Rightarrow> ledger \<Rightarrow> ledger option"
  spl_initialize_account3 :: "pubkey \<Rightarrow> pubkey \<Rightarrow> pubkey \<Rightarrow> ledger \<Rightarrow> ledger option"
  spl_initialize_mint2 :: "pubkey \<Rightarrow> u8 \<Rightarrow> pubkey \<Rightarrow> ledger \<Rightarrow> ledger option"
  spl_close_account :: "pubkey \<Rightarrow> pubkey \<Rightarrow> pubkey \<Rightarrow> ledger \<Rightarrow> ledger option"
  sync_native :: "pubkey \<Rightarrow> ledger \<Rightarrow> ledger option"
  create_metadata :: "pubkey \<Rightarrow> pubkey \<Rightarrow> u16 \<Rightarrow> (pubkey \<times> bool) option \<Rightarrow> ledger \<Rightarrow> ledger option"
  create_master_edition :: "pubkey \<Rightarrow> pubkey \<Rightarrow> ledger \<Rightarrow> ledger option"
  heartbeat_cpi :: "pubkey \<Rightarrow> pubkey \<Rightarrow> pubkey \<Rightarrow> ledger \<Rightarrow> ledger option"
  rent_minimum :: "nat \<Rightarrow> u64"
  sys_transfer :: "pubkey \<Rightarrow> pubkey \<Rightarrow> u64 \<Rightarrow> ledger \<Rightarrow> ledger option"
  sys_create_account :: "pubkey \<Rightarrow> pubkey \<Rightarrow> u64 \<Rightarrow> nat \<Rightarrow> pubkey \<Rightarrow> ledger \<Rightarrow> ledger option"
  sys_allocate :: "pubkey \<Rightarrow> nat \<Rightarrow> ledger \<Rightarrow> ledger option"
  sys_assign :: "pubkey \<Rightarrow> pubkey \<Rightarrow> ledger \<Rightarrow> ledger option"
  realloc :: "pubkey \<Rightarrow> nat \<Rightarrow> ledger \<Rightarrow> ledger option"
  anchor_init :: "pubkey \<Rightarrow> pubkey \<Rightarrow> nat \<Rightarrow> ledger \<Rightarrow> ledger option"
  grai_program :: pubkey
  custom_feeds :: "pubkey \<rightharpoonup> CustomPriceFeed"
  pyth_legacy :: "pubkey \<rightharpoonup> (i64 \<Rightarrow> u64 \<Rightarrow> PythPrice option)"
  pyth_update :: "pubkey \<Rightarrow> PythPriceUpdateV2 option"
  chainlink_feed :: "pubkey \<Rightarrow> (u8 \<times> ChainlinkRound option) option"

text \<open>\<open>system_program::ID\<close> is the all-zero key.\<close>

definition system_program_id :: pubkey where
  "system_program_id = 0"

abbreviation gs_key :: "env \<Rightarrow> pubkey" where
  "gs_key e \<equiv> pda e GraiStateSeed"

abbreviation vault_key :: "env \<Rightarrow> pubkey \<Rightarrow> pubkey" where
  "vault_key e m \<equiv> pda e (VaultSeed m)"

abbreviation treasury_key :: "env \<Rightarrow> pubkey \<Rightarrow> pubkey" where
  "treasury_key e m \<equiv> pda e (TreasuryVaultSeed m)"

section \<open>What the code relies on\<close>

definition bal :: "ledger \<Rightarrow> pubkey \<Rightarrow> nat" where
  "bal l k = (case token_accounts l k of None \<Rightarrow> 0 | Some a \<Rightarrow> unat (tk_amount a))"

definition supply_of :: "ledger \<Rightarrow> pubkey \<Rightarrow> nat" where
  "supply_of l m = (case mints l m of None \<Rightarrow> 0 | Some x \<Rightarrow> unat (mi_supply x))"

text \<open>Same accounts, mints and holders up to balances and supplies.\<close>

definition same_shape :: "ledger \<Rightarrow> ledger \<Rightarrow> bool" where
  "same_shape l l' \<longleftrightarrow>
     (\<forall>k a. token_accounts l k = Some a \<longrightarrow>
        (\<exists>a'. token_accounts l' k = Some a' \<and> tk_mint a' = tk_mint a \<and> tk_owner a' = tk_owner a))"

text \<open>No token account appears.\<close>

definition none_new :: "ledger \<Rightarrow> ledger \<Rightarrow> bool" where
  "none_new l l' \<longleftrightarrow> (\<forall>k. token_accounts l k = None \<longrightarrow> token_accounts l' k = None)"

text \<open>A mint keeps its decimals and its authority when only supplies change.\<close>

definition same_mints :: "ledger \<Rightarrow> ledger \<Rightarrow> bool" where
  "same_mints l l' \<longleftrightarrow>
     (\<forall>m x. mints l m = Some x \<longrightarrow> (\<exists>s. mints l' m = Some (x\<lparr>mi_supply := s\<rparr>)))"

definition transfer_law :: "env \<Rightarrow> bool" where
  "transfer_law e \<longleftrightarrow> (\<forall>from to auth amt l l'. spl_transfer e from to auth amt l = Some l' \<longrightarrow>
     same_shape l l' \<and> none_new l l' \<and> mints l' = mints l \<and> unat amt \<le> bal l from \<and>
     (\<forall>k. bal l' k = (if from = to then bal l k
                      else if k = from then bal l k - unat amt
                      else if k = to then bal l k + unat amt else bal l k)))"

definition mint_law :: "env \<Rightarrow> bool" where
  "mint_law e \<longleftrightarrow> (\<forall>m to auth amt l l'. spl_mint_to e m to auth amt l = Some l' \<longrightarrow>
     same_shape l l' \<and> none_new l l' \<and> same_mints l l' \<and>
     supply_of l' m = supply_of l m + unat amt \<and>
     (\<forall>x. x \<noteq> m \<longrightarrow> mints l' x = mints l x) \<and>
     (\<forall>k. bal l' k = (if k = to then bal l k + unat amt else bal l k)))"

definition burn_law :: "env \<Rightarrow> bool" where
  "burn_law e \<longleftrightarrow> (\<forall>m from auth amt l l'. spl_burn e m from auth amt l = Some l' \<longrightarrow>
     same_shape l l' \<and> none_new l l' \<and> same_mints l l' \<and>
     unat amt \<le> bal l from \<and> unat amt \<le> supply_of l m \<and> supply_of l' m = supply_of l m - unat amt \<and>
     (\<forall>x. x \<noteq> m \<longrightarrow> mints l' x = mints l x) \<and>
     (\<forall>k. bal l' k = (if k = from then bal l k - unat amt else bal l k)))"

definition init_law :: "env \<Rightarrow> bool" where
  "init_law e \<longleftrightarrow> (\<forall>payer k m own l l'. spl_init_account e payer k m own l = Some l' \<longrightarrow>
     token_accounts l k = None \<and> mints l' = mints l \<and> raw_data l' = raw_data l \<and>
     token_accounts l' = (token_accounts l)(k \<mapsto> \<lparr> tk_mint = m, tk_owner = own, tk_amount = 0 \<rparr>))"

definition init3_law :: "env \<Rightarrow> bool" where
  "init3_law e \<longleftrightarrow> (\<forall>k m own l l'. spl_initialize_account3 e k m own l = Some l' \<longrightarrow>
     token_accounts l k = None \<and> mints l' = mints l \<and>
     token_accounts l' = (token_accounts l)(k \<mapsto> \<lparr> tk_mint = m, tk_owner = own, tk_amount = 0 \<rparr>))"

text \<open>A new mint has no supply; a closed token account is gone, and was empty unless native.\<close>

definition init_mint_law :: "env \<Rightarrow> bool" where
  "init_mint_law e \<longleftrightarrow> (\<forall>m d auth l l'. spl_initialize_mint2 e m d auth l = Some l' \<longrightarrow>
     mints l m = None \<and> token_accounts l' = token_accounts l \<and>
     mints l' = (mints l)(m \<mapsto> \<lparr> mi_supply = 0, mi_decimals = d, mi_authority = Some auth \<rparr>))"

definition close_law :: "env \<Rightarrow> bool" where
  "close_law e \<longleftrightarrow> (\<forall>k dest auth l l'. spl_close_account e k dest auth l = Some l' \<longrightarrow>
     mints l' = mints l \<and> token_accounts l' = (token_accounts l)(k := None))"

text \<open>Wrapping lamports changes only the wrapped account, and never lowers it.\<close>

definition sync_law :: "env \<Rightarrow> bool" where
  "sync_law e \<longleftrightarrow> (\<forall>k l l'. sync_native e k l = Some l' \<longrightarrow>
     same_shape l l' \<and> none_new l l' \<and> mints l' = mints l \<and> bal l k \<le> bal l' k \<and> (\<forall>x. x \<noteq> k \<longrightarrow> bal l' x = bal l x))"

definition frames :: "(ledger \<Rightarrow> ledger option) \<Rightarrow> bool" where
  "frames f \<longleftrightarrow> (\<forall>l l'. f l = Some l' \<longrightarrow> token_accounts l' = token_accounts l \<and> mints l' = mints l)"

text \<open>
  Creating metadata touches no mint; a master edition takes over the authority of its mint
  and mints nothing. Neither touches a token account.
\<close>

definition metadata_law :: "env \<Rightarrow> bool" where
  "metadata_law e \<longleftrightarrow> (\<forall>m p r c. frames (create_metadata e m p r c)) \<and>
     (\<forall>m p l l'. create_master_edition e m p l = Some l' \<longrightarrow>
        token_accounts l' = token_accounts l \<and> supply_of l' m = supply_of l m \<and>
        (\<forall>x. x \<noteq> m \<longrightarrow> mints l' x = mints l x))"

definition system_law :: "env \<Rightarrow> bool" where
  "system_law e \<longleftrightarrow>
     (\<forall>a b n. frames (sys_transfer e a b n)) \<and> (\<forall>a b n s p. frames (sys_create_account e a b n s p)) \<and>
     (\<forall>a s. frames (sys_allocate e a s)) \<and> (\<forall>a p. frames (sys_assign e a p)) \<and>
     (\<forall>a s. frames (realloc e a s)) \<and> (\<forall>p a s. frames (anchor_init e p a s)) \<and>
     (\<forall>p a b. frames (heartbeat_cpi e p a b))"

definition env_laws :: "env \<Rightarrow> bool" where
  "env_laws e \<longleftrightarrow> transfer_law e \<and> mint_law e \<and> burn_law e \<and> init_law e \<and>
     init3_law e \<and> init_mint_law e \<and> close_law e \<and> sync_law e \<and> metadata_law e \<and> system_law e"

lemma transfer_lawD:
  assumes "env_laws e" "spl_transfer e from to auth amt l = Some l'"
  shows "same_shape l l'" "mints l' = mints l" "unat amt \<le> bal l from"
    "bal l' k = (if from = to then bal l k else if k = from then bal l k - unat amt
                 else if k = to then bal l k + unat amt else bal l k)"
    "none_new l l'"
  using assms unfolding env_laws_def transfer_law_def by blast+

lemma mint_lawD:
  assumes "env_laws e" "spl_mint_to e m to auth amt l = Some l'"
  shows "same_shape l l'" "supply_of l' m = supply_of l m + unat amt"
    "x \<noteq> m \<Longrightarrow> mints l' x = mints l x"
    "bal l' k = (if k = to then bal l k + unat amt else bal l k)" "same_mints l l'" "none_new l l'"
  using assms unfolding env_laws_def mint_law_def by blast+

lemma burn_lawD:
  assumes "env_laws e" "spl_burn e m from auth amt l = Some l'"
  shows "same_shape l l'" "unat amt \<le> bal l from" "unat amt \<le> supply_of l m"
    "supply_of l' m = supply_of l m - unat amt" "x \<noteq> m \<Longrightarrow> mints l' x = mints l x"
    "bal l' k = (if k = from then bal l k - unat amt else bal l k)" "same_mints l l'" "none_new l l'"
  using assms unfolding env_laws_def burn_law_def by blast+

lemma bal_cong: "token_accounts l' = token_accounts l \<Longrightarrow> bal l' k = bal l k"
  by (simp add: bal_def)

lemma init_lawD:
  assumes "env_laws e" "spl_init_account e payer k m own l = Some l'"
  shows "token_accounts l k = None" "mints l' = mints l"
    "token_accounts l' = (token_accounts l)(k \<mapsto> \<lparr> tk_mint = m, tk_owner = own, tk_amount = 0 \<rparr>)"
    "bal l' x = bal l x" "raw_data l' = raw_data l"
proof -
  show "token_accounts l k = None" "mints l' = mints l" "raw_data l' = raw_data l"
    "token_accounts l' = (token_accounts l)(k \<mapsto> \<lparr> tk_mint = m, tk_owner = own, tk_amount = 0 \<rparr>)"
    using assms unfolding env_laws_def init_law_def by blast+
  then show "bal l' x = bal l x" by (simp add: bal_def)
qed

lemma init3_lawD:
  assumes "env_laws e" "spl_initialize_account3 e k m own l = Some l'"
  shows "token_accounts l k = None" "mints l' = mints l"
    "token_accounts l' = (token_accounts l)(k \<mapsto> \<lparr> tk_mint = m, tk_owner = own, tk_amount = 0 \<rparr>)"
    "bal l' x = bal l x"
proof -
  show "token_accounts l k = None" "mints l' = mints l"
    "token_accounts l' = (token_accounts l)(k \<mapsto> \<lparr> tk_mint = m, tk_owner = own, tk_amount = 0 \<rparr>)"
    using assms unfolding env_laws_def init3_law_def by blast+
  then show "bal l' x = bal l x" by (simp add: bal_def)
qed

lemma init_mint_lawD:
  assumes "env_laws e" "spl_initialize_mint2 e m d auth l = Some l'"
  shows "mints l m = None" "token_accounts l' = token_accounts l"
    "mints l' = (mints l)(m \<mapsto> \<lparr> mi_supply = 0, mi_decimals = d, mi_authority = Some auth \<rparr>)"
  using assms unfolding env_laws_def init_mint_law_def by blast+

lemma close_lawD:
  assumes "env_laws e" "spl_close_account e k dest auth l = Some l'"
  shows "mints l' = mints l" "token_accounts l' = (token_accounts l)(k := None)"
  using assms unfolding env_laws_def close_law_def by blast+

lemma sync_lawD:
  assumes "env_laws e" "sync_native e k l = Some l'"
  shows "same_shape l l'" "mints l' = mints l" "bal l k \<le> bal l' k" "x \<noteq> k \<Longrightarrow> bal l' x = bal l x" "none_new l l'"
  using assms unfolding env_laws_def sync_law_def by blast+

lemma metadata_lawD:
  assumes "env_laws e"
  shows "create_metadata e m p r c l = Some l' \<Longrightarrow> token_accounts l' = token_accounts l \<and> mints l' = mints l"
    "create_master_edition e m p l = Some l' \<Longrightarrow> token_accounts l' = token_accounts l \<and>
      supply_of l' m = supply_of l m \<and> (\<forall>x. x \<noteq> m \<longrightarrow> mints l' x = mints l x)"
  using assms by (simp_all add: env_laws_def metadata_law_def frames_def)

lemma system_lawD:
  assumes "env_laws e"
  shows "sys_transfer e a b n l = Some l' \<Longrightarrow> token_accounts l' = token_accounts l \<and> mints l' = mints l"
    "sys_create_account e a b n s p l = Some l' \<Longrightarrow>
       token_accounts l' = token_accounts l \<and> mints l' = mints l"
    "sys_allocate e a s l = Some l' \<Longrightarrow> token_accounts l' = token_accounts l \<and> mints l' = mints l"
    "sys_assign e a p l = Some l' \<Longrightarrow> token_accounts l' = token_accounts l \<and> mints l' = mints l"
    "realloc e a s l = Some l' \<Longrightarrow> token_accounts l' = token_accounts l \<and> mints l' = mints l"
    "anchor_init e p a s l = Some l' \<Longrightarrow> token_accounts l' = token_accounts l \<and> mints l' = mints l"
    "heartbeat_cpi e p a b l = Some l' \<Longrightarrow> token_accounts l' = token_accounts l \<and> mints l' = mints l"
  using assms by (simp_all add: env_laws_def system_law_def frames_def)

section \<open>World\<close>

record world =
  grai_state :: GraiState
  assets :: "pubkey \<rightharpoonup> AssetConfig"
  escrows :: "pubkey \<rightharpoonup> Escrow"
  positions :: "pubkey \<times> pubkey \<rightharpoonup> Position"
  books :: "pubkey \<rightharpoonup> Referrer"
  ledger :: ledger

text \<open>A call into another program: its failure fails the instruction.\<close>

definition invoke :: "(ledger \<Rightarrow> ledger option) \<Rightarrow> world \<Rightarrow> world res" where
  "invoke f w = and_then (cpi (f (ledger w))) (\<lambda>l. Ok (w\<lparr>ledger := l\<rparr>))"

lemma invoke_Ok [ok_simps]:
  "invoke f w = Ok w' \<longleftrightarrow> (\<exists>l. f (ledger w) = Some l \<and> w' = w\<lparr>ledger := l\<rparr>)"
  by (auto simp: invoke_def step_iffs)

section \<open>\<open>vault.rs\<close>\<close>

definition redeemable_balance :: "u64 \<Rightarrow> u64 \<Rightarrow> u64" where
  "redeemable_balance vault_amount claimable = saturating_sub vault_amount claimable"

definition dead_grai :: "u64 \<Rightarrow> u64 \<Rightarrow> u64" where
  "dead_grai vault_amount locked = saturating_sub vault_amount locked"

definition transfer_from_vault :: "env \<Rightarrow> pubkey \<Rightarrow> pubkey \<Rightarrow> u64 \<Rightarrow> world \<Rightarrow> world res" where
  "transfer_from_vault e from to amount w =
     (if amount = 0 then Ok w else invoke (spl_transfer e from to (gs_key e) amount) w)"

definition transfer_from_signer ::
  "env \<Rightarrow> pubkey \<Rightarrow> pubkey \<Rightarrow> pubkey \<Rightarrow> u64 \<Rightarrow> world \<Rightarrow> world res" where
  "transfer_from_signer e from to authority amount w =
     (if amount = 0 then Ok w else invoke (spl_transfer e from to authority amount) w)"

text \<open>The effect of a transfer on every balance, whoever signs it.\<close>

definition moved :: "pubkey \<Rightarrow> pubkey \<Rightarrow> nat \<Rightarrow> ledger \<Rightarrow> ledger \<Rightarrow> bool" where
  "moved from to amt l l' \<longleftrightarrow> same_shape l l' \<and> none_new l l' \<and> mints l' = mints l \<and> (amt = 0 \<or> amt \<le> bal l from) \<and>
     (\<forall>k. bal l' k = (if from = to then bal l k else if k = from then bal l k - amt
                      else if k = to then bal l k + amt else bal l k))"

lemma same_shape_refl [simp]: "same_shape l l"
  by (simp add: same_shape_def)

lemma none_new_refl [simp]: "none_new l l"
  by (simp add: none_new_def)

lemma same_shape_trans: "same_shape a b \<Longrightarrow> same_shape b c \<Longrightarrow> same_shape a c"
  unfolding same_shape_def by (metis (no_types))

lemma same_mints_refl [simp]: "same_mints l l"
  unfolding same_mints_def by (metis (no_types, lifting) Mint.cases Mint.update_convs(1))

lemma same_mints_trans: "same_mints a b \<Longrightarrow> same_mints b c \<Longrightarrow> same_mints a c"
  unfolding same_mints_def by fastforce

lemma same_mints_cong: "mints l' = mints l \<Longrightarrow> same_mints l l'"
  using same_mints_refl [of l] by (simp only: same_mints_def)

lemma same_shape_cong: "token_accounts l' = token_accounts l \<Longrightarrow> same_shape l l'"
  by (simp add: same_shape_def)

lemma moved_zero [simp]: "moved from to 0 l l"
  by (simp add: moved_def)

lemma spl_transfer_moved:
  assumes "env_laws e" "spl_transfer e from to auth amt l = Some l'"
  shows "moved from to (unat amt) l l'"
  unfolding moved_def using transfer_lawD [OF assms] by blast

lemma transfer_from_vault_Ok:
  assumes "env_laws e" "transfer_from_vault e from to amt w = Ok w'"
  obtains l where "w' = w\<lparr>ledger := l\<rparr>" "moved from to (unat amt) (ledger w) l"
proof (cases "amt = 0")
  case True
  then show thesis using assms(2) that [of "ledger w"] by (simp add: transfer_from_vault_def)
next
  case False
  then obtain l where "spl_transfer e from to (gs_key e) amt (ledger w) = Some l" "w' = w\<lparr>ledger := l\<rparr>"
    using assms(2) by (auto simp: transfer_from_vault_def ok_simps)
  then show thesis using that spl_transfer_moved [OF assms(1)] by blast
qed

lemma transfer_from_signer_Ok:
  assumes "env_laws e" "transfer_from_signer e from to auth amt w = Ok w'"
  obtains l where "w' = w\<lparr>ledger := l\<rparr>" "moved from to (unat amt) (ledger w) l"
proof (cases "amt = 0")
  case True
  then show thesis using assms(2) that [of "ledger w"] by (simp add: transfer_from_signer_def)
next
  case False
  then obtain l where "spl_transfer e from to auth amt (ledger w) = Some l" "w' = w\<lparr>ledger := l\<rparr>"
    using assms(2) by (auto simp: transfer_from_signer_def ok_simps)
  then show thesis using that spl_transfer_moved [OF assms(1)] by blast
qed

section \<open>Account creation (\<open>state.rs\<close>)\<close>

text \<open>
  \<open>realloc_grai_state\<close> tops up the rent of the state account and grows it;
  \<open>create_account_absorb_prefund\<close> creates a program account, absorbing lamports someone sent
  to its address beforehand.
\<close>

definition realloc_grai_state :: "env \<Rightarrow> pubkey \<Rightarrow> nat \<Rightarrow> world \<Rightarrow> world res" where
  "realloc_grai_state e payer new_space w =
     (let new_lamports = rent_minimum e new_space;
          current = lamports (ledger w) (gs_key e) in
      and_then (if current < new_lamports
                then and_then (or_panic (checked_sub new_lamports current)) (\<lambda>d.
                     invoke (sys_transfer e payer (gs_key e) d) w)
                else Ok w) (\<lambda>w.
      invoke (realloc e (gs_key e) new_space) w))"

definition create_account_absorb_prefund ::
  "env \<Rightarrow> pubkey \<Rightarrow> pubkey \<Rightarrow> pubkey \<Rightarrow> nat \<Rightarrow> world \<Rightarrow> world res" where
  "create_account_absorb_prefund e acct payer owner space w =
     (let l = ledger w in
      and_then (require (data_len l acct = 0 \<and>
                  (program_owner l acct = system_program_id \<or> lamports l acct = 0))
                 InvalidPdaInit) (\<lambda>_.
      and_then (require (payer \<noteq> acct) InvalidPdaInit) (\<lambda>_.
      let current = lamports l acct in
      if current = 0
      then invoke (sys_create_account e payer acct (rent_minimum e space) space owner) w
      else
        let required = saturating_sub (max (rent_minimum e space) 1) current in
        and_then (if 0 < required then invoke (sys_transfer e payer acct required) w
                  else Ok w) (\<lambda>w.
        and_then (invoke (sys_allocate e acct space) w) (\<lambda>w.
        invoke (sys_assign e acct owner) w)))))"

text \<open>Both leave everything but the ledger alone, and its token accounts and mints too.\<close>

definition rent_only :: "world \<Rightarrow> world \<Rightarrow> bool" where
  "rent_only w w' \<longleftrightarrow> (\<exists>l. w' = w\<lparr>ledger := l\<rparr> \<and> token_accounts l = token_accounts (ledger w) \<and>
     mints l = mints (ledger w))"

lemma rent_onlyE:
  assumes "rent_only w w'"
  obtains l where "w' = w\<lparr>ledger := l\<rparr>" "token_accounts l = token_accounts (ledger w)"
    "mints l = mints (ledger w)"
  using assms by (auto simp: rent_only_def)

lemma rent_only_refl [simp]: "rent_only w w"
  unfolding rent_only_def by (rule exI [of _ "ledger w"]) simp

lemma rent_only_trans: "rent_only a b \<Longrightarrow> rent_only b c \<Longrightarrow> rent_only a c"
  by (auto simp: rent_only_def)

lemma rent_only_invoke:
  assumes "env_laws e"
  shows "invoke (sys_transfer e a b n) w = Ok w' \<Longrightarrow> rent_only w w'"
    "invoke (sys_create_account e a b n s p) w = Ok w' \<Longrightarrow> rent_only w w'"
    "invoke (sys_allocate e a s) w = Ok w' \<Longrightarrow> rent_only w w'"
    "invoke (sys_assign e a p) w = Ok w' \<Longrightarrow> rent_only w w'"
    "invoke (realloc e a s) w = Ok w' \<Longrightarrow> rent_only w w'"
    "invoke (anchor_init e b a s) w = Ok w' \<Longrightarrow> rent_only w w'"
    "invoke (heartbeat_cpi e p a b) w = Ok w' \<Longrightarrow> rent_only w w'"
  by (auto simp: ok_simps rent_only_def dest: system_lawD [OF assms])

lemma realloc_grai_state_Ok:
  assumes "env_laws e" "realloc_grai_state e payer n w = Ok w'"
  shows "rent_only w w'"
proof -
  obtain w1 where "(if lamports (ledger w) (gs_key e) < rent_minimum e n
       then and_then (or_panic (checked_sub (rent_minimum e n) (lamports (ledger w) (gs_key e)))) (\<lambda>d.
            invoke (sys_transfer e payer (gs_key e) d) w)
       else Ok w) = Ok w1" and 2: "invoke (realloc e (gs_key e) n) w1 = Ok w'"
    using assms(2) by (auto simp: realloc_grai_state_def Let_def and_then_Ok_iff)
  then have "rent_only w w1"
    by (auto simp: and_then_Ok_iff split: if_splits dest: rent_only_invoke(1) [OF assms(1)])
  moreover have "rent_only w1 w'" using 2 by (rule rent_only_invoke(5) [OF assms(1)])
  ultimately show ?thesis by (rule rent_only_trans)
qed

lemma create_account_absorb_prefund_Ok:
  assumes "env_laws e" "create_account_absorb_prefund e acct payer own n w = Ok w'"
  shows "rent_only w w'"
proof (cases "lamports (ledger w) acct = 0")
  case True
  then have "invoke (sys_create_account e payer acct (rent_minimum e n) n own) w = Ok w'"
    using assms(2) by (auto simp: create_account_absorb_prefund_def Let_def step_iffs)
  then show ?thesis by (rule rent_only_invoke(2) [OF assms(1)])
next
  case False
  then obtain w1 w2 where
      1: "(if 0 < saturating_sub (max (rent_minimum e n) 1) (lamports (ledger w) acct)
           then invoke (sys_transfer e payer acct
                  (saturating_sub (max (rent_minimum e n) 1) (lamports (ledger w) acct))) w
           else Ok w) = Ok w1"
      and 2: "invoke (sys_allocate e acct n) w1 = Ok w2"
      and 3: "invoke (sys_assign e acct own) w2 = Ok w'"
    using assms(2) by (auto simp: create_account_absorb_prefund_def Let_def and_then_Ok_iff)
  from 1 have "rent_only w w1"
    by (auto split: if_splits dest: rent_only_invoke(1) [OF assms(1)])
  moreover have "rent_only w1 w2" "rent_only w2 w'"
    using rent_only_invoke(3) [OF assms(1) 2] rent_only_invoke(4) [OF assms(1) 3] by blast+
  ultimately show ?thesis by (blast intro: rent_only_trans)
qed

end
