(* ===== verification/Settle.thy ===== *)
theory Settle
  imports Grai_World
begin

text \<open>
  The account side of \<open>programs/grai/src/dividend.rs\<close>: loading an asset and a position from the
  instruction's remaining accounts, creating a missing position, and settling a user's
  positions for every listed asset before the user's lock changes.
\<close>

section \<open>Loading accounts\<close>

definition load_asset_config :: "env \<Rightarrow> pubkey \<Rightarrow> pubkey \<Rightarrow> world \<Rightarrow> AssetConfig res" where
  "load_asset_config e key mint w =
     and_then (require (key = pda e (AssetSeed mint)) InvalidRemainingAccounts) (\<lambda>_.
     and_then (ok_or (assets w mint) InvalidRemainingAccounts) (\<lambda>a.
     and_then (require (ac_asset_mint a = mint) AssetUnknown) (\<lambda>_.
     Ok a)))"

definition store_asset_config :: "pubkey \<Rightarrow> AssetConfig \<Rightarrow> world \<Rightarrow> world" where
  "store_asset_config mint a w = w\<lparr>assets := (assets w)(mint \<mapsto> a)\<rparr>"

definition require_vault_pda :: "env \<Rightarrow> pubkey \<Rightarrow> pubkey \<Rightarrow> world \<Rightarrow> unit res" where
  "require_vault_pda e key mint w =
     and_then (require (key = vault_key e mint) InvalidDestination) (\<lambda>_.
     and_then (ok_or (token_accounts (ledger w) key) InvalidDestination) (\<lambda>a.
     require (tk_mint a = mint) InvalidDestination))"

definition require_holder_ata :: "env \<Rightarrow> pubkey \<Rightarrow> pubkey \<Rightarrow> pubkey \<Rightarrow> unit res" where
  "require_holder_ata e key user mint = require (key = ata e user mint) InvalidDestination"

definition Position_LEN :: nat where
  "Position_LEN = 16 + 8 + 8 + 1"

definition load_or_init_position ::
  "env \<Rightarrow> pubkey \<Rightarrow> pubkey \<Rightarrow> pubkey \<Rightarrow> pubkey \<Rightarrow> world \<Rightarrow> (Position \<times> bool \<times> world) res" where
  "load_or_init_position e key user mint payer w =
     and_then (require (key = pda e (PositionSeed user mint)) InvalidRemainingAccounts) (\<lambda>_.
     case positions w (user, mint) of
       Some p \<Rightarrow> Ok (p, False, w)
     | None \<Rightarrow>
         and_then (create_account_absorb_prefund e key payer (grai_program e) (8 + Position_LEN) w)
           (\<lambda>w. Ok (\<lparr> po_debt = 0, po_claimable = 0, po_yielded = 0,
                      po_bump = pda_bump e (PositionSeed user mint) \<rparr>, True, w)))"

definition store_position :: "pubkey \<Rightarrow> pubkey \<Rightarrow> Position \<Rightarrow> world \<Rightarrow> world" where
  "store_position user mint p w = w\<lparr>positions := (positions w)((user, mint) \<mapsto> p)\<rparr>"

section \<open>Settling every listed asset\<close>

text \<open>One iteration of the loop of \<open>settle_all_pairs\<close>.\<close>

definition settle_pair ::
  "env \<Rightarrow> pubkey \<Rightarrow> pubkey \<Rightarrow> pubkey \<Rightarrow> pubkey \<Rightarrow> u64 \<Rightarrow> u64 \<Rightarrow> pubkey \<Rightarrow> world \<Rightarrow> world res" where
  "settle_pair e asset_key position_key mint user old_locked new_locked payer w =
     and_then (load_asset_config e asset_key mint w) (\<lambda>a.
     and_then (load_or_init_position e position_key user mint payer w) (\<lambda>(pos, is_new, w).
     let effective_old = (if is_new then 0 else old_locked) in
     and_then (settle (acc_share a) effective_old new_locked pos) (\<lambda>pos.
     Ok (store_position user mint pos w))))"

fun settle_pairs ::
  "env \<Rightarrow> pubkey list \<Rightarrow> pubkey list \<Rightarrow> pubkey \<Rightarrow> u64 \<Rightarrow> u64 \<Rightarrow> pubkey \<Rightarrow> world \<Rightarrow> world res" where
  "settle_pairs e (a # p # rest) (mint # ms) user old_locked new_locked payer w =
     and_then (settle_pair e a p mint user old_locked new_locked payer w)
       (settle_pairs e rest ms user old_locked new_locked payer)"
| "settle_pairs e _ _ user old_locked new_locked payer w = Ok w"

definition settle_all_pairs ::
  "env \<Rightarrow> pubkey list \<Rightarrow> pubkey list \<Rightarrow> pubkey \<Rightarrow> u64 \<Rightarrow> u64 \<Rightarrow> pubkey \<Rightarrow> world \<Rightarrow> world res" where
  "settle_all_pairs e remaining ms user old_locked new_locked payer w =
     and_then (require (length remaining = length ms * 2) InvalidRemainingAccounts) (\<lambda>_.
     settle_pairs e remaining ms user old_locked new_locked payer w)"

text \<open>One iteration of \<open>settle_all_quads\<close>; \<open>pay\<close> also pays the claimable out.\<close>

definition settle_quad ::
  "env \<Rightarrow> pubkey \<Rightarrow> pubkey \<Rightarrow> pubkey \<Rightarrow> pubkey \<Rightarrow> pubkey \<Rightarrow> pubkey \<Rightarrow> u64 \<Rightarrow> u64 \<Rightarrow> bool \<Rightarrow> pubkey \<Rightarrow>
   world \<Rightarrow> world res" where
  "settle_quad e asset_key position_key vault holder mint user old_locked new_locked pay payer w =
     and_then (load_asset_config e asset_key mint w) (\<lambda>asset.
     and_then (require_vault_pda e vault mint w) (\<lambda>_.
     and_then (require_holder_ata e holder user mint) (\<lambda>_.
     and_then (load_or_init_position e position_key user mint payer w) (\<lambda>(pos, is_new, w).
     let effective_old = (if is_new then 0 else old_locked) in
     and_then (settle (acc_share asset) effective_old new_locked pos) (\<lambda>pos.
     if pay \<and> 0 < po_claimable pos then
       and_then (ok_or (token_accounts (ledger w) vault) InvalidDestination) (\<lambda>v.
       let claimed = min (min (po_claimable pos) (tk_amount v)) (total_claimable asset) in
       if 0 < claimed then
         and_then (transfer_from_vault e vault holder claimed w) (\<lambda>w.
         and_then (ok_or (checked_sub (po_claimable pos) claimed) MathOverflow) (\<lambda>c.
         Ok (store_position user mint (pos\<lparr>po_claimable := c\<rparr>)
              (store_asset_config mint
                (asset\<lparr>total_claimable := saturating_sub (total_claimable asset) claimed\<rparr>) w))))
       else Ok (store_position user mint pos w))
     else Ok (store_position user mint pos w))))))"

fun settle_quads ::
  "env \<Rightarrow> pubkey list \<Rightarrow> pubkey list \<Rightarrow> pubkey \<Rightarrow> u64 \<Rightarrow> u64 \<Rightarrow> bool \<Rightarrow> pubkey \<Rightarrow> world \<Rightarrow> world res" where
  "settle_quads e (a # p # v # h # rest) (mint # ms) user old_locked new_locked pay payer w =
     and_then (settle_quad e a p v h mint user old_locked new_locked pay payer w)
       (settle_quads e rest ms user old_locked new_locked pay payer)"
| "settle_quads e _ _ user old_locked new_locked pay payer w = Ok w"

definition settle_all_quads ::
  "env \<Rightarrow> pubkey list \<Rightarrow> pubkey list \<Rightarrow> pubkey \<Rightarrow> u64 \<Rightarrow> u64 \<Rightarrow> bool \<Rightarrow> pubkey \<Rightarrow> world \<Rightarrow> world res" where
  "settle_all_quads e remaining ms user old_locked new_locked pay payer w =
     and_then (require (length remaining = length ms * 4) InvalidRemainingAccounts) (\<lambda>_.
     settle_quads e remaining ms user old_locked new_locked pay payer w)"

section \<open>What settling changes\<close>

text \<open>Only positions of the user, and rent in the ledger.\<close>

definition pos_only :: "pubkey \<Rightarrow> world \<Rightarrow> world \<Rightarrow> bool" where
  "pos_only user w w' \<longleftrightarrow> (\<exists>P l. w' = w\<lparr>positions := P, ledger := l\<rparr> \<and>
     token_accounts l = token_accounts (ledger w) \<and> mints l = mints (ledger w) \<and>
     (\<forall>u m. u \<noteq> user \<longrightarrow> P (u, m) = positions w (u, m)) \<and>
     (finite (dom (positions w)) \<longrightarrow> finite (dom P)))"

lemma pos_onlyE:
  assumes "pos_only user w w'"
  obtains P l where "w' = w\<lparr>positions := P, ledger := l\<rparr>"
    "token_accounts l = token_accounts (ledger w)" "mints l = mints (ledger w)"
    "\<And>u m. u \<noteq> user \<Longrightarrow> P (u, m) = positions w (u, m)"
  using assms by (auto simp: pos_only_def)

lemma pos_only_refl [simp]: "pos_only user w w"
  unfolding pos_only_def by (intro exI [of _ "positions w"] exI [of _ "ledger w"]) simp

lemma pos_only_trans: "pos_only user a b \<Longrightarrow> pos_only user b c \<Longrightarrow> pos_only user a c"
  unfolding pos_only_def by (elim exE conjE) (auto intro!: exI)

lemma pos_only_store:
  assumes "rent_only w w1"
  shows "pos_only user w (store_position user mint p w1)"
proof -
  let ?P = "(positions w)((user, mint) \<mapsto> p)"
  obtain l where "w1 = w\<lparr>ledger := l\<rparr>" "token_accounts l = token_accounts (ledger w)"
      "mints l = mints (ledger w)"
    using assms by (rule rent_onlyE)
  then have "store_position user mint p w1 = w\<lparr>positions := ?P, ledger := l\<rparr> \<and>
      token_accounts l = token_accounts (ledger w) \<and> mints l = mints (ledger w) \<and>
      (\<forall>u m. u \<noteq> user \<longrightarrow> ?P (u, m) = positions w (u, m)) \<and>
      (finite (dom (positions w)) \<longrightarrow> finite (dom ?P))"
    by (simp add: store_position_def)
  then show ?thesis unfolding pos_only_def by blast
qed

lemma load_or_init_position_Ok:
  assumes "env_laws e" "load_or_init_position e key user mint payer w = Ok (p, is_new, w')"
  shows "rent_only w w'" "is_new \<longleftrightarrow> positions w (user, mint) = None"
    "p = (case positions w (user, mint) of Some q \<Rightarrow> q
          | None \<Rightarrow> \<lparr> po_debt = 0, po_claimable = 0, po_yielded = 0,
                      po_bump = pda_bump e (PositionSeed user mint) \<rparr>)"
  using assms(2)
  by (auto simp: load_or_init_position_def step_iffs split: option.splits
      dest: create_account_absorb_prefund_Ok [OF assms(1)])

lemma settle_pair_Ok:
  assumes "env_laws e" "settle_pair e a k mint user old new payer w = Ok w'"
  shows "pos_only user w w'"
proof -
  obtain pos is_new w1 pos' where "load_or_init_position e k user mint payer w = Ok (pos, is_new, w1)"
      "w' = store_position user mint pos' w1"
    using assms(2) by (auto simp: settle_pair_def step_iffs Let_def split: prod.splits)
  then show ?thesis using pos_only_store load_or_init_position_Ok(1) [OF assms(1)] by blast
qed

lemma settle_pairs_Ok:
  "env_laws e \<Longrightarrow> settle_pairs e rem ms user old new payer w = Ok w' \<Longrightarrow> pos_only user w w'"
proof (induction e rem ms user old new payer w rule: settle_pairs.induct)
  case (1 e a p rest mint ms user old new payer w)
  then obtain w1 where "settle_pair e a p mint user old new payer w = Ok w1"
      "settle_pairs e rest ms user old new payer w1 = Ok w'"
    by (auto simp: step_iffs)
  with 1 settle_pair_Ok show ?case by (blast intro: pos_only_trans)
qed auto

lemma settle_all_pairs_Ok:
  "env_laws e \<Longrightarrow> settle_all_pairs e rem ms user old new payer w = Ok w' \<Longrightarrow> pos_only user w w'"
  by (auto simp: settle_all_pairs_def step_iffs intro: settle_pairs_Ok)

lemma settle_quad_nopay_Ok:
  assumes "env_laws e" "settle_quad e a k v h mint user old new False payer w = Ok w'"
  shows "pos_only user w w'"
proof -
  obtain pos is_new w1 pos' where "load_or_init_position e k user mint payer w = Ok (pos, is_new, w1)"
      "w' = store_position user mint pos' w1"
    using assms(2) by (auto simp: settle_quad_def step_iffs Let_def split: prod.splits)
  then show ?thesis using pos_only_store load_or_init_position_Ok(1) [OF assms(1)] by blast
qed

lemma settle_quads_nopay_Ok:
  "env_laws e \<Longrightarrow> settle_quads e rem ms user old new pay payer w = Ok w' \<Longrightarrow> \<not> pay \<Longrightarrow>
   pos_only user w w'"
proof (induction e rem ms user old new pay payer w rule: settle_quads.induct)
  case (1 e a p v h rest mint ms user old new pay payer w)
  then obtain w1 where "settle_quad e a p v h mint user old new False payer w = Ok w1"
      "settle_quads e rest ms user old new pay payer w1 = Ok w'"
    by (auto simp: step_iffs)
  with 1 settle_quad_nopay_Ok show ?case by (blast intro: pos_only_trans)
qed auto

lemma settle_all_quads_nopay_Ok:
  "env_laws e \<Longrightarrow> settle_all_quads e rem ms user old new False payer w = Ok w' \<Longrightarrow>
   pos_only user w w'"
  by (auto simp: settle_all_quads_def step_iffs intro: settle_quads_nopay_Ok)

text \<open>The position a settlement starts from: the stored one, or an empty one with no lock.\<close>

definition fresh_position :: "env \<Rightarrow> pubkey \<Rightarrow> pubkey \<Rightarrow> Position" where
  "fresh_position e user mint = \<lparr> po_debt = 0, po_claimable = 0, po_yielded = 0,
                                  po_bump = pda_bump e (PositionSeed user mint) \<rparr>"

definition settled_from :: "env \<Rightarrow> world \<Rightarrow> pubkey \<Rightarrow> pubkey \<Rightarrow> u64 \<Rightarrow> u64 \<Rightarrow> Position \<Rightarrow> bool" where
  "settled_from e w user mint old new p' \<longleftrightarrow>
     (\<exists>a. assets w mint = Some a \<and>
        (case positions w (user, mint) of
           Some p \<Rightarrow> settle (acc_share a) old new p = Ok p'
         | None \<Rightarrow> settle (acc_share a) 0 new (fresh_position e user mint) = Ok p'))"

lemma settle_pair_settles:
  assumes "env_laws e" "settle_pair e a k mint user old new payer w = Ok w'"
  shows "\<exists>p'. positions w' = (positions w)((user, mint) \<mapsto> p') \<and> assets w' = assets w \<and>
    settled_from e w user mint old new p'"
proof -
  obtain ac pos is_new w1 p' where
      l: "load_asset_config e a mint w = Ok ac"
        "load_or_init_position e k user mint payer w = Ok (pos, is_new, w1)"
      and s: "settle (acc_share ac) (if is_new then 0 else old) new pos = Ok p'"
      and w': "w' = store_position user mint p' w1"
    using assms(2) by (auto simp: settle_pair_def step_iffs Let_def split: prod.splits)
  have "assets w mint = Some ac" using l(1) by (auto simp: load_asset_config_def step_iffs)
  moreover note load_or_init_position_Ok [OF assms(1) l(2)]
  ultimately show ?thesis using s w'
    by (elim rent_onlyE)
      (auto simp: settled_from_def fresh_position_def store_position_def split: option.splits)
qed

lemma settle_pairs_settles:
  "env_laws e \<Longrightarrow> settle_pairs e rem ms user old new payer w = Ok w' \<Longrightarrow>
   length rem = length ms * 2 \<Longrightarrow> distinct ms \<Longrightarrow>
   assets w' = assets w \<and>
   (\<forall>m. m \<notin> set ms \<longrightarrow> positions w' (user, m) = positions w (user, m)) \<and>
   (\<forall>m\<in>set ms. \<exists>p'. positions w' (user, m) = Some p' \<and> settled_from e w user m old new p')"
proof (induction e rem ms user old new payer w rule: settle_pairs.induct)
  case (1 e a p rest mint ms user old new payer w)
  then obtain w1 where w1: "settle_pair e a p mint user old new payer w = Ok w1"
      "settle_pairs e rest ms user old new payer w1 = Ok w'"
    by (auto simp: step_iffs)
  obtain p' where p': "positions w1 = (positions w)((user, mint) \<mapsto> p')" "assets w1 = assets w"
      "settled_from e w user mint old new p'"
    using settle_pair_settles [OF 1(2) w1(1)] by blast
  have ih: "assets w' = assets w1 \<and>
   (\<forall>m. m \<notin> set ms \<longrightarrow> positions w' (user, m) = positions w1 (user, m)) \<and>
   (\<forall>m\<in>set ms. \<exists>p'. positions w' (user, m) = Some p' \<and> settled_from e w1 user m old new p')"
    using "1.IH" [OF "1.prems"(1) w1(2)] "1.prems"(3,4) by simp
  have "settled_from e w1 user m old new q \<longleftrightarrow> settled_from e w user m old new q" if "m \<in> set ms" for m q
    using that p' "1.prems"(4) by (auto simp: settled_from_def)
  with ih have "\<forall>m\<in>set ms. \<exists>p'. positions w' (user, m) = Some p' \<and> settled_from e w user m old new p'"
    by blast
  with ih p' "1.prems"(4) show ?case by auto
qed auto

text \<open>
  Settling checkpoints every listed asset: after \<open>settle_all_pairs\<close> succeeds, each listed
  mint has a position of the user settled from the old to the new lock at the asset's stored
  index; a position that did not exist starts from an empty lock, so it claims nothing that
  accrued before it. Positions of other mints and users, and all assets, are unchanged.
\<close>

lemma settle_all_pairs_settles:
  assumes "env_laws e" "distinct ms"
    and "settle_all_pairs e remaining ms user old new payer w = Ok w'"
  shows "assets w' = assets w \<and>
    (\<forall>m\<in>set ms. \<exists>p'. positions w' (user, m) = Some p' \<and> settled_from e w user m old new p') \<and>
    (\<forall>u m. u \<noteq> user \<or> m \<notin> set ms \<longrightarrow> positions w' (u, m) = positions w (u, m))"
proof -
  have s: "settle_pairs e remaining ms user old new payer w = Ok w'" "length remaining = length ms * 2"
    using assms(3) by (auto simp: settle_all_pairs_def step_iffs)
  have "positions w' (u, m) = positions w (u, m)" if "u \<noteq> user" for u m
    using settle_pairs_Ok [OF assms(1) s(1)] that by (auto elim: pos_onlyE)
  then have others: "\<forall>u m. u \<noteq> user \<longrightarrow> positions w' (u, m) = positions w (u, m)" by blast
  note own = settle_pairs_settles [OF assms(1) s assms(2)]
  have "positions w' (u, m) = positions w (u, m)" if "u \<noteq> user \<or> m \<notin> set ms" for u m
    using that others own by (cases "u = user") blast+
  with own show ?thesis by blast
qed

end
