(* ===== verification/Registry.thy ===== *)
theory Registry
  imports Prelude
begin

text \<open>
  The enumerable account lists of the program (\<open>lockers\<close>, \<open>voters\<close>): a list that holds exactly
  the accounts with a property, each once, in no particular order. The interface is what
  \<open>push\<close> and the swap-remove \<open>remove_from_list\<close> of \<open>programs/grai/src/state.rs\<close> promise.
\<close>

definition tracks :: "('a \<Rightarrow> bool) \<Rightarrow> 'a list \<Rightarrow> bool" where
  "tracks flag xs \<longleftrightarrow> distinct xs \<and> (\<forall>u. u \<in> set xs \<longleftrightarrow> flag u)"

lemma tracks_cong: "tracks f xs \<Longrightarrow> (\<And>u. f u = g u) \<Longrightarrow> tracks g xs"
  by (simp add: tracks_def)

locale registry =
  fixes push :: "'a \<Rightarrow> 'a list \<Rightarrow> 'a list"
    and remove :: "'a \<Rightarrow> 'a list \<Rightarrow> 'a list"
  assumes push_promise: "distinct xs \<Longrightarrow> u \<notin> set xs \<Longrightarrow>
      distinct (push u xs) \<and> set (push u xs) = insert u (set xs)"
    and remove_promise: "distinct xs \<Longrightarrow>
      distinct (remove u xs) \<and> set (remove u xs) = set xs - {u}"
begin

text \<open>
  The list follows one account's change of status: it enters when it gains the property,
  leaves when it loses it, and stays as it is otherwise.
\<close>

lemma tracks_enter:
  assumes "tracks flag xs" "\<not> flag u" "flag' u" "\<And>v. v \<noteq> u \<Longrightarrow> flag' v = flag v"
  shows "tracks flag' (push u xs)"
proof -
  have u: "u \<notin> set xs" and d: "distinct xs" using assms(1,2) by (auto simp: tracks_def)
  have "flag' v \<longleftrightarrow> v = u \<or> v \<in> set xs" for v
    using assms by (cases "v = u") (auto simp: tracks_def)
  then show ?thesis using push_promise [OF d u] by (simp add: tracks_def)
qed

lemma tracks_leave:
  assumes "tracks flag xs" "\<not> flag' u" "\<And>v. v \<noteq> u \<Longrightarrow> flag' v = flag v"
  shows "tracks flag' (remove u xs)"
proof -
  have d: "distinct xs" using assms(1) by (simp add: tracks_def)
  have "flag' v \<longleftrightarrow> v \<noteq> u \<and> v \<in> set xs" for v
    using assms by (cases "v = u") (auto simp: tracks_def)
  then show ?thesis using remove_promise [OF d, of u] by (auto simp: tracks_def)
qed

lemma tracks_follow:
  assumes "tracks flag xs" "\<And>v. v \<noteq> u \<Longrightarrow> flag' v = flag v"
    and "ys = (if flag u then (if flag' u then xs else remove u xs)
               else (if flag' u then push u xs else xs))"
  shows "tracks flag' ys"
proof (cases "flag u = flag' u")
  case True
  have "flag v = flag' v" for v using assms(2) [of v] True by (cases "v = u") simp_all
  moreover have "ys = xs" using assms(3) True by simp
  ultimately show ?thesis using tracks_cong [OF assms(1)] by blast
next
  case False
  show ?thesis
  proof (cases "flag u")
    case True
    with False assms(3) have "ys = remove u xs" "\<not> flag' u" by simp_all
    then show ?thesis using tracks_leave [OF assms(1)] assms(2) by blast
  next
    case not: False
    with False assms(3) have "ys = push u xs" "flag' u" by simp_all
    then show ?thesis using tracks_enter [OF assms(1) not] assms(2) by blast
  qed
qed

end

section \<open>The model\<close>

definition remove_from_list :: "pubkey list \<Rightarrow> pubkey \<Rightarrow> pubkey list" where
  "remove_from_list xs key =
     (case position key xs of
        None \<Rightarrow> xs
      | Some pos \<Rightarrow>
          let last_ix = length xs - 1;
              xs = (if pos \<noteq> last_ix then xs[pos := xs ! last_ix] else xs) in
          butlast xs)"

lemma remove_from_list_mset: "mset (remove_from_list xs k) = mset xs - {#k#}"
proof (cases "position k xs")
  case None
  then have "k \<notin> set xs" by (simp add: position_None)
  then show ?thesis by (simp add: remove_from_list_def)
next
  case (Some pos)
  then have p: "pos < length xs" "xs ! pos = k" by (auto dest: position_Some)
  then have last: "last xs = xs ! (length xs - 1)" by (intro last_conv_nth) auto
  have "(if pos \<noteq> length xs - 1 then xs[pos := xs ! (length xs - 1)] else xs) = xs[pos := last xs]"
    using p by (auto simp: last)
  then have "remove_from_list xs k = butlast (xs[pos := last xs])"
    using Some by (simp only: remove_from_list_def Let_def option.case)
  then show ?thesis using mset_swap_remove [OF p(1)] p(2) by simp
qed

interpretation reg: registry "\<lambda>u xs. xs @ [u]" "\<lambda>u xs. remove_from_list xs u"
proof (unfold_locales, goal_cases)
  case (1 xs u)
  then show ?case by auto
next
  case (2 xs u)
  then show ?case using mset_remove1_distinct [OF remove_from_list_mset] by simp
qed

lemma remove_from_list_absent: "k \<notin> set xs \<Longrightarrow> remove_from_list xs k = xs"
  by (simp add: remove_from_list_def position_None)

text \<open>
  Swap-removal removes exactly one occurrence of the key, wherever it stands, and keeps
  every other entry: as multisets, \<open>remove_from_list xs k\<close> is \<open>xs\<close> without one \<open>k\<close>; the
  list shrinks by one when the key is present and is unchanged when it is not.
\<close>

theorem remove_from_list_removes_one:
  "mset (remove_from_list xs k) = mset xs - {#k#} \<and>
   length (remove_from_list xs k) = length xs - (if k \<in> set xs then 1 else 0) \<and>
   (k \<in> set xs \<or> remove_from_list xs k = xs)"
proof -
  have "length (remove_from_list xs k) = size (mset (remove_from_list xs k))" by simp
  also have "\<dots> = length xs - (if k \<in> set xs then 1 else 0)"
    by (auto simp: remove_from_list_mset size_Diff_singleton)
  finally show ?thesis using remove_from_list_mset remove_from_list_absent by blast
qed

end
