(* ===== verification/Locks.thy ===== *)
theory Locks
  imports Settle Registry
begin

text \<open>
  Locking, voting and unlocking (\<open>state.rs\<close>, \<open>lock.rs\<close>, \<open>vote.rs\<close>, \<open>unlock.rs\<close>) with the
  account checks of their \<open>Accounts\<close> structs (\<open>lib.rs\<close>).

  An instruction is its account checks followed by its handler. The \<open>Account\<close> structs hold
  deserialised copies; the handlers modelled here read each copy before any call that could
  change the account behind it, so the copies and the world agree.
\<close>

section \<open>Account checks shared by the instructions\<close>

definition upd_state :: "(GraiState \<Rightarrow> GraiState) \<Rightarrow> world \<Rightarrow> world" where
  "upd_state f w = w\<lparr>grai_state := f (grai_state w)\<rparr>"

definition set_escrow :: "pubkey \<Rightarrow> Escrow \<Rightarrow> world \<Rightarrow> world" where
  "set_escrow user x w = w\<lparr>escrows := (escrows w)(user \<mapsto> x)\<rparr>"

definition empty_escrow :: Escrow where
  "empty_escrow = \<lparr> es_amount = 0, es_voted = 0, es_voted_at = 0, es_locker_id = 0,
                    es_voter_id = 0, es_bump = 0 \<rparr>"

definition Escrow_LEN :: nat where
  "Escrow_LEN = 8 + 8 + 8 + 4 + 4 + 1"

text \<open>\<open>seeds = [GraiState::SEED], bump = grai_state.bump\<close>.\<close>

definition check_grai_state :: "env \<Rightarrow> world \<Rightarrow> unit res" where
  "check_grai_state e w = constraint (gs_bump (grai_state w) = pda_bump e GraiStateSeed)"

text \<open>The canonical share mint, with the program as its authority.\<close>

definition check_grai_mint :: "env \<Rightarrow> pubkey \<Rightarrow> world \<Rightarrow> Mint res" where
  "check_grai_mint e mint w =
     and_then (account (mints (ledger w) mint)) (\<lambda>m.
     and_then (require (mint = gs_grai_mint (grai_state w)) InvalidMint) (\<lambda>_.
     and_then (require (mi_authority m = Some (gs_key e)) InvalidMint) (\<lambda>_.
     Ok m)))"

text \<open>A token account with its \<open>mint\<close> and \<open>owner\<close> constraints and their error code.\<close>

definition check_token_account ::
  "pubkey \<Rightarrow> pubkey \<Rightarrow> pubkey \<Rightarrow> ErrorCode \<Rightarrow> world \<Rightarrow> TokenAccount res" where
  "check_token_account key mint owner err w =
     and_then (account (token_accounts (ledger w) key)) (\<lambda>a.
     and_then (require (tk_mint a = mint) err) (\<lambda>_.
     and_then (require (tk_owner a = owner) err) (\<lambda>_.
     Ok a)))"

text \<open>A program vault: fixed address, \<open>mint\<close> constraint.\<close>

definition check_vault :: "env \<Rightarrow> pubkey \<Rightarrow> pubkey \<Rightarrow> world \<Rightarrow> TokenAccount res" where
  "check_vault e key mint w =
     and_then (account (token_accounts (ledger w) key)) (\<lambda>a.
     and_then (require (tk_mint a = mint) InvalidDestination) (\<lambda>_.
     Ok a))"

text \<open>\<open>init_if_needed\<close> of a token account with the given mint and authority.\<close>

definition init_token_if_needed :: "env \<Rightarrow> pubkey \<Rightarrow> pubkey \<Rightarrow> pubkey \<Rightarrow> pubkey \<Rightarrow> world \<Rightarrow> world res" where
  "init_token_if_needed e payer key mint owner w =
     (case token_accounts (ledger w) key of
        Some a \<Rightarrow> and_then (constraint (tk_mint a = mint \<and> tk_owner a = owner)) (\<lambda>_. Ok w)
      | None \<Rightarrow> invoke (spl_init_account e payer key mint owner) w)"

text \<open>\<open>init_if_needed\<close> of the user's escrow.\<close>

definition init_escrow_if_needed :: "env \<Rightarrow> pubkey \<Rightarrow> pubkey \<Rightarrow> world \<Rightarrow> world res" where
  "init_escrow_if_needed e payer user w =
     (case escrows w user of
        Some x \<Rightarrow> Ok w
      | None \<Rightarrow>
          and_then (invoke (anchor_init e payer (pda e (EscrowSeed user)) (8 + Escrow_LEN)) w) (\<lambda>w.
          Ok (set_escrow user empty_escrow w)))"

text \<open>An existing escrow, \<open>bump = escrow.bump\<close>.\<close>

definition check_escrow :: "env \<Rightarrow> pubkey \<Rightarrow> world \<Rightarrow> Escrow res" where
  "check_escrow e user w =
     and_then (account (escrows w user)) (\<lambda>x.
     and_then (constraint (es_bump x = pda_bump e (EscrowSeed user))) (\<lambda>_.
     Ok x))"

section \<open>The steps of \<open>state.rs\<close>\<close>

definition clamp_vote :: "pubkey \<Rightarrow> world \<Rightarrow> world res" where
  "clamp_vote user w =
     and_then (account (escrows w user)) (\<lambda>x.
     let voted = es_voted x in
     if voted = 0 \<or> voted \<le> es_amount x then Ok w
     else
       and_then (or_panic (checked_sub voted (es_amount x))) (\<lambda>excess.
       and_then (ok_or (checked_sub (total_voted (grai_state w)) excess) MathOverflow) (\<lambda>tv.
       let x = x\<lparr>es_voted := es_amount x\<rparr>;
           w = set_escrow user x (upd_state (total_voted_update (\<lambda>_. tv)) w) in
       Ok (if es_voted x = 0
           then upd_state (voters_update (\<lambda>vs. remove_from_list vs user)) w
           else w))))"

definition grai_space :: "GraiState \<Rightarrow> nat \<Rightarrow> nat \<Rightarrow> nat \<Rightarrow> nat" where
  "grai_space s dl dv dr =
     GraiState_space (length (asset_mints s)) (length (lockers s) + dl)
       (length (voters s) + dv) (length (referrers s) + dr)"

text \<open>First lock or first vote of an account: it enters the list, its bump is recorded.\<close>

definition enter_lockers :: "env \<Rightarrow> u8 \<Rightarrow> pubkey \<Rightarrow> Escrow \<Rightarrow> world \<Rightarrow> (Escrow \<times> world) res" where
  "enter_lockers e bump owner x w =
     and_then (realloc_grai_state e owner (grai_space (grai_state w) 1 0 0) w) (\<lambda>w.
     Ok (x\<lparr>es_locker_id := word_of_nat (length (lockers (grai_state w))), es_bump := bump\<rparr>,
         upd_state (lockers_update (\<lambda>ls. ls @ [owner])) w))"

definition enter_voters ::
  "env \<Rightarrow> u8 \<Rightarrow> pubkey \<Rightarrow> pubkey \<Rightarrow> Escrow \<Rightarrow> world \<Rightarrow> (Escrow \<times> world) res" where
  "enter_voters e bump user payer x w =
     and_then (realloc_grai_state e payer (grai_space (grai_state w) 0 1 0) w) (\<lambda>w.
     Ok (x\<lparr>es_voter_id := word_of_nat (length (voters (grai_state w))), es_bump := bump\<rparr>,
         upd_state (voters_update (\<lambda>vs. vs @ [user])) w))"

definition perform_lock ::
  "env \<Rightarrow> u8 \<Rightarrow> u64 \<Rightarrow> pubkey \<Rightarrow> pubkey \<Rightarrow> pubkey \<Rightarrow> pubkey list \<Rightarrow> world \<Rightarrow> world res" where
  "perform_lock e bump add_amount source vault owner remaining w =
     and_then (require (0 < add_amount) AmountZero) (\<lambda>_.
     and_then (account (escrows w owner)) (\<lambda>x.
     and_then (ok_or (checked_add (es_amount x) add_amount) MathOverflow) (\<lambda>new_amount.
     and_then (settle_all_pairs e remaining (asset_mints (grai_state w)) owner (es_amount x) new_amount
                 owner w) (\<lambda>w.
     and_then (if es_amount x = 0 then enter_lockers e bump owner x w else Ok (x, w)) (\<lambda>(x, w).
     and_then (ok_or (checked_add (total_locked (grai_state w)) add_amount) MathOverflow) (\<lambda>tl.
     invoke (spl_transfer e source vault owner add_amount)
       (set_escrow owner (x\<lparr>es_amount := new_amount\<rparr>)
          (upd_state (total_locked_update (\<lambda>_. tl)) w))))))))"

definition perform_vote ::
  "env \<Rightarrow> u8 \<Rightarrow> u64 \<Rightarrow> pubkey \<Rightarrow> pubkey \<Rightarrow> pubkey list \<Rightarrow> i64 \<Rightarrow> world \<Rightarrow> world res" where
  "perform_vote e bump add_amount user payer remaining now w =
     and_then (require (0 < add_amount) AmountZero) (\<lambda>_.
     and_then (account (escrows w user)) (\<lambda>x.
     and_then (ok_or (checked_add (es_voted x) add_amount) MathOverflow) (\<lambda>new_voted.
     and_then (require (new_voted \<le> es_amount x) InvalidAmount) (\<lambda>_.
     and_then (settle_all_pairs e remaining (asset_mints (grai_state w)) user (es_amount x)
                 (es_amount x) payer w) (\<lambda>w.
     and_then (if es_voted x = 0 then enter_voters e bump user payer x w else Ok (x, w)) (\<lambda>(x, w).
     and_then (ok_or (checked_add (total_voted (grai_state w)) add_amount) MathOverflow) (\<lambda>tv.
     Ok (set_escrow user (x\<lparr>es_voted := new_voted, es_voted_at := now\<rparr>)
           (upd_state (total_voted_update (\<lambda>_. tv)) w)))))))))"

section \<open>\<open>lock\<close>\<close>

definition accounts_Lock :: "env \<Rightarrow> pubkey \<Rightarrow> pubkey \<Rightarrow> pubkey \<Rightarrow> world \<Rightarrow> (TokenAccount \<times> world) res" where
  "accounts_Lock e locker grai_mint locker_grai_ata w =
     and_then (check_grai_state e w) (\<lambda>_.
     and_then (check_grai_mint e grai_mint w) (\<lambda>_.
     and_then (init_escrow_if_needed e locker locker w) (\<lambda>w.
     and_then (check_token_account locker_grai_ata grai_mint locker InvalidDepositSource w) (\<lambda>a.
     and_then (init_token_if_needed e locker (vault_key e grai_mint) grai_mint (gs_key e) w) (\<lambda>w.
     Ok (a, w))))))"

definition execute_lock ::
  "env \<Rightarrow> pubkey \<Rightarrow> pubkey \<Rightarrow> pubkey \<Rightarrow> pubkey list \<Rightarrow> u64 \<Rightarrow> world \<Rightarrow> world res" where
  "execute_lock e locker grai_mint locker_grai_ata remaining grai_amount w =
     and_then (accounts_Lock e locker grai_mint locker_grai_ata w) (\<lambda>(a, w).
     and_then (require (\<not> liquidation (grai_state w)) LiquidationOpen) (\<lambda>_.
     and_then (require (0 < grai_amount) AmountZero) (\<lambda>_.
     and_then (require (grai_amount \<le> tk_amount a) InsufficientGraiBalance) (\<lambda>_.
     perform_lock e (pda_bump e (EscrowSeed locker)) grai_amount locker_grai_ata
       (vault_key e grai_mint) locker remaining w))))"

section \<open>\<open>vote\<close>\<close>

definition accounts_Vote :: "env \<Rightarrow> pubkey \<Rightarrow> pubkey \<Rightarrow> pubkey \<Rightarrow> world \<Rightarrow> (TokenAccount \<times> world) res" where
  "accounts_Vote e voter grai_mint voter_grai_ata w =
     and_then (check_grai_state e w) (\<lambda>_.
     and_then (check_grai_mint e grai_mint w) (\<lambda>_.
     and_then (init_escrow_if_needed e voter voter w) (\<lambda>w.
     and_then (check_token_account voter_grai_ata grai_mint voter InvalidDestination w) (\<lambda>a.
     and_then (init_token_if_needed e voter (vault_key e grai_mint) grai_mint (gs_key e) w) (\<lambda>w.
     Ok (a, w))))))"

definition execute_vote ::
  "env \<Rightarrow> pubkey \<Rightarrow> pubkey \<Rightarrow> pubkey \<Rightarrow> pubkey list \<Rightarrow> u64 \<Rightarrow> world \<Rightarrow> world res" where
  "execute_vote e voter grai_mint voter_grai_ata remaining grai_amount w =
     and_then (accounts_Vote e voter grai_mint voter_grai_ata w) (\<lambda>(a, w).
     and_then (require (0 < grai_amount) AmountZero) (\<lambda>_.
     and_then (require (\<not> liquidation (grai_state w)) LiquidationOpen) (\<lambda>_.
     and_then (account (escrows w voter)) (\<lambda>x.
     and_then (ok_or (checked_add (es_voted x) grai_amount) MathOverflow) (\<lambda>need_locked.
     and_then (if es_amount x < need_locked then
                 and_then (or_panic (checked_sub need_locked (es_amount x))) (\<lambda>shortfall.
                 and_then (require (shortfall \<le> tk_amount a) InsufficientGraiBalance) (\<lambda>_.
                 perform_lock e (pda_bump e (EscrowSeed voter)) shortfall voter_grai_ata
                   (vault_key e grai_mint) voter remaining w))
               else Ok w) (\<lambda>w.
     perform_vote e (pda_bump e (EscrowSeed voter)) grai_amount voter voter remaining
       (unix_timestamp e) w))))))"

section \<open>\<open>unlock\<close>\<close>

definition accounts_Unlock ::
  "env \<Rightarrow> pubkey \<Rightarrow> pubkey \<Rightarrow> pubkey \<Rightarrow> pubkey \<Rightarrow> world \<Rightarrow> (Escrow \<times> world) res" where
  "accounts_Unlock e user grai_mint account_grai_ata grinders_state w =
     and_then (check_grai_state e w) (\<lambda>_.
     and_then (check_grai_mint e grai_mint w) (\<lambda>_.
     and_then (check_escrow e user w) (\<lambda>x.
     and_then (check_token_account account_grai_ata grai_mint user InvalidDestination w) (\<lambda>_.
     and_then (check_vault e (vault_key e grai_mint) grai_mint w) (\<lambda>_.
     and_then (require (grinders_state = gs_grinders (grai_state w)) InvalidGrinders) (\<lambda>_.
     and_then (init_token_if_needed e user (ata e grinders_state grai_mint) grai_mint
                 grinders_state w) (\<lambda>w.
     Ok (x, w))))))))"

definition execute_unlock ::
  "env \<Rightarrow> pubkey \<Rightarrow> pubkey \<Rightarrow> pubkey \<Rightarrow> pubkey \<Rightarrow> pubkey list \<Rightarrow> u64 \<Rightarrow> world \<Rightarrow> world res" where
  "execute_unlock e user grai_mint account_grai_ata grinders_state remaining grai_amount w =
     and_then (accounts_Unlock e user grai_mint account_grai_ata grinders_state w) (\<lambda>(x, w).
     and_then (require (\<not> liquidation (grai_state w)) LiquidationOpen) (\<lambda>_.
     and_then (require (0 < grai_amount) AmountZero) (\<lambda>_.
     and_then (require (grai_amount \<le> es_amount x) InvalidAmount) (\<lambda>_.
     let old_amount = es_amount x; vault = vault_key e grai_mint in
     and_then (ok_or (checked_sub old_amount grai_amount) InvalidAmount) (\<lambda>new_amount.
     and_then (preview_unlock grai_amount old_amount
                 (unlock_penalty_bps (gs_config (grai_state w)))) (\<lambda>(unlock_amount, penalty).
     and_then (settle_all_quads e remaining (asset_mints (grai_state w)) user old_amount new_amount
                 False user w) (\<lambda>w.
     and_then (ok_or (checked_sub (total_locked (grai_state w)) grai_amount) MathOverflow) (\<lambda>tl.
     let w = set_escrow user (x\<lparr>es_amount := new_amount\<rparr>)
               (upd_state (total_locked_update (\<lambda>_. tl)) w) in
     and_then (clamp_vote user w) (\<lambda>w.
     and_then (transfer_from_vault e vault account_grai_ata unlock_amount w) (\<lambda>w.
     and_then (transfer_from_vault e vault (ata e grinders_state grai_mint) penalty w) (\<lambda>w.
     Ok (if new_amount = 0
         then upd_state (lockers_update (\<lambda>ls. remove_from_list ls user)) w
         else w))))))))))))"

end
