(* ===== verification/Price_Feed.thy ===== *)
theory Price_Feed
  imports Grai_World Bribe_Ask
begin

text \<open>
  \<open>programs/grai/src/price_feed.rs\<close>: reading the price of an asset from the account its
  configuration names, dispatched on the program that owns the account - the custom feed
  program of this repository, legacy Pyth, the Pyth receiver, or Chainlink.

  The contents of the oracle accounts are parameters (fields of \<open>env\<close>): what the Pyth SDK, the
  Borsh decoder and the Chainlink crate read from an account, \<open>None\<close> where they fail.
\<close>

section \<open>Constants\<close>

text \<open>Program ids: the 32 bytes of the source's base-58 literals as a big-endian number.\<close>

definition MAX_PRICE_STALENESS_SECS :: i64 where
  "MAX_PRICE_STALENESS_SECS = 3600"

definition CUSTOM_PRICE_FEED_PROGRAM_ID :: pubkey where
  "CUSTOM_PRICE_FEED_PROGRAM_ID =
     0x994a07cb65a770a6c3f4c611cd5258d7ae28e2e6c9841de99d8fb79d64863062"

definition PYTH_ORACLE_PROGRAM_ID_MAINNET :: pubkey where
  "PYTH_ORACLE_PROGRAM_ID_MAINNET =
     0x3ceffa7347e47a60d8a266fcc59aaa60c2702409bbb895d396992289d34ac05"

definition PYTH_ORACLE_PROGRAM_ID_DEVNET :: pubkey where
  "PYTH_ORACLE_PROGRAM_ID_DEVNET =
     0xa1a9833a376552b56b7ca0ded1929170057e827a0c627f4b647b9ee9099afb4"

definition PYTH_RECEIVER_PROGRAM_ID :: pubkey where
  "PYTH_RECEIVER_PROGRAM_ID =
     0xcb7fabb52f7a648bb5b317d9a018b9057cb024774fafe01e6c4df98cc385881"

definition PYTH_RECEIVER_PROGRAM_ID_UPGRADED :: pubkey where
  "PYTH_RECEIVER_PROGRAM_ID_UPGRADED =
     0xcb7fa7a5da628fbaca99aea99f7bf3bdc368968602abf414d4e8ba567bbb0bf"

definition is_pyth_legacy_owner :: "pubkey \<Rightarrow> bool" where
  "is_pyth_legacy_owner owner \<longleftrightarrow>
     owner = PYTH_ORACLE_PROGRAM_ID_MAINNET \<or> owner = PYTH_ORACLE_PROGRAM_ID_DEVNET"

definition is_pyth_receiver_owner :: "pubkey \<Rightarrow> bool" where
  "is_pyth_receiver_owner owner \<longleftrightarrow>
     owner = PYTH_RECEIVER_PROGRAM_ID \<or> owner = PYTH_RECEIVER_PROGRAM_ID_UPGRADED"

abbreviation feed_owned_by :: "world \<Rightarrow> pubkey \<Rightarrow> pubkey" where
  "feed_owned_by w k \<equiv> program_owner (ledger w) k"

section \<open>Custom feeds\<close>

definition deserialize_custom_feed :: "env \<Rightarrow> pubkey \<Rightarrow> CustomPriceFeed res" where
  "deserialize_custom_feed e feed = ok_or (custom_feeds e feed) InvalidCustomPriceFeed"

definition validate_custom_feed_pda :: "env \<Rightarrow> pubkey \<Rightarrow> CustomPriceFeed \<Rightarrow> unit res" where
  "validate_custom_feed_pda e feed custom =
     require (feed = pda e (CustomFeedSeed (cf_asset_mint custom))) InvalidCustomPriceFeed"

definition ensure_feed_matches_asset_mint :: "env \<Rightarrow> pubkey \<Rightarrow> pubkey \<Rightarrow> world \<Rightarrow> unit res" where
  "ensure_feed_matches_asset_mint e feed asset_mint w =
     (if feed_owned_by w feed \<noteq> CUSTOM_PRICE_FEED_PROGRAM_ID then Ok ()
      else
        and_then (deserialize_custom_feed e feed) (\<lambda>custom.
        and_then (validate_custom_feed_pda e feed custom) (\<lambda>_.
        and_then (require (cf_asset_mint custom = asset_mint) InvalidCustomPriceFeed) (\<lambda>_.
        require (0 < sint (cf_price custom)) InvalidChainlinkPrice))))"

definition matches_asset_mint :: "env \<Rightarrow> pubkey \<Rightarrow> pubkey \<Rightarrow> world \<Rightarrow> bool" where
  "matches_asset_mint e feed asset_mint w \<longleftrightarrow>
     ensure_feed_matches_asset_mint e feed asset_mint w = Ok ()"

definition fetch_custom_price_from_account :: "env \<Rightarrow> pubkey \<Rightarrow> pubkey \<Rightarrow> world \<Rightarrow> PriceData res" where
  "fetch_custom_price_from_account e feed expected_asset_mint w =
     and_then (require (feed_owned_by w feed = CUSTOM_PRICE_FEED_PROGRAM_ID)
                 InvalidCustomPriceFeed) (\<lambda>_.
     and_then (deserialize_custom_feed e feed) (\<lambda>custom.
     and_then (validate_custom_feed_pda e feed custom) (\<lambda>_.
     and_then (require (cf_asset_mint custom = expected_asset_mint) InvalidCustomPriceFeed) (\<lambda>_.
     and_then (require (0 < sint (cf_price custom)) InvalidChainlinkPrice) (\<lambda>_.
     Ok \<lparr> pd_price = cf_price custom, pd_decimals = cf_decimals custom,
          pd_updated_at = cf_updated_at custom, pd_updated_slot = clock_slot e \<rparr>)))))"

section \<open>Pyth\<close>

text \<open>
  \<open>(-exponent).try_into::<u8>()\<close>: negating \<open>i32::MIN\<close> overflows and panics, a value above 255
  is a read error.
\<close>

definition pyth_decimals :: "32 word \<Rightarrow> u8 res" where
  "pyth_decimals exponent =
     and_then (or_panic (checked_ssub 0 exponent)) (\<lambda>n.
     and_then (require (0 \<le> sint n \<and> sint n \<le> 255) PythReadError) (\<lambda>_.
     Ok (ucast n)))"

definition pyth_price_to_chainlink :: "i64 \<Rightarrow> 32 word \<Rightarrow> i64 \<Rightarrow> u64 \<Rightarrow> PriceData res" where
  "pyth_price_to_chainlink price exponent publish_time updated_slot =
     and_then (require (0 < sint price) InvalidPythPrice) (\<lambda>_.
     and_then (require (sint exponent \<le> 0) PythReadError) (\<lambda>_.
     and_then (pyth_decimals exponent) (\<lambda>decimals.
     Ok \<lparr> pd_price = scast price, pd_decimals = decimals,
          pd_updated_at = publish_time, pd_updated_slot = updated_slot \<rparr>)))"

definition fetch_pyth_legacy_price_from_account :: "env \<Rightarrow> pubkey \<Rightarrow> world \<Rightarrow> PriceData res" where
  "fetch_pyth_legacy_price_from_account e feed w =
     and_then (require (is_pyth_legacy_owner (feed_owned_by w feed)) PythReadError) (\<lambda>_.
     and_then (ok_or (pyth_legacy e feed) PythReadError) (\<lambda>get_price_no_older_than.
     and_then (ok_or (get_price_no_older_than (unix_timestamp e) MAX_PRICE_STALENESS_SECS)
                 StalePythPrice) (\<lambda>price.
     pyth_price_to_chainlink (pp_price price) (pp_expo price) (pp_publish_time price)
       (clock_slot e))))"

definition deserialize_pyth_price_update_v2 :: "env \<Rightarrow> pubkey \<Rightarrow> PythPriceUpdateV2 res" where
  "deserialize_pyth_price_update_v2 e feed = ok_or (pyth_update e feed) PythReadError"

definition resolve_stored_pyth_feed_id :: "env \<Rightarrow> pubkey \<Rightarrow> world \<Rightarrow> (256 word) res" where
  "resolve_stored_pyth_feed_id e feed w =
     (if \<not> is_pyth_receiver_owner (feed_owned_by w feed) then Ok 0
      else
        and_then (deserialize_pyth_price_update_v2 e feed) (\<lambda>update.
        and_then (require (pu_full update) PythReadError) (\<lambda>_.
        and_then (require (pu_feed_id update \<noteq> 0) InvalidPythFeedId) (\<lambda>_.
        Ok (pu_feed_id update)))))"

definition fetch_pyth_push_price_from_account ::
  "env \<Rightarrow> pubkey \<Rightarrow> 256 word \<Rightarrow> world \<Rightarrow> PriceData res" where
  "fetch_pyth_push_price_from_account e feed expected_pyth_feed_id w =
     and_then (require (is_pyth_receiver_owner (feed_owned_by w feed)) PythReadError) (\<lambda>_.
     and_then (require (expected_pyth_feed_id \<noteq> 0) InvalidPythFeedId) (\<lambda>_.
     and_then (deserialize_pyth_price_update_v2 e feed) (\<lambda>update.
     and_then (require (pu_full update) PythReadError) (\<lambda>_.
     and_then (require (pu_feed_id update = expected_pyth_feed_id) InvalidPythFeedId) (\<lambda>_.
     let age = saturating_ssub (unix_timestamp e) (pu_publish_time update) in
     and_then (require (sint age \<le> sint MAX_PRICE_STALENESS_SECS) StalePythPrice) (\<lambda>_.
     pyth_price_to_chainlink (pu_price update) (pu_exponent update) (pu_publish_time update)
       (pu_posted_slot update)))))))"

section \<open>Chainlink and the dispatch\<close>

definition fetch_chainlink_price_from_feed :: "env \<Rightarrow> pubkey \<Rightarrow> PriceData res" where
  "fetch_chainlink_price_from_feed e feed =
     and_then (ok_or (chainlink_feed e feed) ChainlinkReadError) (\<lambda>(decimals, latest).
     and_then (ok_or latest ChainlinkRoundMissing) (\<lambda>round.
     and_then (require (0 < sint (cl_answer round)) InvalidChainlinkPrice) (\<lambda>_.
     let timestamp = (ucast (cl_timestamp round) :: i64);
         age = saturating_ssub (unix_timestamp e) timestamp in
     and_then (require (sint age \<le> sint MAX_PRICE_STALENESS_SECS) StaleChainlinkPrice) (\<lambda>_.
     Ok \<lparr> pd_price = cl_answer round, pd_decimals = decimals,
          pd_updated_at = timestamp, pd_updated_slot = cl_slot round \<rparr>))))"

definition fetch_price_from_feed :: "env \<Rightarrow> pubkey \<Rightarrow> AssetConfig \<Rightarrow> world \<Rightarrow> PriceData res" where
  "fetch_price_from_feed e price_feed asset w =
     and_then (require (price_feed = ac_price_feed asset) InvalidChainlinkFeed) (\<lambda>_.
     let owner = feed_owned_by w price_feed in
     if owner = CUSTOM_PRICE_FEED_PROGRAM_ID
     then fetch_custom_price_from_account e price_feed (ac_asset_mint asset) w
     else if is_pyth_legacy_owner owner then fetch_pyth_legacy_price_from_account e price_feed w
     else if is_pyth_receiver_owner owner
     then fetch_pyth_push_price_from_account e price_feed (pyth_feed_id asset) w
     else fetch_chainlink_price_from_feed e price_feed)"

definition fetch_asset_price ::
  "env \<Rightarrow> AssetConfig \<Rightarrow> pubkey \<Rightarrow> pubkey \<Rightarrow> world \<Rightarrow> PriceData res" where
  "fetch_asset_price e asset asset_mint price_feed w =
     and_then (require (asset_mint = ac_asset_mint asset) AssetUnknown) (\<lambda>_.
     fetch_price_from_feed e price_feed asset w)"

section \<open>What a reading guarantees\<close>

text \<open>The interface the valuation relies on: readings are positive and of the configured feed.\<close>

locale price_oracle =
  fixes fetch :: "pubkey \<Rightarrow> AssetConfig \<Rightarrow> world \<Rightarrow> PriceData res"
  assumes fetch_positive: "fetch feed asset w = Ok p \<Longrightarrow> 0 < sint (pd_price p)"
    and fetch_bound: "fetch feed asset w = Ok p \<Longrightarrow> feed = ac_price_feed asset"
begin

text \<open>With a reading in hand, valuation can only fail by overflow.\<close>

lemma usd_value_fails_by_overflow:
  assumes "fetch feed asset w = Ok p" "usd_value amount d p = Inl err"
  shows "err = Raise MathOverflow \<or> err = Panic"
  using assms(2) fetch_positive [OF assms(1)]
  by (auto simp: usd_value_def err_simps pow10_def split: if_splits)

lemma settlement_fails_by_overflow:
  assumes "fetch feed asset w = Ok p" "settlement_amount usd d p = Inl err"
  shows "err = Raise MathOverflow \<or> err = Panic"
  using assms(2) fetch_positive [OF assms(1)]
  by (auto simp: settlement_amount_def err_simps pow10_def split: if_splits)

end

lemma sint_scast_up: "sint (scast (x :: 64 word) :: 128 word) = sint x"
  by (rule sint_up_scast) (simp add: is_up)

lemma saturating_ssub_le: "sint (saturating_ssub (a :: i64) b) \<le> 3600 \<longleftrightarrow> sint a - sint b \<le> 3600"
  using sint_lt [of a] sint_ge [of a] sint_lt [of b] sint_ge [of b]
  by (auto simp: saturating_ssub_def sint_word_ariths signed_take_bit_int_eq_self)

text \<open>A Pyth price as the protocol takes it over: positive, with at most 255 decimals.\<close>

definition pyth_quote :: "i64 \<Rightarrow> 32 word \<Rightarrow> i64 \<Rightarrow> u64 \<Rightarrow> PriceData \<Rightarrow> bool" where
  "pyth_quote price exponent publish_time slot p \<longleftrightarrow> 0 < sint price \<and> sint (pd_price p) = sint price \<and>
     int (unat (pd_decimals p)) = - sint exponent \<and> pd_updated_at p = publish_time \<and> pd_updated_slot p = slot"

lemma pyth_decimals_Ok: "pyth_decimals expo = Ok d \<longleftrightarrow> int (unat d) = - sint expo"
proof -
  have k: "ucast n = d \<longleftrightarrow> int (unat d) = sint n" if "0 \<le> sint n" "sint n \<le> 255" for n :: "32 word"
  proof -
    have "uint n = sint n" using uint_nonneg_sint [OF that(1)] by simp
    then have "uint (ucast n :: u8) = sint n"
      using that by (simp add: unsigned_ucast_eq take_bit_int_eq_self)
    then show ?thesis by (metis int_eq_iff uint_nat unsigned_word_eqI)
  qed
  have "pyth_decimals expo = Ok d \<longleftrightarrow> (\<exists>n :: 32 word. sint n = - sint expo \<and> 0 \<le> sint n \<and> sint n \<le> 255 \<and> ucast n = d)"
    by (auto simp: pyth_decimals_def step_iffs checked_ssub_Some)
  also have "\<dots> \<longleftrightarrow> int (unat d) = - sint expo"
  proof
    assume d: "int (unat d) = - sint expo"
    have "unat d < 256" using unsigned_less [of d, where ?'a = nat] by simp
    define n :: "32 word" where "n = word_of_int (int (unat d))"
    have "sint n = int (unat d)" unfolding n_def
      using \<open>unat d < 256\<close> by (subst signed_of_int) (simp add: signed_take_bit_int_eq_self del: of_nat_unat)
    then show "\<exists>n :: 32 word. sint n = - sint expo \<and> 0 \<le> sint n \<and> sint n \<le> 255 \<and> ucast n = d"
      using d k [of n] \<open>unat d < 256\<close> by (intro exI [of _ n]) (simp del: of_nat_unat)
  next
    assume "\<exists>n :: 32 word. sint n = - sint expo \<and> 0 \<le> sint n \<and> sint n \<le> 255 \<and> ucast n = d"
    then show "int (unat d) = - sint expo" using k by metis
  qed
  finally show ?thesis .
qed

lemma pyth_price_to_chainlink_Ok:
  "pyth_price_to_chainlink price expo publish slot = Ok p \<longleftrightarrow> pyth_quote price expo publish slot p"
proof -
  have "sint (pd_price p) = sint price \<longleftrightarrow> pd_price p = scast price"
    by (metis sint_scast_up signed_word_eqI)
  moreover have "sint expo \<le> 0" if "int (unat d) = - sint expo" for d :: u8 using that by linarith
  ultimately show ?thesis
    by (cases p) (auto simp: pyth_price_to_chainlink_def pyth_quote_def step_iffs pyth_decimals_Ok simp del: of_nat_unat)
qed

text \<open>What the SDK documents: the price it returns is no older than asked.\<close>

definition pyth_sdk_fresh :: "env \<Rightarrow> bool" where
  "pyth_sdk_fresh e \<longleftrightarrow> (\<forall>k get now age p. pyth_legacy e k = Some get \<longrightarrow> get now age = Some p \<longrightarrow>
     sint now - sint (pp_publish_time p) \<le> int (unat age))"

text \<open>
  What each kind of source must hold for a price to be accepted from it. A custom feed is bound to
  the mint by its address and its own field, and has no age limit. The others must be at most an
  hour old; a receiver account carries the feed id stored with the asset; a legacy Pyth or a
  Chainlink account is bound to the asset by the configured address alone.
\<close>

definition custom_reading :: "env \<Rightarrow> pubkey \<Rightarrow> pubkey \<Rightarrow> PriceData \<Rightarrow> bool" where
  "custom_reading e feed mint p \<longleftrightarrow> feed = pda e (CustomFeedSeed mint) \<and>
     (\<exists>f. custom_feeds e feed = Some f \<and> cf_asset_mint f = mint \<and> 0 < sint (cf_price f) \<and>
        p = \<lparr> pd_price = cf_price f, pd_decimals = cf_decimals f, pd_updated_at = cf_updated_at f,
              pd_updated_slot = clock_slot e \<rparr>)"

definition legacy_reading :: "env \<Rightarrow> pubkey \<Rightarrow> PriceData \<Rightarrow> bool" where
  "legacy_reading e feed p \<longleftrightarrow>
     (\<exists>get q. pyth_legacy e feed = Some get \<and> get (unix_timestamp e) 3600 = Some q \<and>
        pyth_quote (pp_price q) (pp_expo q) (pp_publish_time q) (clock_slot e) p)"

definition receiver_reading :: "env \<Rightarrow> pubkey \<Rightarrow> 256 word \<Rightarrow> PriceData \<Rightarrow> bool" where
  "receiver_reading e feed feed_id p \<longleftrightarrow>
     (\<exists>u. pyth_update e feed = Some u \<and> pu_full u \<and> pu_feed_id u = feed_id \<and> feed_id \<noteq> 0 \<and>
        pyth_quote (pu_price u) (pu_exponent u) (pu_publish_time u) (pu_posted_slot u) p)"

definition chainlink_reading :: "env \<Rightarrow> pubkey \<Rightarrow> PriceData \<Rightarrow> bool" where
  "chainlink_reading e feed p \<longleftrightarrow>
     (\<exists>decimals r. chainlink_feed e feed = Some (decimals, Some r) \<and> 0 < sint (cl_answer r) \<and>
        p = \<lparr> pd_price = cl_answer r, pd_decimals = decimals, pd_updated_at = ucast (cl_timestamp r),
              pd_updated_slot = cl_slot r \<rparr>)"

definition fresh :: "env \<Rightarrow> PriceData \<Rightarrow> bool" where
  "fresh e p \<longleftrightarrow> sint (unix_timestamp e) - sint (pd_updated_at p) \<le> 3600"

definition reading_ok :: "env \<Rightarrow> pubkey \<Rightarrow> AssetConfig \<Rightarrow> world \<Rightarrow> PriceData \<Rightarrow> bool" where
  "reading_ok e feed asset w p \<longleftrightarrow> feed = ac_price_feed asset \<and> 0 < sint (pd_price p) \<and>
     (let owner = program_owner (ledger w) feed in
      if owner = CUSTOM_PRICE_FEED_PROGRAM_ID then custom_reading e feed (ac_asset_mint asset) p
      else fresh e p \<and>
        (if owner \<in> {PYTH_ORACLE_PROGRAM_ID_MAINNET, PYTH_ORACLE_PROGRAM_ID_DEVNET} then legacy_reading e feed p
         else if owner \<in> {PYTH_RECEIVER_PROGRAM_ID, PYTH_RECEIVER_PROGRAM_ID_UPGRADED}
         then receiver_reading e feed (pyth_feed_id asset) p
         else chainlink_reading e feed p))"

lemmas owner_ids = is_pyth_legacy_owner_def is_pyth_receiver_owner_def
  CUSTOM_PRICE_FEED_PROGRAM_ID_def PYTH_ORACLE_PROGRAM_ID_MAINNET_def
  PYTH_ORACLE_PROGRAM_ID_DEVNET_def PYTH_RECEIVER_PROGRAM_ID_def PYTH_RECEIVER_PROGRAM_ID_UPGRADED_def

lemma fetch_custom_Ok:
  assumes "feed_owned_by w feed = CUSTOM_PRICE_FEED_PROGRAM_ID"
  shows "fetch_custom_price_from_account e feed m w = Ok p \<longleftrightarrow> custom_reading e feed m p"
  using assms
  by (auto simp: fetch_custom_price_from_account_def validate_custom_feed_pda_def deserialize_custom_feed_def
      custom_reading_def step_iffs)

lemma fetch_legacy_Ok:
  assumes "is_pyth_legacy_owner (feed_owned_by w feed)" "pyth_sdk_fresh e"
  shows "fetch_pyth_legacy_price_from_account e feed w = Ok p \<longleftrightarrow> fresh e p \<and> legacy_reading e feed p"
proof -
  have "fresh e p" if "pyth_legacy e feed = Some get" "get (unix_timestamp e) 3600 = Some q"
      "pyth_quote (pp_price q) (pp_expo q) (pp_publish_time q) (clock_slot e) p" for get q
    using assms(2) that unfolding pyth_sdk_fresh_def by (fastforce simp: fresh_def pyth_quote_def)
  then show ?thesis using assms(1)
    by (auto simp: fetch_pyth_legacy_price_from_account_def legacy_reading_def step_iffs
        MAX_PRICE_STALENESS_SECS_def pyth_price_to_chainlink_Ok)
qed

lemma fetch_push_Ok:
  assumes "is_pyth_receiver_owner (feed_owned_by w feed)"
  shows "fetch_pyth_push_price_from_account e feed fid w = Ok p \<longleftrightarrow> fresh e p \<and> receiver_reading e feed fid p"
  using assms
  by (auto simp: fetch_pyth_push_price_from_account_def deserialize_pyth_price_update_v2_def receiver_reading_def
      step_iffs Let_def MAX_PRICE_STALENESS_SECS_def pyth_price_to_chainlink_Ok pyth_quote_def fresh_def saturating_ssub_le)

lemma fetch_chainlink_Ok:
  "fetch_chainlink_price_from_feed e feed = Ok p \<longleftrightarrow> fresh e p \<and> chainlink_reading e feed p"
  by (auto simp: fetch_chainlink_price_from_feed_def chainlink_reading_def fresh_def step_iffs Let_def
      MAX_PRICE_STALENESS_SECS_def saturating_ssub_le split: prod.splits)

lemma fetch_price_Ok:
  assumes "pyth_sdk_fresh e"
  shows "fetch_price_from_feed e feed a w = Ok p \<longleftrightarrow> reading_ok e feed a w p"
proof -
  let ?o = "feed_owned_by w feed"
  have pos: "custom_reading e feed m p \<Longrightarrow> 0 < sint (pd_price p)" "legacy_reading e feed p \<Longrightarrow> 0 < sint (pd_price p)"
    "receiver_reading e feed i p \<Longrightarrow> 0 < sint (pd_price p)" "chainlink_reading e feed p \<Longrightarrow> 0 < sint (pd_price p)" for m i
    by (auto simp: custom_reading_def legacy_reading_def receiver_reading_def chainlink_reading_def pyth_quote_def)
  consider (custom) "?o = CUSTOM_PRICE_FEED_PROGRAM_ID"
    | (legacy) "is_pyth_legacy_owner ?o" "?o \<noteq> CUSTOM_PRICE_FEED_PROGRAM_ID"
    | (push) "is_pyth_receiver_owner ?o" "?o \<noteq> CUSTOM_PRICE_FEED_PROGRAM_ID" "\<not> is_pyth_legacy_owner ?o"
    | (chainlink) "?o \<noteq> CUSTOM_PRICE_FEED_PROGRAM_ID" "\<not> is_pyth_legacy_owner ?o" "\<not> is_pyth_receiver_owner ?o"
    by blast
  then show ?thesis
  proof cases
    case custom
    then show ?thesis using pos(1) by (auto simp: fetch_price_from_feed_def reading_ok_def step_iffs Let_def fetch_custom_Ok)
  next
    case legacy
    then have "?o \<in> {PYTH_ORACLE_PROGRAM_ID_MAINNET, PYTH_ORACLE_PROGRAM_ID_DEVNET}" by (simp add: is_pyth_legacy_owner_def)
    then show ?thesis using legacy pos(2)
      by (auto simp: fetch_price_from_feed_def reading_ok_def step_iffs Let_def fetch_legacy_Ok [OF _ assms])
  next
    case push
    then have "?o \<in> {PYTH_RECEIVER_PROGRAM_ID, PYTH_RECEIVER_PROGRAM_ID_UPGRADED}"
      "?o \<notin> {PYTH_ORACLE_PROGRAM_ID_MAINNET, PYTH_ORACLE_PROGRAM_ID_DEVNET}"
      by (simp_all add: is_pyth_receiver_owner_def is_pyth_legacy_owner_def)
    then show ?thesis using push pos(3)
      by (simp add: fetch_price_from_feed_def reading_ok_def step_iffs Let_def fetch_push_Ok) blast
  next
    case chainlink
    then show ?thesis using pos(4)
      by (auto simp: fetch_price_from_feed_def reading_ok_def step_iffs Let_def fetch_chainlink_Ok
          is_pyth_receiver_owner_def is_pyth_legacy_owner_def)
  qed
qed

text \<open>Positive and of the configured account, whatever the SDK does.\<close>

lemma fetch_price_from_feed_Ok:
  assumes "fetch_price_from_feed e feed a w = Ok p"
  shows "0 < sint (pd_price p)" "feed = ac_price_feed a"
  using assms
  by (auto simp: fetch_price_from_feed_def step_iffs Let_def fetch_custom_Ok custom_reading_def
      fetch_pyth_legacy_price_from_account_def pyth_price_to_chainlink_Ok pyth_quote_def fetch_push_Ok
      receiver_reading_def fetch_chainlink_Ok chainlink_reading_def split: if_splits)

interpretation feeds: price_oracle "fetch_price_from_feed e" for e
  by unfold_locales (fact fetch_price_from_feed_Ok)+

text \<open>
  C35. Exactly which prices the protocol accepts: only from the account the asset is configured
  with, only positive ones, and by the program that owns the account - from the custom feed of this
  very mint, as stored and however old; from legacy Pyth, the Pyth receiver (either program id) or
  Chainlink only if at most an hour old, and from the receiver only a fully verified update with
  the feed id stored for the asset. What binds a legacy Pyth or a Chainlink account to the asset is
  the configured address alone. (The SDK's own staleness check is taken as documented.)
\<close>

theorem fetch_price_sound:
  assumes "pyth_sdk_fresh e"
  shows "fetch_price_from_feed e feed asset w = Ok p \<longleftrightarrow> reading_ok e feed asset w p"
  by (rule fetch_price_Ok [OF assms])

text \<open>
  Valuing an amount at a price the protocol accepted never fails because of the price: the
  only failures left are arithmetic overflow (an error, or a panic beyond 38 decimals).
\<close>

theorem valuation_fails_only_by_overflow:
  assumes "fetch_price_from_feed e feed asset w = Ok p" "usd_value amount d p = Inl err"
  shows "err = Raise MathOverflow \<or> err = Panic"
  by (rule feeds.usd_value_fails_by_overflow [OF assms])

text \<open>
  C28. The two programs fit: whatever a reachable state of the custom feed program stores for a
  mint, the GRAI program reads it without error from the derived account, as it was stored.
\<close>

theorem custom_feed_readable:
  assumes "feed_step\<^sup>*\<^sup>* feed_genesis fw" "fw_feeds fw mint = Some f"
    and "custom_feeds e (pda e (CustomFeedSeed mint)) = Some f"
    and "feed_owned_by w (pda e (CustomFeedSeed mint)) = CUSTOM_PRICE_FEED_PROGRAM_ID"
    and "ac_price_feed asset = pda e (CustomFeedSeed mint)" "ac_asset_mint asset = mint"
  shows "fetch_price_from_feed e (ac_price_feed asset) asset w =
     Ok \<lparr> pd_price = cf_price f, pd_decimals = cf_decimals f, pd_updated_at = cf_updated_at f,
          pd_updated_slot = clock_slot e \<rparr>"
proof -
  have "good_feed mint f" using reachable_feed_good [OF assms(1,2)] .
  then show ?thesis using assms(3-)
    by (simp add: fetch_price_from_feed_def fetch_custom_price_from_account_def good_feed_def
        deserialize_custom_feed_def validate_custom_feed_pda_def)
qed

end
