(* ===== verification/Harvest.thy ===== *)
theory Harvest
  imports Locks Price_Feed
begin

text \<open>
  Yield and bribes (\<open>distribute.rs\<close>, \<open>bribe.rs\<close>) with the account checks of \<open>Distribute\<close>,
  \<open>Bribe\<close> and \<open>PreviewBribe\<close> (\<open>lib.rs\<close>): pulling a payment into an asset's vault, reserving
  the lockers' cut under the dividend index and sending the rest to the treasury vault.
\<close>

section \<open>Account checks\<close>

text \<open>The configuration of a listed mint, with its \<open>bump\<close> and \<open>asset_mint\<close> constraints.\<close>

definition check_asset_config :: "env \<Rightarrow> pubkey \<Rightarrow> world \<Rightarrow> AssetConfig res" where
  "check_asset_config e mint w =
     and_then (account (assets w mint)) (\<lambda>a.
     and_then (constraint (ac_bump a = pda_bump e (AssetSeed mint))) (\<lambda>_.
     and_then (require (ac_asset_mint a = mint) AssetUnknown) (\<lambda>_.
     Ok a)))"

definition check_price_feed :: "env \<Rightarrow> pubkey \<Rightarrow> AssetConfig \<Rightarrow> pubkey \<Rightarrow> world \<Rightarrow> unit res" where
  "check_price_feed e feed a mint w =
     and_then (require (feed = ac_price_feed a) InvalidChainlinkFeed) (\<lambda>_.
     require (matches_asset_mint e feed mint w) InvalidCustomPriceFeed)"

definition init_position_if_needed :: "env \<Rightarrow> pubkey \<Rightarrow> pubkey \<Rightarrow> pubkey \<Rightarrow> world \<Rightarrow> (Position \<times> world) res" where
  "init_position_if_needed e payer user mint w =
     (case positions w (user, mint) of
        Some p \<Rightarrow> Ok (p, w)
      | None \<Rightarrow>
          and_then (invoke (anchor_init e payer (pda e (PositionSeed user mint)) (8 + Position_LEN)) w)
            (\<lambda>w. let p = \<lparr> po_debt = 0, po_claimable = 0, po_yielded = 0, po_bump = 0 \<rparr> in
                 Ok (p, store_position user mint p w)))"

section \<open>The cuts\<close>

text \<open>
  The part \<open>distribute\<close> and \<open>bribe\<close> share: the dividend cut goes to the index of everything
  locked, the treasury cut and what the index could not take go to the treasury vault.
\<close>

definition pay_cuts :: "env \<Rightarrow> pubkey \<Rightarrow> AssetConfig \<Rightarrow> u64 \<Rightarrow> world \<Rightarrow> (AssetConfig \<times> world) res" where
  "pay_cuts e mint asset amount w =
     and_then (split_cuts amount (gs_config (grai_state w))) (\<lambda>(treasury_cut, dividend_cut).
     let eligible = total_locked (grai_state w) in
     and_then (if 0 < dividend_cut then distribute_dividend asset dividend_cut eligible
               else Ok (asset, 0)) (\<lambda>(asset, dust).
     and_then (ok_or (checked_add treasury_cut dust) MathOverflow) (\<lambda>to_treasury.
     and_then (if 0 < to_treasury
               then transfer_from_vault e (vault_key e mint) (treasury_key e mint) to_treasury w
               else Ok w) (\<lambda>w.
     Ok (asset, w)))))"

section \<open>\<open>distribute\<close>\<close>

definition accounts_Distribute ::
  "env \<Rightarrow> pubkey \<Rightarrow> pubkey \<Rightarrow> pubkey \<Rightarrow> pubkey \<Rightarrow> pubkey \<Rightarrow> pubkey \<Rightarrow> world \<Rightarrow>
   (AssetConfig \<times> Position \<times> world) res" where
  "accounts_Distribute e custody_wallet payer asset_mint price_feed grai_mint custody_ata w =
     and_then (check_grai_state e w) (\<lambda>_.
     and_then (account (mints (ledger w) asset_mint)) (\<lambda>_.
     and_then (check_asset_config e asset_mint w) (\<lambda>a.
     and_then (check_price_feed e price_feed a asset_mint w) (\<lambda>_.
     and_then (check_grai_mint e grai_mint w) (\<lambda>_.
     and_then (check_token_account custody_ata asset_mint custody_wallet InvalidDepositSource w) (\<lambda>_.
     and_then (check_vault e (vault_key e asset_mint) asset_mint w) (\<lambda>_.
     and_then (check_vault e (treasury_key e asset_mint) asset_mint w) (\<lambda>_.
     and_then (init_position_if_needed e payer custody_wallet asset_mint w) (\<lambda>(p, w).
     Ok (a, p, w))))))))))"

definition execute_distribute ::
  "env \<Rightarrow> pubkey \<Rightarrow> pubkey \<Rightarrow> pubkey \<Rightarrow> pubkey \<Rightarrow> pubkey \<Rightarrow> pubkey \<Rightarrow> u64 \<Rightarrow> world \<Rightarrow> world res" where
  "execute_distribute e custody_wallet payer asset_mint price_feed grai_mint custody_ata yield_amount w =
     and_then (accounts_Distribute e custody_wallet payer asset_mint price_feed grai_mint custody_ata w)
       (\<lambda>(asset, position, w).
     and_then (require (0 < yield_amount) AmountZero) (\<lambda>_.
     and_then (require (\<not> liquidation (grai_state w)) LiquidationOpen) (\<lambda>_.
     and_then (require (asset_mint \<noteq> grai_mint) AssetUnknown) (\<lambda>_.
     and_then (transfer_from_signer e custody_ata (vault_key e asset_mint) custody_wallet yield_amount w)
       (\<lambda>w.
     and_then (pay_cuts e asset_mint asset yield_amount w) (\<lambda>(asset, w).
     and_then (ok_or (checked_add (total_yielded asset) yield_amount) MathOverflow) (\<lambda>ty.
     and_then (ok_or (checked_add (po_yielded position) yield_amount) MathOverflow) (\<lambda>py.
     Ok (store_position custody_wallet asset_mint
           (position\<lparr>po_yielded := py,
                     po_bump := pda_bump e (PositionSeed custody_wallet asset_mint)\<rparr>)
           (store_asset_config asset_mint (asset\<lparr>total_yielded := ty\<rparr>) w))))))))))"

section \<open>\<open>bribe\<close>\<close>

record BribeQuote =
  bq_bribe_amount :: u64
  bq_premium :: u64
  bq_discount :: u64

text \<open>The checks \<open>Bribe\<close> and \<open>PreviewBribe\<close> share.\<close>

definition accounts_PreviewBribe ::
  "env \<Rightarrow> pubkey \<Rightarrow> pubkey \<Rightarrow> pubkey \<Rightarrow> pubkey \<Rightarrow> world \<Rightarrow>
   (Mint \<times> Escrow \<times> Mint \<times> AssetConfig) res" where
  "accounts_PreviewBribe e voter grai_mint settlement_mint settlement_price_feed w =
     and_then (check_grai_state e w) (\<lambda>_.
     and_then (check_grai_mint e grai_mint w) (\<lambda>gm.
     and_then (check_escrow e voter w) (\<lambda>x.
     and_then (account (mints (ledger w) settlement_mint)) (\<lambda>sm.
     and_then (check_asset_config e settlement_mint w) (\<lambda>a.
     and_then (require (ac_bribeable a) NotBribeable) (\<lambda>_.
     and_then (require (settlement_price_feed = ac_price_feed a) InvalidChainlinkFeed) (\<lambda>_.
     Ok (gm, x, sm, a))))))))"

text \<open>The ask both instructions quote.\<close>

definition bribe_ask ::
  "env \<Rightarrow> u64 \<Rightarrow> pubkey \<Rightarrow> Mint \<Rightarrow> Mint \<Rightarrow> AssetConfig \<Rightarrow> world \<Rightarrow> (u64 \<times> u64 \<times> u64) res" where
  "bribe_ask e grai_amount settlement_price_feed gm sm a w =
     and_then (fetch_price_from_feed e settlement_price_feed a w) (\<lambda>price.
     preview_bribe grai_amount (mi_supply gm) (total_value (grai_state w)) (total_voted (grai_state w))
       (quorum_bps (gs_config (grai_state w))) (bribe_premium_bps (gs_config (grai_state w)))
       (mi_decimals sm) price)"

definition execute_preview_bribe ::
  "env \<Rightarrow> pubkey \<Rightarrow> pubkey \<Rightarrow> pubkey \<Rightarrow> pubkey \<Rightarrow> u64 \<Rightarrow> world \<Rightarrow> BribeQuote res" where
  "execute_preview_bribe e voter grai_mint settlement_mint settlement_price_feed grai_amount w =
     and_then (accounts_PreviewBribe e voter grai_mint settlement_mint settlement_price_feed w)
       (\<lambda>(gm, x, sm, a).
     and_then (require (grai_amount \<le> es_voted x) InvalidAmount) (\<lambda>_.
     and_then (bribe_ask e grai_amount settlement_price_feed gm sm a w)
       (\<lambda>(bribe_amount, premium, discount).
     Ok \<lparr> bq_bribe_amount = bribe_amount, bq_premium = premium, bq_discount = discount \<rparr>)))"

definition accounts_Bribe ::
  "env \<Rightarrow> pubkey \<Rightarrow> pubkey \<Rightarrow> pubkey \<Rightarrow> pubkey \<Rightarrow> pubkey \<Rightarrow> pubkey \<Rightarrow> world \<Rightarrow>
   (Mint \<times> Escrow \<times> Mint \<times> AssetConfig \<times> world) res" where
  "accounts_Bribe e briber voter grai_mint settlement_mint settlement_price_feed
       briber_settlement_ata w =
     and_then (accounts_PreviewBribe e voter grai_mint settlement_mint settlement_price_feed w)
       (\<lambda>(gm, x, sm, a).
     and_then (check_vault e (vault_key e grai_mint) grai_mint w) (\<lambda>_.
     and_then (check_vault e (vault_key e settlement_mint) settlement_mint w) (\<lambda>_.
     and_then (init_token_if_needed e briber (ata e briber grai_mint) grai_mint briber w) (\<lambda>w.
     and_then (check_token_account briber_settlement_ata settlement_mint briber InvalidDepositSource w)
       (\<lambda>_.
     and_then (init_token_if_needed e briber (ata e voter settlement_mint) settlement_mint voter w) (\<lambda>w.
     and_then (check_vault e (treasury_key e settlement_mint) settlement_mint w) (\<lambda>_.
     Ok (gm, x, sm, a, w))))))))"

text \<open>The escrow and the totals give up the bought vote before any payment.\<close>

definition reserve_escrow :: "pubkey \<Rightarrow> Escrow \<Rightarrow> u64 \<Rightarrow> world \<Rightarrow> (Escrow \<times> world) res" where
  "reserve_escrow voter x grai_amount w =
     and_then (ok_or (checked_sub (es_voted x) grai_amount) MathOverflow) (\<lambda>v.
     and_then (ok_or (checked_sub (es_amount x) grai_amount) MathOverflow) (\<lambda>am.
     and_then (ok_or (checked_sub (total_voted (grai_state w)) grai_amount) MathOverflow) (\<lambda>tv.
     and_then (ok_or (checked_sub (total_locked (grai_state w)) grai_amount) MathOverflow) (\<lambda>tlk.
     let x = x\<lparr>es_voted := v, es_amount := am\<rparr> in
     Ok (x, set_escrow voter x
              (upd_state (\<lambda>s. s\<lparr>total_voted := tv, total_locked := tlk\<rparr>) w))))))"

definition leave_lists :: "pubkey \<Rightarrow> Escrow \<Rightarrow> world \<Rightarrow> world" where
  "leave_lists voter x w =
     (let w = (if es_voted x = 0
               then upd_state (voters_update (\<lambda>vs. remove_from_list vs voter)) w else w) in
      if es_amount x = 0
      then upd_state (lockers_update (\<lambda>ls. remove_from_list ls voter)) w else w)"

definition bribe_cut_pool :: "u64 \<Rightarrow> u64 \<Rightarrow> u64 \<Rightarrow> u64 \<Rightarrow> u64 res" where
  "bribe_cut_pool received bribe_amount premium discount =
     (if 0 < premium
      then
        and_then (ok_or (checked_sub bribe_amount premium) MathOverflow) (\<lambda>bribe_body.
        and_then (mul_div received bribe_body bribe_amount) (\<lambda>body_share.
        and_then (ok_or (checked_sub received body_share) MathOverflow) (\<lambda>rest.
        Ok (rest div 2))))
      else mul_div received discount bribe_amount)"

definition execute_bribe ::
  "env \<Rightarrow> pubkey \<Rightarrow> pubkey \<Rightarrow> pubkey \<Rightarrow> pubkey \<Rightarrow> pubkey \<Rightarrow> pubkey \<Rightarrow> pubkey list \<Rightarrow> u64 \<Rightarrow> world \<Rightarrow>
   world res" where
  "execute_bribe e briber voter grai_mint settlement_mint settlement_price_feed
       briber_settlement_ata remaining grai_amount w =
     and_then (accounts_Bribe e briber voter grai_mint settlement_mint settlement_price_feed
                 briber_settlement_ata w) (\<lambda>(gm, x, sm, asset, w).
     and_then (require (\<not> liquidation (grai_state w)) LiquidationOpen) (\<lambda>_.
     and_then (require (0 < grai_amount) AmountZero) (\<lambda>_.
     and_then (require (grai_amount \<le> es_voted x) InvalidAmount) (\<lambda>_.
     and_then (bribe_ask e grai_amount settlement_price_feed gm sm asset w)
       (\<lambda>(bribe_amount, premium, discount).
     let old_locked = es_amount x in
     and_then (ok_or (checked_sub old_locked grai_amount) MathOverflow) (\<lambda>new_locked.
     and_then (settle_all_pairs e remaining (asset_mints (grai_state w)) voter old_locked new_locked
                 briber w) (\<lambda>w.
     and_then (reserve_escrow voter x grai_amount w) (\<lambda>(x, w).
     and_then (transfer_from_vault e (vault_key e grai_mint) (ata e briber grai_mint) grai_amount w) (\<lambda>w.
     and_then (transfer_from_signer e briber_settlement_ata (vault_key e settlement_mint) briber
                 bribe_amount w) (\<lambda>w.
     let received = bribe_amount; w = leave_lists voter x w in
     and_then (bribe_cut_pool received bribe_amount premium discount) (\<lambda>cut_pool.
     and_then (ok_or (checked_sub received cut_pool) MathOverflow) (\<lambda>voter_cut.
     and_then (pay_cuts e settlement_mint asset cut_pool w) (\<lambda>(asset, w).
     and_then (if 0 < voter_cut
               then transfer_from_vault e (vault_key e settlement_mint) (ata e voter settlement_mint)
                      voter_cut w
               else Ok w) (\<lambda>w.
     Ok (store_asset_config settlement_mint asset w)))))))))))))))"

end
