(* ===== verification/Bytes.thy ===== *)
theory Bytes
  imports Prelude
begin

text \<open>
  Byte strings of the programs' messages and accounts: big- and little-endian fixed-width
  integers and the fields of a concatenation.
\<close>

type_synonym bytes = "u8 list"

lemma unat_lt_pow: "unat (x :: 'a::len word) < 2 ^ LENGTH('a)"
  by (rule unsigned_less)

section \<open>Big-endian integers (\<open>to_be_bytes\<close>, \<open>from_be_bytes\<close>)\<close>

fun be_of_nat :: "nat \<Rightarrow> nat \<Rightarrow> bytes" where
  "be_of_nat 0 x = []"
| "be_of_nat (Suc n) x = be_of_nat n (x div 256) @ [word_of_nat (x mod 256)]"

definition be_nat :: "bytes \<Rightarrow> nat" where
  "be_nat = foldl (\<lambda>a b. a * 256 + unat b) 0"

text \<open>\<open>be_bytes n x\<close>: the \<open>n\<close> low bytes of \<open>x\<close>, most significant first.\<close>

definition be_bytes :: "nat \<Rightarrow> 'a::len word \<Rightarrow> bytes" where
  "be_bytes n x = be_of_nat n (unat x)"

definition be_word :: "bytes \<Rightarrow> 'a::len word" where
  "be_word bs = word_of_nat (be_nat bs)"

lemma be_of_nat_length [simp]: "length (be_of_nat n x) = n"
  by (induction n arbitrary: x) simp_all

lemma be_bytes_length [simp]: "length (be_bytes n x) = n"
  by (simp add: be_bytes_def)

lemma be_nat_Nil [simp]: "be_nat [] = 0"
  by (simp add: be_nat_def)

lemma be_nat_snoc [simp]: "be_nat (bs @ [b]) = be_nat bs * 256 + unat b"
  by (simp add: be_nat_def)

lemma unat_byte: "unat (word_of_nat (x mod 256) :: u8) = x mod 256"
  by (simp add: unat_of_nat)

lemma be_nat_of_nat: "be_nat (be_of_nat n x) = x mod 256 ^ n"
proof (induction n arbitrary: x)
  case (Suc n)
  have "be_nat (be_of_nat (Suc n) x) = x div 256 mod 256 ^ n * 256 + x mod 256"
    using Suc.IH [of "x div 256"] by (simp add: unat_byte)
  also have "\<dots> = x mod (256 * 256 ^ n)" by (simp add: mod_mult2_eq mult.commute)
  finally show ?case by simp
qed simp

lemma be_nat_bound: "be_nat bs < 256 ^ length bs"
proof (induction bs rule: rev_induct)
  case (snoc b bs)
  have "unat b < 256" using unat_lt_pow [of b] by simp
  then have "be_nat bs * 256 + unat b < (be_nat bs + 1) * 256" by simp
  also have "\<dots> \<le> 256 ^ length bs * 256" using snoc by (simp only: Suc_eq_plus1 [symmetric] Suc_le_eq mult_le_mono1)
  finally show ?case by (simp add: mult.commute)
qed simp

lemma be_of_nat_nat: "be_of_nat (length bs) (be_nat bs) = bs"
proof (induction bs rule: rev_induct)
  case (snoc b bs)
  have "unat b < 256" using unat_lt_pow [of b] by simp
  then show ?case using snoc by simp
qed simp

text \<open>Round trips at full width.\<close>

lemma be_word_bytes [simp]: "256 ^ n = (2 :: nat) ^ LENGTH('a) \<Longrightarrow> be_word (be_bytes n x) = (x :: 'a::len word)"
  using unat_lt_pow [of x] by (simp add: be_word_def be_bytes_def be_nat_of_nat)

lemma be_bytes_word: "256 ^ length bs \<le> (2 :: nat) ^ LENGTH('a) \<Longrightarrow> be_bytes (length bs) (be_word bs :: 'a::len word) = bs"
  using be_nat_bound [of bs] be_of_nat_nat [of bs]
  by (simp add: be_word_def be_bytes_def unat_word_of_nat_fits)

lemma be_word_u64 [simp]: "be_word (be_bytes 8 x) = (x :: u64)"
  by (rule be_word_bytes) simp

lemma be_word_u32 [simp]: "be_word (be_bytes 4 x) = (x :: u32)"
  by (rule be_word_bytes) simp

lemma be_word_key [simp]: "be_word (be_bytes 32 x) = (x :: pubkey)"
  by (rule be_word_bytes) simp

section \<open>Little-endian integers (\<open>to_le_bytes\<close>, \<open>from_le_bytes\<close>)\<close>

fun le_nat :: "bytes \<Rightarrow> nat" where
  "le_nat [] = 0"
| "le_nat (b # bs) = unat b + 256 * le_nat bs"

fun le_of_nat :: "nat \<Rightarrow> nat \<Rightarrow> bytes" where
  "le_of_nat 0 x = []"
| "le_of_nat (Suc n) x = word_of_nat (x mod 256) # le_of_nat n (x div 256)"

definition le_bytes :: "nat \<Rightarrow> 'a::len word \<Rightarrow> bytes" where
  "le_bytes n x = le_of_nat n (unat x)"

lemma le_of_nat_length [simp]: "length (le_of_nat n x) = n"
  by (induction n arbitrary: x) simp_all

lemma le_bytes_length [simp]: "length (le_bytes n x) = n"
  by (simp add: le_bytes_def)

lemma le_nat_of_nat: "le_nat (le_of_nat n x) = x mod 256 ^ n"
  by (induction n arbitrary: x) (simp_all add: unat_byte mod_mult2_eq)

lemma le_nat_bytes: "256 ^ n = (2 :: nat) ^ LENGTH('a) \<Longrightarrow> le_nat (le_bytes n x) = unat (x :: 'a::len word)"
  using unat_lt_pow [of x] by (simp add: le_bytes_def le_nat_of_nat)

section \<open>Fields\<close>

definition slice :: "nat \<Rightarrow> nat \<Rightarrow> 'a list \<Rightarrow> 'a list" where
  "slice from to xs = take (to - from) (drop from xs)"

text \<open>A field of a concatenation of fixed-length fields.\<close>

lemma slice_append_drop: "length xs \<le> a \<Longrightarrow> slice a b (xs @ ys) = slice (a - length xs) (b - length xs) ys"
  by (simp add: slice_def)

lemma slice_append_take: "b \<le> length xs \<Longrightarrow> slice a b (xs @ ys) = slice a b xs"
  by (simp add: slice_def)

lemma slice_all: "length xs = b \<Longrightarrow> slice 0 b xs = xs"
  by (simp add: slice_def)

lemma slice_length [simp]: "b \<le> length xs \<Longrightarrow> length (slice a b xs) = b - a"
  by (simp add: slice_def)

lemma slice_join:
  assumes "a \<le> b" "b \<le> c"
  shows "slice a b xs @ slice b c xs = slice a c xs"
proof -
  have "c - a = (b - a) + (c - b)" "drop (b - a) (drop a xs) = drop b xs" using assms by simp_all
  then show ?thesis by (simp only: slice_def take_add)
qed

end
