(* ===== verification/Liquidation.thy ===== *)
theory Liquidation
  imports Harvest Bytes
begin

text \<open>
  Liquidation (\<open>redeem.rs\<close>, \<open>revive.rs\<close>) with the account checks of \<open>Liquidate\<close>, \<open>Redeem\<close> and
  \<open>Revive\<close>: opening it on quorum and a stale heartbeat, redeeming shares for the basket,
  and closing it. The Grinders state is read as raw bytes, as the code does.
\<close>

section \<open>The heartbeat\<close>

definition GRINDERS_HEARTBEAT_AT_OFFSET :: nat where
  "GRINDERS_HEARTBEAT_AT_OFFSET = 8 + 32 + 32 + 32 + 8 + 32"

definition GRINDERS_GRINDING_PERIOD_OFFSET :: nat where
  "GRINDERS_GRINDING_PERIOD_OFFSET = GRINDERS_HEARTBEAT_AT_OFFSET + 8"

definition grinders_grinding :: "pubkey \<Rightarrow> i64 \<Rightarrow> world \<Rightarrow> bool res" where
  "grinders_grinding grinders_state now w =
     (let data = raw_data (ledger w) grinders_state in
      and_then (require (GRINDERS_GRINDING_PERIOD_OFFSET + 4 < length data) InvalidGrinders) (\<lambda>_.
      let heartbeat_at = (word_of_nat (le_nat (slice GRINDERS_HEARTBEAT_AT_OFFSET
                            (GRINDERS_HEARTBEAT_AT_OFFSET + 8) data)) :: i64);
          grinding_period = (word_of_nat (le_nat (slice GRINDERS_GRINDING_PERIOD_OFFSET
                            (GRINDERS_GRINDING_PERIOD_OFFSET + 4) data)) :: u32) in
      Ok (sint now \<le> sint (saturating_sadd heartbeat_at (ucast grinding_period)))))"

section \<open>\<open>liquidate\<close>\<close>

definition accounts_Liquidate :: "env \<Rightarrow> pubkey \<Rightarrow> pubkey \<Rightarrow> pubkey \<Rightarrow> world \<Rightarrow> (Mint \<times> TokenAccount \<times> world) res" where
  "accounts_Liquidate e caller grinders_state grai_mint w =
     and_then (check_grai_state e w) (\<lambda>_.
     and_then (require (grinders_state = gs_grinders (grai_state w)) InvalidGrinders) (\<lambda>_.
     and_then (check_grai_mint e grai_mint w) (\<lambda>gm.
     and_then (check_vault e (vault_key e grai_mint) grai_mint w) (\<lambda>vault.
     and_then (init_token_if_needed e caller (ata e caller grai_mint) grai_mint caller w) (\<lambda>w.
     Ok (gm, vault, w))))))"

definition execute_liquidate :: "env \<Rightarrow> pubkey \<Rightarrow> pubkey \<Rightarrow> pubkey \<Rightarrow> world \<Rightarrow> world res" where
  "execute_liquidate e caller grinders_state grai_mint w =
     and_then (accounts_Liquidate e caller grinders_state grai_mint w) (\<lambda>(gm, vault, w).
     and_then (require (\<not> liquidation (grai_state w)) LiquidationOpen) (\<lambda>_.
     and_then (has_quorum (total_voted (grai_state w)) (mi_supply gm)
                 (quorum_bps (gs_config (grai_state w)))) (\<lambda>quorum.
     and_then (require quorum LiquidationQuorumNotMet) (\<lambda>_.
     and_then (grinders_grinding grinders_state (unix_timestamp e) w) (\<lambda>grinding.
     and_then (require (\<not> grinding) GrindersGrinding) (\<lambda>_.
     let dead = dead_grai (tk_amount vault) (total_locked (grai_state w)) in
     and_then (if 0 < dead
               then transfer_from_vault e (vault_key e grai_mint) (ata e caller grai_mint) dead w
               else Ok w) (\<lambda>w.
     Ok (upd_state (\<lambda>s. s\<lparr>liquidation := True, liquidation_at := unix_timestamp e\<rparr>) w))))))))"

section \<open>\<open>redeem\<close>\<close>

definition accounts_Redeem ::
  "env \<Rightarrow> pubkey \<Rightarrow> pubkey \<Rightarrow> pubkey \<Rightarrow> world \<Rightarrow> (Mint \<times> Escrow \<times> TokenAccount \<times> world) res" where
  "accounts_Redeem e holder grai_mint holder_grai_ata w =
     and_then (check_grai_state e w) (\<lambda>_.
     and_then (check_grai_mint e grai_mint w) (\<lambda>gm.
     and_then (init_escrow_if_needed e holder holder w) (\<lambda>w.
     and_then (account (escrows w holder)) (\<lambda>x.
     and_then (check_token_account holder_grai_ata grai_mint holder InvalidDestination w) (\<lambda>a.
     and_then (check_vault e (vault_key e grai_mint) grai_mint w) (\<lambda>_.
     Ok (gm, x, a, w)))))))"

definition redeem_unlock_at :: "GraiState \<Rightarrow> i64 res" where
  "redeem_unlock_at s =
     ok_or (checked_sadd (liquidation_at s) (ucast (liquidation_period (gs_config s)))) MathOverflow"

text \<open>The escrowed part of the burn.\<close>

definition burn_escrow ::
  "env \<Rightarrow> pubkey \<Rightarrow> pubkey \<Rightarrow> Escrow \<Rightarrow> u64 \<Rightarrow> u64 \<Rightarrow> world \<Rightarrow> world res" where
  "burn_escrow e holder grai_mint x escrow_burn new_locked w =
     and_then (ok_or (checked_sub (total_locked (grai_state w)) escrow_burn) MathOverflow) (\<lambda>tl.
     let w = set_escrow holder (x\<lparr>es_amount := new_locked\<rparr>)
               (upd_state (total_locked_update (\<lambda>_. tl)) w) in
     and_then (clamp_vote holder w) (\<lambda>w.
     and_then (invoke (spl_burn e grai_mint (vault_key e grai_mint) (gs_key e) escrow_burn) w) (\<lambda>w.
     Ok (if new_locked = 0
         then upd_state (lockers_update (\<lambda>ls. remove_from_list ls holder)) w else w))))"

text \<open>
  One iteration of the payout loop. The asset account was required to be the mint's own by
  \<open>settle_all_quads\<close> before, so reading it is reading the mint's configuration.
\<close>

definition redeem_quad ::
  "env \<Rightarrow> pubkey \<Rightarrow> pubkey \<Rightarrow> pubkey \<Rightarrow> u64 \<Rightarrow> u64 \<Rightarrow> world \<Rightarrow> world res" where
  "redeem_quad e vault holder_ata mint grai_amount supply' w =
     and_then (account (assets w mint)) (\<lambda>asset.
     and_then (require (ac_asset_mint asset = mint) AssetUnknown) (\<lambda>_.
     and_then (account (token_accounts (ledger w) vault)) (\<lambda>v.
     and_then (require (tk_mint v = mint) InvalidDestination) (\<lambda>_.
     and_then (preview_liquidate_share (redeemable_balance (tk_amount v) (total_claimable asset))
                 grai_amount supply') (\<lambda>amount.
     if 0 < amount then transfer_from_vault e vault holder_ata amount w else Ok w)))))"

fun redeem_quads ::
  "env \<Rightarrow> pubkey list \<Rightarrow> pubkey list \<Rightarrow> u64 \<Rightarrow> u64 \<Rightarrow> world \<Rightarrow> world res" where
  "redeem_quads e (a # p # v # h # rest) (mint # ms) grai_amount supply' w =
     and_then (redeem_quad e v h mint grai_amount supply' w)
       (redeem_quads e rest ms grai_amount supply')"
| "redeem_quads e _ _ grai_amount supply' w = Ok w"

definition execute_redeem ::
  "env \<Rightarrow> pubkey \<Rightarrow> pubkey \<Rightarrow> pubkey \<Rightarrow> pubkey list \<Rightarrow> u64 \<Rightarrow> world \<Rightarrow> world res" where
  "execute_redeem e holder grai_mint holder_grai_ata remaining grai_amount w =
     and_then (accounts_Redeem e holder grai_mint holder_grai_ata w) (\<lambda>(gm, x, a, w).
     and_then (require (liquidation (grai_state w)) LiquidationClosed) (\<lambda>_.
     and_then (redeem_unlock_at (grai_state w)) (\<lambda>unlock_at.
     and_then (require (sint unlock_at \<le> sint (unix_timestamp e)) LiquidationDelay) (\<lambda>_.
     let supply' = mi_supply gm; wallet_amount = tk_amount a; locked = es_amount x in
     and_then (ok_or (checked_add wallet_amount locked) MathOverflow) (\<lambda>holder_amount.
     and_then (require (0 < grai_amount) InvalidAmount) (\<lambda>_.
     and_then (require (grai_amount \<le> holder_amount) InvalidAmount) (\<lambda>_.
     and_then (liquidate_value grai_amount supply' (total_value (grai_state w))) (\<lambda>value.
     and_then (require (0 < value) AmountZero) (\<lambda>_.
     let wallet_burn = min grai_amount wallet_amount in
     and_then (or_panic (checked_sub grai_amount wallet_burn)) (\<lambda>escrow_burn.
     and_then (ok_or (checked_sub locked escrow_burn) InvalidAmount) (\<lambda>new_locked.
     let ms = asset_mints (grai_state w) in
     and_then (require (length remaining = length ms * 4) InvalidRemainingAccounts) (\<lambda>_.
     and_then (settle_all_quads e remaining ms holder locked new_locked False holder w) (\<lambda>w.
     and_then (if 0 < wallet_burn
               then invoke (spl_burn e grai_mint holder_grai_ata holder wallet_burn) w
               else Ok w) (\<lambda>w.
     and_then (if 0 < escrow_burn then burn_escrow e holder grai_mint x escrow_burn new_locked w
               else Ok w) (\<lambda>w.
     and_then (ok_or (checked_sub (total_value (grai_state w)) value) MathOverflow) (\<lambda>tv.
     redeem_quads e remaining ms grai_amount supply'
       (upd_state (total_value_update (\<lambda>_. tv)) w)))))))))))))))))"

section \<open>\<open>revive\<close>\<close>

definition accounts_Revive :: "env \<Rightarrow> pubkey \<Rightarrow> pubkey \<Rightarrow> world \<Rightarrow> Mint res" where
  "accounts_Revive e grinders_state grai_mint w =
     and_then (check_grai_state e w) (\<lambda>_.
     and_then (require (grinders_state = gs_grinders (grai_state w)) InvalidGrinders) (\<lambda>_.
     check_grai_mint e grai_mint w))"

text \<open>The binding pass over the remaining accounts, before any gate.\<close>

fun bind_quints :: "env \<Rightarrow> pubkey \<Rightarrow> pubkey list \<Rightarrow> pubkey list \<Rightarrow> world \<Rightarrow> unit res" where
  "bind_quints e grinders (a # mi # f # v # g # rest) (mint # ms) w =
     and_then (require (mi = mint) AssetUnknown) (\<lambda>_.
     and_then (load_asset_config e a mint w) (\<lambda>_.
     and_then (require_vault_pda e v mint w) (\<lambda>_.
     and_then (require (g = ata e grinders mint) InvalidDestination) (\<lambda>_.
     bind_quints e grinders rest ms w))))"
| "bind_quints e grinders _ _ w = Ok ()"

definition sweep_quint :: "env \<Rightarrow> pubkey \<Rightarrow> pubkey \<Rightarrow> pubkey \<Rightarrow> pubkey \<Rightarrow> world \<Rightarrow> world res" where
  "sweep_quint e asset_key vault grinders_ata mint w =
     and_then (load_asset_config e asset_key mint w) (\<lambda>asset.
     and_then (account (token_accounts (ledger w) vault)) (\<lambda>v.
     let sweepable = redeemable_balance (tk_amount v) (total_claimable asset) in
     if 0 < sweepable then transfer_from_vault e vault grinders_ata sweepable w else Ok w))"

fun sweep_quints :: "env \<Rightarrow> pubkey list \<Rightarrow> pubkey list \<Rightarrow> world \<Rightarrow> world res" where
  "sweep_quints e (a # mi # f # v # g # rest) (mint # ms) w =
     and_then (sweep_quint e a v g mint w) (sweep_quints e rest ms)"
| "sweep_quints e _ _ w = Ok w"

definition revive_unlock_at :: "GraiState \<Rightarrow> i64 res" where
  "revive_unlock_at s =
     ok_or (Option.bind (checked_sadd (liquidation_at s) (ucast (liquidation_period (gs_config s))))
              (\<lambda>v. checked_sadd v (ucast (redeem_period (gs_config s))))) MathOverflow"

definition execute_revive ::
  "env \<Rightarrow> pubkey \<Rightarrow> pubkey \<Rightarrow> pubkey \<Rightarrow> pubkey list \<Rightarrow> world \<Rightarrow> world res" where
  "execute_revive e grinders_state grinders_program grai_mint remaining w =
     and_then (accounts_Revive e grinders_state grai_mint w) (\<lambda>gm.
     let supply' = mi_supply gm; grinders = gs_grinders (grai_state w);
         ms = asset_mints (grai_state w) in
     and_then (require (length remaining = length ms * 5) InvalidRemainingAccounts) (\<lambda>_.
     and_then (bind_quints e grinders remaining ms w) (\<lambda>_.
     and_then (require (liquidation (grai_state w) \<and> liquidation_at (grai_state w) \<noteq> 0)
                 LiquidationClosed) (\<lambda>_.
     and_then (revive_unlock_at (grai_state w)) (\<lambda>unlock_at.
     and_then (require (sint unlock_at \<le> sint (unix_timestamp e)) RedeemPeriodActive) (\<lambda>_.
     and_then (sweep_quints e remaining ms w) (\<lambda>w.
     let w = upd_state (\<lambda>s. s\<lparr>total_value := (if supply' = 0 then 0 else total_value s),
                              liquidation := False, liquidation_at := 0\<rparr>) w in
     and_then (require (executable (ledger w) grinders_program) InvalidGrinders) (\<lambda>_.
     and_then (require (program_owner (ledger w) grinders_state = grinders_program) InvalidGrinders) (\<lambda>_.
     invoke (heartbeat_cpi e grinders_program grinders_state (gs_key e)) w)))))))))"

end
