(* ===== verification/Referral.thy ===== *)
theory Referral
  imports Liquidation
begin

text \<open>
  The referral books of the in-program treasury (\<open>treasury.rs\<close>): the sticky tree of referrers,
  the value credited along it on deposits and claims, the cashflow NFT of a locker, and the
  cycle check of new bindings. A book's account is the one derived from its locker, which
  every caller checks; the remaining accounts of an instruction are a list of keys.
\<close>

section \<open>Constants and small helpers\<close>

definition affiliate_claim_remaining_len :: "nat \<Rightarrow> nat" where
  "affiliate_claim_remaining_len levels = (if levels = 0 then 0 else levels * 3 + 1)"

definition DEFAULT_ROYALTY_BPS :: u16 where "DEFAULT_ROYALTY_BPS = 500"
definition DEFAULT_AFFILIATE_LEVELS :: u8 where "DEFAULT_AFFILIATE_LEVELS = 2"
definition DEFAULT_AFFILIATE_SHARE_BPS :: "u16 list" where
  "DEFAULT_AFFILIATE_SHARE_BPS = [8000, 2000]"

text \<open>\<open>native_mint::ID\<close> and \<open>token::ID\<close> of the SPL-token program.\<close>

definition native_mint_id :: pubkey where
  "native_mint_id = 0x69b8857feab8184fb687f634618c035dac439dc1aeb3b5598a0f00000000001"

definition token_program_id :: pubkey where
  "token_program_id = 0x6ddf6e1d765a193d9cbe146ceeb79ac1cb485ed5f5b37913a8cf5857eff00a9"

definition Referrer_LEN :: nat where
  "Referrer_LEN = 32 + 32 + 16 + 16 + 16 + 1"

definition Mint_LEN :: nat where "Mint_LEN = 82"

definition require_valid_referrer :: "env \<Rightarrow> pubkey \<Rightarrow> unit res" where
  "require_valid_referrer e account' =
     require (account' \<noteq> grai_program e \<and> account' \<noteq> gs_key e \<and> account' \<noteq> native_mint_id)
       InvalidReferrer"

definition store_referrer :: "pubkey \<Rightarrow> Referrer \<Rightarrow> world \<Rightarrow> world" where
  "store_referrer key book w = w\<lparr>books := (books w)(key \<mapsto> book)\<rparr>"

definition ensure_referrer_account ::
  "env \<Rightarrow> pubkey \<Rightarrow> pubkey \<Rightarrow> world \<Rightarrow> (Referrer \<times> bool \<times> world) res" where
  "ensure_referrer_account e key payer w =
     (case books w key of
        Some book \<Rightarrow> Ok (book, False, w)
      | None \<Rightarrow>
          let info = pda e (ReferrerSeed key); l = ledger w in
          and_then (require (data_len l info = 0 \<and>
                      (program_owner l info = system_program_id \<or> lamports l info = 0))
                     InvalidRemainingAccounts) (\<lambda>_.
          and_then (create_account_absorb_prefund e info payer (grai_program e) (8 + Referrer_LEN) w)
            (\<lambda>w. Ok (\<lparr> rf_referrer = default_pubkey, rf_nft_mint = default_pubkey, rf_value = 0,
                       rf_l1_value = 0, rf_l2_value = 0, rf_bump = pda_bump e (ReferrerSeed key) \<rparr>,
                     True, w))))"

definition register_referrer :: "env \<Rightarrow> pubkey \<Rightarrow> pubkey \<Rightarrow> world \<Rightarrow> world res" where
  "register_referrer e payer key w =
     (if key \<in> set (referrers (grai_state w)) then Ok w
      else
        and_then (realloc_grai_state e payer (grai_space (grai_state w) 0 0 1) w) (\<lambda>w.
        Ok (upd_state (referrers_update (\<lambda>rs. rs @ [key])) w)))"

section \<open>The cycle check\<close>

datatype LoopStatus = Loop_No | Loop_Yes | Loop_Incomplete

definition referrer_info :: "env \<Rightarrow> pubkey \<Rightarrow> pubkey list \<Rightarrow> pubkey option" where
  "referrer_info e key pool = List.find (\<lambda>info. info = pda e (ReferrerSeed key)) pool"

definition hop ::
  "env \<Rightarrow> pubkey \<Rightarrow> pubkey \<Rightarrow> pubkey \<Rightarrow> pubkey list \<Rightarrow> world \<Rightarrow> pubkey option \<times> LoopStatus" where
  "hop e cur locker to pool w =
     (case referrer_info e cur pool of
        None \<Rightarrow> (None, Loop_Incomplete)
      | Some info \<Rightarrow>
         (case books w cur of
            None \<Rightarrow> (None, Loop_No)
          | Some book \<Rightarrow>
              let next' = rf_referrer book in
              if next' = default_pubkey \<or> next' = cur then (None, Loop_No)
              else if next' = locker \<or> next' = to then (None, Loop_Yes)
              else (Some next', Loop_No)))"

text \<open>A hop that either stops the search with a status or moves on.\<close>

definition hop_or_stop ::
  "env \<Rightarrow> pubkey \<Rightarrow> pubkey \<Rightarrow> pubkey \<Rightarrow> pubkey list \<Rightarrow> world \<Rightarrow> LoopStatus + pubkey" where
  "hop_or_stop e cur locker to pool w =
     (case hop e cur locker to pool w of (next', status) \<Rightarrow>
        if status \<noteq> Loop_No then Inl status
        else (case next' of None \<Rightarrow> Inl Loop_No | Some n \<Rightarrow> Inr n))"

text \<open>The tortoise-and-hare loop, with fuel; \<open>None\<close> is fuel exhausted.\<close>

fun floyd ::
  "nat \<Rightarrow> env \<Rightarrow> pubkey \<Rightarrow> pubkey \<Rightarrow> pubkey list \<Rightarrow> world \<Rightarrow> pubkey \<Rightarrow> pubkey \<Rightarrow> LoopStatus option" where
  "floyd 0 e locker to pool w slow fast = None"
| "floyd (Suc n) e locker to pool w slow fast =
     (case hop_or_stop e slow locker to pool w of
        Inl status \<Rightarrow> Some status
      | Inr slow \<Rightarrow>
         (case hop_or_stop e fast locker to pool w of
            Inl status \<Rightarrow> Some status
          | Inr fast \<Rightarrow>
             (case hop_or_stop e fast locker to pool w of
                Inl status \<Rightarrow> Some status
              | Inr fast \<Rightarrow>
                  if slow = fast then Some Loop_Yes
                  else floyd n e locker to pool w slow fast)))"

text \<open>
  One more round than the pool has accounts. Running out would be the runtime aborting the
  instruction for its compute budget; \<open>has_referral_loop_terminates\<close> shows it cannot happen.
\<close>

definition has_referral_loop ::
  "env \<Rightarrow> pubkey \<Rightarrow> pubkey \<Rightarrow> pubkey list \<Rightarrow> world \<Rightarrow> LoopStatus res" where
  "has_referral_loop e locker to pool w =
     (if to = locker then Ok Loop_No else cpi (floyd (Suc (length pool)) e locker to pool w to to))"

section \<open>Crediting the books\<close>

text \<open>The walk of \<open>credit_books\<close> over the levels above the locker.\<close>

fun credit_walk ::
  "env \<Rightarrow> pubkey \<Rightarrow> u128 \<Rightarrow> pubkey list \<Rightarrow> bool \<Rightarrow> nat \<Rightarrow> nat \<Rightarrow> pubkey \<Rightarrow> world \<Rightarrow> world res" where
  "credit_walk e locker v remaining require_ancestors level 0 ref_key w = Ok w"
| "credit_walk e locker v remaining require_ancestors level (Suc n) ref_key w =
     (if ref_key = default_pubkey \<or> ref_key = locker then Ok w
      else
        case referrer_info e ref_key remaining of
          None \<Rightarrow> and_then (require (\<not> require_ancestors) InvalidRemainingAccounts) (\<lambda>_. Ok w)
        | Some info \<Rightarrow>
           (case books w ref_key of
              None \<Rightarrow> and_then (require (\<not> require_ancestors) InvalidRemainingAccounts) (\<lambda>_. Ok w)
            | Some up \<Rightarrow>
                and_then (if level = 0
                          then and_then (ok_or (checked_add (rf_l1_value up) v) MathOverflow)
                                 (\<lambda>x. Ok (up\<lparr>rf_l1_value := x\<rparr>))
                          else if level = 1
                          then and_then (ok_or (checked_add (rf_l2_value up) v) MathOverflow)
                                 (\<lambda>x. Ok (up\<lparr>rf_l2_value := x\<rparr>))
                          else Ok up) (\<lambda>up.
                let next' = rf_referrer up; w = store_referrer ref_key up w in
                if next' = ref_key then Ok w
                else credit_walk e locker v remaining require_ancestors (Suc level) n next' w)))"

definition credit_books ::
  "env \<Rightarrow> pubkey \<Rightarrow> u128 \<Rightarrow> u8 \<Rightarrow> pubkey list \<Rightarrow> bool \<Rightarrow> world \<Rightarrow> world res" where
  "credit_books e locker v levels remaining require_ancestors w =
     (if v = 0 then Ok w
      else
        case books w locker of
          None \<Rightarrow> and_then (require (\<not> require_ancestors) InvalidRemainingAccounts) (\<lambda>_. Ok w)
        | Some book \<Rightarrow>
            and_then (ok_or (checked_add (rf_value book) v) MathOverflow) (\<lambda>x.
            credit_walk e locker v remaining require_ancestors 0 (unat levels) (rf_referrer book)
              (store_referrer locker (book\<lparr>rf_value := x\<rparr>) w)))"

section \<open>The cashflow NFT\<close>

definition require_locker_nft_ata :: "env \<Rightarrow> pubkey \<Rightarrow> pubkey \<Rightarrow> pubkey \<Rightarrow> bool \<Rightarrow> world \<Rightarrow> unit res" where
  "require_locker_nft_ata e nft_ata locker mint require_held w =
     and_then (require (nft_ata = ata e locker mint) InvalidDestination) (\<lambda>_.
     if data_len (ledger w) nft_ata = 0
     then require (\<not> require_held) InvalidDestination
     else
       and_then (ok_or (token_accounts (ledger w) nft_ata) InvalidDestination) (\<lambda>a.
       and_then (require (tk_mint a = mint) InvalidDestination) (\<lambda>_.
       and_then (require (tk_owner a = locker) InvalidDestination) (\<lambda>_.
       if require_held then require (1 \<le> tk_amount a) InvalidAmount else Ok ()))))"

text \<open>\<open>mint_treasury_nft\<close> of \<open>metadata.rs\<close>: one token, its metadata, and the master edition.\<close>

definition treasury_royalty_creators :: "pubkey \<Rightarrow> pubkey \<Rightarrow> (pubkey \<times> bool) option" where
  "treasury_royalty_creators payee update_authority = Some (payee, payee = update_authority)"

definition mint_treasury_nft :: "env \<Rightarrow> pubkey \<Rightarrow> pubkey \<Rightarrow> pubkey \<Rightarrow> world \<Rightarrow> world res" where
  "mint_treasury_nft e mint nft_ata payer w =
     (let s = grai_state w in
      and_then (invoke (spl_mint_to e mint nft_ata (gs_key e) 1) w) (\<lambda>w.
      and_then (invoke (create_metadata e mint payer (royalty_bps s)
                  (treasury_royalty_creators (gs_beneficiar s) (gs_key e))) w) (\<lambda>w.
      invoke (create_master_edition e mint payer) w)))"

text \<open>The NFT mint exists after this; \<open>True\<close> if the token was minted before.\<close>

definition ensure_nft_mint :: "env \<Rightarrow> pubkey \<Rightarrow> pubkey \<Rightarrow> pubkey \<Rightarrow> pubkey \<Rightarrow> world \<Rightarrow> (bool \<times> world) res" where
  "ensure_nft_mint e locker nft_mint nft_ata payer w =
     (if data_len (ledger w) nft_mint = 0
      then
        and_then (create_account_absorb_prefund e nft_mint payer token_program_id Mint_LEN w) (\<lambda>w.
        and_then (invoke (spl_initialize_mint2 e nft_mint 0 (gs_key e)) w) (\<lambda>w.
        Ok (False, w)))
      else
        and_then (ok_or (mints (ledger w) nft_mint) InvalidMint) (\<lambda>m.
        if 1 \<le> mi_supply m
        then and_then (require_locker_nft_ata e nft_ata locker nft_mint True w) (\<lambda>_. Ok (True, w))
        else Ok (False, w)))"

definition ensure_treasury_nft ::
  "env \<Rightarrow> pubkey \<Rightarrow> pubkey \<Rightarrow> pubkey \<Rightarrow> pubkey \<Rightarrow> Referrer \<Rightarrow> world \<Rightarrow> (Referrer \<times> world) res" where
  "ensure_treasury_nft e locker nft_mint nft_ata payer book w =
     (if rf_nft_mint book \<noteq> default_pubkey then Ok (book, w)
      else
        and_then (require (nft_mint = pda e (TreasuryNftSeed locker)) InvalidMint) (\<lambda>_.
        and_then (require_locker_nft_ata e nft_ata locker nft_mint False w) (\<lambda>_.
        and_then (ensure_nft_mint e locker nft_mint nft_ata payer w) (\<lambda>(minted, w).
        and_then (if minted then Ok w
                  else
                    and_then (if data_len (ledger w) nft_ata = 0
                              then invoke (spl_init_account e payer nft_ata nft_mint locker) w
                              else Ok w) (\<lambda>w.
                    and_then (mint_treasury_nft e nft_mint nft_ata payer w) (\<lambda>w.
                    and_then (require_locker_nft_ata e nft_ata locker nft_mint True w) (\<lambda>_.
                    Ok w)))) (\<lambda>w.
        let book = book\<lparr>rf_nft_mint := nft_mint\<rparr> in
        Ok (book, store_referrer locker book w))))))"

section \<open>Binding a locker to its referrer\<close>

text \<open>The referrer a first deposit binds: the cycle check falls back to the locker itself.\<close>

definition choose_referrer ::
  "env \<Rightarrow> pubkey \<Rightarrow> pubkey \<Rightarrow> pubkey list \<Rightarrow> world \<Rightarrow> pubkey res" where
  "choose_referrer e locker referrer remaining w =
     (if referrer = default_pubkey then Ok locker
      else if referrer \<noteq> locker then
        and_then (require_valid_referrer e referrer) (\<lambda>_.
        and_then (has_referral_loop e locker referrer remaining w) (\<lambda>status.
        case status of
          Loop_Incomplete \<Rightarrow> Err InvalidRemainingAccounts
        | Loop_Yes \<Rightarrow> Ok locker
        | Loop_No \<Rightarrow> Ok referrer))
      else Ok referrer)"

text \<open>The referrer's own book is created if needed, and takes over the locker's direct value.\<close>

definition open_referrer_book ::
  "env \<Rightarrow> pubkey \<Rightarrow> u128 \<Rightarrow> u8 \<Rightarrow> pubkey \<Rightarrow> pubkey list \<Rightarrow> world \<Rightarrow> world res" where
  "open_referrer_book e referrer l1_value levels payer remaining w =
     and_then (ok_or (referrer_info e referrer remaining) InvalidRemainingAccounts) (\<lambda>referrer_ai.
     and_then (require (referrer_ai = pda e (ReferrerSeed referrer)) InvalidRemainingAccounts) (\<lambda>_.
     and_then (ensure_referrer_account e referrer payer w) (\<lambda>(referrer_book, referrer_new, w).
     and_then (if referrer_new then register_referrer e payer referrer w else Ok w) (\<lambda>w.
     and_then (if 1 < levels \<and> 0 < l1_value
               then and_then (ok_or (checked_add (rf_l2_value referrer_book) l1_value) MathOverflow)
                      (\<lambda>x. Ok (referrer_book\<lparr>rf_l2_value := x\<rparr>))
               else Ok referrer_book) (\<lambda>referrer_book.
     Ok (store_referrer referrer referrer_book w))))))"

definition bind_referrer ::
  "env \<Rightarrow> pubkey \<Rightarrow> pubkey \<Rightarrow> u8 \<Rightarrow> pubkey \<Rightarrow> pubkey list \<Rightarrow> Referrer \<Rightarrow> world \<Rightarrow> (Referrer \<times> world) res" where
  "bind_referrer e locker referrer levels payer remaining book w =
     (if rf_referrer book \<noteq> default_pubkey then Ok (book, w)
      else
        and_then (choose_referrer e locker referrer remaining w) (\<lambda>referrer.
        let book = book\<lparr>rf_referrer := referrer\<rparr> in
        and_then (if referrer \<noteq> locker
                  then open_referrer_book e referrer (rf_l1_value book) levels payer remaining w
                  else Ok w) (\<lambda>w.
        Ok (book, w))))"

definition mint_referrer ::
  "env \<Rightarrow> pubkey \<Rightarrow> pubkey \<Rightarrow> u128 \<Rightarrow> u8 \<Rightarrow> pubkey \<Rightarrow> pubkey list \<Rightarrow> pubkey \<Rightarrow> pubkey \<Rightarrow> world \<Rightarrow> world res" where
  "mint_referrer e locker referrer v levels payer remaining nft_mint nft_ata w =
     and_then (ensure_referrer_account e locker payer w) (\<lambda>(book, locker_new, w).
     and_then (if locker_new then register_referrer e payer locker w else Ok w) (\<lambda>w.
     and_then (bind_referrer e locker referrer levels payer remaining book w) (\<lambda>(book, w).
     and_then (ensure_treasury_nft e locker nft_mint nft_ata payer book w) (\<lambda>(book, w).
     let w = store_referrer locker book w in
     if 0 < v then credit_books e locker v levels remaining True w else Ok w))))"

end
