(* ===== verification/Poach.thy ===== *)
theory Poach
  imports Referral
begin

text \<open>
  Buying a locker's referral slot (\<open>preview_poach\<close>, \<open>execute_poach\<close> of \<open>treasury.rs\<close>, with
  the checks of \<open>Poach\<close>), the treasury's settings and its vaults.
\<close>

section \<open>Quote\<close>

record PoachQuote =
  pq_price :: u64
  pq_referrer :: pubkey

definition preview_poach :: "Referrer \<Rightarrow> pubkey \<Rightarrow> (u64 \<times> pubkey) res" where
  "preview_poach book poacher =
     and_then (require (rf_referrer book \<noteq> default_pubkey) ZeroAddress) (\<lambda>_.
     and_then (require (poacher \<noteq> rf_referrer book) AlreadyBound) (\<lambda>_.
     and_then (ok_or (checked_add (rf_value book) (rf_l1_value book)) MathOverflow) (\<lambda>price.
     and_then (require (price \<le> ucast u64_max) MathOverflow) (\<lambda>_.
     and_then (require (0 < price) InvalidAmount) (\<lambda>_.
     Ok (ucast price, rf_referrer book))))))"

text \<open>The locker's book account with its \<open>bump\<close> constraint.\<close>

definition check_referrer :: "env \<Rightarrow> pubkey \<Rightarrow> world \<Rightarrow> Referrer res" where
  "check_referrer e locker w =
     and_then (account (books w locker)) (\<lambda>b.
     and_then (constraint (rf_bump b = pda_bump e (ReferrerSeed locker))) (\<lambda>_.
     Ok b))"

definition execute_preview_poach :: "env \<Rightarrow> pubkey \<Rightarrow> pubkey \<Rightarrow> world \<Rightarrow> PoachQuote res" where
  "execute_preview_poach e poacher locker w =
     and_then (check_referrer e locker w) (\<lambda>book.
     and_then (preview_poach book poacher) (\<lambda>(price, referrer).
     Ok \<lparr> pq_price = price, pq_referrer = referrer \<rparr>))"

section \<open>\<open>poach\<close>\<close>

text \<open>The accounts of a poach that are keys chosen by the caller.\<close>

record poach_accounts =
  pa_poacher :: pubkey
  pa_locker :: pubkey
  pa_buyer_book :: pubkey
  pa_seller_book :: pubkey
  pa_old_l2_book :: pubkey
  pa_new_l2_book :: pubkey
  pa_grai_mint :: pubkey
  pa_poacher_grai_ata :: pubkey
  pa_seller_grai_ata :: pubkey
  pa_grinders_state :: pubkey

definition accounts_Poach ::
  "env \<Rightarrow> poach_accounts \<Rightarrow> world \<Rightarrow> (Referrer \<times> TokenAccount \<times> TokenAccount \<times> world) res" where
  "accounts_Poach e pa w =
     and_then (check_grai_state e w) (\<lambda>_.
     and_then (check_referrer e (pa_locker pa) w) (\<lambda>book.
     and_then (check_grai_mint e (pa_grai_mint pa) w) (\<lambda>_.
     and_then (check_token_account (pa_poacher_grai_ata pa) (pa_grai_mint pa) (pa_poacher pa)
                 InvalidDepositSource w) (\<lambda>source.
     and_then (check_vault e (pa_seller_grai_ata pa) (pa_grai_mint pa) w) (\<lambda>seller_ata.
     and_then (require (pa_grinders_state pa = gs_grinders (grai_state w)) InvalidGrinders) (\<lambda>_.
     and_then (init_token_if_needed e (pa_poacher pa) (ata e (pa_grinders_state pa) (pa_grai_mint pa))
                 (pa_grai_mint pa) (pa_grinders_state pa) w) (\<lambda>w.
     Ok (book, source, seller_ata, w))))))))"

text \<open>A book of the affected ones: created and registered if it is new.\<close>

definition ensure_book :: "env \<Rightarrow> pubkey \<Rightarrow> pubkey \<Rightarrow> pubkey \<Rightarrow> world \<Rightarrow> (Referrer \<times> world) res" where
  "ensure_book e book_key key payer w =
     and_then (require (book_key = pda e (ReferrerSeed key)) InvalidRemainingAccounts) (\<lambda>_.
     and_then (ensure_referrer_account e key payer w) (\<lambda>(book, is_new, w).
     and_then (if is_new then register_referrer e payer key w else Ok w) (\<lambda>w.
     Ok (book, w))))"

text \<open>The seller gives up the locker's value, and the seller's own referrer the second level.\<close>

definition debit_old_l2 ::
  "env \<Rightarrow> poach_accounts \<Rightarrow> bool \<Rightarrow> pubkey \<Rightarrow> pubkey \<Rightarrow> u128 \<Rightarrow> world \<Rightarrow> world res" where
  "debit_old_l2 e pa shift_l2 seller old_l2 own w =
     (if shift_l2 \<and> old_l2 \<noteq> default_pubkey \<and> old_l2 \<noteq> seller \<and> old_l2 \<noteq> pa_locker pa
      then
        and_then (ensure_book e (pa_old_l2_book pa) old_l2 (pa_poacher pa) w) (\<lambda>(old_book, w).
        and_then (ok_or (checked_sub (rf_l2_value old_book) own) MathOverflow) (\<lambda>x.
        Ok (store_referrer old_l2 (old_book\<lparr>rf_l2_value := x\<rparr>) w)))
      else Ok w)"

definition debit_seller ::
  "env \<Rightarrow> poach_accounts \<Rightarrow> bool \<Rightarrow> pubkey \<Rightarrow> u128 \<Rightarrow> u128 \<Rightarrow> world \<Rightarrow> world res" where
  "debit_seller e pa shift_l2 seller own direct w =
     (if seller = pa_locker pa then Ok w
      else
        and_then (ensure_book e (pa_seller_book pa) seller (pa_poacher pa) w) (\<lambda>(book, w).
        and_then (ok_or (checked_sub (rf_l1_value book) own) MathOverflow) (\<lambda>x.
        let book = book\<lparr>rf_l1_value := x\<rparr> in
        and_then (if shift_l2
                  then and_then (ok_or (checked_sub (rf_l2_value book) direct) MathOverflow)
                         (\<lambda>x. Ok (book\<lparr>rf_l2_value := x\<rparr>))
                  else Ok book) (\<lambda>book.
        debit_old_l2 e pa shift_l2 seller (rf_referrer book) own (store_referrer seller book w)))))"

text \<open>
  The buyer takes them over and the sticky link moves. The locker's book is written back
  when the instruction returns; no step after it is loaded touches that account.
\<close>

definition credit_buyer ::
  "env \<Rightarrow> poach_accounts \<Rightarrow> bool \<Rightarrow> Referrer \<Rightarrow> u128 \<Rightarrow> u128 \<Rightarrow> world \<Rightarrow> (pubkey \<times> world) res" where
  "credit_buyer e pa shift_l2 locker_book own direct w =
     (let poacher = pa_poacher pa; locker = pa_locker pa;
          rebound = locker_book\<lparr>rf_referrer := poacher\<rparr> in
      if poacher = locker
      then
        and_then (require (pa_buyer_book pa = pda e (ReferrerSeed locker)) InvalidRemainingAccounts)
          (\<lambda>_. Ok (default_pubkey, store_referrer locker rebound w))
      else
        and_then (ensure_book e (pa_buyer_book pa) poacher poacher w) (\<lambda>(buyer, w).
        and_then (ok_or (checked_add (rf_l1_value buyer) own) MathOverflow) (\<lambda>x.
        let buyer = buyer\<lparr>rf_l1_value := x\<rparr> in
        and_then (if shift_l2
                  then and_then (ok_or (checked_add (rf_l2_value buyer) direct) MathOverflow)
                         (\<lambda>x. Ok (buyer\<lparr>rf_l2_value := x\<rparr>))
                  else Ok buyer) (\<lambda>buyer.
        Ok (rf_referrer buyer, store_referrer locker rebound (store_referrer poacher buyer w))))))"

definition credit_new_l2 ::
  "env \<Rightarrow> poach_accounts \<Rightarrow> bool \<Rightarrow> pubkey \<Rightarrow> u128 \<Rightarrow> world \<Rightarrow> world res" where
  "credit_new_l2 e pa shift_l2 new_l2 own w =
     (if shift_l2 \<and> new_l2 \<noteq> default_pubkey \<and> new_l2 \<noteq> pa_poacher pa \<and> new_l2 \<noteq> pa_locker pa
      then
        and_then (ensure_book e (pa_new_l2_book pa) new_l2 (pa_poacher pa) w) (\<lambda>(new_book, w).
        and_then (ok_or (checked_add (rf_l2_value new_book) own) MathOverflow) (\<lambda>x.
        Ok (store_referrer new_l2 (new_book\<lparr>rf_l2_value := x\<rparr>) w)))
      else Ok w)"

text \<open>The gates of \<open>execute_poach\<close> before any payment: price and seller.\<close>

definition poach_gates ::
  "env \<Rightarrow> poach_accounts \<Rightarrow> pubkey list \<Rightarrow> Referrer \<Rightarrow> TokenAccount \<Rightarrow> TokenAccount \<Rightarrow> world \<Rightarrow>
   (u64 \<times> pubkey) res" where
  "poach_gates e pa remaining book source seller_ata w =
     (let locker = pa_locker pa; poacher = pa_poacher pa in
      and_then (require (\<not> liquidation (grai_state w)) LiquidationOpen) (\<lambda>_.
      and_then (preview_poach book poacher) (\<lambda>(price, seller).
      and_then (if poacher = locker then require (seller \<noteq> locker) AlreadyBound else Ok ()) (\<lambda>_.
      and_then (require (price \<le> tk_amount source) InvalidAmount) (\<lambda>_.
      and_then (if poacher \<noteq> locker then require_valid_referrer e poacher else Ok ()) (\<lambda>_.
      let pool = remaining @ [pa_buyer_book pa, pa_seller_book pa, pa_old_l2_book pa,
                   pa_new_l2_book pa, pda e (ReferrerSeed locker)] in
      and_then (has_referral_loop e locker poacher pool w) (\<lambda>status.
      and_then (case status of Loop_No \<Rightarrow> Ok () | Loop_Yes \<Rightarrow> Err ReferralLoop
                | Loop_Incomplete \<Rightarrow> Err InvalidRemainingAccounts) (\<lambda>_.
      and_then (require (tk_owner seller_ata = seller) InvalidDestination) (\<lambda>_.
      Ok (price, seller))))))))))"

definition pay_poach :: "env \<Rightarrow> poach_accounts \<Rightarrow> u64 \<Rightarrow> world \<Rightarrow> world res" where
  "pay_poach e pa price w =
     (let source = pa_poacher_grai_ata pa in
      and_then (account (token_accounts (ledger w) (ata e (pa_grinders_state pa) (pa_grai_mint pa)))) (\<lambda>g.
      and_then (require (tk_owner g = pa_grinders_state pa) InvalidDestination) (\<lambda>_.
      and_then (bps_ceil price (poach_fee_bps (gs_config (grai_state w)))) (\<lambda>fee.
      and_then (ok_or (checked_sub price fee) MathOverflow) (\<lambda>to_referrer.
      and_then (if 0 < to_referrer
                then invoke (spl_transfer e source (pa_seller_grai_ata pa) (pa_poacher pa) to_referrer) w
                else Ok w) (\<lambda>w.
      if 0 < fee
      then invoke (spl_transfer e source (ata e (pa_grinders_state pa) (pa_grai_mint pa))
                     (pa_poacher pa) fee) w
      else Ok w))))))"

definition execute_poach :: "env \<Rightarrow> poach_accounts \<Rightarrow> pubkey list \<Rightarrow> world \<Rightarrow> world res" where
  "execute_poach e pa remaining w =
     and_then (accounts_Poach e pa w) (\<lambda>(book, source, seller_ata, w).
     and_then (poach_gates e pa remaining book source seller_ata w) (\<lambda>(price, seller).
     and_then (pay_poach e pa price w) (\<lambda>w.
     let own = rf_value book; direct = rf_l1_value book;
         shift_l2 = (1 < affiliate_levels (grai_state w)) in
     and_then (require (pa_buyer_book pa = pda e (ReferrerSeed (pa_poacher pa)))
                 InvalidRemainingAccounts) (\<lambda>_.
     and_then (debit_seller e pa shift_l2 seller own direct w) (\<lambda>w.
     and_then (credit_buyer e pa shift_l2 book own direct w) (\<lambda>(new_l2, w).
     credit_new_l2 e pa shift_l2 new_l2 own w))))))"

section \<open>Settings\<close>

text \<open>\<open>has_one = owner @ Unauthorized\<close> on the program state.\<close>

definition check_owner :: "env \<Rightarrow> pubkey \<Rightarrow> world \<Rightarrow> unit res" where
  "check_owner e owner w =
     and_then (check_grai_state e w) (\<lambda>_.
     require (gs_owner (grai_state w) = owner) Unauthorized)"

definition execute_set_beneficiar :: "env \<Rightarrow> pubkey \<Rightarrow> pubkey \<Rightarrow> world \<Rightarrow> world res" where
  "execute_set_beneficiar e owner beneficiar w =
     and_then (check_owner e owner w) (\<lambda>_.
     and_then (require (\<not> liquidation (grai_state w)) LiquidationOpen) (\<lambda>_.
     and_then (require (beneficiar \<noteq> default_pubkey) ZeroAddress) (\<lambda>_.
     Ok (upd_state (gs_beneficiar_update (\<lambda>_. beneficiar)) w))))"

definition execute_set_royalty_bps :: "env \<Rightarrow> pubkey \<Rightarrow> u16 \<Rightarrow> world \<Rightarrow> world res" where
  "execute_set_royalty_bps e owner bps w =
     and_then (check_owner e owner w) (\<lambda>_.
     and_then (require (\<not> liquidation (grai_state w)) LiquidationOpen) (\<lambda>_.
     and_then (require (bps \<le> BPS) BpsTooHigh) (\<lambda>_.
     Ok (upd_state (royalty_bps_update (\<lambda>_. bps)) w))))"

text \<open>The \<open>u32\<close> sum of two \<open>u16\<close> shares cannot overflow.\<close>

definition execute_set_revenue_share_bps :: "env \<Rightarrow> pubkey \<Rightarrow> u16 list \<Rightarrow> world \<Rightarrow> world res" where
  "execute_set_revenue_share_bps e owner shares w =
     and_then (check_owner e owner w) (\<lambda>_.
     and_then (require (\<not> liquidation (grai_state w)) LiquidationOpen) (\<lambda>_.
     and_then (require (length shares = 2) InvalidShares) (\<lambda>_.
     and_then (require (sum_list (map ucast shares) = (ucast BPS :: u32)) InvalidShares) (\<lambda>_.
     Ok (upd_state (\<lambda>s. s\<lparr>affiliate_share_bps := shares, affiliate_levels := 2\<rparr>) w)))))"

definition royalty_info :: "world \<Rightarrow> u64 \<Rightarrow> (pubkey \<times> u64) res" where
  "royalty_info w sale_price =
     and_then (bps_of sale_price (royalty_bps (grai_state w))) (\<lambda>r.
     Ok (gs_beneficiar (grai_state w), r))"

section \<open>Treasury vaults\<close>

definition TokenAccount_LEN :: nat where "TokenAccount_LEN = 165"

text \<open>\<open>ensure_vault\<close> (\<open>assets.rs\<close>) and \<open>ensure_treasury_vault\<close> differ only in the address.\<close>

definition ensure_program_vault :: "env \<Rightarrow> pubkey \<Rightarrow> pubkey \<Rightarrow> pubkey \<Rightarrow> world \<Rightarrow> world res" where
  "ensure_program_vault e vault mint payer w =
     (case token_accounts (ledger w) vault of
        Some a \<Rightarrow>
          and_then (require (tk_mint a = mint) InvalidDestination) (\<lambda>_.
          and_then (require (tk_owner a = gs_key e) InvalidDestination) (\<lambda>_.
          Ok w))
      | None \<Rightarrow>
          and_then (create_account_absorb_prefund e vault payer token_program_id TokenAccount_LEN w) (\<lambda>w.
          invoke (spl_initialize_account3 e vault mint (gs_key e)) w))"

definition ensure_treasury_vault :: "env \<Rightarrow> pubkey \<Rightarrow> pubkey \<Rightarrow> world \<Rightarrow> world res" where
  "ensure_treasury_vault e mint payer w = ensure_program_vault e (treasury_key e mint) mint payer w"

definition close_treasury_vault_if_empty :: "env \<Rightarrow> pubkey \<Rightarrow> pubkey \<Rightarrow> world \<Rightarrow> world res" where
  "close_treasury_vault_if_empty e vault destination w =
     (case token_accounts (ledger w) vault of
        None \<Rightarrow> Ok w
      | Some a \<Rightarrow>
          and_then (require (tk_amount a = 0) AssetBalanceNonZero) (\<lambda>_.
          invoke (spl_close_account e vault destination (gs_key e)) w))"

end
