(* ===== verification/Grai_Config.thy ===== *)
theory Grai_Config
  imports Poach Ownable
begin

text \<open>
  Setting the protocol up and its settings (\<open>config.rs\<close>) with the account checks of
  \<open>Initialize\<close>, \<open>SetGrinders\<close>, \<open>SetConfig\<close>, \<open>TransferOwnership\<close> and \<open>AcceptOwnership\<close>, and
  \<open>create_grai_metadata\<close> of \<open>metadata.rs\<close>. The two-step ownership contract is interpreted.
\<close>

section \<open>\<open>initialize\<close>\<close>

definition GraiState_DECIMALS :: u8 where "GraiState_DECIMALS = 6"

text \<open>\<open>pubkey!("7W9uhZZvmHSyhRmdDRnbZPZfaUdJaMbGMWsBLjSRWT5v")\<close>\<close>

definition GRINDERS_PROGRAM_ID :: pubkey where
  "GRINDERS_PROGRAM_ID = 0x609e09bb8a33b5fa654563f31769c60b2586648e62e6f216fb1e28a3aeaf936d"

definition GRINDERS_STATE_GRAI_PROGRAM_OFFSET :: nat where
  "GRINDERS_STATE_GRAI_PROGRAM_OFFSET = 8 + 32 + 32"

text \<open>The share token's metadata carries no royalty and no creators.\<close>

definition create_grai_metadata :: "env \<Rightarrow> pubkey \<Rightarrow> pubkey \<Rightarrow> world \<Rightarrow> world res" where
  "create_grai_metadata e grai_mint payer w = invoke (create_metadata e grai_mint payer 0 None) w"

definition initial_grai_state :: "env \<Rightarrow> pubkey \<Rightarrow> pubkey \<Rightarrow> GraiState" where
  "initial_grai_state e owner grai_mint =
     \<lparr> gs_owner = owner, gs_pending_owner = default_pubkey, gs_beneficiar = owner,
       gs_grinders = owner, total_value = 0, total_locked = 0, total_voted = 0,
       liquidation = False, liquidation_at = 0, mint_premium_at = unix_timestamp e,
       gs_grai_mint = grai_mint, gs_config = default_protocol_config,
       royalty_bps = DEFAULT_ROYALTY_BPS, affiliate_levels = DEFAULT_AFFILIATE_LEVELS,
       affiliate_share_bps = DEFAULT_AFFILIATE_SHARE_BPS, asset_mints = [], lockers = [],
       voters = [], referrers = [], gs_bump = pda_bump e GraiStateSeed \<rparr>"

text \<open>\<open>init\<close> of the state account and of the share mint, whose authority is the state account.\<close>

definition accounts_Initialize :: "env \<Rightarrow> pubkey \<Rightarrow> pubkey \<Rightarrow> world \<Rightarrow> world res" where
  "accounts_Initialize e owner grai_mint w =
     and_then (invoke (anchor_init e owner (gs_key e) (GraiState_space 0 0 0 0)) w) (\<lambda>w.
     and_then (invoke (anchor_init e owner grai_mint Mint_LEN) w) (\<lambda>w.
     invoke (spl_initialize_mint2 e grai_mint GraiState_DECIMALS (gs_key e)) w))"

definition execute_initialize :: "env \<Rightarrow> pubkey \<Rightarrow> pubkey \<Rightarrow> world \<Rightarrow> world res" where
  "execute_initialize e owner grai_mint w =
     and_then (accounts_Initialize e owner grai_mint w) (\<lambda>w.
     create_grai_metadata e grai_mint owner
       (w\<lparr>grai_state := initial_grai_state e owner grai_mint\<rparr>))"

section \<open>Settings\<close>

text \<open>\<open>Pubkey::new_from_array\<close>, most significant byte first.\<close>

definition pubkey_of_bytes :: "u8 list \<Rightarrow> pubkey" where
  "pubkey_of_bytes = foldl (\<lambda>k b. k * 256 + ucast b) 0"

definition execute_set_grinders :: "env \<Rightarrow> pubkey \<Rightarrow> pubkey \<Rightarrow> pubkey \<Rightarrow> world \<Rightarrow> world res" where
  "execute_set_grinders e owner grinders_state grinders w =
     and_then (check_owner e owner w) (\<lambda>_.
     and_then (require (\<not> liquidation (grai_state w)) LiquidationOpen) (\<lambda>_.
     and_then (require (grinders \<noteq> default_pubkey) InvalidGrinders) (\<lambda>_.
     and_then (require (grinders_state = grinders) InvalidGrinders) (\<lambda>_.
     and_then (require (program_owner (ledger w) grinders_state = GRINDERS_PROGRAM_ID)
                 InvalidGrinders) (\<lambda>_.
     let data = raw_data (ledger w) grinders_state in
     and_then (require (GRINDERS_STATE_GRAI_PROGRAM_OFFSET + 32 \<le> length data) InvalidGrinders) (\<lambda>_.
     let linked = pubkey_of_bytes (slice GRINDERS_STATE_GRAI_PROGRAM_OFFSET
                    (GRINDERS_STATE_GRAI_PROGRAM_OFFSET + 32) data) in
     and_then (require (linked = grai_program e) GrindersGraiMismatch) (\<lambda>_.
     Ok (upd_state (gs_grinders_update (\<lambda>_. grinders)) w))))))))"

definition execute_set_config :: "env \<Rightarrow> pubkey \<Rightarrow> Config \<Rightarrow> world \<Rightarrow> world res" where
  "execute_set_config e owner cfg w =
     and_then (check_owner e owner w) (\<lambda>_.
     and_then (require (\<not> liquidation (grai_state w)) LiquidationOpen) (\<lambda>_.
     let old = gs_config (grai_state w) in
     and_then (require (dividend_cut_bps cfg = dividend_cut_bps old \<and>
                        treasury_cut_bps cfg = treasury_cut_bps old) InvalidCuts) (\<lambda>_.
     and_then (validate_protocol_config cfg) (\<lambda>_.
     Ok (upd_state (gs_config_update (\<lambda>_. cfg)) w)))))"

section \<open>Ownership\<close>

definition execute_transfer_ownership :: "env \<Rightarrow> pubkey \<Rightarrow> pubkey \<Rightarrow> world \<Rightarrow> world res" where
  "execute_transfer_ownership e owner new_owner w =
     and_then (check_owner e owner w) (\<lambda>_.
     and_then (require (new_owner \<noteq> owner) InvalidPendingOwner) (\<lambda>_.
     Ok (upd_state (gs_pending_owner_update (\<lambda>_. new_owner)) w)))"

definition accounts_AcceptOwnership :: "env \<Rightarrow> pubkey \<Rightarrow> world \<Rightarrow> unit res" where
  "accounts_AcceptOwnership e pending_owner w =
     and_then (check_grai_state e w) (\<lambda>_.
     and_then (require (gs_pending_owner (grai_state w) = pending_owner) Unauthorized) (\<lambda>_.
     require (gs_pending_owner (grai_state w) \<noteq> default_pubkey) Unauthorized))"

definition execute_accept_ownership :: "env \<Rightarrow> pubkey \<Rightarrow> world \<Rightarrow> world res" where
  "execute_accept_ownership e pending_owner w =
     and_then (accounts_AcceptOwnership e pending_owner w) (\<lambda>_.
     Ok (upd_state (\<lambda>s. s\<lparr>gs_owner := pending_owner, gs_pending_owner := default_pubkey\<rparr>) w))"

interpretation grai_own: ownable2step "\<lambda>w. gs_owner (grai_state w)"
  "\<lambda>w. gs_pending_owner (grai_state w)" "execute_transfer_ownership e" "execute_accept_ownership e" for e
  by unfold_locales
    (auto simp: execute_transfer_ownership_def execute_accept_ownership_def check_owner_def
      accounts_AcceptOwnership_def upd_state_def step_iffs)

end
