(* ===== verification/Assets.thy ===== *)
theory Assets
  imports Grai_Config
begin

text \<open>
  The asset registry (\<open>assets.rs\<close>) with the checks of \<open>SetFeed\<close> and \<open>SetBribeable\<close>: the
  \<open>set_feed\<close> waterfall lists, pauses, re-feeds and delists a mint.
\<close>

definition AssetConfig_LEN :: nat where
  "AssetConfig_LEN = 32 + 32 + 1 + 1 + 4 + 16 + 8 + 8 + 1 + 32"

text \<open>The system program's key is the default key.\<close>

definition is_feed_none :: "pubkey \<Rightarrow> bool" where
  "is_feed_none feed \<longleftrightarrow> feed = system_program_id \<or> feed = default_pubkey"

text \<open>The accounts of \<open>set_feed\<close> whose keys the caller chooses.\<close>

record feed_accounts =
  fa_owner :: pubkey
  fa_asset_mint :: pubkey
  fa_asset_config :: pubkey
  fa_vault_ata :: pubkey
  fa_price_feed :: pubkey
  fa_moved_asset_config :: pubkey

definition accounts_SetFeed :: "env \<Rightarrow> feed_accounts \<Rightarrow> world \<Rightarrow> Mint res" where
  "accounts_SetFeed e fa w =
     and_then (account (mints (ledger w) (fa_asset_mint fa))) (\<lambda>m.
     and_then (check_owner e (fa_owner fa) w) (\<lambda>_.
     Ok m))"

text \<open>The configuration behind a key already required to be the mint's own.\<close>

definition load_config :: "pubkey \<Rightarrow> world \<Rightarrow> AssetConfig res" where
  "load_config mint w = ok_or (assets w mint) AssetUnknown"

section \<open>Listing\<close>

definition ensure_asset_config ::
  "env \<Rightarrow> pubkey \<Rightarrow> pubkey \<Rightarrow> pubkey \<Rightarrow> 256 word \<Rightarrow> u32 \<Rightarrow> bool \<Rightarrow> world \<Rightarrow> world res" where
  "ensure_asset_config e payer mint price_feed feed_id id' paused w =
     (case assets w mint of
        Some asset \<Rightarrow>
          and_then (require (ac_asset_mint asset = mint) AssetUnknown) (\<lambda>_.
          Ok (store_asset_config mint
                (asset\<lparr>ac_price_feed := price_feed, pyth_feed_id := feed_id, ac_paused := paused,
                       ac_id := id'\<rparr>) w))
      | None \<Rightarrow>
          and_then (create_account_absorb_prefund e (pda e (AssetSeed mint)) payer (grai_program e)
                      (8 + AssetConfig_LEN) w) (\<lambda>w.
          Ok (store_asset_config mint
                \<lparr> ac_asset_mint = mint, ac_price_feed = price_feed, ac_paused = paused,
                  ac_bribeable = False, ac_id = id', acc_share = 0, total_claimable = 0,
                  total_yielded = 0, ac_bump = pda_bump e (AssetSeed mint), pyth_feed_id = feed_id \<rparr>
                w)))"

definition ensure_vault :: "env \<Rightarrow> pubkey \<Rightarrow> pubkey \<Rightarrow> world \<Rightarrow> world res" where
  "ensure_vault e mint payer w = ensure_program_vault e (vault_key e mint) mint payer w"

definition list_asset :: "env \<Rightarrow> feed_accounts \<Rightarrow> Mint \<Rightarrow> bool \<Rightarrow> world \<Rightarrow> world res" where
  "list_asset e fa m paused w =
     (let mint = fa_asset_mint fa; owner = fa_owner fa in
      and_then (require (mi_authority m \<noteq> Some (gs_key e)) AssetUnknown) (\<lambda>_.
      and_then (require (fa_asset_config fa = pda e (AssetSeed mint)) AssetUnknown) (\<lambda>_.
      and_then (require (fa_vault_ata fa = vault_key e mint) InvalidDestination) (\<lambda>_.
      let s = grai_state w; id' = word_of_nat (length (asset_mints s));
          new_space = GraiState_space (length (asset_mints s) + 1) (length (lockers s))
                        (length (voters s)) (length (referrers s)) in
      and_then (realloc_grai_state e owner new_space w) (\<lambda>w.
      let w = upd_state (asset_mints_update (\<lambda>ms. ms @ [mint])) w in
      and_then (resolve_stored_pyth_feed_id e (fa_price_feed fa) w) (\<lambda>feed_id.
      and_then (ensure_asset_config e owner mint (fa_price_feed fa) feed_id id' paused w) (\<lambda>w.
      and_then (ensure_vault e mint owner w) (\<lambda>w.
      ensure_treasury_vault e mint owner w))))))))"

section \<open>Delisting\<close>

text \<open>
  The account given as the moved asset's configuration: the asset accounts are those of the
  listed mints.
\<close>

definition asset_at :: "env \<Rightarrow> pubkey \<Rightarrow> world \<Rightarrow> (pubkey \<times> AssetConfig) res" where
  "asset_at e key w =
     and_then (account (List.find (\<lambda>m. pda e (AssetSeed m) = key) (asset_mints (grai_state w)))) (\<lambda>m.
     and_then (account (assets w m)) (\<lambda>a. Ok (m, a)))"

text \<open>The id of the asset moved into the gap, if its account was passed.\<close>

definition renumber_moved :: "env \<Rightarrow> feed_accounts \<Rightarrow> pubkey \<Rightarrow> nat \<Rightarrow> world \<Rightarrow> world res" where
  "renumber_moved e fa tail_mint index w =
     (let key = fa_moved_asset_config fa in
      if key \<noteq> fa_asset_config fa \<and> program_owner (ledger w) key = grai_program e
      then
        and_then (asset_at e key w) (\<lambda>(m, moved_asset).
        and_then (require (ac_asset_mint moved_asset = tail_mint) AssetUnknown) (\<lambda>_.
        Ok (store_asset_config m (moved_asset\<lparr>ac_id := word_of_nat index\<rparr>) w)))
      else Ok w)"

definition swap_remove_mint :: "env \<Rightarrow> feed_accounts \<Rightarrow> pubkey \<Rightarrow> world \<Rightarrow> world res" where
  "swap_remove_mint e fa mint w =
     (let ms = asset_mints (grai_state w) in
      and_then (ok_or (position mint ms) AssetUnknown) (\<lambda>index.
      let last_ix = length ms - 1 in
      and_then (if index \<noteq> last_ix
                then and_then (renumber_moved e fa (ms ! last_ix) index w) (\<lambda>w.
                     Ok (ms[index := ms ! last_ix], w))
                else Ok (ms, w)) (\<lambda>(ms, w).
      Ok (upd_state (asset_mints_update (\<lambda>_. butlast ms)) w))))"

text \<open>The lamports go to the owner, the account back to the system program, emptied.\<close>

definition close_account :: "pubkey \<Rightarrow> pubkey \<Rightarrow> world \<Rightarrow> world res" where
  "close_account info destination w =
     (let l = ledger w in
      and_then (ok_or (checked_add (lamports l destination) (lamports l info)) MathOverflow) (\<lambda>x.
      Ok (w\<lparr>ledger := l\<lparr>lamports := (lamports l)(destination := x, info := 0),
                        program_owner := (program_owner l)(info := system_program_id),
                        data_len := (data_len l)(info := 0)\<rparr>\<rparr>)))"

definition delist :: "env \<Rightarrow> feed_accounts \<Rightarrow> world \<Rightarrow> world res" where
  "delist e fa w =
     (let mint = fa_asset_mint fa; owner = fa_owner fa in
      and_then (require (fa_asset_config fa = pda e (AssetSeed mint)) AssetUnknown) (\<lambda>_.
      and_then (require (fa_vault_ata fa = vault_key e mint) InvalidDestination) (\<lambda>_.
      and_then (load_config mint w) (\<lambda>asset.
      and_then (require (ac_asset_mint asset = mint) AssetUnknown) (\<lambda>_.
      and_then (require (\<not> liquidation (grai_state w)) LiquidationOpen) (\<lambda>_.
      and_then (require (ac_paused asset) NotPaused) (\<lambda>_.
      and_then (require (total_claimable asset = 0) AssetBalanceNonZero) (\<lambda>_.
      and_then (ok_or (token_accounts (ledger w) (vault_key e mint)) InvalidDestination) (\<lambda>vault.
      and_then (require (tk_mint vault = mint) InvalidDestination) (\<lambda>_.
      and_then (require (tk_amount vault = 0) AssetBalanceNonZero) (\<lambda>_.
      and_then (swap_remove_mint e fa mint w) (\<lambda>w.
      and_then (close_treasury_vault_if_empty e (treasury_key e mint) owner w) (\<lambda>w.
      and_then (realloc_grai_state e owner (grai_space (grai_state w) 0 0 0) w) (\<lambda>w.
      and_then (close_account (fa_asset_config fa) owner w) (\<lambda>w.
      Ok (w\<lparr>assets := (assets w)(mint := None)\<rparr>))))))))))))))))"

section \<open>\<open>set_feed\<close> and \<open>set_bribeable\<close>\<close>

definition execute_set_feed :: "env \<Rightarrow> feed_accounts \<Rightarrow> bool \<Rightarrow> world \<Rightarrow> world res" where
  "execute_set_feed e fa paused w =
     (let mint = fa_asset_mint fa; feed = fa_price_feed fa in
      and_then (accounts_SetFeed e fa w) (\<lambda>m.
      if mint \<notin> set (asset_mints (grai_state w))
      then
        and_then (require (\<not> is_feed_none feed) AssetUnknown) (\<lambda>_.
        and_then (ensure_feed_matches_asset_mint e feed mint w) (\<lambda>_.
        list_asset e fa m paused w))
      else
        and_then (require (fa_asset_config fa = pda e (AssetSeed mint)) AssetUnknown) (\<lambda>_.
        and_then (load_config mint w) (\<lambda>asset.
        and_then (require (ac_asset_mint asset = mint) AssetUnknown) (\<lambda>_.
        if \<not> ac_paused asset then Ok (store_asset_config mint (asset\<lparr>ac_paused := paused\<rparr>) w)
        else if is_feed_none feed then delist e fa w
        else
          and_then (ensure_feed_matches_asset_mint e feed mint w) (\<lambda>_.
          and_then (resolve_stored_pyth_feed_id e feed w) (\<lambda>feed_id.
          Ok (store_asset_config mint
                (asset\<lparr>ac_price_feed := feed, pyth_feed_id := feed_id, ac_paused := paused\<rparr>) w))))))))"

definition accounts_SetBribeable :: "env \<Rightarrow> pubkey \<Rightarrow> pubkey \<Rightarrow> world \<Rightarrow> (Mint \<times> AssetConfig) res" where
  "accounts_SetBribeable e owner asset_mint w =
     and_then (check_owner e owner w) (\<lambda>_.
     and_then (require (\<not> liquidation (grai_state w)) LiquidationOpen) (\<lambda>_.
     and_then (account (mints (ledger w) asset_mint)) (\<lambda>m.
     and_then (check_asset_config e asset_mint w) (\<lambda>a.
     Ok (m, a)))))"

definition execute_set_bribeable :: "env \<Rightarrow> pubkey \<Rightarrow> pubkey \<Rightarrow> bool \<Rightarrow> world \<Rightarrow> world res" where
  "execute_set_bribeable e owner asset_mint bribeable w =
     and_then (accounts_SetBribeable e owner asset_mint w) (\<lambda>(m, a).
     and_then (require (mi_authority m \<noteq> Some (gs_key e)) AssetUnknown) (\<lambda>_.
     Ok (store_asset_config asset_mint (a\<lparr>ac_bribeable := bribeable\<rparr>) w)))"

end
