(* ===== verification/Deposit.thy ===== *)
theory Deposit
  imports Assets
begin

text \<open>
  Deposits (\<open>deposit.rs\<close>) with the account checks of \<open>Deposit\<close> and \<open>DepositSol\<close>: the asset
  goes to the Grinders, its value to the book and to the referral books, and newly minted
  shares to the depositor, who may lock them at once.
\<close>

record deposit_accounts =
  da_depositor :: pubkey
  da_asset_mint :: pubkey
  da_grai_mint :: pubkey
  da_price_feed :: pubkey
  da_grinders_state :: pubkey
  da_treasury_nft_ata :: pubkey
  da_depositor_ata :: pubkey

text \<open>The checks before the depositor's source account, and the initialisations after it.\<close>

definition deposit_checks ::
  "env \<Rightarrow> deposit_accounts \<Rightarrow> world \<Rightarrow> (Mint \<times> Mint \<times> AssetConfig) res" where
  "deposit_checks e da w =
     and_then (check_grai_state e w) (\<lambda>_.
     and_then (account (mints (ledger w) (da_asset_mint da))) (\<lambda>am.
     and_then (check_grai_mint e (da_grai_mint da) w) (\<lambda>gm.
     and_then (check_asset_config e (da_asset_mint da) w) (\<lambda>a.
     and_then (check_price_feed e (da_price_feed da) a (da_asset_mint da) w) (\<lambda>_.
     and_then (require (da_grinders_state da = gs_grinders (grai_state w)) InvalidGrinders) (\<lambda>_.
     Ok (am, gm, a)))))))"

definition deposit_inits :: "env \<Rightarrow> deposit_accounts \<Rightarrow> world \<Rightarrow> world res" where
  "deposit_inits e da w =
     (let depositor = da_depositor da; grai_mint = da_grai_mint da in
      and_then (init_token_if_needed e depositor (ata e (da_grinders_state da) (da_asset_mint da))
                  (da_asset_mint da) (da_grinders_state da) w) (\<lambda>w.
      and_then (init_token_if_needed e depositor (ata e depositor grai_mint) grai_mint depositor w) (\<lambda>w.
      and_then (init_escrow_if_needed e depositor depositor w) (\<lambda>w.
      init_token_if_needed e depositor (vault_key e grai_mint) grai_mint (gs_key e) w))))"

definition accounts_Deposit ::
  "env \<Rightarrow> deposit_accounts \<Rightarrow> world \<Rightarrow> (Mint \<times> Mint \<times> AssetConfig \<times> world) res" where
  "accounts_Deposit e da w =
     and_then (deposit_checks e da w) (\<lambda>(am, gm, a).
     and_then (check_token_account (da_depositor_ata da) (da_asset_mint da) (da_depositor da)
                 InvalidDepositSource w) (\<lambda>_.
     and_then (deposit_inits e da w) (\<lambda>w.
     Ok (am, gm, a, w))))"

text \<open>\<open>DepositSol\<close> fixes the mint, and the source is the depositor's own wrapped-SOL account.\<close>

definition accounts_DepositSol ::
  "env \<Rightarrow> deposit_accounts \<Rightarrow> world \<Rightarrow> (Mint \<times> Mint \<times> AssetConfig \<times> world) res" where
  "accounts_DepositSol e da w =
     and_then (require (da_asset_mint da = native_mint_id) InvalidMint) (\<lambda>_.
     and_then (deposit_checks e da w) (\<lambda>(am, gm, a).
     and_then (constraint (da_depositor_ata da = ata e (da_depositor da) (da_asset_mint da))) (\<lambda>_.
     and_then (init_token_if_needed e (da_depositor da) (da_depositor_ata da) (da_asset_mint da)
                 (da_depositor da) w) (\<lambda>w.
     and_then (deposit_inits e da w) (\<lambda>w.
     Ok (am, gm, a, w))))))"

section \<open>The steps both deposits share\<close>

text \<open>Value of the amount and the shares it mints.\<close>

definition deposit_quote ::
  "env \<Rightarrow> u64 \<Rightarrow> Mint \<Rightarrow> Mint \<Rightarrow> PriceData \<Rightarrow> world \<Rightarrow> (u128 \<times> u64) res" where
  "deposit_quote e amount am gm price w =
     (let s = grai_state w in
      and_then (usd_value amount (mi_decimals am) price) (\<lambda>v.
      and_then (require (0 < v) AmountZero) (\<lambda>_.
      and_then (require (0 < total_value s \<or> mi_supply gm = 0) InsolventBook) (\<lambda>_.
      and_then (preview_deposit v (mi_supply gm) (total_value s)
                  (mint_premium_bps_per_year (gs_config s)) (mint_premium_at s) (unix_timestamp e))
        (\<lambda>grai_out.
      Ok (v, grai_out))))))"

definition deposit_payments ::
  "env \<Rightarrow> deposit_accounts \<Rightarrow> u64 \<Rightarrow> u64 \<Rightarrow> world \<Rightarrow> world res" where
  "deposit_payments e da amount grai_out w =
     and_then (transfer_from_signer e (da_depositor_ata da)
                 (ata e (da_grinders_state da) (da_asset_mint da)) (da_depositor da) amount w) (\<lambda>w.
     invoke (spl_mint_to e (da_grai_mint da) (ata e (da_depositor da) (da_grai_mint da)) (gs_key e)
               grai_out) w)"

text \<open>The books: referral credit, book value, the escrow's bump, and the lock if asked for.\<close>

definition deposit_books ::
  "env \<Rightarrow> deposit_accounts \<Rightarrow> pubkey list \<Rightarrow> bool \<Rightarrow> pubkey \<Rightarrow> u128 \<Rightarrow> u64 \<Rightarrow> world \<Rightarrow> world res" where
  "deposit_books e da remaining lock referrer v grai_out w =
     (let depositor = da_depositor da; grai_mint = da_grai_mint da;
          lock_account_count = (if lock then length (asset_mints (grai_state w)) * 2 else 0) in
      and_then (require (lock_account_count \<le> length remaining) InvalidRemainingAccounts) (\<lambda>_.
      and_then (mint_referrer e depositor referrer v (affiliate_levels (grai_state w)) depositor
                  (drop lock_account_count remaining) (pda e (TreasuryNftSeed depositor))
                  (da_treasury_nft_ata da) w) (\<lambda>w.
      and_then (ok_or (checked_add (total_value (grai_state w)) v) MathOverflow) (\<lambda>tv.
      and_then (account (escrows w depositor)) (\<lambda>x.
      let w = set_escrow depositor (x\<lparr>es_bump := pda_bump e (EscrowSeed depositor)\<rparr>)
                (upd_state (total_value_update (\<lambda>_. tv)) w) in
      if lock
      then perform_lock e (pda_bump e (EscrowSeed depositor)) grai_out (ata e depositor grai_mint)
             (vault_key e grai_mint) depositor (take lock_account_count remaining) w
      else Ok w)))))"

section \<open>The handlers\<close>

definition execute_deposit ::
  "env \<Rightarrow> deposit_accounts \<Rightarrow> pubkey list \<Rightarrow> u64 \<Rightarrow> bool \<Rightarrow> pubkey \<Rightarrow> world \<Rightarrow> world res" where
  "execute_deposit e da remaining amount lock referrer w =
     and_then (accounts_Deposit e da w) (\<lambda>(am, gm, asset, w).
     and_then (require (0 < amount) AmountZero) (\<lambda>_.
     and_then (require (\<not> liquidation (grai_state w)) LiquidationOpen) (\<lambda>_.
     and_then (require (\<not> ac_paused asset) Paused) (\<lambda>_.
     and_then (fetch_asset_price e asset (da_asset_mint da) (da_price_feed da) w) (\<lambda>price.
     and_then (deposit_quote e amount am gm price w) (\<lambda>(v, grai_out).
     and_then (deposit_payments e da amount grai_out w) (\<lambda>w.
     deposit_books e da remaining lock referrer v grai_out w)))))))"

definition execute_deposit_sol ::
  "env \<Rightarrow> deposit_accounts \<Rightarrow> pubkey list \<Rightarrow> u64 \<Rightarrow> bool \<Rightarrow> pubkey \<Rightarrow> world \<Rightarrow> world res" where
  "execute_deposit_sol e da remaining amount lock referrer w =
     and_then (accounts_DepositSol e da w) (\<lambda>(am, gm, asset, w).
     and_then (require (0 < amount) AmountZero) (\<lambda>_.
     and_then (require (\<not> liquidation (grai_state w)) LiquidationOpen) (\<lambda>_.
     and_then (require (\<not> ac_paused asset) Paused) (\<lambda>_.
     and_then (invoke (sys_transfer e (da_depositor da) (da_depositor_ata da) amount) w) (\<lambda>w.
     and_then (invoke (sync_native e (da_depositor_ata da)) w) (\<lambda>w.
     and_then (fetch_price_from_feed e (da_price_feed da) asset w) (\<lambda>price.
     and_then (deposit_quote e amount am gm price w) (\<lambda>(v, grai_out).
     and_then (deposit_payments e da amount grai_out w) (\<lambda>w.
     deposit_books e da remaining lock referrer v grai_out w)))))))))"

end
