(* ===== verification/Claim.thy ===== *)
theory Claim
  imports Poach
begin

text \<open>
  Claiming dividends (\<open>claim.rs\<close>) with the checks of \<open>Claim\<close> and \<open>ClaimAll\<close>, and the treasury
  payout a claim triggers (\<open>distribute_claim_treasury\<close> of \<open>treasury.rs\<close>): the book credit,
  the affiliates' shares up the sticky tree, and the beneficiary's rest.
\<close>

section \<open>Treasury payouts\<close>

definition claim_treasury_shares :: "u64 \<Rightarrow> u16 \<Rightarrow> u16 \<Rightarrow> u16 \<Rightarrow> (u64 \<times> u64) res" where
  "claim_treasury_shares claimed treasury_cut dividend_cut revenue_share =
     (if claimed = 0 \<or> dividend_cut = 0 then Ok (0, 0)
      else
        and_then (ok_or (Option.bind (checked_mul (ucast claimed) (ucast treasury_cut))
                    (\<lambda>v. checked_div v (ucast dividend_cut))) MathOverflow) (\<lambda>gross.
        and_then (ok_or (Option.bind (checked_mul (ucast claimed) (ucast revenue_share))
                    (\<lambda>v. checked_div v (ucast dividend_cut))) MathOverflow) (\<lambda>revenue.
        and_then (require (gross \<le> (ucast u64_max :: u128) \<and> revenue \<le> (ucast u64_max :: u128))
                    MathOverflow) (\<lambda>_.
        Ok (ucast gross, ucast revenue)))))"

definition token_amount :: "pubkey \<Rightarrow> world \<Rightarrow> u64 res" where
  "token_amount key w =
     and_then (ok_or (token_accounts (ledger w) key) InvalidDestination) (\<lambda>a. Ok (tk_amount a))"

text \<open>The NFT holder when the NFT is minted and its account resolves, else nobody.\<close>

definition resolve_cashflow_payee :: "Referrer \<Rightarrow> pubkey \<Rightarrow> pubkey \<Rightarrow> world \<Rightarrow> pubkey option" where
  "resolve_cashflow_payee book referrer nft_ata w =
     (if rf_nft_mint book = default_pubkey then Some referrer
      else
        case token_accounts (ledger w) nft_ata of
          None \<Rightarrow> None
        | Some a \<Rightarrow>
            if tk_mint a \<noteq> rf_nft_mint book \<or> tk_amount a < 1 then None else Some (tk_owner a))"

definition try_pay_from_treasury ::
  "env \<Rightarrow> pubkey \<Rightarrow> pubkey \<Rightarrow> pubkey \<Rightarrow> u64 \<Rightarrow> world \<Rightarrow> (bool \<times> world) res" where
  "try_pay_from_treasury e treasury_vault destination to amount w =
     (if amount = 0 then Ok (True, w)
      else if to = default_pubkey then Ok (False, w)
      else
        case token_accounts (ledger w) destination of
          None \<Rightarrow> Ok (False, w)
        | Some a \<Rightarrow>
            if tk_owner a \<noteq> to then Ok (False, w)
            else and_then (transfer_from_vault e treasury_vault destination amount w) (\<lambda>w.
                 Ok (True, w)))"

text \<open>The loop over the levels; \<open>shares\<close> are the state's \<open>affiliate_share_bps\<close>.\<close>

record payout =
  paid_revenue :: u64
  retained_affiliate :: u64

definition pay_affiliate ::
  "env \<Rightarrow> pubkey \<Rightarrow> pubkey \<Rightarrow> pubkey \<Rightarrow> Referrer \<Rightarrow> pubkey \<Rightarrow> u64 \<Rightarrow> payout \<Rightarrow> world \<Rightarrow>
   (payout \<times> world) res" where
  "pay_affiliate e treasury_vault nft_ata destination book referrer share po w =
     (case resolve_cashflow_payee book referrer nft_ata w of
        None \<Rightarrow>
          and_then (ok_or (checked_add (retained_affiliate po) share) MathOverflow)
            (\<lambda>x. Ok (po\<lparr>retained_affiliate := x\<rparr>, w))
      | Some payee \<Rightarrow>
          and_then (try_pay_from_treasury e treasury_vault destination payee share w) (\<lambda>(ok, w).
          if ok
          then and_then (ok_or (checked_add (paid_revenue po) share) MathOverflow)
                 (\<lambda>x. Ok (po\<lparr>paid_revenue := x\<rparr>, w))
          else Ok (po, w)))"

fun affiliate_walk ::
  "env \<Rightarrow> pubkey \<Rightarrow> u64 \<Rightarrow> pubkey \<Rightarrow> pubkey list \<Rightarrow> u16 list \<Rightarrow> nat \<Rightarrow> nat \<Rightarrow> pubkey \<Rightarrow> payout \<Rightarrow> world \<Rightarrow>
   (payout \<times> world) res" where
  "affiliate_walk e locker revenue treasury_vault remaining shares level 0 cur po w = Ok (po, w)"
| "affiliate_walk e locker revenue treasury_vault remaining shares level (Suc n) cur po w =
     and_then (at_index remaining (level * 3)) (\<lambda>ref_info.
     and_then (at_index remaining (level * 3 + 1)) (\<lambda>nft_ata_info.
     and_then (at_index remaining (level * 3 + 2)) (\<lambda>ata_info.
     if ref_info \<noteq> pda e (ReferrerSeed cur) then Ok (po, w)
     else
       case books w cur of
         None \<Rightarrow> Ok (po, w)
       | Some binding \<Rightarrow>
           let referrer = rf_referrer binding in
           if referrer = default_pubkey \<or> referrer = locker \<or> referrer = cur then Ok (po, w)
           else
             case referrer_info e referrer remaining of
               None \<Rightarrow> Ok (po, w)
             | Some referrer_ai \<Rightarrow>
                 (case books w referrer of
                    None \<Rightarrow> Ok (po, w)
                  | Some referrer_book \<Rightarrow>
                      and_then (at_index shares level) (\<lambda>bps.
                      and_then (bps_of revenue bps) (\<lambda>share.
                      and_then (pay_affiliate e treasury_vault nft_ata_info ata_info referrer_book
                                  referrer share po w)
                        (\<lambda>(po, w).
                      affiliate_walk e locker revenue treasury_vault remaining shares (Suc level) n
                        referrer po w)))))))"

text \<open>The payout after the books are credited; an underfunded treasury pays nothing.\<close>

definition pay_treasury_shares ::
  "env \<Rightarrow> pubkey \<Rightarrow> u64 \<Rightarrow> u64 \<Rightarrow> pubkey \<Rightarrow> pubkey \<Rightarrow> pubkey list \<Rightarrow> world \<Rightarrow> world res" where
  "pay_treasury_shares e locker gross_profit_share revenue_share treasury_vault beneficiar_ata
       remaining w =
     (if gross_profit_share = 0 then Ok w
      else
        and_then (token_amount treasury_vault w) (\<lambda>bal.
        if bal < gross_profit_share then Ok w
        else
          let s = grai_state w; levels = unat (affiliate_levels s);
              none = \<lparr> paid_revenue = 0, retained_affiliate = 0 \<rparr> in
          and_then (if 0 < revenue_share \<and> 0 < levels
                    then affiliate_walk e locker revenue_share treasury_vault remaining
                           (affiliate_share_bps s) 0 levels locker none w
                    else Ok (none, w)) (\<lambda>(po, w).
          and_then (ok_or (checked_sub gross_profit_share (paid_revenue po)) MathOverflow) (\<lambda>rest.
          and_then (ok_or (checked_sub rest (retained_affiliate po)) MathOverflow) (\<lambda>net.
          if 0 < net
          then and_then (try_pay_from_treasury e treasury_vault beneficiar_ata (gs_beneficiar s) net w)
                 (\<lambda>(ok, w). Ok w)
          else Ok w)))))"

definition distribute_claim_treasury ::
  "env \<Rightarrow> pubkey \<Rightarrow> u128 \<Rightarrow> u64 \<Rightarrow> u64 \<Rightarrow> pubkey \<Rightarrow> pubkey \<Rightarrow> pubkey list \<Rightarrow> pubkey \<Rightarrow> world \<Rightarrow>
   world res" where
  "distribute_claim_treasury e locker claimed_value gross_profit_share revenue_share
       treasury_vault beneficiar_ata remaining payer w =
     and_then (require (affiliate_claim_remaining_len (unat (affiliate_levels (grai_state w)))
                 \<le> length remaining) InvalidRemainingAccounts) (\<lambda>_.
     and_then (ensure_referrer_account e locker payer w) (\<lambda>(book, is_new, w).
     let w = (if is_new then store_referrer locker book w else w) in
     and_then (credit_books e locker claimed_value (affiliate_levels (grai_state w)) remaining True w) (\<lambda>w.
     pay_treasury_shares e locker gross_profit_share revenue_share treasury_vault beneficiar_ata
       remaining w)))"

section \<open>\<open>claim\<close>\<close>

definition pay_claim :: "env \<Rightarrow> u64 \<Rightarrow> u16 \<Rightarrow> pubkey \<Rightarrow> pubkey \<Rightarrow> pubkey \<Rightarrow> world \<Rightarrow> world res" where
  "pay_claim e claimed tip_bps vault_ata holder_ata tip_ata w =
     and_then (bps_of claimed tip_bps) (\<lambda>tip.
     and_then (ok_or (checked_sub claimed tip) MathOverflow) (\<lambda>to_holder.
     if holder_ata = tip_ata then transfer_from_vault e vault_ata holder_ata claimed w
     else
       and_then (if 0 < to_holder then transfer_from_vault e vault_ata holder_ata to_holder w
                 else Ok w) (\<lambda>w.
       if 0 < tip then transfer_from_vault e vault_ata tip_ata tip w else Ok w)))"

record claim_accounts =
  cl_payer :: pubkey
  cl_holder :: pubkey
  cl_asset_mint :: pubkey
  cl_price_feed :: pubkey
  cl_beneficiar_ata :: pubkey

definition accounts_Claim ::
  "env \<Rightarrow> claim_accounts \<Rightarrow> world \<Rightarrow> (Escrow \<times> Mint \<times> AssetConfig \<times> TokenAccount \<times> world) res" where
  "accounts_Claim e ca w =
     (let mint = cl_asset_mint ca in
      and_then (check_grai_state e w) (\<lambda>_.
      and_then (check_escrow e (cl_holder ca) w) (\<lambda>x.
      and_then (account (mints (ledger w) mint)) (\<lambda>m.
      and_then (check_asset_config e mint w) (\<lambda>a.
      and_then (check_price_feed e (cl_price_feed ca) a mint w) (\<lambda>_.
      and_then (check_vault e (vault_key e mint) mint w) (\<lambda>v.
      and_then (check_vault e (treasury_key e mint) mint w) (\<lambda>_.
      and_then (init_token_if_needed e (cl_payer ca) (ata e (cl_holder ca) mint) mint
                  (cl_holder ca) w) (\<lambda>w.
      and_then (init_token_if_needed e (cl_payer ca) (ata e (cl_payer ca) mint) mint
                  (cl_payer ca) w) (\<lambda>w.
      Ok (x, m, a, v, w)))))))))))"

text \<open>Loading the holder's position and settling it at its lock.\<close>

definition settle_for_claim ::
  "env \<Rightarrow> pubkey \<Rightarrow> pubkey \<Rightarrow> pubkey \<Rightarrow> pubkey \<Rightarrow> u128 \<Rightarrow> u64 \<Rightarrow> world \<Rightarrow> (Position \<times> world) res" where
  "settle_for_claim e key holder mint payer acc locked w =
     and_then (load_or_init_position e key holder mint payer w) (\<lambda>(pos, is_new, w).
     and_then (if is_new then settle acc 0 locked pos else settle acc locked locked pos) (\<lambda>pos.
     Ok (pos, w)))"

text \<open>
  A claim whose amount is known: the payout to holder and caller with the treasury's shares of
  it, then the books and the treasury payout, then the stored balances.
\<close>

definition pay_and_share ::
  "env \<Rightarrow> pubkey \<Rightarrow> u64 \<Rightarrow> pubkey \<Rightarrow> pubkey \<Rightarrow> pubkey \<Rightarrow> world \<Rightarrow> (u64 \<times> u64 \<times> world) res" where
  "pay_and_share e mint claimed vault holder_ata tip_ata w =
     (let cfg = gs_config (grai_state w) in
      and_then (pay_claim e claimed (claim_tip_bps cfg) vault holder_ata tip_ata w) (\<lambda>w.
      and_then (claim_treasury_shares claimed (treasury_cut_bps cfg) (dividend_cut_bps cfg)
                  (revenue_share_bps cfg)) (\<lambda>(gross, revenue).
      Ok (gross, revenue, w))))"

definition finish_claim ::
  "env \<Rightarrow> pubkey \<Rightarrow> pubkey \<Rightarrow> pubkey \<Rightarrow> AssetConfig \<Rightarrow> Position \<Rightarrow> u64 \<Rightarrow> u128 \<Rightarrow> u64 \<Rightarrow> u64 \<Rightarrow>
   pubkey \<Rightarrow> pubkey \<Rightarrow> pubkey list \<Rightarrow> world \<Rightarrow> world res" where
  "finish_claim e payer holder mint asset pos claimed claimed_value gross revenue
       treasury_vault beneficiar_ata remaining w =
     and_then (distribute_claim_treasury e holder claimed_value gross revenue treasury_vault
                 beneficiar_ata remaining payer w) (\<lambda>w.
     and_then (ok_or (checked_sub (po_claimable pos) claimed) MathOverflow) (\<lambda>c.
     Ok (store_asset_config mint
           (asset\<lparr>total_claimable := saturating_sub (total_claimable asset) claimed\<rparr>)
           (store_position holder mint (pos\<lparr>po_claimable := c\<rparr>) w))))"

definition execute_claim ::
  "env \<Rightarrow> claim_accounts \<Rightarrow> pubkey list \<Rightarrow> u64 \<Rightarrow> world \<Rightarrow> world res" where
  "execute_claim e ca remaining amount w =
     (let mint = cl_asset_mint ca; holder = cl_holder ca; payer = cl_payer ca in
      and_then (accounts_Claim e ca w) (\<lambda>(x, m, asset, vault, w).
      and_then (require (mi_authority m \<noteq> Some (gs_key e)) AssetUnknown) (\<lambda>_.
      and_then (settle_for_claim e (pda e (PositionSeed holder mint)) holder mint payer
                  (acc_share asset) (es_amount x) w) (\<lambda>(pos, w).
      let claimable = po_claimable pos in
      if claimable = 0 then Ok (store_position holder mint pos w)
      else
        let claimed = min (min (preview_claim amount claimable) (tk_amount vault))
                        (total_claimable asset) in
        if claimed = 0 then Ok (store_position holder mint pos w)
        else
          and_then (fetch_asset_price e asset mint (cl_price_feed ca) w) (\<lambda>price.
          and_then (usd_value claimed (mi_decimals m) price) (\<lambda>claimed_value.
          and_then (pay_and_share e mint claimed (vault_key e mint) (ata e holder mint)
                      (ata e payer mint) w) (\<lambda>(gross, revenue, w).
          finish_claim e payer holder mint asset pos claimed claimed_value gross revenue
            (treasury_key e mint) (cl_beneficiar_ata ca) remaining w)))))))"

section \<open>\<open>claim_all\<close>\<close>

definition accounts_ClaimAll :: "env \<Rightarrow> pubkey \<Rightarrow> world \<Rightarrow> Escrow res" where
  "accounts_ClaimAll e holder w =
     and_then (check_grai_state e w) (\<lambda>_. check_escrow e holder w)"

text \<open>
  One listed asset. \<open>rem\<close> is its stride: nine accounts and the affiliate tail, whose first
  account is the holder's own book.
\<close>

definition claim_one ::
  "env \<Rightarrow> pubkey \<Rightarrow> pubkey \<Rightarrow> u64 \<Rightarrow> pubkey \<Rightarrow> pubkey list \<Rightarrow> world \<Rightarrow> world res" where
  "claim_one e payer holder locked mint rem w =
     (let vault = rem ! 4; holder_ata = rem ! 5; tip_ata = rem ! 6; treasury_vault = rem ! 7;
          beneficiar_ata = rem ! 8; affiliates = drop 9 rem in
      and_then (require (rem ! 0 = mint) InvalidRemainingAccounts) (\<lambda>_.
      and_then (require (rem ! 1 = pda e (AssetSeed mint)) InvalidRemainingAccounts) (\<lambda>_.
      and_then (ok_or (assets w mint) InvalidRemainingAccounts) (\<lambda>asset.
      and_then (require (rem ! 3 = pda e (PositionSeed holder mint)) InvalidRemainingAccounts) (\<lambda>_.
      and_then (require_vault_pda e vault mint w) (\<lambda>_.
      and_then (require_holder_ata e holder_ata holder mint) (\<lambda>_.
      and_then (require_holder_ata e tip_ata payer mint) (\<lambda>_.
      and_then (account (mints (ledger w) mint)) (\<lambda>m.
      and_then (require (ac_asset_mint asset = mint) AssetUnknown) (\<lambda>_.
      and_then (settle_for_claim e (rem ! 3) holder mint payer (acc_share asset) locked w) (\<lambda>(pos, w).
      and_then (account (token_accounts (ledger w) vault)) (\<lambda>v.
      let claimable = po_claimable pos;
          claimed = (if claimable = 0 then 0
                     else min (min (preview_claim u64_max claimable) (tk_amount v))
                            (total_claimable asset));
          w = store_position holder mint pos w in
      and_then (if 0 < claimed
                then and_then (fetch_price_from_feed e (rem ! 2) asset w)
                       (usd_value claimed (mi_decimals m))
                else Ok 0) (\<lambda>claimed_value.
      if claimed = 0 then Ok w
      else
        and_then (pay_and_share e mint claimed vault holder_ata tip_ata w) (\<lambda>(gross, revenue, w).
        and_then (require (treasury_vault = treasury_key e mint) InvalidRemainingAccounts) (\<lambda>_.
        and_then (require (affiliates \<noteq> []) InvalidRemainingAccounts) (\<lambda>_.
        and_then (require (hd affiliates = pda e (ReferrerSeed holder)) InvalidRemainingAccounts) (\<lambda>_.
        finish_claim e payer holder mint asset pos claimed claimed_value gross revenue
          treasury_vault beneficiar_ata affiliates w)))))))))))))))))"

fun claim_each ::
  "env \<Rightarrow> pubkey \<Rightarrow> pubkey \<Rightarrow> u64 \<Rightarrow> nat \<Rightarrow> pubkey list \<Rightarrow> pubkey list \<Rightarrow> world \<Rightarrow> world res" where
  "claim_each e payer holder locked stride [] remaining w = Ok w"
| "claim_each e payer holder locked stride (mint # ms) remaining w =
     and_then (claim_one e payer holder locked mint (take stride remaining) w)
       (claim_each e payer holder locked stride ms (drop stride remaining))"

definition execute_claim_all :: "env \<Rightarrow> pubkey \<Rightarrow> pubkey \<Rightarrow> pubkey list \<Rightarrow> world \<Rightarrow> world res" where
  "execute_claim_all e payer holder remaining w =
     and_then (accounts_ClaimAll e holder w) (\<lambda>x.
     let s = grai_state w; ms = asset_mints s;
         stride = 9 + affiliate_claim_remaining_len (unat (affiliate_levels s)) in
     and_then (require (length remaining = length ms * stride) InvalidRemainingAccounts) (\<lambda>_.
     claim_each e payer holder (es_amount x) stride ms remaining w))"

end
