(* ===== verification/Views.thy ===== *)
theory Views
  imports Deposit Claim
begin

text \<open>
  The read-only instructions (\<open>preview.rs\<close>, \<open>views.rs\<close>, \<open>has_quorum\<close> of \<open>lib.rs\<close>) with the
  account checks of their structs. They return a value and leave the world as it is.
\<close>

record DepositQuote =
  dq_value :: u128
  dq_grai_out :: u64

record UnlockQuote =
  uq_unlock_amount :: u64
  uq_penalty :: u64

text \<open>\<open>ClaimAllQuote\<close> and \<open>RedeemQuote\<close> have the same two lists.\<close>

record RedeemQuote =
  rq_assets :: "pubkey list"
  rq_amounts :: "u64 list"

type_synonym ClaimAllQuote = RedeemQuote

record EscrowView =
  ev_account :: pubkey
  ev_locker_id :: u32
  ev_amount :: u64
  ev_voted :: u64
  ev_voted_at :: i64
  ev_voter_id :: u32

record ReferralBookView =
  rv_value :: u128
  rv_l1_value :: u128
  rv_l2_value :: u128
  rv_referrer :: pubkey

record LockerDataView =
  ld_locker :: pubkey
  ld_referrer :: pubkey
  ld_owner_of :: pubkey
  ld_nft_mint :: pubkey
  ld_book :: ReferralBookView
  ld_assets :: "pubkey list"
  ld_claimable :: "u64 list"

section \<open>Reading positions and assets\<close>

definition resolve_timestamp :: "env \<Rightarrow> i64 \<Rightarrow> i64 res" where
  "resolve_timestamp e timestamp = Ok (if timestamp = 0 then unix_timestamp e else timestamp)"

definition read_position_debt_claimable ::
  "env \<Rightarrow> pubkey \<Rightarrow> pubkey \<Rightarrow> pubkey \<Rightarrow> world \<Rightarrow> (u128 \<times> u64) res" where
  "read_position_debt_claimable e position_key user mint w =
     and_then (require (position_key = pda e (PositionSeed user mint)) InvalidRemainingAccounts) (\<lambda>_.
     Ok (case positions w (user, mint) of None \<Rightarrow> (0, 0) | Some p \<Rightarrow> (po_debt p, po_claimable p)))"

definition read_asset_acc_share :: "env \<Rightarrow> pubkey \<Rightarrow> pubkey \<Rightarrow> world \<Rightarrow> u128 res" where
  "read_asset_acc_share e asset_key mint w =
     and_then (require (asset_key = pda e (AssetSeed mint)) InvalidRemainingAccounts) (\<lambda>_.
     and_then (ok_or (assets w mint) InvalidRemainingAccounts) (\<lambda>a.
     and_then (require (ac_asset_mint a = mint) AssetUnknown) (\<lambda>_.
     Ok (acc_share a))))"

definition pending_for_holder ::
  "env \<Rightarrow> pubkey \<Rightarrow> pubkey \<Rightarrow> pubkey \<Rightarrow> pubkey \<Rightarrow> u64 \<Rightarrow> world \<Rightarrow> u64 res" where
  "pending_for_holder e asset_key position_key user mint locked w =
     and_then (read_asset_acc_share e asset_key mint w) (\<lambda>acc.
     and_then (read_position_debt_claimable e position_key user mint w) (\<lambda>(debt, claimable).
     pending_dividend locked acc debt claimable))"

section \<open>Previews\<close>

definition accounts_PreviewDeposit ::
  "env \<Rightarrow> pubkey \<Rightarrow> pubkey \<Rightarrow> pubkey \<Rightarrow> world \<Rightarrow> (Mint \<times> Mint \<times> AssetConfig) res" where
  "accounts_PreviewDeposit e grai_mint asset_mint price_feed w =
     and_then (check_grai_state e w) (\<lambda>_.
     and_then (check_grai_mint e grai_mint w) (\<lambda>gm.
     and_then (account (mints (ledger w) asset_mint)) (\<lambda>am.
     and_then (check_asset_config e asset_mint w) (\<lambda>a.
     and_then (check_price_feed e price_feed a asset_mint w) (\<lambda>_.
     Ok (gm, am, a))))))"

definition execute_preview_deposit ::
  "env \<Rightarrow> pubkey \<Rightarrow> pubkey \<Rightarrow> pubkey \<Rightarrow> u64 \<Rightarrow> world \<Rightarrow> DepositQuote res" where
  "execute_preview_deposit e grai_mint asset_mint price_feed amount w =
     and_then (accounts_PreviewDeposit e grai_mint asset_mint price_feed w) (\<lambda>(gm, am, asset).
     and_then (require (0 < amount) AmountZero) (\<lambda>_.
     and_then (require (\<not> ac_paused asset) Paused) (\<lambda>_.
     and_then (fetch_asset_price e asset asset_mint price_feed w) (\<lambda>price.
     let s = grai_state w in
     and_then (usd_value amount (mi_decimals am) price) (\<lambda>v.
     and_then (require (0 < v) AmountZero) (\<lambda>_.
     if total_value s = 0 \<and> 0 < mi_supply gm then Err InsolventBook
     else
       and_then (preview_deposit v (mi_supply gm) (total_value s)
                   (mint_premium_bps_per_year (gs_config s)) (mint_premium_at s) (unix_timestamp e))
         (\<lambda>grai_out.
       Ok \<lparr> dq_value = v, dq_grai_out = grai_out \<rparr>)))))))"

definition accounts_PreviewUnlock :: "env \<Rightarrow> pubkey \<Rightarrow> world \<Rightarrow> Escrow res" where
  "accounts_PreviewUnlock e user w =
     and_then (check_grai_state e w) (\<lambda>_. check_escrow e user w)"

definition execute_preview_unlock :: "env \<Rightarrow> pubkey \<Rightarrow> u64 \<Rightarrow> i64 \<Rightarrow> world \<Rightarrow> UnlockQuote res" where
  "execute_preview_unlock e user grai_amount timestamp w =
     and_then (accounts_PreviewUnlock e user w) (\<lambda>x.
     and_then (resolve_timestamp e timestamp) (\<lambda>_.
     and_then (require (grai_amount \<le> es_amount x) InvalidAmount) (\<lambda>_.
     and_then (preview_unlock grai_amount (es_amount x)
                 (unlock_penalty_bps (gs_config (grai_state w)))) (\<lambda>(unlock_amount, penalty).
     Ok \<lparr> uq_unlock_amount = unlock_amount, uq_penalty = penalty \<rparr>))))"

definition accounts_PreviewClaim :: "env \<Rightarrow> pubkey \<Rightarrow> pubkey \<Rightarrow> world \<Rightarrow> (Escrow \<times> AssetConfig) res" where
  "accounts_PreviewClaim e holder asset_mint w =
     and_then (check_grai_state e w) (\<lambda>_.
     and_then (check_escrow e holder w) (\<lambda>x.
     and_then (account (mints (ledger w) asset_mint)) (\<lambda>_.
     and_then (check_asset_config e asset_mint w) (\<lambda>a.
     Ok (x, a)))))"

definition execute_preview_claim :: "env \<Rightarrow> pubkey \<Rightarrow> pubkey \<Rightarrow> u64 \<Rightarrow> world \<Rightarrow> u64 res" where
  "execute_preview_claim e holder asset_mint amount w =
     and_then (accounts_PreviewClaim e holder asset_mint w) (\<lambda>(x, a).
     let (debt, claimable) = (case positions w (holder, asset_mint) of
                                None \<Rightarrow> (0, 0) | Some p \<Rightarrow> (po_debt p, po_claimable p)) in
     and_then (pending_dividend (es_amount x) (acc_share a) debt claimable) (\<lambda>pending.
     Ok (preview_claim amount pending)))"

definition accounts_PreviewClaimAll :: "env \<Rightarrow> pubkey \<Rightarrow> world \<Rightarrow> Escrow res" where
  "accounts_PreviewClaimAll e holder w =
     and_then (check_grai_state e w) (\<lambda>_. check_escrow e holder w)"

fun pending_each ::
  "env \<Rightarrow> pubkey \<Rightarrow> u64 \<Rightarrow> pubkey list \<Rightarrow> pubkey list \<Rightarrow> world \<Rightarrow> u64 list res" where
  "pending_each e user locked (a # p # rest) (mint # ms) w =
     and_then (pending_for_holder e a p user mint locked w) (\<lambda>x.
     and_then (pending_each e user locked rest ms w) (\<lambda>xs. Ok (x # xs)))"
| "pending_each e user locked _ _ w = Ok []"

definition execute_preview_claim_all ::
  "env \<Rightarrow> pubkey \<Rightarrow> pubkey list \<Rightarrow> world \<Rightarrow> ClaimAllQuote res" where
  "execute_preview_claim_all e holder remaining w =
     and_then (accounts_PreviewClaimAll e holder w) (\<lambda>x.
     let ms = asset_mints (grai_state w) in
     and_then (require (length remaining = length ms * 2) InvalidRemainingAccounts) (\<lambda>_.
     and_then (pending_each e holder (es_amount x) remaining ms w) (\<lambda>amounts.
     Ok \<lparr> rq_assets = ms, rq_amounts = amounts \<rparr>)))"

definition accounts_PreviewRedeem ::
  "env \<Rightarrow> pubkey \<Rightarrow> pubkey \<Rightarrow> pubkey \<Rightarrow> world \<Rightarrow> (Mint \<times> TokenAccount) res" where
  "accounts_PreviewRedeem e holder grai_mint holder_grai_ata w =
     and_then (check_grai_state e w) (\<lambda>_.
     and_then (check_grai_mint e grai_mint w) (\<lambda>gm.
     and_then (check_token_account holder_grai_ata grai_mint holder InvalidDestination w) (\<lambda>a.
     Ok (gm, a))))"

text \<open>One mint's share; zero shares are left out of the quote.\<close>

definition redeem_share ::
  "env \<Rightarrow> pubkey \<Rightarrow> pubkey \<Rightarrow> pubkey \<Rightarrow> u64 \<Rightarrow> u64 \<Rightarrow> world \<Rightarrow> u64 res" where
  "redeem_share e asset_key vault mint grai_amount supply' w =
     and_then (require (asset_key = pda e (AssetSeed mint)) InvalidRemainingAccounts) (\<lambda>_.
     and_then (account (assets w mint)) (\<lambda>asset.
     and_then (require (ac_asset_mint asset = mint) AssetUnknown) (\<lambda>_.
     and_then (account (token_accounts (ledger w) vault)) (\<lambda>v.
     and_then (require (tk_mint v = mint) InvalidDestination) (\<lambda>_.
     let redeemable = redeemable_balance (tk_amount v) (total_claimable asset) in
     if 0 < redeemable then preview_liquidate_share redeemable grai_amount supply' else Ok 0)))))"

fun redeem_shares ::
  "env \<Rightarrow> pubkey list \<Rightarrow> pubkey list \<Rightarrow> u64 \<Rightarrow> u64 \<Rightarrow> world \<Rightarrow> (pubkey \<times> u64) list res" where
  "redeem_shares e (a # v # rest) (mint # ms) grai_amount supply' w =
     and_then (redeem_share e a v mint grai_amount supply' w) (\<lambda>share.
     and_then (redeem_shares e rest ms grai_amount supply' w) (\<lambda>xs.
     Ok (if 0 < share then (mint, share) # xs else xs)))"
| "redeem_shares e _ _ grai_amount supply' w = Ok []"

definition execute_preview_redeem ::
  "env \<Rightarrow> pubkey \<Rightarrow> pubkey \<Rightarrow> pubkey \<Rightarrow> pubkey list \<Rightarrow> u64 \<Rightarrow> world \<Rightarrow> RedeemQuote res" where
  "execute_preview_redeem e holder grai_mint holder_grai_ata remaining grai_amount w =
     and_then (accounts_PreviewRedeem e holder grai_mint holder_grai_ata w) (\<lambda>(gm, a).
     and_then (require (liquidation (grai_state w)) LiquidationClosed) (\<lambda>_.
     and_then (redeem_unlock_at (grai_state w)) (\<lambda>unlock_at.
     and_then (require (sint unlock_at \<le> sint (unix_timestamp e)) LiquidationDelay) (\<lambda>_.
     let supply' = mi_supply gm in
     and_then (require (0 < supply') InvalidAmount) (\<lambda>_.
     let locked = (case escrows w holder of None \<Rightarrow> 0 | Some x \<Rightarrow> es_amount x) in
     and_then (ok_or (checked_add (tk_amount a) locked) MathOverflow) (\<lambda>holder_amount.
     and_then (require (0 < grai_amount) InvalidAmount) (\<lambda>_.
     and_then (require (grai_amount \<le> holder_amount) InvalidAmount) (\<lambda>_.
     let ms = asset_mints (grai_state w) in
     and_then (require (length remaining = length ms * 2) InvalidRemainingAccounts) (\<lambda>_.
     and_then (redeem_shares e remaining ms grai_amount supply' w) (\<lambda>xs.
     Ok \<lparr> rq_assets = map fst xs, rq_amounts = map snd xs \<rparr>))))))))))"

section \<open>Views\<close>

definition execute_get_assets :: "env \<Rightarrow> world \<Rightarrow> pubkey list res" where
  "execute_get_assets e w =
     and_then (check_grai_state e w) (\<lambda>_. Ok (asset_mints (grai_state w)))"

definition escrow_view :: "pubkey \<Rightarrow> Escrow \<Rightarrow> EscrowView" where
  "escrow_view owner x =
     \<lparr> ev_account = owner, ev_locker_id = es_locker_id x, ev_amount = es_amount x,
       ev_voted = es_voted x, ev_voted_at = es_voted_at x, ev_voter_id = es_voter_id x \<rparr>"

fun read_escrow_rows :: "env \<Rightarrow> pubkey list \<Rightarrow> pubkey list \<Rightarrow> world \<Rightarrow> EscrowView list res" where
  "read_escrow_rows e (owner # owners) (info # infos) w =
     and_then (require (info = pda e (EscrowSeed owner)) InvalidRemainingAccounts) (\<lambda>_.
     and_then (ok_or (escrows w owner) InvalidRemainingAccounts) (\<lambda>x.
     and_then (read_escrow_rows e owners infos w) (\<lambda>rows.
     Ok (escrow_view owner x # rows))))"
| "read_escrow_rows e _ _ w = Ok []"

definition read_escrow_range ::
  "env \<Rightarrow> pubkey list \<Rightarrow> nat \<Rightarrow> nat \<Rightarrow> pubkey list \<Rightarrow> world \<Rightarrow> EscrowView list res" where
  "read_escrow_range e owners from to remaining w =
     and_then (require (length remaining = to - from) InvalidRemainingAccounts) (\<lambda>_.
     read_escrow_rows e (slice from to owners) remaining w)"

definition execute_get_lockers ::
  "env \<Rightarrow> u32 \<Rightarrow> u32 \<Rightarrow> pubkey list \<Rightarrow> world \<Rightarrow> EscrowView list res" where
  "execute_get_lockers e from_id to_id remaining w =
     and_then (check_grai_state e w) (\<lambda>_.
     and_then (require (from_id < to_id) InvalidLockerRange) (\<lambda>_.
     let ls = lockers (grai_state w); to = min (unat to_id) (length ls); from = unat from_id in
     and_then (require (from < to) InvalidLockerRange) (\<lambda>_.
     read_escrow_range e ls from to remaining w)))"

definition execute_get_voters ::
  "env \<Rightarrow> u32 \<Rightarrow> u32 \<Rightarrow> pubkey list \<Rightarrow> world \<Rightarrow> EscrowView list res" where
  "execute_get_voters e from_id to_id remaining w =
     and_then (check_grai_state e w) (\<lambda>_.
     and_then (require (from_id < to_id) InvalidVoterRange) (\<lambda>_.
     let vs = voters (grai_state w); to = min (unat to_id) (length vs); from = unat from_id in
     and_then (require (from < to) InvalidVoterRange) (\<lambda>_.
     read_escrow_range e vs from to remaining w)))"

definition read_referrer_row :: "env \<Rightarrow> pubkey \<Rightarrow> pubkey \<Rightarrow> world \<Rightarrow> LockerDataView res" where
  "read_referrer_row e info locker w =
     and_then (require (info = pda e (ReferrerSeed locker)) InvalidRemainingAccounts) (\<lambda>_.
     let none = \<lparr> rv_value = 0, rv_l1_value = 0, rv_l2_value = 0, rv_referrer = default_pubkey \<rparr>;
         row = \<lparr> ld_locker = locker, ld_referrer = default_pubkey, ld_owner_of = default_pubkey,
                 ld_nft_mint = default_pubkey, ld_book = none, ld_assets = [], ld_claimable = [] \<rparr> in
     Ok (case books w locker of
           None \<Rightarrow> row
         | Some b \<Rightarrow> row\<lparr>ld_referrer := rf_referrer b, ld_nft_mint := rf_nft_mint b,
             ld_book := \<lparr> rv_value = rf_value b, rv_l1_value = rf_l1_value b,
                          rv_l2_value = rf_l2_value b, rv_referrer = rf_referrer b \<rparr>\<rparr>))"

definition read_escrow_locked :: "env \<Rightarrow> pubkey \<Rightarrow> pubkey \<Rightarrow> world \<Rightarrow> u64 res" where
  "read_escrow_locked e info locker w =
     and_then (require (info = pda e (EscrowSeed locker)) InvalidRemainingAccounts) (\<lambda>_.
     Ok (case escrows w locker of None \<Rightarrow> 0 | Some x \<Rightarrow> es_amount x))"

fun pending_for_mints ::
  "env \<Rightarrow> pubkey \<Rightarrow> u64 \<Rightarrow> pubkey list \<Rightarrow> pubkey list \<Rightarrow> pubkey list \<Rightarrow> world \<Rightarrow> u64 list res" where
  "pending_for_mints e locker locked (mint # ms) (a # as) (p # ps) w =
     and_then (pending_for_holder e a p locker mint locked w) (\<lambda>x.
     and_then (pending_for_mints e locker locked ms as ps w) (\<lambda>xs. Ok (x # xs)))"
| "pending_for_mints e locker locked _ _ _ w = Ok []"

fun locker_rows ::
  "env \<Rightarrow> pubkey list \<Rightarrow> pubkey list \<Rightarrow> pubkey list \<Rightarrow> pubkey list \<Rightarrow> pubkey list \<Rightarrow> pubkey list \<Rightarrow> world \<Rightarrow>
   LockerDataView list res" where
  "locker_rows e ms (locker # ls) (r # rs) (x # xs) as ps w =
     and_then (read_referrer_row e r locker w) (\<lambda>row.
     and_then (read_escrow_locked e x locker w) (\<lambda>locked.
     and_then (pending_for_mints e locker locked ms as (take (length ms) ps) w) (\<lambda>claimable.
     and_then (locker_rows e ms ls rs xs as (drop (length ms) ps) w) (\<lambda>rows.
     Ok (row\<lparr>ld_assets := ms, ld_claimable := claimable\<rparr> # rows)))))"
| "locker_rows e ms _ _ _ as ps w = Ok []"

text \<open>The account count is computed in \<open>usize\<close> with checked arithmetic.\<close>

definition execute_get_lockers_data ::
  "env \<Rightarrow> u32 \<Rightarrow> u32 \<Rightarrow> pubkey list \<Rightarrow> world \<Rightarrow> LockerDataView list res" where
  "execute_get_lockers_data e from_id to_id remaining w =
     and_then (check_grai_state e w) (\<lambda>_.
     and_then (require (from_id < to_id) InvalidReferralRange) (\<lambda>_.
     let rs = referrers (grai_state w); from = unat from_id in
     if length rs \<le> from then Ok []
     else
       let to = min (unat to_id) (length rs) in
       and_then (require (from < to) InvalidReferralRange) (\<lambda>_.
       let ls = slice from to rs; m = length ls; ms = asset_mints (grai_state w); n = length ms;
           expected = m * 2 + n + m * n in
       and_then (require (expected < 2 ^ 64) MathOverflow) (\<lambda>_.
       and_then (require (length remaining = expected) InvalidRemainingAccounts) (\<lambda>_.
       locker_rows e ms ls (take m remaining) (slice m (2 * m) remaining)
         (slice (2 * m) (2 * m + n) remaining) (drop (2 * m + n) remaining) w)))))"

fun redeemables ::
  "env \<Rightarrow> pubkey list \<Rightarrow> pubkey list \<Rightarrow> world \<Rightarrow> u64 list res" where
  "redeemables e (a # v # rest) (mint # ms) w =
     and_then (require (a = pda e (AssetSeed mint)) InvalidRemainingAccounts) (\<lambda>_.
     and_then (ok_or (assets w mint) InvalidRemainingAccounts) (\<lambda>asset.
     and_then (require (ac_asset_mint asset = mint) AssetUnknown) (\<lambda>_.
     and_then (require (v = vault_key e mint) InvalidRemainingAccounts) (\<lambda>_.
     and_then (account (token_accounts (ledger w) v)) (\<lambda>va.
     and_then (require (tk_mint va = mint) InvalidDestination) (\<lambda>_.
     and_then (redeemables e rest ms w) (\<lambda>xs.
     Ok (redeemable_balance (tk_amount va) (total_claimable asset) # xs))))))))"
| "redeemables e _ _ w = Ok []"

definition execute_get_redeemables :: "env \<Rightarrow> pubkey list \<Rightarrow> world \<Rightarrow> RedeemQuote res" where
  "execute_get_redeemables e remaining w =
     and_then (check_grai_state e w) (\<lambda>_.
     and_then (require (liquidation (grai_state w)) LiquidationClosed) (\<lambda>_.
     let ms = asset_mints (grai_state w) in
     and_then (require (length remaining = length ms * 2) InvalidRemainingAccounts) (\<lambda>_.
     and_then (redeemables e remaining ms w) (\<lambda>amounts.
     Ok \<lparr> rq_assets = ms, rq_amounts = amounts \<rparr>))))"

definition execute_has_quorum :: "env \<Rightarrow> pubkey \<Rightarrow> world \<Rightarrow> bool res" where
  "execute_has_quorum e grai_mint w =
     and_then (check_grai_state e w) (\<lambda>_.
     and_then (check_grai_mint e grai_mint w) (\<lambda>gm.
     has_quorum (total_voted (grai_state w)) (mi_supply gm) (quorum_bps (gs_config (grai_state w)))))"

end
