(* ===== verification/Lock_Book.thy ===== *)
theory Lock_Book
  imports Locks
begin

text \<open>
  The lock book: the totals, the enumerable lists and the escrows agree. The invariant is
  preserved by lock, vote and unlock here, and by the instructions of later theories through
  the one update lemma \<open>lock_book_update\<close>.
\<close>

section \<open>The invariant\<close>

definition lock_book ::
  "env \<Rightarrow> nat \<Rightarrow> nat \<Rightarrow> pubkey list \<Rightarrow> pubkey list \<Rightarrow> (pubkey \<rightharpoonup> Escrow) \<Rightarrow> bool" where
  "lock_book e tk tv ls vs E \<longleftrightarrow>
     finite (dom E) \<and>
     tk = msum (\<lambda>x. unat (es_amount x)) E \<and>
     tv = msum (\<lambda>x. unat (es_voted x)) E \<and>
     tracks (\<lambda>u. \<exists>x. E u = Some x \<and> es_amount x \<noteq> 0) ls \<and>
     tracks (\<lambda>u. \<exists>x. E u = Some x \<and> es_voted x \<noteq> 0) vs \<and>
     (\<forall>u x. E u = Some x \<longrightarrow> es_voted x \<le> es_amount x \<and>
        (es_amount x \<noteq> 0 \<longrightarrow> es_bump x = pda_bump e (EscrowSeed u)))"

definition lock_inv :: "env \<Rightarrow> world \<Rightarrow> bool" where
  "lock_inv e w \<longleftrightarrow>
     lock_book e (unat (total_locked (grai_state w))) (unat (total_voted (grai_state w)))
       (lockers (grai_state w)) (voters (grai_state w)) (escrows w)"

definition list_follow :: "bool \<Rightarrow> bool \<Rightarrow> pubkey \<Rightarrow> pubkey list \<Rightarrow> pubkey list" where
  "list_follow before after u xs =
     (if before then (if after then xs else remove_from_list xs u)
      else (if after then xs @ [u] else xs))"

text \<open>
  Replacing one account's escrow keeps the book when the totals move by the same difference
  and the lists follow the account's status. A missing escrow counts as an empty one.
\<close>

lemma lock_book_update:
  assumes book: "lock_book e tk tv ls vs E"
    and old: "(case E u of None \<Rightarrow> empty_escrow | Some x \<Rightarrow> x) = x"
    and new: "es_voted x' \<le> es_amount x'"
      "es_amount x' \<noteq> 0 \<Longrightarrow> es_bump x' = pda_bump e (EscrowSeed u)"
    and tk: "tk' + unat (es_amount x) = tk + unat (es_amount x')"
    and tv: "tv' + unat (es_voted x) = tv + unat (es_voted x')"
    and ls: "ls' = list_follow (es_amount x \<noteq> 0) (es_amount x' \<noteq> 0) u ls"
    and vs: "vs' = list_follow (es_voted x \<noteq> 0) (es_voted x' \<noteq> 0) u vs"
  shows "lock_book e tk' tv' ls' vs' (E(u \<mapsto> x'))"
proof -
  note b = book [unfolded lock_book_def]
  have fin: "finite (dom E)" using b by blast
  have amt: "tk' = msum (\<lambda>x. unat (es_amount x)) (E(u \<mapsto> x'))"
    using msum_upd [OF fin, of "\<lambda>x. unat (es_amount x)" u x'] b tk old
    by (auto simp: empty_escrow_def split: option.splits)
  have vot: "tv' = msum (\<lambda>x. unat (es_voted x)) (E(u \<mapsto> x'))"
    using msum_upd [OF fin, of "\<lambda>x. unat (es_voted x)" u x'] b tv old
    by (auto simp: empty_escrow_def split: option.splits)
  have flag_a: "(\<exists>y. E u = Some y \<and> es_amount y \<noteq> 0) \<longleftrightarrow> es_amount x \<noteq> 0"
    using old by (auto simp: empty_escrow_def split: option.splits)
  have flag_v: "(\<exists>y. E u = Some y \<and> es_voted y \<noteq> 0) \<longleftrightarrow> es_voted x \<noteq> 0"
    using old by (auto simp: empty_escrow_def split: option.splits)
  have "tracks (\<lambda>w. \<exists>y. (E(u \<mapsto> x')) w = Some y \<and> es_amount y \<noteq> 0) ls'"
    by (rule reg.tracks_follow [where flag = "\<lambda>w. \<exists>y. E w = Some y \<and> es_amount y \<noteq> 0" and u = u
          and xs = ls])
      (use b in blast, simp, simp only: ls list_follow_def flag_a, simp)
  moreover have "tracks (\<lambda>w. \<exists>y. (E(u \<mapsto> x')) w = Some y \<and> es_voted y \<noteq> 0) vs'"
    by (rule reg.tracks_follow [where flag = "\<lambda>w. \<exists>y. E w = Some y \<and> es_voted y \<noteq> 0" and u = u
          and xs = vs])
      (use b in blast, simp, simp only: vs list_follow_def flag_v, simp)
  ultimately show ?thesis
    unfolding lock_book_def using fin amt vot b new by auto
qed

lemma lock_inv_cong:
  assumes "lock_inv e w" "escrows w' = escrows w"
    "total_locked (grai_state w') = total_locked (grai_state w)"
    "total_voted (grai_state w') = total_voted (grai_state w)"
    "lockers (grai_state w') = lockers (grai_state w)" "voters (grai_state w') = voters (grai_state w)"
  shows "lock_inv e w'"
  using assms by (simp add: lock_inv_def)

lemma lock_inv_pos_only: "pos_only user w w' \<Longrightarrow> lock_inv e w \<Longrightarrow> lock_inv e w'"
  by (elim pos_onlyE) (simp add: lock_inv_def)

lemma lock_inv_rent_only: "rent_only w w' \<Longrightarrow> lock_inv e w \<Longrightarrow> lock_inv e w'"
  by (elim rent_onlyE) (simp add: lock_inv_def)

lemma lock_inv_ledger: "lock_inv e w \<Longrightarrow> lock_inv e (w\<lparr>ledger := l\<rparr>)"
  by (simp add: lock_inv_def)

section \<open>Account checks\<close>

text \<open>\<open>ledger_only\<close>: nothing but the ledger changes, and no balance does.\<close>

definition ledger_only :: "world \<Rightarrow> world \<Rightarrow> bool" where
  "ledger_only w w' \<longleftrightarrow> (\<exists>l. w' = w\<lparr>ledger := l\<rparr> \<and> mints l = mints (ledger w) \<and>
     same_shape (ledger w) l \<and> (\<forall>k. bal l k = bal (ledger w) k))"

lemma ledger_onlyE:
  assumes "ledger_only w w'"
  obtains l where "w' = w\<lparr>ledger := l\<rparr>" "mints l = mints (ledger w)" "same_shape (ledger w) l"
    "\<forall>k. bal l k = bal (ledger w) k"
  using assms by (auto simp: ledger_only_def)

lemma ledger_only_refl [simp]: "ledger_only w w"
  unfolding ledger_only_def by (rule exI [of _ "ledger w"]) simp

lemma init_token_if_needed_Ok:
  assumes "env_laws e" "init_token_if_needed e payer key mint own w = Ok w'"
  shows "ledger_only w w'"
    "\<exists>a. token_accounts (ledger w') key = Some a \<and> tk_mint a = mint \<and> tk_owner a = own"
proof -
  have "ledger_only w w' \<and>
    (\<exists>a. token_accounts (ledger w') key = Some a \<and> tk_mint a = mint \<and> tk_owner a = own)"
  proof (cases "token_accounts (ledger w) key")
    case (Some a)
    then have "w' = w" "tk_mint a = mint" "tk_owner a = own"
      using assms(2) by (simp_all add: init_token_if_needed_def step_iffs)
    with Some show ?thesis by simp
  next
    case None
    then obtain l where l: "spl_init_account e payer key mint own (ledger w) = Some l"
        "w' = w\<lparr>ledger := l\<rparr>"
      using assms(2) by (auto simp: init_token_if_needed_def ok_simps)
    note i = init_lawD [OF assms(1) l(1)]
    then have "same_shape (ledger w) l" by (auto simp: same_shape_def)
    with i l show ?thesis by (auto simp: ledger_only_def)
  qed
  then show "ledger_only w w'"
    "\<exists>a. token_accounts (ledger w') key = Some a \<and> tk_mint a = mint \<and> tk_owner a = own" by simp_all
qed

lemma init_escrow_if_needed_Ok:
  assumes "env_laws e" "init_escrow_if_needed e payer user w = Ok w'"
  obtains l where "token_accounts l = token_accounts (ledger w)" "mints l = mints (ledger w)"
    "w' = (case escrows w user of Some x \<Rightarrow> w
           | None \<Rightarrow> set_escrow user empty_escrow (w\<lparr>ledger := l\<rparr>))"
proof (cases "escrows w user")
  case (Some x)
  then have "w' = w" using assms(2) by (simp add: init_escrow_if_needed_def)
  with Some show thesis by (intro that [of "ledger w"]) simp_all
next
  case None
  then obtain w1 where w1: "invoke (anchor_init e payer (pda e (EscrowSeed user)) (8 + Escrow_LEN)) w
      = Ok w1" "w' = set_escrow user empty_escrow w1"
    using assms(2) by (auto simp: init_escrow_if_needed_def step_iffs)
  have "rent_only w w1" using w1(1) by (rule rent_only_invoke(6) [OF assms(1)])
  then show thesis using w1(2) None that by (auto elim: rent_onlyE)
qed

lemma init_escrow_if_needed_inv:
  assumes "env_laws e" "init_escrow_if_needed e payer user w = Ok w'" "lock_inv e w"
  shows "lock_inv e w'"
proof -
  obtain l where w': "w' = (case escrows w user of Some x \<Rightarrow> w
           | None \<Rightarrow> set_escrow user empty_escrow (w\<lparr>ledger := l\<rparr>))"
    using init_escrow_if_needed_Ok [OF assms(1,2)] .
  show ?thesis
  proof (cases "escrows w user")
    case (Some x)
    then show ?thesis using w' assms(3) by simp
  next
    case None
    have "lock_book e (unat (total_locked (grai_state w))) (unat (total_voted (grai_state w)))
       (lockers (grai_state w)) (voters (grai_state w)) ((escrows w)(user \<mapsto> empty_escrow))"
      by (rule lock_book_update [OF assms(3) [unfolded lock_inv_def], where x = empty_escrow])
        (simp_all add: None empty_escrow_def list_follow_def)
    then show ?thesis using w' None by (simp add: lock_inv_def set_escrow_def)
  qed
qed

section \<open>The lock step\<close>

lemma enter_lockers_Ok:
  assumes "env_laws e" "enter_lockers e bump user x w = Ok (x', w')"
  obtains l where "w' = w\<lparr>ledger := l, grai_state := (grai_state w)\<lparr>lockers := lockers (grai_state w) @ [user]\<rparr>\<rparr>"
    "token_accounts l = token_accounts (ledger w)" "mints l = mints (ledger w)"
    "es_amount x' = es_amount x" "es_voted x' = es_voted x" "es_bump x' = bump"
proof -
  obtain w1 where w1: "realloc_grai_state e user (grai_space (grai_state w) 1 0 0) w = Ok w1"
      "x' = x\<lparr>es_locker_id := word_of_nat (length (lockers (grai_state w1))), es_bump := bump\<rparr>"
      "w' = upd_state (lockers_update (\<lambda>ls. ls @ [user])) w1"
    using assms(2) unfolding enter_lockers_def by (elim and_then_OkE) auto
  have "rent_only w w1" by (rule realloc_grai_state_Ok [OF assms(1) w1(1)])
  then obtain l where l: "w1 = w\<lparr>ledger := l\<rparr>" "token_accounts l = token_accounts (ledger w)"
      "mints l = mints (ledger w)" by (rule rent_onlyE)
  show thesis
  proof (rule that [of l])
    show "w' = w\<lparr>ledger := l, grai_state := (grai_state w)\<lparr>lockers := lockers (grai_state w) @ [user]\<rparr>\<rparr>"
      using w1(3) l(1) by (simp add: upd_state_def)
  qed (rule l(2), rule l(3), simp_all add: w1(2))
qed

text \<open>The world after a lock step, up to the ledger and the positions.\<close>

definition locked_world :: "pubkey \<Rightarrow> Escrow \<Rightarrow> Escrow \<Rightarrow> u64 \<Rightarrow> world \<Rightarrow> world" where
  "locked_world user x x' tlk w =
     w\<lparr>grai_state := (grai_state w)\<lparr>total_locked := tlk,
           lockers := (if es_amount x = 0 then lockers (grai_state w) @ [user]
                       else lockers (grai_state w))\<rparr>,
       escrows := (escrows w)(user \<mapsto> x')\<rparr>"

lemma enter_or_stay:
  assumes "env_laws e"
    and "(if es_amount x = 0 then enter_lockers e bump user x w else Ok (x, w)) = Ok (x', w')"
  obtains l where "w' = w\<lparr>ledger := l, grai_state := (grai_state w)\<lparr>lockers :=
        (if es_amount x = 0 then lockers (grai_state w) @ [user] else lockers (grai_state w))\<rparr>\<rparr>"
    "token_accounts l = token_accounts (ledger w)" "mints l = mints (ledger w)"
    "es_amount x' = es_amount x" "es_voted x' = es_voted x"
    "es_bump x' = (if es_amount x = 0 then bump else es_bump x)"
proof (cases "es_amount x = 0")
  case True
  then have "enter_lockers e bump user x w = Ok (x', w')" using assms(2) by simp
  then obtain l where l: "w' = w\<lparr>ledger := l, grai_state := (grai_state w)\<lparr>lockers := lockers (grai_state w) @ [user]\<rparr>\<rparr>"
    "token_accounts l = token_accounts (ledger w)" "mints l = mints (ledger w)"
    "es_amount x' = es_amount x" "es_voted x' = es_voted x" "es_bump x' = bump"
    using enter_lockers_Ok [OF assms(1)] by blast
  show thesis by (rule that [OF _ l(2,3,4,5)]) (simp_all add: l(1,6) True)
next
  case False
  then have "w' = w" "x' = x" using assms(2) by simp_all
  with False show thesis by (intro that [of "ledger w"]) simp_all
qed

lemma perform_lock_Ok:
  assumes "env_laws e" "perform_lock e bump amt source vault user remaining w = Ok w'"
  obtains x x' tlk P l where "escrows w user = Some x" "0 < unat amt"
    "unat (es_amount x') = unat (es_amount x) + unat amt" "es_voted x' = es_voted x"
    "es_bump x' = (if es_amount x = 0 then bump else es_bump x)"
    "unat tlk = unat (total_locked (grai_state w)) + unat amt"
    "w' = (locked_world user x x' tlk w)\<lparr>positions := P, ledger := l\<rparr>"
    "moved source vault (unat amt) (ledger w) l"
proof -
  obtain x new w1 p tlk where
      amt: "0 < amt" and x: "escrows w user = Some x"
      and new: "checked_add (es_amount x) amt = Some new"
      and s: "settle_all_pairs e remaining (asset_mints (grai_state w)) user (es_amount x) new user w
         = Ok w1"
      and r: "(if es_amount x = 0 then enter_lockers e bump user x w1 else Ok (x, w1)) = Ok p"
      and tlk: "checked_add (total_locked (grai_state (snd p))) amt = Some tlk"
      and t: "invoke (spl_transfer e source vault user amt) (set_escrow user ((fst p)\<lparr>es_amount := new\<rparr>)
               (upd_state (total_locked_update (\<lambda>_. tlk)) (snd p))) = Ok w'"
    using assms(2) unfolding perform_lock_def
    by (elim and_then_OkE)
      (simp add: require_Ok_iff account_Ok_iff ok_or_Ok_iff case_prod_beta and_then_Ok_iff, blast)
  obtain P l1 where w1: "w1 = w\<lparr>positions := P, ledger := l1\<rparr>"
      "token_accounts l1 = token_accounts (ledger w)" "mints l1 = mints (ledger w)"
    using settle_all_pairs_Ok [OF assms(1) s] by (rule pos_onlyE)
  obtain x2 w2 where p: "p = (x2, w2)" by (cases p)
  obtain l2 where w2: "w2 = w1\<lparr>ledger := l2, grai_state := (grai_state w1)\<lparr>lockers :=
        (if es_amount x = 0 then lockers (grai_state w1) @ [user] else lockers (grai_state w1))\<rparr>\<rparr>"
      and l2: "token_accounts l2 = token_accounts (ledger w1)" "mints l2 = mints (ledger w1)"
      and x2: "es_amount x2 = es_amount x" "es_voted x2 = es_voted x"
        "es_bump x2 = (if es_amount x = 0 then bump else es_bump x)"
    using enter_or_stay [OF assms(1) r [unfolded p]] .
  obtain l where l: "spl_transfer e source vault user amt l2 = Some l"
      and w': "w' = (set_escrow user (x2\<lparr>es_amount := new\<rparr>)
               (upd_state (total_locked_update (\<lambda>_. tlk)) w2))\<lparr>ledger := l\<rparr>"
    using t p w2 by (auto simp: invoke_Ok set_escrow_def upd_state_def)
  have mv: "moved source vault (unat amt) (ledger w) l"
    using spl_transfer_moved [OF assms(1) l] l2 w1
    by (simp add: moved_def same_shape_def none_new_def bal_def)
  show thesis
  proof (rule that [of x "x2\<lparr>es_amount := new\<rparr>" tlk l P])
    show "w' = (locked_world user x (x2\<lparr>es_amount := new\<rparr>) tlk w)\<lparr>positions := P, ledger := l\<rparr>"
      using w' w2 w1 by (simp add: locked_world_def set_escrow_def upd_state_def)
    show "unat tlk = unat (total_locked (grai_state w)) + unat amt"
      using tlk p w2 w1 by (simp add: checked_add_Some)
  qed (use x amt new x2 mv in \<open>simp_all add: checked_add_Some word_less_nat_alt\<close>)
qed

lemma perform_lock_inv:
  assumes "env_laws e" "perform_lock e (pda_bump e (EscrowSeed user)) amt source vault user remaining w = Ok w'"
    and "lock_inv e w"
  shows "lock_inv e w'"
proof -
  obtain x x' tlk l P where h: "escrows w user = Some x" "0 < unat amt"
    "unat (es_amount x') = unat (es_amount x) + unat amt" "es_voted x' = es_voted x"
    "es_bump x' = (if es_amount x = 0 then pda_bump e (EscrowSeed user) else es_bump x)"
    "unat tlk = unat (total_locked (grai_state w)) + unat amt"
    and w': "w' = (locked_world user x x' tlk w)\<lparr>positions := P, ledger := l\<rparr>"
    by (rule perform_lock_Ok [OF assms(1,2)]) (rule that, assumption+)
  note b = assms(3) [unfolded lock_inv_def lock_book_def]
  have x: "es_voted x \<le> es_amount x" "es_amount x \<noteq> 0 \<Longrightarrow> es_bump x = pda_bump e (EscrowSeed user)"
    using b h(1) by blast+
  have nz: "es_amount x' \<noteq> 0" using h(2,3) unat_eq_zero [of "es_amount x'"] by auto
  have "lock_book e (unat tlk) (unat (total_voted (grai_state w)))
      (if es_amount x = 0 then lockers (grai_state w) @ [user] else lockers (grai_state w))
      (voters (grai_state w)) ((escrows w)(user \<mapsto> x'))"
  proof (rule lock_book_update [OF assms(3) [unfolded lock_inv_def], where x = x])
    show "es_voted x' \<le> es_amount x'" using x(1) h(3,4) by (simp add: word_le_nat_alt)
    show "es_bump x' = pda_bump e (EscrowSeed user)" using h(5) x(2) by simp
  qed (use h nz in \<open>simp_all add: list_follow_def\<close>)
  then show ?thesis using w' by (simp add: lock_inv_def locked_world_def)
qed

section \<open>The vote step\<close>

definition voted_world :: "pubkey \<Rightarrow> Escrow \<Rightarrow> Escrow \<Rightarrow> u64 \<Rightarrow> world \<Rightarrow> world" where
  "voted_world user x x' tv w =
     w\<lparr>grai_state := (grai_state w)\<lparr>total_voted := tv,
           voters := (if es_voted x = 0 then voters (grai_state w) @ [user]
                      else voters (grai_state w))\<rparr>,
       escrows := (escrows w)(user \<mapsto> x')\<rparr>"

lemma enter_voters_or_stay:
  assumes "env_laws e"
    and "(if es_voted x = 0 then enter_voters e bump user payer x w else Ok (x, w)) = Ok (x', w')"
  obtains l where "w' = w\<lparr>ledger := l, grai_state := (grai_state w)\<lparr>voters :=
        (if es_voted x = 0 then voters (grai_state w) @ [user] else voters (grai_state w))\<rparr>\<rparr>"
    "token_accounts l = token_accounts (ledger w)" "mints l = mints (ledger w)"
    "es_amount x' = es_amount x" "es_voted x' = es_voted x"
    "es_bump x' = (if es_voted x = 0 then bump else es_bump x)"
proof (cases "es_voted x = 0")
  case True
  then have "enter_voters e bump user payer x w = Ok (x', w')" using assms(2) by simp
  then obtain w1 where w1: "realloc_grai_state e payer (grai_space (grai_state w) 0 1 0) w = Ok w1"
      "x' = x\<lparr>es_voter_id := word_of_nat (length (voters (grai_state w1))), es_bump := bump\<rparr>"
      "w' = upd_state (voters_update (\<lambda>vs. vs @ [user])) w1"
    unfolding enter_voters_def by (elim and_then_OkE) auto
  have "rent_only w w1" by (rule realloc_grai_state_Ok [OF assms(1) w1(1)])
  then obtain l where l: "w1 = w\<lparr>ledger := l\<rparr>" "token_accounts l = token_accounts (ledger w)"
      "mints l = mints (ledger w)" by (rule rent_onlyE)
  have "w' = w\<lparr>ledger := l, grai_state := (grai_state w)\<lparr>voters :=
        (if es_voted x = 0 then voters (grai_state w) @ [user] else voters (grai_state w))\<rparr>\<rparr>"
    using w1(3) l(1) True by (simp add: upd_state_def)
  from that [OF this l(2,3)] show thesis by (simp add: w1(2) True)
next
  case False
  then have "w' = w" "x' = x" using assms(2) by simp_all
  with False show thesis by (intro that [of "ledger w"]) simp_all
qed

lemma perform_vote_Ok:
  assumes "env_laws e" "perform_vote e bump amt user payer remaining now w = Ok w'"
  obtains x x' tv l P where "escrows w user = Some x" "0 < unat amt"
    "es_amount x' = es_amount x" "unat (es_voted x') = unat (es_voted x) + unat amt"
    "es_voted x' \<le> es_amount x'" "es_bump x' = (if es_voted x = 0 then bump else es_bump x)"
    "unat tv = unat (total_voted (grai_state w)) + unat amt"
    "w' = (voted_world user x x' tv w)\<lparr>positions := P, ledger := l\<rparr>"
    "token_accounts l = token_accounts (ledger w)" "mints l = mints (ledger w)"
proof -
  obtain x new w1 p tv where
      amt: "0 < amt" and x: "escrows w user = Some x"
      and new: "checked_add (es_voted x) amt = Some new" "new \<le> es_amount x"
      and s: "settle_all_pairs e remaining (asset_mints (grai_state w)) user (es_amount x)
                 (es_amount x) payer w = Ok w1"
      and r: "(if es_voted x = 0 then enter_voters e bump user payer x w1 else Ok (x, w1)) = Ok p"
      and tv: "checked_add (total_voted (grai_state (snd p))) amt = Some tv"
      and w': "w' = set_escrow user ((fst p)\<lparr>es_voted := new, es_voted_at := now\<rparr>)
               (upd_state (total_voted_update (\<lambda>_. tv)) (snd p))"
    using assms(2) unfolding perform_vote_def
    by (elim and_then_OkE)
      (simp add: require_Ok_iff account_Ok_iff ok_or_Ok_iff case_prod_beta and_then_Ok_iff, blast)
  obtain P l1 where w1: "w1 = w\<lparr>positions := P, ledger := l1\<rparr>"
      "token_accounts l1 = token_accounts (ledger w)" "mints l1 = mints (ledger w)"
    using settle_all_pairs_Ok [OF assms(1) s] by (rule pos_onlyE)
  obtain x2 w2 where p: "p = (x2, w2)" by (cases p)
  obtain l2 where w2: "w2 = w1\<lparr>ledger := l2, grai_state := (grai_state w1)\<lparr>voters :=
        (if es_voted x = 0 then voters (grai_state w1) @ [user] else voters (grai_state w1))\<rparr>\<rparr>"
      and l2: "token_accounts l2 = token_accounts (ledger w1)" "mints l2 = mints (ledger w1)"
      and x2: "es_amount x2 = es_amount x" "es_voted x2 = es_voted x"
        "es_bump x2 = (if es_voted x = 0 then bump else es_bump x)"
    using enter_voters_or_stay [OF assms(1) r [unfolded p]] .
  let ?x' = "x2\<lparr>es_voted := new, es_voted_at := now\<rparr>"
  have w'_eq: "w' = (voted_world user x ?x' tv w)\<lparr>positions := P, ledger := l2\<rparr>"
    using w' p w2 w1 by (simp add: voted_world_def set_escrow_def upd_state_def)
  have tv_nat: "unat tv = unat (total_voted (grai_state w)) + unat amt"
    using tv p w2 w1 by (simp add: checked_add_Some)
  show thesis
    by (rule that [OF x _ _ _ _ _ tv_nat w'_eq])
      (use amt new x2 l2 w1 in \<open>simp_all add: checked_add_Some word_less_nat_alt\<close>)
qed

lemma perform_vote_inv:
  assumes "env_laws e" "perform_vote e (pda_bump e (EscrowSeed user)) amt user payer remaining now w = Ok w'"
    and "lock_inv e w"
  shows "lock_inv e w'"
proof -
  obtain x x' tv l P where h: "escrows w user = Some x" "0 < unat amt"
    "es_amount x' = es_amount x" "unat (es_voted x') = unat (es_voted x) + unat amt"
    "es_voted x' \<le> es_amount x'"
    "es_bump x' = (if es_voted x = 0 then pda_bump e (EscrowSeed user) else es_bump x)"
    "unat tv = unat (total_voted (grai_state w)) + unat amt"
    and w': "w' = (voted_world user x x' tv w)\<lparr>positions := P, ledger := l\<rparr>"
    using perform_vote_Ok [OF assms(1,2)] by metis
  have nz: "es_voted x' \<noteq> 0" using h(2,4) unat_eq_zero [of "es_voted x'"] by auto
  have "es_amount x \<noteq> 0 \<Longrightarrow> es_bump x = pda_bump e (EscrowSeed user)"
    using assms(3) h(1) unfolding lock_inv_def lock_book_def by blast
  then have bump: "es_amount x' \<noteq> 0 \<Longrightarrow> es_bump x' = pda_bump e (EscrowSeed user)"
    using h(3,6) by simp
  have "lock_book e (unat (total_locked (grai_state w))) (unat tv) (lockers (grai_state w))
      (if es_voted x = 0 then voters (grai_state w) @ [user] else voters (grai_state w))
      ((escrows w)(user \<mapsto> x'))"
    by (rule lock_book_update [OF assms(3) [unfolded lock_inv_def], where x = x])
      (use h nz bump in \<open>simp_all add: list_follow_def\<close>)
  then show ?thesis using w' by (simp add: lock_inv_def voted_world_def)
qed

section \<open>Unlocking\<close>

lemma clamp_vote_Ok:
  assumes "clamp_vote user w = Ok w'" and x: "escrows w user = Some x"
  obtains tv where
    "unat tv + unat (es_voted x) = unat (total_voted (grai_state w)) + unat (min (es_voted x) (es_amount x))"
    "w' = w\<lparr>grai_state := (grai_state w)\<lparr>total_voted := tv,
             voters := list_follow (es_voted x \<noteq> 0) (min (es_voted x) (es_amount x) \<noteq> 0) user
                         (voters (grai_state w))\<rparr>,
            escrows := (escrows w)(user \<mapsto> x\<lparr>es_voted := min (es_voted x) (es_amount x)\<rparr>)\<rparr>"
proof (cases "es_voted x = 0 \<or> es_voted x \<le> es_amount x")
  case True
  then have m: "min (es_voted x) (es_amount x) = es_voted x" by (auto simp: min_def)
  have w': "w' = w" using assms True by (simp add: clamp_vote_def Let_def)
  have "(escrows w)(user \<mapsto> x) = escrows w" using x by (simp add: fun_upd_idem_iff)
  then show thesis
    by (intro that [of "total_voted (grai_state w)"]) (simp_all add: m w' list_follow_def)
next
  case False
  then have m: "min (es_voted x) (es_amount x) = es_amount x" by (auto simp: min_def)
  obtain excess tv where ex: "checked_sub (es_voted x) (es_amount x) = Some excess"
      and tv: "checked_sub (total_voted (grai_state w)) excess = Some tv"
      and w': "w' = (let x = x\<lparr>es_voted := es_amount x\<rparr>;
           w = set_escrow user x (upd_state (total_voted_update (\<lambda>_. tv)) w) in
       if es_voted x = 0
           then upd_state (voters_update (\<lambda>vs. remove_from_list vs user)) w
           else w)"
    using assms(1) x False unfolding clamp_vote_def
    by (elim and_then_OkE) (auto simp: step_iffs Let_def)
  have nat: "unat tv + unat (es_voted x) = unat (total_voted (grai_state w)) + unat (es_amount x)"
    using ex tv by (simp add: checked_sub_Some)
  show thesis
    by (rule that [of tv]) (use nat m False in \<open>simp_all add: w' Let_def list_follow_def set_escrow_def
      upd_state_def\<close>)
qed

text \<open>The world after an unlock, up to the ledger and the positions.\<close>

definition unlocked_world :: "pubkey \<Rightarrow> Escrow \<Rightarrow> Escrow \<Rightarrow> u64 \<Rightarrow> u64 \<Rightarrow> world \<Rightarrow> world" where
  "unlocked_world user x x' tlk tv w =
     w\<lparr>grai_state := (grai_state w)\<lparr>total_locked := tlk, total_voted := tv,
           voters := list_follow (es_voted x \<noteq> 0) (es_voted x' \<noteq> 0) user (voters (grai_state w)),
           lockers := list_follow (es_amount x \<noteq> 0) (es_amount x' \<noteq> 0) user (lockers (grai_state w))\<rparr>,
       escrows := (escrows w)(user \<mapsto> x')\<rparr>"

lemma accounts_Unlock_Ok:
  assumes "env_laws e" "accounts_Unlock e user gm ata_key gr w = Ok (x, w')"
  shows "ledger_only w w'" "escrows w user = Some x" "es_bump x = pda_bump e (EscrowSeed user)"
    "gm = gs_grai_mint (grai_state w)" "gr = gs_grinders (grai_state w)"
    "init_token_if_needed e user (ata e gr gm) gm gr w = Ok w'"
proof -
  show i: "init_token_if_needed e user (ata e gr gm) gm gr w = Ok w'"
    using assms(2) by (auto simp: accounts_Unlock_def step_iffs)
  have
    "escrows w user = Some x \<and> es_bump x = pda_bump e (EscrowSeed user) \<and>
     gm = gs_grai_mint (grai_state w) \<and> gr = gs_grinders (grai_state w)"
    using assms(2)
    by (auto simp: accounts_Unlock_def step_iffs check_escrow_def check_grai_mint_def)
  then show "ledger_only w w'" "escrows w user = Some x" "es_bump x = pda_bump e (EscrowSeed user)"
    "gm = gs_grai_mint (grai_state w)" "gr = gs_grinders (grai_state w)"
    using init_token_if_needed_Ok(1) [OF assms(1) i] by blast+
qed

text \<open>Two transfers out of one account: what every balance loses and gains at most.\<close>

lemma moved_trans_shape: "moved a b n l l1 \<Longrightarrow> moved a c k l1 l2 \<Longrightarrow> same_shape l l2 \<and> mints l2 = mints l"
  unfolding moved_def using same_shape_trans by auto

lemma moved_source_ge: "moved a b n l l' \<Longrightarrow> bal l a - n \<le> bal l' a"
  by (simp add: moved_def)

lemma moved_other_ge: "moved a b n l l' \<Longrightarrow> k \<noteq> a \<Longrightarrow> bal l k \<le> bal l' k"
  by (simp add: moved_def)

text \<open>The ledger an unlock pays from: only the Grinders' account may have been created.\<close>

definition unlock_entry :: "env \<Rightarrow> pubkey \<Rightarrow> world \<Rightarrow> ledger \<Rightarrow> bool" where
  "unlock_entry e user w l0 \<longleftrightarrow> (\<exists>w0. init_token_if_needed e user
       (ata e (gs_grinders (grai_state w)) (gs_grai_mint (grai_state w))) (gs_grai_mint (grai_state w))
       (gs_grinders (grai_state w)) w = Ok w0 \<and>
     token_accounts l0 = token_accounts (ledger w0) \<and> mints l0 = mints (ledger w0))"

lemma execute_unlock_Ok:
  assumes "env_laws e" "execute_unlock e user gm ata_key gr remaining g w = Ok w'"
  obtains x x' tlk tv net pen P l l1 where "escrows w user = Some x"
    "\<not> liquidation (grai_state w)" "0 < unat g"
    "unat (es_amount x) = unat (es_amount x') + unat g"
    "es_voted x' = min (es_voted x) (es_amount x')" "es_bump x' = es_bump x"
    "es_bump x = pda_bump e (EscrowSeed user)"
    "unat (total_locked (grai_state w)) = unat tlk + unat g"
    "unat tv + unat (es_voted x) = unat (total_voted (grai_state w)) + unat (es_voted x')"
    "preview_unlock g (es_amount x) (unlock_penalty_bps (gs_config (grai_state w))) = Ok (net, pen)"
    "w' = (unlocked_world user x x' tlk tv w)\<lparr>positions := P, ledger := l\<rparr>"
    "\<exists>l0. (\<forall>k. bal l0 k = bal (ledger w) k) \<and> unlock_entry e user w l0 \<and>
       moved (vault_key e (gs_grai_mint (grai_state w))) ata_key (unat net) l0 l1 \<and>
       moved (vault_key e (gs_grai_mint (grai_state w)))
         (ata e (gs_grinders (grai_state w)) (gs_grai_mint (grai_state w))) (unat pen) l1 l"
proof -
  obtain x w0 new net pen w1 tlk w2 w3 w4 where
      acc: "accounts_Unlock e user gm ata_key gr w = Ok (x, w0)"
      and liq: "\<not> liquidation (grai_state w0)" and g: "0 < g" "g \<le> es_amount x"
      and new: "checked_sub (es_amount x) g = Some new"
      and prev: "preview_unlock g (es_amount x) (unlock_penalty_bps (gs_config (grai_state w0)))
         = Ok (net, pen)"
      and s: "settle_all_quads e remaining (asset_mints (grai_state w0)) user (es_amount x) new
                 False user w0 = Ok w1"
      and tlk: "checked_sub (total_locked (grai_state w1)) g = Some tlk"
      and c: "clamp_vote user (set_escrow user (x\<lparr>es_amount := new\<rparr>)
               (upd_state (total_locked_update (\<lambda>_. tlk)) w1)) = Ok w2"
      and t1: "transfer_from_vault e (vault_key e gm) ata_key net w2 = Ok w3"
      and t2: "transfer_from_vault e (vault_key e gm) (ata e gr gm) pen w3 = Ok w4"
      and w': "w' = (if new = 0
         then upd_state (lockers_update (\<lambda>ls. remove_from_list ls user)) w4 else w4)"
    using assms(2) unfolding execute_unlock_def Let_def
    by (elim steps_OkE) (simp add: step_iffs)
  note a = accounts_Unlock_Ok [OF assms(1) acc]
  obtain l0 where w0: "w0 = w\<lparr>ledger := l0\<rparr>" "mints l0 = mints (ledger w)"
      "same_shape (ledger w) l0" "\<forall>k. bal l0 k = bal (ledger w) k"
    using a(1) by (rule ledger_onlyE)
  obtain P l01 where w1: "w1 = w0\<lparr>positions := P, ledger := l01\<rparr>"
      "token_accounts l01 = token_accounts (ledger w0)" "mints l01 = mints (ledger w0)"
    using settle_all_quads_nopay_Ok [OF assms(1) s] by (rule pos_onlyE)
  let ?x1 = "x\<lparr>es_amount := new\<rparr>"
  let ?x' = "?x1\<lparr>es_voted := min (es_voted x) new\<rparr>"
  obtain tv where tv: "unat tv + unat (es_voted x) =
        unat (total_voted (grai_state w)) + unat (min (es_voted x) new)"
      and w2: "w2 = (set_escrow user ?x1 (upd_state (total_locked_update (\<lambda>_. tlk)) w1))
          \<lparr>grai_state := (grai_state w)\<lparr>total_locked := tlk, total_voted := tv,
             voters := list_follow (es_voted x \<noteq> 0) (min (es_voted x) new \<noteq> 0) user
                         (voters (grai_state w))\<rparr>,
            escrows := (escrows w)(user \<mapsto> ?x')\<rparr>"
  proof (rule clamp_vote_Ok [OF c])
    show "escrows (set_escrow user ?x1 (upd_state (total_locked_update (\<lambda>_. tlk)) w1)) user = Some ?x1"
      by (simp add: set_escrow_def)
  qed (simp add: set_escrow_def upd_state_def w1 w0 that)
  obtain l1 where l1: "w3 = w2\<lparr>ledger := l1\<rparr>" "moved (vault_key e gm) ata_key (unat net) (ledger w2) l1"
    using transfer_from_vault_Ok [OF assms(1) t1] .
  obtain l where l: "w4 = w3\<lparr>ledger := l\<rparr>" "moved (vault_key e gm) (ata e gr gm) (unat pen) (ledger w3) l"
    using transfer_from_vault_Ok [OF assms(1) t2] .
  have nat: "unat (es_amount x) = unat new + unat g" "unat (total_locked (grai_state w)) = unat tlk + unat g"
    using new tlk w1 w0 by (simp_all add: checked_sub_Some)
  have nz: "es_amount x \<noteq> 0" using g by (auto simp: word_le_nat_alt word_less_nat_alt)
  have w'_eq: "w' = (unlocked_world user x ?x' tlk tv w)\<lparr>positions := P, ledger := l\<rparr>"
    unfolding w' l(1) l1(1) w2 w1(1) w0(1)
    by (simp add: unlocked_world_def upd_state_def set_escrow_def list_follow_def nz)
  have bals: "\<exists>l0. (\<forall>k. bal l0 k = bal (ledger w) k) \<and> unlock_entry e user w l0 \<and>
       moved (vault_key e (gs_grai_mint (grai_state w))) ata_key (unat net) l0 l1 \<and>
       moved (vault_key e (gs_grai_mint (grai_state w)))
         (ata e (gs_grinders (grai_state w)) (gs_grai_mint (grai_state w))) (unat pen) l1 l"
  proof (intro exI conjI allI)
    show "unlock_entry e user w (ledger w2)"
      using a(4-6) w1 w2 w0 by (auto simp: unlock_entry_def set_escrow_def upd_state_def)
    show "moved (vault_key e (gs_grai_mint (grai_state w))) ata_key (unat net) (ledger w2) l1"
      using l1(2) a(4) by simp
    show "moved (vault_key e (gs_grai_mint (grai_state w)))
         (ata e (gs_grinders (grai_state w)) (gs_grai_mint (grai_state w))) (unat pen) l1 l"
      using l(2) l1(1) a(4,5) by simp
    show "bal (ledger w2) k = bal (ledger w) k" for k
      using w2 w1 w0 by (simp add: set_escrow_def upd_state_def bal_def)
  qed
  show thesis
  proof (rule that [of x ?x' tlk tv net pen l P l1])
    show "preview_unlock g (es_amount x) (unlock_penalty_bps (gs_config (grai_state w))) = Ok (net, pen)"
      using prev w0 by simp
    show "\<not> liquidation (grai_state w)" using liq w0 by simp
  qed (use a g nat tv w'_eq bals in \<open>simp_all add: word_less_nat_alt\<close>)
qed

section \<open>The instructions preserve the book and its backing\<close>

text \<open>
  \<open>vault_backed\<close>: the program's GRAI vault holds at least what is locked. A transfer into the
  vault from an account of the vault itself would not add to it; the account checks exclude
  it, since the vault is owned by the program's state address, which signs no instruction.
\<close>

definition vault_backed :: "env \<Rightarrow> world \<Rightarrow> bool" where
  "vault_backed e w \<longleftrightarrow>
     unat (total_locked (grai_state w)) \<le> bal (ledger w) (vault_key e (gs_grai_mint (grai_state w)))"

text \<open>What the checks of \<open>Lock\<close> and \<open>Vote\<close> establish.\<close>

definition entry_checked :: "env \<Rightarrow> pubkey \<Rightarrow> pubkey \<Rightarrow> pubkey \<Rightarrow> world \<Rightarrow> world \<Rightarrow> bool" where
  "entry_checked e user gm source w w' \<longleftrightarrow>
     (lock_inv e w \<longrightarrow> lock_inv e w') \<and> grai_state w' = grai_state w \<and>
     (\<forall>k. bal (ledger w') k = bal (ledger w) k) \<and> gm = gs_grai_mint (grai_state w) \<and>
     (user \<noteq> gs_key e \<longrightarrow> source \<noteq> vault_key e gm)"

lemma entry_checks:
  assumes "env_laws e" "check_grai_mint e gm w = Ok m"
    and i: "init_escrow_if_needed e user user w = Ok w1"
    and c: "check_token_account source gm user err w1 = Ok a"
    and t: "init_token_if_needed e user (vault_key e gm) gm (gs_key e) w1 = Ok w2"
  shows "entry_checked e user gm source w w2"
proof -
  have gm: "gm = gs_grai_mint (grai_state w)"
    using assms(2) by (auto simp: check_grai_mint_def step_iffs)
  obtain l where l: "token_accounts l = token_accounts (ledger w)"
      "w1 = (case escrows w user of Some x \<Rightarrow> w
           | None \<Rightarrow> set_escrow user empty_escrow (w\<lparr>ledger := l\<rparr>))"
    using init_escrow_if_needed_Ok [OF assms(1) i] by metis
  have w1: "grai_state w1 = grai_state w" "token_accounts (ledger w1) = token_accounts (ledger w)"
    using l by (simp_all add: set_escrow_def split: option.splits)
  obtain l2 where l2: "w2 = w1\<lparr>ledger := l2\<rparr>" "same_shape (ledger w1) l2"
      "\<forall>k. bal l2 k = bal (ledger w1) k"
    using init_token_if_needed_Ok(1) [OF assms(1) t] by (auto elim: ledger_onlyE)
  have "lock_inv e w \<Longrightarrow> lock_inv e w2"
    using init_escrow_if_needed_inv [OF assms(1) i] l2(1) lock_inv_ledger by auto
  moreover have "source \<noteq> vault_key e gm" if "user \<noteq> gs_key e"
  proof
    assume eq: "source = vault_key e gm"
    obtain b where b: "token_accounts (ledger w2) source = Some b" "tk_owner b = gs_key e"
      using init_token_if_needed_Ok(2) [OF assms(1) t] eq by auto
    have "token_accounts (ledger w1) source = Some a" "tk_owner a = user"
      using c by (auto simp: check_token_account_def step_iffs)
    with l2 b that show False by (fastforce simp: same_shape_def)
  qed
  ultimately show ?thesis
    using l2 w1 gm by (simp add: entry_checked_def bal_def)
qed

lemma accounts_Lock_checked:
  assumes "env_laws e" "accounts_Lock e user gm source w = Ok (a, w')"
  shows "entry_checked e user gm source w w'"
  using assms(2) entry_checks [OF assms(1)] unfolding accounts_Lock_def
  by (elim and_then_OkE) auto

lemma accounts_Vote_checked:
  assumes "env_laws e" "accounts_Vote e user gm source w = Ok (a, w')"
  shows "entry_checked e user gm source w w'"
  using assms(2) entry_checks [OF assms(1)] unfolding accounts_Vote_def
  by (elim and_then_OkE) auto

lemma perform_lock_backed:
  assumes "env_laws e"
    and "perform_lock e bump amt source (vault_key e (gs_grai_mint (grai_state w))) user rem w = Ok w'"
    and "source \<noteq> vault_key e (gs_grai_mint (grai_state w))" "vault_backed e w"
  shows "vault_backed e w'" "gs_grai_mint (grai_state w') = gs_grai_mint (grai_state w)"
proof -
  obtain x x' tlk l P where h: "unat tlk = unat (total_locked (grai_state w)) + unat amt"
    and w': "w' = (locked_world user x x' tlk w)\<lparr>positions := P, ledger := l\<rparr>"
    and m: "moved source (vault_key e (gs_grai_mint (grai_state w))) (unat amt) (ledger w) l"
    by (rule perform_lock_Ok [OF assms(1,2)]) (rule that, assumption+)
  show "gs_grai_mint (grai_state w') = gs_grai_mint (grai_state w)"
    using w' by (simp add: locked_world_def)
  show "vault_backed e w'"
    using assms(3,4) h w' m by (simp add: vault_backed_def locked_world_def moved_def)
qed

lemma perform_vote_backed:
  assumes "env_laws e" "perform_vote e bump amt user payer rem now w = Ok w'" "vault_backed e w"
  shows "vault_backed e w'"
proof -
  obtain x x' tv l P where "w' = (voted_world user x x' tv w)\<lparr>positions := P, ledger := l\<rparr>"
    "token_accounts l = token_accounts (ledger w)"
    using perform_vote_Ok [OF assms(1,2)] by metis
  then show ?thesis using assms(3) by (simp add: vault_backed_def voted_world_def bal_def)
qed

lemma execute_lock_preserves:
  assumes "env_laws e" "execute_lock e user gm source rem amt w = Ok w'" "user \<noteq> gs_key e"
    and "lock_inv e w" "vault_backed e w"
  shows "lock_inv e w' \<and> vault_backed e w'"
proof -
  obtain a w1 where acc: "accounts_Lock e user gm source w = Ok (a, w1)"
    and p: "perform_lock e (pda_bump e (EscrowSeed user)) amt source (vault_key e gm) user rem w1 = Ok w'"
    using assms(2) unfolding execute_lock_def by (elim steps_OkE) auto
  note c = accounts_Lock_checked [OF assms(1) acc, unfolded entry_checked_def]
  have b: "vault_backed e w1" using c assms(5) by (simp add: vault_backed_def)
  have "lock_inv e w'" using perform_lock_inv [OF assms(1) p] c assms(4) by blast
  moreover have "vault_backed e w'"
    by (rule perform_lock_backed(1) [OF assms(1), of "pda_bump e (EscrowSeed user)" amt source w1 user rem])
      (use p c assms(3) b in auto)
  ultimately show ?thesis ..
qed

lemma execute_vote_preserves:
  assumes "env_laws e" "execute_vote e user gm source rem amt w = Ok w'" "user \<noteq> gs_key e"
    and "lock_inv e w" "vault_backed e w"
  shows "lock_inv e w' \<and> vault_backed e w'"
proof -
  obtain a w1 and x :: Escrow and need w2 where acc: "accounts_Vote e user gm source w = Ok (a, w1)"
    and l: "(if es_amount x < need then
                 and_then (or_panic (checked_sub need (es_amount x))) (\<lambda>shortfall.
                 and_then (require (shortfall \<le> tk_amount a) InsufficientGraiBalance) (\<lambda>_.
                 perform_lock e (pda_bump e (EscrowSeed user)) shortfall source
                   (vault_key e gm) user rem w1))
               else Ok w1) = Ok w2"
    and v: "perform_vote e (pda_bump e (EscrowSeed user)) amt user user rem (unix_timestamp e) w2 = Ok w'"
    using assms(2) unfolding execute_vote_def by (elim steps_OkE) blast
  note c = accounts_Vote_checked [OF assms(1) acc, unfolded entry_checked_def]
  have b: "lock_inv e w1" "vault_backed e w1" using c assms(4,5) by (auto simp: vault_backed_def)
  have "lock_inv e w2 \<and> vault_backed e w2"
  proof (cases "es_amount x < need")
    case False
    then show ?thesis using l b by simp
  next
    case True
    then obtain s where p: "perform_lock e (pda_bump e (EscrowSeed user)) s source
        (vault_key e (gs_grai_mint (grai_state w1))) user rem w1 = Ok w2"
      using l c by (auto simp: step_iffs)
    moreover have "source \<noteq> vault_key e (gs_grai_mint (grai_state w1))" using c assms(3) by auto
    ultimately show ?thesis
      using perform_lock_inv [OF assms(1)] perform_lock_backed(1) [OF assms(1)] b by blast
  qed
  then show ?thesis
    using perform_vote_inv [OF assms(1) v] perform_vote_backed [OF assms(1) v] by blast
qed

lemma unlocked_world_inv:
  assumes "lock_inv e w" "escrows w user = Some x"
    and "unat (es_amount x) = unat (es_amount x') + unat g"
    and "es_voted x' = min (es_voted x) (es_amount x')" "es_bump x' = es_bump x"
    and "unat (total_locked (grai_state w)) = unat tlk + unat g"
    and "unat tv + unat (es_voted x) = unat (total_voted (grai_state w)) + unat (es_voted x')"
  shows "lock_inv e (unlocked_world user x x' tlk tv w)"
proof -
  have bump: "es_amount x \<noteq> 0 \<Longrightarrow> es_bump x = pda_bump e (EscrowSeed user)"
    using assms(1,2) unfolding lock_inv_def lock_book_def by blast
  have "es_amount x' \<noteq> 0 \<Longrightarrow> es_amount x \<noteq> 0" using assms(3) by (auto simp: unat_eq_zero [symmetric])
  then have "lock_book e (unat tlk) (unat tv)
      (list_follow (es_amount x \<noteq> 0) (es_amount x' \<noteq> 0) user (lockers (grai_state w)))
      (list_follow (es_voted x \<noteq> 0) (es_voted x' \<noteq> 0) user (voters (grai_state w)))
      ((escrows w)(user \<mapsto> x'))"
    by (intro lock_book_update [OF assms(1) [unfolded lock_inv_def], where x = x])
      (use assms(2-) bump in simp_all)
  then show ?thesis by (simp add: lock_inv_def unlocked_world_def)
qed

lemma execute_unlock_lock_inv:
  assumes "env_laws e" "execute_unlock e user gm ata_key gr rem g w = Ok w'" "lock_inv e w"
  shows "lock_inv e w'"
proof -
  obtain x and x' :: Escrow and tlk tv P l where h: "escrows w user = Some x"
    "unat (es_amount x) = unat (es_amount x') + unat g"
    "es_voted x' = min (es_voted x) (es_amount x')" "es_bump x' = es_bump x"
    "unat (total_locked (grai_state w)) = unat tlk + unat g"
    "unat tv + unat (es_voted x) = unat (total_voted (grai_state w)) + unat (es_voted x')"
    and w': "w' = (unlocked_world user x x' tlk tv w)\<lparr>positions := P, ledger := l\<rparr>"
    by (rule execute_unlock_Ok [OF assms(1,2)], rule that; assumption)
  show ?thesis using unlocked_world_inv [OF assms(3) h] w' by (simp add: lock_inv_def)
qed

lemma execute_unlock_preserves:
  assumes "env_laws e" "execute_unlock e user gm ata_key gr rem g w = Ok w'"
    and "lock_inv e w" "vault_backed e w"
  shows "lock_inv e w' \<and> vault_backed e w'"
proof -
  let ?v = "vault_key e (gs_grai_mint (grai_state w))"
  obtain x and x' :: Escrow and tlk tv net pen P l l1 where h: "escrows w user = Some x"
    "unat (es_amount x) = unat (es_amount x') + unat g"
    "es_voted x' = min (es_voted x) (es_amount x')" "es_bump x' = es_bump x"
    "unat (total_locked (grai_state w)) = unat tlk + unat g"
    "unat tv + unat (es_voted x) = unat (total_voted (grai_state w)) + unat (es_voted x')"
    and pu: "preview_unlock g (es_amount x) (unlock_penalty_bps (gs_config (grai_state w))) = Ok (net, pen)"
    and w': "w' = (unlocked_world user x x' tlk tv w)\<lparr>positions := P, ledger := l\<rparr>"
    and b: "\<exists>l0. (\<forall>k. bal l0 k = bal (ledger w) k) \<and> unlock_entry e user w l0 \<and> moved ?v ata_key (unat net) l0 l1 \<and>
       moved ?v (ata e (gs_grinders (grai_state w)) (gs_grai_mint (grai_state w))) (unat pen) l1 l"
    by (rule execute_unlock_Ok [OF assms(1,2)], rule that; assumption)
  obtain l0 where l0: "\<forall>k. bal l0 k = bal (ledger w) k" "moved ?v ata_key (unat net) l0 l1"
      "moved ?v (ata e (gs_grinders (grai_state w)) (gs_grai_mint (grai_state w))) (unat pen) l1 l"
    using b by blast
  have "bal (ledger w) ?v - unat net \<le> bal l1 ?v"
    using moved_source_ge [OF l0(2)] l0(1) by simp
  moreover have "bal l1 ?v - unat pen \<le> bal l ?v" by (rule moved_source_ge [OF l0(3)])
  moreover have "unat g = unat net + unat pen" using pu [unfolded preview_unlock_Ok] by blast
  ultimately have "vault_backed e w'"
    using assms(4) h(5) w' by (simp add: vault_backed_def unlocked_world_def)
  moreover have "lock_inv e w'"
    using unlocked_world_inv [OF assms(3) h] w' by (simp add: lock_inv_def)
  ultimately show ?thesis by simp
qed

end
