(* ===== verification/Flows.thy ===== *)
theory Flows
  imports Views Lock_Book
begin

text \<open>
  What the instructions do to the program's vaults. \<open>vflow\<close> bounds the change of every vault
  balance from below by a signed gain; gains add up along a run of calls, so a handler's
  effect on the vaults is the sum of the effects of its calls. \<open>quiet\<close> calls touch neither
  the registered state nor, to the worse, a vault.
\<close>

section \<open>Addresses\<close>

text \<open>
  \<open>S\<close> is the finite set of mints a run of the program meets, \<open>gm\<close> the share mint. What the
  address derivations have to keep apart on it: the vaults of different mints from each
  other, from the treasury vaults, from every associated token account, and the NFT mints
  from the share mint.
\<close>

definition addr_ok :: "env \<Rightarrow> pubkey set \<Rightarrow> pubkey \<Rightarrow> bool" where
  "addr_ok e S gm \<longleftrightarrow> gm \<in> S \<and> inj_on (\<lambda>m. vault_key e m) S \<and>
     (\<forall>m. treasury_key e m \<notin> (\<lambda>m. vault_key e m) ` S) \<and>
     (\<forall>u m. ata e u m \<notin> (\<lambda>m. vault_key e m) ` S) \<and>
     (\<forall>u. pda e (TreasuryNftSeed u) \<noteq> gm)"

definition good_env :: "env \<Rightarrow> pubkey set \<Rightarrow> pubkey \<Rightarrow> bool" where
  "good_env e S gm \<longleftrightarrow> env_laws e \<and> addr_ok e S gm"

lemma good_envD:
  assumes "good_env e S gm"
  shows "env_laws e" "gm \<in> S" "inj_on (\<lambda>m. vault_key e m) S"
    "m' \<in> S \<Longrightarrow> treasury_key e m \<noteq> vault_key e m'" "m' \<in> S \<Longrightarrow> ata e u m \<noteq> vault_key e m'"
    "pda e (TreasuryNftSeed u) \<noteq> gm"
    "m \<in> S \<Longrightarrow> m' \<in> S \<Longrightarrow> vault_key e m = vault_key e m' \<longleftrightarrow> m = m'"
proof -
  note g = assms [unfolded good_env_def addr_ok_def]
  show "env_laws e" "gm \<in> S" "inj_on (\<lambda>m. vault_key e m) S" "pda e (TreasuryNftSeed u) \<noteq> gm"
    using g by blast+
  show "m' \<in> S \<Longrightarrow> treasury_key e m \<noteq> vault_key e m'" "m' \<in> S \<Longrightarrow> ata e u m \<noteq> vault_key e m'"
    using g by (metis image_eqI)+
  show "m \<in> S \<Longrightarrow> m' \<in> S \<Longrightarrow> vault_key e m = vault_key e m' \<longleftrightarrow> m = m'"
    using g inj_onD by fastforce
qed

section \<open>Flows\<close>

text \<open>A vault that exists keeps its owner and mint; one that appears belongs to the program.\<close>

definition vault_kept :: "env \<Rightarrow> pubkey \<Rightarrow> ledger \<Rightarrow> ledger \<Rightarrow> bool" where
  "vault_kept e k l l' \<longleftrightarrow>
     (case token_accounts l k of
        Some a \<Rightarrow> \<exists>a'. token_accounts l' k = Some a' \<and> tk_mint a' = tk_mint a \<and> tk_owner a' = tk_owner a
      | None \<Rightarrow> \<forall>a'. token_accounts l' k = Some a' \<longrightarrow> tk_owner a' = gs_key e)"

definition mint_kept :: "pubkey \<Rightarrow> ledger \<Rightarrow> ledger \<Rightarrow> bool" where
  "mint_kept gm l l' \<longleftrightarrow> (\<forall>x. mints l gm = Some x \<longrightarrow>
     (\<exists>x'. mints l' gm = Some x' \<and> mi_authority x' = mi_authority x))"

definition lflow :: "env \<Rightarrow> pubkey set \<Rightarrow> pubkey \<Rightarrow> (pubkey \<Rightarrow> int) \<Rightarrow> ledger \<Rightarrow> ledger \<Rightarrow> bool" where
  "lflow e S gm g l l' \<longleftrightarrow> mint_kept gm l l' \<and>
     (\<forall>m\<in>S. vault_kept e (vault_key e m) l l' \<and>
            int (bal l (vault_key e m)) + g m \<le> int (bal l' (vault_key e m)))"

lemma vault_kept_trans: "vault_kept e k a b \<Longrightarrow> vault_kept e k b c \<Longrightarrow> vault_kept e k a c"
  unfolding vault_kept_def by (fastforce split: option.splits)

lemma vault_kept_cong: "token_accounts l' = token_accounts l \<Longrightarrow> vault_kept e k l l'"
  by (simp add: vault_kept_def split: option.splits)

lemma mint_kept_trans: "mint_kept gm a b \<Longrightarrow> mint_kept gm b c \<Longrightarrow> mint_kept gm a c"
  unfolding mint_kept_def by fastforce

lemma mint_kept_cong: "mints l' gm = mints l gm \<Longrightarrow> mint_kept gm l l'"
  by (simp add: mint_kept_def)

lemma same_mints_kept: "same_mints l l' \<Longrightarrow> mint_kept gm l l'"
  unfolding same_mints_def mint_kept_def by fastforce

text \<open>Gains add up, and may always be understated.\<close>

lemma lflow_trans:
  assumes "lflow e S gm g a b" "lflow e S gm h b c" "\<And>m. m \<in> S \<Longrightarrow> k m \<le> g m + h m"
  shows "lflow e S gm k a c"
  unfolding lflow_def
proof (intro conjI ballI)
  show "mint_kept gm a c" using assms(1,2) mint_kept_trans unfolding lflow_def by blast
  fix m assume m: "m \<in> S"
  show "vault_kept e (vault_key e m) a c"
    using assms(1,2) m vault_kept_trans unfolding lflow_def by blast
  have "int (bal a (vault_key e m)) + g m \<le> int (bal b (vault_key e m))"
    "int (bal b (vault_key e m)) + h m \<le> int (bal c (vault_key e m))"
    using assms(1,2) m unfolding lflow_def by blast+
  then show "int (bal a (vault_key e m)) + k m \<le> int (bal c (vault_key e m))"
    using assms(3) [OF m] by linarith
qed

lemma lflow_same:
  "token_accounts l' = token_accounts l \<Longrightarrow> mints l' = mints l \<Longrightarrow> lflow e S gm (\<lambda>_. 0) l l'"
  by (simp add: lflow_def vault_kept_cong mint_kept_cong bal_def)

lemma lflow_refl [simp]: "lflow e S gm (\<lambda>_. 0) l l"
  by (rule lflow_same) simp_all

section \<open>Calls\<close>

text \<open>A gain at one mint's vault.\<close>

definition at_mint :: "pubkey \<Rightarrow> int \<Rightarrow> pubkey \<Rightarrow> int" where
  "at_mint m x = (\<lambda>k. if k = m then x else 0)"

lemma at_mint_simps [simp]: "at_mint m x m = x" "k \<noteq> m \<Longrightarrow> at_mint m x k = 0"
  by (simp_all add: at_mint_def)

lemma kept_shape: "same_shape l l' \<Longrightarrow> none_new l l' \<Longrightarrow> vault_kept e k l l'"
  unfolding same_shape_def none_new_def vault_kept_def by (fastforce split: option.splits)

text \<open>A transfer out of a vault, into a vault, and past the vaults.\<close>

lemma moved_out:
  assumes "good_env e S gm" "m0 \<in> S" "moved (vault_key e m0) to amt l l'"
  shows "lflow e S gm (at_mint m0 (- int amt)) l l'"
  using assms(3) good_envD(7) [OF assms(1) _ assms(2)]
  by (auto simp: lflow_def moved_def kept_shape mint_kept_cong at_mint_def)

lemma moved_past:
  assumes "moved from to amt l l'" "from \<notin> (\<lambda>m. vault_key e m) ` S"
  shows "lflow e S gm (\<lambda>_. 0) l l'"
  using assms by (auto simp: lflow_def moved_def kept_shape mint_kept_cong)

lemma moved_in:
  assumes "good_env e S gm" "m0 \<in> S" "moved from (vault_key e m0) amt l l'"
    and "from \<notin> (\<lambda>m. vault_key e m) ` S"
  shows "lflow e S gm (at_mint m0 (int amt)) l l'"
  using assms(3,4) assms(2) good_envD(7) [OF assms(1) _ assms(2)]
  by (auto simp: lflow_def moved_def kept_shape mint_kept_cong at_mint_def)

lemma mint_flow:
  assumes "env_laws e" "spl_mint_to e m to auth amt l = Some l'"
  shows "lflow e S gm (\<lambda>_. 0) l l'"
  using mint_lawD [OF assms] by (simp add: lflow_def kept_shape same_mints_kept)

lemma burn_flow:
  assumes "env_laws e" "spl_burn e m from auth amt l = Some l'" "from \<notin> (\<lambda>m. vault_key e m) ` S"
  shows "lflow e S gm (\<lambda>_. 0) l l'"
  using burn_lawD [OF assms(1,2)] assms(3) by (auto simp: lflow_def kept_shape same_mints_kept)

lemma burn_out:
  assumes "good_env e S gm" "spl_burn e m (vault_key e m0) auth amt l = Some l'" "m0 \<in> S"
  shows "lflow e S gm (at_mint m0 (- int (unat amt))) l l'"
  using burn_lawD [OF good_envD(1) [OF assms(1)] assms(2)] good_envD(7) [OF assms(1) _ assms(3)]
  by (auto simp: lflow_def kept_shape same_mints_kept at_mint_def)

lemma sync_flow:
  assumes "env_laws e" "sync_native e k l = Some l'"
  shows "lflow e S gm (\<lambda>_. 0) l l'"
  unfolding lflow_def
proof (intro conjI ballI)
  note s = sync_lawD [OF assms]
  show "mint_kept gm l l'" using s(2) by (simp add: mint_kept_cong)
  fix m
  show "vault_kept e (vault_key e m) l l'" using s(1,5) by (rule kept_shape)
  show "int (bal l (vault_key e m)) + 0 \<le> int (bal l' (vault_key e m))"
    using s(3,4) by (cases "vault_key e m = k") auto
qed

text \<open>A new account: no vault, or one owned by the program.\<close>

lemma new_account_flow:
  assumes "token_accounts l k = None" "mints l' = mints l"
    and "token_accounts l' = (token_accounts l)(k \<mapsto> \<lparr> tk_mint = m, tk_owner = own, tk_amount = 0 \<rparr>)"
    and "own = gs_key e \<or> k \<notin> (\<lambda>m. vault_key e m) ` S"
  shows "lflow e S gm (\<lambda>_. 0) l l'"
  using assms by (auto simp: lflow_def vault_kept_def mint_kept_cong bal_def split: option.splits)

lemma close_flow:
  assumes "env_laws e" "spl_close_account e k dest auth l = Some l'" "k \<notin> (\<lambda>m. vault_key e m) ` S"
  shows "lflow e S gm (\<lambda>_. 0) l l'"
  using close_lawD [OF assms(1,2)] assms(3)
  by (auto simp: lflow_def vault_kept_def mint_kept_cong bal_def split: option.splits)

section \<open>Flows of worlds\<close>

text \<open>The registered state stays, but for the list of referrers.\<close>

definition keeps :: "world \<Rightarrow> world \<Rightarrow> bool" where
  "keeps w w' \<longleftrightarrow> escrows w' = escrows w \<and> assets w' = assets w \<and>
     (\<exists>r. grai_state w' = (grai_state w)\<lparr>referrers := r\<rparr>)"

definition wflow :: "env \<Rightarrow> pubkey set \<Rightarrow> pubkey \<Rightarrow> (pubkey \<Rightarrow> int) \<Rightarrow> world \<Rightarrow> world \<Rightarrow> bool" where
  "wflow e S gm g w w' \<longleftrightarrow> keeps w w' \<and> lflow e S gm g (ledger w) (ledger w')"

definition quiet :: "env \<Rightarrow> pubkey set \<Rightarrow> pubkey \<Rightarrow> world \<Rightarrow> world \<Rightarrow> bool" where
  "quiet e S gm = wflow e S gm (\<lambda>_. 0)"

lemma keepsI:
  "escrows w' = escrows w \<Longrightarrow> assets w' = assets w \<Longrightarrow> grai_state w' = grai_state w \<Longrightarrow> keeps w w'"
  unfolding keeps_def by (intro conjI exI [of _ "referrers (grai_state w)"]) simp_all

lemma keeps_refl [simp]: "keeps w w"
  by (rule keepsI) simp_all

lemma keeps_trans: "keeps a b \<Longrightarrow> keeps b c \<Longrightarrow> keeps a c"
  by (auto simp: keeps_def)

lemma keeps_simps:
  assumes "keeps w w'"
  shows "escrows w' = escrows w" "assets w' = assets w"
    "total_locked (grai_state w') = total_locked (grai_state w)"
    "total_voted (grai_state w') = total_voted (grai_state w)"
    "total_value (grai_state w') = total_value (grai_state w)"
    "lockers (grai_state w') = lockers (grai_state w)" "voters (grai_state w') = voters (grai_state w)"
    "asset_mints (grai_state w') = asset_mints (grai_state w)"
    "gs_grai_mint (grai_state w') = gs_grai_mint (grai_state w)"
    "liquidation (grai_state w') = liquidation (grai_state w)"
    "gs_config (grai_state w') = gs_config (grai_state w)"
    "gs_grinders (grai_state w') = gs_grinders (grai_state w)"
    "gs_beneficiar (grai_state w') = gs_beneficiar (grai_state w)"
    "affiliate_levels (grai_state w') = affiliate_levels (grai_state w)"
    "affiliate_share_bps (grai_state w') = affiliate_share_bps (grai_state w)"
    "liquidation_at (grai_state w') = liquidation_at (grai_state w)"
  using assms by (auto simp: keeps_def)

lemma quiet_refl [simp]: "quiet e S gm w w"
  by (simp add: quiet_def wflow_def)

lemma wflow_trans:
  assumes "wflow e S gm g a b" "wflow e S gm h b c" "\<And>m. m \<in> S \<Longrightarrow> k m \<le> g m + h m"
  shows "wflow e S gm k a c"
  using assms keeps_trans lflow_trans unfolding wflow_def by blast

lemma quiet_trans [trans]: "quiet e S gm a b \<Longrightarrow> quiet e S gm b c \<Longrightarrow> quiet e S gm a c"
  unfolding quiet_def by (rule wflow_trans, assumption, assumption) simp

lemma quiet_then: "quiet e S gm a b \<Longrightarrow> wflow e S gm g b c \<Longrightarrow> wflow e S gm g a c"
  unfolding quiet_def by (rule wflow_trans, assumption, assumption) simp

lemma then_quiet: "wflow e S gm g a b \<Longrightarrow> quiet e S gm b c \<Longrightarrow> wflow e S gm g a c"
  unfolding quiet_def by (rule wflow_trans, assumption, assumption) simp

lemma wflow_ledger: "lflow e S gm g (ledger w) l \<Longrightarrow> wflow e S gm g w (w\<lparr>ledger := l\<rparr>)"
  by (simp add: quiet_def wflow_def keepsI)

lemma wflow_keeps: "wflow e S gm g w w' \<Longrightarrow> keeps w w'"
  by (simp add: wflow_def)

lemma quiet_keeps: "quiet e S gm w w' \<Longrightarrow> keeps w w'"
  by (simp add: quiet_def wflow_def)

lemma quiet_ledger: "lflow e S gm (\<lambda>_. 0) (ledger w) l \<Longrightarrow> quiet e S gm w (w\<lparr>ledger := l\<rparr>)"
  by (simp add: quiet_def wflow_ledger)

lemma quiet_rent: "rent_only w w' \<Longrightarrow> quiet e S gm w w'"
  by (elim rent_onlyE) (simp add: quiet_ledger lflow_same)

lemma quiet_pos: "pos_only u w w' \<Longrightarrow> quiet e S gm w w'"
  by (elim pos_onlyE) (simp add: quiet_def wflow_def keepsI lflow_same)

lemma quiet_store_position: "quiet e S gm w (store_position u m p w)"
  by (simp add: quiet_def wflow_def keepsI store_position_def)

lemma quiet_store_referrer: "quiet e S gm w (store_referrer k b w)"
  by (simp add: quiet_def wflow_def keepsI store_referrer_def)

lemma quiet_store_then: "quiet e S gm (store_referrer k b w) w' \<Longrightarrow> quiet e S gm w w'"
  by (rule quiet_trans [OF quiet_store_referrer])

lemma quiet_store_after: "quiet e S gm w w' \<Longrightarrow> quiet e S gm w (store_referrer k b w')"
  by (rule quiet_trans [OF _ quiet_store_referrer])

lemma quiet_init_token:
  assumes "good_env e S gm" "init_token_if_needed e payer key mint own w = Ok w'"
    and "own = gs_key e \<or> key \<notin> (\<lambda>m. vault_key e m) ` S"
  shows "quiet e S gm w w'"
proof (cases "token_accounts (ledger w) key")
  case (Some a)
  then show ?thesis using assms(2) by (simp add: init_token_if_needed_def step_iffs)
next
  case None
  then obtain l where l: "spl_init_account e payer key mint own (ledger w) = Some l" "w' = w\<lparr>ledger := l\<rparr>"
    using assms(2) by (auto simp: init_token_if_needed_def ok_simps)
  then show ?thesis
    using new_account_flow [OF init_lawD(1-3) [OF good_envD(1) [OF assms(1)] l(1)] assms(3)]
    by (simp add: quiet_ledger)
qed

lemma quiet_init_ata:
  "good_env e S gm \<Longrightarrow> init_token_if_needed e payer (ata e u m) mint own w = Ok w' \<Longrightarrow> quiet e S gm w w'"
  by (rule quiet_init_token, assumption, assumption) (auto dest: good_envD(5))

lemma quiet_init_vault:
  "good_env e S gm \<Longrightarrow> init_token_if_needed e payer key mint (gs_key e) w = Ok w' \<Longrightarrow> quiet e S gm w w'"
  by (rule quiet_init_token, assumption, assumption) simp

text \<open>The program's own payments.\<close>

lemma vault_out:
  assumes "good_env e S gm" "m \<in> S" "transfer_from_vault e (vault_key e m) to amt w = Ok w'"
  shows "wflow e S gm (at_mint m (- int (unat amt))) w w'"
  using transfer_from_vault_Ok [OF good_envD(1) [OF assms(1)] assms(3)] moved_out [OF assms(1,2)]
  by (metis wflow_ledger)

lemma vault_past:
  assumes "good_env e S gm" "from \<notin> (\<lambda>m. vault_key e m) ` S" "transfer_from_vault e from to amt w = Ok w'"
  shows "quiet e S gm w w'"
  using transfer_from_vault_Ok [OF good_envD(1) [OF assms(1)] assms(3)] moved_past [OF _ assms(2)]
  by (metis quiet_ledger)

lemma treasury_out:
  "good_env e S gm \<Longrightarrow> transfer_from_vault e (treasury_key e m) to amt w = Ok w' \<Longrightarrow> quiet e S gm w w'"
  by (rule vault_past) (auto dest: good_envD(4))

lemma signer_past:
  assumes "good_env e S gm" "from \<notin> (\<lambda>m. vault_key e m) ` S" "transfer_from_signer e from to auth amt w = Ok w'"
  shows "quiet e S gm w w'"
  using transfer_from_signer_Ok [OF good_envD(1) [OF assms(1)] assms(3)] moved_past [OF _ assms(2)]
  by (metis quiet_ledger)

lemma signer_in:
  assumes "good_env e S gm" "m \<in> S" "from \<notin> (\<lambda>m. vault_key e m) ` S"
    and "transfer_from_signer e from (vault_key e m) auth amt w = Ok w'"
  shows "wflow e S gm (at_mint m (int (unat amt))) w w'"
  using transfer_from_signer_Ok [OF good_envD(1) [OF assms(1)] assms(4)] moved_in [OF assms(1,2) _ assms(3)]
  by (metis wflow_ledger)

lemma wflow_invoke:
  "(\<And>l. f (ledger w) = Some l \<Longrightarrow> lflow e S gm g (ledger w) l) \<Longrightarrow> invoke f w = Ok w' \<Longrightarrow> wflow e S gm g w w'"
  by (auto simp: ok_simps intro: wflow_ledger)

lemma quiet_invoke:
  "(\<And>l. f (ledger w) = Some l \<Longrightarrow> lflow e S gm (\<lambda>_. 0) (ledger w) l) \<Longrightarrow> invoke f w = Ok w' \<Longrightarrow>
   quiet e S gm w w'"
  unfolding quiet_def by (rule wflow_invoke)

end
