(* ===== verification/Treasury_Flows.thy ===== *)
theory Treasury_Flows
  imports Flows
begin

text \<open>
  The treasury's operations are quiet: crediting and rebinding books, minting cashflow NFTs
  and paying shares out of the treasury vaults leave the escrows, the assets and the asset
  vaults alone.
\<close>

section \<open>Books\<close>

lemma ensure_referrer_account_rent:
  assumes "env_laws e" "ensure_referrer_account e key payer w = Ok (book, is_new, w')"
  shows "rent_only w w'" "is_new \<longleftrightarrow> books w key = None"
    "books w key = Some b \<Longrightarrow> book = b"
  using assms(2)
  by (auto simp: ensure_referrer_account_def Let_def step_iffs split: option.splits
      dest: create_account_absorb_prefund_Ok [OF assms(1)])

lemma register_referrer_quiet:
  assumes "env_laws e" "register_referrer e payer key w = Ok w'"
  shows "quiet e S gm w w'"
proof (cases "key \<in> set (referrers (grai_state w))")
  case True
  then show ?thesis using assms(2) by (simp add: register_referrer_def)
next
  case False
  then obtain w1 where r: "realloc_grai_state e payer (grai_space (grai_state w) 0 0 1) w = Ok w1"
      and w': "w' = upd_state (referrers_update (\<lambda>rs. rs @ [key])) w1"
    using assms(2) by (auto simp: register_referrer_def step_iffs)
  have "quiet e S gm w w1" by (rule quiet_rent [OF realloc_grai_state_Ok [OF assms(1) r]])
  moreover have "quiet e S gm w1 w'"
    unfolding w' upd_state_def quiet_def wflow_def keeps_def by (auto intro: exI [of _ "referrers (grai_state w1) @ [key]"])
  ultimately show ?thesis by (rule quiet_trans)
qed

lemma register_if_new_quiet:
  "env_laws e \<Longrightarrow> (if n then register_referrer e payer key w else Ok w) = Ok w' \<Longrightarrow> quiet e S gm w w'"
  by (auto split: if_splits dest: register_referrer_quiet)

lemma credit_walk_quiet:
  "credit_walk e locker v rem req level n k w = Ok w' \<Longrightarrow> quiet e S gm w w'"
proof (induction e locker v rem req level n k w rule: credit_walk.induct)
  case (2 e locker v rem req level n k w)
  show ?case
  proof (cases "(k = default_pubkey \<or> k = locker) \<or> referrer_info e k rem = None \<or> books w k = None")
    case True
    then show ?thesis using 2(2) by (auto simp: step_iffs split: option.splits if_splits)
  next
    case False
    then obtain info up where r: "\<not> (k = default_pubkey \<or> k = locker)" "referrer_info e k rem = Some info"
        "books w k = Some up" by fastforce
    then obtain up' where up: "w' = store_referrer k up' w \<or>
        rf_referrer up' \<noteq> k \<and>
        credit_walk e locker v rem req (Suc level) n (rf_referrer up') (store_referrer k up' w) = Ok w'"
      and c: "(if level = 0
                          then and_then (ok_or (checked_add (rf_l1_value up) v) MathOverflow)
                                 (\<lambda>x. Ok (up\<lparr>rf_l1_value := x\<rparr>))
                          else if level = 1
                          then and_then (ok_or (checked_add (rf_l2_value up) v) MathOverflow)
                                 (\<lambda>x. Ok (up\<lparr>rf_l2_value := x\<rparr>))
                          else Ok up) = Ok up'"
      using 2(2) by (auto simp: and_then_Ok_iff Let_def split: if_splits)
    then show ?thesis
      by (elim disjE conjE) (simp add: quiet_store_referrer, rule quiet_store_then, rule 2(1) [OF r refl refl])
  qed
qed simp

lemma credit_books_quiet:
  assumes "credit_books e locker v levels rem req w = Ok w'"
  shows "quiet e S gm w w'"
  using assms
  by (auto simp: credit_books_def step_iffs split: if_splits option.splits
      elim: quiet_store_then [OF credit_walk_quiet])

section \<open>Binding\<close>

lemma open_referrer_book_quiet:
  assumes "env_laws e" "open_referrer_book e referrer l1 levels payer rem w = Ok w'"
  shows "quiet e S gm w w'"
proof -
  obtain b n w1 w2 b' where
      "ensure_referrer_account e referrer payer w = Ok (b, n, w1)"
      "(if n then register_referrer e payer referrer w1 else Ok w1) = Ok w2"
      "w' = store_referrer referrer b' w2"
    using assms(2) unfolding open_referrer_book_def by (elim steps_OkE) blast
  then show ?thesis
    using quiet_trans [OF quiet_rent [OF ensure_referrer_account_rent(1) [OF assms(1)]]
      register_if_new_quiet [OF assms(1)]]
    by (auto intro!: quiet_store_after)
qed

lemma bind_referrer_quiet:
  assumes "env_laws e" "bind_referrer e locker referrer levels payer rem book w = Ok (book', w')"
  shows "quiet e S gm w w'"
  using assms(2) open_referrer_book_quiet [OF assms(1)]
  by (auto simp: bind_referrer_def Let_def step_iffs split: if_splits)

lemma mint_treasury_nft_quiet:
  assumes "good_env e S gm" "mint_treasury_nft e m nft_ata payer w = Ok w'" "m \<noteq> gm"
  shows "quiet e S gm w w'"
proof -
  note laws = good_envD(1) [OF assms(1)]
  obtain w1 w2 where 1: "invoke (spl_mint_to e m nft_ata (gs_key e) 1) w = Ok w1"
      and 2: "\<exists>c. invoke (create_metadata e m payer (royalty_bps (grai_state w)) c) w1 = Ok w2"
      and 3: "invoke (create_master_edition e m payer) w2 = Ok w'"
    using assms(2) by (auto simp: mint_treasury_nft_def Let_def and_then_Ok_iff)
  have "quiet e S gm w w1" by (rule quiet_invoke [OF mint_flow [OF laws] 1])
  also have "quiet e S gm w1 w2"
    using 2 metadata_lawD(1) [OF laws] by (auto simp: ok_simps intro!: quiet_ledger lflow_same)
  also have "quiet e S gm w2 w'"
  proof (rule quiet_invoke [OF _ 3])
    fix l assume "create_master_edition e m payer (ledger w2) = Some l"
    then show "lflow e S gm (\<lambda>_. 0) (ledger w2) l"
      using metadata_lawD(2) [OF laws] assms(3)
      by (auto simp: lflow_def vault_kept_cong mint_kept_cong bal_def)
  qed
  finally show ?thesis .
qed

lemma ensure_nft_mint_quiet:
  assumes "good_env e S gm" "ensure_nft_mint e locker m nft_ata payer w = Ok (b, w')" "m \<noteq> gm"
  shows "quiet e S gm w w'"
proof (cases "data_len (ledger w) m = 0")
  case True
  note laws = good_envD(1) [OF assms(1)]
  obtain w1 where 1: "create_account_absorb_prefund e m payer token_program_id Mint_LEN w = Ok w1"
      and 2: "invoke (spl_initialize_mint2 e m 0 (gs_key e)) w1 = Ok w'"
    using assms(2) True by (auto simp: ensure_nft_mint_def step_iffs)
  have "quiet e S gm w w1" by (rule quiet_rent [OF create_account_absorb_prefund_Ok [OF laws 1]])
  also have "quiet e S gm w1 w'"
  proof (rule quiet_invoke [OF _ 2])
    fix l assume "spl_initialize_mint2 e m 0 (gs_key e) (ledger w1) = Some l"
    then show "lflow e S gm (\<lambda>_. 0) (ledger w1) l"
      using init_mint_lawD [OF laws] assms(3)
      by (auto simp: lflow_def vault_kept_cong mint_kept_cong bal_def)
  qed
  finally show ?thesis .
next
  case False
  then show ?thesis using assms(2) by (auto simp: ensure_nft_mint_def step_iffs split: if_splits)
qed

lemma ensure_treasury_nft_quiet:
  assumes "good_env e S gm" "ensure_treasury_nft e locker m nft_ata payer book w = Ok (book', w')"
  shows "quiet e S gm w w'"
proof (cases "rf_nft_mint book \<noteq> default_pubkey")
  case True
  then show ?thesis using assms(2) by (simp add: ensure_treasury_nft_def)
next
  case False
  then obtain minted w1 w2 where m: "m = pda e (TreasuryNftSeed locker)"
      and a: "require_locker_nft_ata e nft_ata locker m False w = Ok ()"
      and 1: "ensure_nft_mint e locker m nft_ata payer w = Ok (minted, w1)"
      and 2: "(if minted then Ok w1
                  else
                    and_then (if data_len (ledger w1) nft_ata = 0
                              then invoke (spl_init_account e payer nft_ata m locker) w1
                              else Ok w1) (\<lambda>w.
                    and_then (mint_treasury_nft e m nft_ata payer w) (\<lambda>w.
                    and_then (require_locker_nft_ata e nft_ata locker m True w) (\<lambda>_.
                    Ok w)))) = Ok w2"
      and w': "w' = store_referrer locker (book\<lparr>rf_nft_mint := m\<rparr>) w2"
    using assms(2) unfolding ensure_treasury_nft_def by (auto simp: step_iffs Let_def)
  have ne: "m \<noteq> gm" using good_envD(6) [OF assms(1)] m by simp
  have ata: "nft_ata = ata e locker m"
    using a by (auto simp: require_locker_nft_ata_def step_iffs)
  have "quiet e S gm w w1" by (rule ensure_nft_mint_quiet [OF assms(1) 1 ne])
  also have "quiet e S gm w1 w2"
  proof (cases minted)
    case True
    then show ?thesis using 2 by simp
  next
    case False
    then obtain w3 where 3: "(if data_len (ledger w1) nft_ata = 0
          then invoke (spl_init_account e payer nft_ata m locker) w1 else Ok w1) = Ok w3"
        and 4: "mint_treasury_nft e m nft_ata payer w3 = Ok w2"
      using 2 by (auto simp: and_then_Ok_iff)
    have "quiet e S gm w1 w3"
    proof (cases "data_len (ledger w1) nft_ata = 0")
      case True
      then have i: "invoke (spl_init_account e payer nft_ata m locker) w1 = Ok w3" using 3 by simp
      show ?thesis
      proof (rule quiet_invoke [OF _ i])
        fix l assume "spl_init_account e payer nft_ata m locker (ledger w1) = Some l"
        from init_lawD(1-3) [OF good_envD(1) [OF assms(1)] this]
        show "lflow e S gm (\<lambda>_. 0) (ledger w1) l"
          by (rule new_account_flow) (use ata good_envD(5) [OF assms(1)] in auto)
      qed
    next
      case False
      then show ?thesis using 3 by simp
    qed
    also have "quiet e S gm w3 w2" by (rule mint_treasury_nft_quiet [OF assms(1) 4 ne])
    finally show ?thesis .
  qed
  also have "quiet e S gm w2 w'" unfolding w' by (rule quiet_store_referrer)
  finally show ?thesis .
qed

lemma mint_referrer_quiet:
  assumes "good_env e S gm"
    and "mint_referrer e locker referrer v levels payer rem m nft_ata w = Ok w'"
  shows "quiet e S gm w w'"
proof -
  note laws = good_envD(1) [OF assms(1)]
  obtain b n w1 w2 b3 w3 b4 w4 where
      1: "ensure_referrer_account e locker payer w = Ok (b, n, w1)"
      and 2: "(if n then register_referrer e payer locker w1 else Ok w1) = Ok w2"
      and 3: "bind_referrer e locker referrer levels payer rem b w2 = Ok (b3, w3)"
      and 4: "ensure_treasury_nft e locker m nft_ata payer b3 w3 = Ok (b4, w4)"
      and 5: "(if 0 < v then credit_books e locker v levels rem True (store_referrer locker b4 w4)
               else Ok (store_referrer locker b4 w4)) = Ok w'"
    using assms(2) unfolding mint_referrer_def Let_def by (elim steps_OkE) blast
  have "quiet e S gm w w1" by (rule quiet_rent [OF ensure_referrer_account_rent(1) [OF laws 1]])
  also have "quiet e S gm w1 w2"
    by (rule register_if_new_quiet [OF laws 2])
  also have "quiet e S gm w2 w3" by (rule bind_referrer_quiet [OF laws 3])
  also have "quiet e S gm w3 w4" by (rule ensure_treasury_nft_quiet [OF assms(1) 4])
  also have "quiet e S gm w4 (store_referrer locker b4 w4)" by (rule quiet_store_referrer)
  also have "quiet e S gm (store_referrer locker b4 w4) w'"
    using 5 credit_books_quiet by (auto split: if_splits)
  finally show ?thesis .
qed

section \<open>Poaching\<close>

text \<open>A token account of anybody else is no vault.\<close>

definition vaults_owned :: "env \<Rightarrow> pubkey set \<Rightarrow> ledger \<Rightarrow> bool" where
  "vaults_owned e S l \<longleftrightarrow>
     (\<forall>m\<in>S. \<forall>a. token_accounts l (vault_key e m) = Some a \<longrightarrow> tk_owner a = gs_key e)"

lemma not_a_vault:
  assumes "vaults_owned e S l" "token_accounts l k = Some a" "tk_owner a \<noteq> gs_key e"
  shows "k \<notin> (\<lambda>m. vault_key e m) ` S"
  using assms by (auto simp: vaults_owned_def)

lemma vaults_owned_flow:
  assumes "lflow e S gm g l l'" "vaults_owned e S l"
  shows "vaults_owned e S l'"
  unfolding vaults_owned_def
proof (intro ballI allI impI)
  fix m a' assume m: "m \<in> S" "token_accounts l' (vault_key e m) = Some a'"
  have "vault_kept e (vault_key e m) l l'" using assms(1) m by (simp add: lflow_def)
  then show "tk_owner a' = gs_key e"
    using assms(2) m unfolding vault_kept_def vaults_owned_def by (fastforce split: option.splits)
qed

lemma checked_source:
  "check_token_account k mint owner err w = Ok a \<Longrightarrow>
   token_accounts (ledger w) k = Some a \<and> tk_owner a = owner \<and> tk_mint a = mint"
  by (auto simp: check_token_account_def step_iffs)

lemma checked_source_no_vault:
  "check_token_account k mint owner err w = Ok a \<Longrightarrow> owner \<noteq> gs_key e \<Longrightarrow> vaults_owned e S (ledger w) \<Longrightarrow>
   k \<notin> (\<lambda>m. vault_key e m) ` S"
  using not_a_vault checked_source by metis

lemma ensure_book_quiet:
  assumes "env_laws e" "ensure_book e book_key key payer w = Ok (b, w')"
  shows "quiet e S gm w w'"
proof -
  obtain n w1 where "ensure_referrer_account e key payer w = Ok (b, n, w1)"
      "(if n then register_referrer e payer key w1 else Ok w1) = Ok w'"
    using assms(2) unfolding ensure_book_def by (elim steps_OkE) auto
  then show ?thesis
    by (rule quiet_trans [OF quiet_rent [OF ensure_referrer_account_rent(1) [OF assms(1)]]
      register_if_new_quiet [OF assms(1)]])
qed

lemma ensure_book_then:
  assumes "env_laws e" "and_then (ensure_book e book_key key payer w) (\<lambda>(b, w). f b w) = Ok r"
  obtains b w1 where "quiet e S gm w w1" "f b w1 = Ok r"
  using assms(2) ensure_book_quiet [OF assms(1)] by (elim steps_OkE) blast

lemma debit_old_l2_quiet:
  assumes "env_laws e" "debit_old_l2 e pa shift seller old own w = Ok w'"
  shows "quiet e S gm w w'"
  using assms(2) unfolding debit_old_l2_def
  by (auto simp: step_iffs split: if_splits intro!: quiet_store_after elim: ensure_book_quiet [OF assms(1)])

lemma debit_seller_quiet:
  assumes "env_laws e" "debit_seller e pa shift seller own direct w = Ok w'"
  shows "quiet e S gm w w'"
proof (cases "seller = pa_locker pa")
  case True
  then show ?thesis using assms(2) by (simp add: debit_seller_def)
next
  case False
  then obtain b w1 b' where 1: "ensure_book e (pa_seller_book pa) seller (pa_poacher pa) w = Ok (b, w1)"
      and 2: "debit_old_l2 e pa shift seller (rf_referrer b') own (store_referrer seller b' w1) = Ok w'"
    using assms(2) by (auto simp: debit_seller_def and_then_Ok_iff Let_def)
  show ?thesis
    by (rule quiet_trans [OF ensure_book_quiet [OF assms(1) 1]
      quiet_store_then [OF debit_old_l2_quiet [OF assms(1) 2]]])
qed

lemma credit_buyer_quiet:
  assumes "env_laws e" "credit_buyer e pa shift book own direct w = Ok (k, w')"
  shows "quiet e S gm w w'"
  using assms(2) unfolding credit_buyer_def Let_def
  by (auto simp: and_then_Ok_iff split: if_splits
      intro!: quiet_store_after elim: ensure_book_quiet [OF assms(1)])

lemma credit_new_l2_quiet:
  assumes "env_laws e" "credit_new_l2 e pa shift new_l2 own w = Ok w'"
  shows "quiet e S gm w w'"
  using assms(2) unfolding credit_new_l2_def
  by (auto simp: step_iffs split: if_splits intro!: quiet_store_after elim: ensure_book_quiet [OF assms(1)])

lemma spl_transfer_past:
  assumes "good_env e S gm" "from \<notin> (\<lambda>m. vault_key e m) ` S"
    and "(if b then invoke (spl_transfer e from to auth amt) w else Ok w) = Ok w'"
  shows "quiet e S gm w w'"
proof (cases b)
  case True
  then have i: "invoke (spl_transfer e from to auth amt) w = Ok w'" using assms(3) by simp
  show ?thesis
    by (rule quiet_invoke [OF _ i])
      (rule moved_past [OF spl_transfer_moved [OF good_envD(1) [OF assms(1)]] assms(2)])
qed (use assms(3) in simp)

lemma pay_poach_quiet:
  assumes "good_env e S gm" "pay_poach e pa price w = Ok w'"
    and "pa_poacher_grai_ata pa \<notin> (\<lambda>m. vault_key e m) ` S"
  shows "quiet e S gm w w'"
proof -
  obtain fee rest w1 where
      "(if 0 < rest then invoke (spl_transfer e (pa_poacher_grai_ata pa) (pa_seller_grai_ata pa)
                     (pa_poacher pa) rest) w else Ok w) = Ok w1"
      "(if 0 < fee then invoke (spl_transfer e (pa_poacher_grai_ata pa)
          (ata e (pa_grinders_state pa) (pa_grai_mint pa)) (pa_poacher pa) fee) w1 else Ok w1) = Ok w'"
    using assms(2) unfolding pay_poach_def Let_def by (elim steps_OkE) blast
  then show ?thesis using spl_transfer_past [OF assms(1,3)] quiet_trans by metis
qed

lemma execute_poach_quiet:
  assumes "good_env e S gm" "execute_poach e pa rem w = Ok w'" "pa_poacher pa \<noteq> gs_key e"
    and "vaults_owned e S (ledger w)"
  shows "quiet e S gm w w'"
proof -
  note laws = good_envD(1) [OF assms(1)]
  obtain book source seller_ata w1 price seller w2 w3 new_l2 w4 where
      acc: "accounts_Poach e pa w = Ok (book, source, seller_ata, w1)"
      and 1: "pay_poach e pa price w1 = Ok w2"
      and 2: "debit_seller e pa (1 < affiliate_levels (grai_state w2)) seller (rf_value book)
                (rf_l1_value book) w2 = Ok w3"
      and 3: "credit_buyer e pa (1 < affiliate_levels (grai_state w2)) book (rf_value book)
                (rf_l1_value book) w3 = Ok (new_l2, w4)"
      and 4: "credit_new_l2 e pa (1 < affiliate_levels (grai_state w2)) new_l2 (rf_value book) w4 = Ok w'"
    using assms(2) unfolding execute_poach_def Let_def by (auto simp: and_then_Ok_iff)
  have src: "check_token_account (pa_poacher_grai_ata pa) (pa_grai_mint pa) (pa_poacher pa)
                 InvalidDepositSource w = Ok source"
    and i: "init_token_if_needed e (pa_poacher pa) (ata e (pa_grinders_state pa) (pa_grai_mint pa))
                 (pa_grai_mint pa) (pa_grinders_state pa) w = Ok w1"
    using acc unfolding accounts_Poach_def by (auto simp: and_then_Ok_iff)
  have no: "pa_poacher_grai_ata pa \<notin> (\<lambda>m. vault_key e m) ` S"
    by (rule checked_source_no_vault [OF src assms(3,4)])
  have "quiet e S gm w w1" by (rule quiet_init_ata [OF assms(1) i])
  also have "quiet e S gm w1 w2" by (rule pay_poach_quiet [OF assms(1) 1 no])
  also have "quiet e S gm w2 w3" by (rule debit_seller_quiet [OF laws 2])
  also have "quiet e S gm w3 w4" by (rule credit_buyer_quiet [OF laws 3])
  also have "quiet e S gm w4 w'" by (rule credit_new_l2_quiet [OF laws 4])
  finally show ?thesis .
qed

section \<open>Treasury payouts\<close>

lemma try_pay_quiet:
  assumes "good_env e S gm" "try_pay_from_treasury e (treasury_key e m) dest to amt w = Ok (ok, w')"
  shows "quiet e S gm w w'"
  using assms(2) treasury_out [OF assms(1)]
  by (auto simp: try_pay_from_treasury_def step_iffs split: if_splits option.splits)

lemma pay_affiliate_quiet:
  assumes "good_env e S gm"
    and "pay_affiliate e (treasury_key e m) nft dest book referrer share po w = Ok (po', w')"
  shows "quiet e S gm w w'"
  using assms(2) try_pay_quiet [OF assms(1)]
  by (auto simp: pay_affiliate_def and_then_Ok_iff split: if_splits option.splits)

lemma affiliate_walk_quiet:
  "good_env e S gm \<Longrightarrow>
   affiliate_walk e locker rv (treasury_key e m) rem shares level n cur po w = Ok (po', w') \<Longrightarrow>
   quiet e S gm w w'"
proof (induction n arbitrary: level cur po w po' w')
  case (Suc n)
  from Suc.prems(2) have "w' = w \<or> (\<exists>nft dest bk referrer share po1 w1.
      pay_affiliate e (treasury_key e m) nft dest bk referrer share po w = Ok (po1, w1) \<and>
      affiliate_walk e locker rv (treasury_key e m) rem shares (Suc level) n referrer po1 w1 = Ok (po', w'))"
    by (auto simp: and_then_Ok_iff Let_def split: if_splits option.splits)
  then show ?case
    using Suc.IH [OF Suc.prems(1)] pay_affiliate_quiet [OF Suc.prems(1)] quiet_trans quiet_refl by metis
qed simp

lemma pay_treasury_shares_quiet:
  assumes "good_env e S gm"
    and "pay_treasury_shares e locker gross rv (treasury_key e m) bata rem w = Ok w'"
  shows "quiet e S gm w w'"
proof -
  have "w' = w \<or> (\<exists>po w1 net.
      (w1 = w \<or> affiliate_walk e locker rv (treasury_key e m) rem (affiliate_share_bps (grai_state w)) 0
          (unat (affiliate_levels (grai_state w))) locker \<lparr> paid_revenue = 0, retained_affiliate = 0 \<rparr> w
        = Ok (po, w1)) \<and>
      (w' = w1 \<or> (\<exists>ok. try_pay_from_treasury e (treasury_key e m) bata (gs_beneficiar (grai_state w)) net w1
        = Ok (ok, w'))))"
    using assms(2)
    by (auto simp: pay_treasury_shares_def and_then_Ok_iff Let_def split: if_splits)
  then show ?thesis
    using affiliate_walk_quiet [OF assms(1)] try_pay_quiet [OF assms(1)] quiet_trans quiet_refl by metis
qed

lemma distribute_claim_treasury_quiet:
  assumes "good_env e S gm"
    and "distribute_claim_treasury e locker cv gross rv (treasury_key e m) bata rem payer w = Ok w'"
  shows "quiet e S gm w w'"
proof -
  obtain book n w1 w2 where
      1: "ensure_referrer_account e locker payer w = Ok (book, n, w1)"
      and 2: "credit_books e locker cv (affiliate_levels (grai_state (if n then store_referrer locker book w1 else w1)))
         rem True (if n then store_referrer locker book w1 else w1) = Ok w2"
      and 3: "pay_treasury_shares e locker gross rv (treasury_key e m) bata rem w2 = Ok w'"
    using assms(2) by (auto simp: distribute_claim_treasury_def and_then_Ok_iff Let_def)
  have "quiet e S gm w w1"
    by (rule quiet_rent [OF ensure_referrer_account_rent(1) [OF good_envD(1) [OF assms(1)] 1]])
  also have "quiet e S gm w1 (if n then store_referrer locker book w1 else w1)"
    by (simp add: quiet_store_referrer)
  also have "quiet e S gm \<dots> w2" by (rule credit_books_quiet [OF 2])
  also have "quiet e S gm w2 w'" by (rule pay_treasury_shares_quiet [OF assms(1) 3])
  finally show ?thesis .
qed

end
