(* ===== verification/Solvency.thy ===== *)
theory Solvency
  imports Treasury_Flows
begin

text \<open>
  The protocol's invariant and its preservation by the instructions that move money: the
  registry is consistent, the lock book is balanced, and every vault holds what the program
  owes from it - the share vault all locked shares, an asset's vault the dividend reserve.
\<close>

section \<open>The invariant\<close>

definition owed :: "world \<Rightarrow> pubkey \<Rightarrow> nat" where
  "owed w m = (if m = gs_grai_mint (grai_state w) then unat (total_locked (grai_state w))
               else case assets w m of None \<Rightarrow> 0 | Some a \<Rightarrow> unat (total_claimable a))"

definition solvent :: "env \<Rightarrow> pubkey set \<Rightarrow> world \<Rightarrow> bool" where
  "solvent e S w \<longleftrightarrow> (\<forall>m\<in>S. owed w m \<le> bal (ledger w) (vault_key e m))"

definition registry_inv :: "env \<Rightarrow> pubkey set \<Rightarrow> pubkey \<Rightarrow> world \<Rightarrow> bool" where
  "registry_inv e S gm w \<longleftrightarrow> gs_grai_mint (grai_state w) = gm \<and>
     (\<exists>x. mints (ledger w) gm = Some x \<and> mi_authority x = Some (gs_key e)) \<and>
     distinct (asset_mints (grai_state w)) \<and> set (asset_mints (grai_state w)) = dom (assets w) \<and>
     dom (assets w) \<subseteq> S - {gm} \<and>
     (\<forall>m a. assets w m = Some a \<longrightarrow> ac_asset_mint a = m) \<and>
     vaults_owned e S (ledger w) \<and>
     (\<forall>m\<in>dom (assets w). token_accounts (ledger w) (vault_key e m) \<noteq> None)"

definition grai_inv :: "env \<Rightarrow> pubkey set \<Rightarrow> pubkey \<Rightarrow> world \<Rightarrow> bool" where
  "grai_inv e S gm w \<longleftrightarrow> registry_inv e S gm w \<and> lock_inv e w \<and> solvent e S w"

text \<open>What only the settings instructions change, and what only liquidation changes.\<close>

definition settings :: "world \<Rightarrow> pubkey \<times> pubkey \<times> pubkey \<times> pubkey \<times> Config \<times> u16 \<times> u8 \<times> u16 list \<times> i64 \<times> u8" where
  "settings w =
     (gs_owner (grai_state w), gs_pending_owner (grai_state w), gs_beneficiar (grai_state w),
      gs_grinders (grai_state w), gs_config (grai_state w), royalty_bps (grai_state w),
      affiliate_levels (grai_state w), affiliate_share_bps (grai_state w),
      mint_premium_at (grai_state w), gs_bump (grai_state w))"

definition phase :: "world \<Rightarrow> bool \<times> i64" where
  "phase w = (liquidation (grai_state w), liquidation_at (grai_state w))"

definition routine :: "env \<Rightarrow> pubkey set \<Rightarrow> pubkey \<Rightarrow> world \<Rightarrow> world \<Rightarrow> bool" where
  "routine e S gm w w' \<longleftrightarrow> grai_inv e S gm w' \<and> settings w' = settings w \<and> phase w' = phase w"

lemma keeps_settings: "keeps w w' \<Longrightarrow> settings w' = settings w"
  by (auto simp: keeps_def settings_def)

lemma keeps_phase: "keeps w w' \<Longrightarrow> phase w' = phase w"
  by (auto simp: keeps_def phase_def)

section \<open>The preservation lemma\<close>

lemma grai_invD:
  assumes "grai_inv e S gm w"
  shows "gs_grai_mint (grai_state w) = gm" "lock_inv e w" "solvent e S w"
    "vaults_owned e S (ledger w)" "assets w m = Some a \<Longrightarrow> ac_asset_mint a = m"
    "assets w m = Some a \<Longrightarrow> m \<in> S" "assets w m = Some a \<Longrightarrow> m \<noteq> gm"
    "m \<in> set (asset_mints (grai_state w)) \<longleftrightarrow> assets w m \<noteq> None"
    "assets w gm = None"
  using assms by (auto simp: grai_inv_def registry_inv_def)

lemma lflow_authority:
  assumes "lflow e S gm g l l'" "\<exists>x. mints l gm = Some x \<and> mi_authority x = Some k"
  shows "\<exists>x. mints l' gm = Some x \<and> mi_authority x = Some k"
  using assms unfolding lflow_def mint_kept_def by fastforce

lemma lflow_exists:
  assumes "lflow e S gm g l l'" "m \<in> S" "token_accounts l (vault_key e m) \<noteq> None"
  shows "token_accounts l' (vault_key e m) \<noteq> None"
  using assms unfolding lflow_def vault_kept_def by (fastforce split: option.splits)

text \<open>
  A step keeps the invariant when the vaults still cover what is owed, in particular when its
  flow covers the growth of what is owed. The registered mints may change only in their
  configurations here.
\<close>

lemma grai_inv_covered:
  assumes inv: "grai_inv e S gm w" and flow: "lflow e S gm g (ledger w) (ledger w')"
    and same: "gs_grai_mint (grai_state w') = gs_grai_mint (grai_state w)"
      "asset_mints (grai_state w') = asset_mints (grai_state w)" "dom (assets w') = dom (assets w)"
    and keys: "\<And>m a. assets w' m = Some a \<Longrightarrow> ac_asset_mint a = m"
    and lock: "lock_inv e w'" and solvent: "solvent e S w'"
  shows "grai_inv e S gm w'"
proof -
  have r: "registry_inv e S gm w" using inv by (simp add: grai_inv_def)
  have "\<exists>x. mints (ledger w') gm = Some x \<and> mi_authority x = Some (gs_key e)"
    by (rule lflow_authority [OF flow]) (use r in \<open>simp add: registry_inv_def\<close>)
  moreover have "vaults_owned e S (ledger w')"
    by (rule vaults_owned_flow [OF flow]) (use r in \<open>simp add: registry_inv_def\<close>)
  moreover have "\<forall>m\<in>dom (assets w'). token_accounts (ledger w') (vault_key e m) \<noteq> None"
  proof
    fix m assume "m \<in> dom (assets w')"
    then have "m \<in> S" "token_accounts (ledger w) (vault_key e m) \<noteq> None"
      using r same(3) unfolding registry_inv_def by blast+
    then show "token_accounts (ledger w') (vault_key e m) \<noteq> None" by (rule lflow_exists [OF flow])
  qed
  ultimately have "registry_inv e S gm w'"
    using r same keys by (simp add: registry_inv_def)
  then show ?thesis using lock solvent by (simp add: grai_inv_def)
qed

lemma solvent_flow:
  assumes "solvent e S w" "lflow e S gm g (ledger w) (ledger w')"
    and "\<And>m. m \<in> S \<Longrightarrow> int (owed w' m) \<le> int (owed w m) + g m"
  shows "solvent e S w'"
  unfolding solvent_def
proof
  fix m assume m: "m \<in> S"
  have "int (owed w m) \<le> int (bal (ledger w) (vault_key e m))"
    using assms(1) m by (simp add: solvent_def)
  moreover have "int (bal (ledger w) (vault_key e m)) + g m \<le> int (bal (ledger w') (vault_key e m))"
    using assms(2) m by (simp add: lflow_def)
  ultimately show "owed w' m \<le> bal (ledger w') (vault_key e m)" using assms(3) [OF m] by linarith
qed

lemma grai_inv_step:
  assumes inv: "grai_inv e S gm w" and flow: "lflow e S gm g (ledger w) (ledger w')"
    and same: "gs_grai_mint (grai_state w') = gs_grai_mint (grai_state w)"
      "asset_mints (grai_state w') = asset_mints (grai_state w)" "dom (assets w') = dom (assets w)"
    and keys: "\<And>m a. assets w' m = Some a \<Longrightarrow> ac_asset_mint a = m"
    and lock: "lock_inv e w'"
    and owed: "\<And>m. m \<in> S \<Longrightarrow> int (owed w' m) \<le> int (owed w m) + g m"
  shows "grai_inv e S gm w'"
  by (rule grai_inv_covered [OF inv flow same keys lock
      solvent_flow [OF grai_invD(3) [OF inv] flow owed]])

lemma owed_keeps: "keeps w w' \<Longrightarrow> owed w' m = owed w m"
  by (simp add: owed_def keeps_simps)

lemma lock_inv_keeps: "keeps w w' \<Longrightarrow> lock_inv e w \<Longrightarrow> lock_inv e w'"
  by (simp add: lock_inv_def keeps_simps)

lemma grai_inv_wflow:
  assumes "grai_inv e S gm w" "wflow e S gm g w w'" "\<And>m. m \<in> S \<Longrightarrow> 0 \<le> g m"
  shows "grai_inv e S gm w'"
proof -
  have k: "keeps w w'" using assms(2) by (rule wflow_keeps)
  show ?thesis
    by (rule grai_inv_step [OF assms(1), of g])
      (use assms k in \<open>auto simp: wflow_def keeps_simps owed_keeps intro: lock_inv_keeps
        dest: grai_invD\<close>)
qed

lemma quiet_routine:
  assumes "grai_inv e S gm w" "quiet e S gm w w'"
  shows "routine e S gm w w'"
  using assms grai_inv_wflow [of e S gm w "\<lambda>_. 0" w'] keeps_settings keeps_phase
  by (auto simp: routine_def quiet_def wflow_def)

lemma quiet_inv: "grai_inv e S gm w \<Longrightarrow> quiet e S gm w w' \<Longrightarrow> grai_inv e S gm w'"
  using quiet_routine by (auto simp: routine_def)

lemma routine_trans: "routine e S gm a b \<Longrightarrow> routine e S gm b c \<Longrightarrow> routine e S gm a c"
  by (auto simp: routine_def)

text \<open>Changing one registered configuration and the lock book after money has flowed.\<close>

definition same_registry :: "world \<Rightarrow> world \<Rightarrow> bool" where
  "same_registry w w' \<longleftrightarrow> gs_grai_mint (grai_state w') = gs_grai_mint (grai_state w) \<and>
     asset_mints (grai_state w') = asset_mints (grai_state w) \<and>
     settings w' = settings w \<and> phase w' = phase w"

lemma asset_routine:
  assumes inv: "grai_inv e S gm w" and flow: "lflow e S gm g (ledger w) (ledger w')"
    and reg: "same_registry w w'" and lock: "lock_inv e w'"
    and a: "assets w m = Some a" "assets w' = (assets w)(m \<mapsto> a')" "ac_asset_mint a' = m"
    and claim: "int (unat (total_claimable a')) \<le> int (unat (total_claimable a)) + g m"
    and share: "gm \<in> S \<Longrightarrow> int (unat (total_locked (grai_state w'))) \<le> int (unat (total_locked (grai_state w))) + g gm"
    and other: "\<And>k. k \<in> S \<Longrightarrow> k \<noteq> m \<Longrightarrow> k \<noteq> gm \<Longrightarrow> 0 \<le> g k"
  shows "routine e S gm w w'"
proof -
  have gm: "m \<noteq> gm" "gs_grai_mint (grai_state w) = gm" using grai_invD [OF inv] a by auto
  have "grai_inv e S gm w'"
  proof (rule grai_inv_step [OF inv flow])
    show "dom (assets w') = dom (assets w)" using a by auto
    show "ac_asset_mint b = n" if "assets w' n = Some b" for n b
      using that a grai_invD(5) [OF inv] by (auto split: if_splits)
    show "int (owed w' n) \<le> int (owed w n) + g n" if "n \<in> S" for n
      using other [OF that] claim share that a gm reg
      by (auto simp: owed_def same_registry_def split: option.splits)
  qed (use reg lock in \<open>simp_all add: same_registry_def\<close>)
  then show ?thesis using reg by (simp add: routine_def same_registry_def)
qed

lemma escrow_routine:
  assumes inv: "grai_inv e S gm w" and flow: "lflow e S gm g (ledger w) (ledger w')"
    and reg: "same_registry w w'" "assets w' = assets w" and lock: "lock_inv e w'"
    and share: "gm \<in> S \<Longrightarrow> int (unat (total_locked (grai_state w'))) \<le> int (unat (total_locked (grai_state w))) + g gm"
    and other: "\<And>m. m \<in> S \<Longrightarrow> m \<noteq> gm \<Longrightarrow> 0 \<le> g m"
  shows "routine e S gm w w'"
proof -
  have gm: "gs_grai_mint (grai_state w) = gm" by (rule grai_invD(1) [OF inv])
  have "grai_inv e S gm w'"
  proof (rule grai_inv_step [OF inv flow])
    show "int (owed w' m) \<le> int (owed w m) + g m" if "m \<in> S" for m
      using share that other [OF that] reg gm by (auto simp: owed_def same_registry_def split: option.splits)
  qed (use reg grai_invD(5) [OF inv] lock in \<open>auto simp: same_registry_def\<close>)
  then show ?thesis using reg by (simp add: routine_def same_registry_def)
qed

lemma keeps_registry: "keeps w w' \<Longrightarrow> same_registry w w'"
  using keeps_settings keeps_phase by (simp add: same_registry_def keeps_simps)

lemma same_registry_refl [simp]: "same_registry w w"
  by (simp add: same_registry_def)

lemma same_registry_trans: "same_registry a b \<Longrightarrow> same_registry b c \<Longrightarrow> same_registry a c"
  by (simp add: same_registry_def)

lemma store_asset_routine:
  assumes inv: "grai_inv e S gm w" and flow: "wflow e S gm g w w1" and a: "assets w m = Some a"
    and a': "ac_asset_mint a' = m"
      "int (unat (total_claimable a')) \<le> int (unat (total_claimable a)) + g m"
    and g: "\<And>k. k \<in> S \<Longrightarrow> k \<noteq> m \<Longrightarrow> 0 \<le> g k"
  shows "routine e S gm w (store_asset_config m a' w1)"
proof -
  have k: "keeps w w1" using flow by (rule wflow_keeps)
  note k' = keeps_simps [OF k] keeps_registry [OF k]
  show ?thesis
  proof (rule asset_routine [OF inv, of g, OF _ _ _ a])
    show "lflow e S gm g (ledger w) (ledger (store_asset_config m a' w1))"
      using flow by (simp add: wflow_def store_asset_config_def)
    show "lock_inv e (store_asset_config m a' w1)"
      using lock_inv_keeps [OF k grai_invD(2) [OF inv]]
      by (simp add: lock_inv_def store_asset_config_def)
    show "int (unat (total_locked (grai_state (store_asset_config m a' w1))))
        \<le> int (unat (total_locked (grai_state w))) + g gm" if "gm \<in> S"
      using g [OF that] grai_invD(7) [OF inv a] k' by (simp add: store_asset_config_def)
  qed (use k' a' g in \<open>simp_all add: store_asset_config_def same_registry_def settings_def phase_def\<close>)
qed

section \<open>Yield\<close>

lemma check_asset_config_Ok:
  "check_asset_config e m w = Ok a \<longleftrightarrow>
     assets w m = Some a \<and> ac_bump a = pda_bump e (AssetSeed m) \<and> ac_asset_mint a = m"
  by (auto simp: check_asset_config_def ok_simps)

text \<open>What the cuts take out of the vault and add to the reserve is the amount, at most.\<close>

lemma pay_cuts_flow:
  assumes "good_env e S gm" "m \<in> S" "pay_cuts e m a amount w = Ok (a', w')"
  shows "wflow e S gm (at_mint m (int (unat (total_claimable a')) - int (unat (total_claimable a)) - int (unat amount))) w w'"
    "ac_asset_mint a' = ac_asset_mint a"
proof -
  obtain tcut dcut a1 dust t where
      c: "split_cuts amount (gs_config (grai_state w)) = Ok (tcut, dcut)"
      and d: "(if 0 < dcut then distribute_dividend a dcut (total_locked (grai_state w))
               else Ok (a, 0)) = Ok (a1, dust)"
      and t: "ok_or (checked_add tcut dust) MathOverflow = Ok t"
      and p: "(if 0 < t then transfer_from_vault e (vault_key e m) (treasury_key e m) t w else Ok w) = Ok w'"
      and a': "a1 = a'"
    using assms(3) unfolding pay_cuts_def Let_def by (elim steps_OkE) blast
  have dd: "unat dust + unat (total_claimable a') = unat dcut + unat (total_claimable a) \<and>
      ac_asset_mint a' = ac_asset_mint a"
  proof (cases "0 < dcut")
    case True
    then have "distribute_dividend a dcut (total_locked (grai_state w)) = Ok (a', dust)" using d a' by simp
    note dd = distribute_dividend_Ok [OF this]
    then have "a' = a\<lparr>acc_share := acc_share a', total_claimable := total_claimable a'\<rparr>" by blast
    then have "ac_asset_mint a' =
        ac_asset_mint (a\<lparr>acc_share := acc_share a', total_claimable := total_claimable a'\<rparr>)"
      by (rule arg_cong)
    then have "ac_asset_mint a' = ac_asset_mint a" by simp
    with dd show ?thesis by blast
  next
    case False
    then have "dcut = 0" "a' = a" "dust = 0" using d a' by (simp_all add: word_greater_zero_iff)
    then show ?thesis by simp
  qed
  then show "ac_asset_mint a' = ac_asset_mint a" ..
  have "unat tcut + unat dcut \<le> unat amount"
    using iffD1 [OF split_cuts_Ok c] by linarith
  moreover have "unat t = unat tcut + unat dust" using t by (simp add: ok_or_Ok_iff checked_add_Some)
  ultimately have le: "int (unat (total_claimable a')) - int (unat (total_claimable a)) - int (unat amount)
      \<le> - int (unat t)" using dd by linarith
  have f: "wflow e S gm (at_mint m (- int (unat t))) w w'"
  proof (cases "0 < t")
    case True
    then show ?thesis using p vault_out [OF assms(1,2)] by simp
  next
    case False
    then have "t = 0" "w' = w" using p by (simp_all add: word_greater_zero_iff)
    then show ?thesis using quiet_refl [of e S gm w] by (simp add: quiet_def at_mint_def)
  qed
  show "wflow e S gm (at_mint m (int (unat (total_claimable a')) - int (unat (total_claimable a)) - int (unat amount))) w w'"
    by (rule wflow_trans [OF f quiet_refl [unfolded quiet_def]]) (use le in \<open>simp add: at_mint_def\<close>)
qed

text \<open>The position of a custodian, created on its first harvest.\<close>

lemma init_position_quiet:
  assumes "env_laws e" "init_position_if_needed e payer user m w = Ok (p, w')"
  shows "quiet e S gm w w'"
proof (cases "positions w (user, m)")
  case (Some q)
  then show ?thesis using assms(2) by (simp add: init_position_if_needed_def)
next
  case None
  then obtain w1 p' where
      i: "invoke (anchor_init e payer (pda e (PositionSeed user m)) (8 + Position_LEN)) w = Ok w1"
      and w': "w' = store_position user m p' w1"
    using assms(2) by (auto simp: init_position_if_needed_def and_then_Ok_iff Let_def)
  show ?thesis
    unfolding w' by (rule quiet_trans [OF quiet_rent [OF rent_only_invoke(6) [OF assms(1) i]]
      quiet_store_position])
qed

lemma accounts_Distribute_Ok:
  assumes "good_env e S gm" "accounts_Distribute e cw payer m feed gmint cata w = Ok (a, p, w1)"
  shows "quiet e S gm w w1" "assets w m = Some a" "ac_asset_mint a = m"
    "\<exists>x. check_token_account cata m cw InvalidDepositSource w = Ok x"
proof -
  have "init_position_if_needed e payer cw m w = Ok (p, w1)" "check_asset_config e m w = Ok a"
    and c: "\<exists>x. check_token_account cata m cw InvalidDepositSource w = Ok x"
    using assms(2) unfolding accounts_Distribute_def by (auto simp: and_then_Ok_iff)
  then show "quiet e S gm w w1" "assets w m = Some a" "ac_asset_mint a = m"
    using init_position_quiet [OF good_envD(1) [OF assms(1)]] by (auto simp: check_asset_config_Ok)
  show "\<exists>x. check_token_account cata m cw InvalidDepositSource w = Ok x" by (rule c)
qed

lemma execute_distribute_routine:
  assumes good: "good_env e S gm" and inv: "grai_inv e S gm w" and cw: "cw \<noteq> gs_key e"
    and ok: "execute_distribute e cw payer m feed gmint cata y w = Ok w'"
  shows "routine e S gm w w'"
proof -
  obtain a p w1 w2 a2 w3 ty py where acc: "accounts_Distribute e cw payer m feed gmint cata w = Ok (a, p, w1)"
      and t: "transfer_from_signer e cata (vault_key e m) cw y w1 = Ok w2"
      and c: "pay_cuts e m a y w2 = Ok (a2, w3)"
      and w': "Ok (store_position cw m (p\<lparr>po_yielded := py, po_bump := pda_bump e (PositionSeed cw m)\<rparr>)
           (store_asset_config m (a2\<lparr>total_yielded := ty\<rparr>) w3)) = (Ok w' :: world res)"
    using ok unfolding execute_distribute_def by (elim steps_OkE) blast
  note acc = accounts_Distribute_Ok [OF good acc]
  have m: "m \<in> S" using grai_invD(6) [OF inv acc(2)] .
  have src: "cata \<notin> (\<lambda>m. vault_key e m) ` S"
    using checked_source_no_vault [OF _ cw grai_invD(4) [OF inv]] acc(4) by blast
  have "wflow e S gm (at_mint m (int (unat (total_claimable a2)) - int (unat (total_claimable a)))) w w3"
  proof (rule wflow_trans [OF quiet_then [OF acc(1) signer_in [OF good m src t]]])
    show "wflow e S gm (at_mint m (int (unat (total_claimable a2)) - int (unat (total_claimable a)) - int (unat y))) w2 w3"
      by (rule pay_cuts_flow(1) [OF good m c])
  qed (simp add: at_mint_def)
  from store_asset_routine [OF inv this acc(2), of "a2\<lparr>total_yielded := ty\<rparr>"]
  have r: "routine e S gm w (store_asset_config m (a2\<lparr>total_yielded := ty\<rparr>) w3)"
    using pay_cuts_flow(2) [OF good m c] acc(3) by simp
  then have "grai_inv e S gm (store_asset_config m (a2\<lparr>total_yielded := ty\<rparr>) w3)" by (simp add: routine_def)
  note r' = routine_trans [OF r quiet_routine [OF this quiet_store_position]]
  have "w' = store_position cw m (p\<lparr>po_yielded := py, po_bump := pda_bump e (PositionSeed cw m)\<rparr>)
      (store_asset_config m (a2\<lparr>total_yielded := ty\<rparr>) w3)" using w' by simp
  then show ?thesis using r' by (rule ssubst)
qed

end
