(* ===== verification/Solvency_Locks.thy ===== *)
theory Solvency_Locks
  imports Solvency
begin

text \<open>
  The instructions that change escrows keep the protocol's invariant: lock, vote, unlock,
  bribe and both deposits. Each proof names the effect on the lock book, the effect on the
  vaults, and that the growth of what is locked is covered by the flow into the share vault.
\<close>

section \<open>Composing routine steps\<close>

lemma routine_refl: "grai_inv e S gm w \<Longrightarrow> routine e S gm w w"
  by (simp add: routine_def)

lemma routine_inv: "routine e S gm w w' \<Longrightarrow> grai_inv e S gm w'"
  by (simp add: routine_def)

lemma quiet_then_routine:
  "grai_inv e S gm a \<Longrightarrow> quiet e S gm a b \<Longrightarrow> (grai_inv e S gm b \<Longrightarrow> routine e S gm b c) \<Longrightarrow> routine e S gm a c"
  using quiet_routine quiet_inv routine_trans by metis

lemma routine_then_quiet: "routine e S gm a b \<Longrightarrow> quiet e S gm b c \<Longrightarrow> routine e S gm a c"
  using quiet_routine routine_inv routine_trans by metis

lemma init_escrow_routine:
  assumes "env_laws e" "grai_inv e S gm w" "init_escrow_if_needed e payer user w = Ok w'"
  shows "routine e S gm w w'"
proof -
  obtain l where l: "token_accounts l = token_accounts (ledger w)" "mints l = mints (ledger w)"
    and w': "w' = (case escrows w user of Some x \<Rightarrow> w
           | None \<Rightarrow> set_escrow user empty_escrow (w\<lparr>ledger := l\<rparr>))"
    using init_escrow_if_needed_Ok [OF assms(1,3)] .
  have "grai_state w' = grai_state w" "same_registry w w'" "lflow e S gm (\<lambda>_. 0) (ledger w) (ledger w')"
    using l w' by (auto simp: set_escrow_def same_registry_def settings_def phase_def lflow_same
      split: option.splits)
  then show ?thesis
    using init_escrow_if_needed_inv [OF assms(1,3) grai_invD(2) [OF assms(2)]]
    by (intro escrow_routine [OF assms(2)]) (auto simp: w' set_escrow_def split: option.splits)
qed

section \<open>Lock and vote\<close>

lemma perform_lock_routine:
  assumes good: "good_env e S gm" and inv: "grai_inv e S gm w"
    and ok: "perform_lock e (pda_bump e (EscrowSeed user)) amt source (vault_key e gm) user rem w = Ok w'"
    and src: "source \<notin> (\<lambda>m. vault_key e m) ` S"
  shows "routine e S gm w w'"
proof -
  note laws = good_envD(1) [OF good]
  obtain x x' tlk P l where h: "unat tlk = unat (total_locked (grai_state w)) + unat amt"
    and w': "w' = (locked_world user x x' tlk w)\<lparr>positions := P, ledger := l\<rparr>"
    and m: "moved source (vault_key e gm) (unat amt) (ledger w) l"
    using perform_lock_Ok [OF laws ok] by metis
  show ?thesis
  proof (rule escrow_routine [OF inv, of "at_mint gm (int (unat amt))"])
    show "lflow e S gm (at_mint gm (int (unat amt))) (ledger w) (ledger w')"
      using moved_in [OF good good_envD(2) [OF good] m src] w' by simp
    show "lock_inv e w'" by (rule perform_lock_inv [OF laws ok grai_invD(2) [OF inv]])
  qed (use w' h in \<open>simp_all add: locked_world_def same_registry_def settings_def phase_def at_mint_def\<close>)
qed

lemma perform_vote_routine:
  assumes laws: "env_laws e" and inv: "grai_inv e S gm w"
    and ok: "perform_vote e (pda_bump e (EscrowSeed user)) amt user payer rem now w = Ok w'"
  shows "routine e S gm w w'"
proof -
  obtain x x' tv P l where w': "w' = (voted_world user x x' tv w)\<lparr>positions := P, ledger := l\<rparr>"
    and l: "token_accounts l = token_accounts (ledger w)" "mints l = mints (ledger w)"
    using perform_vote_Ok [OF laws ok] by metis
  show ?thesis
  proof (rule escrow_routine [OF inv, of "\<lambda>_. 0"])
    show "lflow e S gm (\<lambda>_. 0) (ledger w) (ledger w')" using l w' by (simp add: lflow_same)
    show "lock_inv e w'" by (rule perform_vote_inv [OF laws ok grai_invD(2) [OF inv]])
  qed (use w' in \<open>simp_all add: voted_world_def same_registry_def settings_def phase_def\<close>)
qed

text \<open>What the checks of \<open>Lock\<close> and \<open>Vote\<close> leave: the invariant, and a source that is no vault.\<close>

lemma entry_routine:
  assumes good: "good_env e S gm" and inv: "grai_inv e S gm w" and user: "user \<noteq> gs_key e"
    and i: "init_escrow_if_needed e user user w = Ok w1"
    and c: "check_token_account source m user err w1 = Ok a"
    and t: "init_token_if_needed e user (vault_key e m) m (gs_key e) w1 = Ok w2"
  shows "routine e S gm w w2" "source \<notin> (\<lambda>m. vault_key e m) ` S"
proof -
  have r: "routine e S gm w w1" by (rule init_escrow_routine [OF good_envD(1) [OF good] inv i])
  then show "routine e S gm w w2" by (rule routine_then_quiet [OF _ quiet_init_vault [OF good t]])
  show "source \<notin> (\<lambda>m. vault_key e m) ` S"
    by (rule checked_source_no_vault [OF c user grai_invD(4) [OF routine_inv [OF r]]])
qed

lemma execute_lock_routine:
  assumes good: "good_env e S gm" and inv: "grai_inv e S gm w" and user: "user \<noteq> gs_key e"
    and ok: "execute_lock e user m source rem amt w = Ok w'"
  shows "routine e S gm w w'"
proof -
  obtain a w1 w2 where m: "m = gm"
    and i: "init_escrow_if_needed e user user w = Ok w1"
    and c: "check_token_account source m user InvalidDepositSource w1 = Ok a"
    and t: "init_token_if_needed e user (vault_key e m) m (gs_key e) w1 = Ok w2"
    and p: "perform_lock e (pda_bump e (EscrowSeed user)) amt source (vault_key e m) user rem w2 = Ok w'"
    using ok grai_invD(1) [OF inv] unfolding execute_lock_def accounts_Lock_def
    by (auto simp: step_iffs check_grai_mint_def)
  note r = entry_routine [OF good inv user i c t]
  show ?thesis
    using routine_trans [OF r(1) perform_lock_routine [OF good routine_inv [OF r(1)] p [unfolded m] r(2)]] .
qed

lemma execute_vote_routine:
  assumes good: "good_env e S gm" and inv: "grai_inv e S gm w" and user: "user \<noteq> gs_key e"
    and ok: "execute_vote e user m source rem amt w = Ok w'"
  shows "routine e S gm w w'"
proof -
  obtain a w1 w2 w3 where m: "m = gm"
    and i: "init_escrow_if_needed e user user w = Ok w1"
    and c: "check_token_account source m user InvalidDestination w1 = Ok a"
    and t: "init_token_if_needed e user (vault_key e m) m (gs_key e) w1 = Ok w2"
    and p: "w3 = w2 \<or> (\<exists>s. perform_lock e (pda_bump e (EscrowSeed user)) s source (vault_key e m) user rem w2 = Ok w3)"
    and v: "perform_vote e (pda_bump e (EscrowSeed user)) amt user user rem (unix_timestamp e) w3 = Ok w'"
    using ok grai_invD(1) [OF inv] unfolding execute_vote_def accounts_Vote_def
    by (auto simp: step_iffs check_grai_mint_def split: if_splits) blast+
  note r = entry_routine [OF good inv user i c t]
  have "routine e S gm w2 w3"
    using p perform_lock_routine [OF good routine_inv [OF r(1)] _ r(2)] routine_refl [OF routine_inv [OF r(1)]]
    unfolding m by blast
  then have "routine e S gm w w3" by (rule routine_trans [OF r(1)])
  then show ?thesis
    using perform_vote_routine [OF good_envD(1) [OF good] _ v] routine_inv routine_trans by blast
qed

section \<open>Unlock\<close>

lemma execute_unlock_routine:
  assumes good: "good_env e S gm" and inv: "grai_inv e S gm w"
    and ok: "execute_unlock e user m ata_key gr rem g w = Ok w'"
  shows "routine e S gm w w'"
proof -
  note laws = good_envD(1) [OF good]
  have gm: "gs_grai_mint (grai_state w) = gm" by (rule grai_invD(1) [OF inv])
  obtain x and x' :: Escrow and tlk tv net pen P l l1 where
    t: "unat (total_locked (grai_state w)) = unat tlk + unat g"
    and pu: "preview_unlock g (es_amount x) (unlock_penalty_bps (gs_config (grai_state w))) = Ok (net, pen)"
    and w': "w' = (unlocked_world user x x' tlk tv w)\<lparr>positions := P, ledger := l\<rparr>"
    and b: "\<exists>l0. (\<forall>k. bal l0 k = bal (ledger w) k) \<and> unlock_entry e user w l0 \<and>
       moved (vault_key e (gs_grai_mint (grai_state w))) ata_key (unat net) l0 l1 \<and>
       moved (vault_key e (gs_grai_mint (grai_state w)))
         (ata e (gs_grinders (grai_state w)) (gs_grai_mint (grai_state w))) (unat pen) l1 l"
    by (rule execute_unlock_Ok [OF laws ok], rule that; assumption)
  obtain l0 w0 where i: "init_token_if_needed e user (ata e (gs_grinders (grai_state w)) gm) gm
        (gs_grinders (grai_state w)) w = Ok w0"
    and l0: "token_accounts l0 = token_accounts (ledger w0)" "mints l0 = mints (ledger w0)"
    and m1: "moved (vault_key e gm) ata_key (unat net) l0 l1"
    and m2: "moved (vault_key e gm) (ata e (gs_grinders (grai_state w)) gm) (unat pen) l1 l"
    using b by (auto simp: unlock_entry_def gm)
  have f0: "lflow e S gm (\<lambda>_. 0) (ledger w) (ledger w0)"
    using quiet_init_ata [OF good i] by (simp add: quiet_def wflow_def)
  have f1: "lflow e S gm (\<lambda>_. 0) (ledger w) l0"
    by (rule lflow_trans [OF f0 lflow_same [OF l0]]) simp
  note v = moved_out [OF good good_envD(2) [OF good]]
  have f2: "lflow e S gm (at_mint gm (- int (unat net))) (ledger w) l1"
    by (rule lflow_trans [OF f1 v [OF m1]]) simp
  have fl: "lflow e S gm (at_mint gm (- int (unat g))) (ledger w) l"
  proof (rule lflow_trans [OF f2 v [OF m2]])
    have "unat g = unat net + unat pen" using pu [unfolded preview_unlock_Ok] by blast
    then show "at_mint gm (- int (unat g)) k
        \<le> at_mint gm (- int (unat net)) k + at_mint gm (- int (unat pen)) k" for k
      by (simp add: at_mint_def)
  qed
  have lk: "lock_inv e w'"
    using execute_unlock_lock_inv [OF laws ok grai_invD(2) [OF inv]] .
  show ?thesis
    by (rule escrow_routine [OF inv, of "at_mint gm (- int (unat g))"])
      (use fl lk w' t in \<open>simp_all add: unlocked_world_def same_registry_def settings_def phase_def\<close>)
qed

section \<open>Bribe\<close>

lemma wflowD: "wflow e S gm g w w' \<Longrightarrow> lflow e S gm g (ledger w) (ledger w')"
  by (simp add: wflow_def)

lemma reserve_escrow_Ok:
  assumes "reserve_escrow voter x g w = Ok (x', w')"
  obtains v am tv tlk where "unat (es_voted x) = unat v + unat g" "unat (es_amount x) = unat am + unat g"
    "unat (total_voted (grai_state w)) = unat tv + unat g"
    "unat (total_locked (grai_state w)) = unat tlk + unat g"
    "x' = x\<lparr>es_voted := v, es_amount := am\<rparr>"
    "w' = set_escrow voter x' (upd_state (\<lambda>s. s\<lparr>total_voted := tv, total_locked := tlk\<rparr>) w)"
  using assms that by (auto simp: reserve_escrow_def Let_def step_iffs checked_sub_Some)

text \<open>Leaving the lists completes what \<open>reserve_escrow\<close> began, whatever was paid in between.\<close>

lemma leave_lists_book:
  assumes lock: "lock_inv e w" and x: "escrows w voter = Some x" and g: "0 < unat g"
    and r: "reserve_escrow voter x g w = Ok (x', w1)" and k: "keeps w1 w2"
  shows "lock_inv e (leave_lists voter x' w2)"
proof -
  obtain v am tv tlk where nat: "unat (es_voted x) = unat v + unat g" "unat (es_amount x) = unat am + unat g"
      "unat (total_voted (grai_state w)) = unat tv + unat g"
      "unat (total_locked (grai_state w)) = unat tlk + unat g"
    and x': "x' = x\<lparr>es_voted := v, es_amount := am\<rparr>"
    and w1: "w1 = set_escrow voter x' (upd_state (\<lambda>s. s\<lparr>total_voted := tv, total_locked := tlk\<rparr>) w)"
    using r by (rule reserve_escrow_Ok)
  have b: "es_voted x \<le> es_amount x" "es_amount x \<noteq> 0 \<Longrightarrow> es_bump x = pda_bump e (EscrowSeed voter)"
    using lock x unfolding lock_inv_def lock_book_def by blast+
  have nz: "es_voted x \<noteq> 0" "es_amount x \<noteq> 0" using nat(1,2) g by auto
  have "lock_book e (unat tlk) (unat tv)
      (list_follow (es_amount x \<noteq> 0) (es_amount x' \<noteq> 0) voter (lockers (grai_state w)))
      (list_follow (es_voted x \<noteq> 0) (es_voted x' \<noteq> 0) voter (voters (grai_state w)))
      ((escrows w)(voter \<mapsto> x'))"
    by (rule lock_book_update [OF lock [unfolded lock_inv_def], where x = x])
      (use x x' b nz nat in \<open>simp_all add: word_le_nat_alt\<close>)
  then show ?thesis
    using nz x' keeps_simps [OF k]
    by (cases "v = 0"; cases "am = 0")
      (simp_all add: lock_inv_def leave_lists_def Let_def upd_state_def w1 set_escrow_def list_follow_def)
qed

lemma leave_lists_simps:
  "ledger (leave_lists u x w) = ledger w" "assets (leave_lists u x w) = assets w"
  "total_locked (grai_state (leave_lists u x w)) = total_locked (grai_state w)"
  "same_registry w (leave_lists u x w)"
  by (simp_all add: leave_lists_def Let_def upd_state_def same_registry_def settings_def phase_def)

lemma accounts_Bribe_Ok:
  assumes good: "good_env e S gm" and inv: "grai_inv e S gm w" and briber: "briber \<noteq> gs_key e"
    and ok: "accounts_Bribe e briber voter m sm feed src w = Ok (mm, x, smm, a, w1)"
  shows "quiet e S gm w w1" "m = gm" "escrows w voter = Some x" "assets w sm = Some a"
    "src \<notin> (\<lambda>m. vault_key e m) ` S"
proof -
  obtain w0 b where pre: "accounts_PreviewBribe e voter m sm feed w = Ok (mm, x, smm, a)"
    and i: "init_token_if_needed e briber (ata e briber m) m briber w = Ok w0"
    and c: "check_token_account src sm briber InvalidDepositSource w0 = Ok b"
    and j: "init_token_if_needed e briber (ata e voter sm) sm voter w0 = Ok w1"
    using ok unfolding accounts_Bribe_def by (auto simp: and_then_Ok_iff)
  have q: "quiet e S gm w w0" by (rule quiet_init_ata [OF good i])
  then show "quiet e S gm w w1" by (rule quiet_trans) (rule quiet_init_ata [OF good j])
  show "m = gm" "escrows w voter = Some x" "assets w sm = Some a"
    using pre grai_invD(1) [OF inv]
    by (auto simp: accounts_PreviewBribe_def step_iffs check_grai_mint_def check_escrow_def
      check_asset_config_Ok)
  show "src \<notin> (\<lambda>m. vault_key e m) ` S"
    by (rule checked_source_no_vault [OF c briber grai_invD(4) [OF quiet_inv [OF inv q]]])
qed

lemma execute_bribe_routine:
  assumes good: "good_env e S gm" and inv: "grai_inv e S gm w" and briber: "briber \<noteq> gs_key e"
    and ok: "execute_bribe e briber voter m sm feed src rem g w = Ok w'"
  shows "routine e S gm w w'"
proof -
  note laws = good_envD(1) [OF good]
  obtain mm x smm a w1 ask premium discount new w2 x' w3 w4 w5 pool vcut a' w7 w8 where
      acc: "accounts_Bribe e briber voter m sm feed src w = Ok (mm, x, smm, a, w1)"
      and g: "0 < g"
      and s: "settle_all_pairs e rem (asset_mints (grai_state w1)) voter (es_amount x) new briber w1 = Ok w2"
      and r: "reserve_escrow voter x g w2 = Ok (x', w3)"
      and t1: "transfer_from_vault e (vault_key e m) (ata e briber m) g w3 = Ok w4"
      and t2: "transfer_from_signer e src (vault_key e sm) briber ask w4 = Ok w5"
      and vc: "ok_or (checked_sub ask pool) MathOverflow = (Ok vcut :: u64 res)"
      and pc: "pay_cuts e sm a pool (leave_lists voter x' w5) = Ok (a', w7)"
      and t3: "(if 0 < vcut then transfer_from_vault e (vault_key e sm) (ata e voter sm) vcut w7
               else Ok w7) = Ok w8"
      and w': "w' = store_asset_config sm a' w8"
    using ok unfolding execute_bribe_def Let_def by (auto simp: and_then_Ok_iff require_Ok_iff)
  note acc = accounts_Bribe_Ok [OF good inv briber acc]
  have "quiet e S gm w w2"
    by (rule quiet_trans [OF acc(1) quiet_pos [OF settle_all_pairs_Ok [OF laws s]]])
  then have inv2: "grai_inv e S gm w2" "routine e S gm w w2" and k2: "keeps w w2"
    using quiet_inv [OF inv] quiet_routine [OF inv] quiet_keeps by blast+
  have x2: "escrows w2 voter = Some x" "assets w2 sm = Some a"
    using acc(3,4) keeps_simps [OF k2] by simp_all
  have sm: "sm \<in> S" "sm \<noteq> gm" "ac_asset_mint a = sm" using grai_invD(5-7) [OF inv2(1) x2(2)] by blast+
  obtain v am tv tlk where tlk: "unat (total_locked (grai_state w2)) = unat tlk + unat g"
    and w3: "w3 = set_escrow voter x' (upd_state (\<lambda>s. s\<lparr>total_voted := tv, total_locked := tlk\<rparr>) w2)"
    using r by (rule reserve_escrow_Ok)
  have f4: "wflow e S gm (at_mint gm (- int (unat g))) w3 w4"
    using vault_out [OF good good_envD(2) [OF good]] t1 acc(2) by simp
  have f5: "wflow e S gm (at_mint sm (int (unat ask))) w4 w5"
    by (rule signer_in [OF good sm(1) acc(5) t2])
  have f7: "wflow e S gm (at_mint sm (int (unat (total_claimable a')) - int (unat (total_claimable a)) - int (unat pool)))
      (leave_lists voter x' w5) w7"
    by (rule pay_cuts_flow(1) [OF good sm(1) pc])
  have f8: "wflow e S gm (at_mint sm (- int (unat vcut))) w7 w8"
  proof (cases "0 < vcut")
    case True
    then show ?thesis using t3 vault_out [OF good sm(1)] by simp
  next
    case False
    then have "vcut = 0" "w8 = w7" using t3 by (simp_all add: word_greater_zero_iff)
    then show ?thesis using quiet_refl [of e S gm w7] by (simp add: quiet_def at_mint_def)
  qed
  have k35: "keeps w3 w5" using wflow_keeps [OF f4] wflow_keeps [OF f5] by (rule keeps_trans)
  have k58: "keeps (leave_lists voter x' w5) w8"
    using wflow_keeps [OF f7] wflow_keeps [OF f8] by (rule keeps_trans)
  let ?d = "int (unat (total_claimable a')) - int (unat (total_claimable a))"
  have "routine e S gm w2 w'"
  proof (rule asset_routine [OF inv2(1), where m = sm and a = a and a' = a'
        and g = "\<lambda>k. at_mint gm (- int (unat g)) k + at_mint sm ?d k"])
    have l3: "ledger w3 = ledger w2" by (simp add: w3 set_escrow_def upd_state_def)
    have fa: "lflow e S gm (\<lambda>k. at_mint gm (- int (unat g)) k + at_mint sm (int (unat ask)) k) (ledger w2) (ledger w5)"
      using f4 f5 by (auto simp: wflow_def l3 intro: lflow_trans)
    have fb: "lflow e S gm (at_mint sm (?d - int (unat pool) - int (unat vcut))) (ledger w5) (ledger w8)"
      by (rule lflow_trans [OF wflowD [OF f7, unfolded leave_lists_simps(1)] wflowD [OF f8]])
        (simp add: at_mint_def)
    have "unat ask = unat pool + unat vcut" using vc by (simp add: ok_or_Ok_iff checked_sub_Some)
    then have "lflow e S gm (\<lambda>k. at_mint gm (- int (unat g)) k + at_mint sm ?d k) (ledger w2) (ledger w8)"
      by (intro lflow_trans [OF fa fb]) (simp add: at_mint_def)
    then show "lflow e S gm (\<lambda>k. at_mint gm (- int (unat g)) k + at_mint sm ?d k) (ledger w2) (ledger w')"
      by (simp add: w' store_asset_config_def)
    have "same_registry w2 w3"
      by (simp add: w3 same_registry_def settings_def phase_def set_escrow_def upd_state_def)
    then have "same_registry w2 w8"
      by (rule same_registry_trans [OF same_registry_trans [OF _ keeps_registry [OF k35]]
        same_registry_trans [OF leave_lists_simps(4) keeps_registry [OF k58]]])
    then show "same_registry w2 w'"
      by (simp add: w' store_asset_config_def same_registry_def settings_def phase_def)
    have "lock_inv e w8"
      by (rule lock_inv_keeps [OF k58 leave_lists_book [OF grai_invD(2) [OF inv2(1)] x2(1) _ r k35]])
        (use g in \<open>simp add: word_less_nat_alt\<close>)
    then show "lock_inv e w'" by (simp add: w' lock_inv_def store_asset_config_def)
    have as: "assets w8 = assets w2"
      using keeps_simps(2) [OF k58] keeps_simps(2) [OF k35]
      by (simp add: leave_lists_simps w3 set_escrow_def upd_state_def)
    then show "assets w' = (assets w2)(sm \<mapsto> a')" by (simp add: w' store_asset_config_def)
    show "assets w2 sm = Some a" by (rule x2)
    show "ac_asset_mint a' = sm" using pay_cuts_flow(2) [OF good sm(1) pc] sm(3) by simp
    have "total_locked (grai_state w') = tlk"
      using keeps_simps(3) [OF k58] keeps_simps(3) [OF k35]
      by (simp add: w' store_asset_config_def leave_lists_simps w3 set_escrow_def upd_state_def)
    then show "int (unat (total_locked (grai_state w')))
        \<le> int (unat (total_locked (grai_state w2))) + (at_mint gm (- int (unat g)) gm + at_mint sm ?d gm)"
      using tlk sm(2) by simp
  qed (use sm(2) in simp_all)
  with inv2(2) show ?thesis by (rule routine_trans)
qed

section \<open>Deposits\<close>

lemma invoke_rent_quiet:
  assumes "env_laws e" "invoke (sys_transfer e a b n) w = Ok w'"
  shows "quiet e S gm w w'"
  by (rule quiet_rent [OF rent_only_invoke(1) [OF assms]])

lemma deposit_checks_Ok:
  assumes "grai_inv e S gm w" "deposit_checks e da w = Ok (am, g, a)"
  shows "da_grai_mint da = gm"
  using assms(2) grai_invD(1) [OF assms(1)]
  by (auto simp: deposit_checks_def step_iffs check_grai_mint_def)

lemma deposit_inits_routine:
  assumes good: "good_env e S gm" and inv: "grai_inv e S gm w" and ok: "deposit_inits e da w = Ok w'"
  shows "routine e S gm w w'"
proof -
  obtain w1 w2 w3 where
      1: "init_token_if_needed e (da_depositor da) (ata e (da_grinders_state da) (da_asset_mint da))
            (da_asset_mint da) (da_grinders_state da) w = Ok w1"
      and 2: "init_token_if_needed e (da_depositor da) (ata e (da_depositor da) (da_grai_mint da))
            (da_grai_mint da) (da_depositor da) w1 = Ok w2"
      and 3: "init_escrow_if_needed e (da_depositor da) (da_depositor da) w2 = Ok w3"
      and 4: "init_token_if_needed e (da_depositor da) (vault_key e (da_grai_mint da)) (da_grai_mint da)
            (gs_key e) w3 = Ok w'"
    using ok by (auto simp: deposit_inits_def Let_def and_then_Ok_iff)
  have q: "quiet e S gm w w2" by (rule quiet_trans [OF quiet_init_ata [OF good 1] quiet_init_ata [OF good 2]])
  have "routine e S gm w w3"
    by (rule quiet_then_routine [OF inv q]) (rule init_escrow_routine [OF good_envD(1) [OF good] _ 3])
  then show ?thesis by (rule routine_then_quiet [OF _ quiet_init_vault [OF good 4]])
qed

lemma deposit_payments_quiet:
  assumes good: "good_env e S gm" and src: "da_depositor_ata da \<notin> (\<lambda>m. vault_key e m) ` S"
    and ok: "deposit_payments e da amount out w = Ok w'"
  shows "quiet e S gm w w'"
proof -
  obtain w1 where
      1: "transfer_from_signer e (da_depositor_ata da) (ata e (da_grinders_state da) (da_asset_mint da))
            (da_depositor da) amount w = Ok w1"
      and 2: "invoke (spl_mint_to e (da_grai_mint da) (ata e (da_depositor da) (da_grai_mint da)) (gs_key e) out) w1
            = Ok w'"
    using ok by (auto simp: deposit_payments_def and_then_Ok_iff)
  show ?thesis
    by (rule quiet_trans [OF signer_past [OF good src 1] quiet_invoke [OF mint_flow [OF good_envD(1) [OF good]] 2]])
qed

lemma rebump_book:
  assumes "lock_inv e w" "escrows w u = Some x"
  shows "lock_inv e (set_escrow u (x\<lparr>es_bump := pda_bump e (EscrowSeed u)\<rparr>)
           (upd_state (total_value_update (\<lambda>_. tv)) w))"
proof -
  have "es_voted x \<le> es_amount x" using assms unfolding lock_inv_def lock_book_def by blast
  then have "lock_book e (unat (total_locked (grai_state w))) (unat (total_voted (grai_state w)))
      (lockers (grai_state w)) (voters (grai_state w))
      ((escrows w)(u \<mapsto> x\<lparr>es_bump := pda_bump e (EscrowSeed u)\<rparr>))"
    by (intro lock_book_update [OF assms(1) [unfolded lock_inv_def], where x = x])
      (use assms(2) in \<open>simp_all add: list_follow_def\<close>)
  then show ?thesis by (simp add: lock_inv_def set_escrow_def upd_state_def)
qed

lemma deposit_books_routine:
  assumes good: "good_env e S gm" and inv: "grai_inv e S gm w" and m: "da_grai_mint da = gm"
    and ok: "deposit_books e da rem lock referrer v out w = Ok w'"
  shows "routine e S gm w w'"
proof -
  let ?u = "da_depositor da"
  obtain k w1 tv x where
      1: "mint_referrer e ?u referrer v (affiliate_levels (grai_state w)) ?u (drop k rem)
            (pda e (TreasuryNftSeed ?u)) (da_treasury_nft_ata da) w = Ok w1"
      and x: "escrows w1 ?u = Some x"
      and l: "(if lock then perform_lock e (pda_bump e (EscrowSeed ?u)) out (ata e ?u (da_grai_mint da))
             (vault_key e (da_grai_mint da)) ?u (take k rem)
             (set_escrow ?u (x\<lparr>es_bump := pda_bump e (EscrowSeed ?u)\<rparr>)
                (upd_state (total_value_update (\<lambda>_. tv)) w1))
           else Ok (set_escrow ?u (x\<lparr>es_bump := pda_bump e (EscrowSeed ?u)\<rparr>)
                (upd_state (total_value_update (\<lambda>_. tv)) w1))) = Ok w'"
    using ok unfolding deposit_books_def Let_def by (auto simp: and_then_Ok_iff account_Ok_iff)
  let ?w2 = "set_escrow ?u (x\<lparr>es_bump := pda_bump e (EscrowSeed ?u)\<rparr>)
                (upd_state (total_value_update (\<lambda>_. tv)) w1)"
  have r1: "routine e S gm w w1" by (rule quiet_routine [OF inv mint_referrer_quiet [OF good 1]])
  note inv1 = routine_inv [OF r1]
  have "routine e S gm w1 ?w2"
    by (rule escrow_routine [OF inv1 _ _ _ rebump_book [OF grai_invD(2) [OF inv1] x], of "\<lambda>_. 0"])
      (simp_all add: set_escrow_def upd_state_def same_registry_def settings_def phase_def)
  then have r2: "routine e S gm w ?w2" by (rule routine_trans [OF r1])
  show ?thesis
  proof (cases lock)
    case True
    then have p: "perform_lock e (pda_bump e (EscrowSeed ?u)) out (ata e ?u gm) (vault_key e gm) ?u
        (take k rem) ?w2 = Ok w'" using l m by simp
    have "ata e ?u gm \<notin> (\<lambda>m. vault_key e m) ` S" using good_envD(5) [OF good] by auto
    then show ?thesis using routine_trans [OF r2 perform_lock_routine [OF good routine_inv [OF r2] p]] by blast
  next
    case False
    then have "w' = ?w2" using l by simp
    then show ?thesis using r2 by (rule ssubst)
  qed
qed

lemma execute_deposit_routine:
  assumes good: "good_env e S gm" and inv: "grai_inv e S gm w" and user: "da_depositor da \<noteq> gs_key e"
    and ok: "execute_deposit e da rem amount lock referrer w = Ok w'"
  shows "routine e S gm w w'"
proof -
  obtain am g a b w1 v out w2 where
      d: "deposit_checks e da w = Ok (am, g, a)"
      and c: "check_token_account (da_depositor_ata da) (da_asset_mint da) (da_depositor da) InvalidDepositSource w = Ok b"
      and i: "deposit_inits e da w = Ok w1"
      and p: "deposit_payments e da amount out w1 = Ok w2"
      and k: "deposit_books e da rem lock referrer v out w2 = Ok w'"
    using ok unfolding execute_deposit_def accounts_Deposit_def by (auto simp: and_then_Ok_iff)
  have src: "da_depositor_ata da \<notin> (\<lambda>m. vault_key e m) ` S"
    by (rule checked_source_no_vault [OF c user grai_invD(4) [OF inv]])
  have r: "routine e S gm w w2"
    by (rule routine_then_quiet [OF deposit_inits_routine [OF good inv i] deposit_payments_quiet [OF good src p]])
  then show ?thesis
    using deposit_books_routine [OF good routine_inv [OF r] deposit_checks_Ok [OF inv d] k] routine_trans by blast
qed

lemma execute_deposit_sol_routine:
  assumes good: "good_env e S gm" and inv: "grai_inv e S gm w"
    and ok: "execute_deposit_sol e da rem amount lock referrer w = Ok w'"
  shows "routine e S gm w w'"
proof -
  note laws = good_envD(1) [OF good]
  obtain am g a w0 w1 w2 w3 v out w4 where
      d: "deposit_checks e da w = Ok (am, g, a)"
      and ata: "da_depositor_ata da = ata e (da_depositor da) (da_asset_mint da)"
      and j: "init_token_if_needed e (da_depositor da) (da_depositor_ata da) (da_asset_mint da) (da_depositor da) w
            = Ok w0"
      and i: "deposit_inits e da w0 = Ok w1"
      and s: "invoke (sys_transfer e (da_depositor da) (da_depositor_ata da) amount) w1 = Ok w2"
      and n: "invoke (sync_native e (da_depositor_ata da)) w2 = Ok w3"
      and p: "deposit_payments e da amount out w3 = Ok w4"
      and k: "deposit_books e da rem lock referrer v out w4 = Ok w'"
    using ok unfolding execute_deposit_sol_def accounts_DepositSol_def
    by (auto simp: and_then_Ok_iff constraint_Ok_iff)
  have src: "da_depositor_ata da \<notin> (\<lambda>m. vault_key e m) ` S" using good_envD(5) [OF good] ata by auto
  have q0: "quiet e S gm w w0" by (rule quiet_init_ata [OF good j [unfolded ata]])
  have r1: "routine e S gm w w1"
    by (rule quiet_then_routine [OF inv q0]) (rule deposit_inits_routine [OF good _ i])
  have "quiet e S gm w1 w3"
    by (rule quiet_trans [OF invoke_rent_quiet [OF laws s] quiet_invoke [OF sync_flow [OF laws] n]])
  then have r: "routine e S gm w w4"
    by (rule routine_then_quiet [OF routine_then_quiet [OF r1] deposit_payments_quiet [OF good src p]])
  then show ?thesis
    using deposit_books_routine [OF good routine_inv [OF r] deposit_checks_Ok [OF inv d] k] routine_trans by blast
qed

end
