(* ===== verification/Solvency_Claims.thy ===== *)
theory Solvency_Claims
  imports Solvency_Locks
begin

text \<open>
  Claims keep the protocol's invariant: what leaves an asset's vault to the holder and the
  caller is exactly what leaves its dividend reserve, and the treasury's payouts come from the
  treasury vault.
\<close>

section \<open>Paying a claim\<close>

lemma pay_when_positive:
  assumes "good_env e S gm" "m \<in> S"
    and "(if 0 < amt then transfer_from_vault e (vault_key e m) to amt w else Ok w) = Ok w'"
  shows "wflow e S gm (at_mint m (- int (unat amt))) w w'"
proof (cases "0 < amt")
  case True
  then show ?thesis using assms(3) vault_out [OF assms(1,2)] by simp
next
  case False
  then have "amt = 0" "w' = w" using assms(3) by (simp_all add: word_greater_zero_iff)
  then show ?thesis using quiet_refl [of e S gm w] by (simp add: quiet_def at_mint_def)
qed

lemma pay_claim_flow:
  assumes "good_env e S gm" "m \<in> S" "pay_claim e claimed tip (vault_key e m) holder caller w = Ok w'"
  shows "wflow e S gm (at_mint m (- int (unat claimed))) w w'"
proof -
  obtain t r where t: "checked_sub claimed t = Some r"
    and p: "(if holder = caller then transfer_from_vault e (vault_key e m) holder claimed w
     else and_then (if 0 < r then transfer_from_vault e (vault_key e m) holder r w else Ok w) (\<lambda>w.
       if 0 < t then transfer_from_vault e (vault_key e m) caller t w else Ok w)) = Ok w'"
    using assms(3) by (auto simp: pay_claim_def and_then_Ok_iff ok_or_Ok_iff)
  show ?thesis
  proof (cases "holder = caller")
    case True
    then show ?thesis using p vault_out [OF assms(1,2)] by simp
  next
    case False
    then obtain w1 where
        1: "(if 0 < r then transfer_from_vault e (vault_key e m) holder r w else Ok w) = Ok w1"
        and 2: "(if 0 < t then transfer_from_vault e (vault_key e m) caller t w1 else Ok w1) = Ok w'"
      using p by (auto simp: and_then_Ok_iff)
    show ?thesis
      by (rule wflow_trans [OF pay_when_positive [OF assms(1,2) 1] pay_when_positive [OF assms(1,2) 2]])
        (use t in \<open>simp add: at_mint_def checked_sub_Some\<close>)
  qed
qed

lemma claim_tail_routine:
  assumes good: "good_env e S gm" and inv: "grai_inv e S gm w" and a: "assets w m = Some a"
    and le: "claimed \<le> total_claimable a"
    and pay: "pay_and_share e m claimed (vault_key e m) h t w = Ok (gross, revenue, w1)"
    and fin: "finish_claim e payer holder m a pos claimed cv gross revenue (treasury_key e m) bata rem w1 = Ok w'"
  shows "routine e S gm w w'"
proof -
  have m: "m \<in> S" "ac_asset_mint a = m" using grai_invD [OF inv] a by blast+
  have f1: "wflow e S gm (at_mint m (- int (unat claimed))) w w1"
    using pay pay_claim_flow [OF good m(1)] by (auto simp: pay_and_share_def Let_def and_then_Ok_iff)
  obtain w2 c where
      2: "distribute_claim_treasury e holder cv gross revenue (treasury_key e m) bata rem payer w1 = Ok w2"
      and w': "w' = store_asset_config m
           (a\<lparr>total_claimable := saturating_sub (total_claimable a) claimed\<rparr>)
           (store_position holder m (pos\<lparr>po_claimable := c\<rparr>) w2)"
    using fin by (auto simp: finish_claim_def and_then_Ok_iff)
  have q: "quiet e S gm w1 (store_position holder m (pos\<lparr>po_claimable := c\<rparr>) w2)"
    by (rule quiet_trans [OF distribute_claim_treasury_quiet [OF good 2] quiet_store_position])
  show ?thesis
    unfolding w'
    by (rule store_asset_routine [OF inv then_quiet [OF f1 q] a])
      (use m le in \<open>simp_all add: unat_saturating_sub word_le_nat_alt of_nat_diff\<close>)
qed

lemma settle_for_claim_quiet:
  assumes "env_laws e" "settle_for_claim e key holder m payer acc locked w = Ok (pos, w')"
  shows "quiet e S gm w w'"
  using assms(2) quiet_rent [OF load_or_init_position_Ok(1) [OF assms(1)]]
  by (auto simp: settle_for_claim_def and_then_Ok_iff split: if_splits)

section \<open>\<open>claim\<close>\<close>

lemma accounts_Claim_Ok:
  assumes good: "good_env e S gm" and ok: "accounts_Claim e ca w = Ok (x, m, a, v, w')"
  shows "quiet e S gm w w'" "assets w (cl_asset_mint ca) = Some a"
proof -
  let ?m = "cl_asset_mint ca"
  obtain w1 where a: "check_asset_config e ?m w = Ok a"
    and 1: "init_token_if_needed e (cl_payer ca) (ata e (cl_holder ca) ?m) ?m (cl_holder ca) w = Ok w1"
    and 2: "init_token_if_needed e (cl_payer ca) (ata e (cl_payer ca) ?m) ?m (cl_payer ca) w1 = Ok w'"
    using ok unfolding accounts_Claim_def Let_def by (auto simp: and_then_Ok_iff)
  show "quiet e S gm w w'" by (rule quiet_trans [OF quiet_init_ata [OF good 1] quiet_init_ata [OF good 2]])
  show "assets w ?m = Some a" using a by (simp add: check_asset_config_Ok)
qed

lemma execute_claim_routine:
  assumes good: "good_env e S gm" and inv: "grai_inv e S gm w"
    and ok: "execute_claim e ca rem amount w = Ok w'"
  shows "routine e S gm w w'"
proof -
  let ?m = "cl_asset_mint ca" and ?h = "cl_holder ca" and ?p = "cl_payer ca"
  obtain x m a v w1 pos w2 where
      acc: "accounts_Claim e ca w = Ok (x, m, a, v, w1)"
      and s: "settle_for_claim e (pda e (PositionSeed ?h ?m)) ?h ?m ?p (acc_share a) (es_amount x) w1 = Ok (pos, w2)"
      and r: "w' = store_position ?h ?m pos w2 \<or>
        (\<exists>claimed cv gross revenue w3. claimed \<le> total_claimable a \<and>
          pay_and_share e ?m claimed (vault_key e ?m) (ata e ?h ?m) (ata e ?p ?m) w2 = Ok (gross, revenue, w3) \<and>
          finish_claim e ?p ?h ?m a pos claimed cv gross revenue (treasury_key e ?m) (cl_beneficiar_ata ca) rem w3
            = Ok w')"
    using ok unfolding execute_claim_def Let_def
    by (auto simp: and_then_Ok_iff split: if_splits) (metis min.cobounded2)+
  note acc = accounts_Claim_Ok [OF good acc]
  have q: "quiet e S gm w w2"
    by (rule quiet_trans [OF acc(1) settle_for_claim_quiet [OF good_envD(1) [OF good] s]])
  note inv2 = quiet_inv [OF inv q]
  have a: "assets w2 ?m = Some a" using acc(2) keeps_simps(2) [OF quiet_keeps [OF q]] by simp
  from r have "routine e S gm w2 w'"
    using claim_tail_routine [OF good inv2 a] quiet_routine [OF inv2 quiet_store_position] by blast
  then show ?thesis by (rule routine_trans [OF quiet_routine [OF inv q]])
qed

section \<open>\<open>claim_all\<close>\<close>

lemma claim_one_routine:
  assumes good: "good_env e S gm" and inv: "grai_inv e S gm w"
    and ok: "claim_one e payer holder locked m rem w = Ok w'"
  shows "routine e S gm w w'"
proof -
  obtain a pos w1 where a: "assets w m = Some a" and v: "rem ! 4 = vault_key e m"
      and s: "settle_for_claim e (rem ! 3) holder m payer (acc_share a) locked w = Ok (pos, w1)"
      and r: "w' = store_position holder m pos w1 \<or>
        (\<exists>claimed cv gross revenue w3. claimed \<le> total_claimable a \<and>
          pay_and_share e m claimed (rem ! 4) (rem ! 5) (rem ! 6) (store_position holder m pos w1)
            = Ok (gross, revenue, w3) \<and>
          finish_claim e payer holder m a pos claimed cv gross revenue (treasury_key e m) (rem ! 8) (drop 9 rem) w3
            = Ok w')"
  proof -
    let ?c = "\<lambda>a pos (va :: TokenAccount). if po_claimable pos = 0 then 0
        else min (min (preview_claim u64_max (po_claimable pos)) (tk_amount va)) (total_claimable a)"
    obtain a pos w1 and va :: TokenAccount and cv where 1: "assets w m = Some a" "rem ! 4 = vault_key e m"
        "settle_for_claim e (rem ! 3) holder m payer (acc_share a) locked w = Ok (pos, w1)"
      and 2: "(if ?c a pos va = 0 then Ok (store_position holder m pos w1)
        else and_then (pay_and_share e m (?c a pos va) (rem ! 4) (rem ! 5) (rem ! 6) (store_position holder m pos w1))
          (\<lambda>(gross, revenue, w). and_then (require (rem ! 7 = treasury_key e m) InvalidRemainingAccounts) (\<lambda>_.
             and_then (require (drop 9 rem \<noteq> []) InvalidRemainingAccounts) (\<lambda>_.
             and_then (require (hd (drop 9 rem) = pda e (ReferrerSeed holder)) InvalidRemainingAccounts) (\<lambda>_.
             finish_claim e payer holder m a pos (?c a pos va) cv gross revenue (rem ! 7) (rem ! 8) (drop 9 rem) w))))) = Ok w'"
      using ok unfolding claim_one_def Let_def require_vault_pda_def
      by (elim steps_OkE) (simp (no_asm_use) only: ok_or_Ok_iff require_Ok_iff, rule that, assumption+)
    show thesis
    proof (cases "?c a pos va = 0")
      case True
      then show thesis using 2 by (intro that [OF 1]) simp
    next
      case False
      have "?c a pos va \<le> total_claimable a" by simp
      with 2 False show thesis
        by (intro that [OF 1] disjI2) (simp only: if_False, elim steps_OkE, simp only: require_Ok_iff, blast)
    qed
  qed
  have q: "quiet e S gm w (store_position holder m pos w1)"
    by (rule quiet_trans [OF settle_for_claim_quiet [OF good_envD(1) [OF good] s] quiet_store_position])
  note inv1 = quiet_inv [OF inv q]
  have "assets (store_position holder m pos w1) m = Some a"
    using a keeps_simps(2) [OF quiet_keeps [OF q]] by simp
  with r v have "routine e S gm (store_position holder m pos w1) w'"
    using claim_tail_routine [OF good inv1] routine_refl [OF inv1] by metis
  then show ?thesis by (rule routine_trans [OF quiet_routine [OF inv q]])
qed

lemma claim_each_routine:
  "good_env e S gm \<Longrightarrow> grai_inv e S gm w \<Longrightarrow>
   claim_each e payer holder locked stride ms rem w = Ok w' \<Longrightarrow> routine e S gm w w'"
proof (induction ms arbitrary: rem w)
  case Nil
  then show ?case by (simp add: routine_refl)
next
  case (Cons m ms)
  then obtain w1 where 1: "claim_one e payer holder locked m (take stride rem) w = Ok w1"
      and 2: "claim_each e payer holder locked stride ms (drop stride rem) w1 = Ok w'"
    by (auto simp: and_then_Ok_iff)
  have r: "routine e S gm w w1" by (rule claim_one_routine [OF Cons.prems(1,2) 1])
  show ?case by (rule routine_trans [OF r Cons.IH [OF Cons.prems(1) routine_inv [OF r] 2]])
qed

lemma execute_claim_all_routine:
  assumes "good_env e S gm" "grai_inv e S gm w" "execute_claim_all e payer holder rem w = Ok w'"
  shows "routine e S gm w w'"
  using assms(3) claim_each_routine [OF assms(1,2)]
  by (auto simp: execute_claim_all_def Let_def and_then_Ok_iff)

end
