(* ===== verification/Solvency_Liquidation.thy ===== *)
theory Solvency_Liquidation
  imports Solvency_Claims
begin

text \<open>
  Liquidation keeps the protocol's invariant: the scoop, the redemption payouts and the final
  sweep take only what a vault holds beyond what the program owes from it. What opens and
  closes the phase is stated exactly.
\<close>

section \<open>Paying out of a surplus\<close>

lemma surplus_out:
  assumes good: "good_env e S gm" and inv: "grai_inv e S gm w" and m: "m \<in> S"
    and t: "transfer_from_vault e (vault_key e m) to amt w = Ok w'"
    and le: "unat amt + owed w m \<le> bal (ledger w) (vault_key e m)"
  shows "routine e S gm w w'"
proof -
  have f: "wflow e S gm (at_mint m (- int (unat amt))) w w'" by (rule vault_out [OF good m t])
  note k = wflow_keeps [OF f]
  have fl: "lflow e S gm (at_mint m (- int (unat amt))) (ledger w) (ledger w')"
    using f by (simp add: wflow_def)
  have "solvent e S w'"
    unfolding solvent_def
  proof
    fix n assume n: "n \<in> S"
    have f: "int (bal (ledger w) (vault_key e n)) + at_mint m (- int (unat amt)) n
        \<le> int (bal (ledger w') (vault_key e n))" using fl n by (simp only: lflow_def)
    have "owed w n \<le> bal (ledger w') (vault_key e n)"
    proof (cases "n = m")
      case True
      then have "int (bal (ledger w) (vault_key e m)) - int (unat amt) \<le> int (bal (ledger w') (vault_key e m))"
        using f by (simp del: of_nat_unat)
      then show ?thesis unfolding True using le by linarith
    next
      case False
      then show ?thesis using f grai_invD(3) [OF inv] n by (simp add: solvent_def) (meson order_trans)
    qed
    then show "owed w' n \<le> bal (ledger w') (vault_key e n)" by (simp add: owed_keeps [OF k])
  qed
  then have "grai_inv e S gm w'"
    by (rule grai_inv_covered [OF inv fl _ _ _ _ lock_inv_keeps [OF k grai_invD(2) [OF inv]], rotated -1])
      (use keeps_simps [OF k] grai_invD(5) [OF inv] in auto)
  then show ?thesis using keeps_settings [OF k] keeps_phase [OF k] by (simp add: routine_def)
qed

text \<open>Changing fields of the state the invariant does not read.\<close>

lemma state_inv:
  assumes "grai_inv e S gm w" "gs_grai_mint s = gs_grai_mint (grai_state w)"
    "asset_mints s = asset_mints (grai_state w)" "total_locked s = total_locked (grai_state w)"
    "total_voted s = total_voted (grai_state w)" "lockers s = lockers (grai_state w)"
    "voters s = voters (grai_state w)"
  shows "grai_inv e S gm (w\<lparr>grai_state := s\<rparr>)"
proof -
  have "owed (w\<lparr>grai_state := s\<rparr>) = owed w" by (rule ext) (simp add: owed_def assms)
  then show ?thesis using assms by (simp add: grai_inv_def registry_inv_def lock_inv_def solvent_def)
qed

section \<open>\<open>liquidate\<close>\<close>

lemma execute_liquidate_inv:
  assumes good: "good_env e S gm" and inv: "grai_inv e S gm w"
    and ok: "execute_liquidate e caller gr m w = Ok w'"
  shows "grai_inv e S gm w' \<and> settings w' = settings w \<and> phase w' = (True, unix_timestamp e) \<and>
    \<not> liquidation (grai_state w)"
proof -
  note laws = good_envD(1) [OF good]
  have gm: "gs_grai_mint (grai_state w) = gm" by (rule grai_invD(1) [OF inv])
  obtain v w1 w2 where m: "m = gm" and v: "token_accounts (ledger w) (vault_key e gm) = Some v"
    and i: "init_token_if_needed e caller (ata e caller m) m caller w = Ok w1"
    and liq: "\<not> liquidation (grai_state w1)"
    and t: "(if 0 < dead_grai (tk_amount v) (total_locked (grai_state w1))
       then transfer_from_vault e (vault_key e m) (ata e caller m)
              (dead_grai (tk_amount v) (total_locked (grai_state w1))) w1
       else Ok w1) = Ok w2"
    and w': "w' = upd_state (\<lambda>s. s\<lparr>liquidation := True, liquidation_at := unix_timestamp e\<rparr>) w2"
    using ok unfolding execute_liquidate_def accounts_Liquidate_def Let_def
    by (auto simp: and_then_Ok_iff require_Ok_iff check_grai_mint_def check_vault_def account_Ok_iff gm)
  have q: "quiet e S gm w w1" by (rule quiet_init_ata [OF good i])
  note inv1 = quiet_inv [OF inv q] and k1 = quiet_keeps [OF q]
  have b1: "unat (tk_amount v) \<le> bal (ledger w1) (vault_key e gm)"
    using init_token_if_needed_Ok(1) [OF laws i] v by (auto simp: ledger_only_def bal_def)
  have r: "routine e S gm w1 w2"
  proof (cases "0 < dead_grai (tk_amount v) (total_locked (grai_state w1))")
    case True
    then have t': "transfer_from_vault e (vault_key e gm) (ata e caller m)
        (dead_grai (tk_amount v) (total_locked (grai_state w1))) w1 = Ok w2" using t m by simp
    show ?thesis
    proof (rule surplus_out [OF good inv1 good_envD(2) [OF good] t'])
      have "unat (total_locked (grai_state w1)) \<le> unat (tk_amount v)"
        using True by (auto simp: dead_grai_def saturating_sub_def word_less_nat_alt split: if_splits)
      then show "unat (dead_grai (tk_amount v) (total_locked (grai_state w1))) + owed w1 gm
          \<le> bal (ledger w1) (vault_key e gm)"
        using b1 grai_invD(1) [OF inv1] by (simp add: owed_def dead_grai_def unat_saturating_sub)
    qed
  next
    case False
    then have "w2 = w1" using t by simp
    then show ?thesis using routine_refl [OF inv1] by simp
  qed
  then have r2: "routine e S gm w w2" by (rule routine_trans [OF quiet_routine [OF inv q]])
  have "grai_inv e S gm w'"
    unfolding w' upd_state_def by (rule state_inv [OF routine_inv [OF r2]]) simp_all
  moreover have "settings w' = settings w" using r2 by (simp add: routine_def w' upd_state_def settings_def)
  moreover have "\<not> liquidation (grai_state w)" using liq keeps_simps(10) [OF k1] by simp
  ultimately show ?thesis by (simp add: phase_def w' upd_state_def)
qed

section \<open>\<open>redeem\<close>\<close>

fun vaults_bound :: "env \<Rightarrow> pubkey list \<Rightarrow> pubkey list \<Rightarrow> bool" where
  "vaults_bound e (a # p # v # h # rest) (m # ms) \<longleftrightarrow> v = vault_key e m \<and> vaults_bound e rest ms"
| "vaults_bound e _ _ \<longleftrightarrow> True"

lemma settle_quads_bound:
  "settle_quads e rem ms user old new pay payer w = Ok w' \<Longrightarrow> vaults_bound e rem ms"
  by (induction e rem ms user old new pay payer w rule: settle_quads.induct)
    (auto simp: and_then_Ok_iff settle_quad_def require_vault_pda_def require_Ok_iff)

text \<open>A redemption takes no more than the whole surplus, once what is burnt is part of the supply.\<close>

lemma preview_share_le:
  assumes "preview_liquidate_share b g supply' = Ok share" "unat g \<le> unat supply'"
  shows "unat share \<le> unat b"
proof -
  have "unat b * unat g div unat supply' \<le> unat b" using assms(2) by (rule mult_div_le_self)
  then show ?thesis using assms(1) by (auto simp: preview_liquidate_share_Ok unat_eq_zero split: if_splits)
qed

lemma redeem_quad_routine:
  assumes good: "good_env e S gm" and inv: "grai_inv e S gm w" and g: "unat g \<le> unat supply'"
    and ok: "redeem_quad e (vault_key e m) holder m g supply' w = Ok w'"
  shows "routine e S gm w w'"
proof -
  obtain a v amount where a: "assets w m = Some a"
      and v: "token_accounts (ledger w) (vault_key e m) = Some v"
      and s: "preview_liquidate_share (redeemable_balance (tk_amount v) (total_claimable a)) g supply' = Ok amount"
      and t: "(if 0 < amount then transfer_from_vault e (vault_key e m) holder amount w else Ok w) = Ok w'"
    using ok by (auto simp: redeem_quad_def step_iffs)
  show ?thesis
  proof (cases "0 < amount")
    case True
    have le: "unat amount \<le> unat (tk_amount v) - unat (total_claimable a)"
      using preview_share_le [OF s g] by (simp add: redeemable_balance_def unat_saturating_sub)
    show ?thesis
      by (rule surplus_out [OF good inv grai_invD(6) [OF inv a]])
        (use True t le v a grai_invD(1,7) [OF inv] in \<open>auto simp: owed_def bal_def word_less_nat_alt\<close>)
  next
    case False
    then show ?thesis using t routine_refl [OF inv] by simp
  qed
qed

lemma redeem_quads_routine:
  "good_env e S gm \<Longrightarrow> unat g \<le> unat supply' \<Longrightarrow> grai_inv e S gm w \<Longrightarrow> vaults_bound e rem ms \<Longrightarrow>
   redeem_quads e rem ms g supply' w = Ok w' \<Longrightarrow> routine e S gm w w'"
proof (induction e rem ms g supply' w rule: redeem_quads.induct)
  case (1 e a p v h rest mint ms g supply' w)
  then obtain w1 where r: "redeem_quad e (vault_key e mint) h mint g supply' w = Ok w1"
      and n: "redeem_quads e rest ms g supply' w1 = Ok w'"
    by (auto simp: and_then_Ok_iff)
  have r1: "routine e S gm w w1" by (rule redeem_quad_routine [OF 1(2,4,3) r])
  show ?case
    by (rule routine_trans [OF r1 1(1)])
      (use 1(2,3,5) n routine_inv [OF r1] in simp_all)
qed (simp_all add: routine_refl)

text \<open>The burn of escrowed shares, as an unlock of the burnt part out of the share vault.\<close>

lemma burn_escrow_Ok:
  assumes "burn_escrow e holder m x g new w = Ok w'"
    and x: "escrows w holder = Some x" and new: "unat (es_amount x) = unat new + unat g"
    and g: "0 < unat g"
  obtains tlk tv l where "unat (total_locked (grai_state w)) = unat tlk + unat g"
    "unat tv + unat (es_voted x) = unat (total_voted (grai_state w)) + unat (min (es_voted x) new)"
    "spl_burn e m (vault_key e m) (gs_key e) g (ledger w) = Some l"
    "w' = (unlocked_world holder x (x\<lparr>es_amount := new, es_voted := min (es_voted x) new\<rparr>) tlk tv w)\<lparr>ledger := l\<rparr>"
proof -
  let ?x1 = "x\<lparr>es_amount := new\<rparr>"
  obtain tlk w1 w2 where tlk: "checked_sub (total_locked (grai_state w)) g = Some tlk"
      and c: "clamp_vote holder (set_escrow holder ?x1 (upd_state (total_locked_update (\<lambda>_. tlk)) w)) = Ok w1"
      and b: "invoke (spl_burn e m (vault_key e m) (gs_key e) g) w1 = Ok w2"
      and w': "w' = (if new = 0 then upd_state (lockers_update (\<lambda>ls. remove_from_list ls holder)) w2 else w2)"
    using assms(1) by (auto simp: burn_escrow_def Let_def and_then_Ok_iff ok_or_Ok_iff)
  obtain tv where tv: "unat tv + unat (es_voted x) =
        unat (total_voted (grai_state w)) + unat (min (es_voted x) new)"
      and w1: "w1 = (set_escrow holder ?x1 (upd_state (total_locked_update (\<lambda>_. tlk)) w))
          \<lparr>grai_state := (grai_state w)\<lparr>total_locked := tlk, total_voted := tv,
             voters := list_follow (es_voted x \<noteq> 0) (min (es_voted x) new \<noteq> 0) holder
                         (voters (grai_state w))\<rparr>,
            escrows := (escrows w)(holder \<mapsto> ?x1\<lparr>es_voted := min (es_voted x) new\<rparr>)\<rparr>"
  proof (rule clamp_vote_Ok [OF c])
    show "escrows (set_escrow holder ?x1 (upd_state (total_locked_update (\<lambda>_. tlk)) w)) holder = Some ?x1"
      by (simp add: set_escrow_def)
  qed (simp add: set_escrow_def upd_state_def that)
  obtain l where l: "spl_burn e m (vault_key e m) (gs_key e) g (ledger w) = Some l" "w2 = w1\<lparr>ledger := l\<rparr>"
    using b by (auto simp: invoke_Ok w1 set_escrow_def upd_state_def)
  have nz: "es_amount x \<noteq> 0" using new g by auto
  have "unat (total_locked (grai_state w)) = unat tlk + unat g" using tlk by (simp add: checked_sub_Some)
  from that [OF this tv l(1)] show thesis
    unfolding w' l(2) w1 by (simp add: unlocked_world_def upd_state_def set_escrow_def list_follow_def nz)
qed

lemma burn_escrow_routine:
  assumes good: "good_env e S gm" and inv: "grai_inv e S gm w"
    and ok: "burn_escrow e holder gm x g new w = Ok w'"
    and x: "escrows w holder = Some x" and new: "unat (es_amount x) = unat new + unat g"
    and g: "0 < unat g"
  shows "routine e S gm w w'" "unat g \<le> supply_of (ledger w) gm"
proof -
  obtain tlk tv l where tlk: "unat (total_locked (grai_state w)) = unat tlk + unat g"
    and tv: "unat tv + unat (es_voted x) = unat (total_voted (grai_state w)) + unat (min (es_voted x) new)"
    and b: "spl_burn e gm (vault_key e gm) (gs_key e) g (ledger w) = Some l"
    and w': "w' = (unlocked_world holder x (x\<lparr>es_amount := new, es_voted := min (es_voted x) new\<rparr>) tlk tv w)\<lparr>ledger := l\<rparr>"
    using ok x new g by (rule burn_escrow_Ok)
  show "unat g \<le> supply_of (ledger w) gm" using burn_lawD(3) [OF good_envD(1) [OF good] b] .
  show "routine e S gm w w'"
  proof (rule escrow_routine [OF inv, of "at_mint gm (- int (unat g))"])
    show "lflow e S gm (at_mint gm (- int (unat g))) (ledger w) (ledger w')"
      using burn_out [OF good b good_envD(2) [OF good]] w' by simp
    have "lock_inv e (unlocked_world holder x (x\<lparr>es_amount := new, es_voted := min (es_voted x) new\<rparr>) tlk tv w)"
      by (rule unlocked_world_inv [OF grai_invD(2) [OF inv] x]) (use new tlk tv in simp_all)
    then show "lock_inv e w'" by (simp add: w' lock_inv_def)
    show "int (unat (total_locked (grai_state w')))
        \<le> int (unat (total_locked (grai_state w))) + at_mint gm (- int (unat g)) gm"
      using tlk w' by (simp add: unlocked_world_def)
  qed (simp_all add: w' unlocked_world_def same_registry_def settings_def phase_def)
qed

lemma quiet_supply:
  "pos_only u w w' \<Longrightarrow> supply_of (ledger w') m = supply_of (ledger w) m"
  by (elim pos_onlyE) (simp add: supply_of_def)

lemma execute_redeem_routine:
  assumes good: "good_env e S gm" and inv: "grai_inv e S gm w" and holder: "holder \<noteq> gs_key e"
    and ok: "execute_redeem e holder m src rem g w = Ok w'"
  shows "routine e S gm w w'"
proof -
  note laws = good_envD(1) [OF good]
  obtain gmt x a w0 wburn eburn new w1 w2 w3 tv where
      acc: "accounts_Redeem e holder m src w = Ok (gmt, x, a, w0)"
      and wb: "wburn = min g (tk_amount a)" and eb: "checked_sub g wburn = Some eburn"
      and new: "checked_sub (es_amount x) eburn = Some new"
      and s: "settle_all_quads e rem (asset_mints (grai_state w0)) holder (es_amount x) new False holder w0 = Ok w1"
      and b1: "(if 0 < wburn then invoke (spl_burn e m src holder wburn) w1 else Ok w1) = Ok w2"
      and b2: "(if 0 < eburn then burn_escrow e holder m x eburn new w2 else Ok w2) = Ok w3"
      and q: "redeem_quads e rem (asset_mints (grai_state w0)) g (mi_supply gmt)
                (upd_state (total_value_update (\<lambda>_. tv)) w3) = Ok w'"
    using ok unfolding execute_redeem_def Let_def
    by (auto simp: and_then_Ok_iff ok_or_Ok_iff or_panic_Ok_iff)
  have m: "m = gm" and sup: "mints (ledger w) gm = Some gmt"
    and i: "init_escrow_if_needed e holder holder w = Ok w0"
    and x: "escrows w0 holder = Some x"
    and c: "check_token_account src m holder InvalidDestination w0 = Ok a"
    using acc grai_invD(1) [OF inv]
    by (auto simp: accounts_Redeem_def step_iffs check_grai_mint_def)
  obtain l0 where l0: "mints l0 = mints (ledger w)" and w0: "w0 = (case escrows w holder of Some x \<Rightarrow> w
           | None \<Rightarrow> set_escrow holder empty_escrow (w\<lparr>ledger := l0\<rparr>))"
    using init_escrow_if_needed_Ok [OF laws i] by metis
  have s0: "supply_of (ledger w0) gm = unat (mi_supply gmt)"
    using l0 w0 sup by (auto simp: supply_of_def set_escrow_def split: option.splits)
  have r0: "routine e S gm w w0" by (rule init_escrow_routine [OF laws inv i])
  note p1 = settle_all_quads_nopay_Ok [OF laws s]
  have r1: "routine e S gm w w1" by (rule routine_then_quiet [OF r0 quiet_pos [OF p1]])
  have x1: "escrows w1 holder = Some x" using x p1 by (auto elim: pos_onlyE)
  have src: "src \<notin> (\<lambda>m. vault_key e m) ` S"
    by (rule checked_source_no_vault [OF c holder grai_invD(4) [OF routine_inv [OF r0]]])
  have b: "quiet e S gm w1 w2 \<and> supply_of (ledger w2) gm + unat wburn = unat (mi_supply gmt) \<and> escrows w2 = escrows w1"
  proof (cases "0 < wburn")
    case True
    then obtain l where l: "spl_burn e gm src holder wburn (ledger w1) = Some l" "w2 = w1\<lparr>ledger := l\<rparr>"
      using b1 m by (auto simp: invoke_Ok)
    have "supply_of l gm + unat wburn = supply_of (ledger w1) gm"
      using burn_lawD(3,4) [OF laws l(1)] by simp
    then show ?thesis
      using quiet_ledger [OF burn_flow [OF laws l(1) src]] l(2) quiet_supply [OF p1] s0 by simp
  next
    case False
    then have "w2 = w1" "wburn = 0" using b1 by (simp_all add: word_greater_zero_iff)
    then show ?thesis using quiet_supply [OF p1] s0 by simp
  qed
  have r2: "routine e S gm w w2" by (rule routine_then_quiet [OF r1]) (use b in blast)
  have nat: "unat g = unat eburn + unat wburn" "unat (es_amount x) = unat new + unat eburn"
    using eb new by (simp_all add: checked_sub_Some)
  have "routine e S gm w2 w3 \<and> unat g \<le> unat (mi_supply gmt)"
  proof (cases "0 < eburn")
    case True
    then have "burn_escrow e holder gm x eburn new w2 = Ok w3" using b2 m by simp
    moreover have "escrows w2 holder = Some x" "0 < unat eburn"
      using b x1 True by (simp_all add: word_less_nat_alt)
    ultimately show ?thesis
      using burn_escrow_routine [OF good routine_inv [OF r2], of holder x eburn new w3] nat b by simp
  next
    case False
    then have "w3 = w2" "eburn = 0" using b2 by (simp_all add: word_greater_zero_iff)
    then show ?thesis using routine_refl [OF routine_inv [OF r2]] nat b by simp
  qed
  then have r3: "routine e S gm w w3" and le: "unat g \<le> unat (mi_supply gmt)"
    using routine_trans [OF r2] by blast+
  let ?w4 = "upd_state (total_value_update (\<lambda>_. tv)) w3"
  have r4: "routine e S gm w ?w4"
    using r3 state_inv [OF routine_inv [OF r3], of "total_value_update (\<lambda>_. tv) (grai_state w3)"]
    by (simp add: routine_def upd_state_def settings_def phase_def)
  have "vaults_bound e rem (asset_mints (grai_state w0))"
    using s settle_quads_bound by (auto simp: settle_all_quads_def and_then_Ok_iff)
  from redeem_quads_routine [OF good le routine_inv [OF r4] this q]
  show ?thesis by (rule routine_trans [OF r4])
qed

section \<open>\<open>revive\<close>\<close>

lemma sweep_quint_routine:
  assumes good: "good_env e S gm" and inv: "grai_inv e S gm w"
    and ok: "sweep_quint e k (vault_key e m) dest m w = Ok w'"
  shows "routine e S gm w w'"
proof -
  obtain a v where a: "assets w m = Some a" and v: "token_accounts (ledger w) (vault_key e m) = Some v"
      and t: "(if 0 < redeemable_balance (tk_amount v) (total_claimable a)
               then transfer_from_vault e (vault_key e m) dest (redeemable_balance (tk_amount v) (total_claimable a)) w
               else Ok w) = Ok w'"
    using ok by (auto simp: sweep_quint_def Let_def load_asset_config_def step_iffs)
  show ?thesis
  proof (cases "0 < redeemable_balance (tk_amount v) (total_claimable a)")
    case True
    then have t': "transfer_from_vault e (vault_key e m) dest (redeemable_balance (tk_amount v) (total_claimable a)) w
        = Ok w'" using t by simp
    have "unat (total_claimable a) < unat (tk_amount v)"
      using True by (auto simp: redeemable_balance_def word_less_nat_alt unat_saturating_sub)
    then show ?thesis
      by (intro surplus_out [OF good inv grai_invD(6) [OF inv a] t'])
        (use v a grai_invD(1,7) [OF inv] in \<open>auto simp: owed_def bal_def redeemable_balance_def unat_saturating_sub\<close>)
  next
    case False
    then show ?thesis using t routine_refl [OF inv] by simp
  qed
qed

text \<open>The first pass binds the vaults the second pass empties.\<close>

lemma sweep_quints_routine:
  "good_env e S gm \<Longrightarrow> grai_inv e S gm w \<Longrightarrow> bind_quints e gr rem ms w0 = Ok u \<Longrightarrow>
   sweep_quints e rem ms w = Ok w' \<Longrightarrow> routine e S gm w w'"
proof (induction e rem ms w rule: sweep_quints.induct)
  case (1 e a mi f v g rest mint ms w)
  then obtain w1 where v: "v = vault_key e mint" and b: "bind_quints e gr rest ms w0 = Ok u"
      and s: "sweep_quint e a (vault_key e mint) g mint w = Ok w1"
      and n: "sweep_quints e rest ms w1 = Ok w'"
    by (auto simp: and_then_Ok_iff require_vault_pda_def require_Ok_iff)
  have r1: "routine e S gm w w1" by (rule sweep_quint_routine [OF 1(2,3) s])
  show ?case
    by (rule routine_trans [OF r1 1(1)]) (use v s b n 1(2) routine_inv [OF r1] in simp_all)
qed (simp_all add: routine_refl)

lemma execute_revive_inv:
  assumes good: "good_env e S gm" and inv: "grai_inv e S gm w"
    and ok: "execute_revive e gr prog m rem w = Ok w'"
  shows "grai_inv e S gm w' \<and> settings w' = settings w \<and> phase w' = (False, 0) \<and>
    liquidation (grai_state w)"
proof -
  obtain gmt :: Mint and w1 u u' where
      b: "bind_quints e (gs_grinders (grai_state w)) rem (asset_mints (grai_state w)) w = Ok u'"
      and liq: "require (liquidation (grai_state w) \<and> liquidation_at (grai_state w) \<noteq> 0)
                  LiquidationClosed = Ok u"
      and s: "sweep_quints e rem (asset_mints (grai_state w)) w = Ok w1"
      and h: "invoke (heartbeat_cpi e prog gr (gs_key e))
         (upd_state (\<lambda>s. s\<lparr>total_value := (if mi_supply gmt = 0 then 0 else total_value s),
                              liquidation := False, liquidation_at := 0\<rparr>) w1) = Ok w'"
    using ok unfolding execute_revive_def Let_def by (elim steps_OkE) blast
  let ?f = "\<lambda>s. s\<lparr>total_value := (if mi_supply gmt = 0 then 0 else total_value s),
                              liquidation := False, liquidation_at := 0\<rparr>"
  have r1: "routine e S gm w w1" by (rule sweep_quints_routine [OF good inv b s])
  have inv2: "grai_inv e S gm (upd_state ?f w1)"
    unfolding upd_state_def by (rule state_inv [OF routine_inv [OF r1]]) simp_all
  have r3: "routine e S gm (upd_state ?f w1) w'"
    by (rule quiet_routine [OF inv2 quiet_rent [OF rent_only_invoke(7) [OF good_envD(1) [OF good] h]]])
  then show ?thesis
    using r1 liq by (simp add: routine_def upd_state_def settings_def phase_def require_Ok_iff)
qed

end
