(* ===== verification/Solvency_Registry.thy ===== *)
theory Solvency_Registry
  imports Solvency_Liquidation Assets
begin

text \<open>
  The owner's instructions keep the protocol's invariant: listing creates the mint's vault,
  delisting requires it empty and nothing reserved, and the settings touch neither.
\<close>

section \<open>Changing the registry\<close>

lemma registry_routine:
  assumes inv: "grai_inv e S gm w" and flow: "wflow e S gm (\<lambda>_. 0) w1 w'"
    and l: "lflow e S gm (\<lambda>_. 0) (ledger w) (ledger w1)" and book: "escrows w1 = escrows w"
      "total_locked (grai_state w1) = total_locked (grai_state w)"
      "total_voted (grai_state w1) = total_voted (grai_state w)"
      "lockers (grai_state w1) = lockers (grai_state w)" "voters (grai_state w1) = voters (grai_state w)"
    and kept: "gs_grai_mint (grai_state w1) = gs_grai_mint (grai_state w)"
      "settings w1 = settings w" "phase w1 = phase w"
    and ms: "distinct (asset_mints (grai_state w1))" "set (asset_mints (grai_state w1)) = dom (assets w1)"
      "dom (assets w1) \<subseteq> S - {gm}"
    and keys: "\<And>m a. assets w1 m = Some a \<Longrightarrow> ac_asset_mint a = m"
    and vault: "\<And>m. m \<in> dom (assets w1) \<Longrightarrow> token_accounts (ledger w') (vault_key e m) \<noteq> None"
    and owed: "\<And>m. m \<in> S \<Longrightarrow> owed w1 m \<le> owed w m"
  shows "routine e S gm w w'"
proof -
  have k: "keeps w1 w'" using flow by (rule wflow_keeps)
  note k' = keeps_simps [OF k]
  have fl: "lflow e S gm (\<lambda>_. 0) (ledger w) (ledger w')"
    by (rule lflow_trans [OF l wflowD [OF flow]]) simp
  have r: "registry_inv e S gm w" using inv by (simp add: grai_inv_def)
  have "\<exists>x. mints (ledger w') gm = Some x \<and> mi_authority x = Some (gs_key e)"
    by (rule lflow_authority [OF fl]) (use r in \<open>simp add: registry_inv_def\<close>)
  moreover have "vaults_owned e S (ledger w')"
    by (rule vaults_owned_flow [OF fl]) (use r in \<open>simp add: registry_inv_def\<close>)
  ultimately have "registry_inv e S gm w'"
    using r kept(1) ms keys vault k' by (simp add: registry_inv_def)
  moreover have "lock_inv e w'" using grai_invD(2) [OF inv] book k' by (simp add: lock_inv_def)
  moreover have "solvent e S w'"
    by (rule solvent_flow [OF grai_invD(3) [OF inv] fl]) (use owed in \<open>simp add: owed_keeps [OF k]\<close>)
  ultimately show ?thesis
    using kept keeps_settings [OF k] keeps_phase [OF k] by (simp add: routine_def grai_inv_def)
qed

section \<open>Program vaults\<close>

lemma ensure_program_vault_Ok:
  assumes "good_env e S gm" "ensure_program_vault e k m payer w = Ok w'"
  shows "quiet e S gm w w'" "token_accounts (ledger w') k \<noteq> None" "assets w' = assets w" "grai_state w' = grai_state w"
proof -
  note laws = good_envD(1) [OF assms(1)]
  have "quiet e S gm w w' \<and> token_accounts (ledger w') k \<noteq> None \<and> assets w' = assets w \<and> grai_state w' = grai_state w"
  proof (cases "token_accounts (ledger w) k")
    case (Some a)
    then show ?thesis using assms(2) by (auto simp: ensure_program_vault_def step_iffs)
  next
    case None
    then obtain w1 where 1: "create_account_absorb_prefund e k payer token_program_id TokenAccount_LEN w = Ok w1"
        and 2: "invoke (spl_initialize_account3 e k m (gs_key e)) w1 = Ok w'"
      using assms(2) by (auto simp: ensure_program_vault_def and_then_Ok_iff)
    obtain l where l: "spl_initialize_account3 e k m (gs_key e) (ledger w1) = Some l" "w' = w1\<lparr>ledger := l\<rparr>"
      using 2 by (auto simp: invoke_Ok)
    note r = create_account_absorb_prefund_Ok [OF laws 1]
    have "quiet e S gm w1 w'"
      unfolding l(2) by (rule quiet_ledger [OF new_account_flow [OF init3_lawD(1-3) [OF laws l(1)]]]) simp
    then have "quiet e S gm w w'" by (rule quiet_trans [OF quiet_rent [OF r]])
    moreover have "token_accounts l k \<noteq> None" using init3_lawD(3) [OF laws l(1)] by simp
    ultimately show ?thesis using r l(2) by (auto elim: rent_onlyE)
  qed
  then show "quiet e S gm w w'" "token_accounts (ledger w') k \<noteq> None" "assets w' = assets w"
    "grai_state w' = grai_state w" by simp_all
qed

lemma close_treasury_vault_quiet:
  assumes "good_env e S gm" "close_treasury_vault_if_empty e (treasury_key e m) dest w = Ok w'"
  shows "quiet e S gm w w'" "grai_state w' = grai_state w"
    "n \<in> S \<Longrightarrow> token_accounts (ledger w) (vault_key e n) \<noteq> None \<Longrightarrow> token_accounts (ledger w') (vault_key e n) \<noteq> None"
proof -
  have no: "treasury_key e m \<notin> (\<lambda>m. vault_key e m) ` S" using good_envD(4) [OF assms(1)] by auto
  have "quiet e S gm w w' \<and> grai_state w' = grai_state w"
  proof (cases "token_accounts (ledger w) (treasury_key e m)")
    case None
    then show ?thesis using assms(2) by (simp add: close_treasury_vault_if_empty_def)
  next
    case (Some a)
    then obtain l where "spl_close_account e (treasury_key e m) dest (gs_key e) (ledger w) = Some l" "w' = w\<lparr>ledger := l\<rparr>"
      using assms(2) by (auto simp: close_treasury_vault_if_empty_def step_iffs invoke_Ok)
    then show ?thesis
      using quiet_ledger [OF close_flow [OF good_envD(1) [OF assms(1)] _ no]] by auto
  qed
  then show q: "quiet e S gm w w'" "grai_state w' = grai_state w" by simp_all
  show "token_accounts (ledger w') (vault_key e n) \<noteq> None"
    if "n \<in> S" "token_accounts (ledger w) (vault_key e n) \<noteq> None"
    using lflow_exists [of e S gm "\<lambda>_. 0" "ledger w" "ledger w'" n] q(1) that by (simp add: quiet_def wflow_def)
qed

section \<open>Listing\<close>

lemma list_asset_routine:
  assumes good: "good_env e S gm" and inv: "grai_inv e S gm w"
    and mS: "fa_asset_mint fa \<in> S" and m: "mints (ledger w) (fa_asset_mint fa) = Some m"
    and new: "fa_asset_mint fa \<notin> set (asset_mints (grai_state w))"
    and ok: "list_asset e fa m paused w = Ok w'"
  shows "routine e S gm w w'"
proof -
  let ?m = "fa_asset_mint fa"
  note laws = good_envD(1) [OF good]
  obtain n w1 feed w3 w4 where
      au: "mi_authority m \<noteq> Some (gs_key e)"
      and r: "realloc_grai_state e (fa_owner fa) n w = Ok w1"
      and c: "ensure_asset_config e (fa_owner fa) ?m (fa_price_feed fa) feed
          (word_of_nat (length (asset_mints (grai_state w)))) paused
          (upd_state (asset_mints_update (\<lambda>ms. ms @ [?m])) w1) = Ok w3"
      and v: "ensure_vault e ?m (fa_owner fa) w3 = Ok w4"
      and t: "ensure_treasury_vault e ?m (fa_owner fa) w4 = Ok w'"
    using ok unfolding list_asset_def Let_def by (auto simp: and_then_Ok_iff require_Ok_iff)
  have none: "assets w ?m = None" using new grai_invD(8) [OF inv] by blast
  have ne: "?m \<noteq> gm"
    using inv m au by (auto simp: grai_inv_def registry_inv_def)
  obtain l1 where w1: "w1 = w\<lparr>ledger := l1\<rparr>" "token_accounts l1 = token_accounts (ledger w)" "mints l1 = mints (ledger w)"
    using realloc_grai_state_Ok [OF laws r] by (rule rent_onlyE)
  let ?w2 = "upd_state (asset_mints_update (\<lambda>ms. ms @ [?m])) w1"
  obtain a w2' where c1: "create_account_absorb_prefund e (pda e (AssetSeed ?m)) (fa_owner fa) (grai_program e)
        (8 + AssetConfig_LEN) ?w2 = Ok w2'" and w3: "w3 = store_asset_config ?m a w2'"
      and a: "ac_asset_mint a = ?m" "total_claimable a = 0"
    using c none w1(1) by (auto simp: ensure_asset_config_def upd_state_def and_then_Ok_iff)
  obtain l2 where w2': "w2' = ?w2\<lparr>ledger := l2\<rparr>" "token_accounts l2 = token_accounts (ledger ?w2)"
      "mints l2 = mints (ledger ?w2)"
    using create_account_absorb_prefund_Ok [OF laws c1] by (rule rent_onlyE)
  note v' = ensure_program_vault_Ok [OF good v [unfolded ensure_vault_def]]
  note t' = ensure_program_vault_Ok [OF good t [unfolded ensure_treasury_vault_def]]
  have q: "quiet e S gm w3 w'" by (rule quiet_trans [OF v'(1) t'(1)])
  have as: "assets w3 = (assets w)(?m \<mapsto> a)" and ms: "asset_mints (grai_state w3) = asset_mints (grai_state w) @ [?m]"
    by (simp_all add: w3 w2' w1 store_asset_config_def upd_state_def)
  have reg: "registry_inv e S gm w" using inv by (simp add: grai_inv_def)
  have fl: "lflow e S gm (\<lambda>_. 0) (ledger w) (ledger w3)"
    by (rule lflow_same) (simp_all add: w3 w2' w1 store_asset_config_def upd_state_def)
  show ?thesis
  proof (rule registry_routine [OF inv q [unfolded quiet_def] fl])
    show "distinct (asset_mints (grai_state w3))" using reg new ms by (simp add: registry_inv_def)
    show "set (asset_mints (grai_state w3)) = dom (assets w3)" using reg ms as by (auto simp: registry_inv_def)
    show "dom (assets w3) \<subseteq> S - {gm}" using reg as mS ne by (auto simp: registry_inv_def)
    show "ac_asset_mint b = k" if "assets w3 k = Some b" for k b
      using that as a grai_invD(5) [OF inv] by (auto split: if_splits)
    show "token_accounts (ledger w') (vault_key e k) \<noteq> None" if "k \<in> dom (assets w3)" for k
    proof -
      have "k \<in> S" using that as mS reg by (auto simp: registry_inv_def)
      moreover have "token_accounts (ledger w4) (vault_key e k) \<noteq> None"
      proof (cases "k = ?m")
        case True
        then show ?thesis using v'(2) by simp
      next
        case False
        then have "token_accounts (ledger w) (vault_key e k) \<noteq> None"
          using that as reg by (auto simp: registry_inv_def)
        then show ?thesis
          using lflow_exists [OF lflow_trans [OF fl wflowD [OF v'(1) [unfolded quiet_def]]] \<open>k \<in> S\<close>, of "\<lambda>_. 0"] by simp
      qed
      ultimately show ?thesis
        using lflow_exists [OF wflowD [OF t'(1) [unfolded quiet_def]]] by blast
    qed
    show "owed w3 k \<le> owed w k" if "k \<in> S" for k
      using a as none ne grai_invD(1) [OF inv]
      by (auto simp: owed_def w3 w2' w1 store_asset_config_def upd_state_def)
  qed (simp_all add: w3 w2' w1 store_asset_config_def upd_state_def settings_def phase_def)
qed

section \<open>Delisting\<close>

text \<open>Renumbering touches nothing but one listed asset's id.\<close>

definition renumbered :: "world \<Rightarrow> world \<Rightarrow> bool" where
  "renumbered w w' \<longleftrightarrow> (\<exists>A. w' = w\<lparr>assets := A\<rparr> \<and> dom A = dom (assets w) \<and>
     (\<forall>m a. A m = Some a \<longrightarrow> (\<exists>b i. assets w m = Some b \<and> a = b\<lparr>ac_id := i\<rparr>)))"

lemma id_unchanged: "\<exists>i. a = a\<lparr>ac_id := i\<rparr>" for a :: AssetConfig
  by (rule exI [of _ "ac_id a"]) simp

lemma renumbered_refl [simp]: "renumbered w w"
  unfolding renumbered_def by (rule exI [of _ "assets w"]) (simp add: id_unchanged)

lemma renumber_moved_Ok:
  assumes "renumber_moved e fa tail_mint index w = Ok w'"
  shows "renumbered w w'"
proof (cases "fa_moved_asset_config fa \<noteq> fa_asset_config fa \<and>
    program_owner (ledger w) (fa_moved_asset_config fa) = grai_program e")
  case True
  then obtain m a where a: "assets w m = Some a"
      and w': "w' = store_asset_config m (a\<lparr>ac_id := word_of_nat index\<rparr>) w"
    using assms by (auto simp: renumber_moved_def Let_def asset_at_def and_then_Ok_iff account_Ok_iff)
  show ?thesis
    unfolding renumbered_def w' store_asset_config_def
    by (rule exI [of _ "(assets w)(m \<mapsto> a\<lparr>ac_id := word_of_nat index\<rparr>)"]) (use a id_unchanged in auto)
next
  case False
  then show ?thesis using assms by (auto simp: renumber_moved_def Let_def)
qed

lemma swap_remove_mint_Ok:
  assumes "swap_remove_mint e fa m w = Ok w'"
  obtains w1 where "renumbered w w1" "m \<in> set (asset_mints (grai_state w))"
    "w' = upd_state (asset_mints_update (\<lambda>_. remove_from_list (asset_mints (grai_state w)) m)) w1"
proof -
  let ?ms = "asset_mints (grai_state w)"
  obtain i where i: "position m ?ms = Some i"
      and p: "and_then (if i \<noteq> length ?ms - 1
                then and_then (renumber_moved e fa (?ms ! (length ?ms - 1)) i w) (\<lambda>w.
                     Ok (?ms[i := ?ms ! (length ?ms - 1)], w))
                else Ok (?ms, w)) (\<lambda>(ms, w). Ok (upd_state (asset_mints_update (\<lambda>_. butlast ms)) w)) = Ok w'"
    using assms unfolding swap_remove_mint_def Let_def
    by (elim and_then_OkE [of "ok_or x y" for x y]) (simp only: ok_or_Ok_iff)
  have m: "m \<in> set ?ms" using position_Some [OF i] by auto
  show thesis
  proof (cases "i \<noteq> length ?ms - 1")
    case True
    then obtain w1 where "renumber_moved e fa (?ms ! (length ?ms - 1)) i w = Ok w1"
        "w' = upd_state (asset_mints_update (\<lambda>_. butlast (?ms[i := ?ms ! (length ?ms - 1)]))) w1"
      using p by (auto simp: and_then_Ok_iff)
    with that [OF renumber_moved_Ok m] True i show thesis by (simp add: remove_from_list_def)
  next
    case False
    then have "w' = upd_state (asset_mints_update (\<lambda>_. butlast ?ms)) w" using p by simp
    with that [OF renumbered_refl m] False i show thesis by (simp add: remove_from_list_def)
  qed
qed

lemma close_account_Ok:
  assumes "close_account k dest w = Ok w'"
  obtains l where "w' = w\<lparr>ledger := l\<rparr>" "token_accounts l = token_accounts (ledger w)" "mints l = mints (ledger w)"
  using assms that by (auto simp: close_account_def Let_def and_then_Ok_iff)

text \<open>What delisting does to the registered assets.\<close>

definition delisted :: "pubkey \<Rightarrow> world \<Rightarrow> world \<Rightarrow> bool" where
  "delisted m w w' \<longleftrightarrow> asset_mints (grai_state w') = remove_from_list (asset_mints (grai_state w)) m \<and>
     dom (assets w') = dom (assets w) - {m} \<and>
     (\<forall>k a. assets w' k = Some a \<longrightarrow> (\<exists>b i. assets w k = Some b \<and> a = b\<lparr>ac_id := i\<rparr>))"

lemma delistedE:
  assumes "delisted m w w'" "assets w' k = Some a"
  obtains b i where "assets w k = Some b" "a = b\<lparr>ac_id := i\<rparr>"
proof -
  have "\<forall>k a. assets w' k = Some a \<longrightarrow> (\<exists>b i. assets w k = Some b \<and> a = b\<lparr>ac_id := i\<rparr>)"
    using assms(1) unfolding delisted_def by (elim conjE)
  then show thesis using assms(2) that by blast
qed

lemma delist_Ok:
  assumes good: "good_env e S gm" and ok: "delist e fa w = Ok w'"
  obtains w1 w2 where "delisted (fa_asset_mint fa) w w1" "fa_asset_mint fa \<in> set (asset_mints (grai_state w))"
    "w1 = w\<lparr>grai_state := (grai_state w)\<lparr>asset_mints := asset_mints (grai_state w1)\<rparr>, assets := assets w1\<rparr>"
    "quiet e S gm w1 w2" "w' = w2" "assets w (fa_asset_mint fa) \<noteq> None"
    "total_claimable (the (assets w (fa_asset_mint fa))) = 0"
    "bal (ledger w) (vault_key e (fa_asset_mint fa)) = 0" "\<not> liquidation (grai_state w)"
proof -
  let ?m = "fa_asset_mint fa"
  note laws = good_envD(1) [OF good]
  obtain a v wa wb wc wd where a: "assets w ?m = Some a" "total_claimable a = 0" and liq: "\<not> liquidation (grai_state w)"
      and v: "token_accounts (ledger w) (vault_key e ?m) = Some v" "tk_amount v = 0"
      and s: "swap_remove_mint e fa ?m w = Ok wa"
      and c: "close_treasury_vault_if_empty e (treasury_key e ?m) (fa_owner fa) wa = Ok wb"
      and r: "realloc_grai_state e (fa_owner fa) (grai_space (grai_state wb) 0 0 0) wb = Ok wc"
      and k: "close_account (fa_asset_config fa) (fa_owner fa) wc = Ok wd"
      and w': "w' = wd\<lparr>assets := (assets wd)(?m := None)\<rparr>"
    using ok unfolding delist_def Let_def load_config_def
    by (auto simp: and_then_Ok_iff require_Ok_iff ok_or_Ok_iff)
  obtain w0 where w0: "renumbered w w0" and m: "?m \<in> set (asset_mints (grai_state w))"
      and wa: "wa = upd_state (asset_mints_update (\<lambda>_. remove_from_list (asset_mints (grai_state w)) ?m)) w0"
    using s by (rule swap_remove_mint_Ok)
  obtain A where A: "w0 = w\<lparr>assets := A\<rparr>" "dom A = dom (assets w)"
      "\<forall>m a. A m = Some a \<longrightarrow> (\<exists>b i. assets w m = Some b \<and> a = b\<lparr>ac_id := i\<rparr>)"
    using w0 by (auto simp: renumbered_def)
  let ?w1 = "wa\<lparr>assets := A(?m := None)\<rparr>"
  obtain l where wd: "wd = wc\<lparr>ledger := l\<rparr>" "token_accounts l = token_accounts (ledger wc)" "mints l = mints (ledger wc)"
    using k by (rule close_account_Ok)
  have q: "quiet e S gm wa wd"
    using quiet_trans [OF close_treasury_vault_quiet(1) [OF good c] quiet_rent [OF realloc_grai_state_Ok [OF laws r]]]
      quiet_ledger [OF lflow_same [OF wd(2,3)]] wd(1) quiet_trans by blast
  have "quiet e S gm ?w1 w'"
    using q by (auto simp: w' quiet_def wflow_def keeps_def wa A upd_state_def)
  moreover have "delisted ?m w ?w1"
    using A by (auto simp: delisted_def wa upd_state_def dom_def)
  moreover have "?w1 = w\<lparr>grai_state := (grai_state w)\<lparr>asset_mints := asset_mints (grai_state ?w1)\<rparr>, assets := assets ?w1\<rparr>"
    by (simp add: wa A upd_state_def)
  ultimately show thesis
    using that [of ?w1 w'] m a v liq by (simp add: bal_def)
qed

lemma delist_routine:
  assumes good: "good_env e S gm" and inv: "grai_inv e S gm w" and ok: "delist e fa w = Ok w'"
  shows "routine e S gm w w'"
proof -
  let ?m = "fa_asset_mint fa"
  obtain w1 w2 where d: "delisted ?m w w1" and m: "?m \<in> set (asset_mints (grai_state w))"
    and w1: "w1 = w\<lparr>grai_state := (grai_state w)\<lparr>asset_mints := asset_mints (grai_state w1)\<rparr>, assets := assets w1\<rparr>"
    and q: "quiet e S gm w1 w'"
    using delist_Ok [OF good ok] by metis
  have eq: "grai_state w1 = (grai_state w)\<lparr>asset_mints := asset_mints (grai_state w1)\<rparr>"
      "escrows w1 = escrows w" "ledger w1 = ledger w"
    by (subst w1, simp)+
  have reg: "registry_inv e S gm w" using inv by (simp add: grai_inv_def)
  have ms: "distinct (asset_mints (grai_state w1)) \<and>
      set (asset_mints (grai_state w1)) = set (asset_mints (grai_state w)) - {?m}"
    using mset_remove1_distinct [OF remove_from_list_mset] d reg by (simp add: delisted_def registry_inv_def)
  note st = arg_cong [OF eq(1)]
  show ?thesis
  proof (rule registry_routine [OF inv q [unfolded quiet_def]])
    show "lflow e S gm (\<lambda>_. 0) (ledger w) (ledger w1)" by (simp add: eq)
    show "distinct (asset_mints (grai_state w1))" using ms ..
    show "set (asset_mints (grai_state w1)) = dom (assets w1)"
      using ms d reg by (simp add: delisted_def registry_inv_def)
    show "dom (assets w1) \<subseteq> S - {gm}" using d reg by (auto simp: delisted_def registry_inv_def)
    show "ac_asset_mint a = k" if at: "assets w1 k = Some a" for k a
    proof -
      obtain b i where b: "assets w k = Some b" "a = b\<lparr>ac_id := i\<rparr>"
        by (rule delistedE [OF d at])
      then show ?thesis using grai_invD(5) [OF inv b(1)] by simp
    qed
    show "token_accounts (ledger w') (vault_key e k) \<noteq> None" if "k \<in> dom (assets w1)" for k
    proof -
      have "k \<in> S" "token_accounts (ledger w1) (vault_key e k) \<noteq> None"
        using that d reg eq(3) by (auto simp: delisted_def registry_inv_def)
      then show ?thesis by (rule lflow_exists [OF wflowD [OF q [unfolded quiet_def]]])
    qed
    show "owed w1 k \<le> owed w k" if "k \<in> S" for k
    proof (cases "assets w1 k")
      case None
      then show ?thesis using st [of total_locked] st [of gs_grai_mint] by (simp add: owed_def)
    next
      case (Some a)
      then obtain b i where "assets w k = Some b" "a = b\<lparr>ac_id := i\<rparr>"
        by (rule delistedE [OF d])
      then show ?thesis using Some st [of total_locked] st [of gs_grai_mint] by (simp add: owed_def)
    qed
    show "settings w1 = settings w" "phase w1 = phase w"
      unfolding settings_def phase_def by (subst eq(1), simp)+
  qed (use st [of total_locked] st [of total_voted] st [of lockers] st [of voters] st [of gs_grai_mint] eq(2,3)
      in simp_all)
qed

section \<open>\<open>set_feed\<close> and \<open>set_bribeable\<close>\<close>

lemma store_same_routine:
  assumes "grai_inv e S gm w" "assets w m = Some a" "ac_asset_mint a' = ac_asset_mint a"
    "total_claimable a' = total_claimable a"
  shows "routine e S gm w (store_asset_config m a' w)"
  by (rule store_asset_routine [OF assms(1) quiet_refl [unfolded quiet_def] assms(2)])
    (use assms grai_invD(5) [OF assms(1,2)] in simp_all)

text \<open>The four outcomes of the waterfall.\<close>

lemma execute_set_feed_cases:
  assumes "execute_set_feed e fa paused w = Ok w'"
  obtains (List) m where "mints (ledger w) (fa_asset_mint fa) = Some m"
      "fa_asset_mint fa \<notin> set (asset_mints (grai_state w))" "list_asset e fa m paused w = Ok w'"
  | (Pause) a where "assets w (fa_asset_mint fa) = Some a" "\<not> ac_paused a"
      "w' = store_asset_config (fa_asset_mint fa) (a\<lparr>ac_paused := paused\<rparr>) w"
  | (Delist) a where "assets w (fa_asset_mint fa) = Some a" "ac_paused a" "delist e fa w = Ok w'"
  | (Refeed) a id' where "assets w (fa_asset_mint fa) = Some a" "ac_paused a"
      "w' = store_asset_config (fa_asset_mint fa)
             (a\<lparr>ac_price_feed := fa_price_feed fa, pyth_feed_id := id', ac_paused := paused\<rparr>) w"
proof -
  let ?m = "fa_asset_mint fa"
  obtain m where m: "mints (ledger w) ?m = Some m"
    using assms by (auto simp: execute_set_feed_def Let_def accounts_SetFeed_def and_then_Ok_iff account_Ok_iff)
  show thesis
  proof (cases "?m \<in> set (asset_mints (grai_state w))")
    case False
    then have "list_asset e fa m paused w = Ok w'"
      using assms m by (auto simp: execute_set_feed_def Let_def accounts_SetFeed_def and_then_Ok_iff)
    with List m False show thesis by blast
  next
    case True
    then obtain a where a: "assets w ?m = Some a"
        and r: "(if \<not> ac_paused a then Ok (store_asset_config ?m (a\<lparr>ac_paused := paused\<rparr>) w)
        else if is_feed_none (fa_price_feed fa) then delist e fa w
        else
          and_then (ensure_feed_matches_asset_mint e (fa_price_feed fa) ?m w) (\<lambda>_.
          and_then (resolve_stored_pyth_feed_id e (fa_price_feed fa) w) (\<lambda>feed_id.
          Ok (store_asset_config ?m
                (a\<lparr>ac_price_feed := fa_price_feed fa, pyth_feed_id := feed_id, ac_paused := paused\<rparr>) w)))) = Ok w'"
      using assms unfolding execute_set_feed_def Let_def load_config_def
      by (auto simp only: and_then_Ok_iff ok_or_Ok_iff if_not_P if_P not_not simp_thms)
    show thesis
    proof (cases "ac_paused a")
      case False
      then show thesis using Pause [OF a False] r by simp
    next
      case paused: True
      show thesis
      proof (cases "is_feed_none (fa_price_feed fa)")
        case True
        then show thesis using Delist [OF a paused] r paused by simp
      next
        case False
        then show thesis using Refeed [OF a paused] r paused by (auto simp: and_then_Ok_iff)
      qed
    qed
  qed
qed

lemma execute_set_feed_routine:
  assumes good: "good_env e S gm" and inv: "grai_inv e S gm w" and mS: "fa_asset_mint fa \<in> S"
    and ok: "execute_set_feed e fa paused w = Ok w'"
  shows "routine e S gm w w'"
  using ok
proof (cases rule: execute_set_feed_cases)
  case (List m)
  then show ?thesis using list_asset_routine [OF good inv mS] by blast
next
  case (Pause a)
  then show ?thesis using store_same_routine [OF inv] by simp
next
  case (Delist a)
  then show ?thesis using delist_routine [OF good inv] by blast
next
  case (Refeed a id')
  then show ?thesis using store_same_routine [OF inv] by simp
qed

lemma execute_set_bribeable_routine:
  assumes "grai_inv e S gm w" "execute_set_bribeable e owner m b w = Ok w'"
  shows "routine e S gm w w'"
proof -
  obtain a where "assets w m = Some a" "w' = store_asset_config m (a\<lparr>ac_bribeable := b\<rparr>) w"
    using assms(2) by (auto simp: execute_set_bribeable_def accounts_SetBribeable_def and_then_Ok_iff
      check_asset_config_Ok)
  then show ?thesis using store_same_routine [OF assms(1)] by simp
qed

end
