(* ===== verification/Grai_Entry.thy ===== *)
theory Grai_Entry
  imports Views
begin

text \<open>
  The program's entry points (\<open>#[program] mod grai\<close> of \<open>lib.rs\<close>) as one dispatch function over
  its state-changing instructions, and which of them spend, meet a new mint, are the owner's,
  write settings or change the phase.
\<close>

section \<open>Entry points\<close>

datatype (plugins only: code size) instruction =
    TransferOwnership pubkey pubkey
  | AcceptOwnership pubkey
  | SetBeneficiar pubkey pubkey
  | SetRoyaltyBps pubkey u16
  | SetRevenueShareBps pubkey "u16 list"
  | Poach poach_accounts "pubkey list"
  | SetGrinders pubkey pubkey pubkey
  | SetBribeable pubkey pubkey bool
  | SetConfig pubkey Config
  | SetFeed feed_accounts bool
  | Deposit deposit_accounts "pubkey list" u64 bool pubkey
  | DepositSol deposit_accounts "pubkey list" u64 bool pubkey
  | Distribute pubkey pubkey pubkey pubkey pubkey pubkey u64
  | Lock pubkey pubkey pubkey "pubkey list" u64
  | Unlock pubkey pubkey pubkey pubkey "pubkey list" u64
  | Claim claim_accounts "pubkey list" u64
  | ClaimAll pubkey pubkey "pubkey list"
  | Vote pubkey pubkey pubkey "pubkey list" u64
  | Bribe pubkey pubkey pubkey pubkey pubkey pubkey "pubkey list" u64
  | Liquidate pubkey pubkey pubkey
  | Revive pubkey pubkey pubkey "pubkey list"
  | Redeem pubkey pubkey pubkey "pubkey list" u64

fun dispatch :: "env \<Rightarrow> instruction \<Rightarrow> world \<Rightarrow> world res" where
  "dispatch e (TransferOwnership owner new_owner) w = execute_transfer_ownership e owner new_owner w"
| "dispatch e (AcceptOwnership pending_owner) w = execute_accept_ownership e pending_owner w"
| "dispatch e (SetBeneficiar owner beneficiar) w = execute_set_beneficiar e owner beneficiar w"
| "dispatch e (SetRoyaltyBps owner royalty_bps') w = execute_set_royalty_bps e owner royalty_bps' w"
| "dispatch e (SetRevenueShareBps owner shares) w = execute_set_revenue_share_bps e owner shares w"
| "dispatch e (Poach pa remaining) w = execute_poach e pa remaining w"
| "dispatch e (SetGrinders owner grinders_state grinders) w =
     execute_set_grinders e owner grinders_state grinders w"
| "dispatch e (SetBribeable owner asset_mint bribeable) w =
     execute_set_bribeable e owner asset_mint bribeable w"
| "dispatch e (SetConfig owner cfg) w = execute_set_config e owner cfg w"
| "dispatch e (SetFeed fa paused) w = execute_set_feed e fa paused w"
| "dispatch e (Deposit da remaining amount lock referrer) w =
     execute_deposit e da remaining amount lock referrer w"
| "dispatch e (DepositSol da remaining amount lock referrer) w =
     execute_deposit_sol e da remaining amount lock referrer w"
| "dispatch e (Distribute wallet payer asset_mint price_feed grai_mint custody_ata yield_amount) w =
     execute_distribute e wallet payer asset_mint price_feed grai_mint custody_ata yield_amount w"
| "dispatch e (Lock locker grai_mint source remaining grai_amount) w =
     execute_lock e locker grai_mint source remaining grai_amount w"
| "dispatch e (Unlock user grai_mint account_ata grinders_state remaining grai_amount) w =
     execute_unlock e user grai_mint account_ata grinders_state remaining grai_amount w"
| "dispatch e (Claim ca remaining amount) w = execute_claim e ca remaining amount w"
| "dispatch e (ClaimAll payer holder remaining) w = execute_claim_all e payer holder remaining w"
| "dispatch e (Vote voter grai_mint source remaining grai_amount) w =
     execute_vote e voter grai_mint source remaining grai_amount w"
| "dispatch e (Bribe briber voter grai_mint settlement_mint feed source remaining grai_amount) w =
     execute_bribe e briber voter grai_mint settlement_mint feed source remaining grai_amount w"
| "dispatch e (Liquidate caller grinders_state grai_mint) w =
     execute_liquidate e caller grinders_state grai_mint w"
| "dispatch e (Revive grinders_state grinders_program grai_mint remaining) w =
     execute_revive e grinders_state grinders_program grai_mint remaining w"
| "dispatch e (Redeem holder grai_mint source remaining grai_amount) w =
     execute_redeem e holder grai_mint source remaining grai_amount w"

text \<open>
  The wallets whose signature an instruction spends by. The program's state address is derived
  from seeds and has no key pair, so it is none of them.
\<close>

fun spender :: "instruction \<Rightarrow> pubkey option" where
  "spender (Poach pa _) = Some (pa_poacher pa)"
| "spender (Deposit da _ _ _ _) = Some (da_depositor da)"
| "spender (Distribute wallet _ _ _ _ _ _) = Some wallet"
| "spender (Lock locker _ _ _ _) = Some locker"
| "spender (Vote voter _ _ _ _) = Some voter"
| "spender (Bribe briber _ _ _ _ _ _ _) = Some briber"
| "spender (Redeem holder _ _ _ _) = Some holder"
| "spender _ = None"

fun mints_met :: "instruction \<Rightarrow> pubkey set" where
  "mints_met (SetFeed fa _) = {fa_asset_mint fa}"
| "mints_met _ = {}"

text \<open>Instructions of the owner, instructions that write settings, and the two of the phase.\<close>

fun owner_of :: "instruction \<Rightarrow> pubkey option" where
  "owner_of (TransferOwnership owner _) = Some owner"
| "owner_of (SetBeneficiar owner _) = Some owner"
| "owner_of (SetRoyaltyBps owner _) = Some owner"
| "owner_of (SetRevenueShareBps owner _) = Some owner"
| "owner_of (SetGrinders owner _ _) = Some owner"
| "owner_of (SetConfig owner _) = Some owner"
| "owner_of (SetBribeable owner _ _) = Some owner"
| "owner_of (SetFeed fa _) = Some (fa_owner fa)"
| "owner_of _ = None"

fun writes_settings :: "instruction \<Rightarrow> bool" where
  "writes_settings (SetBribeable _ _ _) = False"
| "writes_settings (SetFeed _ _) = False"
| "writes_settings (AcceptOwnership _) = True"
| "writes_settings i = (owner_of i \<noteq> None)"

fun moves_phase :: "instruction \<Rightarrow> bool" where
  "moves_phase (Liquidate _ _ _) = True"
| "moves_phase (Revive _ _ _ _) = True"
| "moves_phase _ = False"

end
