(* ===== verification/Grai_Program.thy ===== *)
theory Grai_Program
  imports Solvency_Registry Grai_Entry
begin

text \<open>
  Every instruction keeps the program's invariant. The settings and the phase have invariants of
  their own.
\<close>

section \<open>Settings and phase\<close>

definition settings_inv :: "world \<Rightarrow> bool" where
  "settings_inv w \<longleftrightarrow> (let s = grai_state w in
     validate_protocol_config (gs_config s) = Ok () \<and>
     dividend_cut_bps (gs_config s) = DEFAULT_DIVIDEND_CUT_BPS \<and>
     treasury_cut_bps (gs_config s) = DEFAULT_TREASURY_CUT_BPS \<and>
     royalty_bps s \<le> BPS \<and> affiliate_levels s = 2 \<and> length (affiliate_share_bps s) = 2 \<and>
     sum_list (map unat (affiliate_share_bps s)) = 10000)"

text \<open>The clock of the phase runs exactly while it is open.\<close>

definition phase_inv :: "world \<Rightarrow> bool" where
  "phase_inv w \<longleftrightarrow> (\<not> liquidation (grai_state w) \<longrightarrow> liquidation_at (grai_state w) = 0)"

definition program_inv :: "env \<Rightarrow> pubkey set \<Rightarrow> pubkey \<Rightarrow> world \<Rightarrow> bool" where
  "program_inv e S gm w \<longleftrightarrow> grai_inv e S gm w \<and> settings_inv w \<and> phase_inv w"

lemma settings_inv_cong: "settings w' = settings w \<Longrightarrow> settings_inv w \<Longrightarrow> settings_inv w'"
  by (simp add: settings_inv_def settings_def Let_def)

lemma phase_inv_cong: "phase w' = phase w \<Longrightarrow> phase_inv w \<Longrightarrow> phase_inv w'"
  by (simp add: phase_inv_def phase_def)

lemma routine_program_inv: "routine e S gm w w' \<Longrightarrow> program_inv e S gm w \<Longrightarrow> program_inv e S gm w'"
  using settings_inv_cong phase_inv_cong by (auto simp: routine_def program_inv_def)

text \<open>A settings instruction rewrites fields of the state the rest of the invariant does not read.\<close>

lemma settings_program_inv:
  assumes inv: "program_inv e S gm w" and w': "w' = upd_state f w"
    and f: "\<And>s. gs_grai_mint (f s) = gs_grai_mint s \<and> asset_mints (f s) = asset_mints s \<and>
      total_locked (f s) = total_locked s \<and> total_voted (f s) = total_voted s \<and>
      lockers (f s) = lockers s \<and> voters (f s) = voters s \<and>
      liquidation (f s) = liquidation s \<and> liquidation_at (f s) = liquidation_at s"
    and s: "settings_inv w'"
  shows "program_inv e S gm w'"
proof -
  have "grai_inv e S gm w'"
    unfolding w' upd_state_def by (rule state_inv) (use inv f in \<open>simp_all add: program_inv_def\<close>)
  moreover have "phase_inv w'"
    using inv f by (simp add: program_inv_def phase_inv_def w' upd_state_def)
  ultimately show ?thesis using s by (simp add: program_inv_def)
qed

lemma sum_shares:
  assumes "length xs = 2" "sum_list (map ucast xs) = (ucast BPS :: u32)"
  shows "sum_list (map unat (xs :: u16 list)) = 10000"
proof -
  obtain a b where xs: "xs = [a, b]" using assms(1) by (auto simp: length_Suc_conv numeral_2_eq_2)
  have "unat (ucast a + ucast b :: u32) = unat a + unat b"
    using unat_u16_bound [of a] unat_u16_bound [of b]
    by (subst unat_word_ariths(1)) (simp add: unat_ucast_u16_u32)
  moreover have "(ucast a + ucast b :: u32) = ucast BPS" using assms(2) xs by simp
  ultimately have "unat a + unat b = unat (ucast BPS :: u32)" by simp
  then show ?thesis using xs by (simp add: BPS_def)
qed

lemma dispatch_settings:
  assumes inv: "program_inv e S gm w"
  shows "execute_transfer_ownership e o1 n w = Ok w' \<Longrightarrow> program_inv e S gm w'"
    "execute_accept_ownership e n w = Ok w' \<Longrightarrow> program_inv e S gm w'"
    "execute_set_beneficiar e o1 n w = Ok w' \<Longrightarrow> program_inv e S gm w'"
    "execute_set_royalty_bps e o1 r w = Ok w' \<Longrightarrow> program_inv e S gm w'"
    "execute_set_revenue_share_bps e o1 shares w = Ok w' \<Longrightarrow> program_inv e S gm w'"
    "execute_set_grinders e o1 gs g w = Ok w' \<Longrightarrow> program_inv e S gm w'"
    "execute_set_config e o1 cfg w = Ok w' \<Longrightarrow> program_inv e S gm w'"
proof -
  have s: "settings_inv w" using inv by (simp add: program_inv_def)
  note S = settings_program_inv [OF inv]
  show "execute_transfer_ownership e o1 n w = Ok w' \<Longrightarrow> program_inv e S gm w'"
    by (auto simp: execute_transfer_ownership_def step_iffs intro!: S [OF refl])
      (use s in \<open>simp add: settings_inv_def Let_def upd_state_def\<close>)
  show "execute_accept_ownership e n w = Ok w' \<Longrightarrow> program_inv e S gm w'"
    by (auto simp: execute_accept_ownership_def step_iffs intro!: S [OF refl])
      (use s in \<open>simp add: settings_inv_def Let_def upd_state_def\<close>)
  show "execute_set_beneficiar e o1 n w = Ok w' \<Longrightarrow> program_inv e S gm w'"
    by (auto simp: execute_set_beneficiar_def step_iffs intro!: S [OF refl])
      (use s in \<open>simp add: settings_inv_def Let_def upd_state_def\<close>)
  show "execute_set_royalty_bps e o1 r w = Ok w' \<Longrightarrow> program_inv e S gm w'"
    by (auto simp: execute_set_royalty_bps_def step_iffs intro!: S [OF refl])
      (use s in \<open>simp add: settings_inv_def Let_def upd_state_def\<close>)
  show "execute_set_revenue_share_bps e o1 shares w = Ok w' \<Longrightarrow> program_inv e S gm w'"
    by (auto simp: execute_set_revenue_share_bps_def step_iffs intro!: S [OF refl])
      (use s sum_shares in \<open>simp add: settings_inv_def Let_def upd_state_def\<close>)
  show "execute_set_grinders e o1 gs g w = Ok w' \<Longrightarrow> program_inv e S gm w'"
    by (auto simp: execute_set_grinders_def Let_def step_iffs intro!: S [OF refl])
      (use s in \<open>simp add: settings_inv_def Let_def upd_state_def\<close>)
  show "execute_set_config e o1 cfg w = Ok w' \<Longrightarrow> program_inv e S gm w'"
    by (auto simp: execute_set_config_def Let_def step_iffs intro!: S [OF refl])
      (use s in \<open>simp add: settings_inv_def Let_def upd_state_def\<close>)
qed

section \<open>Every instruction keeps the invariant\<close>

lemma poach_routine:
  assumes "good_env e S gm" "grai_inv e S gm w" "pa_poacher pa \<noteq> gs_key e" "execute_poach e pa rem w = Ok w'"
  shows "routine e S gm w w'"
  by (rule quiet_routine [OF assms(2) execute_poach_quiet [OF assms(1,4,3) grai_invD(4) [OF assms(2)]]])

lemma dispatch_routine:
  assumes good: "good_env e S gm" and g: "grai_inv e S gm w"
    and sp: "spender i \<noteq> Some (gs_key e)" and mt: "mints_met i \<subseteq> S" and ok: "dispatch e i w = Ok w'"
    and i: "\<not> writes_settings i" "\<not> moves_phase i"
  shows "routine e S gm w w'"
  using ok sp mt i by (cases i) (auto intro:
      poach_routine [OF good g] execute_set_bribeable_routine [OF g]
      execute_set_feed_routine [OF good g] execute_deposit_routine [OF good g]
      execute_deposit_sol_routine [OF good g] execute_distribute_routine [OF good g]
      execute_lock_routine [OF good g] execute_unlock_routine [OF good g]
      execute_claim_routine [OF good g] execute_claim_all_routine [OF good g]
      execute_vote_routine [OF good g] execute_bribe_routine [OF good g]
      execute_redeem_routine [OF good g])

lemma dispatch_inv:
  assumes good: "good_env e S gm" and inv: "program_inv e S gm w"
    and sp: "spender i \<noteq> Some (gs_key e)" and mt: "mints_met i \<subseteq> S" and ok: "dispatch e i w = Ok w'"
  shows "program_inv e S gm w'"
proof -
  have g: "grai_inv e S gm w" "settings_inv w" using inv by (simp_all add: program_inv_def)
  have M: "program_inv e S gm w'"
    if "grai_inv e S gm w' \<and> settings w' = settings w \<and> phase_inv w'"
    using that settings_inv_cong [OF _ g(2)] by (simp add: program_inv_def)
  consider "writes_settings i" | "moves_phase i" | "\<not> writes_settings i" "\<not> moves_phase i" by blast
  then show ?thesis
  proof cases
    case 1
    then show ?thesis using ok by (cases i) (auto intro: dispatch_settings [OF inv])
  next
    case 2
    then show ?thesis
      using ok execute_liquidate_inv [OF good g(1)] execute_revive_inv [OF good g(1)]
      by (cases i) (auto intro!: M simp: phase_inv_def phase_def)
  next
    case 3
    then show ?thesis using routine_program_inv [OF dispatch_routine [OF good g(1) sp mt ok] inv] by simp
  qed
qed

end
