(* ===== verification/Grai_Runs.thy ===== *)
theory Grai_Runs
  imports Grai_Program
begin

text \<open>
  Runs of the program: initialisation, then any interleaving of its instructions - each under
  its own clock, oracle readings and behaviour of the called programs - with the transactions
  of other programs, which cannot spend from the program's vaults. Every state of a run has
  the program's invariant.
\<close>

section \<open>Runs\<close>

definition same_addresses :: "env \<Rightarrow> env \<Rightarrow> bool" where
  "same_addresses e e' \<longleftrightarrow> pda e' = pda e \<and> pda_bump e' = pda_bump e"

definition unused :: "env \<Rightarrow> pubkey set \<Rightarrow> world \<Rightarrow> bool" where
  "unused e S w \<longleftrightarrow> assets w = Map.empty \<and> escrows w = Map.empty \<and>
     (\<forall>m\<in>S. token_accounts (ledger w) (vault_key e m) = None)"

inductive grai_run :: "env \<Rightarrow> pubkey set \<Rightarrow> pubkey \<Rightarrow> world \<Rightarrow> bool" for e S gm where
  start: "good_env e' S gm \<Longrightarrow> same_addresses e e' \<Longrightarrow> unused e S w \<Longrightarrow>
     execute_initialize e' owner gm w = Ok w' \<Longrightarrow> grai_run e S gm w'"
| instruction: "grai_run e S gm w \<Longrightarrow> good_env e' S gm \<Longrightarrow> same_addresses e e' \<Longrightarrow>
     spender i \<noteq> Some (gs_key e) \<Longrightarrow> mints_met i \<subseteq> S \<Longrightarrow> dispatch e' i w = Ok w' \<Longrightarrow> grai_run e S gm w'"
| others: "grai_run e S gm w \<Longrightarrow> lflow e S gm (\<lambda>_. 0) (ledger w) l \<Longrightarrow> grai_run e S gm (w\<lparr>ledger := l\<rparr>)"

inductive_cases grai_runE: "grai_run e S gm w"

text \<open>The invariant reads nothing of the environment but the addresses.\<close>

lemma program_inv_addresses:
  "same_addresses e e' \<Longrightarrow> program_inv e' S gm w = program_inv e S gm w"
  by (simp add: same_addresses_def program_inv_def grai_inv_def registry_inv_def lock_inv_def
      lock_book_def solvent_def vaults_owned_def)

section \<open>Initialisation\<close>

lemma initialize_Ok:
  assumes "env_laws e" "execute_initialize e owner gm w = Ok w'"
  obtains l where "w' = w\<lparr>grai_state := initial_grai_state e owner gm, ledger := l\<rparr>"
    "token_accounts l = token_accounts (ledger w)"
    "mints l = (mints (ledger w))(gm \<mapsto> \<lparr> mi_supply = 0, mi_decimals = 6, mi_authority = Some (gs_key e) \<rparr>)"
proof -
  obtain w1 w2 w3 where
      1: "invoke (anchor_init e owner (gs_key e) (GraiState_space 0 0 0 0)) w = Ok w1"
      and 2: "invoke (anchor_init e owner gm Mint_LEN) w1 = Ok w2"
      and 3: "invoke (spl_initialize_mint2 e gm GraiState_DECIMALS (gs_key e)) w2 = Ok w3"
      and 4: "invoke (create_metadata e gm owner 0 None) (w3\<lparr>grai_state := initial_grai_state e owner gm\<rparr>) = Ok w'"
    using assms(2) by (auto simp: execute_initialize_def accounts_Initialize_def create_grai_metadata_def and_then_Ok_iff)
  have "rent_only w w2"
    using rent_only_trans [OF rent_only_invoke(6) [OF assms(1) 1] rent_only_invoke(6) [OF assms(1) 2]] .
  then obtain l2 where l2: "w2 = w\<lparr>ledger := l2\<rparr>" "token_accounts l2 = token_accounts (ledger w)" "mints l2 = mints (ledger w)"
    by (rule rent_onlyE)
  obtain l3 where l3: "spl_initialize_mint2 e gm GraiState_DECIMALS (gs_key e) l2 = Some l3" "w3 = w2\<lparr>ledger := l3\<rparr>"
    using 3 l2(1) by (auto simp: invoke_Ok)
  obtain l4 where l4: "create_metadata e gm owner 0 None l3 = Some l4"
      "w' = w3\<lparr>grai_state := initial_grai_state e owner gm, ledger := l4\<rparr>"
    using 4 l3(2) by (auto simp: invoke_Ok)
  show thesis
    using that [of l4] init_mint_lawD(2,3) [OF assms(1) l3(1)] metadata_lawD(1) [OF assms(1) l4(1)] l2 l3(2) l4(2)
    by (simp add: GraiState_DECIMALS_def)
qed

lemma default_config_validates: "validate_protocol_config default_protocol_config = Ok ()"
  by code_simp

lemma initialize_inv:
  assumes good: "good_env e S gm" and un: "unused e S w" and ok: "execute_initialize e owner gm w = Ok w'"
  shows "program_inv e S gm w'"
proof -
  obtain l where w': "w' = w\<lparr>grai_state := initial_grai_state e owner gm, ledger := l\<rparr>"
    and l: "token_accounts l = token_accounts (ledger w)"
    "mints l = (mints (ledger w))(gm \<mapsto> \<lparr> mi_supply = 0, mi_decimals = 6, mi_authority = Some (gs_key e) \<rparr>)"
    using good_envD(1) [OF good] ok by (rule initialize_Ok)
  note defs = w' initial_grai_state_def l
  have "registry_inv e S gm w'"
    using un by (simp add: registry_inv_def defs unused_def vaults_owned_def)
  moreover have "lock_inv e w'"
    using un by (simp add: lock_inv_def lock_book_def defs unused_def tracks_def msum_def)
  moreover have "solvent e S w'"
    using un by (auto simp: solvent_def owed_def defs unused_def)
  moreover have "settings_inv w'"
    using default_config_validates
    by (simp add: settings_inv_def Let_def defs default_protocol_config_def eval_simps
        DEFAULT_ROYALTY_BPS_def DEFAULT_AFFILIATE_LEVELS_def DEFAULT_AFFILIATE_SHARE_BPS_def)
  moreover have "phase_inv w'" by (simp add: phase_inv_def defs)
  ultimately show ?thesis by (simp add: program_inv_def grai_inv_def)
qed

section \<open>Every state of a run\<close>

lemma grai_run_inv: "grai_run e S gm w \<Longrightarrow> program_inv e S gm w"
proof (induction rule: grai_run.induct)
  case (start e' w owner w')
  have "unused e' S w" using start.hyps(2,3) by (simp add: unused_def same_addresses_def)
  then show ?case
    using initialize_inv [OF start.hyps(1) _ start.hyps(4)] program_inv_addresses [OF start.hyps(2)] by blast
next
  case (instruction w e' i w')
  have "program_inv e' S gm w" using instruction.IH program_inv_addresses [OF instruction.hyps(3)] by blast
  moreover have "spender i \<noteq> Some (gs_key e')" using instruction.hyps(3,4) by (simp add: same_addresses_def)
  ultimately have "program_inv e' S gm w'"
    using dispatch_inv [OF instruction.hyps(2) _ _ instruction.hyps(5,6)] by blast
  then show ?case using program_inv_addresses [OF instruction.hyps(3)] by blast
next
  case (others w l)
  then have "routine e S gm w (w\<lparr>ledger := l\<rparr>)"
    by (intro quiet_routine quiet_ledger) (simp_all add: program_inv_def)
  then show ?case using others.IH by (rule routine_program_inv)
qed

section \<open>A step from a state of a run\<close>

text \<open>\<open>admitted e S gm e' i\<close>: instruction \<open>i\<close> under environment \<open>e'\<close> is a step of the runs of \<open>e\<close>.\<close>

definition admitted :: "env \<Rightarrow> pubkey set \<Rightarrow> pubkey \<Rightarrow> env \<Rightarrow> instruction \<Rightarrow> bool" where
  "admitted e S gm e' i \<longleftrightarrow> good_env e' S gm \<and> same_addresses e e' \<and>
     spender i \<noteq> Some (gs_key e) \<and> mints_met i \<subseteq> S"

lemma admittedD:
  assumes "grai_run e S gm w" "admitted e S gm e' i"
  shows "good_env e' S gm" "grai_inv e' S gm w" "spender i \<noteq> Some (gs_key e')" "mints_met i \<subseteq> S"
  using assms grai_run_inv [OF assms(1)] program_inv_addresses [of e e' S gm w]
  by (auto simp: admitted_def program_inv_def same_addresses_def)

end
