(* ===== verification/Reference_Env.thy ===== *)
theory Reference_Env
  imports Grai_World
begin

text \<open>
  An environment that has all the properties the GRAI program relies on: a small SPL-token
  program, system program and address derivation, executable, so that whole instructions can
  be evaluated in it. It serves as the concrete instance at which hypotheses on the environment
  are discharged; no theorem is about it.
\<close>

unbundle bit_operations_syntax

section \<open>Addresses\<close>

text \<open>Derived addresses carry the kind of seed in their low byte.\<close>

definition tagged :: "pubkey \<Rightarrow> u8 \<Rightarrow> pubkey" where
  "tagged x t = push_bit 8 x OR ucast t"

definition pair_key :: "pubkey \<Rightarrow> pubkey \<Rightarrow> pubkey" where
  "pair_key u m = push_bit 64 u OR m"

fun ref_pda :: "seed \<Rightarrow> pubkey" where
  "ref_pda GraiStateSeed = tagged 0 1"
| "ref_pda (AssetSeed m) = tagged m 2"
| "ref_pda (VaultSeed m) = tagged m 3"
| "ref_pda (TreasuryVaultSeed m) = tagged m 4"
| "ref_pda (EscrowSeed u) = tagged u 5"
| "ref_pda (PositionSeed u m) = tagged (pair_key u m) 6"
| "ref_pda (ReferrerSeed u) = tagged u 7"
| "ref_pda (TreasuryNftSeed u) = tagged u 8"
| "ref_pda (CustomFeedSeed m) = tagged m 9"

definition ref_ata :: "pubkey \<Rightarrow> pubkey \<Rightarrow> pubkey" where
  "ref_ata u m = tagged (pair_key u m) 10"

lemma tagged_eqD: "tagged x s = tagged y t \<Longrightarrow> s = t"
proof -
  assume "tagged x s = tagged y t"
  then have "(ucast (tagged x s) :: u8) = ucast (tagged y t)" by simp
  moreover have "(ucast (tagged z r) :: u8) = r" for z r
    by (rule bit_word_eqI) (auto simp: tagged_def bit_simps)
  ultimately show "s = t" by simp
qed

lemma tagged_ucast_inj:
  fixes x y :: "'a::len word"
  assumes "LENGTH('a) \<le> 64" "tagged (ucast x) t = tagged (ucast y) t"
  shows "x = y"
proof (rule bit_word_eqI)
  fix n assume n: "n < LENGTH('a)"
  have "bit (tagged (ucast z) t) (n + 8) = bit z n" for z :: "'a word"
    using n assms(1) by (auto simp: tagged_def bit_simps dest: bit_imp_le_length)
  then show "bit x n = bit y n" using assms(2) by metis
qed

section \<open>The token program\<close>

definition ref_transfer :: "pubkey \<Rightarrow> pubkey \<Rightarrow> pubkey \<Rightarrow> u64 \<Rightarrow> ledger \<Rightarrow> ledger option" where
  "ref_transfer from to auth amt l =
     (case (token_accounts l from, token_accounts l to) of
        (Some a, Some b) \<Rightarrow>
          if tk_owner a = auth \<and> tk_mint a = tk_mint b \<and> amt \<le> tk_amount a then
            if from = to then Some l
            else case checked_add (tk_amount b) amt of
                   None \<Rightarrow> None
                 | Some x \<Rightarrow> Some (l\<lparr>token_accounts := (token_accounts l)
                     (from \<mapsto> a\<lparr>tk_amount := tk_amount a - amt\<rparr>, to \<mapsto> b\<lparr>tk_amount := x\<rparr>)\<rparr>)
          else None
      | _ \<Rightarrow> None)"

definition ref_mint_to :: "pubkey \<Rightarrow> pubkey \<Rightarrow> pubkey \<Rightarrow> u64 \<Rightarrow> ledger \<Rightarrow> ledger option" where
  "ref_mint_to m to auth amt l =
     (case (mints l m, token_accounts l to) of
        (Some x, Some b) \<Rightarrow>
          if mi_authority x = Some auth \<and> tk_mint b = m then
            case (checked_add (mi_supply x) amt, checked_add (tk_amount b) amt) of
              (Some s, Some n) \<Rightarrow> Some (l\<lparr>mints := (mints l)(m \<mapsto> x\<lparr>mi_supply := s\<rparr>),
                 token_accounts := (token_accounts l)(to \<mapsto> b\<lparr>tk_amount := n\<rparr>)\<rparr>)
            | _ \<Rightarrow> None
          else None
      | _ \<Rightarrow> None)"

definition ref_burn :: "pubkey \<Rightarrow> pubkey \<Rightarrow> pubkey \<Rightarrow> u64 \<Rightarrow> ledger \<Rightarrow> ledger option" where
  "ref_burn m from auth amt l =
     (case (mints l m, token_accounts l from) of
        (Some x, Some a) \<Rightarrow>
          if tk_owner a = auth \<and> tk_mint a = m then
            case (checked_sub (mi_supply x) amt, checked_sub (tk_amount a) amt) of
              (Some s, Some n) \<Rightarrow> Some (l\<lparr>mints := (mints l)(m \<mapsto> x\<lparr>mi_supply := s\<rparr>),
                 token_accounts := (token_accounts l)(from \<mapsto> a\<lparr>tk_amount := n\<rparr>)\<rparr>)
            | _ \<Rightarrow> None
          else None
      | _ \<Rightarrow> None)"

definition ref_init_account :: "pubkey \<Rightarrow> pubkey \<Rightarrow> pubkey \<Rightarrow> ledger \<Rightarrow> ledger option" where
  "ref_init_account k m own l =
     (case token_accounts l k of
        None \<Rightarrow> Some (l\<lparr>token_accounts := (token_accounts l)
                 (k \<mapsto> \<lparr> tk_mint = m, tk_owner = own, tk_amount = 0 \<rparr>),
               data_len := (data_len l)(k := 165)\<rparr>)
      | Some _ \<Rightarrow> None)"

definition ref_init_mint :: "pubkey \<Rightarrow> u8 \<Rightarrow> pubkey \<Rightarrow> ledger \<Rightarrow> ledger option" where
  "ref_init_mint m d auth l =
     (case mints l m of
        None \<Rightarrow> Some (l\<lparr>mints := (mints l)
                 (m \<mapsto> \<lparr> mi_supply = 0, mi_decimals = d, mi_authority = Some auth \<rparr>)\<rparr>)
      | Some _ \<Rightarrow> None)"

definition ref_close :: "pubkey \<Rightarrow> ledger \<Rightarrow> ledger option" where
  "ref_close k l =
     (case token_accounts l k of
        Some a \<Rightarrow> if tk_amount a = 0 then Some (l\<lparr>token_accounts := (token_accounts l)(k := None)\<rparr>) else None
      | None \<Rightarrow> None)"

definition ref_master_edition :: "pubkey \<Rightarrow> ledger \<Rightarrow> ledger option" where
  "ref_master_edition m l =
     (case mints l m of
        Some x \<Rightarrow> Some (l\<lparr>mints := (mints l)(m \<mapsto> x\<lparr>mi_authority := None\<rparr>)\<rparr>)
      | None \<Rightarrow> None)"

section \<open>The system program\<close>

definition ref_sys_transfer :: "pubkey \<Rightarrow> pubkey \<Rightarrow> u64 \<Rightarrow> ledger \<Rightarrow> ledger option" where
  "ref_sys_transfer a b n l =
     (case (checked_sub (lamports l a) n, checked_add (lamports l b) n) of
        (Some x, Some y) \<Rightarrow> if a = b then Some l else Some (l\<lparr>lamports := (lamports l)(a := x, b := y)\<rparr>)
      | _ \<Rightarrow> None)"

definition ref_create_account :: "pubkey \<Rightarrow> pubkey \<Rightarrow> u64 \<Rightarrow> nat \<Rightarrow> pubkey \<Rightarrow> ledger \<Rightarrow> ledger option" where
  "ref_create_account payer k n space own l =
     Option.bind (ref_sys_transfer payer k n l) (\<lambda>l.
     Some (l\<lparr>data_len := (data_len l)(k := space), program_owner := (program_owner l)(k := own)\<rparr>))"

definition ref_realloc :: "pubkey \<Rightarrow> nat \<Rightarrow> ledger \<Rightarrow> ledger option" where
  "ref_realloc k space l = Some (l\<lparr>data_len := (data_len l)(k := space)\<rparr>)"

definition ref_assign :: "pubkey \<Rightarrow> pubkey \<Rightarrow> ledger \<Rightarrow> ledger option" where
  "ref_assign k own l = Some (l\<lparr>program_owner := (program_owner l)(k := own)\<rparr>)"

definition ref_anchor_init :: "pubkey \<Rightarrow> pubkey \<Rightarrow> nat \<Rightarrow> ledger \<Rightarrow> ledger option" where
  "ref_anchor_init payer k space l = (if data_len l k = 0 then ref_create_account payer k 1 space 99 l else None)"

text \<open>A custom feed for mint 7 at one dollar; no other oracle.\<close>

definition ref_feed :: CustomPriceFeed where
  "ref_feed = \<lparr> cf_oracle = 3, cf_asset_mint = 7, cf_description = 0, cf_price = 100000000,
     cf_decimals = 8, cf_updated_at = 1000 \<rparr>"

definition ref_env :: env where
  "ref_env = \<lparr> pda = ref_pda, pda_bump = (\<lambda>_. 255), ata = ref_ata, unix_timestamp = 2000,
     clock_slot = 5, spl_transfer = ref_transfer, spl_mint_to = ref_mint_to, spl_burn = ref_burn,
     spl_init_account = (\<lambda>_. ref_init_account), spl_initialize_account3 = ref_init_account,
     spl_initialize_mint2 = ref_init_mint, spl_close_account = (\<lambda>k _ _. ref_close k),
     sync_native = (\<lambda>_. Some), create_metadata = (\<lambda>_ _ _ _. Some),
     create_master_edition = (\<lambda>m _. ref_master_edition m), heartbeat_cpi = (\<lambda>_ _ _. Some),
     rent_minimum = (\<lambda>_. 1), sys_transfer = ref_sys_transfer, sys_create_account = ref_create_account,
     sys_allocate = ref_realloc, sys_assign = ref_assign, realloc = ref_realloc,
     anchor_init = ref_anchor_init, grai_program = 99, custom_feeds = [tagged 7 9 \<mapsto> ref_feed],
     pyth_legacy = Map.empty, pyth_update = Map.empty, chainlink_feed = Map.empty \<rparr>"

section \<open>It has the laws\<close>

lemma ref_env_sel:
  "spl_transfer ref_env = ref_transfer" "spl_mint_to ref_env = ref_mint_to" "spl_burn ref_env = ref_burn"
  "spl_init_account ref_env p = ref_init_account" "spl_initialize_account3 ref_env = ref_init_account"
  "spl_initialize_mint2 ref_env = ref_init_mint" "spl_close_account ref_env k d a = ref_close k"
  "sync_native ref_env k = Some" "create_metadata ref_env m p r c = Some"
  "create_master_edition ref_env m p = ref_master_edition m" "heartbeat_cpi ref_env h1 h2 h3 = Some"
  "sys_transfer ref_env = ref_sys_transfer" "sys_create_account ref_env = ref_create_account"
  "sys_allocate ref_env = ref_realloc" "sys_assign ref_env = ref_assign" "realloc ref_env = ref_realloc"
  "anchor_init ref_env = ref_anchor_init" "pda ref_env = ref_pda" "ata ref_env = ref_ata"
  "pda_bump ref_env s = 255" "unix_timestamp ref_env = 2000" "clock_slot ref_env = 5"
  "rent_minimum ref_env n = 1" "grai_program ref_env = 99"
  "custom_feeds ref_env = [tagged 7 9 \<mapsto> ref_feed]"
  by (simp_all add: ref_env_def)

lemma ref_transfer_law: "transfer_law ref_env"
  unfolding transfer_law_def ref_env_sel
proof (intro allI impI)
  fix "from" to auth amt and l l' :: ledger
  assume "ref_transfer from to auth amt l = Some l'"
  then obtain a b where a: "token_accounts l from = Some a" "token_accounts l to = Some b" "amt \<le> tk_amount a"
      and l': "(from = to \<and> l' = l) \<or> (from \<noteq> to \<and> (\<exists>x. checked_add (tk_amount b) amt = Some x \<and>
         l' = l\<lparr>token_accounts := (token_accounts l)
            (from \<mapsto> a\<lparr>tk_amount := tk_amount a - amt\<rparr>, to \<mapsto> b\<lparr>tk_amount := x\<rparr>)\<rparr>))"
    by (auto simp: ref_transfer_def split: option.splits if_splits)
  have "unat (tk_amount a - amt) = unat (tk_amount a) - unat amt" using a(3) by (rule unat_sub)
  then show "same_shape l l' \<and> none_new l l' \<and> mints l' = mints l \<and> unat amt \<le> bal l from \<and>
     (\<forall>k. bal l' k = (if from = to then bal l k
                      else if k = from then bal l k - unat amt
                      else if k = to then bal l k + unat amt else bal l k))"
    using l' a by (auto simp: same_shape_def none_new_def bal_def checked_add_Some word_le_nat_alt)
qed

lemma supply_unchanged: "\<exists>s. x = x\<lparr>mi_supply := s\<rparr>" for x :: Mint
  by (rule exI [of _ "mi_supply x"]) simp

lemma ref_mint_law: "mint_law ref_env"
  unfolding mint_law_def ref_env_sel
proof (intro allI impI)
  fix m to auth amt and l l' :: ledger
  assume "ref_mint_to m to auth amt l = Some l'"
  then obtain x b s n where x: "mints l m = Some x" "token_accounts l to = Some b"
      "checked_add (mi_supply x) amt = Some s" "checked_add (tk_amount b) amt = Some n"
      and l': "l' = l\<lparr>mints := (mints l)(m \<mapsto> x\<lparr>mi_supply := s\<rparr>),
                 token_accounts := (token_accounts l)(to \<mapsto> b\<lparr>tk_amount := n\<rparr>)\<rparr>"
    by (auto simp: ref_mint_to_def split: option.splits if_splits)
  have "same_mints l l'"
    using x l' supply_unchanged by (auto simp: same_mints_def)
  then show "same_shape l l' \<and> none_new l l' \<and> same_mints l l' \<and> supply_of l' m = supply_of l m + unat amt \<and>
     (\<forall>x. x \<noteq> m \<longrightarrow> mints l' x = mints l x) \<and>
     (\<forall>k. bal l' k = (if k = to then bal l k + unat amt else bal l k))"
    using x l' by (auto simp: same_shape_def none_new_def bal_def supply_of_def checked_add_Some)
qed

lemma ref_burn_law: "burn_law ref_env"
  unfolding burn_law_def ref_env_sel
proof (intro allI impI)
  fix m "from" auth amt and l l' :: ledger
  assume "ref_burn m from auth amt l = Some l'"
  then obtain x a s n where x: "mints l m = Some x" "token_accounts l from = Some a"
      "checked_sub (mi_supply x) amt = Some s" "checked_sub (tk_amount a) amt = Some n"
      and l': "l' = l\<lparr>mints := (mints l)(m \<mapsto> x\<lparr>mi_supply := s\<rparr>),
                 token_accounts := (token_accounts l)(from \<mapsto> a\<lparr>tk_amount := n\<rparr>)\<rparr>"
    by (auto simp: ref_burn_def split: option.splits if_splits)
  have "same_mints l l'"
    using x l' supply_unchanged by (auto simp: same_mints_def)
  then show "same_shape l l' \<and> none_new l l' \<and> same_mints l l' \<and>
     unat amt \<le> bal l from \<and> unat amt \<le> supply_of l m \<and> supply_of l' m = supply_of l m - unat amt \<and>
     (\<forall>x. x \<noteq> m \<longrightarrow> mints l' x = mints l x) \<and>
     (\<forall>k. bal l' k = (if k = from then bal l k - unat amt else bal l k))"
    using x l' by (auto simp: same_shape_def none_new_def bal_def supply_of_def checked_sub_Some)
qed

lemma ref_env_laws: "env_laws ref_env"
proof -
  have "init_law ref_env" "init3_law ref_env"
    by (auto simp: init_law_def init3_law_def ref_env_sel ref_init_account_def split: option.splits)
  moreover have "init_mint_law ref_env"
    by (auto simp: init_mint_law_def ref_env_sel ref_init_mint_def split: option.splits)
  moreover have "close_law ref_env"
    by (auto simp: close_law_def ref_env_sel ref_close_def split: option.splits if_splits)
  moreover have "sync_law ref_env" by (simp add: sync_law_def ref_env_sel)
  moreover have "metadata_law ref_env"
    by (auto simp: metadata_law_def frames_def ref_env_sel ref_master_edition_def supply_of_def
        split: option.splits)
  moreover have "frames (ref_sys_transfer a b n)" for a b n
    by (auto simp: frames_def ref_sys_transfer_def split: option.splits if_splits)
  then have "frames (ref_create_account a b n s p)" for a b n s p
    by (auto simp: frames_def ref_create_account_def split: bind_splits)
  with \<open>\<And>a b n. frames (ref_sys_transfer a b n)\<close> have "system_law ref_env"
    unfolding system_law_def ref_env_sel
    by (auto simp: frames_def ref_realloc_def ref_assign_def ref_anchor_init_def split: if_splits)
  ultimately show ?thesis
    using ref_transfer_law ref_mint_law ref_burn_law by (simp add: env_laws_def)
qed

end
