(* ===== verification/Sample_World.thy ===== *)
theory Sample_World
  imports Grai_Entry Reference_Env
begin

text \<open>
  A concrete run in the reference environment: the protocol is set up, an asset is listed and
  made bribeable, an account deposits a thousand dollars and locks the shares, yield is
  distributed, and the account votes for liquidation beyond the quorum. \<open>sample_world\<close> is the
  state it ends in; the concrete instances of the theorems about the protocol start there.
\<close>

unbundle bit_operations_syntax

fun dispatch_all :: "env \<Rightarrow> instruction list \<Rightarrow> world \<Rightarrow> world res" where
  "dispatch_all e [] w = Ok w"
| "dispatch_all e (i # is) w = and_then (dispatch e i w) (dispatch_all e is)"

definition sample_start :: world where
  "sample_start = \<lparr> grai_state = initial_grai_state ref_env 0 0, assets = Map.empty,
     escrows = Map.empty, positions = Map.empty, books = Map.empty,
     ledger = \<lparr> token_accounts =
         [ref_ata 20 7 \<mapsto> \<lparr> tk_mint = 7, tk_owner = 20, tk_amount = 5000000000 \<rparr>,
          ref_ata 30 7 \<mapsto> \<lparr> tk_mint = 7, tk_owner = 30, tk_amount = 5000000000 \<rparr>],
       mints = [7 \<mapsto> \<lparr> mi_supply = 9000000000000, mi_decimals = 6, mi_authority = Some 50 \<rparr>],
       lamports = (\<lambda>k. if k = 20 \<or> k = 10 \<or> k = 30 then 1000 else 0), data_len = (\<lambda>_. 0),
       program_owner = (\<lambda>k. if k = tagged 7 9 then CUSTOM_PRICE_FEED_PROGRAM_ID else 0),
       raw_data = (\<lambda>k. if k = 10 then replicate 200 0 else []), executable = (\<lambda>_. False) \<rparr> \<rparr>"

definition sample_instructions :: "instruction list" where
  "sample_instructions =
     [SetFeed \<lparr> fa_owner = 10, fa_asset_mint = 7, fa_asset_config = tagged 7 2,
        fa_vault_ata = tagged 7 3, fa_price_feed = tagged 7 9, fa_moved_asset_config = tagged 7 2 \<rparr>
        False,
      SetBribeable 10 7 True,
      Deposit \<lparr> da_depositor = 20, da_asset_mint = 7, da_grai_mint = 11, da_price_feed = tagged 7 9,
          da_grinders_state = 10, da_treasury_nft_ata = ref_ata 20 (tagged 20 8),
          da_depositor_ata = ref_ata 20 7 \<rparr>
        [tagged 7 2, tagged (pair_key 20 7) 6, tagged 20 7] 1000000000 True 0,
      Distribute 20 20 7 (tagged 7 9) 11 (ref_ata 20 7) 1000000,
      Vote 20 11 (ref_ata 20 11) [tagged 7 2, tagged (pair_key 20 7) 6] 700000000]"

definition sample_world :: world where
  "sample_world =
     \<lparr>grai_state =
     \<lparr>gs_owner = 10, gs_pending_owner = default_pubkey,
        gs_beneficiar = 10, gs_grinders = 10, total_value = 1000000000,
        total_locked = 1000000000, total_voted = 700000000,
        liquidation = False, liquidation_at = 0, mint_premium_at = 2000,
        gs_grai_mint = 11,
        gs_config =
          \<lparr>dividend_cut_bps = 5000, treasury_cut_bps = 5000,
             revenue_share_bps = DEFAULT_REVENUE_SHARE_BPS,
             claim_tip_bps = DEFAULT_CLAIM_TIP_BPS,
             bribe_premium_bps = DEFAULT_BRIBE_PREMIUM_BPS,
             quorum_bps = DEFAULT_QUORUM_BPS,
             unlock_penalty_bps = DEFAULT_UNLOCK_PENALTY_BPS,
             poach_fee_bps = DEFAULT_POACH_FEE_BPS,
             liquidation_period = DEFAULT_LIQUIDATION_PERIOD,
             redeem_period = DEFAULT_REDEEM_PERIOD,
             mint_premium_bps_per_year = 500\<rparr>,
        royalty_bps = DEFAULT_ROYALTY_BPS, affiliate_levels = 2,
        affiliate_share_bps = DEFAULT_AFFILIATE_SHARE_BPS,
        asset_mints = [7], lockers = [20], voters = [20],
        referrers = [20], gs_bump = 255\<rparr>,
     assets =
       [7 \<mapsto>
        \<lparr>ac_asset_mint = 7, ac_price_feed = 1801, ac_paused = False,
           ac_bribeable = True, ac_id = 0, acc_share = 500000000000000,
           total_claimable = 500000, total_yielded = 1000000,
           ac_bump = 255, pyth_feed_id = default_pubkey\<rparr>],
     escrows =
       [20 \<mapsto>
        \<lparr>es_amount = 1000000000, es_voted = 700000000, es_voted_at = 2000,
           es_locker_id = 0, es_voter_id = 0, es_bump = 255\<rparr>],
     positions =
       [(20, 7) \<mapsto>
        \<lparr>po_debt = 500000, po_claimable = 500000, po_yielded = 1000000,
           po_bump = 255\<rparr>],
     books =
       [20 \<mapsto>
        \<lparr>rf_referrer = 20, rf_nft_mint = 5128, rf_value = 1000000000,
           rf_l1_value = 0, rf_l2_value = 0, rf_bump = 255\<rparr>],
     ledger =
       \<lparr>token_accounts =
          [141670994486089356412682 \<mapsto>
           \<lparr>tk_mint = 7, tk_owner = 30, tk_amount = 5000000000\<rparr>,
           47223664828696452138762 \<mapsto>
           \<lparr>tk_mint = 7, tk_owner = 10, tk_amount = 1000000000\<rparr>,
           94447329657392905586698 \<mapsto>
           \<lparr>tk_mint = 5128, tk_owner = 20, tk_amount = 1\<rparr>,
           94447329657392904276746 \<mapsto>
           \<lparr>tk_mint = 11, tk_owner = 20, tk_amount = 0\<rparr>,
           2819 \<mapsto> \<lparr>tk_mint = 11, tk_owner = 1, tk_amount = 1000000000\<rparr>,
           94447329657392904275722 \<mapsto>
           \<lparr>tk_mint = 7, tk_owner = 20, tk_amount = 3999000000\<rparr>,
           1795 \<mapsto> \<lparr>tk_mint = 7, tk_owner = 1, tk_amount = 500000\<rparr>,
           1796 \<mapsto> \<lparr>tk_mint = 7, tk_owner = 1, tk_amount = 500000\<rparr>],
          mints =
            [7 \<mapsto>
             \<lparr>mi_supply = 9000000000000, mi_decimals = 6,
                mi_authority = Some 50\<rparr>,
             11 \<mapsto>
             \<lparr>mi_supply = 1000000000, mi_decimals = 6,
                mi_authority = Some 1\<rparr>,
             5128 \<mapsto>
             \<lparr>mi_supply = 1, mi_decimals = 0, mi_authority = None\<rparr>],
          lamports =
            (\<lambda>k. if k = 20 \<or> k = 10 \<or> k = 30 then 1000 else 0)
            (1 := 1, 11 := 1, 1794 := 1, 1795 := 1, 10 := 995, 1796 := 1,
               5125 := 1, 5127 := 1, 5128 := 1, 20 := 996,
               94447329657392904275718 := 1),
          data_len =
            (\<lambda>_. 0)
            (11 := 82, 1794 := 143, 1795 := 165, 1796 := 165,
               47223664828696452138762 := 165,
               94447329657392904276746 := 165, 5125 := 41, 2819 := 165,
               5127 := 121, 5128 := 82, 94447329657392905586698 := 165,
               94447329657392904275718 := 41, 1 := 395),
          program_owner =
            (\<lambda>k. if k = 1801 then CUSTOM_PRICE_FEED_PROGRAM_ID
                 else default_pubkey)
            (1 := 99, 11 := 99, 1794 := 99,
               1795 :=
                 3106054211088883198575105191760876350940303353676611666299516346430146937001,
               1796 :=
                 3106054211088883198575105191760876350940303353676611666299516346430146937001,
               5125 := 99, 5127 := 99,
               5128 :=
                 3106054211088883198575105191760876350940303353676611666299516346430146937001,
               94447329657392904275718 := 99),
          raw_data = \<lambda>k. if k = 10 then replicate 200 0 else [],
          executable = \<lambda>_. False\<rparr>\<rparr>"

section \<open>Evaluation\<close>

lemma credit_walk_two:
  "credit_walk e l v r q lev 2 k w = credit_walk e l v r q lev (Suc (Suc 0)) k w"
  by (simp add: numeral_2_eq_2)

lemmas ref_simps = ref_env_sel ref_anchor_init_def ref_create_account_def ref_sys_transfer_def
  ref_init_mint_def ref_realloc_def ref_assign_def ref_init_account_def ref_transfer_def
  ref_mint_to_def ref_burn_def ref_master_edition_def ref_feed_def tagged_def pair_key_def
  ref_ata_def bal_def invoke_def eval_simps Let_def

lemmas account_simps' = check_owner_def check_grai_state_def check_grai_mint_def
  check_asset_config_def check_price_feed_def matches_asset_mint_def check_token_account_def
  check_vault_def check_escrow_def init_token_if_needed_def init_escrow_if_needed_def
  init_position_if_needed_def set_escrow_def empty_escrow_def upd_state_def store_asset_config_def
  store_position_def store_referrer_def realloc_grai_state_def create_account_absorb_prefund_def
  grai_space_def GraiState_space_def GraiState_FIXED_LEN_def Config_LEN_def
  MAX_AFFILIATE_LEVELS_def Mint_LEN_def AssetConfig_LEN_def TokenAccount_LEN_def
  Escrow_LEN_def Position_LEN_def Referrer_LEN_def token_program_id_def system_program_id_def

lemmas feed_simps = ensure_feed_matches_asset_mint_def deserialize_custom_feed_def
  validate_custom_feed_pda_def owner_ids resolve_stored_pyth_feed_id_def is_feed_none_def
  fetch_asset_price_def fetch_price_from_feed_def fetch_custom_price_from_account_def
  usd_value_def settlement_amount_def pow10_def narrow_def USD_DECIMALS_def BPS_def
  DIVIDEND_PRECISION_def bps_of_def mul_div_def

lemmas settle_simps = settle_all_pairs_def settle_pair_def load_asset_config_def
  load_or_init_position_def settle_def settle_all_quads_def settle_quad_def require_vault_pda_def
  require_holder_ata_def transfer_from_vault_def transfer_from_signer_def

lemmas setup_simps = sample_start_def initial_grai_state_def GraiState_DECIMALS_def
  execute_initialize_def accounts_Initialize_def create_grai_metadata_def
  default_protocol_config_def DEFAULT_AFFILIATE_LEVELS_def DEFAULT_MINT_PREMIUM_BPS_PER_YEAR_def
  DEFAULT_DIVIDEND_CUT_BPS_def DEFAULT_TREASURY_CUT_BPS_def
  execute_set_feed_def accounts_SetFeed_def list_asset_def ensure_asset_config_def
  ensure_vault_def ensure_program_vault_def ensure_treasury_vault_def
  execute_set_bribeable_def accounts_SetBribeable_def

lemmas deposit_simps = execute_deposit_def accounts_Deposit_def deposit_checks_def
  deposit_inits_def deposit_quote_def preview_deposit_def preview_deposit_book_def
  apply_mint_premium_def compound.simps preview_deposit_soft_def MAX_MINT_PREMIUM_YEARS_def
  MINT_PREMIUM_YEAR_SECONDS_def deposit_payments_def deposit_books_def mint_referrer_def
  ensure_referrer_account_def register_referrer_def bind_referrer_def choose_referrer_def
  ensure_treasury_nft_def require_locker_nft_ata_def ensure_nft_mint_def mint_treasury_nft_def
  treasury_royalty_creators_def credit_books_def credit_walk_two perform_lock_def enter_lockers_def

lemmas harvest_simps = execute_distribute_def accounts_Distribute_def pay_cuts_def split_cuts_def
  distribute_dividend_def execute_vote_def accounts_Vote_def perform_vote_def enter_voters_def

lemma sample_reached:
  "and_then (execute_initialize ref_env 10 11 sample_start) (dispatch_all ref_env sample_instructions)
     = Ok sample_world"
  by (simp add: sample_instructions_def setup_simps account_simps' feed_simps settle_simps
      deposit_simps harvest_simps ref_simps sample_world_def)

end
