(* ===== verification/Sample_Run.thy ===== *)
theory Sample_Run
  imports Grai_Runs Sample_World
begin

text \<open>The evaluation of \<open>Sample_World\<close> is a run of the program.\<close>

section \<open>It is a run\<close>

lemma ref_good_env: "good_env ref_env {7, 11} 11"
proof -
  have "tagged m 4 \<noteq> tagged k 3" "ref_ata u m \<noteq> tagged k 3" for u m k
    using tagged_eqD [of m 4 k 3] tagged_eqD [of _ 10 k 3] by (auto simp: ref_ata_def)
  moreover have "tagged u 8 \<noteq> 11" for u
    using tagged_eqD [of u 8 0 11] by (auto simp: tagged_def)
  moreover have "tagged 7 3 \<noteq> tagged 11 3" by (simp add: tagged_def)
  ultimately show ?thesis
    using ref_env_laws by (auto simp: good_env_def addr_ok_def ref_env_sel)
qed

lemma dispatch_all_run:
  "grai_run e S gm w \<Longrightarrow> good_env e S gm \<Longrightarrow>
   \<forall>i\<in>set is. spender i \<noteq> Some (gs_key e) \<and> mints_met i \<subseteq> S \<Longrightarrow>
   dispatch_all e is w = Ok w' \<Longrightarrow> grai_run e S gm w'"
proof (induction "is" arbitrary: w)
  case (Cons i "is")
  then obtain w1 where 1: "dispatch e i w = Ok w1" "dispatch_all e is w1 = Ok w'"
    by (auto simp: and_then_Ok_iff)
  have "grai_run e S gm w1"
    by (rule grai_run.instruction [OF Cons.prems(1,2) _ _ _ 1(1)])
      (use Cons.prems(3) in \<open>simp_all add: same_addresses_def\<close>)
  then show ?case using Cons.IH Cons.prems(2,3) 1(2) by simp
qed simp

lemma sample_run: "grai_run ref_env {7, 11} 11 sample_world"
proof -
  obtain w where w: "execute_initialize ref_env 10 11 sample_start = Ok w"
      "dispatch_all ref_env sample_instructions w = Ok sample_world"
    using sample_reached by (auto simp: and_then_Ok_iff)
  have "grai_run ref_env {7, 11} 11 w"
    by (rule grai_run.start [OF ref_good_env _ _ w(1)])
      (simp_all add: same_addresses_def unused_def sample_start_def ref_env_sel ref_ata_def tagged_def pair_key_def)
  then show ?thesis
    by (rule dispatch_all_run [OF _ ref_good_env _ w(2)])
      (simp add: sample_instructions_def ref_env_sel tagged_def)
qed

end
