(* ===== verification/Grai_Phases.thy ===== *)
theory Grai_Phases
  imports Grai_Program
begin

text \<open>
  Who may do what, and when: which instructions change the phase and under which conditions,
  which instructions each phase admits, and which instructions change the settings.
\<close>

section \<open>The checks before the gates leave the program state alone\<close>

lemma entry_checked_state: "entry_checked e user gm source w w' \<Longrightarrow> grai_state w' = grai_state w"
  by (simp add: entry_checked_def)

lemma init_token_state:
  assumes "env_laws e" "init_token_if_needed e payer key mint own w = Ok w'"
  shows "grai_state w' = grai_state w" "raw_data (ledger w') = raw_data (ledger w)"
proof -
  show "grai_state w' = grai_state w"
    using init_token_if_needed_Ok(1) [OF assms] by (auto simp: ledger_only_def)
  show "raw_data (ledger w') = raw_data (ledger w)"
    using assms(2) init_lawD(5) [OF assms(1)]
    by (auto simp: init_token_if_needed_def invoke_Ok step_iffs split: option.splits if_splits)
qed

lemma init_escrow_state:
  assumes "env_laws e" "init_escrow_if_needed e payer user w = Ok w'"
  shows "grai_state w' = grai_state w"
  using assms by (rule init_escrow_if_needed_Ok) (auto simp: set_escrow_def split: option.splits)

lemma deposit_inits_state:
  assumes "env_laws e" "deposit_inits e da w = Ok w'"
  shows "grai_state w' = grai_state w"
  using assms(2) init_token_state(1) [OF assms(1)] init_escrow_state [OF assms(1)]
  unfolding deposit_inits_def Let_def by (auto simp: and_then_Ok_iff)

section \<open>Gates\<close>

text \<open>What liquidation blocks, and what needs it.\<close>

fun blocked_while_open :: "instruction \<Rightarrow> bool" where
  "blocked_while_open (TransferOwnership _ _) = False"
| "blocked_while_open (AcceptOwnership _) = False"
| "blocked_while_open (SetFeed _ _) = False"
| "blocked_while_open (Claim _ _ _) = False"
| "blocked_while_open (ClaimAll _ _ _) = False"
| "blocked_while_open (Revive _ _ _ _) = False"
| "blocked_while_open (Redeem _ _ _ _ _) = False"
| "blocked_while_open _ = True"

fun needs_open :: "instruction \<Rightarrow> bool" where
  "needs_open (Revive _ _ _ _) = True"
| "needs_open (Redeem _ _ _ _ _) = True"
| "needs_open _ = False"

lemma gate_settings:
  assumes "liquidation (grai_state w)"
  shows "execute_set_beneficiar e o1 n w \<noteq> Ok w'" "execute_set_royalty_bps e o1 r w \<noteq> Ok w'"
    "execute_set_revenue_share_bps e o1 shares w \<noteq> Ok w'" "execute_set_grinders e o1 gs g w \<noteq> Ok w'"
    "execute_set_config e o1 cfg w \<noteq> Ok w'" "execute_set_bribeable e o1 m b w \<noteq> Ok w'"
  using assms
  by (auto simp: execute_set_beneficiar_def execute_set_royalty_bps_def Let_def
      execute_set_revenue_share_bps_def execute_set_grinders_def execute_set_config_def
      execute_set_bribeable_def accounts_SetBribeable_def step_iffs)

lemma gate_handlers:
  assumes laws: "env_laws e" and liq: "liquidation (grai_state w)"
  shows "execute_lock e u m src rem amt w \<noteq> Ok w'" "execute_vote e u m src rem amt w \<noteq> Ok w'"
    "execute_unlock e u m acc gr rem amt w \<noteq> Ok w'" "execute_poach e pa rem w \<noteq> Ok w'"
proof -
  show "execute_lock e u m src rem amt w \<noteq> Ok w'"
    using liq entry_checked_state [OF accounts_Lock_checked [OF laws]]
    by (auto simp: execute_lock_def and_then_Ok_iff require_Ok_iff)
  show "execute_vote e u m src rem amt w \<noteq> Ok w'"
    using liq entry_checked_state [OF accounts_Vote_checked [OF laws]]
    by (auto simp: execute_vote_def and_then_Ok_iff require_Ok_iff)
  show "execute_unlock e u m acc gr rem amt w \<noteq> Ok w'"
    using liq by (auto elim: execute_unlock_Ok [OF laws])
  show "execute_poach e pa rem w \<noteq> Ok w'"
    using liq init_token_state(1) [OF laws]
    by (auto simp: execute_poach_def accounts_Poach_def poach_gates_def Let_def and_then_Ok_iff require_Ok_iff)
qed

lemma gate_deposits:
  assumes laws: "env_laws e" and liq: "liquidation (grai_state w)"
  shows "execute_deposit e da rem amt lock r w \<noteq> Ok w'" "execute_deposit_sol e da rem amt lock r w \<noteq> Ok w'"
proof -
  show "execute_deposit e da rem amt lock r w \<noteq> Ok w'"
    using liq deposit_inits_state [OF laws]
    by (auto simp: execute_deposit_def accounts_Deposit_def and_then_Ok_iff require_Ok_iff)
  show "execute_deposit_sol e da rem amt lock r w \<noteq> Ok w'"
    using liq deposit_inits_state [OF laws] init_token_state(1) [OF laws]
    by (auto simp: execute_deposit_sol_def accounts_DepositSol_def and_then_Ok_iff require_Ok_iff)
qed

lemma gate_yield:
  assumes good: "good_env e S gm" and inv: "grai_inv e S gm w" and liq: "liquidation (grai_state w)"
  shows "execute_distribute e cw p m f gmi ca y w \<noteq> Ok w'"
    "br \<noteq> gs_key e \<Longrightarrow> execute_bribe e br v m sm f src rem amt w \<noteq> Ok w'"
    "execute_liquidate e c gr m w \<noteq> Ok w'"
proof -
  have ph: "liquidation (grai_state w1)" if "quiet e S gm w w1" for w1
    using liq keeps_phase [OF quiet_keeps [OF that]] by (simp add: phase_def)
  show "execute_distribute e cw p m f gmi ca y w \<noteq> Ok w'"
    using ph [OF accounts_Distribute_Ok(1) [OF good]]
    by (auto simp: execute_distribute_def and_then_Ok_iff require_Ok_iff)
  show "execute_bribe e br v m sm f src rem amt w \<noteq> Ok w'" if "br \<noteq> gs_key e"
    using ph [OF accounts_Bribe_Ok(1) [OF good inv that]]
    by (auto simp: execute_bribe_def and_then_Ok_iff require_Ok_iff)
  show "execute_liquidate e c gr m w \<noteq> Ok w'"
    using liq execute_liquidate_inv [OF good inv] by blast
qed

lemma gate_open:
  assumes good: "good_env e S gm" and inv: "grai_inv e S gm w" and liq: "\<not> liquidation (grai_state w)"
  shows "execute_revive e gr prog m rem w \<noteq> Ok w'" "execute_redeem e h m src rem amt w \<noteq> Ok w'"
proof -
  show "execute_revive e gr prog m rem w \<noteq> Ok w'"
    using liq execute_revive_inv [OF good inv] by blast
  show "execute_redeem e h m src rem amt w \<noteq> Ok w'"
    using liq init_escrow_state [OF good_envD(1) [OF good]]
    by (auto simp: execute_redeem_def accounts_Redeem_def and_then_Ok_iff require_Ok_iff)
qed

lemma dispatch_gated:
  assumes good: "good_env e S gm" and inv: "grai_inv e S gm w" and sp: "spender i \<noteq> Some (gs_key e)"
    and ok: "dispatch e i w = Ok w'"
  shows "liquidation (grai_state w) \<Longrightarrow> \<not> blocked_while_open i"
    "\<not> liquidation (grai_state w) \<Longrightarrow> \<not> needs_open i"
proof -
  show "\<not> blocked_while_open i" if liq: "liquidation (grai_state w)"
    using ok sp gate_settings [OF liq] gate_handlers [OF good_envD(1) [OF good] liq]
      gate_deposits [OF good_envD(1) [OF good] liq] gate_yield [OF good inv liq]
    by (cases i) auto
  show "\<not> needs_open i" if liq: "\<not> liquidation (grai_state w)"
    using ok gate_open [OF good inv liq] by (cases i) auto
qed

section \<open>Opening and closing\<close>

text \<open>The quorum and the heartbeat of the state the instruction meets.\<close>

definition may_open :: "env \<Rightarrow> pubkey \<Rightarrow> world \<Rightarrow> bool" where
  "may_open e gm w \<longleftrightarrow> \<not> liquidation (grai_state w) \<and>
     (\<exists>m. mints (ledger w) gm = Some m \<and>
        unat (mi_supply m) * unat (quorum_bps (gs_config (grai_state w)))
          < unat (total_voted (grai_state w)) * 10000) \<and>
     grinders_grinding (gs_grinders (grai_state w)) (unix_timestamp e) w = Ok False"

definition may_close :: "env \<Rightarrow> world \<Rightarrow> bool" where
  "may_close e w \<longleftrightarrow> liquidation (grai_state w) \<and> liquidation_at (grai_state w) \<noteq> 0 \<and>
     sint (liquidation_at (grai_state w)) + uint (liquidation_period (gs_config (grai_state w)))
       + uint (redeem_period (gs_config (grai_state w))) \<le> sint (unix_timestamp e)"

lemma liquidate_may_open:
  assumes good: "good_env e S gm" and inv: "grai_inv e S gm w"
    and ok: "execute_liquidate e caller gr m w = Ok w'"
  shows "may_open e gm w"
proof -
  obtain mt :: Mint and w1 q where m: "m = gm" and mt: "mints (ledger w) gm = Some mt"
    and gr: "gr = gs_grinders (grai_state w)"
    and i: "init_token_if_needed e caller (ata e caller m) m caller w = Ok w1"
    and liq: "\<not> liquidation (grai_state w1)"
    and q: "has_quorum (total_voted (grai_state w1)) (mi_supply mt)
              (quorum_bps (gs_config (grai_state w1))) = Ok q" "q"
    and h: "grinders_grinding gr (unix_timestamp e) w1 = Ok False"
    using ok grai_invD(1) [OF inv] unfolding execute_liquidate_def accounts_Liquidate_def Let_def
    by (auto simp: and_then_Ok_iff require_Ok_iff check_grai_mint_def check_vault_def account_Ok_iff)
  note s = init_token_state [OF good_envD(1) [OF good] i]
  have "grinders_grinding gr (unix_timestamp e) w1 = grinders_grinding gr (unix_timestamp e) w"
    using s(2) by (simp add: grinders_grinding_def)
  then show ?thesis
    using liq q h mt gr s(1) by (auto simp: may_open_def has_quorum_exact)
qed

lemma sint_ucast_u32: "sint (ucast (p :: u32) :: i64) = uint p"
proof -
  have "uint p < 2 ^ 32" using uint_lt2p [of p] by simp
  then have "uint (ucast p :: i64) = uint p" by (simp add: unsigned_ucast_eq take_bit_int_eq_self_iff)
  with \<open>uint p < 2 ^ 32\<close> show ?thesis
    by (simp add: sint_uint signed_take_bit_int_eq_self_iff order_trans [OF _ uint_ge_0])
qed

lemma sint_period:
  assumes "checked_sadd (x :: i64) (ucast (p :: u32)) = Some y"
  shows "sint y = sint x + uint p"
  using assms checked_sadd_Some [of x "ucast p" y] by (simp add: sint_ucast_u32)

lemma revive_may_close:
  assumes "execute_revive e gr prog m rem w = Ok w'"
  shows "may_close e w"
proof -
  obtain u where "liquidation (grai_state w)" "liquidation_at (grai_state w) \<noteq> 0"
    "revive_unlock_at (grai_state w) = Ok u" "sint u \<le> sint (unix_timestamp e)"
    using assms unfolding execute_revive_def Let_def by (auto simp: and_then_Ok_iff require_Ok_iff)
  then show ?thesis
    by (auto simp: may_close_def revive_unlock_at_def ok_or_Ok_iff bind_Some_iff dest!: sint_period)
qed

section \<open>The phase and the settings move only so\<close>

lemma settings_keep_phase:
  "writes_settings i \<Longrightarrow> dispatch e i w = Ok w' \<Longrightarrow> phase w' = phase w"
  by (cases i) (auto simp: phase_def execute_transfer_ownership_def execute_accept_ownership_def
      execute_set_beneficiar_def execute_set_royalty_bps_def execute_set_revenue_share_bps_def
      execute_set_grinders_def execute_set_config_def Let_def upd_state_def step_iffs)

text \<open>Only the stored owner signs for the owner's instructions.\<close>

lemma dispatch_owner:
  "owner_of i = Some o1 \<Longrightarrow> dispatch e i w = Ok w' \<Longrightarrow> gs_owner (grai_state w) = o1"
  by (cases i) (auto simp: execute_transfer_ownership_def execute_set_beneficiar_def
      execute_set_royalty_bps_def execute_set_revenue_share_bps_def execute_set_grinders_def
      execute_set_config_def execute_set_bribeable_def accounts_SetBribeable_def
      execute_set_feed_def accounts_SetFeed_def check_owner_def Let_def step_iffs)

text \<open>The phase moves only by \<open>liquidate\<close> and \<open>revive\<close>.\<close>

lemma dispatch_phase:
  assumes good: "good_env e S gm" and g: "grai_inv e S gm w"
    and sp: "spender i \<noteq> Some (gs_key e)" and mt: "mints_met i \<subseteq> S" and ok: "dispatch e i w = Ok w'"
  shows "phase w' = phase w \<or>
    (\<exists>c gr m. i = Liquidate c gr m \<and> may_open e gm w \<and> phase w' = (True, unix_timestamp e)) \<or>
    (\<exists>gr p m rem. i = Revive gr p m rem \<and> may_close e w \<and> phase w' = (False, 0))"
proof (cases "moves_phase i")
  case True
  then show ?thesis
    using ok execute_liquidate_inv [OF good g] liquidate_may_open [OF good g]
      execute_revive_inv [OF good g] revive_may_close by (cases i) auto
next
  case False
  then show ?thesis
    using settings_keep_phase [OF _ ok] dispatch_routine [OF good g sp mt ok] by (auto simp: routine_def)
qed

text \<open>
  The settings move only by an instruction of the stored owner or by the pending owner's
  acceptance.
\<close>

lemma dispatch_settings_authorised:
  assumes good: "good_env e S gm" and g: "grai_inv e S gm w"
    and sp: "spender i \<noteq> Some (gs_key e)" and mt: "mints_met i \<subseteq> S" and ok: "dispatch e i w = Ok w'"
    and change: "settings w' \<noteq> settings w"
  shows "owner_of i = Some (gs_owner (grai_state w)) \<or>
    i = AcceptOwnership (gs_pending_owner (grai_state w)) \<and> gs_pending_owner (grai_state w) \<noteq> default_pubkey"
proof -
  have "\<not> moves_phase i"
    using ok change execute_liquidate_inv [OF good g] execute_revive_inv [OF good g] by (cases i) auto
  then have "writes_settings i"
    using change dispatch_routine [OF good g sp mt ok] by (auto simp: routine_def)
  then show ?thesis
    using ok dispatch_owner [of i _ e w w']
    by (cases i) (auto simp: execute_accept_ownership_def accounts_AcceptOwnership_def step_iffs)
qed

end
