(* ===== verification/Sample_Liquidation.thy ===== *)
theory Sample_Liquidation
  imports Sample_Run Grai_Phases
begin

text \<open>
  The sample run continued: liquidation opens on the quorum of \<open>sample_world\<close>, and closes after
  both periods once the Grinders program is deployed at the address the state is owned by.
\<close>

definition open_world :: world where
  "open_world = upd_state (\<lambda>s. s\<lparr>liquidation := True, liquidation_at := 2000\<rparr>) sample_world"

lemma le_nat_zeros [simp]: "le_nat (replicate n 0) = 0"
  by (induction n) simp_all

lemmas liquidate_simps = execute_liquidate_def accounts_Liquidate_def has_quorum_def dead_grai_def
  grinders_grinding_def GRINDERS_HEARTBEAT_AT_OFFSET_def GRINDERS_GRINDING_PERIOD_OFFSET_def
  slice_def DEFAULT_QUORUM_BPS_def saturating_sadd_def

lemma sample_opens: "dispatch ref_env (Liquidate 20 10 11) sample_world = Ok open_world"
  by (simp add: open_world_def sample_world_def liquidate_simps account_simps' feed_simps ref_simps)

lemma open_run: "grai_run ref_env {7, 11} 11 open_world"
  by (rule grai_run.instruction [OF sample_run ref_good_env _ _ _ sample_opens])
    (simp_all add: same_addresses_def ref_env_sel)

section \<open>The closing\<close>

definition late_env :: env where
  "late_env = ref_env\<lparr>unix_timestamp := 20000000\<rparr>"

lemma late_laws: "good_env late_env {7, 11} 11" "same_addresses ref_env late_env"
proof -
  show "good_env late_env {7, 11} 11"
    using ref_good_env
    by (simp add: late_env_def good_env_def addr_ok_def env_laws_def transfer_law_def mint_law_def burn_law_def
        init_law_def init3_law_def init_mint_law_def close_law_def sync_law_def metadata_law_def system_law_def)
  show "same_addresses ref_env late_env" by (simp add: same_addresses_def late_env_def)
qed

text \<open>Meanwhile the program at address 0 became executable; nothing else moved.\<close>

definition late_world :: world where
  "late_world = open_world\<lparr>ledger := (ledger open_world)\<lparr>executable := (\<lambda>_. True)\<rparr>\<rparr>"

lemma late_run: "grai_run ref_env {7, 11} 11 late_world"
  unfolding late_world_def
  by (rule grai_run.others [OF open_run])
    (simp add: lflow_same)

definition sample_revive :: instruction where
  "sample_revive = Revive 10 0 11 [tagged 7 2, 7, tagged 7 9, tagged 7 3, ref_ata 10 7]"

lemma sample_closes:
  "dispatch late_env sample_revive late_world =
     Ok (upd_state (\<lambda>s. s\<lparr>liquidation := False, liquidation_at := 0\<rparr>) late_world)"
  by (simp add: sample_revive_def late_world_def late_env_def open_world_def sample_world_def
      execute_revive_def accounts_Revive_def sweep_quint_def redeemable_balance_def
      revive_unlock_at_def DEFAULT_LIQUIDATION_PERIOD_def DEFAULT_REDEEM_PERIOD_def
      checked_sadd_def saturating_sub_def account_simps' feed_simps settle_simps ref_simps)

end
