(* ===== verification/Referral_Loop.thy ===== *)
theory Referral_Loop
  imports Treasury_Flows
begin

text \<open>
  The cycle check of new referral bindings (\<open>has_referral_loop\<close>, Floyd's tortoise and hare) ends
  and decides: it never runs longer than the accounts supplied, \<open>No\<close> means the chain above the
  proposed referrer ends without meeting the locker, \<open>Yes\<close> means it meets the locker or never
  ends.
\<close>

section \<open>The referral graph\<close>

text \<open>A book whose referrer is unset or itself is a root.\<close>

definition refers :: "(pubkey \<rightharpoonup> Referrer) \<Rightarrow> (pubkey \<times> pubkey) set" where
  "refers B = {(x, y). \<exists>b. B x = Some b \<and> y = rf_referrer b \<and> y \<noteq> default_pubkey \<and> y \<noteq> x}"

lemma refers_unique: "(x, y) \<in> refers B \<Longrightarrow> (x, z) \<in> refers B \<Longrightarrow> y = z"
  by (auto simp: refers_def)

lemma refers_single_valued: "single_valued (refers B)"
  by (auto intro: single_valuedI refers_unique)

text \<open>The chain above \<open>x\<close> ends at a root.\<close>

definition ends_above :: "(pubkey \<rightharpoonup> Referrer) \<Rightarrow> pubkey \<Rightarrow> bool" where
  "ends_above B x \<longleftrightarrow> (\<exists>r. (x, r) \<in> (refers B)\<^sup>* \<and> r \<notin> Domain (refers B))"

section \<open>Hops\<close>

lemma find_Some: "List.find P xs = Some x \<Longrightarrow> x \<in> set xs \<and> P x"
  by (induction xs) (auto split: if_splits)

lemma hop_or_stop_Inr:
  assumes "hop_or_stop e x locker to pool w = Inr y"
  shows "pda e (ReferrerSeed x) \<in> set pool" "(x, y) \<in> refers (books w)" "y \<noteq> locker" "y \<noteq> to"
  using assms
  by (auto simp: hop_or_stop_def hop_def Let_def referrer_info_def refers_def
      split: option.splits if_splits dest!: find_Some)

lemma hop_or_stop_No:
  assumes "hop_or_stop e x locker to pool w = Inl Loop_No"
  shows "x \<notin> Domain (refers (books w))"
  using assms
  by (auto simp: hop_or_stop_def hop_def Let_def referrer_info_def refers_def
      split: option.splits if_splits)

lemma hop_or_stop_Yes:
  assumes "hop_or_stop e x locker to pool w = Inl Loop_Yes"
  shows "(x, locker) \<in> refers (books w) \<or> (x, to) \<in> refers (books w)"
  using assms
  by (auto simp: hop_or_stop_def hop_def Let_def referrer_info_def refers_def
      split: option.splits if_splits)

fun hops :: "env \<Rightarrow> pubkey \<Rightarrow> pubkey \<Rightarrow> pubkey list \<Rightarrow> world \<Rightarrow> nat \<Rightarrow> pubkey option" where
  "hops e locker to pool w 0 = Some to"
| "hops e locker to pool w (Suc n) =
     Option.bind (hops e locker to pool w n) (\<lambda>x.
     case hop_or_stop e x locker to pool w of Inl _ \<Rightarrow> None | Inr y \<Rightarrow> Some y)"

lemma hops_Suc:
  "hops e locker to pool w (Suc n) = Some y \<longleftrightarrow>
     (\<exists>x. hops e locker to pool w n = Some x \<and> hop_or_stop e x locker to pool w = Inr y)"
  by (cases "hops e locker to pool w n") (auto split: sum.splits)

lemma hops_reach: "hops e locker to pool w n = Some x \<Longrightarrow> (to, x) \<in> (refers (books w))\<^sup>*"
  by (induction n arbitrary: x)
    (auto simp: hops_Suc simp del: hops.simps(2) dest!: hop_or_stop_Inr(2) intro: rtrancl_into_rtrancl)

lemma hops_down: "hops e locker to pool w n = Some x \<Longrightarrow> m \<le> n \<Longrightarrow> \<exists>y. hops e locker to pool w m = Some y"
proof (induction n arbitrary: x)
  case (Suc n)
  then show ?case by (cases "m = Suc n") (auto simp: hops_Suc le_Suc_eq simp del: hops.simps(2))
qed simp

lemma hops_in_pool:
  assumes "hops e locker to pool w (Suc n) = Some y" "hops e locker to pool w n = Some x"
  shows "pda e (ReferrerSeed x) \<in> set pool"
  using assms unfolding hops_Suc by (auto dest: hop_or_stop_Inr(1))

lemma hops_not_locker:
  assumes "hops e locker to pool w n = Some x" "to \<noteq> locker"
  shows "x \<noteq> locker"
proof (cases n)
  case (Suc m)
  then show ?thesis using assms(1) unfolding Suc hops_Suc by (auto dest: hop_or_stop_Inr(3))
qed (use assms in auto)

lemma hops_shift:
  assumes "hops e locker to pool w i = hops e locker to pool w j"
  shows "hops e locker to pool w (i + d) = hops e locker to pool w (j + d)"
  using assms by (induction d) simp_all

section \<open>Termination\<close>

text \<open>Running out of fuel means that the hare moved on and never met the tortoise.\<close>

lemma floyd_None:
  assumes "floyd n e locker to pool w slow fast = None"
    "hops e locker to pool w k = Some slow" "hops e locker to pool w (2 * k) = Some fast" "i < n"
  shows "\<exists>x y. hops e locker to pool w (k + Suc i) = Some x \<and>
    hops e locker to pool w (2 * (k + Suc i)) = Some y \<and> x \<noteq> y"
  using assms
proof (induction n arbitrary: slow fast k i)
  case (Suc n)
  obtain s f1 f2 where h: "hop_or_stop e slow locker to pool w = Inr s"
      "hop_or_stop e fast locker to pool w = Inr f1" "hop_or_stop e f1 locker to pool w = Inr f2"
      "s \<noteq> f2" "floyd n e locker to pool w s f2 = None"
    using Suc.prems(1) by (auto split: sum.splits if_splits)
  have s: "hops e locker to pool w (Suc k) = Some s" using Suc.prems(2) h(1) by simp
  have f: "hops e locker to pool w (2 * Suc k) = Some f2" using Suc.prems(3) h(2,3) by simp
  show ?case
  proof (cases i)
    case 0
    then show ?thesis using s f h(4) by simp
  next
    case (Suc j)
    then show ?thesis using Suc.IH [OF h(5) s f, of j] \<open>i < Suc n\<close> by simp
  qed
qed simp

text \<open>A sequence that repeats before \<open>N\<close> meets its double-speed copy before \<open>N\<close>.\<close>

lemma tortoise_meets_hare:
  fixes i j N :: nat
  assumes "i < j" "j \<le> N" and rep: "\<And>d. x (i + d) = x (j + d)"
  obtains k where "0 < k" "k \<le> N" "x k = x (2 * k)"
proof -
  define p where "p = j - i"
  have p: "0 < p" "j = i + p" using assms(1) by (simp_all add: p_def)
  have period: "x (m + c * p) = x m" if "i \<le> m" for m c
  proof (induction c)
    case (Suc c)
    have "x (i + (m - i + c * p)) = x (j + (m - i + c * p))" by (rule rep)
    then have "x (m + c * p) = x (m + Suc c * p)" using that p by (simp add: algebra_simps)
    then show ?case using Suc.IH by simp
  qed simp
  define k where "k = p * (i div p + 1)"
  have "i < k"
    unfolding k_def using p(1) by (metis Suc_eq_plus1 dividend_less_times_div mult_Suc_right)
  moreover have "k \<le> i + p" unfolding k_def by simp
  moreover have "x (k + k) = x k"
    using period [of k "i div p + 1"] \<open>i < k\<close> unfolding k_def by (simp add: mult.commute)
  then have "x k = x (2 * k)" by (simp add: mult_2)
  ultimately show thesis using that [of k] p assms(2) by simp
qed

text \<open>The books the hare passes are distinct accounts of the pool.\<close>

lemma floyd_ends:
  assumes inj: "inj_on (\<lambda>u. pda e (ReferrerSeed u)) (dom (books w))"
  shows "floyd (Suc (length pool)) e locker to pool w to to \<noteq> None"
proof
  let ?N = "length pool"
  define x where "x n = hops e locker to pool w n" for n
  assume none: "floyd (Suc ?N) e locker to pool w to to = None"
  have meet: "\<exists>y z. x (Suc i) = Some y \<and> x (2 * Suc i) = Some z \<and> y \<noteq> z" if "i \<le> ?N" for i
    using floyd_None [OF none, of 0 i] that by (simp add: x_def)
  have def: "\<exists>y. x n = Some y" if "n \<le> Suc ?N" for n
    using meet [of ?N] hops_down that unfolding x_def by blast
  have step: "\<exists>y. x n = Some y \<and> y \<in> dom (books w) \<and> pda e (ReferrerSeed y) \<in> set pool"
    if n: "n \<le> ?N" for n
  proof -
    obtain z where "hops e locker to pool w (Suc n) = Some z" using def [of "Suc n"] n by (auto simp: x_def)
    then obtain y where "hops e locker to pool w n = Some y" "hop_or_stop e y locker to pool w = Inr z"
      unfolding hops_Suc by blast
    then show ?thesis using hop_or_stop_Inr(1,2) [of e y locker to pool w z]
      by (auto simp: x_def refers_def)
  qed
  define f where "f n = pda e (ReferrerSeed (the (x n)))" for n
  have "f ` {..?N} \<subseteq> set pool" using step by (fastforce simp: f_def)
  then have "card (f ` {..?N}) \<le> ?N"
    by (meson card_length card_mono finite_set le_trans)
  then have "\<not> inj_on f {..?N}" using card_image by fastforce
  then obtain i j where ij: "i < j" "j \<le> ?N" "f i = f j"
    unfolding inj_on_def by (metis atMost_iff linorder_neqE_nat)
  obtain a b where "x i = Some a" "a \<in> dom (books w)" "x j = Some b" "b \<in> dom (books w)"
    using step [of i] step [of j] ij by auto
  then have "x i = x j" using ij(3) inj by (auto simp: f_def dest: inj_onD)
  then have "x (i + d) = x (j + d)" for d unfolding x_def by (rule hops_shift)
  then obtain k where k: "0 < k" "k \<le> ?N" "x k = x (2 * k)"
    using tortoise_meets_hare [OF ij(1,2)] by blast
  then have "Suc (k - 1) = k" "k - 1 \<le> ?N" by simp_all
  then show False using meet [of "k - 1"] k(3) by fastforce
qed

section \<open>What it decides\<close>

text \<open>The edges that do not lead to the locker; a successful hop is one of them.\<close>

definition passes :: "(pubkey \<rightharpoonup> Referrer) \<Rightarrow> pubkey \<Rightarrow> (pubkey \<times> pubkey) set" where
  "passes B locker = {(x, y). (x, y) \<in> refers B \<and> y \<noteq> locker}"

lemma passes_refers: "(x, y) \<in> (passes B locker)\<^sup>* \<Longrightarrow> (x, y) \<in> (refers B)\<^sup>*"
  by (rule subsetD [OF rtrancl_mono]) (auto simp: passes_def)

lemma hop_passes: "hop_or_stop e x locker to pool w = Inr y \<Longrightarrow> (x, y) \<in> passes (books w) locker"
  by (simp add: passes_def hop_or_stop_Inr(2,3))

lemma passes_avoid:
  assumes "(x, r) \<in> (passes B locker)\<^sup>*" "r \<notin> Domain (refers B)" "x \<noteq> locker"
  shows "(x, locker) \<notin> (refers B)\<^sup>*"
  using assms
proof (induction rule: converse_rtrancl_induct)
  case base
  then show ?case by (metis DomainI converse_rtranclE)
next
  case (step x y)
  then have xy: "(x, y) \<in> refers B" "y \<noteq> locker" by (simp_all add: passes_def)
  show ?case
  proof
    assume "(x, locker) \<in> (refers B)\<^sup>*"
    then have "(y, locker) \<in> (refers B)\<^sup>*"
      using step.prems(2) xy(1) by (metis converse_rtranclE refers_unique)
    then show False using step.IH [OF step.prems(1) xy(2)] by contradiction
  qed
qed

definition verdict :: "(pubkey \<rightharpoonup> Referrer) \<Rightarrow> pubkey \<Rightarrow> pubkey \<Rightarrow> LoopStatus \<Rightarrow> bool" where
  "verdict B locker to s \<longleftrightarrow>
     (s = Loop_No \<longrightarrow> ends_above B to \<and> (to \<noteq> locker \<longrightarrow> (to, locker) \<notin> (refers B)\<^sup>*)) \<and>
     (s = Loop_Yes \<longrightarrow> (to, locker) \<in> (refers B)\<^sup>+ \<or>
        (\<exists>x. (to, x) \<in> (refers B)\<^sup>* \<and> (x, x) \<in> (refers B)\<^sup>+))"

lemma stop_verdict:
  assumes "hop_or_stop e x locker to pool w = Inl s" "(to, x) \<in> (passes (books w) locker)\<^sup>*"
  shows "verdict (books w) locker to s"
proof (cases s)
  case Loop_No
  then have "x \<notin> Domain (refers (books w))" using assms(1) hop_or_stop_No by blast
  then show ?thesis
    using Loop_No passes_avoid [OF assms(2)] passes_refers [OF assms(2)]
    by (auto simp: verdict_def ends_above_def)
next
  case Loop_Yes
  then have "(x, locker) \<in> refers (books w) \<or> (x, to) \<in> refers (books w)"
    using assms(1) hop_or_stop_Yes by blast
  then show ?thesis
    using passes_refers [OF assms(2)] Loop_Yes rtrancl_into_trancl1 [of to x "refers (books w)"]
    by (auto simp: verdict_def)
qed (simp add: verdict_def)

lemma passes_first_step:
  assumes "(x, y) \<in> passes B locker" "(x, z) \<in> (passes B locker)\<^sup>+"
  shows "(y, z) \<in> (passes B locker)\<^sup>*"
  using tranclD [OF assms(2)] assms(1) refers_unique [of x y B] by (auto simp: passes_def)

lemma floyd_verdict:
  assumes "floyd n e locker to pool w slow fast = Some s"
    "(to, slow) \<in> (passes (books w) locker)\<^sup>*" "(slow, fast) \<in> (passes (books w) locker)\<^sup>*"
  shows "verdict (books w) locker to s"
  using assms
proof (induction n arbitrary: slow fast)
  case (Suc n)
  let ?R = "passes (books w) locker"
  note reach = Suc.prems(2,3)
  have fast: "(to, fast) \<in> ?R\<^sup>*" using reach by (rule rtrancl_trans)
  show ?case
  proof (cases "hop_or_stop e slow locker to pool w")
    case (Inl st)
    then show ?thesis using Suc.prems(1) stop_verdict reach(1) by auto
  next
    case slow: (Inr s1)
    show ?thesis
    proof (cases "hop_or_stop e fast locker to pool w")
      case (Inl st)
      then show ?thesis using Suc.prems(1) slow stop_verdict fast by auto
    next
      case f1: (Inr f1)
      have r: "(slow, s1) \<in> ?R" "(fast, f1) \<in> ?R" using hop_passes slow f1 by blast+
      have tof1: "(to, f1) \<in> ?R\<^sup>*" using fast r(2) by (rule rtrancl_into_rtrancl)
      show ?thesis
      proof (cases "hop_or_stop e f1 locker to pool w")
        case (Inl st)
        then show ?thesis using Suc.prems(1) slow f1 stop_verdict tof1 by auto
      next
        case f2: (Inr f2)
        have r2: "(f1, f2) \<in> ?R" using hop_passes f2 by blast
        have tos1: "(to, s1) \<in> ?R\<^sup>*" using reach(1) r(1) by (rule rtrancl_into_rtrancl)
        have "(slow, f1) \<in> ?R\<^sup>+" using reach(2) r(2) by (rule rtrancl_into_trancl1)
        then have s1f1: "(s1, f1) \<in> ?R\<^sup>*" by (rule passes_first_step [OF r(1)])
        show ?thesis
        proof (cases "s1 = f2")
          case True
          then have "(s1, s1) \<in> ?R\<^sup>+" using s1f1 r2 by (metis rtrancl_into_trancl1)
          then have "(s1, s1) \<in> (refers (books w))\<^sup>+"
            by (rule trancl_mono) (auto simp: passes_def)
          moreover have "s = Loop_Yes" using Suc.prems(1) slow f1 f2 True by simp
          ultimately show ?thesis using passes_refers [OF tos1] by (auto simp: verdict_def)
        next
          case False
          then have "floyd n e locker to pool w s1 f2 = Some s" using Suc.prems(1) slow f1 f2 by simp
          then show ?thesis by (rule Suc.IH [OF _ tos1 rtrancl_into_rtrancl [OF s1f1 r2]])
        qed
      qed
    qed
  qed
qed simp

text \<open>
  C18. The cycle check of a new referral binding always ends, however the books are arranged - also
  when they already form a cycle: the round budget of the model, one more than the accounts
  supplied, is never exhausted. (Two books never live at the same address.)
\<close>

theorem has_referral_loop_terminates:
  assumes "inj_on (\<lambda>u. pda e (ReferrerSeed u)) (dom (books w))"
  shows "\<exists>s. has_referral_loop e locker to pool w = Ok s"
proof (cases "to = locker")
  case False
  then show ?thesis
    using floyd_ends [OF assms, of pool locker to] by (auto simp: has_referral_loop_def cpi_def)
qed (simp add: has_referral_loop_def)

text \<open>
  C19. What the cycle check answers: \<open>No\<close> means that the chain of referrers above the proposed one
  ends at a root and never meets the locker, so the binding closes no cycle; \<open>Yes\<close> means that
  the chain does meet the locker or runs into a cycle. (\<open>Incomplete\<close> is a book not supplied.)
\<close>

theorem has_referral_loop_decides:
  assumes "to \<noteq> locker" "has_referral_loop e locker to pool w = Ok s"
  shows "(s = Loop_No \<longrightarrow> ends_above (books w) to \<and> (to, locker) \<notin> (refers (books w))\<^sup>*) \<and>
     (s = Loop_Yes \<longrightarrow> (to, locker) \<in> (refers (books w))\<^sup>+ \<or>
        (\<exists>x. (to, x) \<in> (refers (books w))\<^sup>* \<and> (x, x) \<in> (refers (books w))\<^sup>+))"
proof -
  have "floyd (Suc (length pool)) e locker to pool w to to = Some s"
    using assms by (simp add: has_referral_loop_def cpi_Ok_iff)
  then have "verdict (books w) locker to s" by (rule floyd_verdict) simp_all
  then show ?thesis using assms(1) by (simp add: verdict_def)
qed

end
