(* ===== verification/Sample_Facts.thy ===== *)
theory Sample_Facts
  imports Sample_Liquidation Referral_Loop
begin

text \<open>
  Concrete instances of the theorems about prices, checkpoints and the referral tree, in the
  reference environment and the state the sample run ends in.
\<close>

section \<open>Prices\<close>

definition sample_asset :: AssetConfig where
  "sample_asset = the (assets sample_world 7)"

lemma sample_price:
  "fetch_price_from_feed ref_env (tagged 7 9) sample_asset sample_world =
     Ok \<lparr> pd_price = 100000000, pd_decimals = 8, pd_updated_at = 1000, pd_updated_slot = 5 \<rparr>"
  by (simp add: sample_asset_def sample_world_def feed_simps ref_simps)

theorem fetch_price_sound_witness:
  "reading_ok ref_env (tagged 7 9) sample_asset sample_world
     \<lparr> pd_price = 100000000, pd_decimals = 8, pd_updated_at = 1000, pd_updated_slot = 5 \<rparr>"
proof -
  have "pyth_sdk_fresh ref_env" by (simp add: pyth_sdk_fresh_def ref_env_def)
  from fetch_price_sound [OF this] sample_price show ?thesis by blast
qed

theorem valuation_fails_only_by_overflow_witness:
  "\<exists>err. usd_value 1 60 \<lparr> pd_price = 100000000, pd_decimals = 8, pd_updated_at = 1000, pd_updated_slot = 5 \<rparr>
     = Inl err \<and> (err = Raise MathOverflow \<or> err = Panic)"
proof -
  obtain err where err: "usd_value 1 60 \<lparr> pd_price = 100000000, pd_decimals = 8, pd_updated_at = 1000,
      pd_updated_slot = 5 \<rparr> = Inl err"
    by (simp add: feed_simps eval_simps)
  then show ?thesis using valuation_fails_only_by_overflow [OF sample_price err] by blast
qed

definition feed_env :: env where
  "feed_env = ref_env\<lparr>custom_feeds := [tagged 7 9 \<mapsto> sample_feed]\<rparr>"

theorem custom_feed_readable_witness:
  "fetch_price_from_feed feed_env (ac_price_feed sample_asset) sample_asset sample_world =
     Ok \<lparr> pd_price = 100, pd_decimals = 8, pd_updated_at = 12, pd_updated_slot = 5 \<rparr>"
  using custom_feed_readable [OF sample_feed_reached, of 7 sample_feed feed_env sample_world sample_asset]
  by (simp add: sample_feed_world_def feed_env_def ref_env_sel sample_world_def
      sample_asset_def tagged_def sample_feed_def)

section \<open>Checkpoints\<close>

theorem settle_all_pairs_settles_witness:
  "\<exists>w p. settle_all_pairs ref_env [tagged 7 2, tagged (pair_key 20 7) 6] [7] 20 1000000000 400000000 20
       sample_world = Ok w \<and>
     positions w (20, 7) = Some p \<and> settled_from ref_env sample_world 20 7 1000000000 400000000 p"
proof -
  obtain w where w: "settle_all_pairs ref_env [tagged 7 2, tagged (pair_key 20 7) 6] [7] 20 1000000000
      400000000 20 sample_world = Ok w"
    by (simp add: settle_simps account_simps' feed_simps sample_world_def ref_simps)
  then show ?thesis using settle_all_pairs_settles [OF ref_env_laws _ w] by auto
qed

section \<open>Referrals\<close>

text \<open>Books 5, 1 and 2, of which the last two refer to each other.\<close>

definition sample_book :: "pubkey \<Rightarrow> Referrer" where
  "sample_book r = \<lparr> rf_referrer = r, rf_nft_mint = 0, rf_value = 0, rf_l1_value = 0, rf_l2_value = 0, rf_bump = 255 \<rparr>"

definition looping_world :: world where
  "looping_world = sample_world\<lparr>books := [5 \<mapsto> sample_book 1, 1 \<mapsto> sample_book 2, 2 \<mapsto> sample_book 1]\<rparr>"

theorem has_referral_loop_terminates_witness:
  "(5, 1) \<in> refers (books looping_world) \<and> (1, 2) \<in> refers (books looping_world) \<and>
   (2, 1) \<in> refers (books looping_world) \<and>
   (\<exists>s. has_referral_loop ref_env 30 5 [tagged 5 7, tagged 1 7, tagged 2 7] looping_world = Ok s)"
proof -
  have "inj_on (\<lambda>u. pda ref_env (ReferrerSeed u)) (dom (books looping_world))"
    by (simp add: looping_world_def inj_on_def ref_env_sel tagged_def)
  from has_referral_loop_terminates [OF this] show ?thesis
    by (simp add: looping_world_def refers_def sample_book_def)
qed

theorem has_referral_loop_decides_witness:
  "has_referral_loop ref_env 30 20 [tagged 20 7] sample_world = Ok Loop_No \<and>
   ends_above (books sample_world) 20 \<and> (20, 30) \<notin> (refers (books sample_world))\<^sup>*"
proof -
  have n: "has_referral_loop ref_env 30 20 [tagged 20 7] sample_world = Ok Loop_No"
    by (simp add: has_referral_loop_def hop_or_stop_def hop_def referrer_info_def sample_world_def ref_simps)
  then show ?thesis using has_referral_loop_decides [OF _ n] by simp
qed

end
