(* ===== verification/Grai_Live.thy ===== *)
theory Grai_Live
  imports Sample_Liquidation
begin

text \<open>
  A liquidation cannot stay open for ever: once both periods have passed, anybody can close it,
  and the closing sweep leaves in every vault exactly what the yield program owes from it.
\<close>

section \<open>What the closing relies on\<close>

text \<open>
  The token program carries out a covered transfer the program's state signs, and touches neither
  which accounts are programs nor who owns an account; the Grinders program answers its heartbeat.
\<close>

definition payouts_live :: "env \<Rightarrow> bool" where
  "payouts_live e \<longleftrightarrow>
     (\<forall>from to a b amt l. from \<noteq> to \<and> token_accounts l from = Some a \<and> tk_owner a = gs_key e \<and>
        token_accounts l to = Some b \<and> tk_mint b = tk_mint a \<and> unat amt \<le> unat (tk_amount a) \<and>
        unat (tk_amount b) + unat amt < 2 ^ 64 \<longrightarrow>
        (\<exists>l'. spl_transfer e from to (gs_key e) amt l = Some l' \<and>
           executable l' = executable l \<and> program_owner l' = program_owner l))"

definition heartbeat_live :: "env \<Rightarrow> pubkey \<Rightarrow> pubkey \<Rightarrow> bool" where
  "heartbeat_live e gr prog \<longleftrightarrow>
     (\<forall>l. executable l prog \<and> program_owner l gr = prog \<longrightarrow>
        (\<exists>l'. heartbeat_cpi e prog gr (gs_key e) l = Some l'))"

lemma payouts_liveD:
  assumes "payouts_live e" "from \<noteq> to" "token_accounts l from = Some a" "tk_owner a = gs_key e"
    "token_accounts l to = Some b" "tk_mint b = tk_mint a" "unat amt \<le> unat (tk_amount a)"
    "unat (tk_amount b) + unat amt < 2 ^ 64"
  obtains l' where "spl_transfer e from to (gs_key e) amt l = Some l'" "executable l' = executable l"
    "program_owner l' = program_owner l"
  using assms unfolding payouts_live_def by blast

text \<open>The vault of an asset and the Grinders account it is swept to, which has room for it.\<close>

definition sweepable :: "env \<Rightarrow> pubkey \<Rightarrow> ledger \<Rightarrow> pubkey \<Rightarrow> bool" where
  "sweepable e gr l m \<longleftrightarrow>
     (\<exists>v b. token_accounts l (vault_key e m) = Some v \<and> tk_mint v = m \<and> tk_owner v = gs_key e \<and>
        token_accounts l (ata e gr m) = Some b \<and> tk_mint b = m \<and>
        unat (tk_amount v) + unat (tk_amount b) < 2 ^ 64)"

text \<open>The remaining accounts a caller passes, five per asset; the feed is not read.\<close>

definition revive_accounts :: "env \<Rightarrow> pubkey \<Rightarrow> (pubkey \<Rightarrow> pubkey) \<Rightarrow> pubkey list \<Rightarrow> pubkey list" where
  "revive_accounts e gr feed ms =
     concat (map (\<lambda>m. [pda e (AssetSeed m), m, feed m, vault_key e m, ata e gr m]) ms)"

lemma revive_accounts_simps [simp]:
  "revive_accounts e gr feed [] = []"
  "revive_accounts e gr feed (m # ms) =
     pda e (AssetSeed m) # m # feed m # vault_key e m # ata e gr m # revive_accounts e gr feed ms"
  by (simp_all add: revive_accounts_def)

lemma length_revive_accounts [simp]: "length (revive_accounts e gr feed ms) = length ms * 5"
  by (induction ms) simp_all

lemma sweepable_apart:
  "sweepable e gr l m \<Longrightarrow> sweepable e gr l m' \<Longrightarrow> m \<noteq> m' \<Longrightarrow> ata e gr m \<noteq> ata e gr m'"
  by (auto simp: sweepable_def)

lemma sweepable_shape:
  assumes "sweepable e gr l m" "same_shape l l'" "bal l' (vault_key e m) = bal l (vault_key e m)"
    "bal l' (ata e gr m) = bal l (ata e gr m)"
  shows "sweepable e gr l' m"
proof -
  obtain v b where l: "token_accounts l (vault_key e m) = Some v" "token_accounts l (ata e gr m) = Some b"
    and p: "tk_mint v = m" "tk_owner v = gs_key e" "tk_mint b = m" "unat (tk_amount v) + unat (tk_amount b) < 2 ^ 64"
    using assms(1) unfolding sweepable_def by blast
  obtain v' b' where l': "token_accounts l' (vault_key e m) = Some v'" "token_accounts l' (ata e gr m) = Some b'"
    "tk_mint v' = tk_mint v" "tk_owner v' = tk_owner v" "tk_mint b' = tk_mint b"
    using assms(2) l unfolding same_shape_def by meson
  then show ?thesis using l p assms(3,4) by (auto simp: sweepable_def bal_def)
qed

section \<open>One asset\<close>

text \<open>After the sweep of an asset its vault holds what is claimable, and Grinders got the rest.\<close>

definition swept :: "env \<Rightarrow> pubkey \<Rightarrow> nat \<Rightarrow> pubkey \<Rightarrow> ledger \<Rightarrow> ledger \<Rightarrow> bool" where
  "swept e gr owe m l l' \<longleftrightarrow> bal l' (vault_key e m) = owe \<and>
     bal l' (ata e gr m) + owe = bal l (ata e gr m) + bal l (vault_key e m)"

lemma sweep_one:
  assumes laws: "env_laws e" and live: "payouts_live e" and s: "sweepable e gr (ledger w) m"
    and a: "assets w m = Some a" "ac_asset_mint a = m" and le: "unat (total_claimable a) \<le> bal (ledger w) (vault_key e m)"
    and apart: "ata e gr m \<noteq> vault_key e m"
  obtains l where "sweep_quint e (pda e (AssetSeed m)) (vault_key e m) (ata e gr m) m w = Ok (w\<lparr>ledger := l\<rparr>)"
    "executable l = executable (ledger w)" "program_owner l = program_owner (ledger w)"
    "same_shape (ledger w) l" "swept e gr (unat (total_claimable a)) m (ledger w) l"
    "\<And>k. k \<noteq> vault_key e m \<Longrightarrow> k \<noteq> ata e gr m \<Longrightarrow> bal l k = bal (ledger w) k"
proof -
  obtain v b where v: "token_accounts (ledger w) (vault_key e m) = Some v" "tk_owner v = gs_key e" "tk_mint v = m"
    and b: "token_accounts (ledger w) (ata e gr m) = Some b" "tk_mint b = m"
    and room: "unat (tk_amount v) + unat (tk_amount b) < 2 ^ 64"
    using s unfolding sweepable_def by blast
  let ?x = "redeemable_balance (tk_amount v) (total_claimable a)"
  have x: "unat ?x = unat (tk_amount v) - unat (total_claimable a)"
    by (simp add: redeemable_balance_def unat_saturating_sub)
  have bv: "bal (ledger w) (vault_key e m) = unat (tk_amount v)" using v(1) by (simp add: bal_def)
  have sq: "sweep_quint e (pda e (AssetSeed m)) (vault_key e m) (ata e gr m) m w =
      (if 0 < ?x then transfer_from_vault e (vault_key e m) (ata e gr m) ?x w else Ok w)"
    using a v(1) by (simp add: sweep_quint_def load_asset_config_def account_def Let_def)
  show thesis
  proof (cases "0 < ?x")
    case False
    then have "unat ?x = 0" by (simp add: word_greater_zero_iff)
    then show thesis using False sq le bv x that [of "ledger w"] by (simp add: swept_def)
  next
    case True
    obtain l where l: "spl_transfer e (vault_key e m) (ata e gr m) (gs_key e) ?x (ledger w) = Some l"
      "executable l = executable (ledger w)" "program_owner l = program_owner (ledger w)"
      by (rule payouts_liveD [OF live apart [symmetric] v(1,2) b(1), of ?x]) (use v(3) b(2) x room in auto)
    have mv: "moved (vault_key e m) (ata e gr m) (unat ?x) (ledger w) l"
      by (rule spl_transfer_moved [OF laws l(1)])
    have "sweep_quint e (pda e (AssetSeed m)) (vault_key e m) (ata e gr m) m w = Ok (w\<lparr>ledger := l\<rparr>)"
      using sq l(1) True by (simp add: transfer_from_vault_def invoke_def)
    moreover have "swept e gr (unat (total_claimable a)) m (ledger w) l"
      using mv apart x bv le by (auto simp: swept_def moved_def)
    ultimately show thesis using that [of l] l(2,3) mv apart by (simp add: moved_def)
  qed
qed

section \<open>All assets\<close>

lemma sweep_all:
  assumes good: "good_env e S gm" and live: "payouts_live e"
  shows "distinct ms \<Longrightarrow> set ms \<subseteq> S \<Longrightarrow> \<forall>m\<in>set ms. sweepable e gr (ledger w) m \<Longrightarrow>
    \<forall>m\<in>set ms. \<exists>a. assets w m = Some a \<and> ac_asset_mint a = m \<and> unat (total_claimable a) \<le> bal (ledger w) (vault_key e m) \<Longrightarrow>
    \<exists>l. sweep_quints e (revive_accounts e gr feed ms) ms w = Ok (w\<lparr>ledger := l\<rparr>) \<and>
      executable l = executable (ledger w) \<and> program_owner l = program_owner (ledger w) \<and>
      (\<forall>m\<in>set ms. swept e gr (unat (total_claimable (the (assets w m)))) m (ledger w) l) \<and>
      (\<forall>k. k \<notin> vault_key e ` set ms \<longrightarrow> k \<notin> ata e gr ` set ms \<longrightarrow> bal l k = bal (ledger w) k)"
proof (induction ms arbitrary: w)
  case Nil
  show ?case by (rule exI [of _ "ledger w"]) simp
next
  case (Cons m ms)
  note vault = good_envD(5) [OF good] good_envD(7) [OF good]
  from Cons.prems(4) obtain a where a: "assets w m = Some a" "ac_asset_mint a = m"
    "unat (total_claimable a) \<le> bal (ledger w) (vault_key e m)" by auto
  have mS: "m \<in> S" "set ms \<subseteq> S" using Cons.prems(2) by simp_all
  have sm: "sweepable e gr (ledger w) m" using Cons.prems(3) by simp
  obtain l where l: "sweep_quint e (pda e (AssetSeed m)) (vault_key e m) (ata e gr m) m w = Ok (w\<lparr>ledger := l\<rparr>)"
    "executable l = executable (ledger w)" "program_owner l = program_owner (ledger w)"
    "same_shape (ledger w) l" "swept e gr (unat (total_claimable a)) m (ledger w) l"
    "\<And>k. k \<noteq> vault_key e m \<Longrightarrow> k \<noteq> ata e gr m \<Longrightarrow> bal l k = bal (ledger w) k"
    using sweep_one [OF good_envD(1) [OF good] live sm a vault(1) [OF mS(1)]] by blast
  have out: "vault_key e n \<noteq> vault_key e m" "vault_key e n \<noteq> ata e gr m" "ata e gr n \<noteq> vault_key e m"
    "ata e gr n \<noteq> ata e gr m" if "n \<in> set ms" for n
  proof -
    have n: "n \<in> S" "n \<noteq> m" "sweepable e gr (ledger w) n" using that mS Cons.prems(1,3) by auto
    show "vault_key e n \<noteq> vault_key e m" using vault(2) [OF n(1) mS(1)] n(2) by simp
    show "vault_key e n \<noteq> ata e gr m" using vault(1) [OF n(1)] by metis
    show "ata e gr n \<noteq> vault_key e m" by (rule vault(1) [OF mS(1)])
    show "ata e gr n \<noteq> ata e gr m" by (rule sweepable_apart [OF n(3) sm n(2)])
  qed
  have same: "bal l (vault_key e n) = bal (ledger w) (vault_key e n)" "bal l (ata e gr n) = bal (ledger w) (ata e gr n)"
    if "n \<in> set ms" for n using l(6) out [OF that] by simp_all
  have "\<exists>l'. sweep_quints e (revive_accounts e gr feed ms) ms (w\<lparr>ledger := l\<rparr>) = Ok ((w\<lparr>ledger := l\<rparr>)\<lparr>ledger := l'\<rparr>) \<and>
      executable l' = executable (ledger (w\<lparr>ledger := l\<rparr>)) \<and> program_owner l' = program_owner (ledger (w\<lparr>ledger := l\<rparr>)) \<and>
      (\<forall>m\<in>set ms. swept e gr (unat (total_claimable (the (assets (w\<lparr>ledger := l\<rparr>) m)))) m (ledger (w\<lparr>ledger := l\<rparr>)) l') \<and>
      (\<forall>k. k \<notin> vault_key e ` set ms \<longrightarrow> k \<notin> ata e gr ` set ms \<longrightarrow> bal l' k = bal (ledger (w\<lparr>ledger := l\<rparr>)) k)"
    by (rule Cons.IH) (use Cons.prems same in \<open>auto intro: sweepable_shape [OF _ l(4)]\<close>)
  then obtain l' where l': "sweep_quints e (revive_accounts e gr feed ms) ms (w\<lparr>ledger := l\<rparr>) = Ok (w\<lparr>ledger := l'\<rparr>)"
      "executable l' = executable l" "program_owner l' = program_owner l"
      "\<forall>m\<in>set ms. swept e gr (unat (total_claimable (the (assets w m)))) m l l'"
      "\<forall>k. k \<notin> vault_key e ` set ms \<longrightarrow> k \<notin> ata e gr ` set ms \<longrightarrow> bal l' k = bal l k" by auto
  have "vault_key e m \<notin> vault_key e ` set ms" "vault_key e m \<notin> ata e gr ` set ms"
    "ata e gr m \<notin> vault_key e ` set ms" "ata e gr m \<notin> ata e gr ` set ms"
    using out by (metis image_iff)+
  then have "bal l' (vault_key e m) = bal l (vault_key e m)" "bal l' (ata e gr m) = bal l (ata e gr m)"
    using l'(5) by blast+
  then have "swept e gr (unat (total_claimable a)) m (ledger w) l'" using l(5) by (simp add: swept_def)
  moreover have "\<forall>n\<in>set ms. swept e gr (unat (total_claimable (the (assets w n)))) n (ledger w) l'"
    using l'(4) same by (simp add: swept_def)
  ultimately show ?case using l l' a(1) by (intro exI [of _ l']) auto
qed

lemma bind_all:
  "\<forall>m\<in>set ms. sweepable e gr (ledger w) m \<and> (\<exists>a. assets w m = Some a \<and> ac_asset_mint a = m) \<Longrightarrow>
   bind_quints e gr (revive_accounts e gr feed ms) ms w = Ok ()"
  by (induction ms)
    (auto simp: load_asset_config_def require_vault_pda_def sweepable_def)

section \<open>The closing\<close>

text \<open>
  The handler's last steps: the phase is reset, the value too when no share is left, and Grinders
  is called.
\<close>

lemma execute_revive_run:
  fixes w :: world
  assumes acc: "accounts_Revive e gr m w = Ok gmt" "gr = gs_grinders (grai_state w)"
    and open': "liquidation (grai_state w)" "liquidation_at (grai_state w) \<noteq> 0"
    and t: "revive_unlock_at (grai_state w) = Ok t" "sint t \<le> sint (unix_timestamp e)"
    and rem: "length rem = length (asset_mints (grai_state w)) * 5"
      "bind_quints e gr rem (asset_mints (grai_state w)) w = Ok ()"
    and s: "sweep_quints e rem (asset_mints (grai_state w)) w = Ok (w\<lparr>ledger := l\<rparr>)"
    and p: "executable l prog" "program_owner l gr = prog"
    and h: "heartbeat_cpi e prog gr (gs_key e) l = Some l'"
  shows "\<exists>tv. execute_revive e gr prog m rem w = Ok (w\<lparr>ledger := l',
      grai_state := (grai_state w)\<lparr>total_value := tv, liquidation := False, liquidation_at := 0\<rparr>\<rparr>)"
proof (intro exI)
  show "execute_revive e gr prog m rem w = Ok (w\<lparr>ledger := l', grai_state := (grai_state w)\<lparr>
      total_value := (if mi_supply gmt = 0 then 0 else total_value (grai_state w)), liquidation := False,
      liquidation_at := 0\<rparr>\<rparr>)"
    using acc open' t rem s p h by (simp add: execute_revive_def Let_def upd_state_def invoke_def)
qed

lemma accounts_Revive_run:
  assumes "check_grai_state e w = Ok ()" "mints (ledger w) (gs_grai_mint (grai_state w)) = Some x"
    "mi_authority x = Some (gs_key e)"
  shows "accounts_Revive e (gs_grinders (grai_state w)) (gs_grai_mint (grai_state w)) w = Ok x"
  using assms by (simp add: accounts_Revive_def check_grai_mint_def account_def)

text \<open>
  C7. A liquidation cannot stay open for ever. In every state of a run, once the liquidation period
  and the redeem period have passed, \<open>revive\<close> - which anybody may send - succeeds, when the token
  program carries out covered transfers, the Grinders program is deployed and answers its heartbeat,
  and its token accounts exist and have room. It closes the liquidation, and leaves in the vault of
  every listed asset exactly what lockers can still claim from it; all the rest went to Grinders.
\<close>

theorem revive_live:
  assumes "grai_run e0 S gm w" "good_env e S gm" "same_addresses e0 e" "check_grai_state e w = Ok ()"
    and live: "payouts_live e" "heartbeat_live e (gs_grinders (grai_state w)) prog"
    and open': "liquidation (grai_state w)" "liquidation_at (grai_state w) \<noteq> 0"
    and t: "revive_unlock_at (grai_state w) = Ok t" "sint t \<le> sint (unix_timestamp e)"
    and p: "executable (ledger w) prog" "program_owner (ledger w) (gs_grinders (grai_state w)) = prog"
    and s: "\<forall>m\<in>set (asset_mints (grai_state w)). sweepable e (gs_grinders (grai_state w)) (ledger w) m"
  shows "\<exists>w'. dispatch e (Revive (gs_grinders (grai_state w)) prog gm
         (revive_accounts e (gs_grinders (grai_state w)) feed (asset_mints (grai_state w)))) w = Ok w' \<and>
      \<not> liquidation (grai_state w') \<and> liquidation_at (grai_state w') = 0 \<and> assets w' = assets w \<and>
      (\<forall>m a. assets w m = Some a \<longrightarrow>
         bal (ledger w') (vault_key e m) = unat (total_claimable a) \<and>
         bal (ledger w') (ata e (gs_grinders (grai_state w)) m) + unat (total_claimable a) =
           bal (ledger w) (ata e (gs_grinders (grai_state w)) m) + bal (ledger w) (vault_key e m))"
proof -
  let ?gr = "gs_grinders (grai_state w)" and ?ms = "asset_mints (grai_state w)"
  let ?rem = "revive_accounts e ?gr feed ?ms"
  have "program_inv e S gm w" using grai_run_inv [OF assms(1)] program_inv_addresses [OF assms(3)] by simp
  then have inv: "grai_inv e S gm w" by (simp add: program_inv_def)
  note d = grai_invD [OF inv]
  have owes: "unat (total_claimable a) \<le> bal (ledger w) (vault_key e m)" if "assets w m = Some a" for m a
    using d(3) d(6,7) [OF that] that d(1) by (auto simp: solvent_def owed_def)
  have ms: "distinct ?ms" "set ?ms \<subseteq> S"
    "\<forall>m\<in>set ?ms. \<exists>a. assets w m = Some a \<and> ac_asset_mint a = m \<and> unat (total_claimable a) \<le> bal (ledger w) (vault_key e m)"
    using inv owes d(5) by (auto simp: grai_inv_def registry_inv_def)
  obtain x where x: "mints (ledger w) (gs_grai_mint (grai_state w)) = Some x" "mi_authority x = Some (gs_key e)"
    using inv by (auto simp: grai_inv_def registry_inv_def)
  obtain l where l: "sweep_quints e ?rem ?ms w = Ok (w\<lparr>ledger := l\<rparr>)" "executable l = executable (ledger w)"
      "program_owner l = program_owner (ledger w)"
      "\<forall>m\<in>set ?ms. swept e ?gr (unat (total_claimable (the (assets w m)))) m (ledger w) l"
    using sweep_all [OF assms(2) live(1) ms(1,2) s ms(3)] by blast
  obtain l' where h: "heartbeat_cpi e prog ?gr (gs_key e) l = Some l'"
    using live(2) p l(2,3) unfolding heartbeat_live_def by metis
  have same: "bal l' k = bal l k" for k
    by (rule bal_cong) (rule system_lawD(7) [OF good_envD(1) [OF assms(2)] h, THEN conjunct1])
  have b: "bind_quints e ?gr ?rem ?ms w = Ok ()" using s ms(3) by (intro bind_all) blast
  have p': "executable l prog" "program_owner l ?gr = prog" using p l(2,3) by simp_all
  note acc = accounts_Revive_run [OF assms(4) x, unfolded d(1)]
  obtain tv where r: "execute_revive e ?gr prog gm ?rem w = Ok (w\<lparr>ledger := l',
      grai_state := (grai_state w)\<lparr>total_value := tv, liquidation := False, liquidation_at := 0\<rparr>\<rparr>)"
    using execute_revive_run [OF acc refl open' t length_revive_accounts b l(1) p' h] by (rule exE)
  have "swept e ?gr (unat (total_claimable a)) m (ledger w) l" if "assets w m = Some a" for m a
    using l(4) d(8) [of m] that by force
  then show ?thesis using r same by (simp add: swept_def)
qed

lemma ref_payouts_live: "payouts_live late_env"
  by (simp add: payouts_live_def late_env_def ref_env_sel ref_transfer_def checked_add_def unat_le_iff
      word_le_nat_alt)

text \<open>Somebody sends 700 units to the vault of asset 7, beyond what its lockers accrued.\<close>

definition funded_world :: world where
  "funded_world = late_world\<lparr>ledger := (ledger late_world)\<lparr>token_accounts := (token_accounts (ledger late_world))
     (tagged 7 3 \<mapsto> \<lparr> tk_mint = 7, tk_owner = 1, tk_amount = 500700 \<rparr>)\<rparr>\<rparr>"

lemma funded_run: "grai_run ref_env {7, 11} 11 funded_world"
  unfolding funded_world_def
  by (rule grai_run.others [OF late_run])
    (simp add: lflow_def mint_kept_def vault_kept_def bal_def late_world_def open_world_def sample_world_def
      upd_state_def ref_simps)

lemmas funded_simps = funded_world_def late_world_def open_world_def sample_world_def late_env_def upd_state_def

lemma funded_facts:
  "gs_grinders (grai_state funded_world) = 10" "asset_mints (grai_state funded_world) = [7]"
  "liquidation (grai_state funded_world)" "liquidation_at (grai_state funded_world) = 2000"
  "check_grai_state late_env funded_world = Ok ()" "executable (ledger funded_world) 0"
  "program_owner (ledger funded_world) 10 = 0" "map_option total_claimable (assets funded_world 7) = Some 500000"
  "sweepable late_env 10 (ledger funded_world) 7"
  "bal (ledger funded_world) (tagged 7 3) = 500700" "bal (ledger funded_world) (ref_ata 10 7) = 1000000000"
  "sample_revive = Revive 10 0 11 (revive_accounts late_env 10 (\<lambda>_. tagged 7 9) [7])"
  by (simp_all add: funded_simps check_grai_state_def sweepable_def sample_revive_def ref_simps)

lemma funded_unlock:
  "\<exists>t. revive_unlock_at (grai_state funded_world) = Ok t \<and> sint t \<le> sint (unix_timestamp late_env)"
  by (simp add: funded_simps revive_unlock_at_def DEFAULT_LIQUIDATION_PERIOD_def DEFAULT_REDEEM_PERIOD_def
      checked_sadd_def ref_simps)

lemma revive_live_witness:
  "\<exists>w. dispatch late_env sample_revive funded_world = Ok w \<and> \<not> liquidation (grai_state w) \<and>
     bal (ledger w) (tagged 7 3) = 500000 \<and> bal (ledger w) (ref_ata 10 7) = 1000000700"
proof -
  obtain t where t: "revive_unlock_at (grai_state funded_world) = Ok t" "sint t \<le> sint (unix_timestamp late_env)"
    using funded_unlock by blast
  obtain a where a: "assets funded_world 7 = Some a" "total_claimable a = 500000" using funded_facts(8) by auto
  have k: "heartbeat_live late_env 10 0" "vault_key late_env 7 = tagged 7 3" "ata late_env 10 7 = ref_ata 10 7"
    by (simp_all add: heartbeat_live_def late_env_def ref_env_sel)
  from revive_live [OF funded_run late_laws funded_facts(5) ref_payouts_live _ funded_facts(3) _ t funded_facts(6),
      of "\<lambda>_. tagged 7 9", unfolded funded_facts(1,2)] k(1) funded_facts(4,7,9)
  obtain w where w: "dispatch late_env (Revive 10 0 11 (revive_accounts late_env 10 (\<lambda>_. tagged 7 9) [7])) funded_world = Ok w"
    "\<not> liquidation (grai_state w)"
    and swept: "\<forall>m a. assets funded_world m = Some a \<longrightarrow> bal (ledger w) (vault_key late_env m) = unat (total_claimable a) \<and>
         bal (ledger w) (ata late_env 10 m) + unat (total_claimable a) =
           bal (ledger funded_world) (ata late_env 10 m) + bal (ledger funded_world) (vault_key late_env m)"
    by auto
  have "bal (ledger w) (tagged 7 3) = unat (total_claimable a)" "bal (ledger w) (ref_ata 10 7) + unat (total_claimable a) =
       bal (ledger funded_world) (ref_ata 10 7) + bal (ledger funded_world) (tagged 7 3)"
    using swept [rule_format, OF a(1)] unfolding k(2,3) by blast+
  then show ?thesis unfolding funded_facts(12) using w a(2) funded_facts(10,11) by (intro exI [of _ w]) simp
qed

end
