(* ===== verification/Grs_Types.thy ===== *)
theory Grs_Types
  imports Grai_World Bytes
begin

text \<open>
  The GRS program (a LayerZero OFT with token sales and vesting): constants and errors of
  \<open>lib.rs\<close> and \<open>errors.rs\<close>, the accounts of \<open>state/\<close> and the pure functions on them - decimal
  conversion, the rate limiter, executor options, the peer registry, the cost of a sale, the
  vesting schedule and the bounds of a page.
\<close>

section \<open>Constants and errors\<close>

definition GRS_PROGRAM_ID :: pubkey where
  "GRS_PROGRAM_ID = 0x988e13a9a86f4546fea2b5c1893c642b3baa82394ab03cfad66600e439ed42a0"

definition GRS_LOCAL_DECIMALS :: u8 where "GRS_LOCAL_DECIMALS = 9"
definition GRS_SHARED_DECIMALS :: u8 where "GRS_SHARED_DECIMALS = 6"
definition GRS_LD2SD_RATE :: u64 where "GRS_LD2SD_RATE = 1000"
definition GRS_ONE_LD :: u64 where "GRS_ONE_LD = 1000000000"
definition GRS_MAX_SUPPLY_LD :: u64 where "GRS_MAX_SUPPLY_LD = 1000000000 * GRS_ONE_LD"
definition GRS_MAX_CLIFF_SECONDS :: u64 where "GRS_MAX_CLIFF_SECONDS = 365 * 24 * 60 * 60"
definition GRS_MAX_DURATION_SECONDS :: u64 where "GRS_MAX_DURATION_SECONDS = 4 * 365 * 24 * 60 * 60"
definition DEFAULT_LZ_RECEIVE_GAS :: u128 where "DEFAULT_LZ_RECEIVE_GAS = 200000"
definition GRS_MAX_PEERS :: nat where "GRS_MAX_PEERS = 16"

datatype (plugins only: code size) OFTError =
    OFT_Unauthorized | InvalidSender | InvalidDecimals | SlippageExceeded | InvalidTokenDest
  | RateLimitExceeded | InvalidFee | InvalidOptions | InvalidMintAuthority | OFT_Paused
  | GenesisDisabled | InvalidGrsDecimals | NonZeroSupply | CapExceeded | TooManyPeers
  | InstantNotVest | OFT_ZeroAmount | InvalidRecipient | InvalidSchedule | NothingToRelease
  | NotHome | NotSpoke | UnknownSale | UnknownVesting | SaleClosed | InvalidAssetAmount
  | SaleExceeded | InvalidPayment | PaymentFailed | BucketExceeded | InsufficientInventory
  | InvalidSaleMessage | ComposeDisabled | InvalidSaleId | InvalidVestingId
  | OFT_InvalidRemainingAccounts | OFT_InvalidPendingOwner

type_synonym 'a gres = "(OFTError, 'a) result"

text \<open>A byte array of length 32; \<open>Pubkey::from\<close> and \<open>to_bytes\<close> are the identity on it.\<close>

type_synonym bytes32 = pubkey

section \<open>\<open>state/oft.rs\<close>\<close>

datatype OFTType = Native | Adapter

record OFTStore =
  oft_type :: OFTType
  ld2sd_rate :: u64
  os_token_mint :: pubkey
  os_token_escrow :: pubkey
  endpoint_program :: pubkey
  os_bump :: u8
  tvl_ld :: u64
  os_admin :: pubkey
  os_pending_owner :: pubkey
  default_fee_bps :: u16
  os_paused :: bool
  pauser :: "pubkey option"
  unpauser :: "pubkey option"

text \<open>Division and remainder by zero panic, and so do overflow and underflow.\<close>

definition ld2sd :: "OFTStore \<Rightarrow> u64 \<Rightarrow> u64 gres" where
  "ld2sd s amount_ld = or_panic (checked_div amount_ld (ld2sd_rate s))"

definition sd2ld :: "OFTStore \<Rightarrow> u64 \<Rightarrow> u64 gres" where
  "sd2ld s amount_sd = or_panic (checked_mul amount_sd (ld2sd_rate s))"

definition remove_dust :: "OFTStore \<Rightarrow> u64 \<Rightarrow> u64 gres" where
  "remove_dust s amount_ld =
     (if ld2sd_rate s = 0 then Inl Panic
      else or_panic (checked_sub amount_ld (amount_ld mod ld2sd_rate s)))"

record LzReceiveTypesAccounts =
  lt_oft_store :: pubkey
  lt_token_mint :: pubkey
  lt_grs_config :: pubkey

section \<open>\<open>state/grs.rs\<close>\<close>

record GrsConfig =
  home_eid :: u32
  home_address :: pubkey
  genesis_minted :: bool
  gc_bump :: u8
  vesting_count :: u64
  token_sales_spent :: u64
  sales_reserved :: u64

definition is_home :: "GrsConfig \<Rightarrow> bool" where
  "is_home c \<longleftrightarrow> home_eid c = 0"

definition free_sale_inventory :: "GrsConfig \<Rightarrow> u64 \<Rightarrow> u64" where
  "free_sale_inventory c escrow_amount = saturating_sub escrow_amount (sales_reserved c)"

section \<open>\<open>state/peer_config.rs\<close>\<close>

record RateLimiter =
  capacity :: u64
  rl_tokens :: u64
  refill_per_second :: u64
  last_refill_time :: u64

definition default_limiter :: RateLimiter where
  "default_limiter = \<lparr> capacity = 0, rl_tokens = 0, refill_per_second = 0, last_refill_time = 0 \<rparr>"

text \<open>\<open>Clock::get()?.unix_timestamp.try_into().unwrap()\<close>\<close>

definition clock_u64 :: "i64 \<Rightarrow> u64 gres" where
  "clock_u64 now = (if sint now < 0 then Inl Panic else Ok now)"

definition refill :: "i64 \<Rightarrow> u64 \<Rightarrow> RateLimiter \<Rightarrow> RateLimiter gres" where
  "refill now extra_tokens r =
     and_then (clock_u64 now) (\<lambda>current_time.
     and_then (if last_refill_time r < current_time
               then and_then (or_panic (checked_sub current_time (last_refill_time r))) (\<lambda>elapsed.
                    Ok (saturating_add extra_tokens (saturating_mul elapsed (refill_per_second r))))
               else Ok extra_tokens) (\<lambda>new_tokens.
     Ok (r\<lparr>rl_tokens := min (capacity r) (saturating_add (rl_tokens r) new_tokens),
           last_refill_time := current_time\<rparr>)))"

definition set_rate :: "i64 \<Rightarrow> u64 \<Rightarrow> RateLimiter \<Rightarrow> RateLimiter gres" where
  "set_rate now rate r =
     and_then (refill now 0 r) (\<lambda>r. Ok (r\<lparr>refill_per_second := rate\<rparr>))"

definition set_capacity :: "i64 \<Rightarrow> u64 \<Rightarrow> RateLimiter \<Rightarrow> RateLimiter gres" where
  "set_capacity now cap r =
     and_then (clock_u64 now) (\<lambda>t. Ok (r\<lparr>capacity := cap, rl_tokens := cap, last_refill_time := t\<rparr>))"

definition try_consume :: "i64 \<Rightarrow> u64 \<Rightarrow> RateLimiter \<Rightarrow> RateLimiter gres" where
  "try_consume now amount r =
     and_then (refill now 0 r) (\<lambda>r.
     case checked_sub (rl_tokens r) amount of
       Some new_tokens \<Rightarrow> Ok (r\<lparr>rl_tokens := new_tokens\<rparr>)
     | None \<Rightarrow> Err RateLimitExceeded)"

record EnforcedOptions =
  eo_send :: bytes
  eo_send_and_call :: bytes

definition default_options :: EnforcedOptions where
  "default_options = \<lparr> eo_send = [], eo_send_and_call = [] \<rparr>"

definition get_enforced_options :: "EnforcedOptions \<Rightarrow> bytes option \<Rightarrow> bytes" where
  "get_enforced_options opts composed_msg = (if composed_msg = None then eo_send opts else eo_send_and_call opts)"

text \<open>\<open>oapp::options::combine_options\<close> is LayerZero's and a parameter.\<close>

definition combine_options ::
  "(bytes \<Rightarrow> bytes \<Rightarrow> bytes gres) \<Rightarrow> EnforcedOptions \<Rightarrow> bytes option \<Rightarrow> bytes \<Rightarrow> bytes gres" where
  "combine_options oapp_combine opts compose_msg extra_options =
     oapp_combine (get_enforced_options opts compose_msg) extra_options"

text \<open>A Type-3 option: worker, size, kind, gas and, unless zero, value.\<close>

definition encode_executor_lz_receive_option :: "u128 \<Rightarrow> u128 \<Rightarrow> bytes" where
  "encode_executor_lz_receive_option gas value =
     (let option_payload = be_bytes 16 gas @ (if value \<noteq> 0 then be_bytes 16 value else []);
          option_size = (word_of_nat (length option_payload + 1) :: u16) in
      be_bytes 2 (3 :: u16) @ [1] @ be_bytes 2 option_size @ [1] @ option_payload)"

definition set_lz_receive_budget :: "u128 \<Rightarrow> u128 \<Rightarrow> EnforcedOptions \<Rightarrow> EnforcedOptions" where
  "set_lz_receive_budget gas value opts =
     (let budget = encode_executor_lz_receive_option gas value in
      opts\<lparr>eo_send := budget, eo_send_and_call := budget\<rparr>)"

record PeerConfig =
  peer_address :: bytes32
  enforced_options :: EnforcedOptions
  outbound_rate_limiter :: "RateLimiter option"
  inbound_rate_limiter :: "RateLimiter option"
  fee_bps :: "u16 option"
  pc_bump :: u8

section \<open>\<open>state/peer_registry.rs\<close>\<close>

type_synonym PeerEntry = "u32 \<times> bytes32"

record PeerRegistry =
  pr_oft_store :: pubkey
  pr_bump :: u8
  entries :: "PeerEntry list"

fun entry_at :: "u32 \<Rightarrow> PeerEntry list \<Rightarrow> nat option" where
  "entry_at eid [] = None"
| "entry_at eid (x # xs) = (if fst x = eid then Some 0 else map_option Suc (entry_at eid xs))"

text \<open>\<open>Vec::swap_remove\<close>\<close>

definition swap_remove :: "nat \<Rightarrow> 'a list \<Rightarrow> 'a list" where
  "swap_remove i xs = butlast (xs[i := last xs])"

definition upsert :: "u32 \<Rightarrow> bytes32 \<Rightarrow> PeerRegistry \<Rightarrow> PeerRegistry gres" where
  "upsert eid peer r =
     (case entry_at eid (entries r) of
        Some i \<Rightarrow>
          Ok (r\<lparr>entries := (if peer = 0 then swap_remove i (entries r) else (entries r)[i := (eid, peer)])\<rparr>)
      | None \<Rightarrow>
          if peer = 0 then Ok r
          else and_then (require (length (entries r) < GRS_MAX_PEERS) TooManyPeers) (\<lambda>_.
               Ok (r\<lparr>entries := entries r @ [(eid, peer)]\<rparr>)))"

section \<open>\<open>state/sale.rs\<close>\<close>

record Sale =
  sl_asset :: pubkey
  sl_asset_amount :: u64
  sl_grs_amount :: u64
  sl_recipient :: pubkey

definition closed_sale :: Sale where
  "closed_sale = \<lparr> sl_asset = default_pubkey, sl_asset_amount = 0, sl_grs_amount = 0,
                   sl_recipient = default_pubkey \<rparr>"

record SaleAccount =
  sa_id :: u64
  sa_oft_store :: pubkey
  sa_asset :: pubkey
  sa_asset_amount :: u64
  sa_grs_amount :: u64
  sa_recipient :: pubkey
  sa_bump :: u8

definition row :: "SaleAccount \<Rightarrow> Sale" where
  "row a = \<lparr> sl_asset = sa_asset a, sl_asset_amount = sa_asset_amount a,
             sl_grs_amount = sa_grs_amount a, sl_recipient = sa_recipient a \<rparr>"

definition write_row :: "pubkey \<Rightarrow> u64 \<Rightarrow> u64 \<Rightarrow> pubkey \<Rightarrow> SaleAccount \<Rightarrow> SaleAccount" where
  "write_row asset asset_amount grs_amount recipient a =
     a\<lparr>sa_asset := asset, sa_asset_amount := asset_amount, sa_grs_amount := grs_amount,
       sa_recipient := recipient\<rparr>"

record SaleRegistry =
  sr_oft_store :: pubkey
  sr_bump :: u8
  sale_count :: u64

definition quote_cost :: "u64 \<Rightarrow> u64 \<Rightarrow> u64 \<Rightarrow> u64 gres" where
  "quote_cost amount_ld remaining_ld asset_amount =
     and_then (require (0 < asset_amount \<and> 0 < remaining_ld) SaleClosed) (\<lambda>_.
     and_then (require (0 < amount_ld) OFT_ZeroAmount) (\<lambda>_.
     and_then (require (amount_ld \<le> remaining_ld) SaleExceeded) (\<lambda>_.
     if amount_ld = remaining_ld then Ok asset_amount
     else
       and_then (ok_or (checked_mul (ucast amount_ld :: u128) (ucast asset_amount)) InvalidPayment) (\<lambda>x.
       let cost = x div ucast remaining_ld in
       and_then (require (0 < cost) OFT_ZeroAmount) (\<lambda>_.
       and_then (require (cost \<le> ucast u64_max) InvalidPayment) (\<lambda>_.
       Ok (ucast cost)))))))"

section \<open>\<open>state/vesting.rs\<close>\<close>

record Vesting =
  ve_id :: u64
  ve_oft_store :: pubkey
  funder :: pubkey
  beneficiary :: pubkey
  allocation_ld :: u64
  released_ld :: u64
  ve_start :: u64
  cliff_end :: u64
  ve_end :: u64
  ve_bump :: u8

text \<open>The product and the differences cannot overflow: the branches before exclude it.\<close>

definition vested_at :: "Vesting \<Rightarrow> u64 \<Rightarrow> u64" where
  "vested_at v timestamp =
     (if timestamp < cliff_end v then 0
      else if ve_end v \<le> cliff_end v \<or> ve_end v \<le> timestamp then allocation_ld v
      else ucast ((ucast (allocation_ld v) :: u128) * ucast (timestamp - cliff_end v)
                    div ucast (ve_end v - cliff_end v)))"

definition releasable_at :: "Vesting \<Rightarrow> u64 \<Rightarrow> u64" where
  "releasable_at v timestamp = saturating_sub (vested_at v timestamp) (released_ld v)"

definition now_ts :: "i64 \<Rightarrow> u64 gres" where
  "now_ts now = (if sint now < 0 then Err InvalidSchedule else Ok now)"

section \<open>\<open>state/page.rs\<close>\<close>

definition page_bounds :: "OFTError \<Rightarrow> u64 \<Rightarrow> u64 \<Rightarrow> u64 \<Rightarrow> (nat \<times> nat) gres" where
  "page_bounds unknown len offset limit =
     and_then (require (0 < limit) OFT_ZeroAmount) (\<lambda>_.
     and_then (require (offset < len) unknown) (\<lambda>_.
     Ok (unat offset, unat (min (saturating_add offset limit) len))))"

definition sale_page_bounds :: "u64 \<Rightarrow> u64 \<Rightarrow> u64 \<Rightarrow> (nat \<times> nat) gres" where
  "sale_page_bounds = page_bounds UnknownSale"

definition vesting_page_bounds :: "u64 \<Rightarrow> u64 \<Rightarrow> u64 \<Rightarrow> (nat \<times> nat) gres" where
  "vesting_page_bounds = page_bounds UnknownVesting"

end
