(* ===== verification/Grs_Codec.thy ===== *)
theory Grs_Codec
  imports Grs_Types
begin

text \<open>
  The wire formats of the GRS program (\<open>msg_codec.rs\<close>, \<open>compose_msg_codec.rs\<close>): the OFT message,
  the sale and grant payloads, and the compose wrapper. Encoding and decoding of a payload are
  inverse to each other, and an OFT message without a compose part is neither payload.

  The two type tags are keccak hashes, of which the program computes with nothing but equality:
  \<open>keccak\<close> is a parameter.
\<close>

section \<open>\<open>msg_codec.rs\<close>\<close>

definition SEND_TO_OFFSET :: nat where "SEND_TO_OFFSET = 0"
definition SEND_AMOUNT_SD_OFFSET :: nat where "SEND_AMOUNT_SD_OFFSET = 32"
definition COMPOSE_MSG_OFFSET :: nat where "COMPOSE_MSG_OFFSET = 40"
definition SALE_MSG_LEN :: nat where "SALE_MSG_LEN = 192"
definition GRANT_MSG_LEN :: nat where "GRANT_MSG_LEN = 224"

type_synonym hash = "bytes \<Rightarrow> bytes32"

text \<open>\<open>b"GRS.sale"\<close> and \<open>b"GRS.grant"\<close>\<close>

definition sale_msg_type :: "hash \<Rightarrow> bytes32" where
  "sale_msg_type keccak = keccak [0x47, 0x52, 0x53, 0x2e, 0x73, 0x61, 0x6c, 0x65]"

definition grant_msg_type :: "hash \<Rightarrow> bytes32" where
  "grant_msg_type keccak = keccak [0x47, 0x52, 0x53, 0x2e, 0x67, 0x72, 0x61, 0x6e, 0x74]"

definition u256_be_from_u64 :: "u64 \<Rightarrow> bytes" where
  "u256_be_from_u64 v = replicate 24 0 @ be_bytes 8 v"

definition u64_from_u256_be :: "bytes \<Rightarrow> u64 gres" where
  "u64_from_u256_be word =
     and_then (require (length word = 32) InvalidSaleMessage) (\<lambda>_.
     and_then (require (\<forall>b\<in>set (take 24 word). b = 0) InvalidSaleMessage) (\<lambda>_.
     Ok (be_word (slice 24 32 word))))"

definition is_sale :: "hash \<Rightarrow> bytes \<Rightarrow> bool" where
  "is_sale keccak message \<longleftrightarrow>
     length message = SALE_MSG_LEN \<and> slice 0 32 message = be_bytes 32 (sale_msg_type keccak)"

definition is_grant :: "hash \<Rightarrow> bytes \<Rightarrow> bool" where
  "is_grant keccak message \<longleftrightarrow>
     length message = GRANT_MSG_LEN \<and> slice 0 32 message = be_bytes 32 (grant_msg_type keccak)"

definition encode_sale :: "hash \<Rightarrow> u64 \<Rightarrow> pubkey \<Rightarrow> u64 \<Rightarrow> u64 \<Rightarrow> pubkey \<Rightarrow> bytes" where
  "encode_sale keccak sid asset asset_amount grs_amount recipient =
     be_bytes 32 (sale_msg_type keccak) @ u256_be_from_u64 sid @ be_bytes 32 asset @
     u256_be_from_u64 asset_amount @ u256_be_from_u64 (grs_amount div GRS_LD2SD_RATE) @
     be_bytes 32 recipient"

definition encode_grant :: "hash \<Rightarrow> pubkey \<Rightarrow> u64 \<Rightarrow> u64 \<Rightarrow> u64 \<Rightarrow> u64 \<Rightarrow> u8 \<Rightarrow> bytes" where
  "encode_grant keccak to amount_ld start cliff_seconds duration_seconds bucket =
     be_bytes 32 (grant_msg_type keccak) @ be_bytes 32 to @
     u256_be_from_u64 (amount_ld div GRS_LD2SD_RATE) @ u256_be_from_u64 start @
     u256_be_from_u64 cliff_seconds @ u256_be_from_u64 duration_seconds @
     u256_be_from_u64 (ucast bucket)"

definition decode_sale :: "hash \<Rightarrow> bytes \<Rightarrow> (u64 \<times> pubkey \<times> u64 \<times> u64 \<times> pubkey) gres" where
  "decode_sale keccak message =
     and_then (require (is_sale keccak message) InvalidSaleMessage) (\<lambda>_.
     and_then (u64_from_u256_be (slice 32 64 message)) (\<lambda>sid.
     and_then (require (sid \<noteq> 0) InvalidSaleMessage) (\<lambda>_.
     let asset = be_word (slice 64 96 message) in
     and_then (u64_from_u256_be (slice 96 128 message)) (\<lambda>asset_amount.
     and_then (u64_from_u256_be (slice 128 160 message)) (\<lambda>grs_sd.
     and_then (ok_or (checked_mul grs_sd GRS_LD2SD_RATE) InvalidSaleMessage) (\<lambda>grs_amount.
     let recipient = be_word (slice 160 192 message) in
     Ok (sid, asset, asset_amount, grs_amount, recipient)))))))"

definition decode_grant :: "hash \<Rightarrow> bytes \<Rightarrow> (pubkey \<times> u64 \<times> u64 \<times> u64 \<times> u64 \<times> u8) gres" where
  "decode_grant keccak message =
     and_then (require (is_grant keccak message) InvalidSaleMessage) (\<lambda>_.
     let to = be_word (slice 32 64 message) in
     and_then (u64_from_u256_be (slice 64 96 message)) (\<lambda>amount_sd.
     and_then (ok_or (checked_mul amount_sd GRS_LD2SD_RATE) InvalidSaleMessage) (\<lambda>amount_ld.
     and_then (u64_from_u256_be (slice 96 128 message)) (\<lambda>start.
     and_then (u64_from_u256_be (slice 128 160 message)) (\<lambda>cliff_seconds.
     and_then (u64_from_u256_be (slice 160 192 message)) (\<lambda>duration_seconds.
     and_then (u64_from_u256_be (slice 192 224 message)) (\<lambda>bucket.
     and_then (require (bucket \<le> 11) InvalidSaleMessage) (\<lambda>_.
     Ok (to, amount_ld, start, cliff_seconds, duration_seconds, ucast bucket)))))))))"

definition encode :: "bytes32 \<Rightarrow> u64 \<Rightarrow> pubkey \<Rightarrow> bytes option \<Rightarrow> bytes" where
  "encode send_to amount_sd sender compose_msg =
     (case compose_msg of
        Some msg \<Rightarrow> be_bytes 32 send_to @ be_bytes 8 amount_sd @ be_bytes 32 sender @ msg
      | None \<Rightarrow> be_bytes 32 send_to @ be_bytes 8 amount_sd)"

text \<open>\<open>&message[from..to]\<close>, which panics out of range.\<close>

definition index_range :: "nat \<Rightarrow> nat \<Rightarrow> bytes \<Rightarrow> bytes gres" where
  "index_range from to message =
     (if from \<le> to \<and> to \<le> length message then Ok (slice from to message) else Inl Panic)"

definition send_to :: "bytes \<Rightarrow> bytes32 gres" where
  "send_to message =
     and_then (index_range SEND_TO_OFFSET SEND_AMOUNT_SD_OFFSET message) (\<lambda>b. Ok (be_word b))"

definition amount_sd :: "bytes \<Rightarrow> u64 gres" where
  "amount_sd message =
     and_then (index_range SEND_AMOUNT_SD_OFFSET COMPOSE_MSG_OFFSET message) (\<lambda>b. Ok (be_word b))"

definition compose_msg :: "hash \<Rightarrow> bytes \<Rightarrow> bytes option" where
  "compose_msg keccak message =
     (if is_sale keccak message \<or> is_grant keccak message then None
      else if COMPOSE_MSG_OFFSET < length message then Some (drop COMPOSE_MSG_OFFSET message)
      else None)"

section \<open>\<open>compose_msg_codec.rs\<close>\<close>

definition NONCE_OFFSET :: nat where "NONCE_OFFSET = 0"
definition SRC_EID_OFFSET :: nat where "SRC_EID_OFFSET = 8"
definition AMOUNT_LD_OFFSET :: nat where "AMOUNT_LD_OFFSET = 12"
definition COMPOSE_FROM_OFFSET :: nat where "COMPOSE_FROM_OFFSET = 20"
definition COMPOSE_COMPOSE_MSG_OFFSET :: nat where "COMPOSE_COMPOSE_MSG_OFFSET = 52"

definition compose_encode :: "u64 \<Rightarrow> u32 \<Rightarrow> u64 \<Rightarrow> bytes \<Rightarrow> bytes" where
  "compose_encode nonce src_eid amount_ld payload =
     be_bytes 8 nonce @ be_bytes 4 src_eid @ be_bytes 8 amount_ld @ payload"

definition compose_nonce :: "bytes \<Rightarrow> u64 gres" where
  "compose_nonce message =
     and_then (index_range NONCE_OFFSET SRC_EID_OFFSET message) (\<lambda>b. Ok (be_word b))"

definition compose_src_eid :: "bytes \<Rightarrow> u32 gres" where
  "compose_src_eid message =
     and_then (index_range SRC_EID_OFFSET AMOUNT_LD_OFFSET message) (\<lambda>b. Ok (be_word b))"

definition compose_amount_ld :: "bytes \<Rightarrow> u64 gres" where
  "compose_amount_ld message =
     and_then (index_range AMOUNT_LD_OFFSET COMPOSE_FROM_OFFSET message) (\<lambda>b. Ok (be_word b))"

definition compose_from :: "bytes \<Rightarrow> bytes32 gres" where
  "compose_from message =
     and_then (index_range COMPOSE_FROM_OFFSET COMPOSE_COMPOSE_MSG_OFFSET message) (\<lambda>b. Ok (be_word b))"

definition compose_compose_msg :: "bytes \<Rightarrow> bytes" where
  "compose_compose_msg message =
     (if COMPOSE_COMPOSE_MSG_OFFSET < length message then drop COMPOSE_COMPOSE_MSG_OFFSET message else [])"

section \<open>Facts\<close>

lemmas offsets = SEND_TO_OFFSET_def SEND_AMOUNT_SD_OFFSET_def COMPOSE_MSG_OFFSET_def
  SALE_MSG_LEN_def GRANT_MSG_LEN_def NONCE_OFFSET_def SRC_EID_OFFSET_def AMOUNT_LD_OFFSET_def
  COMPOSE_FROM_OFFSET_def COMPOSE_COMPOSE_MSG_OFFSET_def

lemmas fields = slice_append_drop slice_append_take slice_all

lemma u256_length [simp]: "length (u256_be_from_u64 v) = 32"
  by (simp add: u256_be_from_u64_def)

lemma u256_roundtrip [simp]: "u64_from_u256_be (u256_be_from_u64 v) = Ok v"
  by (simp add: u64_from_u256_be_def u256_be_from_u64_def fields require_def)

text \<open>A decoded word is the encoding of its value: the padding is checked.\<close>

lemma u256_decoded:
  assumes "u64_from_u256_be b = Ok v"
  shows "b = u256_be_from_u64 v"
proof -
  have l: "length b = 32" and z: "\<forall>x\<in>set (take 24 b). x = 0" and v: "v = be_word (slice 24 32 b)"
    using assms by (auto simp: u64_from_u256_be_def and_then_Ok_iff require_Ok_iff)
  have "take 24 b = replicate 24 0" using z l by (intro replicate_eqI) auto
  moreover have "drop 24 b = be_bytes 8 v"
    using be_bytes_word [of "drop 24 b", where ?'a = 64] l by (simp add: v slice_def)
  ultimately show ?thesis
    unfolding u256_be_from_u64_def by (metis append_take_drop_id)
qed

lemma encode_sale_is_sale [simp]: "is_sale k (encode_sale k sid asset aa g r)"
  by (simp add: is_sale_def encode_sale_def offsets fields)

lemma encode_grant_is_grant [simp]: "is_grant k (encode_grant k to a st cl du bu)"
  by (simp add: is_grant_def encode_grant_def offsets fields)

lemma rate_mul:
  "checked_mul (g div GRS_LD2SD_RATE) GRS_LD2SD_RATE = Some (g - g mod GRS_LD2SD_RATE)"
proof -
  have "unat g div 1000 * 1000 \<le> unat g" by simp
  then have "unat g div 1000 * 1000 < 18446744073709551616" using unat_u64_bound [of g] by linarith
  moreover have "g div 1000 * 1000 = g - g mod 1000"
    by (metis add_diff_cancel_right' div_mult_mod_eq word_mod_div_equality)
  ultimately show ?thesis by (simp add: checked_mul_def GRS_LD2SD_RATE_def unat_div_word)
qed

lemma encode_plain_length [simp]: "length (encode to a s None) = 40"
  by (simp add: encode_def)

lemma rate_div: "(a * GRS_LD2SD_RATE) div GRS_LD2SD_RATE = a" if "checked_mul a GRS_LD2SD_RATE = Some b"
  using that unat_u64_bound [of b]
  by (simp add: checked_mul_Some GRS_LD2SD_RATE_def unat_eq_iff unat_word_ariths unat_div_word)

text \<open>A message is its 32-byte words.\<close>

lemma split_word: "a + 32 \<le> b \<Longrightarrow> slice a b xs = slice a (a + 32) xs @ slice (a + 32) b xs"
  by (rule slice_join [symmetric]) simp_all

lemma be_bytes_key: "length b = 32 \<Longrightarrow> be_bytes 32 (be_word b :: pubkey) = b"
  using be_bytes_word [of b, where ?'a = 256] by simp

section \<open>Round trips\<close>

lemma decode_sale_encode:
  assumes "sid \<noteq> 0"
  shows "decode_sale k (encode_sale k sid asset aa g r) = Ok (sid, asset, aa, g - g mod GRS_LD2SD_RATE, r)"
proof -
  let ?m = "encode_sale k sid asset aa g r"
  have f: "slice 32 64 ?m = u256_be_from_u64 sid" "slice 64 96 ?m = be_bytes 32 asset"
    "slice 96 128 ?m = u256_be_from_u64 aa" "slice 128 160 ?m = u256_be_from_u64 (g div GRS_LD2SD_RATE)"
    "slice 160 192 ?m = be_bytes 32 r"
    by (simp_all add: encode_sale_def fields)
  show ?thesis using assms by (simp add: decode_sale_def f rate_mul)
qed

lemma decode_grant_encode:
  assumes "bucket \<le> 11"
  shows "decode_grant k (encode_grant k to a st cl du bucket) = Ok (to, a - a mod GRS_LD2SD_RATE, st, cl, du, bucket)"
proof -
  let ?m = "encode_grant k to a st cl du bucket"
  have f: "slice 32 64 ?m = be_bytes 32 to" "slice 64 96 ?m = u256_be_from_u64 (a div GRS_LD2SD_RATE)"
    "slice 96 128 ?m = u256_be_from_u64 st" "slice 128 160 ?m = u256_be_from_u64 cl"
    "slice 160 192 ?m = u256_be_from_u64 du" "slice 192 224 ?m = u256_be_from_u64 (ucast bucket)"
    by (simp_all add: encode_grant_def fields)
  have b: "(ucast bucket :: u64) \<le> 11" "(ucast (ucast bucket :: u64) :: u8) = bucket"
    using assms by (simp_all add: unat_le_iff unat_eq_iff unat_ucast_widen unat_ucast_fits)
  show ?thesis by (simp add: decode_grant_def f rate_mul b)
qed

end
