(* ===== verification/Grs_Facts.thy ===== *)
theory Grs_Facts
  imports Grs_Codec
begin

text \<open>
  The pure functions of the GRS program on natural numbers: what a decoded message can be, how
  much a rate limiter lets through, what a lot costs, and how a vesting unlocks.
\<close>

section \<open>Messages\<close>

lemma decode_sale_only:
  assumes "decode_sale k m = Ok (sid, asset, aa, g, r)"
  shows "m = encode_sale k sid asset aa g r" "sid \<noteq> 0" "g mod GRS_LD2SD_RATE = 0"
proof -
  obtain s where t: "is_sale k m" and i: "u64_from_u256_be (slice 32 64 m) = Ok sid" and n: "sid \<noteq> 0"
    and a: "asset = be_word (slice 64 96 m)" and aa: "u64_from_u256_be (slice 96 128 m) = Ok aa"
    and s: "u64_from_u256_be (slice 128 160 m) = Ok s" and g: "checked_mul s GRS_LD2SD_RATE = Some g"
    and r: "r = be_word (slice 160 192 m)"
    using assms by (auto simp: decode_sale_def Let_def step_iffs)
  have l: "length m = 192" and h: "slice 0 32 m = be_bytes 32 (sale_msg_type k)"
    using t by (simp_all add: is_sale_def offsets)
  have sg: "s = g div GRS_LD2SD_RATE"
    using rate_div [OF g] g by (simp add: checked_mul_def split: if_splits)
  have "m = slice 0 192 m" using l by (simp add: slice_def)
  also have "\<dots> = slice 0 32 m @ slice 32 64 m @ slice 64 96 m @ slice 96 128 m @ slice 128 160 m @ slice 160 192 m"
    using split_word [of 0 192 m] split_word [of 32 192 m] split_word [of 64 192 m]
      split_word [of 96 192 m] split_word [of 128 192 m] by simp
  also have "\<dots> = encode_sale k sid asset aa g r"
    using u256_decoded [OF i] u256_decoded [OF aa] u256_decoded [OF s] l
    by (simp add: encode_sale_def h a r sg be_bytes_key)
  finally show "m = encode_sale k sid asset aa g r" .
  show "sid \<noteq> 0" by (rule n)
  have "unat g = unat s * 1000" using g by (simp add: checked_mul_Some GRS_LD2SD_RATE_def)
  then show "g mod GRS_LD2SD_RATE = 0" by (simp add: GRS_LD2SD_RATE_def unat_eq_iff unat_mod)
qed

lemma decode_grant_only:
  assumes "decode_grant k m = Ok (to, a, st, cl, du, bu)"
  shows "m = encode_grant k to a st cl du bu" "bu \<le> 11" "a mod GRS_LD2SD_RATE = 0"
proof -
  obtain s b where t: "is_grant k m" and to: "to = be_word (slice 32 64 m)"
    and s: "u64_from_u256_be (slice 64 96 m) = Ok s" and a: "checked_mul s GRS_LD2SD_RATE = Some a"
    and st: "u64_from_u256_be (slice 96 128 m) = Ok st" and cl: "u64_from_u256_be (slice 128 160 m) = Ok cl"
    and du: "u64_from_u256_be (slice 160 192 m) = Ok du" and b: "u64_from_u256_be (slice 192 224 m) = Ok b"
    and b11: "b \<le> 11" and bu: "bu = ucast b"
    using assms by (auto simp: decode_grant_def Let_def step_iffs)
  have l: "length m = 224" and h: "slice 0 32 m = be_bytes 32 (grant_msg_type k)"
    using t by (simp_all add: is_grant_def offsets)
  have sa: "s = a div GRS_LD2SD_RATE"
    using rate_div [OF a] a by (simp add: checked_mul_def split: if_splits)
  have ub: "unat bu = unat b" using b11 by (simp add: bu unat_le_iff unat_ucast_fits)
  have bb: "ucast bu = b" by (simp add: unat_eq_iff unat_ucast_widen ub)
  have "m = slice 0 224 m" using l by (simp add: slice_def)
  also have "\<dots> = slice 0 32 m @ slice 32 64 m @ slice 64 96 m @ slice 96 128 m @ slice 128 160 m @
      slice 160 192 m @ slice 192 224 m"
    using split_word [of 0 224 m] split_word [of 32 224 m] split_word [of 64 224 m]
      split_word [of 96 224 m] split_word [of 128 224 m] split_word [of 160 224 m] by simp
  also have "\<dots> = encode_grant k to a st cl du bu"
    using u256_decoded [OF s] u256_decoded [OF st] u256_decoded [OF cl] u256_decoded [OF du]
      u256_decoded [OF b] l
    by (simp add: encode_grant_def h to sa be_bytes_key bb)
  finally show "m = encode_grant k to a st cl du bu" .
  show "bu \<le> 11" using b11 ub by (simp add: unat_le_iff)
  have "unat a = unat s * 1000" using a by (simp add: checked_mul_Some GRS_LD2SD_RATE_def)
  then show "a mod GRS_LD2SD_RATE = 0" by (simp add: GRS_LD2SD_RATE_def unat_eq_iff unat_mod)
qed

text \<open>
  C36. The sale decoder accepts exactly the encodings of a row with a non-zero id and a dust-free
  amount, and gives that row back: a message has one meaning, and the padding of every word, the
  length and the tag are all checked.
\<close>

theorem decode_sale_exact:
  "decode_sale k m = Ok (sid, asset, asset_amount, grs_amount, recipient) \<longleftrightarrow>
   m = encode_sale k sid asset asset_amount grs_amount recipient \<and> sid \<noteq> 0 \<and> grs_amount mod GRS_LD2SD_RATE = 0"
  (is "?lhs \<longleftrightarrow> ?rhs")
proof
  assume h: "decode_sale k m = Ok (sid, asset, asset_amount, grs_amount, recipient)"
  show "?rhs" using decode_sale_only [OF h] by simp
qed (auto simp: decode_sale_encode)

text \<open>
  C37. The grant decoder accepts exactly the encodings of a grant with a known bucket and a
  dust-free amount, and gives that grant back.
\<close>

theorem decode_grant_exact:
  "decode_grant k m = Ok (to, amount_ld, start, cliff_seconds, duration_seconds, bucket) \<longleftrightarrow>
   m = encode_grant k to amount_ld start cliff_seconds duration_seconds bucket \<and> bucket \<le> 11 \<and>
   amount_ld mod GRS_LD2SD_RATE = 0" (is "?lhs \<longleftrightarrow> ?rhs")
proof
  assume h: "decode_grant k m = Ok (to, amount_ld, start, cliff_seconds, duration_seconds, bucket)"
  show "?rhs" using decode_grant_only [OF h] by simp
qed (auto simp: decode_grant_encode)

text \<open>
  An OFT transfer can pass for a sale or a grant only with a compose part of one exact length
  and the type tag as its recipient - which is why \<open>send\<close> refuses compose messages and both tags.
\<close>

lemma transfer_encoding:
  "\<not> is_sale k (encode to amount sender None) \<and> \<not> is_grant k (encode to amount sender None) \<and>
   (is_sale k (encode to amount sender (Some msg)) \<longleftrightarrow> to = sale_msg_type k \<and> length msg = 120) \<and>
   (is_grant k (encode to amount sender (Some msg)) \<longleftrightarrow> to = grant_msg_type k \<and> length msg = 152)"
proof -
  have inj: "be_bytes 32 x = be_bytes 32 y \<longleftrightarrow> x = (y :: pubkey)" for x y
    using be_word_key [of x] be_word_key [of y] by metis
  have s: "slice 0 32 (encode to amount sender (Some msg)) = be_bytes 32 to"
    by (simp add: encode_def fields)
  show ?thesis unfolding is_sale_def is_grant_def s inj by (auto simp: encode_def offsets)
qed

text \<open>A transfer read back: the recipient, the amount and the compose part.\<close>

lemma transfer_read_back:
  "send_to (encode to amount sender c) = Ok to" "amount_sd (encode to amount sender c) = Ok amount"
  by (simp_all add: send_to_def amount_sd_def index_range_def encode_def offsets fields split: option.split)

lemma compose_read_back:
  "compose_nonce (compose_encode n e a p) = Ok n" "compose_src_eid (compose_encode n e a p) = Ok e"
  "compose_amount_ld (compose_encode n e a p) = Ok a"
  by (simp_all add: compose_nonce_def compose_src_eid_def compose_amount_ld_def compose_encode_def
      index_range_def offsets fields)

section \<open>The rate limiter\<close>

text \<open>The limiter of one direction is consumed by its transfers and credited by the opposite ones.\<close>

datatype limiter_op = Consume u64 | Credit u64

definition limiter_step :: "i64 \<Rightarrow> limiter_op \<Rightarrow> RateLimiter \<Rightarrow> RateLimiter gres" where
  "limiter_step now op r = (case op of Consume n \<Rightarrow> try_consume now n r | Credit n \<Rightarrow> refill now n r)"

fun limiter_run :: "(i64 \<times> limiter_op) list \<Rightarrow> RateLimiter \<Rightarrow> RateLimiter gres" where
  "limiter_run [] r = Ok r"
| "limiter_run ((now, op) # ops) r = and_then (limiter_step now op r) (\<lambda>r. limiter_run ops r)"

fun consumed :: "(i64 \<times> limiter_op) list \<Rightarrow> nat" where
  "consumed [] = 0"
| "consumed ((now, Consume n) # ops) = unat n + consumed ops"
| "consumed ((now, Credit n) # ops) = consumed ops"

fun credited :: "(i64 \<times> limiter_op) list \<Rightarrow> nat" where
  "credited [] = 0"
| "credited ((now, Consume n) # ops) = credited ops"
| "credited ((now, Credit n) # ops) = unat n + credited ops"

text \<open>The times at which the operations ran, from the limiter's last refill, never going back.\<close>

fun clocked :: "nat \<Rightarrow> (i64 \<times> limiter_op) list \<Rightarrow> nat \<Rightarrow> bool" where
  "clocked t [] t' \<longleftrightarrow> t = t'"
| "clocked t ((now, op) # ops) t' \<longleftrightarrow> t \<le> unat now \<and> clocked (unat now) ops t'"

lemma refill_Ok:
  assumes "refill now n r = Ok r'"
  shows "unat (rl_tokens r') \<le> unat (rl_tokens r) + unat n + (unat now - unat (last_refill_time r)) * unat (refill_per_second r)"
    "rl_tokens r' \<le> capacity r'" "last_refill_time r' = now"
    "capacity r' = capacity r" "refill_per_second r' = refill_per_second r"
proof -
  obtain x where r': "r' = r\<lparr>rl_tokens := min (capacity r) (saturating_add (rl_tokens r) x), last_refill_time := now\<rparr>"
    and x: "unat x \<le> unat n + (unat now - unat (last_refill_time r)) * unat (refill_per_second r)"
  proof (cases "last_refill_time r < now")
    case True
    then obtain d where d: "checked_sub now (last_refill_time r) = Some d"
        "r' = r\<lparr>rl_tokens := min (capacity r) (saturating_add (rl_tokens r) (saturating_add n (saturating_mul d (refill_per_second r)))),
           last_refill_time := now\<rparr>"
      using assms by (auto simp: refill_def clock_u64_def step_iffs split: if_splits)
    moreover have "unat (saturating_add n (saturating_mul d (refill_per_second r))) \<le> unat n + unat d * unat (refill_per_second r)"
      by (simp add: unat_saturating_add unat_saturating_mul)
    moreover have "unat d = unat now - unat (last_refill_time r)" using d(1) by (simp add: checked_sub_Some)
    ultimately show thesis using that by metis
  next
    case False
    then have "r' = r\<lparr>rl_tokens := min (capacity r) (saturating_add (rl_tokens r) n), last_refill_time := now\<rparr>"
      using assms by (simp add: refill_def clock_u64_def step_iffs split: if_splits)
    then show thesis using that by simp
  qed
  show "rl_tokens r' \<le> capacity r'" "last_refill_time r' = now" "capacity r' = capacity r"
    "refill_per_second r' = refill_per_second r"
    by (simp_all add: r')
  show "unat (rl_tokens r') \<le> unat (rl_tokens r) + unat n + (unat now - unat (last_refill_time r)) * unat (refill_per_second r)"
    using x by (simp add: r' unat_min unat_saturating_add)
qed

lemma limiter_step_Ok:
  assumes "limiter_step now op r = Ok r'"
  shows "unat (rl_tokens r') + consumed [(now, op)] \<le> unat (rl_tokens r) + credited [(now, op)] +
      (unat now - unat (last_refill_time r)) * unat (refill_per_second r)"
    "unat (rl_tokens r') + consumed [(now, op)] \<le> unat (capacity r)" 
    "last_refill_time r' = now" "capacity r' = capacity r" "refill_per_second r' = refill_per_second r"
proof -
  show "unat (rl_tokens r') + consumed [(now, op)] \<le> unat (rl_tokens r) + credited [(now, op)] +
      (unat now - unat (last_refill_time r)) * unat (refill_per_second r)"
    "unat (rl_tokens r') + consumed [(now, op)] \<le> unat (capacity r)" 
    "last_refill_time r' = now" "capacity r' = capacity r" "refill_per_second r' = refill_per_second r"
    using assms refill_Ok [of now _ r]
    by (auto simp: limiter_step_def try_consume_def step_iffs checked_sub_Some unat_le_iff
        split: limiter_op.splits option.splits; fastforce)+
qed

text \<open>
  C23. Over any window of sends and receives, in the order of the clock, a rate limiter lets through
  at most its capacity, what the opposite direction credited and its rate times the length of the
  window; and it never holds more than its capacity.
\<close>

theorem rate_limiter_bounds_window:
  assumes "limiter_run ops r = Ok r'" "clocked (unat (last_refill_time r)) ops t"
    "rl_tokens r \<le> capacity r"
  shows "consumed ops + unat (rl_tokens r') \<le> unat (capacity r) + credited ops +
           (t - unat (last_refill_time r)) * unat (refill_per_second r) \<and>
         rl_tokens r' \<le> capacity r' \<and> capacity r' = capacity r"
proof -
  have "consumed ops + unat (rl_tokens r') \<le> unat (rl_tokens r) + credited ops +
           (t - unat (last_refill_time r)) * unat (refill_per_second r) \<and>
         rl_tokens r' \<le> capacity r' \<and> capacity r' = capacity r \<and> unat (last_refill_time r) \<le> t"
    using assms
  proof (induction ops arbitrary: r)
    case (Cons x ops)
    obtain now op where x: "x = (now, op)" by (cases x)
    obtain r1 where s: "limiter_step now op r = Ok r1" and rest: "limiter_run ops r1 = Ok r'"
      using Cons.prems(1) by (auto simp: x step_iffs)
    note f = limiter_step_Ok [OF s]
    have c: "unat (last_refill_time r) \<le> unat now" "clocked (unat (last_refill_time r1)) ops t"
      using Cons.prems(2) f(3) by (simp_all add: x)
    have "rl_tokens r1 \<le> capacity r1" using f(2,4) by (simp add: unat_le_iff)
    from Cons.IH [OF rest c(2) this]
    have i: "consumed ops + unat (rl_tokens r') \<le> unat (rl_tokens r1) + credited ops +
           (t - unat now) * unat (refill_per_second r)"
        "rl_tokens r' \<le> capacity r'" "capacity r' = capacity r" "unat now \<le> t"
      using f(3-5) by auto
    have "t - unat (last_refill_time r) = (unat now - unat (last_refill_time r)) + (t - unat now)"
      using c(1) i(4) by simp
    then have "(t - unat (last_refill_time r)) * unat (refill_per_second r) =
        (unat now - unat (last_refill_time r)) * unat (refill_per_second r) + (t - unat now) * unat (refill_per_second r)"
      by (simp only: distrib_right)
    moreover have "consumed (x # ops) = consumed [x] + consumed ops" "credited (x # ops) = credited [x] + credited ops"
      by (cases op; simp add: x)+
    ultimately show ?case using f(1) i c(1) by (simp add: x)
  qed simp
  then show ?thesis using assms(3) by (auto simp: unat_le_iff)
qed

definition sample_limiter :: RateLimiter where
  "sample_limiter = \<lparr> capacity = 100, rl_tokens = 40, refill_per_second = 3, last_refill_time = 1000 \<rparr>"

theorem rate_limiter_bounds_window_witness:
  "consumed [(1000, Consume 30), (1010, Credit 50), (1020, Consume 90)] = 120 \<and>
   (\<exists>r'. limiter_run [(1000, Consume 30), (1010, Credit 50), (1020, Consume 90)] sample_limiter = Ok r' \<and>
     120 + unat (rl_tokens r') \<le> 100 + 50 + 20 * 3)"
proof -
  let ?ops = "[(1000, Consume 30), (1010, Credit 50), (1020, Consume 90)]"
  obtain r' where r: "limiter_run ?ops sample_limiter = Ok r'"
    by (simp add: limiter_step_def sample_limiter_def try_consume_def refill_def clock_u64_def eval_simps)
  have "clocked (unat (last_refill_time sample_limiter)) ?ops 1020"
    "rl_tokens sample_limiter \<le> capacity sample_limiter"
    by (simp_all add: sample_limiter_def)
  from rate_limiter_bounds_window [OF r this] r show ?thesis by (simp add: sample_limiter_def)
qed

section \<open>The price of a lot\<close>

lemma quote_cost_Ok:
  assumes "quote_cost a R A = Ok c"
  shows "0 < unat a" "unat a \<le> unat R" "unat c = unat a * unat A div unat R" "0 < unat c" "unat c \<le> unat A"
    "unat a < unat R \<Longrightarrow> unat c < unat A"
proof -
  have b: "0 < unat A" "0 < unat R" "0 < unat a" "unat a \<le> unat R"
    using assms by (auto simp: quote_cost_def step_iffs unat_less_iff unat_le_iff)
  then show "0 < unat a" "unat a \<le> unat R" by simp_all
  have e: "unat c = unat a * unat A div unat R \<and> 0 < unat c"
  proof (cases "a = R")
    case True
    then have "c = A" using assms by (auto simp: quote_cost_def step_iffs)
    then show ?thesis using b True by simp
  next
    case False
    then show ?thesis using assms
      by (auto simp: quote_cost_def step_iffs Let_def checked_mul_Some nat_simps unat_ucast_u128_u64)
  qed
  then show "unat c = unat a * unat A div unat R" "0 < unat c" by simp_all
  have "unat a * unat A div unat R \<le> unat R * unat A div unat R" using b by (intro div_le_mono mult_le_mono1)
  then show "unat c \<le> unat A" using e b by simp
  show "unat c < unat A" if "unat a < unat R"
  proof -
    have "unat a * unat A < unat R * unat A" using that b by simp
    then show ?thesis using e b by (simp add: less_mult_imp_div_less mult.commute)
  qed
qed

text \<open>
  C24. A purchase costs its share of the lot rounded down and never nothing; a part of the lot never
  costs the whole price; the whole remainder costs exactly what is left; and the price per unit of
  what remains never drops, so no order of partial purchases is cheaper than one.
\<close>

theorem quote_cost_fair:
  assumes "quote_cost amount_ld remaining_ld asset_amount = Ok cost"
  shows "unat cost = unat amount_ld * unat asset_amount div unat remaining_ld \<and> 0 < unat cost \<and>
    (cost = asset_amount \<longleftrightarrow> amount_ld = remaining_ld) \<and>
    unat asset_amount * (unat remaining_ld - unat amount_ld) \<le> (unat asset_amount - unat cost) * unat remaining_ld"
proof -
  note f = quote_cost_Ok [OF assms]
  have "cost = asset_amount \<longleftrightarrow> amount_ld = remaining_ld"
  proof
    assume "cost = asset_amount"
    then have "\<not> unat amount_ld < unat remaining_ld" using f(6) by blast
    then show "amount_ld = remaining_ld" using f(2) by (simp add: unat_eq_iff)
  next
    assume "amount_ld = remaining_ld"
    then show "cost = asset_amount" using f(1,3) by (simp add: unat_eq_iff)
  qed
  moreover have "unat cost * unat remaining_ld \<le> unat amount_ld * unat asset_amount"
    using f(3) by simp
  ultimately show ?thesis
    using f by (simp add: diff_mult_distrib diff_mult_distrib2 diff_le_mono2 mult.commute)
qed

theorem quote_cost_fair_witness:
  "quote_cost 1000000000 3000000000 10 = Ok 3 \<and> unat (10 :: u64) * (3000000000 - 1000000000) \<le> (10 - 3) * 3000000000"
proof -
  have q: "quote_cost 1000000000 3000000000 10 = Ok 3" by (simp add: quote_cost_def eval_simps)
  show ?thesis using quote_cost_fair [OF q] q by simp
qed

section \<open>Vesting\<close>

definition vested_nat :: "nat \<Rightarrow> nat \<Rightarrow> nat \<Rightarrow> nat \<Rightarrow> nat" where
  "vested_nat allocation c e t =
     (if t < c then 0 else if e \<le> c \<or> e \<le> t then allocation else allocation * (t - c) div (e - c))"

lemma vested_nat_le: "vested_nat n c e t \<le> n"
proof (cases "t < c \<or> e \<le> c \<or> e \<le> t")
  case False
  then have "n * (t - c) div (e - c) \<le> n * (e - c) div (e - c)" by (intro div_le_mono mult_le_mono2) auto
  with False show ?thesis by (simp add: vested_nat_def)
qed (auto simp: vested_nat_def)

lemma vested_nat_mono: "t \<le> t' \<Longrightarrow> vested_nat n c e t \<le> vested_nat n c e t'"
proof (cases "t < c \<or> e \<le> c \<or> e \<le> t'")
  case True
  assume "t \<le> t'"
  with True show ?thesis using vested_nat_le [of n c e t] by (auto simp: vested_nat_def)
next
  case False
  assume "t \<le> t'"
  with False show ?thesis by (auto simp: vested_nat_def intro!: div_le_mono mult_le_mono2)
qed

lemma vested_at_nat:
  "unat (vested_at v t) = vested_nat (unat (allocation_ld v)) (unat (cliff_end v)) (unat (ve_end v)) (unat t)"
proof (cases "unat t < unat (cliff_end v) \<or> unat (ve_end v) \<le> unat (cliff_end v) \<or> unat (ve_end v) \<le> unat t")
  case False
  let ?n = "unat (allocation_ld v)" and ?d = "unat t - unat (cliff_end v)" and ?w = "unat (ve_end v) - unat (cliff_end v)"
  have d: "unat (t - cliff_end v) = ?d" "unat (ve_end v - cliff_end v) = ?w"
    using False by (simp_all add: unat_sub_if_size)
  have m: "unat ((ucast (allocation_ld v) :: u128) * ucast (t - cliff_end v)) = ?n * ?d"
    using u64_times_u64_fits [of "allocation_ld v" "t - cliff_end v"]
    by (simp add: unat_word_ariths unat_ucast_u64_u128 d)
  have l: "?n * ?d div ?w \<le> ?n" using vested_nat_le [of ?n "unat (cliff_end v)" "unat (ve_end v)" "unat t"] False
    by (simp add: vested_nat_def)
  have "unat ((ucast (allocation_ld v) :: u128) * ucast (t - cliff_end v) div ucast (ve_end v - cliff_end v)) = ?n * ?d div ?w"
    by (simp add: unat_div_word m unat_ucast_u64_u128 d)
  then have "unat (vested_at v t) = ?n * ?d div ?w"
    using False l unat_u64_bound [of "allocation_ld v"]
    by (simp add: vested_at_def unat_less_iff unat_le_iff unat_ucast_u128_u64)
  with False show ?thesis by (simp add: vested_nat_def)
qed (auto simp: vested_at_def vested_nat_def unat_less_iff unat_le_iff)

text \<open>
  C25. What has vested never exceeds the allocation and never decreases: nothing before the cliff
  ends, everything from the end on, the linear share rounded down between - exactly, no
  multiplication wraps.
\<close>

theorem vested_at_schedule:
  "unat (vested_at v t) = (if unat t < unat (cliff_end v) then 0
     else if unat (ve_end v) \<le> unat (cliff_end v) \<or> unat (ve_end v) \<le> unat t then unat (allocation_ld v)
     else unat (allocation_ld v) * (unat t - unat (cliff_end v)) div (unat (ve_end v) - unat (cliff_end v))) \<and>
   vested_at v t \<le> allocation_ld v \<and> vested_at v t \<le> vested_at v (saturating_add t d)"
  using vested_nat_le vested_nat_mono [of "unat t" "unat (saturating_add t d)"] unat_u64_bound [of t]
  by (simp add: vested_at_nat unat_le_iff unat_saturating_add flip: vested_nat_def)

lemma releasable_nat:
  "unat (releasable_at v t) = unat (vested_at v t) - unat (released_ld v)"
  by (simp add: releasable_at_def unat_saturating_sub)

end
