(* ===== verification/Grs_World.thy ===== *)
theory Grs_World
  imports Grs_Facts
begin

text \<open>
  The state the GRS program runs on and the environment it calls.

  \<open>grs_world\<close> holds the accounts of one OFT store - the store, its peers, its sale book, its
  vestings - and the ledger of the token and system programs, as in \<open>Grai_World\<close>. The seeds of
  all its addresses contain the store's key, so another store's accounts are never confused with
  these. \<open>genv\<close> holds what is not in this repository beyond \<open>env\<close>: address derivation, keccak, the
  checked transfers and mint authorities of the token program, Metaplex metadata, the Token-2022
  transfer fee of a mint, LayerZero's option codec and its endpoint. \<open>genv_laws\<close> states what the
  code relies on of them.
\<close>

section \<open>Environment\<close>

text \<open>The seed lists, each under the OFT store.\<close>

datatype gseed =
    OftEscrowSeed
  | OftSeed
  | LzReceiveTypesSeed
  | GrsConfigSeed
  | PeerRegistrySeed
  | SaleRegistrySeed
  | SaleEscrowSeed
  | VestEscrowSeed
  | SaleSeed u64
  | VestSeed u64
  | PeerSeed u32
  | EventAuthoritySeed

record TransferFee =
  maximum_fee :: u64
  transfer_fee_basis_points :: u16

record MessagingFee =
  mf_native_fee :: u64
  mf_lz_token_fee :: u64

record MessagingReceipt =
  mr_guid :: bytes32
  mr_nonce :: u64
  mr_fee :: MessagingFee

record EndpointSendParams =
  sp_dst_eid :: u32
  sp_receiver :: bytes32
  sp_message :: bytes
  sp_options :: bytes
  sp_native_fee :: u64
  sp_lz_token_fee :: u64

record EndpointQuoteParams =
  qp_sender :: pubkey
  qp_dst_eid :: u32
  qp_receiver :: bytes32
  qp_message :: bytes
  qp_pay_in_lz_token :: bool
  qp_options :: bytes

record LzReceiveParams =
  rp_src_eid :: u32
  rp_sender :: bytes32
  rp_nonce :: u64
  rp_guid :: bytes32
  rp_message :: bytes

record SendComposeParams =
  cp_to :: pubkey
  cp_guid :: bytes32
  cp_index :: u16
  cp_message :: bytes

record LzAccount =
  la_pubkey :: pubkey
  la_is_signer :: bool
  la_is_writable :: bool

record genv =
  gpda :: "gseed \<Rightarrow> pubkey"
  gpda_bump :: "gseed \<Rightarrow> u8"
  keccak :: hash
  transfer_checked :: "pubkey \<Rightarrow> pubkey \<Rightarrow> pubkey \<Rightarrow> pubkey \<Rightarrow> u64 \<Rightarrow> u8 \<Rightarrow> ledger \<Rightarrow> ledger option"
    \<comment> \<open>from, mint, to, authority\<close>
  set_mint_authority :: "pubkey \<Rightarrow> pubkey \<Rightarrow> pubkey \<Rightarrow> ledger \<Rightarrow> ledger option"
  create_metadata_v3 :: "pubkey \<Rightarrow> pubkey \<Rightarrow> pubkey \<Rightarrow> ledger \<Rightarrow> ledger option"
    \<comment> \<open>mint, mint authority, payer and update authority\<close>
  epoch_fee :: "pubkey \<Rightarrow> TransferFee option"
  post_fee :: "TransferFee \<Rightarrow> u64 \<Rightarrow> u64 option"
  oapp_combine_options :: "bytes \<Rightarrow> bytes \<Rightarrow> bytes option"
  assert_type_3 :: "bytes \<Rightarrow> bool"
  endpoint_id :: pubkey
  endpoint_send :: "pubkey \<Rightarrow> pubkey \<Rightarrow> pubkey list \<Rightarrow> EndpointSendParams \<Rightarrow> ledger \<Rightarrow> (ledger \<times> MessagingReceipt) option"
  endpoint_quote :: "pubkey \<Rightarrow> pubkey list \<Rightarrow> EndpointQuoteParams \<Rightarrow> ledger \<Rightarrow> MessagingFee option"
  endpoint_clear :: "pubkey \<Rightarrow> pubkey \<Rightarrow> pubkey list \<Rightarrow> LzReceiveParams \<Rightarrow> ledger \<Rightarrow> ledger option"
  endpoint_send_compose :: "pubkey \<Rightarrow> pubkey \<Rightarrow> pubkey list \<Rightarrow> SendComposeParams \<Rightarrow> ledger \<Rightarrow> ledger option"
  endpoint_set_delegate :: "pubkey \<Rightarrow> pubkey \<Rightarrow> pubkey list \<Rightarrow> pubkey \<Rightarrow> ledger \<Rightarrow> ledger option"
  endpoint_register_oapp :: "pubkey \<Rightarrow> pubkey \<Rightarrow> pubkey list \<Rightarrow> pubkey \<Rightarrow> ledger \<Rightarrow> ledger option"
  clear_min_accounts_len :: nat
  accounts_for_clear :: "pubkey \<Rightarrow> pubkey \<Rightarrow> u32 \<Rightarrow> bytes32 \<Rightarrow> u64 \<Rightarrow> LzAccount list"
  accounts_for_send_compose :: "pubkey \<Rightarrow> pubkey \<Rightarrow> pubkey \<Rightarrow> bytes32 \<Rightarrow> u16 \<Rightarrow> bytes \<Rightarrow> LzAccount list"
  associated_token_id :: pubkey

abbreviation store_key :: "genv \<Rightarrow> pubkey" where "store_key g \<equiv> gpda g OftSeed"
abbreviation config_key :: "genv \<Rightarrow> pubkey" where "config_key g \<equiv> gpda g GrsConfigSeed"
abbreviation token_escrow_key :: "genv \<Rightarrow> pubkey" where "token_escrow_key g \<equiv> gpda g OftEscrowSeed"
abbreviation sale_escrow_key :: "genv \<Rightarrow> pubkey" where "sale_escrow_key g \<equiv> gpda g SaleEscrowSeed"
abbreviation vest_escrow_key :: "genv \<Rightarrow> pubkey" where "vest_escrow_key g \<equiv> gpda g VestEscrowSeed"

section \<open>World\<close>

record grs_world =
  oft_store :: OFTStore
  lz_types :: LzReceiveTypesAccounts
  grs_config :: GrsConfig
  peers :: "u32 \<rightharpoonup> PeerConfig"
  peer_registry :: PeerRegistry
  sale_registry :: SaleRegistry
  sales :: "u64 \<rightharpoonup> SaleAccount"
  vestings :: "u64 \<rightharpoonup> Vesting"
  gledger :: ledger

abbreviation token_mint :: "grs_world \<Rightarrow> pubkey" where
  "token_mint w \<equiv> os_token_mint (oft_store w)"

definition ginvoke :: "(ledger \<Rightarrow> ledger option) \<Rightarrow> grs_world \<Rightarrow> grs_world gres" where
  "ginvoke f w = and_then (cpi (f (gledger w))) (\<lambda>l. Ok (w\<lparr>gledger := l\<rparr>))"

text \<open>The mint account, always at the store's own mint.\<close>

definition load_mint :: "grs_world \<Rightarrow> Mint gres" where
  "load_mint w = account (mints (gledger w) (token_mint w))"

text \<open>A token account with its \<open>token::mint\<close> and, where given, \<open>token::authority\<close>.\<close>

definition token_account :: "pubkey \<Rightarrow> pubkey \<Rightarrow> pubkey option \<Rightarrow> grs_world \<Rightarrow> TokenAccount gres" where
  "token_account k m own w =
     and_then (account (token_accounts (gledger w) k)) (\<lambda>a.
     and_then (constraint (tk_mint a = m \<and> (own = None \<or> own = Some (tk_owner a)))) (\<lambda>_. Ok a))"

text \<open>\<open>init_if_needed\<close> of a token account.\<close>

definition token_init_if_needed :: "env \<Rightarrow> pubkey \<Rightarrow> pubkey \<Rightarrow> pubkey \<Rightarrow> pubkey \<Rightarrow> grs_world \<Rightarrow> grs_world gres" where
  "token_init_if_needed e payer k m own w =
     (case token_accounts (gledger w) k of
        Some a \<Rightarrow> and_then (constraint (tk_mint a = m \<and> tk_owner a = own)) (\<lambda>_. Ok w)
      | None \<Rightarrow> ginvoke (spl_init_account e payer k m own) w)"

definition load_peer :: "u32 \<Rightarrow> grs_world \<Rightarrow> PeerConfig gres" where
  "load_peer eid w = account (peers w eid)"

section \<open>What the code relies on\<close>

text \<open>
  A checked transfer takes exactly its amount from its source and gives at most that - exactly
  that when the mint has no transfer fee - to its destination.
\<close>

definition checked_law :: "genv \<Rightarrow> bool" where
  "checked_law g \<longleftrightarrow> (\<forall>from m to auth amt d l l'. transfer_checked g from m to auth amt d l = Some l' \<longrightarrow>
     same_shape l l' \<and> none_new l l' \<and> mints l' = mints l \<and> unat amt \<le> bal l from \<and>
     (\<forall>k. if from = to \<or> k \<noteq> from \<and> k \<noteq> to then bal l' k = bal l k
          else if k = from then bal l' k = bal l k - unat amt
          else bal l k \<le> bal l' k \<and> (epoch_fee g m = None \<longrightarrow> bal l' k = bal l k + unat amt)))"

text \<open>A call that leaves a mint and its token accounts alone.\<close>

definition spares :: "pubkey \<Rightarrow> ledger \<Rightarrow> ledger \<Rightarrow> bool" where
  "spares m l l' \<longleftrightarrow> mints l' m = mints l m \<and>
     (\<forall>k a. token_accounts l k = Some a \<longrightarrow> tk_mint a = m \<longrightarrow> token_accounts l' k = Some a) \<and>
     (\<forall>k. token_accounts l k = None \<longrightarrow> token_accounts l' k = None)"

text \<open>
  The endpoint moves no tokens of the OFT's mint, and opens no token account; an authority change
  and new metadata move nothing.
\<close>

definition endpoint_law :: "genv \<Rightarrow> pubkey \<Rightarrow> bool" where
  "endpoint_law g m \<longleftrightarrow>
     (\<forall>p a ks x l y. endpoint_send g p a ks x l = Some y \<longrightarrow> spares m l (fst y)) \<and>
     (\<forall>p a ks x l l'. endpoint_clear g p a ks x l = Some l' \<longrightarrow> spares m l l') \<and>
     (\<forall>p a ks x l l'. endpoint_send_compose g p a ks x l = Some l' \<longrightarrow> spares m l l') \<and>
     (\<forall>p a ks x l l'. endpoint_set_delegate g p a ks x l = Some l' \<longrightarrow> spares m l l') \<and>
     (\<forall>p a ks x l l'. endpoint_register_oapp g p a ks x l = Some l' \<longrightarrow> spares m l l')"

definition authority_law :: "genv \<Rightarrow> bool" where
  "authority_law g \<longleftrightarrow>
     (\<forall>m a b l l'. set_mint_authority g m a b l = Some l' \<longrightarrow> token_accounts l' = token_accounts l \<and>
        (\<exists>x. mints l m = Some x \<and> mints l' = (mints l)(m \<mapsto> x\<lparr>mi_authority := Some b\<rparr>))) \<and>
     (\<forall>m a p. frames (create_metadata_v3 g m a p))"

definition genv_laws :: "genv \<Rightarrow> pubkey \<Rightarrow> bool" where
  "genv_laws g m \<longleftrightarrow> inj (gpda g) \<and> checked_law g \<and> endpoint_law g m \<and> authority_law g"

section \<open>Balances under a call\<close>

text \<open>
  \<open>held m own k l\<close>: what is at \<open>k\<close> is a token account of the mint and the owner. \<open>shift\<close> says
  how much an account of the program may have lost or must have gained.
\<close>

definition held :: "pubkey \<Rightarrow> pubkey \<Rightarrow> pubkey \<Rightarrow> ledger \<Rightarrow> bool" where
  "held m own k l \<longleftrightarrow> (\<forall>a. token_accounts l k = Some a \<longrightarrow> tk_mint a = m \<and> tk_owner a = own)"

definition shift :: "pubkey \<Rightarrow> pubkey \<Rightarrow> pubkey \<Rightarrow> int \<Rightarrow> ledger \<Rightarrow> ledger \<Rightarrow> bool" where
  "shift m own k n l l' \<longleftrightarrow> (held m own k l \<longrightarrow> held m own k l' \<and> int (bal l k) + n \<le> int (bal l' k))"

lemma shift_refl [simp]: "shift m own k 0 l l"
  by (simp add: shift_def)

lemma shift_trans: "shift m own k a l l1 \<Longrightarrow> shift m own k b l1 l2 \<Longrightarrow> shift m own k (a + b) l l2"
  by (auto simp: shift_def)

lemma shift_then0: "shift m own k a l l1 \<Longrightarrow> shift m own k 0 l1 l2 \<Longrightarrow> shift m own k a l l2"
  using shift_trans [of m own k a l l1 0 l2] by simp

lemma shift_0then: "shift m own k 0 l l1 \<Longrightarrow> shift m own k b l1 l2 \<Longrightarrow> shift m own k b l l2"
  using shift_trans [of m own k 0 l l1 b l2] by simp

lemma shift_weaken: "shift m own k a l l' \<Longrightarrow> b \<le> a \<Longrightarrow> shift m own k b l l'"
  by (auto simp: shift_def)

lemma held_shape: "same_shape l l' \<Longrightarrow> none_new l l' \<Longrightarrow> held m own k l \<Longrightarrow> held m own k l'"
  unfolding held_def same_shape_def none_new_def
  by (metis option.exhaust option.inject option.distinct(1))

lemma shift_cong: "token_accounts l' = token_accounts l \<Longrightarrow> shift m own k 0 l l'"
  by (simp add: shift_def held_def bal_def)

lemma shift_spares: "spares m l l' \<Longrightarrow> shift m own k 0 l l'"
  by (cases "token_accounts l k") (auto simp: shift_def spares_def held_def bal_def)

lemma checked_lawD:
  assumes "genv_laws g m" "transfer_checked g from mt to auth amt d l = Some l'"
  shows "same_shape l l'" "none_new l l'" "mints l' = mints l" "unat amt \<le> bal l from"
    "k \<noteq> from \<Longrightarrow> k \<noteq> to \<Longrightarrow> bal l' k = bal l k" "k \<noteq> from \<Longrightarrow> bal l k \<le> bal l' k"
    "bal l k \<le> bal l' k + unat amt"
    "k \<noteq> from \<Longrightarrow> k = to \<Longrightarrow> epoch_fee g mt = None \<Longrightarrow> bal l' k = bal l k + unat amt"
proof -
  have *: "same_shape l l' \<and> none_new l l' \<and> mints l' = mints l \<and> unat amt \<le> bal l from \<and>
     (\<forall>k. if from = to \<or> k \<noteq> from \<and> k \<noteq> to then bal l' k = bal l k
          else if k = from then bal l' k = bal l k - unat amt
          else bal l k \<le> bal l' k \<and> (epoch_fee g mt = None \<longrightarrow> bal l' k = bal l k + unat amt))"
    using assms unfolding genv_laws_def checked_law_def by blast
  then show "same_shape l l'" "none_new l l'" "mints l' = mints l" "unat amt \<le> bal l from" by simp_all
  from * have k: "if from = to \<or> k \<noteq> from \<and> k \<noteq> to then bal l' k = bal l k
          else if k = from then bal l' k = bal l k - unat amt
          else bal l k \<le> bal l' k \<and> (epoch_fee g mt = None \<longrightarrow> bal l' k = bal l k + unat amt)" by blast
  show "k \<noteq> from \<Longrightarrow> k \<noteq> to \<Longrightarrow> bal l' k = bal l k" "k \<noteq> from \<Longrightarrow> bal l k \<le> bal l' k"
    "bal l k \<le> bal l' k + unat amt"
    "k \<noteq> from \<Longrightarrow> k = to \<Longrightarrow> epoch_fee g mt = None \<Longrightarrow> bal l' k = bal l k + unat amt"
    using k by (auto split: if_splits)
qed

text \<open>A transfer out of an account, past it, and into it.\<close>

lemma transfer_shift:
  assumes "genv_laws g m" "transfer_checked g from mt to auth amt d l = Some l'"
  shows "shift m own k (- int (unat amt)) l l'"
    "k \<noteq> from \<Longrightarrow> shift m own k 0 l l'"
    "k \<noteq> from \<Longrightarrow> k = to \<Longrightarrow> epoch_fee g mt = None \<Longrightarrow> shift m own k (int (unat amt)) l l'"
proof -
  have "int (bal l k) \<le> int (bal l' k) + int (unat amt)" using checked_lawD(7) [OF assms, of k] by linarith
  then show "shift m own k (- int (unat amt)) l l'"
    using held_shape [OF checked_lawD(1,2) [OF assms]] by (auto simp: shift_def)
  show "k \<noteq> from \<Longrightarrow> shift m own k 0 l l'"
    "k \<noteq> from \<Longrightarrow> k = to \<Longrightarrow> epoch_fee g mt = None \<Longrightarrow> shift m own k (int (unat amt)) l l'"
    using checked_lawD [OF assms] held_shape [of l l'] by (auto simp: shift_def)
qed

text \<open>An account of another owner is not the program's.\<close>

lemma other_owner:
  "held m own k l \<Longrightarrow> token_accounts l from = Some a \<Longrightarrow> tk_owner a \<noteq> own \<Longrightarrow> k \<noteq> from"
  by (auto simp: held_def)

lemma mint_shift:
  assumes "env_laws e" "spl_mint_to e mt to auth amt l = Some l'"
  shows "shift m own k 0 l l'" "k = to \<Longrightarrow> shift m own k (int (unat amt)) l l'"
  using mint_lawD [OF assms] held_shape [of l l'] by (auto simp: shift_def)

lemma burn_shift:
  assumes "env_laws e" "spl_burn e mt from auth amt l = Some l'"
  shows "shift m own k (- int (unat amt)) l l'" "k \<noteq> from \<Longrightarrow> shift m own k 0 l l'"
  using burn_lawD [OF assms] held_shape [of l l'] by (auto simp: shift_def)

lemma init_shift:
  assumes "env_laws e" "spl_init_account e payer x m' own' l = Some l'" "k = x \<Longrightarrow> m' = m \<and> own' = own"
  shows "shift m own k 0 l l'"
  using init_lawD [OF assms(1,2)] assms(3) by (auto simp: shift_def held_def)

lemma init3_shift:
  assumes "env_laws e" "spl_initialize_account3 e x m' own' l = Some l'" "k = x \<Longrightarrow> m' = m \<and> own' = own"
  shows "shift m own k 0 l l'"
  using init3_lawD [OF assms(1,2)] assms(3) by (auto simp: shift_def held_def)

end
