(* ===== verification/Grs_Fees.thy ===== *)
theory Grs_Fees
  imports Grs_World
begin

text \<open>
  What a cross-chain transfer costs (\<open>quote_send.rs\<close>, \<open>quote_oft.rs\<close>): the Token-2022 transfer
  fee of an adapter's mint, the OFT fee, and the removal of the amounts the shared decimals cannot
  carry. An error of the token program's own code is a failed account check here, it has no code of
  this program.
\<close>

section \<open>\<open>quote_send.rs\<close>\<close>

definition MAX_FEE_BASIS_POINTS :: u16 where "MAX_FEE_BASIS_POINTS = 10000"
definition ONE_IN_BASIS_POINTS :: u128 where "ONE_IN_BASIS_POINTS = 10000"

definition calculate_fee :: "u64 \<Rightarrow> u16 \<Rightarrow> u16 option \<Rightarrow> u64" where
  "calculate_fee pre_fee_amount default_bps bps =
     (let final_fee_bps = (case bps of Some b \<Rightarrow> ucast b | None \<Rightarrow> ucast default_bps) :: u128 in
      if final_fee_bps = 0 \<or> pre_fee_amount = 0 then 0
      else ucast (ucast pre_fee_amount * final_fee_bps div ONE_IN_BASIS_POINTS))"

definition ceil_div :: "u128 \<Rightarrow> u128 \<Rightarrow> u128 option" where
  "ceil_div numerator denominator =
     Option.bind (checked_add numerator denominator) (\<lambda>x.
     Option.bind (checked_sub x 1) (\<lambda>y. checked_div y denominator))"

definition calculate_pre_fee_amount :: "TransferFee \<Rightarrow> u64 \<Rightarrow> u64 option" where
  "calculate_pre_fee_amount fee post_fee_amount =
     (let bps = (ucast (transfer_fee_basis_points fee) :: u128) in
      if bps = 0 then Some post_fee_amount
      else if post_fee_amount = 0 then Some 0
      else if bps = ONE_IN_BASIS_POINTS then checked_add (maximum_fee fee) post_fee_amount
      else
        Option.bind (checked_mul (ucast post_fee_amount) ONE_IN_BASIS_POINTS) (\<lambda>numerator.
        Option.bind (checked_sub ONE_IN_BASIS_POINTS bps) (\<lambda>denominator.
        Option.bind (ceil_div numerator denominator) (\<lambda>raw_pre_fee_amount.
        Option.bind (checked_sub raw_pre_fee_amount (ucast post_fee_amount)) (\<lambda>fee_amount.
        if ucast (maximum_fee fee) \<le> fee_amount then checked_add post_fee_amount (maximum_fee fee)
        else if raw_pre_fee_amount \<le> ucast u64_max then Some (ucast raw_pre_fee_amount) else None)))))"

definition get_post_fee_amount_ld :: "genv \<Rightarrow> pubkey \<Rightarrow> u64 \<Rightarrow> u64 gres" where
  "get_post_fee_amount_ld g m amount_ld =
     (case epoch_fee g m of
        Some fee \<Rightarrow> account (post_fee g fee amount_ld)
      | None \<Rightarrow> Ok amount_ld)"

definition get_pre_fee_amount_ld :: "genv \<Rightarrow> pubkey \<Rightarrow> u64 \<Rightarrow> u64 gres" where
  "get_pre_fee_amount_ld g m amount_ld =
     (case epoch_fee g m of
        Some fee \<Rightarrow> account (calculate_pre_fee_amount fee amount_ld)
      | None \<Rightarrow> Ok amount_ld)"

text \<open>The amounts sent, received and kept as the fee.\<close>

definition compute_fee_and_adjust_amount ::
  "genv \<Rightarrow> u64 \<Rightarrow> OFTStore \<Rightarrow> pubkey \<Rightarrow> u16 option \<Rightarrow> (u64 \<times> u64 \<times> u64) gres" where
  "compute_fee_and_adjust_amount g amount_ld s m bps =
     (if oft_type s = Adapter
      then and_then (get_post_fee_amount_ld g m amount_ld) (\<lambda>post.
           and_then (remove_dust s post) (\<lambda>amount_received_ld.
           and_then (get_pre_fee_amount_ld g m amount_received_ld) (\<lambda>amount_sent_ld.
           and_then (remove_dust s (calculate_fee amount_received_ld (default_fee_bps s) bps)) (\<lambda>oft_fee_ld.
           and_then (or_panic (checked_sub amount_received_ld oft_fee_ld)) (\<lambda>amount_received_ld.
           Ok (amount_sent_ld, amount_received_ld, oft_fee_ld))))))
      else and_then (remove_dust s amount_ld) (\<lambda>amount_sent_ld.
           and_then (remove_dust s (calculate_fee amount_sent_ld (default_fee_bps s) bps)) (\<lambda>oft_fee_ld.
           and_then (or_panic (checked_sub amount_sent_ld oft_fee_ld)) (\<lambda>amount_received_ld.
           Ok (amount_sent_ld, amount_received_ld, oft_fee_ld)))))"

record QuoteSendParams =
  qs_dst_eid :: u32
  qs_to :: bytes32
  qs_amount_ld :: u64
  qs_min_amount_ld :: u64
  qs_options :: bytes
  qs_compose_msg :: "bytes option"
  qs_pay_in_lz_token :: bool

definition quote_send_inner :: "genv \<Rightarrow> PeerConfig \<Rightarrow> pubkey list \<Rightarrow> QuoteSendParams \<Rightarrow> grs_world \<Rightarrow> MessagingFee gres" where
  "quote_send_inner g peer remaining params w =
     (let s = oft_store w in
      and_then (require (\<not> os_paused s) OFT_Paused) (\<lambda>_.
      and_then (require (qs_compose_msg params = None) ComposeDisabled) (\<lambda>_.
      and_then (require (qs_to params \<noteq> sale_msg_type (keccak g) \<and> qs_to params \<noteq> grant_msg_type (keccak g))
                 InvalidRecipient) (\<lambda>_.
      and_then (compute_fee_and_adjust_amount g (qs_amount_ld params) s (token_mint w) (fee_bps peer))
        (\<lambda>(_, amount_received_ld, _).
      and_then (require (qs_min_amount_ld params \<le> amount_received_ld) SlippageExceeded) (\<lambda>_.
      and_then (combine_options (\<lambda>a b. cpi (oapp_combine_options g a b)) (enforced_options peer)
                 (qs_compose_msg params) (qs_options params)) (\<lambda>options.
      cpi (endpoint_quote g (endpoint_program s) remaining
        \<lparr> qp_sender = store_key g, qp_dst_eid = qs_dst_eid params, qp_receiver = peer_address peer,
          qp_message = encode (qs_to params) amount_received_ld default_pubkey (qs_compose_msg params),
          qp_pay_in_lz_token = qs_pay_in_lz_token params, qp_options = options \<rparr> (gledger w)))))))))"

definition execute_quote_send :: "genv \<Rightarrow> pubkey list \<Rightarrow> QuoteSendParams \<Rightarrow> grs_world \<Rightarrow> MessagingFee gres" where
  "execute_quote_send g remaining params w =
     and_then (load_peer (qs_dst_eid params) w) (\<lambda>peer.
     and_then (load_mint w) (\<lambda>_. quote_send_inner g peer remaining params w))"

text \<open>\<open>quote_bridge\<close> (\<open>lib.rs\<close>): no options, no compose part, no slippage below the dust.\<close>

definition bridge_min :: "u64 \<Rightarrow> u64" where
  "bridge_min amount_ld = saturating_sub amount_ld (amount_ld mod GRS_LD2SD_RATE)"

definition execute_quote_bridge :: "genv \<Rightarrow> pubkey list \<Rightarrow> u32 \<Rightarrow> bytes32 \<Rightarrow> u64 \<Rightarrow> grs_world \<Rightarrow> MessagingFee gres" where
  "execute_quote_bridge g remaining dst_eid to amount_ld w =
     and_then (load_peer dst_eid w) (\<lambda>peer.
     and_then (load_mint w) (\<lambda>_.
     quote_send_inner g peer remaining
       \<lparr> qs_dst_eid = dst_eid, qs_to = to, qs_amount_ld = amount_ld, qs_min_amount_ld = bridge_min amount_ld,
         qs_options = [], qs_compose_msg = None, qs_pay_in_lz_token = False \<rparr> w))"

section \<open>\<open>quote_oft.rs\<close>\<close>

record OFTReceipt =
  or_amount_sent_ld :: u64
  or_amount_received_ld :: u64

record OFTFeeDetail =
  fee_amount_ld :: u64
  description :: string

record QuoteOFTResult =
  limit_min_amount_ld :: u64
  limit_max_amount_ld :: u64
  oft_fee_details :: "OFTFeeDetail list"
  oft_receipt :: OFTReceipt

definition execute_quote_oft :: "genv \<Rightarrow> u32 \<Rightarrow> u64 \<Rightarrow> u64 \<Rightarrow> grs_world \<Rightarrow> QuoteOFTResult gres" where
  "execute_quote_oft g dst_eid amount_ld min_amount_ld w =
     and_then (load_peer dst_eid w) (\<lambda>peer.
     and_then (load_mint w) (\<lambda>_.
     and_then (require (\<not> os_paused (oft_store w)) OFT_Paused) (\<lambda>_.
     and_then (compute_fee_and_adjust_amount g amount_ld (oft_store w) (token_mint w) (fee_bps peer))
       (\<lambda>(amount_sent_ld, amount_received_ld, oft_fee_ld).
     and_then (require (min_amount_ld \<le> amount_received_ld) SlippageExceeded) (\<lambda>_.
     and_then (or_panic (checked_add amount_received_ld oft_fee_ld)) (\<lambda>kept.
     and_then (if kept < amount_sent_ld
               then and_then (or_panic (checked_sub amount_sent_ld oft_fee_ld)) (\<lambda>x.
                    and_then (or_panic (checked_sub x amount_received_ld)) (\<lambda>f.
                    Ok [\<lparr> fee_amount_ld = f, description = ''Token2022 Transfer Fee'' \<rparr>]))
               else Ok []) (\<lambda>transfer_fee.
     let cross_chain = (if 0 < oft_fee_ld then [\<lparr> fee_amount_ld = oft_fee_ld, description = ''Cross Chain Fee'' \<rparr>] else []) in
     Ok \<lparr> limit_min_amount_ld = 0, limit_max_amount_ld = u64_max,
          oft_fee_details = transfer_fee @ cross_chain,
          oft_receipt = \<lparr> or_amount_sent_ld = amount_sent_ld, or_amount_received_ld = amount_received_ld \<rparr> \<rparr>)))))))"

section \<open>What a transfer costs\<close>

lemma remove_dust_Ok:
  assumes "remove_dust s a = Ok b"
  shows "ld2sd_rate s \<noteq> 0" "unat b = unat a - unat a mod unat (ld2sd_rate s)" "b \<le> a"
    "unat (ld2sd_rate s) dvd unat b"
proof -
  show "ld2sd_rate s \<noteq> 0" and b: "unat b = unat a - unat a mod unat (ld2sd_rate s)"
    using assms by (auto simp: remove_dust_def step_iffs checked_sub_Some unat_mod split: if_splits)
  then show "b \<le> a" by (simp add: unat_le_iff)
  show "unat (ld2sd_rate s) dvd unat b" using b by (metis dvd_minus_mod)
qed

lemma calculate_fee_nat:
  assumes "bps \<le> 10000"
  shows "unat (calculate_fee a bps None) = unat a * unat bps div 10000"
    "unat (calculate_fee a d (Some bps)) = unat a * unat bps div 10000"
proof -
  have m: "unat ((ucast a :: u128) * ucast bps) = unat a * unat bps"
    using u64_times_u16_fits [of a bps] by (simp add: unat_word_ariths unat_ucast_u64_u128 unat_ucast_u16_u128)
  have "unat bps \<le> 10000" using assms by (simp add: unat_le_iff)
  then have "unat a * unat bps div 10000 \<le> unat a * 10000 div 10000" by (intro div_le_mono mult_le_mono2)
  then have l: "unat a * unat bps div 10000 \<le> 18446744073709551615" using unat_u64_bound [of a] by simp
  have z: "(ucast bps :: u128) = 0 \<longleftrightarrow> bps = 0" by (simp add: unat_eq_iff unat_ucast_u16_u128)
  have "unat (ucast ((ucast a :: u128) * ucast bps div ONE_IN_BASIS_POINTS) :: u64) = unat a * unat bps div 10000"
    using l by (simp add: unat_ucast_u128_u64 unat_div_word m ONE_IN_BASIS_POINTS_def)
  then show "unat (calculate_fee a bps None) = unat a * unat bps div 10000"
    "unat (calculate_fee a d (Some bps)) = unat a * unat bps div 10000"
    by (auto simp: calculate_fee_def Let_def z)
qed

definition final_bps :: "OFTStore \<Rightarrow> u16 option \<Rightarrow> u16" where
  "final_bps s bps = (case bps of Some b \<Rightarrow> b | None \<Rightarrow> default_fee_bps s)"

lemma calculate_fee_final:
  "final_bps s bps \<le> 10000 \<Longrightarrow> unat (calculate_fee a (default_fee_bps s) bps) = unat a * unat (final_bps s bps) div 10000"
  by (cases bps) (simp_all add: final_bps_def calculate_fee_nat)

lemma fee_below: "n \<le> 10000 \<Longrightarrow> a * n div 10000 \<le> (a :: nat)"
  using div_le_mono [OF mult_le_mono2 [of n 10000 a], of 10000] by simp

definition ceil_nat :: "nat \<Rightarrow> nat \<Rightarrow> nat" where
  "ceil_nat n d = (n + d - 1) div d"

lemma ceil_nat_ge: "0 < d \<Longrightarrow> d \<le> 10000 \<Longrightarrow> n \<le> ceil_nat (n * 10000) d"
proof -
  assume d: "0 < d" "d \<le> 10000"
  have "n * d \<le> n * 10000 + d - 1" using d mult_le_mono2 [of d 10000 n] by linarith
  then show ?thesis using d div_le_mono [of "n * d" "n * 10000 + d - 1" d] by (simp add: ceil_nat_def)
qed

lemma ceil_div_Some:
  "ceil_div n d = Some q \<longleftrightarrow> 0 < unat d \<and> unat n + unat d < 2 ^ 128 \<and> unat q = ceil_nat (unat n) (unat d)"
proof (cases "unat n + unat d < 2 ^ 128 \<and> d \<noteq> 0")
  case True
  then have s: "unat (n + d) = unat n + unat d" "0 < unat d"
    by (simp_all add: unat_word_ariths unat_gt_0)
  then have one: "1 \<le> n + d" by (simp add: unat_le_iff)
  then have "unat (n + d - 1) = unat n + unat d - 1" by (simp add: s unat_sub_if_size unat_le_iff)
  moreover have "ceil_div n d = Some ((n + d - 1) div d)"
    using True one by (simp add: ceil_div_def checked_add_def checked_sub_def checked_div_def)
  ultimately show ?thesis using True s(2) by (auto simp: ceil_nat_def unat_eq_iff unat_div_word)
next
  case False
  then show ?thesis
    by (auto simp: ceil_div_def bind_Some_iff checked_add_def checked_div_def unat_eq_iff split: if_splits)
qed

text \<open>The code's formula on natural numbers, below and at one hundred percent.\<close>

definition pre_fee_nat :: "TransferFee \<Rightarrow> nat \<Rightarrow> nat" where
  "pre_fee_nat fee n =
     (let b = unat (transfer_fee_basis_points fee); x = unat (maximum_fee fee) in
      if b = 0 \<or> n = 0 then n else if b = 10000 then n + x else min (n + x) (ceil_nat (n * 10000) (10000 - b)))"

lemma pre_fee_formula:
  assumes "transfer_fee_basis_points fee < MAX_FEE_BASIS_POINTS"
  shows "calculate_pre_fee_amount fee n = Some p \<longleftrightarrow>
    unat p = (if transfer_fee_basis_points fee = 0 then unat n
       else min (unat n + unat (maximum_fee fee))
              (ceil_nat (unat n * 10000) (10000 - unat (transfer_fee_basis_points fee))))"
proof -
  define b where "b = transfer_fee_basis_points fee"
  define d where "d = 10000 - unat b"
  let ?c = "ceil_nat (unat n * 10000) d" and ?x = "unat (maximum_fee fee)"
  have b: "unat b < 10000" using assms by (simp add: b_def MAX_FEE_BASIS_POINTS_def unat_less_iff)
  have ub: "unat (ucast b :: u128) = unat b" by (rule unat_ucast_u16_u128)
  have d: "0 < d" "d \<le> 10000" using b by (simp_all add: d_def)
  show ?thesis
  proof (cases "b = 0 \<or> n = 0")
    case True
    have "ceil_nat 0 d = 0" using d by (simp add: ceil_nat_def)
    then show ?thesis using True
      by (auto simp: calculate_pre_fee_amount_def Let_def unat_eq_iff unat_ucast_u16_u128 simp flip: b_def d_def)
  next
    case False
    have nn: "unat n * 10000 + 10000 < 2 ^ 128" using unat_u64_bound [of n] by simp
    obtain num where num: "checked_mul (ucast n) ONE_IN_BASIS_POINTS = Some num" "unat num = unat n * 10000"
      using nn by (simp add: checked_mul_def ONE_IN_BASIS_POINTS_def unat_ucast_u64_u128 unat_word_ariths)
    obtain den where den: "checked_sub ONE_IN_BASIS_POINTS (ucast b) = Some den" "unat den = d"
      using b by (simp add: checked_sub_def ONE_IN_BASIS_POINTS_def d_def unat_le_iff ub unat_sub_if_size)
    have cl: "?c \<le> unat n * 10000 + 10000"
      using d by (auto simp: ceil_nat_def intro: order_trans [OF div_le_dividend])
    then have c128: "?c < 2 ^ 128" using nn by linarith
    define raw where "raw = (word_of_nat ?c :: u128)"
    have raw: "ceil_div num den = Some raw" "unat raw = ?c"
      using d nn c128 by (simp_all add: ceil_div_Some raw_def num(2) den(2) unat_word_of_nat_fits)
    obtain f where f: "checked_sub raw (ucast n) = Some f" "unat f = ?c - unat n"
      using ceil_nat_ge [OF d, of "unat n"]
      by (simp add: checked_sub_def unat_le_iff raw(2) unat_ucast_u64_u128 unat_sub_if_size)
    have ne: "(ucast b :: u128) \<noteq> 0" "(ucast b :: u128) \<noteq> ONE_IN_BASIS_POINTS"
      using False b by (auto simp: unat_eq_iff ub ONE_IN_BASIS_POINTS_def)
    have e: "calculate_pre_fee_amount fee n =
        (if ucast (maximum_fee fee) \<le> f then checked_add n (maximum_fee fee)
         else if raw \<le> ucast u64_max then Some (ucast raw) else None)"
      using False ne by (simp add: calculate_pre_fee_amount_def Let_def num(1) den(1) raw(1) f(1) flip: b_def)
    show ?thesis
    proof (cases "?x \<le> ?c - unat n")
      case True
      then have "min (unat n + ?x) ?c = unat n + ?x" using ceil_nat_ge [OF d, of "unat n"] by simp
      moreover have "(ucast (maximum_fee fee) :: u128) \<le> f" using True by (simp add: unat_le_iff unat_ucast_u64_u128 f(2))
      ultimately show ?thesis using False by (simp add: e checked_add_Some flip: b_def d_def)
    next
      case x: False
      then have "min (unat n + ?x) ?c = ?c" by simp
      moreover have "\<not> (ucast (maximum_fee fee) :: u128) \<le> f" using x by (simp add: unat_le_iff unat_ucast_u64_u128 f(2))
      moreover have "raw \<le> ucast u64_max \<longleftrightarrow> ?c \<le> 18446744073709551615"
        by (simp add: unat_le_iff raw(2) unat_ucast_u64_u128 unat_u64_max)
      moreover have "unat (ucast raw :: u64) = ?c" if "?c \<le> 18446744073709551615"
        using that by (simp add: unat_ucast_u128_u64 raw(2))
      ultimately show ?thesis using False unat_u64_bound [of p] by (auto simp: e unat_eq_iff simp flip: b_def d_def)
    qed
  qed
qed

lemma pre_fee_full:
  "transfer_fee_basis_points fee = 10000 \<Longrightarrow> calculate_pre_fee_amount fee n = Some p \<longleftrightarrow>
     unat p = (if n = 0 then 0 else unat n + unat (maximum_fee fee))"
  by (cases "n = 0") (auto simp: calculate_pre_fee_amount_def Let_def ONE_IN_BASIS_POINTS_def checked_add_Some unat_eq_zero)

lemma calculate_pre_fee_nat:
  assumes "transfer_fee_basis_points fee \<le> MAX_FEE_BASIS_POINTS"
  shows "calculate_pre_fee_amount fee n = Some p \<longleftrightarrow> unat p = pre_fee_nat fee (unat n)"
proof (cases "transfer_fee_basis_points fee < MAX_FEE_BASIS_POINTS")
  case True
  then have b: "unat (transfer_fee_basis_points fee) < 10000"
    by (simp add: MAX_FEE_BASIS_POINTS_def unat_less_iff)
  then have "ceil_nat 0 (10000 - unat (transfer_fee_basis_points fee)) = 0" by (simp add: ceil_nat_def)
  then show ?thesis unfolding pre_fee_formula [OF True] using b by (auto simp: pre_fee_nat_def Let_def unat_eq_iff)
next
  case False
  then have "transfer_fee_basis_points fee = 10000" using assms by (simp add: MAX_FEE_BASIS_POINTS_def)
  then show ?thesis using pre_fee_full [of fee n p] by (simp add: pre_fee_nat_def unat_eq_iff)
qed

text \<open>
  What Token-2022 documents of its fee: the rate rounded up, capped by the maximum; the recipient
  gets the rest.
\<close>

definition token2022_fee :: "TransferFee \<Rightarrow> nat \<Rightarrow> nat" where
  "token2022_fee fee x = min (unat (maximum_fee fee)) (ceil_nat (x * unat (transfer_fee_basis_points fee)) 10000)"

definition arrives :: "TransferFee \<Rightarrow> nat \<Rightarrow> nat" where
  "arrives fee x = x - token2022_fee fee x"

lemma ceil_nat_le: "0 < d \<Longrightarrow> ceil_nat n d \<le> k \<longleftrightarrow> n \<le> k * d"
proof -
  assume d: "0 < d"
  have "ceil_nat n d \<le> k \<longleftrightarrow> n + d - 1 < Suc k * d"
    using d by (simp add: ceil_nat_def less_Suc_eq_le [symmetric] div_less_iff_less_mult del: mult_Suc)
  also have "\<dots> \<longleftrightarrow> n \<le> k * d" using d by auto
  finally show ?thesis .
qed

lemma arrives_max:
  assumes "unat (transfer_fee_basis_points fee) \<le> 10000"
  shows "arrives fee x = max (x - unat (maximum_fee fee)) (x * (10000 - unat (transfer_fee_basis_points fee)) div 10000)"
proof -
  let ?b = "unat (transfer_fee_basis_points fee)"
  have "k \<le> x - ceil_nat (x * ?b) 10000 \<longleftrightarrow> k \<le> x * (10000 - ?b) div 10000" for k
  proof (cases "k \<le> x")
    case True
    have c: "ceil_nat (x * ?b) 10000 \<le> x" using assms by (simp add: ceil_nat_le)
    have "k \<le> x - ceil_nat (x * ?b) 10000 \<longleftrightarrow> ceil_nat (x * ?b) 10000 \<le> x - k" using True c by linarith
    also have "\<dots> \<longleftrightarrow> x * ?b \<le> (x - k) * 10000" by (simp add: ceil_nat_le)
    also have "\<dots> \<longleftrightarrow> k * 10000 \<le> x * (10000 - ?b)"
    proof -
      have "x * ?b + x * (10000 - ?b) = x * 10000" using assms by (simp flip: distrib_left)
      moreover have "(x - k) * 10000 + k * 10000 = x * 10000" using True by simp
      ultimately show ?thesis by linarith
    qed
    finally show ?thesis by (simp add: less_eq_div_iff_mult_less_eq)
  next
    case False
    have "x * (10000 - ?b) div 10000 \<le> x" by (metis diff_le_self fee_below)
    then show ?thesis using False by linarith
  qed
  then have "x - ceil_nat (x * ?b) 10000 = x * (10000 - ?b) div 10000" by (meson dual_order.antisym order_refl)
  then show ?thesis unfolding arrives_def token2022_fee_def by linarith
qed

text \<open>The formula is the least amount from which enough arrives, and from it exactly enough does.\<close>

lemma pre_fee_least:
  assumes "unat (transfer_fee_basis_points fee) \<le> 10000"
  shows "n \<le> arrives fee x \<longleftrightarrow> pre_fee_nat fee n \<le> x" "arrives fee (pre_fee_nat fee n) = n"
proof -
  let ?b = "unat (transfer_fee_basis_points fee)" and ?m = "unat (maximum_fee fee)"
  note am = arrives_max [OF assms]
  show le: "n \<le> arrives fee x \<longleftrightarrow> pre_fee_nat fee n \<le> x" for n x
  proof -
    consider "n = 0" | "?b = 0" "0 < n" | "?b = 10000" "0 < n" | "0 < ?b" "?b < 10000" "0 < n"
      using assms by linarith
    then show ?thesis
    proof cases
      case 4
      have "n \<le> x * (10000 - ?b) div 10000 \<longleftrightarrow> ceil_nat (n * 10000) (10000 - ?b) \<le> x"
        using 4 by (simp add: ceil_nat_le less_eq_div_iff_mult_less_eq)
      then show ?thesis using 4 by (auto simp: am pre_fee_nat_def Let_def le_max_iff_disj min_le_iff_disj)
    qed (auto simp: am pre_fee_nat_def Let_def le_max_iff_disj)
  qed
  have step: "arrives fee (Suc x) \<le> Suc (arrives fee x)" for x
  proof -
    have "Suc x * (10000 - ?b) div 10000 \<le> (x * (10000 - ?b) + 10000) div 10000" by (intro div_le_mono) simp
    also have "(x * (10000 - ?b) + 10000) div 10000 = Suc (x * (10000 - ?b) div 10000)" by (subst div_add_self2) simp_all
    finally have "Suc x * (10000 - ?b) div 10000 \<le> Suc (x * (10000 - ?b) div 10000)" .
    then show ?thesis unfolding am by linarith
  qed
  have "arrives fee (pre_fee_nat fee n) \<le> n"
  proof (cases "pre_fee_nat fee n")
    case 0
    then show ?thesis by (simp add: arrives_def)
  next
    case (Suc x)
    then have "arrives fee x < n" using le [of n x] by simp
    then show ?thesis using step [of x] Suc by simp
  qed
  then show "arrives fee (pre_fee_nat fee n) = n" using le [of n "pre_fee_nat fee n"] by simp
qed

text \<open>
  C40. The amount to send for a wanted amount is exact for every Token-2022 fee, the full hundred
  percent included: from it exactly the wanted amount arrives, and from no smaller amount does that
  much arrive. There is none only when that least amount does not fit in 64 bits.
\<close>

theorem pre_fee_exact:
  assumes "transfer_fee_basis_points fee \<le> MAX_FEE_BASIS_POINTS"
  shows "case calculate_pre_fee_amount fee n of
      Some p \<Rightarrow> arrives fee (unat p) = unat n \<and> (\<forall>x. unat n \<le> arrives fee x \<longrightarrow> unat p \<le> x)
    | None \<Rightarrow> (\<forall>x. unat n \<le> arrives fee x \<longrightarrow> 2 ^ 64 \<le> x)"
proof -
  have b: "unat (transfer_fee_basis_points fee) \<le> 10000"
    using assms by (simp add: MAX_FEE_BASIS_POINTS_def unat_le_iff)
  note c = calculate_pre_fee_nat [OF assms, of n] and l = pre_fee_least [OF b]
  show ?thesis
  proof (cases "calculate_pre_fee_amount fee n")
    case None
    have "\<not> pre_fee_nat fee (unat n) < 2 ^ 64"
      using c None ex_unat [of "pre_fee_nat fee (unat n)", where ?'a = 64] by force
    then show ?thesis using l(1) by (simp add: None)
  next
    case (Some p)
    then have p: "unat p = pre_fee_nat fee (unat n)" using c by blast
    show ?thesis using l by (simp add: Some p)
  qed
qed

theorem pre_fee_exact_witness:
  "calculate_pre_fee_amount \<lparr> maximum_fee = 5000, transfer_fee_basis_points = 100 \<rparr> 990 = Some 1000 \<and>
   arrives \<lparr> maximum_fee = 5000, transfer_fee_basis_points = 100 \<rparr> 1000 = 990"
proof -
  have "calculate_pre_fee_amount \<lparr> maximum_fee = 5000, transfer_fee_basis_points = 100 \<rparr> 990 = Some 1000"
    by (simp add: calculate_pre_fee_amount_def ceil_div_def ONE_IN_BASIS_POINTS_def eval_simps)
  then show ?thesis
    using pre_fee_exact [of "\<lparr> maximum_fee = 5000, transfer_fee_basis_points = 100 \<rparr>" 990]
    by (simp add: MAX_FEE_BASIS_POINTS_def)
qed

text \<open>
  What the code relies on of the token program: its \<open>calculate_post_fee_amount\<close> is the amount that
  arrives, and a mint's rate is at most one hundred percent.
\<close>

definition token2022_law :: "genv \<Rightarrow> bool" where
  "token2022_law g \<longleftrightarrow> (\<forall>m fee. epoch_fee g m = Some fee \<longrightarrow>
     transfer_fee_basis_points fee \<le> MAX_FEE_BASIS_POINTS \<and>
     (\<forall>x y. post_fee g fee x = Some y \<longrightarrow> unat y = arrives fee (unat x)))"

text \<open>What the token program withholds of a transfer of the adapter's mint; a native OFT's has no fee.\<close>

definition withheld :: "genv \<Rightarrow> OFTStore \<Rightarrow> pubkey \<Rightarrow> nat \<Rightarrow> nat" where
  "withheld g s m x =
     (if oft_type s = Adapter then (case epoch_fee g m of None \<Rightarrow> 0 | Some fee \<Rightarrow> token2022_fee fee x) else 0)"

definition dedusted :: "OFTStore \<Rightarrow> nat \<Rightarrow> nat" where
  "dedusted s x = x - x mod unat (ld2sd_rate s)"

lemma withheld_le: "token2022_law g \<Longrightarrow> withheld g s m x \<le> x"
proof -
  assume law: "token2022_law g"
  have "token2022_fee fee x \<le> x" if "epoch_fee g m = Some fee" for fee
  proof -
    have "unat (transfer_fee_basis_points fee) \<le> 10000"
      using law that by (auto simp: token2022_law_def MAX_FEE_BASIS_POINTS_def unat_le_iff)
    then show ?thesis by (simp add: token2022_fee_def min_le_iff_disj ceil_nat_le)
  qed
  then show ?thesis by (simp add: withheld_def split: option.split)
qed

lemma compute_fee_Ok:
  assumes "compute_fee_and_adjust_amount g a s m bps = Ok (sent, received, fee)"
  obtains post kept where "remove_dust s post = Ok kept" "unat kept = unat received + unat fee"
    "remove_dust s (calculate_fee kept (default_fee_bps s) bps) = Ok fee"
    "if oft_type s = Adapter then get_post_fee_amount_ld g m a = Ok post \<and> get_pre_fee_amount_ld g m kept = Ok sent
     else post = a \<and> sent = kept"
  using assms
  by (auto simp: compute_fee_and_adjust_amount_def step_iffs checked_sub_Some split: if_splits)

text \<open>Nothing the shared decimals cannot carry is received, whatever the token withholds.\<close>

lemma compute_fee_dustless:
  assumes "compute_fee_and_adjust_amount g a s m bps = Ok (sent, received, fee)"
  shows "unat (ld2sd_rate s) dvd unat received" "unat (ld2sd_rate s) dvd unat fee"
proof -
  obtain post kept where d: "remove_dust s post = Ok kept" and k: "unat kept = unat received + unat fee"
    and f: "remove_dust s (calculate_fee kept (default_fee_bps s) bps) = Ok fee"
    using assms by (rule compute_fee_Ok)
  show "unat (ld2sd_rate s) dvd unat fee" by (rule remove_dust_Ok(4) [OF f])
  then show "unat (ld2sd_rate s) dvd unat received"
    using remove_dust_Ok(4) [OF d] k by (metis add_diff_cancel_right' dvd_diff_nat)
qed

lemma compute_fee_split:
  assumes "compute_fee_and_adjust_amount g a s m bps = Ok (sent, received, fee)" "token2022_law g"
  shows "unat sent = unat received + unat fee + withheld g s m (unat sent)" "unat sent \<le> unat a"
    "unat received + unat fee = dedusted s (unat a - withheld g s m (unat a))"
    "final_bps s bps \<le> 10000 \<Longrightarrow> unat fee \<le> (unat received + unat fee) * unat (final_bps s bps) div 10000"
proof -
  obtain post kept where d: "remove_dust s post = Ok kept" and k: "unat kept = unat received + unat fee"
    and f: "remove_dust s (calculate_fee kept (default_fee_bps s) bps) = Ok fee"
    and c: "if oft_type s = Adapter then get_post_fee_amount_ld g m a = Ok post \<and> get_pre_fee_amount_ld g m kept = Ok sent
       else post = a \<and> sent = kept"
    using assms(1) by (rule compute_fee_Ok)
  note rd = remove_dust_Ok [OF d] and rf = remove_dust_Ok [OF f]
  have "unat post = unat a - withheld g s m (unat a) \<and> unat kept = unat sent - withheld g s m (unat sent) \<and> sent \<le> a"
  proof (cases "\<exists>fee. oft_type s = Adapter \<and> epoch_fee g m = Some fee")
    case True
    then obtain tf where tf: "oft_type s = Adapter" "epoch_fee g m = Some tf" by blast
    have le: "transfer_fee_basis_points tf \<le> MAX_FEE_BASIS_POINTS" and "unat (transfer_fee_basis_points tf) \<le> 10000"
      and post: "post_fee g tf a = Some post \<Longrightarrow> unat post = arrives tf (unat a)"
      using assms(2) tf(2) by (auto simp: token2022_law_def MAX_FEE_BASIS_POINTS_def unat_le_iff)
    note l = pre_fee_least [OF this(2)]
    have "unat post = arrives tf (unat a)" "unat sent = pre_fee_nat tf (unat kept)"
      using c tf post calculate_pre_fee_nat [OF le] by (simp_all add: get_post_fee_amount_ld_def get_pre_fee_amount_ld_def step_iffs)
    then show ?thesis using l rd(3) tf by (simp add: withheld_def arrives_def unat_le_iff flip: l(1))
  next
    case False
    then show ?thesis using c rd(3)
      by (auto simp: withheld_def get_post_fee_amount_ld_def get_pre_fee_amount_ld_def split: if_splits option.splits)
  qed
  then show "unat sent = unat received + unat fee + withheld g s m (unat sent)" "unat sent \<le> unat a"
    "unat received + unat fee = dedusted s (unat a - withheld g s m (unat a))"
    using k rd(2) withheld_le [OF assms(2), of s m "unat sent"] by (simp_all add: dedusted_def unat_le_iff)
  show "unat fee \<le> (unat received + unat fee) * unat (final_bps s bps) div 10000" if "final_bps s bps \<le> 10000"
    using rf(3) calculate_fee_final [OF that, of kept] k by (simp add: unat_le_iff)
qed

text \<open>
  C39. What leaves the sender, never more than requested, is split without losing a unit into what
  the recipient receives, the fee, and what Token-2022 withholds of an adapter's transfer. Received
  and fee together are what the request would leave after the token's own fee, less its dust; both
  are free of dust; and the fee is at most its rate of them.
\<close>

theorem transfer_split_exact:
  assumes "compute_fee_and_adjust_amount g amount_ld s m bps = Ok (sent, received, fee)"
    and "token2022_law g" "final_bps s bps \<le> 10000"
  shows "unat sent = unat received + unat fee + withheld g s m (unat sent) \<and> unat sent \<le> unat amount_ld \<and>
    unat received + unat fee = dedusted s (unat amount_ld - withheld g s m (unat amount_ld)) \<and>
    unat (ld2sd_rate s) dvd unat received \<and> unat (ld2sd_rate s) dvd unat fee \<and>
    unat fee \<le> (unat received + unat fee) * unat (final_bps s bps) div 10000"
  using compute_fee_split [OF assms(1,2)] compute_fee_dustless [OF assms(1)] assms(3) by blast

definition sample_store :: OFTStore where
  "sample_store = \<lparr> oft_type = Native, ld2sd_rate = 1000, os_token_mint = 77, os_token_escrow = 78,
     endpoint_program = 79, os_bump = 255, tvl_ld = 0, os_admin = 5, os_pending_owner = 0,
     default_fee_bps = 30, os_paused = False, pauser = Some 6, unpauser = None \<rparr>"

text \<open>An adapter of a mint with a Token-2022 fee of one percent, capped at five tokens.\<close>

definition one_percent :: TransferFee where
  "one_percent = \<lparr> maximum_fee = 5000000000, transfer_fee_basis_points = 100 \<rparr>"

definition taxed :: "genv \<Rightarrow> genv" where
  "taxed g = g\<lparr>epoch_fee := \<lambda>_. Some one_percent, post_fee := \<lambda>fee x. Some (word_of_nat (arrives fee (unat x)))\<rparr>"

lemma taxed_law: "token2022_law (taxed g)"
proof -
  have "arrives fee (unat x) < 2 ^ 64" for fee and x :: u64
    using unat_u64_bound [of x] by (simp add: arrives_def less_imp_diff_less)
  then show ?thesis
    by (auto simp: token2022_law_def taxed_def one_percent_def MAX_FEE_BASIS_POINTS_def unat_word_of_nat_fits)
qed

theorem transfer_split_exact_witness:
  "\<forall>g. compute_fee_and_adjust_amount (taxed g) 1234567890 (sample_store\<lparr>oft_type := Adapter\<rparr>) 77 None =
       Ok (1234567677, 1218556000, 3666000) \<and>
     (1234567677 :: nat) = 1218556000 + 3666000 + withheld (taxed g) (sample_store\<lparr>oft_type := Adapter\<rparr>) 77 1234567677"
proof
  fix g
  have p: "arrives one_percent 1234567890 = 1222222211"
    by (simp add: arrives_def token2022_fee_def ceil_nat_def one_percent_def)
  have q: "calculate_pre_fee_amount one_percent 1222222000 = Some 1234567677"
    by (simp add: calculate_pre_fee_amount_def one_percent_def ceil_div_def ONE_IN_BASIS_POINTS_def eval_simps)
  have c: "compute_fee_and_adjust_amount (taxed g) 1234567890 (sample_store\<lparr>oft_type := Adapter\<rparr>) 77 None =
      Ok (1234567677, 1218556000, 3666000)"
    by (simp add: compute_fee_and_adjust_amount_def get_post_fee_amount_ld_def get_pre_fee_amount_ld_def taxed_def p q
        account_def remove_dust_def sample_store_def calculate_fee_def ONE_IN_BASIS_POINTS_def eval_simps)
  have "final_bps (sample_store\<lparr>oft_type := Adapter\<rparr>) None \<le> 10000" by (simp add: sample_store_def final_bps_def)
  from transfer_split_exact [OF c taxed_law this] c
  show "compute_fee_and_adjust_amount (taxed g) 1234567890 (sample_store\<lparr>oft_type := Adapter\<rparr>) 77 None =
       Ok (1234567677, 1218556000, 3666000) \<and>
     (1234567677 :: nat) = 1218556000 + 3666000 + withheld (taxed g) (sample_store\<lparr>oft_type := Adapter\<rparr>) 77 1234567677"
    by simp
qed

end
