(* ===== verification/Grs_Sales.thy ===== *)
theory Grs_Sales
  imports Grs_Fees
begin

text \<open>
  The token sales of the GRS program: the home book (\<open>set_sale.rs\<close>), purchases and their previews
  (\<open>buy.rs\<close>), and the publication of a lot to another chain (\<open>publish_sale.rs\<close>).

  A sale's account exists exactly when \<open>sales\<close> has its id: only the program creates accounts at
  its addresses, so "the data is empty" is \<open>sales w sid = None\<close>, and data there is a sale account
  owned by the program.
\<close>

section \<open>\<open>set_sale.rs\<close>\<close>

definition SALE_ACCOUNT_SPACE :: nat where
  "SALE_ACCOUNT_SPACE = 8 + (8 + 32 + 32 + 8 + 8 + 32 + 1)"

text \<open>The escrow's balance is read when the account is loaded: zero when it was just created.\<close>

definition escrow_amount :: "pubkey \<Rightarrow> grs_world \<Rightarrow> u64" where
  "escrow_amount k w = (case token_accounts (gledger w) k of Some a \<Rightarrow> tk_amount a | None \<Rightarrow> 0)"

record set_sale_accounts =
  ss_admin :: pubkey
  ss_token_mint :: pubkey
  ss_sale :: pubkey
  ss_inventory_source :: pubkey

definition accounts_SetSale :: "env \<Rightarrow> genv \<Rightarrow> set_sale_accounts \<Rightarrow> grs_world \<Rightarrow> (TokenAccount \<times> Mint \<times> grs_world) gres" where
  "accounts_SetSale e g ac w =
     and_then (require (os_admin (oft_store w) = ss_admin ac) OFT_Unauthorized) (\<lambda>_.
     and_then (require (token_mint w = ss_token_mint ac) InvalidMintAuthority) (\<lambda>_.
     and_then (constraint (sr_oft_store (sale_registry w) = store_key g)) (\<lambda>_.
     and_then (token_init_if_needed e (ss_admin ac) (sale_escrow_key g) (token_mint w) (config_key g) w) (\<lambda>w.
     and_then (token_account (ss_inventory_source ac) (token_mint w) None w) (\<lambda>src.
     and_then (load_mint w) (\<lambda>mi. Ok (src, mi, w)))))))"

text \<open>A new lot is earmarked, out of the free balance first and the admin's tokens for the rest.\<close>

definition reserve_lot ::
  "genv \<Rightarrow> set_sale_accounts \<Rightarrow> TokenAccount \<Rightarrow> Mint \<Rightarrow> u64 \<Rightarrow> u64 \<Rightarrow> grs_world \<Rightarrow> grs_world gres" where
  "reserve_lot g ac src mi amount grs_amount w =
     (if 0 < grs_amount then
         let free = free_sale_inventory (grs_config w) amount in
         and_then (if free < grs_amount then
                     and_then (ok_or (checked_sub grs_amount free) InsufficientInventory) (\<lambda>need.
                     and_then (require (tk_owner src = ss_admin ac) OFT_Unauthorized) (\<lambda>_.
                     ginvoke (transfer_checked g (ss_inventory_source ac) (token_mint w) (sale_escrow_key g)
                       (ss_admin ac) need (mi_decimals mi)) w))
                   else Ok w) (\<lambda>w.
         and_then (ok_or (checked_add (sales_reserved (grs_config w)) grs_amount) InsufficientInventory) (\<lambda>r.
         Ok (w\<lparr>grs_config := (grs_config w)\<lparr>sales_reserved := r\<rparr>\<rparr>)))
       else Ok w)"

definition sale_append ::
  "env \<Rightarrow> genv \<Rightarrow> set_sale_accounts \<Rightarrow> TokenAccount \<Rightarrow> Mint \<Rightarrow> u64 \<Rightarrow> pubkey \<Rightarrow> u64 \<Rightarrow> u64 \<Rightarrow> pubkey \<Rightarrow>
   grs_world \<Rightarrow> (u64 \<times> grs_world) gres" where
  "sale_append e g ac src mi sid asset asset_amount grs_amount recipient w =
     and_then (require (recipient \<noteq> GRS_PROGRAM_ID) InvalidRecipient) (\<lambda>_.
     and_then (require (recipient \<noteq> store_key g) InvalidRecipient) (\<lambda>_.
     and_then (require (recipient \<noteq> sale_escrow_key g) InvalidRecipient) (\<lambda>_.
     and_then (require (\<not> (0 < grs_amount \<and> asset_amount = 0)) InvalidAssetAmount) (\<lambda>_.
     and_then (require (ss_sale ac = gpda g (SaleSeed sid)) InvalidSaleId) (\<lambda>_.
     and_then (require (sales w sid = None) InvalidSaleId) (\<lambda>_.
     let amount = escrow_amount (sale_escrow_key g) w in
     and_then (ginvoke (sys_create_account e (ss_admin ac) (ss_sale ac) (rent_minimum e SALE_ACCOUNT_SPACE)
                 SALE_ACCOUNT_SPACE GRS_PROGRAM_ID) w) (\<lambda>w.
     and_then (reserve_lot g ac src mi amount grs_amount w) (\<lambda>w.
     Ok (sid, w\<lparr>sales := (sales w)(sid \<mapsto> \<lparr> sa_id = sid, sa_oft_store = store_key g, sa_asset = asset,
                  sa_asset_amount = asset_amount, sa_grs_amount = grs_amount, sa_recipient = recipient,
                  sa_bump = gpda_bump g (SaleSeed sid) \<rparr>),
              sale_registry := (sale_registry w)\<lparr>sale_count := sid\<rparr>\<rparr>)))))))))"

definition sale_close :: "genv \<Rightarrow> set_sale_accounts \<Rightarrow> u64 \<Rightarrow> grs_world \<Rightarrow> (u64 \<times> grs_world) gres" where
  "sale_close g ac sid w =
     and_then (require (ss_sale ac = gpda g (SaleSeed sid)) UnknownSale) (\<lambda>_.
     and_then (ok_or (sales w sid) UnknownSale) (\<lambda>a.
     and_then (require (sa_oft_store a = store_key g) UnknownSale) (\<lambda>_.
     and_then (require (sa_id a = sid) UnknownSale) (\<lambda>_.
     let unsold = sa_grs_amount a in
     and_then (if 0 < unsold
               then and_then (ok_or (checked_sub (sales_reserved (grs_config w)) unsold) InsufficientInventory) (\<lambda>r.
                    Ok (w\<lparr>grs_config := (grs_config w)\<lparr>sales_reserved := r\<rparr>\<rparr>))
               else Ok w) (\<lambda>w.
     Ok (sid, w\<lparr>sales := (sales w)(sid \<mapsto> a\<lparr>sa_grs_amount := 0, sa_asset_amount := 0\<rparr>)\<rparr>))))))"

definition execute_set_sale ::
  "env \<Rightarrow> genv \<Rightarrow> set_sale_accounts \<Rightarrow> u64 \<Rightarrow> pubkey \<Rightarrow> u64 \<Rightarrow> u64 \<Rightarrow> pubkey \<Rightarrow> grs_world \<Rightarrow> (u64 \<times> grs_world) gres" where
  "execute_set_sale e g ac sid asset asset_amount grs_amount recipient w =
     and_then (accounts_SetSale e g ac w) (\<lambda>(src, mi, w).
     and_then (require (is_home (grs_config w)) NotHome) (\<lambda>_.
     let count = sale_count (sale_registry w) in
     and_then (ok_or (checked_add count 1) InvalidSaleId) (\<lambda>next_id.
     if sid = 0 \<or> sid = next_id
     then sale_append e g ac src mi next_id asset asset_amount grs_amount recipient w
     else if 0 < sid \<and> sid \<le> count then sale_close g ac sid w
     else Err InvalidSaleId)))"

text \<open>Used by \<open>lz_receive\<close>.\<close>

definition peek_sale_account :: "genv \<Rightarrow> pubkey \<Rightarrow> u64 \<Rightarrow> grs_world \<Rightarrow> (u64 \<times> bool) gres" where
  "peek_sale_account g sale_info sid w =
     and_then (require (0 < sid) UnknownSale) (\<lambda>_.
     and_then (require (sale_info = gpda g (SaleSeed sid)) OFT_InvalidRemainingAccounts) (\<lambda>_.
     case sales w sid of
       None \<Rightarrow> Ok (0, False)
     | Some a \<Rightarrow>
         and_then (require (sa_oft_store a = store_key g) OFT_InvalidRemainingAccounts) (\<lambda>_.
         and_then (require (sa_id a = sid) OFT_InvalidRemainingAccounts) (\<lambda>_.
         Ok (sa_grs_amount a, True)))))"

definition upsert_sale_account ::
  "env \<Rightarrow> genv \<Rightarrow> pubkey \<Rightarrow> pubkey \<Rightarrow> u64 \<Rightarrow> pubkey \<Rightarrow> u64 \<Rightarrow> u64 \<Rightarrow> pubkey \<Rightarrow> grs_world \<Rightarrow> grs_world gres" where
  "upsert_sale_account e g sale_info payer sid asset asset_amount grs_amount recipient w =
     and_then (require (0 < sid) UnknownSale) (\<lambda>_.
     and_then (require (sale_info = gpda g (SaleSeed sid)) OFT_InvalidRemainingAccounts) (\<lambda>_.
     and_then (case sales w sid of
                 None \<Rightarrow> ginvoke (sys_create_account e payer sale_info (rent_minimum e SALE_ACCOUNT_SPACE)
                           SALE_ACCOUNT_SPACE GRS_PROGRAM_ID) w
               | Some a \<Rightarrow>
                   and_then (require (sa_oft_store a = store_key g) OFT_InvalidRemainingAccounts) (\<lambda>_.
                   and_then (require (sa_id a = sid) OFT_InvalidRemainingAccounts) (\<lambda>_. Ok w))) (\<lambda>w.
     Ok (w\<lparr>sales := (sales w)(sid \<mapsto> \<lparr> sa_id = sid, sa_oft_store = store_key g, sa_asset = asset,
                  sa_asset_amount = asset_amount, sa_grs_amount = grs_amount, sa_recipient = recipient,
                  sa_bump = gpda_bump g (SaleSeed sid) \<rparr>)\<rparr>))))"

section \<open>\<open>buy.rs\<close>\<close>

text \<open>The sale at an id, as Anchor loads it: \<open>has_one = oft_store\<close>.\<close>

definition load_sale :: "genv \<Rightarrow> u64 \<Rightarrow> grs_world \<Rightarrow> SaleAccount gres" where
  "load_sale g sid w =
     and_then (account (sales w sid)) (\<lambda>a.
     and_then (constraint (sa_oft_store a = store_key g)) (\<lambda>_. Ok a))"

record buy_accounts =
  by_buyer :: pubkey
  by_token_mint :: pubkey
  by_payee :: pubkey
  by_to :: pubkey
  by_quote_mint :: "pubkey option"
  by_quote_source :: "pubkey option"
  by_quote_dest :: "pubkey option"
  by_quote_program :: "pubkey option"

definition accounts_Buy :: "env \<Rightarrow> genv \<Rightarrow> buy_accounts \<Rightarrow> u64 \<Rightarrow> grs_world \<Rightarrow> (SaleAccount \<times> Mint \<times> grs_world) gres" where
  "accounts_Buy e g ac sid w =
     and_then (require (token_mint w = by_token_mint ac) InvalidMintAuthority) (\<lambda>_.
     and_then (load_sale g sid w) (\<lambda>a.
     and_then (require (by_to ac \<noteq> default_pubkey) InvalidRecipient) (\<lambda>_.
     and_then (token_account (sale_escrow_key g) (token_mint w) (Some (config_key g)) w) (\<lambda>_.
     and_then (token_init_if_needed e (by_buyer ac) (ata e (by_to ac) (token_mint w)) (token_mint w) (by_to ac) w) (\<lambda>w.
     and_then (load_mint w) (\<lambda>mi. Ok (a, mi, w)))))))"

text \<open>An optional account that is given must be a mint or a token account.\<close>

definition pay_quote :: "env \<Rightarrow> genv \<Rightarrow> buy_accounts \<Rightarrow> pubkey \<Rightarrow> pubkey \<Rightarrow> u64 \<Rightarrow> grs_world \<Rightarrow> grs_world gres" where
  "pay_quote e g ac asset payee cost w =
     (if asset = default_pubkey then
        and_then (require (by_quote_mint ac = None \<and> by_quote_source ac = None \<and> by_quote_dest ac = None \<and>
                    by_quote_program ac = None) InvalidPayment) (\<lambda>_.
        and_then (ok_or (sys_transfer e (by_buyer ac) (by_payee ac) cost (gledger w)) PaymentFailed) (\<lambda>l.
        Ok (w\<lparr>gledger := l\<rparr>)))
      else
        and_then (ok_or (by_quote_mint ac) InvalidPayment) (\<lambda>quote_mint.
        and_then (ok_or (by_quote_source ac) InvalidPayment) (\<lambda>quote_source.
        and_then (ok_or (by_quote_dest ac) InvalidPayment) (\<lambda>quote_dest.
        and_then (ok_or (by_quote_program ac) InvalidPayment) (\<lambda>quote_program.
        and_then (account (mints (gledger w) quote_mint)) (\<lambda>qm.
        and_then (account (token_accounts (gledger w) quote_source)) (\<lambda>src.
        and_then (account (token_accounts (gledger w) quote_dest)) (\<lambda>dst.
        and_then (require (quote_mint = asset) InvalidPayment) (\<lambda>_.
        and_then (require (tk_mint src = asset) InvalidPayment) (\<lambda>_.
        and_then (require (tk_mint dst = asset) InvalidPayment) (\<lambda>_.
        and_then (require (tk_owner src = by_buyer ac) InvalidPayment) (\<lambda>_.
        and_then (require (tk_owner dst = payee) InvalidPayment) (\<lambda>_.
        and_then (require (program_owner (gledger w) quote_mint = quote_program) InvalidPayment) (\<lambda>_.
        ginvoke (transfer_checked g quote_source quote_mint quote_dest (by_buyer ac) cost (mi_decimals qm)) w))))))))))))))"

definition execute_buy :: "env \<Rightarrow> genv \<Rightarrow> buy_accounts \<Rightarrow> u64 \<Rightarrow> u64 \<Rightarrow> grs_world \<Rightarrow> (u64 \<times> grs_world) gres" where
  "execute_buy e g ac sid amount_ld w =
     and_then (accounts_Buy e g ac sid w) (\<lambda>(sale, mi, w).
     and_then (require (sa_id sale = sid) UnknownSale) (\<lambda>_.
     let row = row sale in
     and_then (quote_cost amount_ld (sl_grs_amount row) (sl_asset_amount row)) (\<lambda>cost.
     let payee = (if sl_recipient row = default_pubkey then os_admin (oft_store w) else sl_recipient row) in
     and_then (require (by_payee ac = payee) InvalidRecipient) (\<lambda>_.
     and_then (ok_or (checked_add (token_sales_spent (grs_config w)) amount_ld) BucketExceeded) (\<lambda>spent.
     and_then (ok_or (checked_sub (sales_reserved (grs_config w)) amount_ld) InsufficientInventory) (\<lambda>reserved.
     and_then (ok_or (checked_sub (sl_grs_amount row) amount_ld) SaleExceeded) (\<lambda>grs_left.
     and_then (ok_or (checked_sub (sl_asset_amount row) cost) InvalidPayment) (\<lambda>asset_left.
     let w = w\<lparr>grs_config := (grs_config w)\<lparr>token_sales_spent := spent, sales_reserved := reserved\<rparr>,
               sales := (sales w)(sid \<mapsto> sale\<lparr>sa_grs_amount := grs_left, sa_asset_amount := asset_left\<rparr>)\<rparr> in
     and_then (ginvoke (transfer_checked g (sale_escrow_key g) (token_mint w) (ata e (by_to ac) (token_mint w))
                 (config_key g) amount_ld (mi_decimals mi)) w) (\<lambda>w.
     and_then (pay_quote e g ac (sl_asset row) payee cost w) (\<lambda>w.
     Ok (cost, w)))))))))))"

definition execute_quote_buy :: "genv \<Rightarrow> u64 \<Rightarrow> u64 \<Rightarrow> grs_world \<Rightarrow> u64 gres" where
  "execute_quote_buy g sid amount_ld w =
     and_then (load_sale g sid w) (\<lambda>a.
     and_then (require (sa_id a = sid) UnknownSale) (\<lambda>_.
     quote_cost amount_ld (sa_grs_amount a) (sa_asset_amount a)))"

text \<open>One row of a page; the id is 1-based.\<close>

definition list_sale :: "genv \<Rightarrow> u64 \<Rightarrow> pubkey \<Rightarrow> grs_world \<Rightarrow> Sale gres" where
  "list_sale g sid info w =
     and_then (require (info = gpda g (SaleSeed sid)) OFT_InvalidRemainingAccounts) (\<lambda>_.
     case sales w sid of
       None \<Rightarrow> Ok closed_sale
     | Some a \<Rightarrow>
         and_then (require (sa_oft_store a = store_key g) OFT_InvalidRemainingAccounts) (\<lambda>_.
         and_then (require (sa_id a = sid) OFT_InvalidRemainingAccounts) (\<lambda>_. Ok (row a))))"

fun list_sales :: "genv \<Rightarrow> nat \<Rightarrow> pubkey list \<Rightarrow> grs_world \<Rightarrow> Sale list gres" where
  "list_sales g i [] w = Ok []"
| "list_sales g i (info # infos) w =
     and_then (list_sale g (word_of_nat (i + 1)) info w) (\<lambda>s.
     and_then (list_sales g (i + 1) infos w) (\<lambda>ss. Ok (s # ss)))"

definition execute_get_sales :: "genv \<Rightarrow> pubkey list \<Rightarrow> u64 \<Rightarrow> u64 \<Rightarrow> grs_world \<Rightarrow> Sale list gres" where
  "execute_get_sales g remaining offset limit w =
     and_then (constraint (sr_oft_store (sale_registry w) = store_key g)) (\<lambda>_.
     and_then (sale_page_bounds (sale_count (sale_registry w)) offset limit) (\<lambda>(from, to).
     and_then (require (length remaining = to - from) OFT_InvalidRemainingAccounts) (\<lambda>_.
     list_sales g from remaining w)))"

section \<open>\<open>publish_sale.rs\<close>\<close>

text \<open>\<open>remaining_accounts[1]\<close>, which panics when there is none.\<close>

definition second_account :: "pubkey list \<Rightarrow> pubkey gres" where
  "second_account ks = or_panic (if 1 < length ks then Some (ks ! 1) else None)"

definition no_compose_options :: "genv \<Rightarrow> PeerConfig \<Rightarrow> bytes gres" where
  "no_compose_options g peer =
     combine_options (\<lambda>a b. cpi (oapp_combine_options g a b)) (enforced_options peer) None []"

definition endpoint_send_as :: "genv \<Rightarrow> pubkey list \<Rightarrow> EndpointSendParams \<Rightarrow> grs_world \<Rightarrow> (MessagingReceipt \<times> grs_world) gres" where
  "endpoint_send_as g remaining p w =
     and_then (cpi (endpoint_send g (endpoint_program (oft_store w)) (store_key g) remaining p (gledger w))) (\<lambda>(l, receipt).
     Ok (receipt, w\<lparr>gledger := l\<rparr>))"

definition sale_message :: "genv \<Rightarrow> u64 \<Rightarrow> Sale \<Rightarrow> bytes" where
  "sale_message g sid s =
     encode_sale (keccak g) sid (sl_asset s) (sl_asset_amount s) (sl_grs_amount s) (sl_recipient s)"

definition sale_is_closed :: "Sale \<Rightarrow> bool" where
  "sale_is_closed s \<longleftrightarrow> sl_grs_amount s = 0 \<and> sl_asset_amount s = 0"

text \<open>The open publish: account for the lot and burn it.\<close>

definition burn_lot :: "env \<Rightarrow> genv \<Rightarrow> Sale \<Rightarrow> grs_world \<Rightarrow> grs_world gres" where
  "burn_lot e g s w =
     and_then (require (0 < sl_grs_amount s \<and> 0 < sl_asset_amount s) SaleClosed) (\<lambda>_.
     and_then (require (sl_grs_amount s mod GRS_LD2SD_RATE = 0) InvalidSaleMessage) (\<lambda>_.
     and_then (ok_or (checked_add (token_sales_spent (grs_config w)) (sl_grs_amount s)) BucketExceeded) (\<lambda>spent.
     and_then (ok_or (checked_sub (sales_reserved (grs_config w)) (sl_grs_amount s)) InsufficientInventory) (\<lambda>reserved.
     let w = w\<lparr>grs_config := (grs_config w)\<lparr>token_sales_spent := spent, sales_reserved := reserved\<rparr>\<rparr> in
     ginvoke (spl_burn e (token_mint w) (sale_escrow_key g) (config_key g) (sl_grs_amount s)) w))))"

definition execute_publish_sale ::
  "env \<Rightarrow> genv \<Rightarrow> pubkey \<Rightarrow> pubkey list \<Rightarrow> u32 \<Rightarrow> u64 \<Rightarrow> u64 \<Rightarrow> grs_world \<Rightarrow> (MessagingReceipt \<times> grs_world) gres" where
  "execute_publish_sale e g admin remaining dst_eid sid native_fee w =
     and_then (load_peer dst_eid w) (\<lambda>peer.
     and_then (require (os_admin (oft_store w) = admin) OFT_Unauthorized) (\<lambda>_.
     and_then (load_sale g sid w) (\<lambda>sale.
     and_then (token_account (sale_escrow_key g) (token_mint w) (Some (config_key g)) w) (\<lambda>_.
     and_then (load_mint w) (\<lambda>_.
     and_then (require (is_home (grs_config w)) NotHome) (\<lambda>_.
     and_then (require (\<not> os_paused (oft_store w)) OFT_Paused) (\<lambda>_.
     and_then (require (sa_id sale = sid) UnknownSale) (\<lambda>_.
     and_then (second_account remaining) (\<lambda>k.
     and_then (require (store_key g = k) InvalidSender) (\<lambda>_.
     let row = row sale in
     and_then (if sale_is_closed row then Ok w else burn_lot e g row w) (\<lambda>w.
     and_then (no_compose_options g peer) (\<lambda>options.
     and_then (endpoint_send_as g remaining
                \<lparr> sp_dst_eid = dst_eid, sp_receiver = peer_address peer, sp_message = sale_message g sid row,
                  sp_options = options, sp_native_fee = native_fee, sp_lz_token_fee = 0 \<rparr> w) (\<lambda>(receipt, w).
     Ok (receipt, w\<lparr>sales := (sales w)(sid \<mapsto> sale\<lparr>sa_grs_amount := 0, sa_asset_amount := 0\<rparr>)\<rparr>))))))))))))))"

definition execute_quote_sale :: "genv \<Rightarrow> pubkey list \<Rightarrow> u32 \<Rightarrow> u64 \<Rightarrow> grs_world \<Rightarrow> MessagingFee gres" where
  "execute_quote_sale g remaining dst_eid sid w =
     and_then (load_peer dst_eid w) (\<lambda>peer.
     and_then (load_sale g sid w) (\<lambda>sale.
     and_then (require (is_home (grs_config w)) NotHome) (\<lambda>_.
     and_then (require (\<not> os_paused (oft_store w)) OFT_Paused) (\<lambda>_.
     and_then (require (sa_id sale = sid) UnknownSale) (\<lambda>_.
     let row = row sale in
     and_then (if sale_is_closed row then Ok ()
               else and_then (require (0 < sl_grs_amount row \<and> 0 < sl_asset_amount row) SaleClosed) (\<lambda>_.
                    require (sl_grs_amount row mod GRS_LD2SD_RATE = 0) InvalidSaleMessage)) (\<lambda>_.
     and_then (no_compose_options g peer) (\<lambda>options.
     cpi (endpoint_quote g (endpoint_program (oft_store w)) remaining
       \<lparr> qp_sender = store_key g, qp_dst_eid = dst_eid, qp_receiver = peer_address peer,
         qp_message = sale_message g sid row, qp_pay_in_lz_token = False, qp_options = options \<rparr> (gledger w)))))))))"

end
