(* ===== verification/Grs_Vesting.thy ===== *)
theory Grs_Vesting
  imports Grs_Sales
begin

text \<open>
  Holder-funded vesting (\<open>vest.rs\<close>), release (\<open>release.rs\<close>), the views (\<open>get_vestings.rs\<close>) and
  the two helpers of \<open>lz_receive.rs\<close> that open a vesting on arrival of a grant.
\<close>

definition VESTING_SPACE :: nat where
  "VESTING_SPACE = 8 + (8 + 32 + 32 + 32 + 8 + 8 + 8 + 8 + 8 + 1)"

section \<open>\<open>vest.rs\<close>\<close>

record vest_accounts =
  va_funder :: pubkey
  va_token_mint :: pubkey
  va_token_source :: pubkey

text \<open>\<open>init\<close> of the vesting account fails when it exists.\<close>

definition accounts_Vest :: "env \<Rightarrow> genv \<Rightarrow> vest_accounts \<Rightarrow> u64 \<Rightarrow> grs_world \<Rightarrow> (Mint \<times> grs_world) gres" where
  "accounts_Vest e g ac vid w =
     and_then (require (token_mint w = va_token_mint ac) InvalidMintAuthority) (\<lambda>_.
     and_then (constraint (vestings w vid = None)) (\<lambda>_.
     and_then (ginvoke (anchor_init e (va_funder ac) (gpda g (VestSeed vid)) VESTING_SPACE) w) (\<lambda>w.
     and_then (token_init_if_needed e (va_funder ac) (vest_escrow_key g) (token_mint w) (config_key g) w) (\<lambda>w.
     and_then (token_account (va_token_source ac) (token_mint w) (Some (va_funder ac)) w) (\<lambda>_.
     and_then (load_mint w) (\<lambda>mi. Ok (mi, w)))))))"

text \<open>The schedule of a new vesting: a start of zero is now.\<close>

definition schedule :: "i64 \<Rightarrow> u64 \<Rightarrow> u64 \<Rightarrow> u64 \<Rightarrow> (u64 \<times> u64 \<times> u64) gres" where
  "schedule now start cliff_seconds duration_seconds =
     and_then (if start = 0 then now_ts now else Ok start) (\<lambda>start.
     and_then (ok_or (checked_add start cliff_seconds) InvalidSchedule) (\<lambda>cliff_end.
     and_then (ok_or (checked_add cliff_end duration_seconds) InvalidSchedule) (\<lambda>end_time.
     Ok (start, cliff_end, end_time))))"

definition execute_vest ::
  "env \<Rightarrow> genv \<Rightarrow> vest_accounts \<Rightarrow> u64 \<Rightarrow> pubkey \<Rightarrow> u64 \<Rightarrow> u64 \<Rightarrow> u64 \<Rightarrow> u64 \<Rightarrow> grs_world \<Rightarrow> grs_world gres" where
  "execute_vest e g ac vid to amount_ld start cliff_seconds duration_seconds w =
     and_then (accounts_Vest e g ac vid w) (\<lambda>(mi, w).
     and_then (require (to \<noteq> default_pubkey) InvalidRecipient) (\<lambda>_.
     and_then (require (to \<noteq> GRS_PROGRAM_ID) InvalidRecipient) (\<lambda>_.
     and_then (require (to \<noteq> store_key g) InvalidRecipient) (\<lambda>_.
     and_then (require (to \<noteq> vest_escrow_key g) InvalidRecipient) (\<lambda>_.
     and_then (require (0 < amount_ld) OFT_ZeroAmount) (\<lambda>_.
     and_then (require (\<not> (cliff_seconds = 0 \<and> duration_seconds = 0)) InstantNotVest) (\<lambda>_.
     and_then (require (cliff_seconds \<le> GRS_MAX_CLIFF_SECONDS) InvalidSchedule) (\<lambda>_.
     and_then (require (duration_seconds \<le> GRS_MAX_DURATION_SECONDS) InvalidSchedule) (\<lambda>_.
     and_then (ok_or (checked_add (vesting_count (grs_config w)) 1) InvalidSchedule) (\<lambda>next_id.
     and_then (require (vid = next_id) InvalidVestingId) (\<lambda>_.
     and_then (schedule (unix_timestamp e) start cliff_seconds duration_seconds) (\<lambda>(start, cliff_end, end_time).
     and_then (ginvoke (transfer_checked g (va_token_source ac) (token_mint w) (vest_escrow_key g)
                 (va_funder ac) amount_ld (mi_decimals mi)) w) (\<lambda>w.
     Ok (w\<lparr>vestings := (vestings w)(vid \<mapsto> \<lparr> ve_id = vid, ve_oft_store = store_key g, funder = va_funder ac,
              beneficiary = to, allocation_ld = amount_ld, released_ld = 0, ve_start = start,
              cliff_end = cliff_end, ve_end = end_time, ve_bump = gpda_bump g (VestSeed vid) \<rparr>),
           grs_config := (grs_config w)\<lparr>vesting_count := next_id\<rparr>\<rparr>))))))))))))))"

section \<open>\<open>release.rs\<close>\<close>

record release_accounts =
  ra_payer :: pubkey
  ra_token_mint :: pubkey
  ra_vesting :: u64     \<comment> \<open>the id of the vesting account passed\<close>
  ra_beneficiary :: pubkey

definition accounts_Release :: "env \<Rightarrow> genv \<Rightarrow> release_accounts \<Rightarrow> grs_world \<Rightarrow> (Vesting \<times> Mint \<times> grs_world) gres" where
  "accounts_Release e g ac w =
     and_then (require (token_mint w = ra_token_mint ac) InvalidMintAuthority) (\<lambda>_.
     and_then (account (vestings w (ra_vesting ac))) (\<lambda>v.
     and_then (constraint (ve_id v = ra_vesting ac)) (\<lambda>_.
     and_then (require (ve_oft_store v = store_key g) InvalidSender) (\<lambda>_.
     and_then (token_account (vest_escrow_key g) (token_mint w) (Some (config_key g)) w) (\<lambda>_.
     and_then (require (ra_beneficiary ac = beneficiary v) InvalidRecipient) (\<lambda>_.
     and_then (token_init_if_needed e (ra_payer ac) (ata e (ra_beneficiary ac) (token_mint w)) (token_mint w)
                 (ra_beneficiary ac) w) (\<lambda>w.
     and_then (load_mint w) (\<lambda>mi. Ok (v, mi, w)))))))))"

definition execute_release :: "env \<Rightarrow> genv \<Rightarrow> release_accounts \<Rightarrow> grs_world \<Rightarrow> grs_world gres" where
  "execute_release e g ac w =
     and_then (accounts_Release e g ac w) (\<lambda>(v, mi, w).
     and_then (now_ts (unix_timestamp e)) (\<lambda>now.
     let amount_ld = releasable_at v now in
     and_then (require (0 < amount_ld) NothingToRelease) (\<lambda>_.
     and_then (ok_or (checked_add (released_ld v) amount_ld) InvalidSchedule) (\<lambda>released.
     let w = w\<lparr>vestings := (vestings w)(ra_vesting ac \<mapsto> v\<lparr>released_ld := released\<rparr>)\<rparr> in
     ginvoke (transfer_checked g (vest_escrow_key g) (token_mint w) (ata e (ra_beneficiary ac) (token_mint w))
       (config_key g) amount_ld (mi_decimals mi)) w))))"

text \<open>\<open>ReadVesting\<close> takes any vesting account.\<close>

definition execute_vested :: "u64 \<Rightarrow> u64 \<Rightarrow> grs_world \<Rightarrow> u64 gres" where
  "execute_vested vid timestamp w =
     and_then (account (vestings w vid)) (\<lambda>v. Ok (vested_at v timestamp))"

definition execute_releasable :: "env \<Rightarrow> u64 \<Rightarrow> grs_world \<Rightarrow> u64 gres" where
  "execute_releasable e vid w =
     and_then (account (vestings w vid)) (\<lambda>v.
     and_then (now_ts (unix_timestamp e)) (\<lambda>now. Ok (releasable_at v now)))"

section \<open>\<open>get_vestings.rs\<close>\<close>

record VestingView =
  vv_id :: u64
  vv_oft_store :: pubkey
  vv_funder :: pubkey
  vv_beneficiary :: pubkey
  vv_allocation_ld :: u64
  vv_released_ld :: u64
  vv_start :: u64
  vv_cliff_end :: u64
  vv_end :: u64

definition view_of :: "Vesting \<Rightarrow> VestingView" where
  "view_of v = \<lparr> vv_id = ve_id v, vv_oft_store = ve_oft_store v, vv_funder = funder v,
     vv_beneficiary = beneficiary v, vv_allocation_ld = allocation_ld v, vv_released_ld = released_ld v,
     vv_start = ve_start v, vv_cliff_end = cliff_end v, vv_end = ve_end v \<rparr>"

definition list_vesting :: "genv \<Rightarrow> u64 \<Rightarrow> pubkey \<Rightarrow> grs_world \<Rightarrow> VestingView gres" where
  "list_vesting g vid info w =
     and_then (require (info = gpda g (VestSeed vid)) OFT_InvalidRemainingAccounts) (\<lambda>_.
     and_then (ok_or (vestings w vid) OFT_InvalidRemainingAccounts) (\<lambda>v.
     and_then (require (ve_oft_store v = store_key g) OFT_InvalidRemainingAccounts) (\<lambda>_.
     and_then (require (ve_id v = vid) OFT_InvalidRemainingAccounts) (\<lambda>_. Ok (view_of v)))))"

fun list_vestings :: "genv \<Rightarrow> nat \<Rightarrow> pubkey list \<Rightarrow> grs_world \<Rightarrow> VestingView list gres" where
  "list_vestings g i [] w = Ok []"
| "list_vestings g i (info # infos) w =
     and_then (list_vesting g (word_of_nat (i + 1)) info w) (\<lambda>v.
     and_then (list_vestings g (i + 1) infos w) (\<lambda>vs. Ok (v # vs)))"

definition execute_get_vestings :: "genv \<Rightarrow> pubkey list \<Rightarrow> u64 \<Rightarrow> u64 \<Rightarrow> grs_world \<Rightarrow> VestingView list gres" where
  "execute_get_vestings g remaining offset limit w =
     and_then (vesting_page_bounds (vesting_count (grs_config w)) offset limit) (\<lambda>(from, to).
     and_then (require (length remaining = to - from) OFT_InvalidRemainingAccounts) (\<lambda>_.
     list_vestings g from remaining w))"

section \<open>Helpers of \<open>lz_receive.rs\<close>\<close>

definition TOKEN_ACCOUNT_SPACE :: nat where "TOKEN_ACCOUNT_SPACE = 165"

text \<open>
  A non-empty account at the escrow's address needs only the right owning program: its contents
  are not checked.
\<close>

definition ensure_vest_escrow :: "env \<Rightarrow> genv \<Rightarrow> pubkey \<Rightarrow> pubkey \<Rightarrow> pubkey \<Rightarrow> grs_world \<Rightarrow> grs_world gres" where
  "ensure_vest_escrow e g vest_escrow payer token_program w =
     and_then (require (vest_escrow = vest_escrow_key g) OFT_InvalidRemainingAccounts) (\<lambda>_.
     if token_accounts (gledger w) vest_escrow \<noteq> None
     then and_then (require (program_owner (gledger w) vest_escrow = token_program) OFT_InvalidRemainingAccounts) (\<lambda>_. Ok w)
     else
       and_then (ginvoke (sys_create_account e payer vest_escrow (rent_minimum e TOKEN_ACCOUNT_SPACE)
                   TOKEN_ACCOUNT_SPACE token_program) w) (\<lambda>w.
       ginvoke (spl_initialize_account3 e vest_escrow (token_mint w) (config_key g)) w))"

definition init_grant_vesting ::
  "env \<Rightarrow> genv \<Rightarrow> pubkey \<Rightarrow> pubkey \<Rightarrow> u64 \<Rightarrow> pubkey \<Rightarrow> pubkey \<Rightarrow> u64 \<Rightarrow> u64 \<Rightarrow> u64 \<Rightarrow> u64 \<Rightarrow> grs_world \<Rightarrow> grs_world gres" where
  "init_grant_vesting e g vesting_info payer vid from to amount_ld start cliff_seconds duration_seconds w =
     and_then (require (0 < vid) InvalidVestingId) (\<lambda>_.
     and_then (require (vesting_info = gpda g (VestSeed vid)) OFT_InvalidRemainingAccounts) (\<lambda>_.
     and_then (require (vestings w vid = None) InvalidVestingId) (\<lambda>_.
     and_then (schedule (unix_timestamp e) start cliff_seconds duration_seconds) (\<lambda>(start, cliff_end, end_time).
     and_then (ginvoke (sys_create_account e payer vesting_info (rent_minimum e VESTING_SPACE) VESTING_SPACE
                 GRS_PROGRAM_ID) w) (\<lambda>w.
     Ok (w\<lparr>vestings := (vestings w)(vid \<mapsto> \<lparr> ve_id = vid, ve_oft_store = store_key g, funder = from,
              beneficiary = to, allocation_ld = amount_ld, released_ld = 0, ve_start = start,
              cliff_end = cliff_end, ve_end = end_time, ve_bump = gpda_bump g (VestSeed vid) \<rparr>)\<rparr>))))))"

end
