(* ===== verification/Grs_Bridge.thy ===== *)
theory Grs_Bridge
  imports Grs_Vesting
begin

text \<open>
  The cross-chain transfers: \<open>send.rs\<close> and \<open>bridge\<close>, the receiver \<open>lz_receive.rs\<close> with its three
  messages - a transfer, a sale, a grant - and the account list the executor asks for
  (\<open>lz_receive_types.rs\<close>).
\<close>

section \<open>\<open>send.rs\<close>\<close>

record SendParams =
  sd_dst_eid :: u32
  sd_to :: bytes32
  sd_amount_ld :: u64
  sd_min_amount_ld :: u64
  sd_options :: bytes
  sd_compose_msg :: "bytes option"
  sd_native_fee :: u64
  sd_lz_token_fee :: u64

text \<open>An optional limiter: nothing happens when there is none.\<close>

definition with_limiter :: "(RateLimiter \<Rightarrow> RateLimiter gres) \<Rightarrow> RateLimiter option \<Rightarrow> RateLimiter option gres" where
  "with_limiter f x = (case x of None \<Rightarrow> Ok None | Some r \<Rightarrow> and_then (f r) (\<lambda>r. Ok (Some r)))"

definition limit_outbound :: "i64 \<Rightarrow> u64 \<Rightarrow> PeerConfig \<Rightarrow> PeerConfig gres" where
  "limit_outbound now amount peer =
     and_then (with_limiter (try_consume now amount) (outbound_rate_limiter peer)) (\<lambda>o'.
     and_then (with_limiter (refill now amount) (inbound_rate_limiter peer)) (\<lambda>i'.
     Ok (peer\<lparr>outbound_rate_limiter := o', inbound_rate_limiter := i'\<rparr>)))"

definition limit_inbound :: "i64 \<Rightarrow> u64 \<Rightarrow> PeerConfig \<Rightarrow> PeerConfig gres" where
  "limit_inbound now amount peer =
     and_then (with_limiter (try_consume now amount) (inbound_rate_limiter peer)) (\<lambda>i'.
     and_then (with_limiter (refill now amount) (outbound_rate_limiter peer)) (\<lambda>o'.
     Ok (peer\<lparr>inbound_rate_limiter := i', outbound_rate_limiter := o'\<rparr>)))"

text \<open>An adapter locks the whole amount; a native OFT burns it but for the fee.\<close>

definition lock_or_burn :: "env \<Rightarrow> genv \<Rightarrow> pubkey \<Rightarrow> pubkey \<Rightarrow> Mint \<Rightarrow> u64 \<Rightarrow> u64 \<Rightarrow> u64 \<Rightarrow> grs_world \<Rightarrow> grs_world gres" where
  "lock_or_burn e g signer token_source mi sent received fee w =
     (if oft_type (oft_store w) = Adapter
      then and_then (or_panic (checked_add (tvl_ld (oft_store w)) received)) (\<lambda>tvl.
           ginvoke (transfer_checked g token_source (token_mint w) (token_escrow_key g) signer sent (mi_decimals mi))
             (w\<lparr>oft_store := (oft_store w)\<lparr>tvl_ld := tvl\<rparr>\<rparr>))
      else and_then (or_panic (checked_sub sent fee)) (\<lambda>burnt.
           and_then (ginvoke (spl_burn e (token_mint w) token_source signer burnt) w) (\<lambda>w.
           if 0 < fee
           then ginvoke (transfer_checked g token_source (token_mint w) (token_escrow_key g) signer fee (mi_decimals mi)) w
           else Ok w)))"

definition execute_send ::
  "env \<Rightarrow> genv \<Rightarrow> pubkey \<Rightarrow> pubkey \<Rightarrow> pubkey list \<Rightarrow> SendParams \<Rightarrow> grs_world \<Rightarrow>
   ((MessagingReceipt \<times> OFTReceipt) \<times> grs_world) gres" where
  "execute_send e g signer token_source remaining params w =
     and_then (load_peer (sd_dst_eid params) w) (\<lambda>peer.
     and_then (token_account token_source (token_mint w) (Some signer) w) (\<lambda>_.
     and_then (token_account (token_escrow_key g) (token_mint w) (Some (store_key g)) w) (\<lambda>_.
     and_then (load_mint w) (\<lambda>mi.
     and_then (require (\<not> os_paused (oft_store w)) OFT_Paused) (\<lambda>_.
     and_then (compute_fee_and_adjust_amount g (sd_amount_ld params) (oft_store w) (token_mint w) (fee_bps peer))
       (\<lambda>(amount_sent_ld, amount_received_ld, oft_fee_ld).
     and_then (require (sd_min_amount_ld params \<le> amount_received_ld) SlippageExceeded) (\<lambda>_.
     and_then (limit_outbound (unix_timestamp e) amount_received_ld peer) (\<lambda>peer.
     let w = w\<lparr>peers := (peers w)(sd_dst_eid params \<mapsto> peer)\<rparr> in
     and_then (lock_or_burn e g signer token_source mi amount_sent_ld amount_received_ld oft_fee_ld w) (\<lambda>w.
     and_then (second_account remaining) (\<lambda>k.
     and_then (require (store_key g = k) InvalidSender) (\<lambda>_.
     and_then (require (sd_compose_msg params = None) ComposeDisabled) (\<lambda>_.
     and_then (require (sd_to params \<noteq> sale_msg_type (keccak g) \<and> sd_to params \<noteq> grant_msg_type (keccak g))
                 InvalidRecipient) (\<lambda>_.
     and_then (ld2sd (oft_store w) amount_received_ld) (\<lambda>amount.
     and_then (combine_options (\<lambda>a b. cpi (oapp_combine_options g a b)) (enforced_options peer)
                 (sd_compose_msg params) (sd_options params)) (\<lambda>options.
     and_then (endpoint_send_as g remaining
                \<lparr> sp_dst_eid = sd_dst_eid params, sp_receiver = peer_address peer,
                  sp_message = encode (sd_to params) amount signer (sd_compose_msg params),
                  sp_options = options, sp_native_fee = sd_native_fee params,
                  sp_lz_token_fee = sd_lz_token_fee params \<rparr> w) (\<lambda>(receipt, w).
     Ok ((receipt, \<lparr> or_amount_sent_ld = amount_sent_ld, or_amount_received_ld = amount_received_ld \<rparr>), w)))))))))))))))))"

text \<open>\<open>bridge\<close> (\<open>lib.rs\<close>).\<close>

definition execute_bridge ::
  "env \<Rightarrow> genv \<Rightarrow> pubkey \<Rightarrow> pubkey \<Rightarrow> pubkey list \<Rightarrow> u32 \<Rightarrow> bytes32 \<Rightarrow> u64 \<Rightarrow> u64 \<Rightarrow> grs_world \<Rightarrow>
   ((MessagingReceipt \<times> OFTReceipt) \<times> grs_world) gres" where
  "execute_bridge e g signer token_source remaining dst_eid to amount_ld native_fee w =
     execute_send e g signer token_source remaining
       \<lparr> sd_dst_eid = dst_eid, sd_to = to, sd_amount_ld = amount_ld, sd_min_amount_ld = bridge_min amount_ld,
         sd_options = [], sd_compose_msg = None, sd_native_fee = native_fee, sd_lz_token_fee = 0 \<rparr> w"

section \<open>\<open>lz_receive.rs\<close>\<close>

record lz_receive_accounts =
  lr_payer :: pubkey
  lr_sale :: pubkey
  lr_vest_escrow :: pubkey
  lr_to_address :: pubkey
  lr_mint_authority :: "pubkey option"
  lr_token_program :: pubkey

definition accounts_LzReceive ::
  "env \<Rightarrow> genv \<Rightarrow> lz_receive_accounts \<Rightarrow> LzReceiveParams \<Rightarrow> grs_world \<Rightarrow> (PeerConfig \<times> Mint \<times> grs_world) gres" where
  "accounts_LzReceive e g ac params w =
     and_then (load_peer (rp_src_eid params) w) (\<lambda>peer.
     and_then (require (peer_address peer = rp_sender params) InvalidSender) (\<lambda>_.
     and_then (constraint (sr_oft_store (sale_registry w) = store_key g)) (\<lambda>_.
     and_then (token_init_if_needed e (lr_payer ac) (sale_escrow_key g) (token_mint w) (config_key g) w) (\<lambda>w.
     and_then (token_account (token_escrow_key g) (token_mint w) (Some (store_key g)) w) (\<lambda>_.
     and_then (token_init_if_needed e (lr_payer ac) (ata e (lr_to_address ac) (token_mint w)) (token_mint w)
                 (lr_to_address ac) w) (\<lambda>w.
     and_then (load_mint w) (\<lambda>mi.
     and_then (case lr_mint_authority ac of
                 None \<Rightarrow> Ok ()
               | Some k \<Rightarrow> require (mi_authority mi = Some k) InvalidMintAuthority) (\<lambda>_.
     Ok (peer, mi, w)))))))))"

text \<open>
  Credit an account of the program: an adapter unlocks from its escrow, a native OFT mints below
  the cap. \<open>credit_sale_escrow\<close>, \<open>credit_vest_escrow\<close> and the transfer branch do the same to three
  destinations.
\<close>

definition credit :: "env \<Rightarrow> genv \<Rightarrow> lz_receive_accounts \<Rightarrow> Mint \<Rightarrow> pubkey \<Rightarrow> u64 \<Rightarrow> grs_world \<Rightarrow> grs_world gres" where
  "credit e g ac mi dest amount_ld w =
     (if oft_type (oft_store w) = Adapter
      then and_then (ok_or (checked_sub (tvl_ld (oft_store w)) amount_ld) InvalidFee) (\<lambda>tvl.
           ginvoke (transfer_checked g (token_escrow_key g) (token_mint w) dest (store_key g) amount_ld (mi_decimals mi))
             (w\<lparr>oft_store := (oft_store w)\<lparr>tvl_ld := tvl\<rparr>\<rparr>))
      else
        case lr_mint_authority ac of
          Some mint_authority \<Rightarrow>
            and_then (ok_or (checked_add (mi_supply mi) amount_ld) CapExceeded) (\<lambda>new_supply.
            and_then (require (new_supply \<le> GRS_MAX_SUPPLY_LD) CapExceeded) (\<lambda>_.
            ginvoke (spl_mint_to e (token_mint w) dest mint_authority amount_ld) w))
        | None \<Rightarrow> Err InvalidMintAuthority)"

definition credit_sale_escrow :: "env \<Rightarrow> genv \<Rightarrow> lz_receive_accounts \<Rightarrow> Mint \<Rightarrow> u64 \<Rightarrow> grs_world \<Rightarrow> grs_world gres" where
  "credit_sale_escrow e g ac mi amount_ld w = credit e g ac mi (sale_escrow_key g) amount_ld w"

definition credit_vest_escrow :: "env \<Rightarrow> genv \<Rightarrow> lz_receive_accounts \<Rightarrow> Mint \<Rightarrow> u64 \<Rightarrow> grs_world \<Rightarrow> grs_world gres" where
  "credit_vest_escrow e g ac mi amount_ld w = credit e g ac mi (lr_vest_escrow ac) amount_ld w"

definition debit_sale_escrow :: "env \<Rightarrow> genv \<Rightarrow> Mint \<Rightarrow> u64 \<Rightarrow> grs_world \<Rightarrow> grs_world gres" where
  "debit_sale_escrow e g mi amount_ld w =
     (if amount_ld = 0 then Ok w
      else if oft_type (oft_store w) = Adapter
      then and_then (ok_or (checked_add (tvl_ld (oft_store w)) amount_ld) InvalidFee) (\<lambda>tvl.
           ginvoke (transfer_checked g (sale_escrow_key g) (token_mint w) (token_escrow_key g) (config_key g)
             amount_ld (mi_decimals mi)) (w\<lparr>oft_store := (oft_store w)\<lparr>tvl_ld := tvl\<rparr>\<rparr>))
      else ginvoke (spl_burn e (token_mint w) (sale_escrow_key g) (config_key g) amount_ld) w)"

definition reserve_sales :: "u64 \<Rightarrow> grs_world \<Rightarrow> grs_world gres" where
  "reserve_sales amount w =
     and_then (ok_or (checked_add (sales_reserved (grs_config w)) amount) InsufficientInventory) (\<lambda>r.
     Ok (w\<lparr>grs_config := (grs_config w)\<lparr>sales_reserved := r\<rparr>\<rparr>))"

definition release_sales :: "u64 \<Rightarrow> grs_world \<Rightarrow> grs_world gres" where
  "release_sales amount w =
     and_then (ok_or (checked_sub (sales_reserved (grs_config w)) amount) InsufficientInventory) (\<lambda>r.
     Ok (w\<lparr>grs_config := (grs_config w)\<lparr>sales_reserved := r\<rparr>\<rparr>))"

text \<open>The reserve follows the row: minted for what is new, burnt for what is gone.\<close>

definition settle_lot :: "env \<Rightarrow> genv \<Rightarrow> lz_receive_accounts \<Rightarrow> Mint \<Rightarrow> u64 \<Rightarrow> bool \<Rightarrow> u64 \<Rightarrow> grs_world \<Rightarrow> grs_world gres" where
  "settle_lot e g ac mi previous known grs_amount w =
     (if \<not> known
      then if 0 < grs_amount
           then and_then (credit_sale_escrow e g ac mi grs_amount w) (\<lambda>w. reserve_sales grs_amount w)
           else Ok w
      else if grs_amount \<noteq> previous
      then if previous < grs_amount
           then and_then (ok_or (checked_sub grs_amount previous) InsufficientInventory) (\<lambda>minted.
                and_then (credit_sale_escrow e g ac mi minted w) (\<lambda>w. reserve_sales minted w))
           else and_then (ok_or (checked_sub previous grs_amount) InsufficientInventory) (\<lambda>burned.
                and_then (release_sales burned w) (\<lambda>w. debit_sale_escrow e g mi burned w))
      else Ok w)"

definition receive_sale :: "env \<Rightarrow> genv \<Rightarrow> lz_receive_accounts \<Rightarrow> Mint \<Rightarrow> bytes \<Rightarrow> grs_world \<Rightarrow> grs_world gres" where
  "receive_sale e g ac mi message w =
     and_then (require (\<not> is_home (grs_config w)) NotSpoke) (\<lambda>_.
     and_then (decode_sale (keccak g) message) (\<lambda>(sid, asset, asset_amount, grs_amount, recipient).
     and_then (require (recipient \<noteq> GRS_PROGRAM_ID) InvalidRecipient) (\<lambda>_.
     and_then (require (recipient \<noteq> store_key g) InvalidRecipient) (\<lambda>_.
     and_then (require (recipient \<noteq> sale_escrow_key g) InvalidRecipient) (\<lambda>_.
     and_then (peek_sale_account g (lr_sale ac) sid w) (\<lambda>(previous, known).
     if known \<and> previous = 0 \<and> grs_amount \<noteq> 0 then Ok w
     else
       and_then (upsert_sale_account e g (lr_sale ac) (lr_payer ac) sid asset asset_amount grs_amount recipient w) (\<lambda>w.
       let w = (if sale_count (sale_registry w) < sid
                then w\<lparr>sale_registry := (sale_registry w)\<lparr>sale_count := sid\<rparr>\<rparr> else w) in
       settle_lot e g ac mi previous known grs_amount w)))))))"

definition receive_grant :: "env \<Rightarrow> genv \<Rightarrow> lz_receive_accounts \<Rightarrow> Mint \<Rightarrow> bytes \<Rightarrow> grs_world \<Rightarrow> grs_world gres" where
  "receive_grant e g ac mi message w =
     and_then (require (\<not> is_home (grs_config w)) NotSpoke) (\<lambda>_.
     and_then (decode_grant (keccak g) message) (\<lambda>(to, amount_ld, start, cliff_seconds, duration_seconds, _).
     and_then (require (to \<noteq> default_pubkey) InvalidRecipient) (\<lambda>_.
     and_then (require (to \<noteq> GRS_PROGRAM_ID) InvalidRecipient) (\<lambda>_.
     and_then (require (to \<noteq> store_key g) InvalidRecipient) (\<lambda>_.
     and_then (require (to \<noteq> sale_escrow_key g) InvalidRecipient) (\<lambda>_.
     and_then (require (\<not> (cliff_seconds = 0 \<and> duration_seconds = 0)) InvalidSchedule) (\<lambda>_.
     and_then (require (cliff_seconds \<le> GRS_MAX_CLIFF_SECONDS) InvalidSchedule) (\<lambda>_.
     and_then (require (duration_seconds \<le> GRS_MAX_DURATION_SECONDS) InvalidSchedule) (\<lambda>_.
     and_then (ok_or (checked_add (vesting_count (grs_config w)) 1) InvalidVestingId) (\<lambda>vid.
     and_then (init_grant_vesting e g (lr_sale ac) (lr_payer ac) vid (store_key g) to amount_ld start
                 cliff_seconds duration_seconds w) (\<lambda>w.
     let w = w\<lparr>grs_config := (grs_config w)\<lparr>vesting_count := vid\<rparr>\<rparr> in
     if 0 < amount_ld
     then and_then (ensure_vest_escrow e g (lr_vest_escrow ac) (lr_payer ac) (lr_token_program ac) w) (\<lambda>w.
          credit_vest_escrow e g ac mi amount_ld w)
     else Ok w)))))))))))"

definition receive_transfer ::
  "env \<Rightarrow> genv \<Rightarrow> lz_receive_accounts \<Rightarrow> pubkey list \<Rightarrow> LzReceiveParams \<Rightarrow> PeerConfig \<Rightarrow> Mint \<Rightarrow> grs_world \<Rightarrow> grs_world gres" where
  "receive_transfer e g ac remaining params peer mi w =
     (let message = rp_message params in
      and_then (send_to message) (\<lambda>to.
      and_then (require (lr_to_address ac = to) InvalidTokenDest) (\<lambda>_.
      and_then (amount_sd message) (\<lambda>sd.
      and_then (sd2ld (oft_store w) sd) (\<lambda>amount_received_ld.
      and_then (limit_inbound (unix_timestamp e) amount_received_ld peer) (\<lambda>peer.
      let w = w\<lparr>peers := (peers w)(rp_src_eid params \<mapsto> peer)\<rparr> in
      and_then (credit e g ac mi (ata e (lr_to_address ac) (token_mint w)) amount_received_ld w) (\<lambda>w.
      and_then (if oft_type (oft_store w) = Adapter then get_post_fee_amount_ld g (token_mint w) amount_received_ld
                else Ok amount_received_ld) (\<lambda>amount_received_ld.
      case compose_msg (keccak g) message of
        Some msg \<Rightarrow>
          ginvoke (endpoint_send_compose g (endpoint_program (oft_store w)) (store_key g)
            (drop (clear_min_accounts_len g) remaining)
            \<lparr> cp_to = lr_to_address ac, cp_guid = rp_guid params, cp_index = 0,
              cp_message = compose_encode (rp_nonce params) (rp_src_eid params) amount_received_ld msg \<rparr>) w
      | None \<Rightarrow> Ok w))))))))"

definition execute_lz_receive ::
  "env \<Rightarrow> genv \<Rightarrow> lz_receive_accounts \<Rightarrow> pubkey list \<Rightarrow> LzReceiveParams \<Rightarrow> grs_world \<Rightarrow> grs_world gres" where
  "execute_lz_receive e g ac remaining params w =
     and_then (accounts_LzReceive e g ac params w) (\<lambda>(peer, mi, w).
     and_then (require (\<not> os_paused (oft_store w)) OFT_Paused) (\<lambda>_.
     and_then (or_panic (if clear_min_accounts_len g \<le> length remaining
                         then Some (take (clear_min_accounts_len g) remaining) else None)) (\<lambda>clear_accounts.
     and_then (ginvoke (endpoint_clear g (endpoint_program (oft_store w)) (store_key g) clear_accounts params) w) (\<lambda>w.
     if is_sale (keccak g) (rp_message params) then receive_sale e g ac mi (rp_message params) w
     else if is_grant (keccak g) (rp_message params) then receive_grant e g ac mi (rp_message params) w
     else receive_transfer e g ac remaining params peer mi w))))"

section \<open>\<open>lz_receive_types.rs\<close>\<close>

definition writable :: "pubkey \<Rightarrow> LzAccount" where
  "writable k = \<lparr> la_pubkey = k, la_is_signer = False, la_is_writable = True \<rparr>"

definition readonly :: "pubkey \<Rightarrow> LzAccount" where
  "readonly k = \<lparr> la_pubkey = k, la_is_signer = False, la_is_writable = False \<rparr>"

text \<open>The row account: the sale's, the next vesting's, or the registry as a placeholder.\<close>

definition types_row :: "genv \<Rightarrow> pubkey list \<Rightarrow> LzReceiveParams \<Rightarrow> grs_world \<Rightarrow> pubkey gres" where
  "types_row g remaining params w =
     (if is_sale (keccak g) (rp_message params)
      then and_then (decode_sale (keccak g) (rp_message params)) (\<lambda>(sid, _, _, _, _). Ok (gpda g (SaleSeed sid)))
      else if is_grant (keccak g) (rp_message params)
      then and_then (require (remaining \<noteq> []) OFT_InvalidRemainingAccounts) (\<lambda>_.
           and_then (require (hd remaining = config_key g) OFT_InvalidRemainingAccounts) (\<lambda>_.
           and_then (ok_or (checked_add (vesting_count (grs_config w)) 1) InvalidVestingId) (\<lambda>vid.
           Ok (gpda g (VestSeed vid)))))
      else Ok (gpda g SaleRegistrySeed))"

definition compose_accounts :: "genv \<Rightarrow> pubkey \<Rightarrow> LzReceiveParams \<Rightarrow> grs_world \<Rightarrow> LzAccount list gres" where
  "compose_accounts g to_address params w =
     (let message = rp_message params in
      if is_sale (keccak g) message \<or> is_grant (keccak g) message then Ok []
      else case compose_msg (keccak g) message of
        None \<Rightarrow> Ok []
      | Some msg \<Rightarrow>
          and_then (amount_sd message) (\<lambda>sd.
          and_then (sd2ld (oft_store w) sd) (\<lambda>amount_ld.
          and_then (if oft_type (oft_store w) = Native then Ok amount_ld
                    else get_post_fee_amount_ld g (token_mint w) amount_ld) (\<lambda>amount_received_ld.
          Ok (accounts_for_send_compose g (endpoint_program (oft_store w)) (store_key g) to_address
                (rp_guid params) 0
                (compose_encode (rp_nonce params) (rp_src_eid params) amount_received_ld msg))))))"

definition execute_lz_receive_types ::
  "env \<Rightarrow> genv \<Rightarrow> pubkey list \<Rightarrow> LzReceiveParams \<Rightarrow> grs_world \<Rightarrow> LzAccount list gres" where
  "execute_lz_receive_types e g remaining params w =
     (let message = rp_message params; order = is_sale (keccak g) message \<or> is_grant (keccak g) message in
      and_then (load_mint w) (\<lambda>mi.
      and_then (types_row g remaining params w) (\<lambda>row_key.
      and_then (if order then Ok (os_admin (oft_store w)) else send_to message) (\<lambda>to_address.
      let token_program = program_owner (gledger w) (token_mint w);
          token_dest = ata e to_address (token_mint w);
          mint_authority = (case mi_authority mi of Some k \<Rightarrow> k | None \<Rightarrow> GRS_PROGRAM_ID) in
      and_then (compose_accounts g to_address params w) (\<lambda>composing.
      Ok ([\<lparr> la_pubkey = default_pubkey, la_is_signer = True, la_is_writable = True \<rparr>,
           writable (gpda g (PeerSeed (rp_src_eid params))),
           writable (store_key g), writable (config_key g), writable (gpda g SaleRegistrySeed),
           writable row_key, writable (sale_escrow_key g), writable (vest_escrow_key g),
           writable (os_token_escrow (oft_store w)), readonly to_address, writable token_dest,
           writable (token_mint w), readonly mint_authority, readonly token_program,
           readonly (associated_token_id g), readonly system_program_id,
           readonly (gpda g EventAuthoritySeed), readonly GRS_PROGRAM_ID] @
          accounts_for_clear g (endpoint_program (oft_store w)) (store_key g) (rp_src_eid params)
            (rp_sender params) (rp_nonce params) @
          composing))))))"

end
