(* ===== verification/Grs_Admin.thy ===== *)
theory Grs_Admin
  imports Grs_Bridge
begin

text \<open>
  Set-up and administration of the GRS program: \<open>init.rs\<close>, \<open>mint_genesis.rs\<close>, \<open>ownership.rs\<close>,
  \<open>set_oft_config.rs\<close>, \<open>set_pause.rs\<close>, \<open>set_peer_config.rs\<close>,
  \<open>patch_lz_receive_types_accounts.rs\<close>, \<open>withdraw_fee.rs\<close> and \<open>get_peers.rs\<close>.
\<close>

section \<open>\<open>init.rs\<close>\<close>

record InitParams =
  ip_oft_type :: OFTType
  ip_shared_decimals :: u8
  ip_endpoint_program :: "pubkey option"
  ip_home_eid :: u32
  ip_home_address :: pubkey

record init_accounts =
  in_payer :: pubkey
  in_token_mint :: pubkey
  in_peer :: bool     \<comment> \<open>the optional peer account was passed\<close>

definition OFTStore_SPACE :: nat where
  "OFTStore_SPACE = 8 + (1 + 8 + 32 + 32 + 32 + 1 + 8 + 32 + 32 + 2 + 1 + 33 + 33)"

definition LzReceiveTypesAccounts_SPACE :: nat where
  "LzReceiveTypesAccounts_SPACE = 8 + (32 + 32 + 32)"

definition GrsConfig_SPACE :: nat where
  "GrsConfig_SPACE = 8 + (4 + 32 + 1 + 1 + 8 + 8 + 8)"

definition PeerRegistry_SPACE :: nat where
  "PeerRegistry_SPACE = 8 + (32 + 1 + (4 + GRS_MAX_PEERS * (4 + 32)))"

definition SaleRegistry_SPACE :: nat where
  "SaleRegistry_SPACE = 8 + (32 + 1 + 8)"

definition PeerConfig_SPACE :: nat where
  "PeerConfig_SPACE = 8 + (32 + ((4 + 512) + (4 + 1024)) + (1 + 32) + (1 + 32) + (1 + 2) + 1)"

definition default_peer :: PeerConfig where
  "default_peer = \<lparr> peer_address = 0, enforced_options = default_options, outbound_rate_limiter = None,
     inbound_rate_limiter = None, fee_bps = None, pc_bump = 0 \<rparr>"

text \<open>
  The accounts a fresh store starts with, all zero but for what \<open>init\<close> sets. No peer can exist
  before its store does.
\<close>

definition fresh_world :: "genv \<Rightarrow> init_accounts \<Rightarrow> InitParams \<Rightarrow> u64 \<Rightarrow> ledger \<Rightarrow> grs_world" where
  "fresh_world g ac params rate l = \<lparr>
     oft_store = \<lparr> oft_type = ip_oft_type params, ld2sd_rate = rate, os_token_mint = in_token_mint ac,
       os_token_escrow = token_escrow_key g,
       endpoint_program = (case ip_endpoint_program params of Some p \<Rightarrow> p | None \<Rightarrow> endpoint_id g),
       os_bump = gpda_bump g OftSeed, tvl_ld = 0, os_admin = in_payer ac, os_pending_owner = default_pubkey,
       default_fee_bps = 0, os_paused = False, pauser = None, unpauser = None \<rparr>,
     lz_types = \<lparr> lt_oft_store = store_key g, lt_token_mint = in_token_mint ac, lt_grs_config = config_key g \<rparr>,
     grs_config = \<lparr> home_eid = ip_home_eid params, home_address = 0, genesis_minted = False,
       gc_bump = gpda_bump g GrsConfigSeed, vesting_count = 0, token_sales_spent = 0, sales_reserved = 0 \<rparr>,
     peers = Map.empty,
     peer_registry = \<lparr> pr_oft_store = store_key g, pr_bump = gpda_bump g PeerRegistrySeed, entries = [] \<rparr>,
     sale_registry = \<lparr> sr_oft_store = store_key g, sr_bump = gpda_bump g SaleRegistrySeed, sale_count = 0 \<rparr>,
     sales = Map.empty, vestings = Map.empty, gledger = l \<rparr>"

text \<open>The account creations of \<open>Init\<close>, in their order.\<close>

definition accounts_Init :: "env \<Rightarrow> genv \<Rightarrow> init_accounts \<Rightarrow> InitParams \<Rightarrow> ledger \<Rightarrow> (Mint \<times> ledger) gres" where
  "accounts_Init e g ac params l =
     and_then (account (mints l (in_token_mint ac))) (\<lambda>mi.
     and_then (cpi (spl_init_account e (in_payer ac) (token_escrow_key g) (in_token_mint ac) (store_key g) l)) (\<lambda>l.
     and_then (cpi (anchor_init e (in_payer ac) (store_key g) OFTStore_SPACE l)) (\<lambda>l.
     and_then (cpi (anchor_init e (in_payer ac) (gpda g LzReceiveTypesSeed) LzReceiveTypesAccounts_SPACE l)) (\<lambda>l.
     and_then (cpi (anchor_init e (in_payer ac) (config_key g) GrsConfig_SPACE l)) (\<lambda>l.
     and_then (cpi (anchor_init e (in_payer ac) (gpda g PeerRegistrySeed) PeerRegistry_SPACE l)) (\<lambda>l.
     and_then (cpi (anchor_init e (in_payer ac) (gpda g SaleRegistrySeed) SaleRegistry_SPACE l)) (\<lambda>l.
     and_then (if in_peer ac
               then cpi (anchor_init e (in_payer ac) (gpda g (PeerSeed (ip_home_eid params))) PeerConfig_SPACE l)
               else Ok l) (\<lambda>l.
     Ok (mi, l)))))))))"

definition init_metadata :: "genv \<Rightarrow> Mint \<Rightarrow> grs_world \<Rightarrow> grs_world gres" where
  "init_metadata g mi w =
     (case mi_authority mi of
        None \<Rightarrow> Err InvalidMintAuthority
      | Some authority \<Rightarrow>
          if authority = os_admin (oft_store w) \<or> authority = store_key g
          then ginvoke (create_metadata_v3 g (token_mint w) authority (os_admin (oft_store w))) w
          else Err InvalidMintAuthority)"

definition handoff_spoke_mint :: "genv \<Rightarrow> Mint \<Rightarrow> grs_world \<Rightarrow> grs_world gres" where
  "handoff_spoke_mint g mi w =
     (if mi_authority mi = Some (store_key g) then Ok w
      else if mi_authority mi = Some (os_admin (oft_store w))
      then ginvoke (set_mint_authority g (token_mint w) (os_admin (oft_store w)) (store_key g)) w
      else Err InvalidMintAuthority)"

definition wire_options :: "PeerConfig \<Rightarrow> PeerConfig" where
  "wire_options p =
     (if eo_send (enforced_options p) = []
      then p\<lparr>enforced_options := set_lz_receive_budget DEFAULT_LZ_RECEIVE_GAS 0 (enforced_options p)\<rparr> else p)"

definition execute_init ::
  "env \<Rightarrow> genv \<Rightarrow> init_accounts \<Rightarrow> pubkey list \<Rightarrow> InitParams \<Rightarrow> ledger \<Rightarrow> grs_world gres" where
  "execute_init e g ac remaining params l =
     and_then (accounts_Init e g ac params l) (\<lambda>(mi, l).
     and_then (require (mi_decimals mi = GRS_LOCAL_DECIMALS) InvalidGrsDecimals) (\<lambda>_.
     and_then (require (ip_shared_decimals params \<le> mi_decimals mi) InvalidDecimals) (\<lambda>_.
     let rate = (10 :: u64) ^ unat (mi_decimals mi - ip_shared_decimals params) in
     and_then (require (rate = GRS_LD2SD_RATE) InvalidGrsDecimals) (\<lambda>_.
     let w = fresh_world g ac params rate l in
     and_then (if remaining = [] then Ok w
               else ginvoke (endpoint_register_oapp g (endpoint_program (oft_store w)) (store_key g) remaining
                      (in_payer ac)) w) (\<lambda>w.
     and_then (init_metadata g mi w) (\<lambda>w.
     if ip_home_address params = default_pubkey
     then and_then (require (ip_home_eid params = 0) InvalidRecipient) (\<lambda>_.
          and_then (require (\<not> in_peer ac) InvalidRecipient) (\<lambda>_.
          Ok (w\<lparr>grs_config := (grs_config w)\<lparr>home_address := store_key g\<rparr>\<rparr>)))
     else and_then (require (ip_home_eid params \<noteq> 0) InvalidRecipient) (\<lambda>_.
          and_then (require (in_peer ac) InvalidRecipient) (\<lambda>_.
          let p = wire_options (default_peer\<lparr>peer_address := ip_home_address params,
                    pc_bump := gpda_bump g (PeerSeed (ip_home_eid params))\<rparr>) in
          and_then (upsert (ip_home_eid params) (ip_home_address params) (peer_registry w)) (\<lambda>reg.
          handoff_spoke_mint g mi (w\<lparr>peers := (peers w)(ip_home_eid params \<mapsto> p), peer_registry := reg,
            grs_config := (grs_config w)\<lparr>home_address := ip_home_address params\<rparr>\<rparr>))))))))))"

section \<open>\<open>mint_genesis.rs\<close>\<close>

definition execute_mint_genesis :: "env \<Rightarrow> genv \<Rightarrow> pubkey \<Rightarrow> pubkey \<Rightarrow> grs_world \<Rightarrow> grs_world gres" where
  "execute_mint_genesis e g admin to w =
     and_then (require (os_admin (oft_store w) = admin) OFT_Unauthorized) (\<lambda>_.
     and_then (require (oft_type (oft_store w) = Native) InvalidMintAuthority) (\<lambda>_.
     and_then (require (home_eid (grs_config w) = 0) GenesisDisabled) (\<lambda>_.
     and_then (require (\<not> genesis_minted (grs_config w)) GenesisDisabled) (\<lambda>_.
     and_then (load_mint w) (\<lambda>mi.
     and_then (token_account to (token_mint w) None w) (\<lambda>_.
     and_then (require (mi_supply mi = 0) NonZeroSupply) (\<lambda>_.
     and_then (require (mi_decimals mi = GRS_LOCAL_DECIMALS) InvalidGrsDecimals) (\<lambda>_.
     and_then (require (mi_authority mi = Some admin) InvalidMintAuthority) (\<lambda>_.
     and_then (ginvoke (spl_mint_to e (token_mint w) to admin GRS_MAX_SUPPLY_LD) w) (\<lambda>w.
     and_then (ginvoke (set_mint_authority g (token_mint w) admin (store_key g)) w) (\<lambda>w.
     Ok (w\<lparr>grs_config := (grs_config w)\<lparr>genesis_minted := True\<rparr>\<rparr>))))))))))))"

section \<open>\<open>ownership.rs\<close>\<close>

definition propose_admin :: "pubkey \<Rightarrow> grs_world \<Rightarrow> grs_world gres" where
  "propose_admin new_owner w =
     and_then (require (new_owner \<noteq> os_admin (oft_store w)) OFT_InvalidPendingOwner) (\<lambda>_.
     Ok (w\<lparr>oft_store := (oft_store w)\<lparr>os_pending_owner := new_owner\<rparr>\<rparr>))"

definition execute_transfer_ownership_grs :: "pubkey \<Rightarrow> pubkey \<Rightarrow> grs_world \<Rightarrow> grs_world gres" where
  "execute_transfer_ownership_grs admin new_owner w =
     and_then (require (os_admin (oft_store w) = admin) OFT_Unauthorized) (\<lambda>_. propose_admin new_owner w)"

definition set_delegate :: "genv \<Rightarrow> pubkey list \<Rightarrow> pubkey \<Rightarrow> grs_world \<Rightarrow> grs_world gres" where
  "set_delegate g remaining delegate w =
     ginvoke (endpoint_set_delegate g (endpoint_program (oft_store w)) (store_key g) remaining delegate) w"

definition execute_accept_ownership_grs :: "genv \<Rightarrow> pubkey \<Rightarrow> pubkey list \<Rightarrow> grs_world \<Rightarrow> grs_world gres" where
  "execute_accept_ownership_grs g pending_owner remaining w =
     and_then (require (os_pending_owner (oft_store w) \<noteq> default_pubkey) OFT_Unauthorized) (\<lambda>_.
     and_then (require (os_pending_owner (oft_store w) = pending_owner) OFT_Unauthorized) (\<lambda>_.
     let w = w\<lparr>oft_store := (oft_store w)\<lparr>os_admin := pending_owner, os_pending_owner := default_pubkey\<rparr>\<rparr> in
     if remaining = [] then Ok w else set_delegate g remaining pending_owner w))"

section \<open>\<open>set_oft_config.rs\<close>, \<open>set_pause.rs\<close>\<close>

datatype SetOFTConfigParams =
    Admin pubkey
  | Delegate pubkey
  | DefaultFee u16
  | Paused bool
  | Pauser "pubkey option"
  | Unpauser "pubkey option"

definition execute_set_oft_config :: "genv \<Rightarrow> pubkey \<Rightarrow> pubkey list \<Rightarrow> SetOFTConfigParams \<Rightarrow> grs_world \<Rightarrow> grs_world gres" where
  "execute_set_oft_config g admin remaining params w =
     and_then (require (os_admin (oft_store w) = admin) OFT_Unauthorized) (\<lambda>_.
     case params of
       Admin new_owner \<Rightarrow> propose_admin new_owner w
     | Delegate delegate \<Rightarrow> set_delegate g remaining delegate w
     | DefaultFee bps \<Rightarrow>
         and_then (require (bps < MAX_FEE_BASIS_POINTS) InvalidFee) (\<lambda>_.
         Ok (w\<lparr>oft_store := (oft_store w)\<lparr>default_fee_bps := bps\<rparr>\<rparr>))
     | Paused b \<Rightarrow> Ok (w\<lparr>oft_store := (oft_store w)\<lparr>os_paused := b\<rparr>\<rparr>)
     | Pauser k \<Rightarrow> Ok (w\<lparr>oft_store := (oft_store w)\<lparr>pauser := k\<rparr>\<rparr>)
     | Unpauser k \<Rightarrow> Ok (w\<lparr>oft_store := (oft_store w)\<lparr>unpauser := k\<rparr>\<rparr>))"

definition is_valid_signer :: "pubkey \<Rightarrow> OFTStore \<Rightarrow> bool \<Rightarrow> bool" where
  "is_valid_signer signer s paused \<longleftrightarrow> (if paused then pauser s = Some signer else unpauser s = Some signer)"

definition execute_set_pause :: "pubkey \<Rightarrow> bool \<Rightarrow> grs_world \<Rightarrow> grs_world gres" where
  "execute_set_pause signer paused w =
     and_then (require (is_valid_signer signer (oft_store w) paused) OFT_Unauthorized) (\<lambda>_.
     Ok (w\<lparr>oft_store := (oft_store w)\<lparr>os_paused := paused\<rparr>\<rparr>))"

section \<open>\<open>set_peer_config.rs\<close>\<close>

record RateLimitParams =
  rl_refill_per_second :: "u64 option"
  rl_capacity :: "u64 option"

datatype PeerConfigParam =
    PeerAddress bytes32
  | FeeBps "u16 option"
  | SetEnforcedOptions bytes bytes
  | OutboundRateLimit "RateLimitParams option"
  | InboundRateLimit "RateLimitParams option"
  | LzReceiveBudget u128 u128

definition update_rate_limiter :: "i64 \<Rightarrow> RateLimitParams option \<Rightarrow> RateLimiter option \<Rightarrow> RateLimiter option gres" where
  "update_rate_limiter now params rate_limiter =
     (case params of
        None \<Rightarrow> Ok None
      | Some p \<Rightarrow>
          let limiter = (case rate_limiter of Some r \<Rightarrow> r | None \<Rightarrow> default_limiter) in
          and_then (case rl_capacity p of Some c \<Rightarrow> set_capacity now c limiter | None \<Rightarrow> Ok limiter) (\<lambda>limiter.
          and_then (case rl_refill_per_second p of Some r \<Rightarrow> set_rate now r limiter | None \<Rightarrow> Ok limiter) (\<lambda>limiter.
          Ok (Some limiter))))"

definition apply_peer_param :: "env \<Rightarrow> genv \<Rightarrow> u32 \<Rightarrow> PeerConfigParam \<Rightarrow> PeerConfig \<Rightarrow> PeerRegistry \<Rightarrow> (PeerConfig \<times> PeerRegistry) gres" where
  "apply_peer_param e g remote_eid config p reg =
     (case config of
        PeerAddress a \<Rightarrow>
          and_then (upsert remote_eid a reg) (\<lambda>reg.
          let p = p\<lparr>peer_address := a\<rparr> in
          Ok (if a = 0 then p\<lparr>enforced_options := default_options\<rparr> else wire_options p, reg))
      | FeeBps bps \<Rightarrow>
          and_then (case bps of Some b \<Rightarrow> require (b < MAX_FEE_BASIS_POINTS) InvalidFee | None \<Rightarrow> Ok ()) (\<lambda>_.
          Ok (p\<lparr>fee_bps := bps\<rparr>, reg))
      | SetEnforcedOptions send_options call_options \<Rightarrow>
          and_then (cpi (if assert_type_3 g send_options then Some () else None)) (\<lambda>_.
          and_then (cpi (if assert_type_3 g call_options then Some () else None)) (\<lambda>_.
          Ok (p\<lparr>enforced_options := \<lparr> eo_send = send_options, eo_send_and_call = call_options \<rparr>\<rparr>, reg)))
      | LzReceiveBudget gas value \<Rightarrow>
          and_then (require (0 < gas) InvalidOptions) (\<lambda>_.
          Ok (p\<lparr>enforced_options := set_lz_receive_budget gas value (enforced_options p)\<rparr>, reg))
      | OutboundRateLimit params \<Rightarrow>
          and_then (update_rate_limiter (unix_timestamp e) params (outbound_rate_limiter p)) (\<lambda>r.
          Ok (p\<lparr>outbound_rate_limiter := r\<rparr>, reg))
      | InboundRateLimit params \<Rightarrow>
          and_then (update_rate_limiter (unix_timestamp e) params (inbound_rate_limiter p)) (\<lambda>r.
          Ok (p\<lparr>inbound_rate_limiter := r\<rparr>, reg)))"

definition execute_set_peer_config :: "env \<Rightarrow> genv \<Rightarrow> pubkey \<Rightarrow> u32 \<Rightarrow> PeerConfigParam \<Rightarrow> grs_world \<Rightarrow> grs_world gres" where
  "execute_set_peer_config e g admin remote_eid config w =
     and_then (case peers w remote_eid of
                 Some p \<Rightarrow> Ok (p, w)
               | None \<Rightarrow> and_then (ginvoke (anchor_init e admin (gpda g (PeerSeed remote_eid)) PeerConfig_SPACE) w)
                           (\<lambda>w. Ok (default_peer, w))) (\<lambda>(p, w).
     and_then (require (os_admin (oft_store w) = admin) OFT_Unauthorized) (\<lambda>_.
     and_then (constraint (pr_oft_store (peer_registry w) = store_key g)) (\<lambda>_.
     and_then (apply_peer_param e g remote_eid config p (peer_registry w)) (\<lambda>(p, reg).
     Ok (w\<lparr>peers := (peers w)(remote_eid \<mapsto> p\<lparr>pc_bump := gpda_bump g (PeerSeed remote_eid)\<rparr>),
           peer_registry := reg\<rparr>)))))"

section \<open>\<open>patch_lz_receive_types_accounts.rs\<close>, \<open>withdraw_fee.rs\<close>, \<open>get_peers.rs\<close>\<close>

definition execute_patch_lz_receive_types_accounts :: "env \<Rightarrow> genv \<Rightarrow> pubkey \<Rightarrow> grs_world \<Rightarrow> grs_world gres" where
  "execute_patch_lz_receive_types_accounts e g admin w =
     (let k = gpda g LzReceiveTypesSeed; new_len = LzReceiveTypesAccounts_SPACE; rent = rent_minimum e new_len in
      and_then (require (os_admin (oft_store w) = admin) OFT_Unauthorized) (\<lambda>_.
      let current = lamports (gledger w) k in
      and_then (if current < rent
                then and_then (or_panic (checked_sub rent current)) (\<lambda>d. ginvoke (sys_transfer e admin k d) w)
                else Ok w) (\<lambda>w.
      and_then (if data_len (gledger w) k \<noteq> new_len then ginvoke (realloc e k new_len) w else Ok w) (\<lambda>w.
      Ok (w\<lparr>lz_types := \<lparr> lt_oft_store = store_key g, lt_token_mint = token_mint w,
                          lt_grs_config = config_key g \<rparr>\<rparr>)))))"

definition execute_withdraw_fee :: "genv \<Rightarrow> pubkey \<Rightarrow> pubkey \<Rightarrow> u64 \<Rightarrow> grs_world \<Rightarrow> grs_world gres" where
  "execute_withdraw_fee g admin token_dest fee_ld w =
     and_then (require (os_admin (oft_store w) = admin) OFT_Unauthorized) (\<lambda>_.
     and_then (load_mint w) (\<lambda>mi.
     and_then (token_account (token_escrow_key g) (token_mint w) (Some (store_key g)) w) (\<lambda>escrow.
     and_then (token_account token_dest (token_mint w) None w) (\<lambda>_.
     and_then (or_panic (checked_sub (tk_amount escrow) (tvl_ld (oft_store w)))) (\<lambda>available.
     and_then (require (fee_ld \<le> available) InvalidFee) (\<lambda>_.
     ginvoke (transfer_checked g (token_escrow_key g) (token_mint w) token_dest (store_key g) fee_ld (mi_decimals mi)) w))))))"

definition execute_get_peers :: "genv \<Rightarrow> grs_world \<Rightarrow> PeerEntry list gres" where
  "execute_get_peers g w =
     and_then (constraint (pr_oft_store (peer_registry w) = store_key g)) (\<lambda>_.
     Ok (entries (peer_registry w)))"

definition execute_oft_version :: "u64 \<times> u64" where
  "execute_oft_version = (2, 1)"

end
