(* ===== verification/Grs_Books.thy ===== *)
theory Grs_Books
  imports Grs_Admin
begin

text \<open>
  What the GRS program owes: the lots on sale and the vestings, each a book of rows whose total
  an escrow must cover. Both books obey one law - a payout lowers what its row owes by exactly
  what it pays - stated as the locale \<open>payout_book\<close> and discharged for purchases and for releases.
\<close>

section \<open>Books of obligations\<close>

definition book_ok :: "('v \<Rightarrow> nat) \<Rightarrow> ('k \<Rightarrow> 'v \<Rightarrow> bool) \<Rightarrow> ('k \<rightharpoonup> 'v) \<Rightarrow> nat \<Rightarrow> bool" where
  "book_ok owed well b n \<longleftrightarrow> finite (dom b) \<and> (\<forall>k v. b k = Some v \<longrightarrow> well k v) \<and> msum owed b = n"

definition owed_at :: "('v \<Rightarrow> nat) \<Rightarrow> ('k \<rightharpoonup> 'v) \<Rightarrow> 'k \<Rightarrow> nat" where
  "owed_at owed b k = (case b k of None \<Rightarrow> 0 | Some v \<Rightarrow> owed v)"

lemma owed_at_simps [simp]: "b k = None \<Longrightarrow> owed_at owed b k = 0" "b k = Some v \<Longrightarrow> owed_at owed b k = owed v"
  by (simp_all add: owed_at_def)

lemma book_ok_empty [simp]: "book_ok owed well Map.empty 0"
  by (simp add: book_ok_def)

lemma book_ok_put:
  assumes "book_ok owed well b n" "well k v" "n' + owed_at owed b k = n + owed v"
  shows "book_ok owed well (b(k \<mapsto> v)) n'"
  using assms msum_upd [of b owed k v] by (auto simp: book_ok_def owed_at_def split: option.splits)

lemma book_ok_row: "book_ok owed well b n \<Longrightarrow> b k = Some v \<Longrightarrow> well k v \<and> owed v \<le> n"
  using msum_member [of b k v owed] by (auto simp: book_ok_def)

locale payout_book =
  fixes owed :: "'v \<Rightarrow> nat" and well :: "'k \<Rightarrow> 'v \<Rightarrow> bool" and paid :: "'v \<Rightarrow> nat \<Rightarrow> 'v \<Rightarrow> bool"
  assumes paid_law: "well k v \<Longrightarrow> paid v n v' \<Longrightarrow> well k v' \<and> owed v' + n = owed v"
begin

text \<open>A payout keeps the book, and lowers its total by what it pays.\<close>

lemma payout:
  assumes "book_ok owed well b t" "b k = Some v" "paid v n v'"
  shows "book_ok owed well (b(k \<mapsto> v')) (t - n)" "n \<le> t"
proof -
  have r: "well k v" "owed v \<le> t" using book_ok_row [OF assms(1,2)] by simp_all
  have p: "well k v'" "owed v' + n = owed v" using paid_law [OF r(1) assms(3)] by simp_all
  then show "n \<le> t" using r(2) by simp
  then show "book_ok owed well (b(k \<mapsto> v')) (t - n)"
    using p assms(2) r(2) by (intro book_ok_put [OF assms(1)]) simp_all
qed

text \<open>An escrow that covers the book can pay.\<close>

lemma payable:
  assumes "book_ok owed well b t" "b k = Some v" "paid v n v'" "t \<le> x"
  shows "n \<le> x" "t - n \<le> x - n"
  using payout(2) [OF assms(1-3)] assms(4) by simp_all

end

section \<open>Lots on sale\<close>

definition lot_owed :: "SaleAccount \<Rightarrow> nat" where
  "lot_owed a = unat (sa_grs_amount a)"

text \<open>On the home chain a lot that has tokens has a price.\<close>

definition lot_ok :: "genv \<Rightarrow> bool \<Rightarrow> u64 \<Rightarrow> SaleAccount \<Rightarrow> bool" where
  "lot_ok g home sid a \<longleftrightarrow> sa_id a = sid \<and> sa_oft_store a = store_key g \<and>
     (home \<longrightarrow> sa_grs_amount a \<noteq> 0 \<longrightarrow> sa_asset_amount a \<noteq> 0)"

definition bought :: "SaleAccount \<Rightarrow> nat \<Rightarrow> SaleAccount \<Rightarrow> bool" where
  "bought a n a' \<longleftrightarrow> (\<exists>x c. n = unat x \<and> quote_cost x (sa_grs_amount a) (sa_asset_amount a) = Ok c \<and>
     a' = a\<lparr>sa_grs_amount := sa_grs_amount a - x, sa_asset_amount := sa_asset_amount a - c\<rparr>)"

interpretation lots: payout_book lot_owed "lot_ok g home" bought for g home
proof
  fix k v n v'
  assume ok: "lot_ok g home k v" and "bought v n v'"
  then obtain x c where n: "n = unat x" and q: "quote_cost x (sa_grs_amount v) (sa_asset_amount v) = Ok c"
    and v': "v' = v\<lparr>sa_grs_amount := sa_grs_amount v - x, sa_asset_amount := sa_asset_amount v - c\<rparr>"
    by (auto simp: bought_def)
  note f = quote_cost_Ok [OF q]
  have s: "unat (sa_grs_amount v - x) = unat (sa_grs_amount v) - unat x"
    "unat (sa_asset_amount v - c) = unat (sa_asset_amount v) - unat c"
    using f(2,5) by (simp_all add: unat_sub_if_size)
  have "sa_asset_amount v - c \<noteq> 0" if "sa_grs_amount v - x \<noteq> 0"
    using that s f(6) by (auto simp: unat_eq_iff)
  then show "lot_ok g home k v' \<and> lot_owed v' + n = lot_owed v"
    using ok f(2) by (simp add: lot_ok_def lot_owed_def v' s n)
qed

section \<open>Vestings\<close>

definition vest_owed :: "Vesting \<Rightarrow> nat" where
  "vest_owed v = unat (allocation_ld v) - unat (released_ld v)"

definition vest_ok :: "genv \<Rightarrow> u64 \<Rightarrow> Vesting \<Rightarrow> bool" where
  "vest_ok g vid v \<longleftrightarrow> ve_id v = vid \<and> ve_oft_store v = store_key g \<and> released_ld v \<le> allocation_ld v \<and>
     ve_start v \<le> cliff_end v \<and> cliff_end v \<le> ve_end v"

definition released_at :: "Vesting \<Rightarrow> nat \<Rightarrow> Vesting \<Rightarrow> bool" where
  "released_at v n v' \<longleftrightarrow> (\<exists>t r. n = unat (releasable_at v t) \<and>
     checked_add (released_ld v) (releasable_at v t) = Some r \<and> v' = v\<lparr>released_ld := r\<rparr>)"

interpretation vests: payout_book vest_owed "vest_ok g" released_at for g
proof
  fix k v n v'
  assume ok: "vest_ok g k v" and "released_at v n v'"
  then obtain t r where n: "n = unat (releasable_at v t)" and r: "unat r = unat (released_ld v) + n"
    and v': "v' = v\<lparr>released_ld := r\<rparr>"
    by (auto simp: released_at_def checked_add_Some)
  have "n \<le> unat (allocation_ld v) - unat (released_ld v)"
    using vested_nat_le [of "unat (allocation_ld v)" "unat (cliff_end v)" "unat (ve_end v)" "unat t"]
    by (simp add: n releasable_nat vested_at_nat)
  then show "vest_ok g k v' \<and> vest_owed v' + n = vest_owed v"
    using ok r by (auto simp: vest_ok_def vest_owed_def v' unat_le_iff)
qed

section \<open>The invariant\<close>

definition sales_inv :: "genv \<Rightarrow> grs_world \<Rightarrow> bool" where
  "sales_inv g w \<longleftrightarrow>
     book_ok lot_owed (lot_ok g (is_home (grs_config w))) (sales w) (unat (sales_reserved (grs_config w))) \<and>
     (\<forall>i. i \<in> dom (sales w) \<longrightarrow> i \<noteq> 0 \<and> i \<le> sale_count (sale_registry w)) \<and>
     (is_home (grs_config w) \<longrightarrow> (\<forall>i. i \<noteq> 0 \<and> i \<le> sale_count (sale_registry w) \<longrightarrow> i \<in> dom (sales w)))"

definition outstanding :: "grs_world \<Rightarrow> nat" where
  "outstanding w = msum vest_owed (vestings w)"

definition vests_inv :: "genv \<Rightarrow> grs_world \<Rightarrow> bool" where
  "vests_inv g w \<longleftrightarrow>
     book_ok vest_owed (vest_ok g) (vestings w) (outstanding w) \<and>
     dom (vestings w) = {i. i \<noteq> 0 \<and> i \<le> vesting_count (grs_config w)}"

definition backed :: "genv \<Rightarrow> pubkey \<Rightarrow> grs_world \<Rightarrow> bool" where
  "backed g m w \<longleftrightarrow>
     held m (config_key g) (sale_escrow_key g) (gledger w) \<and> held m (config_key g) (vest_escrow_key g) (gledger w) \<and>
     unat (sales_reserved (grs_config w)) \<le> bal (gledger w) (sale_escrow_key g) \<and>
     outstanding w \<le> bal (gledger w) (vest_escrow_key g) \<and>
     supply_of (gledger w) m \<le> unat GRS_MAX_SUPPLY_LD"

definition stores_inv :: "genv \<Rightarrow> pubkey \<Rightarrow> grs_world \<Rightarrow> bool" where
  "stores_inv g m w \<longleftrightarrow> token_mint w = m \<and> os_token_escrow (oft_store w) = token_escrow_key g \<and>
     ld2sd_rate (oft_store w) = GRS_LD2SD_RATE \<and> sr_oft_store (sale_registry w) = store_key g \<and>
     pr_oft_store (peer_registry w) = store_key g"

definition grs_inv :: "genv \<Rightarrow> pubkey \<Rightarrow> grs_world \<Rightarrow> bool" where
  "grs_inv g m w \<longleftrightarrow> stores_inv g m w \<and> sales_inv g w \<and> vests_inv g w \<and> backed g m w"

section \<open>What a step may do to it\<close>

text \<open>
  \<open>moves g m s v l l'\<close>: the balances of the two escrows shift by \<open>s\<close> and \<open>v\<close>, and the supply of
  the mint grows at most to the cap.
\<close>

definition capped :: "pubkey \<Rightarrow> ledger \<Rightarrow> ledger \<Rightarrow> bool" where
  "capped m l l' \<longleftrightarrow> supply_of l' m \<le> max (supply_of l m) (unat GRS_MAX_SUPPLY_LD)"

lemma capped_refl [simp]: "capped m l l"
  by (simp add: capped_def)

lemma capped_trans: "capped m a b \<Longrightarrow> capped m b c \<Longrightarrow> capped m a c"
  by (auto simp: capped_def)

lemma capped_cong: "mints l' m = mints l m \<Longrightarrow> capped m l l'"
  by (simp add: capped_def supply_of_def)

definition moves :: "genv \<Rightarrow> pubkey \<Rightarrow> int \<Rightarrow> int \<Rightarrow> ledger \<Rightarrow> ledger \<Rightarrow> bool" where
  "moves g m s v l l' \<longleftrightarrow> shift m (config_key g) (sale_escrow_key g) s l l' \<and>
     shift m (config_key g) (vest_escrow_key g) v l l' \<and> capped m l l'"

lemma moves_refl [simp]: "moves g m 0 0 l l"
  by (simp add: moves_def)

lemma moves_trans: "moves g m a b l l1 \<Longrightarrow> moves g m c d l1 l2 \<Longrightarrow> moves g m (a + c) (b + d) l l2"
  using shift_trans capped_trans unfolding moves_def by blast

lemma moves_then: "moves g m a b l l1 \<Longrightarrow> moves g m 0 0 l1 l2 \<Longrightarrow> moves g m a b l l2"
  using moves_trans [of g m a b l l1 0 0 l2] by simp

lemma then_moves: "moves g m 0 0 l l1 \<Longrightarrow> moves g m a b l1 l2 \<Longrightarrow> moves g m a b l l2"
  using moves_trans [of g m 0 0 l l1 a b l2] by simp

lemma moves_backed:
  assumes "backed g m w" "moves g m s v (gledger w) (gledger w')"
    "int (unat (sales_reserved (grs_config w'))) \<le> int (unat (sales_reserved (grs_config w))) + s"
    "int (outstanding w') \<le> int (outstanding w) + v"
  shows "backed g m w'"
proof -
  have h: "held m (config_key g) (sale_escrow_key g) (gledger w)" "held m (config_key g) (vest_escrow_key g) (gledger w)"
    and b: "unat (sales_reserved (grs_config w)) \<le> bal (gledger w) (sale_escrow_key g)"
      "outstanding w \<le> bal (gledger w) (vest_escrow_key g)" "supply_of (gledger w) m \<le> unat GRS_MAX_SUPPLY_LD"
    using assms(1) by (simp_all add: backed_def)
  have cap: "supply_of (gledger w') m \<le> unat GRS_MAX_SUPPLY_LD"
    using assms(2) b(3) by (auto simp: moves_def capped_def)
  have m: "held m (config_key g) (sale_escrow_key g) (gledger w')" "held m (config_key g) (vest_escrow_key g) (gledger w')"
    "int (bal (gledger w) (sale_escrow_key g)) + s \<le> int (bal (gledger w') (sale_escrow_key g))"
    "int (bal (gledger w) (vest_escrow_key g)) + v \<le> int (bal (gledger w') (vest_escrow_key g))"
    using assms(2) h by (simp_all add: moves_def shift_def)
  have "unat (sales_reserved (grs_config w')) \<le> bal (gledger w') (sale_escrow_key g)"
    using assms(3) b(1) m(3) by linarith
  moreover have "outstanding w' \<le> bal (gledger w') (vest_escrow_key g)"
    using assms(4) b(2) m(4) by linarith
  ultimately show ?thesis using m(1,2) cap by (simp add: backed_def)
qed

text \<open>Everything the invariant reads but the ledger.\<close>

definition same_books :: "grs_world \<Rightarrow> grs_world \<Rightarrow> bool" where
  "same_books w w' \<longleftrightarrow> sales w' = sales w \<and> vestings w' = vestings w \<and> sale_registry w' = sale_registry w \<and>
     sales_reserved (grs_config w') = sales_reserved (grs_config w) \<and>
     vesting_count (grs_config w') = vesting_count (grs_config w) \<and>
     home_eid (grs_config w') = home_eid (grs_config w) \<and>
     pr_oft_store (peer_registry w') = pr_oft_store (peer_registry w) \<and>
     token_mint w' = token_mint w \<and> os_token_escrow (oft_store w') = os_token_escrow (oft_store w) \<and>
     ld2sd_rate (oft_store w') = ld2sd_rate (oft_store w)"

lemma same_books_refl [simp]: "same_books w w"
  by (simp add: same_books_def)

lemma same_books_trans: "same_books a b \<Longrightarrow> same_books b c \<Longrightarrow> same_books a c"
  by (simp add: same_books_def)

lemma same_books_ledger [simp]: "same_books w (w\<lparr>gledger := l\<rparr>)"
  by (simp add: same_books_def)

definition quiet_step :: "genv \<Rightarrow> pubkey \<Rightarrow> grs_world \<Rightarrow> grs_world \<Rightarrow> bool" where
  "quiet_step g m w w' \<longleftrightarrow> same_books w w' \<and> moves g m 0 0 (gledger w) (gledger w')"

lemma quiet_step_refl [simp]: "quiet_step g m w w"
  by (simp add: quiet_step_def)

lemma quiet_step_trans: "quiet_step g m a b \<Longrightarrow> quiet_step g m b c \<Longrightarrow> quiet_step g m a c"
  unfolding quiet_step_def using same_books_trans moves_then by blast

lemma quiet_step_inv:
  assumes "grs_inv g m w" "quiet_step g m w w'"
  shows "grs_inv g m w'"
proof -
  have b: "same_books w w'" and l: "moves g m 0 0 (gledger w) (gledger w')"
    using assms(2) by (simp_all add: quiet_step_def)
  have o: "outstanding w' = outstanding w" using b by (simp add: same_books_def outstanding_def)
  have r: "sales_reserved (grs_config w') = sales_reserved (grs_config w)" using b by (simp add: same_books_def)
  have "backed g m w" using assms(1) by (simp add: grs_inv_def)
  then have "backed g m w'" by (rule moves_backed [OF _ l]) (simp_all add: o r)
  moreover have "stores_inv g m w'" using assms(1) b by (simp add: grs_inv_def same_books_def stores_inv_def)
  moreover have "sales_inv g w'"
    using assms(1) b by (simp only: grs_inv_def same_books_def sales_inv_def is_home_def) blast
  moreover have "vests_inv g w'"
    using assms(1) b o by (simp only: grs_inv_def same_books_def vests_inv_def)
  ultimately show ?thesis by (simp add: grs_inv_def)
qed

end
