(* ===== verification/Grs_Steps.thy ===== *)
theory Grs_Steps
  imports Grs_Books
begin

text \<open>
  What each operation of the GRS program does to the books and their escrows: most leave both
  alone (\<open>quiet_step\<close>); the sale and vesting operations move a row and its escrow together.
\<close>

section \<open>The environment\<close>

definition apart :: "env \<Rightarrow> genv \<Rightarrow> bool" where
  "apart e g \<longleftrightarrow> (\<forall>u m s. ata e u m \<noteq> gpda g s)"

text \<open>The OFT's own mint takes no transfer fee.\<close>

definition good_genv :: "env \<Rightarrow> genv \<Rightarrow> pubkey \<Rightarrow> bool" where
  "good_genv e g m \<longleftrightarrow> env_laws e \<and> genv_laws g m \<and> apart e g \<and> epoch_fee g m = None"

lemma good_genvD:
  assumes "good_genv e g m"
  shows "env_laws e" "genv_laws g m" "ata e u m' \<noteq> gpda g s" "epoch_fee g m = None"
    "gpda g s = gpda g t \<longleftrightarrow> s = t"
  using assms by (auto simp: good_genv_def apart_def genv_laws_def inj_eq)

section \<open>Calls\<close>

lemma ginvoke_Ok [ok_simps]:
  "ginvoke f w = Ok w' \<longleftrightarrow> (\<exists>l. f (gledger w) = Some l \<and> w' = w\<lparr>gledger := l\<rparr>)"
  by (auto simp: ginvoke_def step_iffs)

lemma quiet_ginvoke:
  assumes "ginvoke f w = Ok w'" "\<And>l'. f (gledger w) = Some l' \<Longrightarrow> moves g m 0 0 (gledger w) l'"
  shows "quiet_step g m w w'"
  using assms by (auto simp: ginvoke_Ok quiet_step_def)

lemma ginvoke_moves:
  assumes "ginvoke f w = Ok w'" "\<And>l'. f (gledger w) = Some l' \<Longrightarrow> moves g m s v (gledger w) l'"
  shows "same_books w w'" "moves g m s v (gledger w) (gledger w')" "w' = w\<lparr>gledger := gledger w'\<rparr>"
  using assms by (auto simp: ginvoke_Ok)

text \<open>A token account of somebody else.\<close>

definition not_ours :: "genv \<Rightarrow> pubkey \<Rightarrow> ledger \<Rightarrow> bool" where
  "not_ours g k l \<longleftrightarrow> (\<exists>a. token_accounts l k = Some a \<and> tk_owner a \<noteq> config_key g)"

lemma not_ours_shape: "not_ours g k l \<Longrightarrow> same_shape l l' \<Longrightarrow> not_ours g k l'"
  unfolding not_ours_def same_shape_def by fastforce

lemma not_ours_held: "not_ours g from l \<Longrightarrow> held m (config_key g) k l \<Longrightarrow> k \<noteq> from"
  by (auto simp: not_ours_def held_def)

lemma moves_transfer:
  assumes "good_genv e g m" "transfer_checked g from mt to auth amt d l = Some l'"
  shows "not_ours g from l \<Longrightarrow> moves g m 0 0 l l'"
    "from \<noteq> sale_escrow_key g \<Longrightarrow> from \<noteq> vest_escrow_key g \<Longrightarrow> moves g m 0 0 l l'"
    "from = sale_escrow_key g \<Longrightarrow> moves g m (- int (unat amt)) 0 l l'"
    "from = vest_escrow_key g \<Longrightarrow> moves g m 0 (- int (unat amt)) l l'"
    "mt = m \<Longrightarrow> to = sale_escrow_key g \<Longrightarrow> not_ours g from l \<or> from \<noteq> sale_escrow_key g \<and> from \<noteq> vest_escrow_key g \<Longrightarrow>
       moves g m (int (unat amt)) 0 l l'"
    "mt = m \<Longrightarrow> to = vest_escrow_key g \<Longrightarrow> not_ours g from l \<or> from \<noteq> sale_escrow_key g \<and> from \<noteq> vest_escrow_key g \<Longrightarrow>
       moves g m 0 (int (unat amt)) l l'"
proof -
  note G = good_genvD [OF assms(1)]
  note T = transfer_shift [OF G(2) assms(2), where own = "config_key g"]
  have ne: "sale_escrow_key g \<noteq> vest_escrow_key g" by (simp add: G(5))
  have cap: "capped m l l'" using checked_lawD(3) [OF G(2) assms(2)] by (simp add: capped_cong)
  have past: "shift m (config_key g) k 0 l l'" if "not_ours g from l" for k
    using T(2) [where k = k] not_ours_held [OF that, of m k] by (auto simp: shift_def)
  have into: "shift m (config_key g) k (int (unat amt)) l l'"
    if "not_ours g from l \<or> k \<noteq> from" "k = to" "mt = m" for k
    using T(3) [where k = k] not_ours_held [of g "from" l m k] that G(4) by (auto simp: shift_def)
  show "not_ours g from l \<Longrightarrow> moves g m 0 0 l l'" using past cap by (simp add: moves_def)
  show "from \<noteq> sale_escrow_key g \<Longrightarrow> from \<noteq> vest_escrow_key g \<Longrightarrow> moves g m 0 0 l l'"
    using T(2) cap by (simp add: moves_def)
  show "from = sale_escrow_key g \<Longrightarrow> moves g m (- int (unat amt)) 0 l l'"
    unfolding moves_def using T(1) [where k = "sale_escrow_key g"] T(2) [where k = "vest_escrow_key g"] ne cap by auto
  show "from = vest_escrow_key g \<Longrightarrow> moves g m 0 (- int (unat amt)) l l'"
    unfolding moves_def using T(1) [where k = "vest_escrow_key g"] T(2) [where k = "sale_escrow_key g"] ne cap by auto
  have beside: "shift m (config_key g) k 0 l l'"
    if "not_ours g from l \<or> from \<noteq> sale_escrow_key g \<and> from \<noteq> vest_escrow_key g"
      "k = sale_escrow_key g \<or> k = vest_escrow_key g" for k
  proof (cases "not_ours g from l")
    case True
    then show ?thesis by (rule past)
  next
    case False
    then have "k \<noteq> from" using that by metis
    then show ?thesis by (rule T(2))
  qed
  have into_escrow: "shift m (config_key g) k (int (unat amt)) l l'"
    if "not_ours g from l \<or> from \<noteq> sale_escrow_key g \<and> from \<noteq> vest_escrow_key g"
      "k = sale_escrow_key g \<or> k = vest_escrow_key g" "k = to" "mt = m" for k
    by (rule into) (use that in metis)+
  show "moves g m (int (unat amt)) 0 l l'"
    if "mt = m" "to = sale_escrow_key g" "not_ours g from l \<or> from \<noteq> sale_escrow_key g \<and> from \<noteq> vest_escrow_key g"
    unfolding moves_def
    by (intro conjI into_escrow [OF that(3) _ that(2) [symmetric] that(1)] beside [OF that(3)] cap) simp_all
  show "moves g m 0 (int (unat amt)) l l'"
    if "mt = m" "to = vest_escrow_key g" "not_ours g from l \<or> from \<noteq> sale_escrow_key g \<and> from \<noteq> vest_escrow_key g"
    unfolding moves_def
    by (intro conjI into_escrow [OF that(3) _ that(2) [symmetric] that(1)] beside [OF that(3)] cap) simp_all
qed

lemma moves_mint:
  assumes "good_genv e g m" "spl_mint_to e m to auth amt l = Some l'"
    "supply_of l m + unat amt \<le> unat GRS_MAX_SUPPLY_LD"
  shows "moves g m 0 0 l l'" "to = sale_escrow_key g \<Longrightarrow> moves g m (int (unat amt)) 0 l l'"
    "to = vest_escrow_key g \<Longrightarrow> moves g m 0 (int (unat amt)) l l'"
  using mint_shift [OF good_genvD(1) [OF assms(1)] assms(2)] assms(3)
    mint_lawD(2) [OF good_genvD(1) [OF assms(1)] assms(2)] by (simp_all add: moves_def capped_def)

lemma moves_burn:
  assumes "good_genv e g m" "spl_burn e mt from auth amt l = Some l'"
  shows "not_ours g from l \<Longrightarrow> moves g m 0 0 l l'"
    "from = sale_escrow_key g \<Longrightarrow> moves g m (- int (unat amt)) 0 l l'"
proof -
  note B = burn_shift [OF good_genvD(1) [OF assms(1)] assms(2), where m = m and own = "config_key g"]
  note L = burn_lawD [OF good_genvD(1) [OF assms(1)] assms(2)]
  have cap: "capped m l l'"
    using L(4) L(5) [of m] capped_cong [of l' m l] by (cases "mt = m") (auto simp: capped_def)
  show "from = sale_escrow_key g \<Longrightarrow> moves g m (- int (unat amt)) 0 l l'"
    unfolding moves_def using cap B(1) [where k = "sale_escrow_key g"] B(2) [where k = "vest_escrow_key g"]
    by (simp add: good_genvD(5) [OF assms(1)])
  show "moves g m 0 0 l l'" if "not_ours g from l"
    using B(2) not_ours_held [OF that, of m] cap by (auto simp: moves_def shift_def)
qed

lemma moves_spares: "spares m l l' \<Longrightarrow> moves g m 0 0 l l'"
  using shift_spares [of m l l'] by (simp add: moves_def capped_cong spares_def)

lemma moves_frame: "token_accounts l' = token_accounts l \<Longrightarrow> supply_of l' m = supply_of l m \<Longrightarrow> moves g m 0 0 l l'"
  by (simp add: moves_def shift_cong capped_def)

lemma endpoint_spares:
  assumes "good_genv e g m"
  shows "endpoint_send g p a ks x l = Some (l', r) \<Longrightarrow> spares m l l'"
    "endpoint_clear g p a ks y l = Some l' \<Longrightarrow> spares m l l'"
    "endpoint_send_compose g p a ks z l = Some l' \<Longrightarrow> spares m l l'"
    "endpoint_set_delegate g p a ks d l = Some l' \<Longrightarrow> spares m l l'"
    "endpoint_register_oapp g p a ks d l = Some l' \<Longrightarrow> spares m l l'"
proof -
  have L: "endpoint_law g m" using assms by (simp add: good_genv_def genv_laws_def)
  show "spares m l l'" if s: "endpoint_send g p a ks x l = Some (l', r)"
  proof -
    have "spares m l (fst (l', r))" using L s by (simp only: endpoint_law_def)
    then show ?thesis by simp
  qed
  show "endpoint_clear g p a ks y l = Some l' \<Longrightarrow> spares m l l'"
    "endpoint_send_compose g p a ks z l = Some l' \<Longrightarrow> spares m l l'"
    "endpoint_set_delegate g p a ks d l = Some l' \<Longrightarrow> spares m l l'"
    "endpoint_register_oapp g p a ks d l = Some l' \<Longrightarrow> spares m l l'"
    using L by (simp_all add: endpoint_law_def)
qed

lemmas moves_endpoint = moves_spares [OF endpoint_spares(1)] moves_spares [OF endpoint_spares(2)]
  moves_spares [OF endpoint_spares(3)] moves_spares [OF endpoint_spares(4)] moves_spares [OF endpoint_spares(5)]

lemma moves_authority:
  assumes "good_genv e g m"
  shows "set_mint_authority g m' u b l = Some l' \<Longrightarrow> moves g m 0 0 l l'"
    "create_metadata_v3 g m' u b l = Some l' \<Longrightarrow> moves g m 0 0 l l'"
proof -
  have L: "authority_law g" using assms by (simp add: good_genv_def genv_laws_def)
  show "moves g m 0 0 l l'" if "set_mint_authority g m' u b l = Some l'"
  proof -
    have "token_accounts l' = token_accounts l \<and>
        (\<exists>x. mints l m' = Some x \<and> mints l' = (mints l)(m' \<mapsto> x\<lparr>mi_authority := Some b\<rparr>))"
      using L that by (simp only: authority_law_def)
    then show ?thesis by (intro moves_frame) (auto simp: supply_of_def)
  qed
  show "moves g m 0 0 l l'" if "create_metadata_v3 g m' u b l = Some l'"
  proof -
    have "token_accounts l' = token_accounts l \<and> mints l' = mints l"
      using L that by (simp only: authority_law_def frames_def)
    then show ?thesis by (intro moves_frame) (simp_all add: supply_of_def)
  qed
qed

lemma moves_system:
  assumes "good_genv e g m"
  shows "sys_transfer e a b n l = Some l' \<Longrightarrow> moves g m 0 0 l l' \<and> mints l' = mints l \<and> token_accounts l' = token_accounts l"
    "sys_create_account e a b n s p l = Some l' \<Longrightarrow> moves g m 0 0 l l' \<and> mints l' = mints l \<and> token_accounts l' = token_accounts l"
    "realloc e a s l = Some l' \<Longrightarrow> moves g m 0 0 l l' \<and> mints l' = mints l \<and> token_accounts l' = token_accounts l"
    "anchor_init e p a s l = Some l' \<Longrightarrow> moves g m 0 0 l l' \<and> mints l' = mints l \<and> token_accounts l' = token_accounts l"
  using system_lawD [OF good_genvD(1) [OF assms]] by (auto simp: supply_of_def intro!: moves_frame)

text \<open>Creating a token account: one of the escrows, or a holder's.\<close>

lemma moves_init:
  assumes "good_genv e g m" "spl_init_account e payer k m own l = Some l'"
    "own = config_key g \<or> (\<exists>u m'. k = ata e u m')"
  shows "moves g m 0 0 l l'"
proof -
  note I = init_shift [OF good_genvD(1) [OF assms(1)] assms(2), where m = m and own = "config_key g"]
  have "capped m l l'" using init_lawD(2) [OF good_genvD(1) [OF assms(1)] assms(2)] by (simp add: capped_cong)
  moreover have "shift m (config_key g) k' 0 l l'" if "k' = gpda g s" for k' s
    using I [where k = k'] assms(3) good_genvD(3) [OF assms(1)] that by metis
  ultimately show ?thesis by (simp add: moves_def)
qed

lemma moves_init3:
  assumes "good_genv e g m" "spl_initialize_account3 e k m (config_key g) l = Some l'"
  shows "moves g m 0 0 l l'" "mints l' = mints l"
  using init3_shift [OF good_genvD(1) [OF assms(1)] assms(2), where m = m and own = "config_key g"]
    init3_lawD(2) [OF good_genvD(1) [OF assms(1)] assms(2)]
  by (simp_all add: moves_def capped_cong)

lemma token_init_Ok:
  assumes "good_genv e g m" "token_init_if_needed e payer k m own w = Ok w'"
    "own = config_key g \<or> (\<exists>u m'. k = ata e u m')"
  shows "quiet_step g m w w'" "w' = w\<lparr>gledger := gledger w'\<rparr>" "mints (gledger w') = mints (gledger w)"
    "\<exists>a. token_accounts (gledger w') k = Some a \<and> tk_mint a = m \<and> tk_owner a = own"
    "\<And>x a. token_accounts (gledger w) x = Some a \<Longrightarrow> token_accounts (gledger w') x = Some a"
proof -
  have q: "quiet_step g m w w' \<and> w' = w\<lparr>gledger := gledger w'\<rparr> \<and> mints (gledger w') = mints (gledger w) \<and>
    (\<exists>a. token_accounts (gledger w') k = Some a \<and> tk_mint a = m \<and> tk_owner a = own) \<and>
    (\<forall>x a. token_accounts (gledger w) x = Some a \<longrightarrow> token_accounts (gledger w') x = Some a)"
  proof (cases "token_accounts (gledger w) k")
    case (Some a)
    then have "w' = w" "tk_mint a = m" "tk_owner a = own"
      using assms(2) by (auto simp: token_init_if_needed_def step_iffs)
    then show ?thesis using Some by simp
  next
    case None
    then obtain l where l: "spl_init_account e payer k m own (gledger w) = Some l" "w' = w\<lparr>gledger := l\<rparr>"
      using assms(2) by (auto simp: token_init_if_needed_def ginvoke_Ok)
    note I = init_lawD [OF good_genvD(1) [OF assms(1)] l(1)]
    have "moves g m 0 0 (gledger w) l" by (rule moves_init [OF assms(1) l(1) assms(3)])
    then show ?thesis using None I(2) by (simp add: l(2) quiet_step_def I(3))
  qed
  show "quiet_step g m w w'" "w' = w\<lparr>gledger := gledger w'\<rparr>" "mints (gledger w') = mints (gledger w)"
    "\<exists>a. token_accounts (gledger w') k = Some a \<and> tk_mint a = m \<and> tk_owner a = own"
    "\<And>x a. token_accounts (gledger w) x = Some a \<Longrightarrow> token_accounts (gledger w') x = Some a"
    using q by blast+
qed

lemma token_account_Ok:
  "token_account k m own w = Ok a \<longleftrightarrow> token_accounts (gledger w) k = Some a \<and> tk_mint a = m \<and> (own = None \<or> own = Some (tk_owner a))"
  by (auto simp: token_account_def step_iffs)

end
