(* ===== verification/Grs_Effects.thy ===== *)
theory Grs_Effects
  imports Grs_Steps
begin

text \<open>
  Every operation keeps the invariant of the GRS program, one lemma per operation: the quiet ones
  first, then the sale book, the vestings and the receiver.
\<close>

lemma quiet_gledger:
  "moves g m 0 0 (gledger w) l \<Longrightarrow> quiet_step g m w (w\<lparr>gledger := l\<rparr>)"
  by (simp add: quiet_step_def)

lemma quiet_books:
  "same_books w w' \<Longrightarrow> gledger w' = gledger w \<Longrightarrow> quiet_step g m w w'"
  by (simp add: quiet_step_def)

lemma load_mint_Ok: "load_mint w = Ok mi \<longleftrightarrow> mints (gledger w) (token_mint w) = Some mi"
  by (simp add: load_mint_def account_Ok_iff)

section \<open>Sending\<close>

lemma endpoint_send_as_quiet:
  assumes "good_genv e g m" "endpoint_send_as g ks p w = Ok (r, w')"
  shows "quiet_step g m w w'" "w' = w\<lparr>gledger := gledger w'\<rparr>"
proof -
  obtain l where l: "endpoint_send g (endpoint_program (oft_store w)) (store_key g) ks p (gledger w) = Some (l, r)"
    "w' = w\<lparr>gledger := l\<rparr>"
    using assms(2) by (auto simp: endpoint_send_as_def step_iffs)
  show "quiet_step g m w w'" using moves_endpoint(1) [OF assms(1) l(1)] by (simp add: l(2) quiet_gledger)
  show "w' = w\<lparr>gledger := gledger w'\<rparr>" by (simp add: l(2))
qed

lemma lock_or_burn_quiet:
  assumes G: "good_genv e g m" and src: "not_ours g src (gledger w)"
    and ok: "lock_or_burn e g signer src mi sent received fee w = Ok w'"
  shows "quiet_step g m w w'"
proof (cases "oft_type (oft_store w) = Adapter")
  case True
  then obtain tvl where "ginvoke (transfer_checked g src (token_mint w) (token_escrow_key g) signer sent (mi_decimals mi))
      (w\<lparr>oft_store := (oft_store w)\<lparr>tvl_ld := tvl\<rparr>\<rparr>) = Ok w'"
    using ok by (auto simp: lock_or_burn_def step_iffs)
  then obtain l where l: "transfer_checked g src (token_mint w) (token_escrow_key g) signer sent (mi_decimals mi) (gledger w) = Some l"
    "w' = w\<lparr>oft_store := (oft_store w)\<lparr>tvl_ld := tvl\<rparr>, gledger := l\<rparr>"
    by (auto simp: ginvoke_Ok)
  show ?thesis using moves_transfer(1) [OF G l(1) src] by (simp add: l(2) quiet_step_def same_books_def)
next
  case False
  then obtain burnt w1 where b: "ginvoke (spl_burn e (token_mint w) src signer burnt) w = Ok w1"
    and t: "(if 0 < fee then ginvoke (transfer_checked g src (token_mint w1) (token_escrow_key g) signer fee (mi_decimals mi)) w1
             else Ok w1) = Ok w'"
    using ok by (auto simp: lock_or_burn_def step_iffs)
  obtain l where l: "spl_burn e (token_mint w) src signer burnt (gledger w) = Some l" "w1 = w\<lparr>gledger := l\<rparr>"
    using b by (auto simp: ginvoke_Ok)
  have q: "quiet_step g m w w1" using moves_burn(1) [OF G l(1) src] by (simp add: l(2) quiet_gledger)
  have src1: "not_ours g src (gledger w1)"
    using not_ours_shape [OF src burn_lawD(1) [OF good_genvD(1) [OF G] l(1)]] by (simp add: l(2))
  show ?thesis
  proof (cases "0 < fee")
    case True
    then have "quiet_step g m w1 w'"
      using t by (auto simp: ginvoke_Ok intro!: quiet_gledger moves_transfer(1) [OF G _ src1])
    then show ?thesis by (rule quiet_step_trans [OF q])
  next
    case False
    then show ?thesis using t q by simp
  qed
qed

lemma quiet_then_peers:
  "quiet_step g m (w\<lparr>peers := p\<rparr>) w' \<Longrightarrow> quiet_step g m w w'"
  by (simp add: quiet_step_def same_books_def)

lemma execute_send_quiet:
  assumes G: "good_genv e g m" and s: "signer \<noteq> config_key g"
    and ok: "execute_send e g signer src ks params w = Ok (r, w')"
  shows "quiet_step g m w w'"
proof -
  obtain a mi sent received fee peer' w1 where
      a: "token_account src (token_mint w) (Some signer) w = Ok a"
      and 1: "lock_or_burn e g signer src mi sent received fee (w\<lparr>peers := (peers w)(sd_dst_eid params \<mapsto> peer')\<rparr>) = Ok w1"
      and 2: "\<exists>p r'. endpoint_send_as g ks p w1 = Ok (r', w')"
    using ok unfolding execute_send_def Let_def by (elim steps_OkE) (simp add: step_iffs, blast)
  have "not_ours g src (gledger (w\<lparr>peers := (peers w)(sd_dst_eid params \<mapsto> peer')\<rparr>))"
    using a s by (auto simp: token_account_Ok not_ours_def)
  from lock_or_burn_quiet [OF G this 1] have "quiet_step g m w w1" by (rule quiet_then_peers)
  moreover have "quiet_step g m w1 w'" using 2 endpoint_send_as_quiet(1) [OF G] by blast
  ultimately show ?thesis by (rule quiet_step_trans)
qed

section \<open>Administration\<close>

lemma set_delegate_quiet:
  "good_genv e g m \<Longrightarrow> set_delegate g ks d w = Ok w' \<Longrightarrow> quiet_step g m w w'"
  by (auto simp: set_delegate_def ginvoke_Ok intro!: quiet_gledger moves_endpoint(4))

lemma propose_admin_quiet: "propose_admin k w = Ok w' \<Longrightarrow> quiet_step g m w w'"
  by (auto simp: propose_admin_def step_iffs intro!: quiet_books simp: same_books_def)

lemma execute_set_oft_config_quiet:
  assumes "good_genv e g m" "execute_set_oft_config g admin ks params w = Ok w'"
  shows "quiet_step g m w w'"
proof (cases params)
  case (Admin k)
  then show ?thesis using assms(2) propose_admin_quiet by (auto simp: execute_set_oft_config_def step_iffs)
next
  case (Delegate k)
  then show ?thesis using assms(2) set_delegate_quiet [OF assms(1)] by (auto simp: execute_set_oft_config_def step_iffs)
qed (use assms(2) in \<open>auto simp: execute_set_oft_config_def step_iffs same_books_def intro!: quiet_books\<close>)

lemma execute_accept_ownership_quiet:
  assumes "good_genv e g m" "execute_accept_ownership_grs g k ks w = Ok w'"
  shows "quiet_step g m w w'"
proof -
  let ?w = "w\<lparr>oft_store := (oft_store w)\<lparr>os_admin := k, os_pending_owner := default_pubkey\<rparr>\<rparr>"
  have "quiet_step g m w ?w" by (rule quiet_books) (simp_all add: same_books_def)
  moreover have "quiet_step g m ?w w'"
    using assms(2) set_delegate_quiet [OF assms(1), of ks k ?w w']
    by (auto simp: execute_accept_ownership_grs_def step_iffs Let_def split: if_splits)
  ultimately show ?thesis by (rule quiet_step_trans)
qed

lemma apply_peer_param_registry:
  "apply_peer_param e g eid c p reg = Ok (p', reg') \<Longrightarrow> pr_oft_store reg' = pr_oft_store reg"
  by (auto simp: apply_peer_param_def step_iffs upsert_def Let_def split: PeerConfigParam.splits option.splits if_splits)

lemma execute_set_peer_config_quiet:
  assumes G: "good_genv e g m" and ok: "execute_set_peer_config e g admin eid c w = Ok w'"
  shows "quiet_step g m w w'"
proof -
  obtain p w1 p' reg' where
      1: "(case peers w eid of Some p \<Rightarrow> Ok (p, w)
           | None \<Rightarrow> and_then (ginvoke (anchor_init e admin (gpda g (PeerSeed eid)) PeerConfig_SPACE) w)
                       (\<lambda>w. Ok (default_peer, w))) = Ok (p, w1)"
      and 2: "apply_peer_param e g eid c p (peer_registry w1) = Ok (p', reg')"
      and w': "w' = w1\<lparr>peers := (peers w1)(eid \<mapsto> p'\<lparr>pc_bump := gpda_bump g (PeerSeed eid)\<rparr>), peer_registry := reg'\<rparr>"
    using ok unfolding execute_set_peer_config_def by (elim steps_OkE) (auto simp: step_iffs)
  have "quiet_step g m w w1"
    using 1 moves_system(4) [OF G]
    by (auto simp: step_iffs ginvoke_Ok split: option.splits intro!: quiet_gledger)
  moreover have "quiet_step g m w1 w'"
    using apply_peer_param_registry [OF 2] by (intro quiet_books) (simp_all add: w' same_books_def)
  ultimately show ?thesis by (rule quiet_step_trans)
qed

lemma execute_patch_quiet:
  assumes G: "good_genv e g m" and ok: "execute_patch_lz_receive_types_accounts e g admin w = Ok w'"
  shows "quiet_step g m w w'"
proof -
  obtain w1 w2 where
      1: "w1 = w \<or> (\<exists>d. ginvoke (sys_transfer e admin (gpda g LzReceiveTypesSeed) d) w = Ok w1)"
      and 2: "w2 = w1 \<or> ginvoke (realloc e (gpda g LzReceiveTypesSeed) LzReceiveTypesAccounts_SPACE) w1 = Ok w2"
      and w': "w' = w2\<lparr>lz_types := \<lparr> lt_oft_store = store_key g, lt_token_mint = token_mint w2,
                          lt_grs_config = config_key g \<rparr>\<rparr>"
    using ok by (auto simp: execute_patch_lz_receive_types_accounts_def Let_def step_iffs split: if_splits)
  have "quiet_step g m w w1" using 1 moves_system(1) [OF G] by (auto simp: ginvoke_Ok intro!: quiet_gledger)
  moreover have "quiet_step g m w1 w2" using 2 moves_system(3) [OF G] by (auto simp: ginvoke_Ok intro!: quiet_gledger)
  moreover have "quiet_step g m w2 w'" by (rule quiet_books) (simp_all add: w' same_books_def)
  ultimately show ?thesis by (blast intro: quiet_step_trans)
qed

lemma execute_withdraw_fee_quiet:
  assumes G: "good_genv e g m" and ok: "execute_withdraw_fee g admin dest fee w = Ok w'"
  shows "quiet_step g m w w'"
  using ok
  by (auto simp: execute_withdraw_fee_def step_iffs ginvoke_Ok good_genvD(5) [OF G]
      intro!: quiet_gledger moves_transfer(2) [OF G])

lemma execute_mint_genesis_quiet:
  assumes G: "good_genv e g m" and m: "token_mint w = m" and ok: "execute_mint_genesis e g admin dest w = Ok w'"
  shows "quiet_step g m w w'"
proof -
  obtain mi w1 w2 where mi: "mints (gledger w) m = Some mi" "mi_supply mi = 0"
      and 1: "ginvoke (spl_mint_to e m dest admin GRS_MAX_SUPPLY_LD) w = Ok w1"
      and 2: "ginvoke (set_mint_authority g (token_mint w1) admin (store_key g)) w1 = Ok w2"
      and w': "w' = w2\<lparr>grs_config := (grs_config w2)\<lparr>genesis_minted := True\<rparr>\<rparr>"
    using ok m by (auto simp: execute_mint_genesis_def step_iffs load_mint_Ok)
  have "quiet_step g m w w1"
    using 1 mi by (auto simp: ginvoke_Ok supply_of_def intro!: quiet_gledger moves_mint(1) [OF G])
  moreover have "quiet_step g m w1 w2"
    using 2 by (auto simp: ginvoke_Ok intro!: quiet_gledger moves_authority(1) [OF G])
  moreover have "quiet_step g m w2 w'" by (rule quiet_books) (simp_all add: w' same_books_def)
  ultimately show ?thesis by (blast intro: quiet_step_trans)
qed

section \<open>Changing one row\<close>

text \<open>What a step on the lots leaves alone, and what a step on the vestings does.\<close>

definition beside_lots :: "grs_world \<Rightarrow> grs_world \<Rightarrow> bool" where
  "beside_lots w w' \<longleftrightarrow> vestings w' = vestings w \<and> vesting_count (grs_config w') = vesting_count (grs_config w) \<and>
     home_eid (grs_config w') = home_eid (grs_config w) \<and> sr_oft_store (sale_registry w') = sr_oft_store (sale_registry w) \<and>
     pr_oft_store (peer_registry w') = pr_oft_store (peer_registry w) \<and> token_mint w' = token_mint w \<and>
     os_token_escrow (oft_store w') = os_token_escrow (oft_store w) \<and> ld2sd_rate (oft_store w') = ld2sd_rate (oft_store w)"

definition beside_vests :: "grs_world \<Rightarrow> grs_world \<Rightarrow> bool" where
  "beside_vests w w' \<longleftrightarrow> sales w' = sales w \<and> sale_registry w' = sale_registry w \<and>
     sales_reserved (grs_config w') = sales_reserved (grs_config w) \<and> home_eid (grs_config w') = home_eid (grs_config w) \<and>
     pr_oft_store (peer_registry w') = pr_oft_store (peer_registry w) \<and> token_mint w' = token_mint w \<and>
     os_token_escrow (oft_store w') = os_token_escrow (oft_store w) \<and> ld2sd_rate (oft_store w') = ld2sd_rate (oft_store w)"

lemma grs_invD:
  assumes "grs_inv g m w"
  shows "stores_inv g m w" "sales_inv g w" "vests_inv g w" "backed g m w" "token_mint w = m"
    "book_ok lot_owed (lot_ok g (is_home (grs_config w))) (sales w) (unat (sales_reserved (grs_config w)))"
    "book_ok vest_owed (vest_ok g) (vestings w) (outstanding w)"
    "held m (config_key g) (sale_escrow_key g) (gledger w)" "held m (config_key g) (vest_escrow_key g) (gledger w)"
    "unat (sales_reserved (grs_config w)) \<le> bal (gledger w) (sale_escrow_key g)"
    "outstanding w \<le> bal (gledger w) (vest_escrow_key g)"
    "dom (vestings w) = {i. i \<noteq> 0 \<and> i \<le> vesting_count (grs_config w)}"
proof -
  show g: "stores_inv g m w" "sales_inv g w" "vests_inv g w" "backed g m w" using assms by (simp_all add: grs_inv_def)
  show "token_mint w = m" using g(1) by (simp add: stores_inv_def)
  show "book_ok lot_owed (lot_ok g (is_home (grs_config w))) (sales w) (unat (sales_reserved (grs_config w)))"
    using g(2) unfolding sales_inv_def by blast
  show "book_ok vest_owed (vest_ok g) (vestings w) (outstanding w)"
    "dom (vestings w) = {i. i \<noteq> 0 \<and> i \<le> vesting_count (grs_config w)}"
    using g(3) unfolding vests_inv_def by blast+
  show "held m (config_key g) (sale_escrow_key g) (gledger w)" "held m (config_key g) (vest_escrow_key g) (gledger w)"
    "unat (sales_reserved (grs_config w)) \<le> bal (gledger w) (sale_escrow_key g)"
    "outstanding w \<le> bal (gledger w) (vest_escrow_key g)"
    using g(4) by (simp_all add: backed_def)
qed

lemma lot_step:
  assumes inv: "grs_inv g m w" and mv: "moves g m s 0 (gledger w) (gledger w')" and b: "beside_lots w w'"
    and row: "sales w' = (sales w)(sid \<mapsto> a)" "lot_ok g (is_home (grs_config w)) sid a" "sid \<noteq> 0"
    and count: "sid \<le> sale_count (sale_registry w')" "sale_count (sale_registry w) \<le> sale_count (sale_registry w')"
      "\<And>i. is_home (grs_config w) \<Longrightarrow> i \<noteq> 0 \<Longrightarrow> i \<le> sale_count (sale_registry w') \<Longrightarrow>
         i \<noteq> sid \<Longrightarrow> i \<le> sale_count (sale_registry w)"
    and res: "unat (sales_reserved (grs_config w')) + owed_at lot_owed (sales w) sid =
        unat (sales_reserved (grs_config w)) + lot_owed a"
      "int (unat (sales_reserved (grs_config w'))) \<le> int (bal (gledger w) (sale_escrow_key g)) + s"
  shows "grs_inv g m w'"
proof -
  note D = grs_invD [OF inv]
  have home: "is_home (grs_config w') = is_home (grs_config w)" using b by (simp add: beside_lots_def is_home_def)
  have book: "book_ok lot_owed (lot_ok g (is_home (grs_config w'))) (sales w') (unat (sales_reserved (grs_config w')))"
    unfolding home row(1) by (rule book_ok_put [OF D(6) row(2) res(1)])
  have "\<forall>i. i \<in> dom (sales w') \<longrightarrow> i \<noteq> 0 \<and> i \<le> sale_count (sale_registry w')"
    using D(2) row(1,3) count(1,2) by (auto simp: sales_inv_def intro: order_trans)
  moreover have "\<forall>i. i \<noteq> 0 \<and> i \<le> sale_count (sale_registry w') \<longrightarrow> i \<in> dom (sales w')" if h: "is_home (grs_config w')"
  proof (intro allI impI)
    fix i
    assume i: "i \<noteq> 0 \<and> i \<le> sale_count (sale_registry w')"
    show "i \<in> dom (sales w')"
    proof (cases "i = sid")
      case False
      have "i \<le> sale_count (sale_registry w)"
        by (rule count(3) [OF h [unfolded home] conjunct1 [OF i] conjunct2 [OF i] False])
      moreover have "is_home (grs_config w)" using h home by simp
      ultimately have "i \<in> dom (sales w)" using D(2) i unfolding sales_inv_def by blast
      then show ?thesis by (simp add: row(1))
    qed (simp add: row(1))
  qed
  ultimately have "sales_inv g w'" using book unfolding sales_inv_def by blast
  moreover have o: "outstanding w' = outstanding w" using b by (simp add: beside_lots_def outstanding_def)
  then have "vests_inv g w'" using D(3) b by (simp add: vests_inv_def beside_lots_def)
  moreover have "stores_inv g m w'" using D(1) b by (simp add: stores_inv_def beside_lots_def)
  moreover have "backed g m w'"
  proof -
    have m: "held m (config_key g) (sale_escrow_key g) (gledger w')" "held m (config_key g) (vest_escrow_key g) (gledger w')"
      "int (bal (gledger w) (sale_escrow_key g)) + s \<le> int (bal (gledger w') (sale_escrow_key g))"
      "int (bal (gledger w) (vest_escrow_key g)) + 0 \<le> int (bal (gledger w') (vest_escrow_key g))"
      using mv D(8,9) by (simp_all add: moves_def shift_def)
    have "unat (sales_reserved (grs_config w')) \<le> bal (gledger w') (sale_escrow_key g)" using res(2) m(3) by linarith
    moreover have "outstanding w' \<le> bal (gledger w') (vest_escrow_key g)" using D(11) m(4) o by linarith
    moreover have "supply_of (gledger w') m \<le> unat GRS_MAX_SUPPLY_LD"
      using mv D(4) by (auto simp: moves_def capped_def backed_def)
    ultimately show ?thesis using m(1,2) by (simp add: backed_def)
  qed
  ultimately show ?thesis by (simp add: grs_inv_def)
qed

lemma vest_step:
  assumes inv: "grs_inv g m w" and mv: "moves g m 0 s (gledger w) (gledger w')" and b: "beside_vests w w'"
    and row: "vestings w' = (vestings w)(vid \<mapsto> v)" "vest_ok g vid v"
    and dom: "insert vid (dom (vestings w)) = {i. i \<noteq> 0 \<and> i \<le> vesting_count (grs_config w')}"
    and owed: "n + owed_at vest_owed (vestings w) vid = outstanding w + vest_owed v"
      "int n \<le> int (outstanding w) + s"
  shows "grs_inv g m w'"
proof -
  note D = grs_invD [OF inv]
  have book: "book_ok vest_owed (vest_ok g) (vestings w') n"
    unfolding row(1) by (rule book_ok_put [OF D(7) row(2) owed(1)])
  then have o: "outstanding w' = n" by (simp add: book_ok_def outstanding_def)
  have "vests_inv g w'" using book dom by (simp add: vests_inv_def o row(1))
  moreover have "sales_inv g w'"
    using D(2) b by (simp only: sales_inv_def beside_vests_def is_home_def) blast
  moreover have "stores_inv g m w'" using D(1) b by (simp add: stores_inv_def beside_vests_def)
  moreover have "backed g m w'"
    using b owed(2) o by (intro moves_backed [OF D(4) mv]) (simp_all add: beside_vests_def)
  ultimately show ?thesis by (simp add: grs_inv_def)
qed

section \<open>The home book\<close>

text \<open>The identifiers of a book in use.\<close>

lemma lot_ids:
  assumes "grs_inv g m w" "sales w sid = Some a"
  shows "sid \<noteq> 0" "sid \<le> sale_count (sale_registry w)" "lot_ok g (is_home (grs_config w)) sid a"
    "lot_owed a \<le> unat (sales_reserved (grs_config w))"
proof -
  have "sid \<in> dom (sales w)" using assms(2) by blast
  then show "sid \<noteq> 0" "sid \<le> sale_count (sale_registry w)"
    using grs_invD(2) [OF assms(1)] unfolding sales_inv_def by blast+
  show "lot_ok g (is_home (grs_config w)) sid a" "lot_owed a \<le> unat (sales_reserved (grs_config w))"
    using book_ok_row [OF grs_invD(6) [OF assms(1)] assms(2)] by simp_all
qed

text \<open>Replacing an existing lot.\<close>

lemma lot_replace:
  assumes inv: "grs_inv g m w" and old: "sales w sid = Some a0"
    and mv: "moves g m s 0 (gledger w) (gledger w')" and b: "beside_lots w w'"
    and row: "sales w' = (sales w)(sid \<mapsto> a)" "lot_ok g (is_home (grs_config w)) sid a"
    and count: "sale_count (sale_registry w') = sale_count (sale_registry w)"
    and res: "unat (sales_reserved (grs_config w')) + lot_owed a0 = unat (sales_reserved (grs_config w)) + lot_owed a"
      "int (unat (sales_reserved (grs_config w'))) \<le> int (unat (sales_reserved (grs_config w))) + s"
  shows "grs_inv g m w'"
proof (rule lot_step [OF inv mv b row])
  note I = lot_ids [OF inv old]
  show "sid \<noteq> 0" by (rule I(1))
  show "sid \<le> sale_count (sale_registry w')" using I(2) by (simp only: count)
  show "unat (sales_reserved (grs_config w')) + owed_at lot_owed (sales w) sid =
      unat (sales_reserved (grs_config w)) + lot_owed a"
    using res(1) old by simp
  show "int (unat (sales_reserved (grs_config w'))) \<le> int (bal (gledger w) (sale_escrow_key g)) + s"
    using res(2) grs_invD(10) [OF inv] by linarith
qed (simp_all only: count order_refl)

lemma accounts_SetSale_Ok:
  assumes "good_genv e g m" "token_mint w = m" "accounts_SetSale e g ac w = Ok (src, mi, w')"
  shows "quiet_step g m w w'" "w' = w\<lparr>gledger := gledger w'\<rparr>" "os_admin (oft_store w) = ss_admin ac"
    "token_accounts (gledger w') (ss_inventory_source ac) = Some src"
    "\<exists>a. token_accounts (gledger w') (sale_escrow_key g) = Some a"
proof -
  have i: "token_init_if_needed e (ss_admin ac) (sale_escrow_key g) m (config_key g) w = Ok w'"
    and s: "os_admin (oft_store w) = ss_admin ac" "token_account (ss_inventory_source ac) m None w' = Ok src"
  proof -
    obtain w1 where 1: "token_init_if_needed e (ss_admin ac) (sale_escrow_key g) m (config_key g) w = Ok w1"
      "os_admin (oft_store w) = ss_admin ac" "token_account (ss_inventory_source ac) (token_mint w1) None w1 = Ok src" "w1 = w'"
      using assms(2,3) by (auto simp: accounts_SetSale_def step_iffs)
    have "token_mint w1 = m" using token_init_Ok(1) [OF assms(1) 1(1)] assms(2) by (simp add: quiet_step_def same_books_def)
    then show "token_init_if_needed e (ss_admin ac) (sale_escrow_key g) m (config_key g) w = Ok w'"
      "os_admin (oft_store w) = ss_admin ac" "token_account (ss_inventory_source ac) m None w' = Ok src"
      using 1 by simp_all
  qed
  show "quiet_step g m w w'" "w' = w\<lparr>gledger := gledger w'\<rparr>"
    "\<exists>a. token_accounts (gledger w') (sale_escrow_key g) = Some a"
    using token_init_Ok [OF assms(1) i] by blast+
  show "os_admin (oft_store w) = ss_admin ac" by (rule s(1))
  show "token_accounts (gledger w') (ss_inventory_source ac) = Some src" using s(2) by (simp add: token_account_Ok)
qed

lemma reserve_lot_Ok:
  assumes G: "good_genv e g m" and m: "token_mint w = m" and admin: "ss_admin ac \<noteq> config_key g"
    and src: "token_accounts (gledger w) (ss_inventory_source ac) = Some src"
    and le: "unat (sales_reserved (grs_config w)) \<le> unat amount"
    and ok: "reserve_lot g ac src mi amount ga w = Ok w'"
  obtains s where "beside_lots w w'" "sales w' = sales w" "sale_registry w' = sale_registry w"
    "moves g m s 0 (gledger w) (gledger w')"
    "unat (sales_reserved (grs_config w')) = unat (sales_reserved (grs_config w)) + unat ga"
    "int (unat (sales_reserved (grs_config w')) ) \<le> int (unat amount) + s"
proof (cases "0 < ga")
  case False
  then have "w' = w" "ga = 0" using ok by (simp_all add: reserve_lot_def word_gt_0)
  moreover have "int (unat (sales_reserved (grs_config w))) \<le> int (unat amount)" using le by linarith
  ultimately show thesis using that [of 0] by (simp add: beside_lots_def)
next
  case True
  let ?res = "sales_reserved (grs_config w)"
  define free where "free = free_sale_inventory (grs_config w) amount"
  have free: "unat free = unat amount - unat ?res"
    by (simp add: free_def free_sale_inventory_def unat_saturating_sub)
  obtain w3 r where 3: "(if free < ga then
                           and_then (ok_or (checked_sub ga free) InsufficientInventory) (\<lambda>need.
                           and_then (require (tk_owner src = ss_admin ac) OFT_Unauthorized) (\<lambda>_.
                           ginvoke (transfer_checked g (ss_inventory_source ac) (token_mint w) (sale_escrow_key g)
                             (ss_admin ac) need (mi_decimals mi)) w))
                         else Ok w) = Ok w3"
      and r: "checked_add (sales_reserved (grs_config w3)) ga = Some r"
      and w': "w' = w3\<lparr>grs_config := (grs_config w3)\<lparr>sales_reserved := r\<rparr>\<rparr>"
    using ok True unfolding reserve_lot_def Let_def free_def by (simp add: and_then_Ok_iff ok_or_Ok_iff) blast
  have "\<exists>need l. w3 = w\<lparr>gledger := l\<rparr> \<and> unat ga \<le> unat free + unat (need :: u64) \<and> moves g m (int (unat need)) 0 (gledger w) l"
  proof (cases "free < ga")
    case True
    then obtain need l where n: "unat ga = unat need + unat free" "tk_owner src = ss_admin ac"
        and l: "transfer_checked g (ss_inventory_source ac) m (sale_escrow_key g) (ss_admin ac) need (mi_decimals mi) (gledger w) = Some l"
        "w3 = w\<lparr>gledger := l\<rparr>"
      using 3 m by (auto simp: step_iffs ginvoke_Ok checked_sub_Some)
    have "not_ours g (ss_inventory_source ac) (gledger w)" using src n(2) admin by (simp add: not_ours_def)
    then have "moves g m (int (unat need)) 0 (gledger w) l" using moves_transfer(5) [OF G l(1)] by simp
    then show ?thesis using n(1) l(2) by (intro exI [of _ need] exI [of _ l]) simp
  next
    case False
    then have "w3 = w" "unat ga \<le> unat free" using 3 by (simp_all add: unat_less_iff)
    then show ?thesis by (intro exI [of _ 0] exI [of _ "gledger w"]) simp
  qed
  then obtain need l where n: "w3 = w\<lparr>gledger := l\<rparr>" "unat ga \<le> unat free + unat (need :: u64)"
    "moves g m (int (unat need)) 0 (gledger w) l" by blast
  have r': "unat r = unat ?res + unat ga" using r n(1) by (simp add: checked_add_Some)
  then have "int (unat r) \<le> int (unat amount) + int (unat need)" using n(2) free le by linarith
  then show thesis using that [of "int (unat need)"] n(1,3) w' r' by (simp add: beside_lots_def)
qed

lemma sale_append_inv:
  assumes G: "good_genv e g m" and inv: "grs_inv g m w" and admin: "ss_admin ac \<noteq> config_key g"
    and src: "token_accounts (gledger w) (ss_inventory_source ac) = Some src"
    and esc: "token_accounts (gledger w) (sale_escrow_key g) = Some ea"
    and home: "is_home (grs_config w)" and next_id: "checked_add (sale_count (sale_registry w)) 1 = Some sid"
    and ok: "sale_append e g ac src mi sid asset aa ga recipient w = Ok (r, w')"
  shows "grs_inv g m w'"
proof -
  define new where "new = \<lparr> sa_id = sid, sa_oft_store = store_key g, sa_asset = asset, sa_asset_amount = aa,
    sa_grs_amount = ga, sa_recipient = recipient, sa_bump = gpda_bump g (SaleSeed sid) \<rparr>"
  let ?res = "sales_reserved (grs_config w)"
  have m: "token_mint w = m" by (rule grs_invD(5) [OF inv])
  have amount: "escrow_amount (sale_escrow_key g) w = tk_amount ea" "bal (gledger w) (sale_escrow_key g) = unat (tk_amount ea)"
    by (simp_all add: escrow_amount_def esc bal_def)
  obtain l1 w2 where none: "sales w sid = None" and price: "\<not> (0 < ga \<and> aa = 0)"
      and c: "sys_create_account e (ss_admin ac) (ss_sale ac) (rent_minimum e SALE_ACCOUNT_SPACE)
                 SALE_ACCOUNT_SPACE GRS_PROGRAM_ID (gledger w) = Some l1"
      and 2: "reserve_lot g ac src mi (tk_amount ea) ga (w\<lparr>gledger := l1\<rparr>) = Ok w2"
      and w': "w' = w2\<lparr>sales := (sales w2)(sid \<mapsto> new), sale_registry := (sale_registry w2)\<lparr>sale_count := sid\<rparr>\<rparr>"
    using ok unfolding sale_append_def Let_def amount(1) new_def by (auto simp: step_iffs ginvoke_Ok)
  have q1: "moves g m 0 0 (gledger w) l1" and l1: "token_accounts l1 = token_accounts (gledger w)"
    using moves_system(2) [OF G c] by simp_all
  let ?w1 = "w\<lparr>gledger := l1\<rparr>"
  have le: "unat (sales_reserved (grs_config ?w1)) \<le> unat (tk_amount ea)"
    using grs_invD(10) [OF inv] by (simp add: amount(2))
  obtain s where w2: "beside_lots ?w1 w2" "sales w2 = sales w" "sale_registry w2 = sale_registry w"
      and mv1: "moves g m s 0 l1 (gledger w2)"
      and r: "unat (sales_reserved (grs_config w2)) = unat ?res + unat ga"
      and cover: "int (unat (sales_reserved (grs_config w2))) \<le> int (unat (tk_amount ea)) + s"
  proof (rule reserve_lot_Ok [OF G _ admin _ le 2])
    show "token_mint ?w1 = m" "token_accounts (gledger ?w1) (ss_inventory_source ac) = Some src"
      using m src l1 by simp_all
  qed (rule that; simp)
  have mv: "moves g m s 0 (gledger w) (gledger w2)" by (rule then_moves [OF q1 mv1])
  have cnt: "unat sid = unat (sale_count (sale_registry w)) + 1" using next_id by (simp add: checked_add_Some)
  show ?thesis
  proof (rule lot_step [OF inv, where s = s and sid = sid and a = new])
    show "moves g m s 0 (gledger w) (gledger w')" using mv by (simp add: w')
    show "beside_lots w w'" using w2 by (simp add: w' beside_lots_def)
    show "sales w' = (sales w)(sid \<mapsto> new)" by (simp add: w' w2)
    show "lot_ok g (is_home (grs_config w)) sid new" using price by (auto simp: lot_ok_def new_def word_gt_0)
    show "sid \<noteq> 0" using cnt by (auto simp: unat_eq_iff)
    show "sid \<le> sale_count (sale_registry w')" by (simp add: w')
    show "sale_count (sale_registry w) \<le> sale_count (sale_registry w')" using cnt by (simp add: w' unat_le_iff)
    show "i \<le> sale_count (sale_registry w)" if "i \<le> sale_count (sale_registry w')" "i \<noteq> sid" for i
      using that cnt by (simp add: w' unat_le_iff unat_eq_iff)
    show "unat (sales_reserved (grs_config w')) + owed_at lot_owed (sales w) sid = unat ?res + lot_owed new"
      using r none by (simp add: w' lot_owed_def new_def)
    show "int (unat (sales_reserved (grs_config w'))) \<le> int (bal (gledger w) (sale_escrow_key g)) + s"
      using cover r by (simp add: w' amount(2))
  qed
qed

lemma sale_close_inv:
  assumes inv: "grs_inv g m w" and ok: "sale_close g ac sid w = Ok (r, w')"
  shows "grs_inv g m w'"
proof -
  obtain a where a: "sales w sid = Some a" using ok by (auto simp: sale_close_def step_iffs)
  have "\<exists>res. w' = w\<lparr>grs_config := (grs_config w)\<lparr>sales_reserved := res\<rparr>,
      sales := (sales w)(sid \<mapsto> a\<lparr>sa_grs_amount := 0, sa_asset_amount := 0\<rparr>)\<rparr> \<and>
      unat res + unat (sa_grs_amount a) = unat (sales_reserved (grs_config w))"
  proof (cases "0 < sa_grs_amount a")
    case True
    then show ?thesis using ok a by (auto simp: sale_close_def Let_def step_iffs checked_sub_Some)
  next
    case False
    then show ?thesis using ok a
      by (intro exI [of _ "sales_reserved (grs_config w)"]) (auto simp: sale_close_def Let_def step_iffs word_gt_0)
  qed
  then obtain res where w': "w' = w\<lparr>grs_config := (grs_config w)\<lparr>sales_reserved := res\<rparr>,
      sales := (sales w)(sid \<mapsto> a\<lparr>sa_grs_amount := 0, sa_asset_amount := 0\<rparr>)\<rparr>"
    and res: "unat res + unat (sa_grs_amount a) = unat (sales_reserved (grs_config w))" by blast
  have "int (unat res) \<le> int (unat (sales_reserved (grs_config w)))" using res by linarith
  then show ?thesis
    using lot_ids(3) [OF inv a] res
    by (intro lot_replace [OF inv a, where s = 0 and a = "a\<lparr>sa_grs_amount := 0, sa_asset_amount := 0\<rparr>"])
      (simp_all add: w' beside_lots_def lot_ok_def lot_owed_def flip: of_nat_add)
qed

end
