(* ===== verification/Grs_Payouts.thy ===== *)
theory Grs_Payouts
  imports Grs_Effects
begin

text \<open>
  Purchases, publications, vestings, releases and the receiver keep the invariant of the GRS
  program.
\<close>

section \<open>The home book\<close>

lemma execute_set_sale_inv:
  assumes G: "good_genv e g m" and inv: "grs_inv g m w" and admin: "ss_admin ac \<noteq> config_key g"
    and ok: "execute_set_sale e g ac sid asset aa ga recipient w = Ok (r, w')"
  shows "grs_inv g m w'"
proof -
  obtain src mi w1 where 1: "accounts_SetSale e g ac w = Ok (src, mi, w1)"
    and home: "is_home (grs_config w1)"
    and 2: "(\<exists>sid. checked_add (sale_count (sale_registry w1)) 1 = Some sid \<and>
               sale_append e g ac src mi sid asset aa ga recipient w1 = Ok (r, w')) \<or>
            sale_close g ac sid w1 = Ok (r, w')"
    using ok by (auto simp: execute_set_sale_def Let_def step_iffs split: if_splits)
  note A = accounts_SetSale_Ok [OF G grs_invD(5) [OF inv] 1]
  have inv1: "grs_inv g m w1" by (rule quiet_step_inv [OF inv A(1)])
  show ?thesis
    using 2
  proof (elim disjE exE conjE)
    fix next_id
    assume "checked_add (sale_count (sale_registry w1)) 1 = Some next_id"
      "sale_append e g ac src mi next_id asset aa ga recipient w1 = Ok (r, w')"
    then show ?thesis using A(5) sale_append_inv [OF G inv1 admin A(4) _ home] by blast
  next
    assume "sale_close g ac sid w1 = Ok (r, w')"
    then show ?thesis by (rule sale_close_inv [OF inv1])
  qed
qed

section \<open>Purchases\<close>

lemma load_sale_Ok: "load_sale g sid w = Ok a \<longleftrightarrow> sales w sid = Some a \<and> sa_oft_store a = store_key g"
  by (auto simp: load_sale_def step_iffs)

lemma accounts_Buy_Ok:
  assumes "good_genv e g m" "token_mint w = m" "accounts_Buy e g ac sid w = Ok (a, mi, w')"
  shows "quiet_step g m w w'" "w' = w\<lparr>gledger := gledger w'\<rparr>" "sales w' sid = Some a"
proof -
  obtain w1 where i: "token_init_if_needed e (by_buyer ac) (ata e (by_to ac) m) m (by_to ac) w = Ok w1"
    "sales w sid = Some a" "w1 = w'"
    using assms(2,3) by (auto simp: accounts_Buy_def step_iffs load_sale_Ok)
  note T = token_init_Ok [OF assms(1) i(1)]
  show "quiet_step g m w w'" "w' = w\<lparr>gledger := gledger w'\<rparr>" using T(1,2) i(3) by blast+
  then show "sales w' sid = Some a" using i(2) by (simp add: quiet_step_def same_books_def)
qed

lemma pay_quote_quiet:
  assumes G: "good_genv e g m" and buyer: "by_buyer ac \<noteq> config_key g"
    and ok: "pay_quote e g ac asset payee cost w = Ok w'"
  shows "quiet_step g m w w'"
proof (cases "asset = default_pubkey")
  case True
  then obtain l where "sys_transfer e (by_buyer ac) (by_payee ac) cost (gledger w) = Some l" "w' = w\<lparr>gledger := l\<rparr>"
    using ok by (auto simp: pay_quote_def step_iffs)
  then show ?thesis using moves_system(1) [OF G] by (auto intro: quiet_gledger)
next
  case False
  then obtain src a dst d l where
      s: "token_accounts (gledger w) src = Some a" "tk_owner a = by_buyer ac"
      and l: "transfer_checked g src asset dst (by_buyer ac) cost d (gledger w) = Some l" "w' = w\<lparr>gledger := l\<rparr>"
    using ok by (auto simp: pay_quote_def step_iffs ginvoke_Ok)
  have "not_ours g src (gledger w)" using s buyer by (simp add: not_ours_def)
  then show ?thesis using moves_transfer(1) [OF G l(1)] by (simp add: l(2) quiet_gledger)
qed

lemma execute_buy_Ok:
  assumes "execute_buy e g ac sid n w = Ok (cost, w')"
  obtains a mi w1 w2 spent where "accounts_Buy e g ac sid w = Ok (a, mi, w1)" "sa_id a = sid"
    "quote_cost n (sa_grs_amount a) (sa_asset_amount a) = Ok cost"
    "by_payee ac = (if sa_recipient a = default_pubkey then os_admin (oft_store w1) else sa_recipient a)"
    "n \<le> sales_reserved (grs_config w1)"
    "ginvoke (transfer_checked g (sale_escrow_key g) (token_mint w1) (ata e (by_to ac) (token_mint w1))
       (config_key g) n (mi_decimals mi))
     (w1\<lparr>grs_config := (grs_config w1)\<lparr>token_sales_spent := spent, sales_reserved := sales_reserved (grs_config w1) - n\<rparr>,
         sales := (sales w1)(sid \<mapsto> a\<lparr>sa_grs_amount := sa_grs_amount a - n, sa_asset_amount := sa_asset_amount a - cost\<rparr>)\<rparr>) = Ok w2"
    "pay_quote e g ac (sa_asset a) (by_payee ac) cost w2 = Ok w'"
    "checked_add (token_sales_spent (grs_config w1)) n = Some spent"
proof -
  have sub: "checked_sub x y = Some z \<longleftrightarrow> y \<le> x \<and> z = x - y" for x y z :: u64
    by (auto simp: checked_sub_def)
  show thesis
    using assms unfolding execute_buy_def Let_def row_def
    by (simp add: step_iffs sub cong: if_cong) (elim exE conjE, rule that, simp_all)
qed

lemma execute_buy_inv:
  assumes G: "good_genv e g m" and inv: "grs_inv g m w" and buyer: "by_buyer ac \<noteq> config_key g"
    and ok: "execute_buy e g ac sid n w = Ok (cost, w')"
  shows "grs_inv g m w'"
  using ok
proof (rule execute_buy_Ok)
  fix a :: SaleAccount and mi and w1 w2 :: grs_world and spent
  let ?a = "a\<lparr>sa_grs_amount := sa_grs_amount a - n, sa_asset_amount := sa_asset_amount a - cost\<rparr>"
  let ?res = "sales_reserved (grs_config w1)"
  let ?w = "w1\<lparr>grs_config := (grs_config w1)\<lparr>token_sales_spent := spent, sales_reserved := ?res - n\<rparr>, sales := (sales w1)(sid \<mapsto> ?a)\<rparr>"
  assume acc: "accounts_Buy e g ac sid w = Ok (a, mi, w1)"
    and q: "quote_cost n (sa_grs_amount a) (sa_asset_amount a) = Ok cost"
    and n: "n \<le> ?res"
    and t: "ginvoke (transfer_checked g (sale_escrow_key g) (token_mint w1) (ata e (by_to ac) (token_mint w1))
       (config_key g) n (mi_decimals mi)) ?w = Ok w2"
    and p: "pay_quote e g ac (sa_asset a) (by_payee ac) cost w2 = Ok w'"
  note A = accounts_Buy_Ok [OF G grs_invD(5) [OF inv] acc]
  have inv1: "grs_inv g m w1" by (rule quiet_step_inv [OF inv A(1)])
  obtain l where l: "transfer_checked g (sale_escrow_key g) (token_mint w1) (ata e (by_to ac) (token_mint w1))
       (config_key g) n (mi_decimals mi) (gledger w1) = Some l" "w2 = ?w\<lparr>gledger := l\<rparr>"
    using t by (auto simp: ginvoke_Ok)
  have mv: "moves g m (- int (unat n)) 0 (gledger w1) l" by (rule moves_transfer(3) [OF G l(1) refl])
  have b: "bought a (unat n) ?a" using q by (auto simp: bought_def)
  note P = lots.paid_law [OF lot_ids(3) [OF inv1 A(3)] b]
  have r: "unat (?res - n) + unat n = unat ?res" using n by (simp add: unat_sub_if_size unat_le_iff)
  then have ri: "int (unat (?res - n)) = int (unat ?res) - int (unat n)" by linarith
  have "grs_inv g m w2"
  proof (rule lot_replace [OF inv1 A(3), where s = "- int (unat n)" and a = ?a])
    show "moves g m (- int (unat n)) 0 (gledger w1) (gledger w2)" using mv by (simp add: l(2))
    show "lot_ok g (is_home (grs_config w1)) sid ?a" using P by blast
    show "int (unat (sales_reserved (grs_config w2))) \<le> int (unat ?res) + - int (unat n)"
      using ri by (simp add: l(2))
    show "unat (sales_reserved (grs_config w2)) + lot_owed a = unat ?res + lot_owed ?a"
      using P r by (simp add: l(2))
  qed (simp_all add: l(2) beside_lots_def)
  then show ?thesis using pay_quote_quiet [OF G buyer p] by (rule quiet_step_inv)
qed

end
