(* ===== verification/Grs_Arrivals.thy ===== *)
theory Grs_Arrivals
  imports Grs_Payouts
begin

text \<open>
  Publications, vestings and releases, and the three kinds of message the receiver takes: each
  keeps the invariant of the GRS program.
\<close>

section \<open>Publications\<close>

lemma burn_lot_Ok:
  assumes "burn_lot e g s w = Ok w'"
  obtains spent res l where
    "spl_burn e (token_mint w) (sale_escrow_key g) (config_key g) (sl_grs_amount s) (gledger w) = Some l"
    "unat res + unat (sl_grs_amount s) = unat (sales_reserved (grs_config w))"
    "w' = w\<lparr>grs_config := (grs_config w)\<lparr>token_sales_spent := spent, sales_reserved := res\<rparr>, gledger := l\<rparr>"
    "checked_add (token_sales_spent (grs_config w)) (sl_grs_amount s) = Some spent"
    "sl_grs_amount s mod GRS_LD2SD_RATE = 0" "0 < sl_grs_amount s" "0 < sl_asset_amount s"
  using assms unfolding burn_lot_def Let_def
  by (simp add: step_iffs ginvoke_Ok checked_sub_Some) (elim exE conjE, rule that, simp_all)

lemma execute_publish_sale_Ok:
  assumes "execute_publish_sale e g admin ks dst sid fee w = Ok (r, w')"
  obtains a w1 w2 peer options where "sales w sid = Some a" "sa_id a = sid" "is_home (grs_config w)"
    "peers w dst = Some peer" "os_admin (oft_store w) = admin" "\<not> os_paused (oft_store w)"
    "(if sale_is_closed (row a) then Ok w else burn_lot e g (row a) w) = Ok w1"
    "endpoint_send_as g ks
                \<lparr> sp_dst_eid = dst, sp_receiver = peer_address peer, sp_message = sale_message g sid (row a),
                  sp_options = options, sp_native_fee = fee, sp_lz_token_fee = 0 \<rparr> w1 = Ok (r, w2)"
    "w' = w2\<lparr>sales := (sales w2)(sid \<mapsto> a\<lparr>sa_grs_amount := 0, sa_asset_amount := 0\<rparr>)\<rparr>"
proof -
  obtain a peer w1 w2 options where o: "load_peer dst w = Ok peer" "load_sale g sid w = Ok a"
    "sa_id a = sid" "is_home (grs_config w)" "os_admin (oft_store w) = admin" "\<not> os_paused (oft_store w)"
    "(if sale_is_closed (row a) then Ok w else burn_lot e g (row a) w) = Ok w1"
    "endpoint_send_as g ks
                \<lparr> sp_dst_eid = dst, sp_receiver = peer_address peer, sp_message = sale_message g sid (row a),
                  sp_options = options, sp_native_fee = fee, sp_lz_token_fee = 0 \<rparr> w1 = Ok (r, w2)"
    "w2\<lparr>sales := (sales w2)(sid \<mapsto> a\<lparr>sa_grs_amount := 0, sa_asset_amount := 0\<rparr>)\<rparr> = w'"
    using assms unfolding execute_publish_sale_def Let_def
    by (elim steps_OkE) (simp only: require_Ok_iff sum.inject prod.inject, blast)
  show thesis
    by (rule that [OF _ o(3,4) _ o(5-8) o(9) [symmetric]])
      (use o(1,2) in \<open>simp_all add: load_sale_Ok load_peer_def account_Ok_iff\<close>)
qed

lemma execute_publish_sale_inv:
  assumes G: "good_genv e g m" and inv: "grs_inv g m w"
    and ok: "execute_publish_sale e g admin ks dst sid fee w = Ok (r, w')"
  shows "grs_inv g m w'"
  using ok
proof (rule execute_publish_sale_Ok)
  fix a w1 w2 peer options
  let ?res = "sales_reserved (grs_config w)"
  assume a: "sales w sid = Some a"
    and b: "(if sale_is_closed (row a) then Ok w else burn_lot e g (row a) w) = Ok w1"
    and s: "endpoint_send_as g ks
                \<lparr> sp_dst_eid = dst, sp_receiver = peer_address peer, sp_message = sale_message g sid (row a),
                  sp_options = options, sp_native_fee = fee, sp_lz_token_fee = 0 \<rparr> w1 = Ok (r, w2)"
    and w': "w' = w2\<lparr>sales := (sales w2)(sid \<mapsto> a\<lparr>sa_grs_amount := 0, sa_asset_amount := 0\<rparr>)\<rparr>"
  note S = endpoint_send_as_quiet [OF G s]
  have "\<exists>spent res l. w1 = w\<lparr>grs_config := (grs_config w)\<lparr>token_sales_spent := spent, sales_reserved := res\<rparr>, gledger := l\<rparr> \<and>
      unat res + lot_owed a = unat ?res \<and> moves g m (- int (lot_owed a)) 0 (gledger w) l"
  proof (cases "sale_is_closed (row a)")
    case True
    then show ?thesis using b
      by (intro exI [of _ "token_sales_spent (grs_config w)"] exI [of _ ?res] exI [of _ "gledger w"])
        (simp add: sale_is_closed_def row_def lot_owed_def)
  next
    case False
    then have "burn_lot e g (row a) w = Ok w1" using b by simp
    then show ?thesis
    proof (rule burn_lot_Ok)
      fix spent res l
      assume l: "spl_burn e (token_mint w) (sale_escrow_key g) (config_key g) (sl_grs_amount (row a)) (gledger w) = Some l"
        "unat res + unat (sl_grs_amount (row a)) = unat ?res"
        "w1 = w\<lparr>grs_config := (grs_config w)\<lparr>token_sales_spent := spent, sales_reserved := res\<rparr>, gledger := l\<rparr>"
      then show ?thesis using moves_burn(2) [OF G l(1) refl]
        by (intro exI [of _ spent] exI [of _ res] exI [of _ l]) (simp add: lot_owed_def row_def)
    qed
  qed
  then obtain spent res l where
    w1: "w1 = w\<lparr>grs_config := (grs_config w)\<lparr>token_sales_spent := spent, sales_reserved := res\<rparr>, gledger := l\<rparr>"
    and res: "unat res + lot_owed a = unat ?res" and mv: "moves g m (- int (lot_owed a)) 0 (gledger w) l" by blast
  have w2: "w2 = w\<lparr>grs_config := (grs_config w)\<lparr>token_sales_spent := spent, sales_reserved := res\<rparr>, gledger := gledger w2\<rparr>"
    using S(2) w1 by simp
  have "moves g m 0 0 l (gledger w2)" using S(1) w1 by (simp add: quiet_step_def)
  then have mv2: "moves g m (- int (lot_owed a)) 0 (gledger w) (gledger w2)" by (rule moves_then [OF mv])
  have r: "int (unat res) \<le> int (unat ?res) + - int (lot_owed a)" using res by linarith
  have w'': "w' = w\<lparr>grs_config := (grs_config w)\<lparr>token_sales_spent := spent, sales_reserved := res\<rparr>,
      gledger := gledger w2, sales := (sales w)(sid \<mapsto> a\<lparr>sa_grs_amount := 0, sa_asset_amount := 0\<rparr>)\<rparr>"
    unfolding w' by (subst w2, subst (2) w2) simp
  show "grs_inv g m w'"
  proof (rule lot_replace [OF inv a, where s = "- int (lot_owed a)" and a = "a\<lparr>sa_grs_amount := 0, sa_asset_amount := 0\<rparr>"])
    show "moves g m (- int (lot_owed a)) 0 (gledger w) (gledger w')" using mv2 by (simp add: w'')
    show "lot_ok g (is_home (grs_config w)) sid (a\<lparr>sa_grs_amount := 0, sa_asset_amount := 0\<rparr>)"
      using lot_ids(3) [OF inv a] by (simp add: lot_ok_def)
    show "unat (sales_reserved (grs_config w')) + lot_owed a =
        unat ?res + lot_owed (a\<lparr>sa_grs_amount := 0, sa_asset_amount := 0\<rparr>)"
      using res by (simp add: w'' lot_owed_def)
    show "int (unat (sales_reserved (grs_config w'))) \<le> int (unat ?res) + - int (lot_owed a)"
      using r by (simp add: w'')
  qed (simp_all add: w'' beside_lots_def)
qed

section \<open>Vestings and releases\<close>

lemma schedule_Ok:
  "schedule now start c d = Ok (s, ce, en) \<Longrightarrow> unat ce = unat s + unat c \<and> unat en = unat ce + unat d \<and>
     (start \<noteq> 0 \<longrightarrow> s = start)"
  by (auto simp: schedule_def step_iffs checked_add_Some split: if_splits)

text \<open>A new vesting is the next identifier, with its allocation brought to the escrow.\<close>

lemma vest_new:
  assumes inv: "grs_inv g m w" and mv: "moves g m 0 (int (unat (allocation_ld v))) (gledger w) (gledger w')"
    and b: "beside_vests w w'" and row: "vestings w' = (vestings w)(vid \<mapsto> v)" "vest_ok g vid v" "released_ld v = 0"
    and vid: "checked_add (vesting_count (grs_config w)) 1 = Some vid" "vesting_count (grs_config w') = vid"
  shows "grs_inv g m w'"
proof (rule vest_step [OF inv mv b row(1,2), where n = "outstanding w + unat (allocation_ld v)"])
  have c: "unat vid = unat (vesting_count (grs_config w)) + 1" using vid(1) by (simp add: checked_add_Some)
  have i: "i = vid \<or> i \<noteq> 0 \<and> i \<le> vesting_count (grs_config w) \<longleftrightarrow> i \<noteq> 0 \<and> i \<le> vid" for i
    using c by (auto simp: unat_le_iff unat_eq_iff)
  show d: "insert vid (dom (vestings w)) = {i. i \<noteq> 0 \<and> i \<le> vesting_count (grs_config w')}"
    unfolding grs_invD(12) [OF inv] vid(2) using i by blast
  have "vid \<notin> dom (vestings w)" unfolding grs_invD(12) [OF inv] using c by (simp add: unat_le_iff)
  then have "vestings w vid = None" by blast
  then show "outstanding w + unat (allocation_ld v) + owed_at vest_owed (vestings w) vid = outstanding w + vest_owed v"
    by (simp add: vest_owed_def row(3))
qed simp

lemma accounts_Vest_Ok:
  assumes G: "good_genv e g m" and m: "token_mint w = m" and ok: "accounts_Vest e g ac vid w = Ok (mi, w')"
  shows "quiet_step g m w w'" "w' = w\<lparr>gledger := gledger w'\<rparr>"
    "\<exists>a. token_accounts (gledger w') (va_token_source ac) = Some a \<and> tk_owner a = va_funder ac"
proof -
  obtain l w2 where i: "anchor_init e (va_funder ac) (gpda g (VestSeed vid)) VESTING_SPACE (gledger w) = Some l"
      and 2: "token_init_if_needed e (va_funder ac) (vest_escrow_key g) m (config_key g) (w\<lparr>gledger := l\<rparr>) = Ok w2"
      and s: "\<exists>a. token_account (va_token_source ac) (token_mint w2) (Some (va_funder ac)) w2 = Ok a" and w': "w2 = w'"
    using ok m by (auto simp: accounts_Vest_def step_iffs ginvoke_Ok)
  note T = token_init_Ok [OF G 2]
  have "quiet_step g m w (w\<lparr>gledger := l\<rparr>)" using moves_system(4) [OF G i] by (simp add: quiet_gledger)
  then show "quiet_step g m w w'" using T(1) w' by (auto intro: quiet_step_trans)
  have "w2 = w\<lparr>gledger := gledger w2\<rparr>" using T(2) by auto
  then show "w' = w\<lparr>gledger := gledger w'\<rparr>" by (simp add: w')
  show "\<exists>a. token_accounts (gledger w') (va_token_source ac) = Some a \<and> tk_owner a = va_funder ac"
    using s by (auto simp: token_account_Ok w')
qed

lemma execute_vest_Ok:
  assumes "execute_vest e g ac vid to amt start c d w = Ok w'"
  obtains mi w1 l s ce en where "accounts_Vest e g ac vid w = Ok (mi, w1)"
    "checked_add (vesting_count (grs_config w1)) 1 = Some vid"
    "schedule (unix_timestamp e) start c d = Ok (s, ce, en)" "0 < amt"
    "transfer_checked g (va_token_source ac) (token_mint w1) (vest_escrow_key g) (va_funder ac) amt (mi_decimals mi)
       (gledger w1) = Some l"
    "w' = w1\<lparr>gledger := l, vestings := (vestings w1)(vid \<mapsto> \<lparr> ve_id = vid, ve_oft_store = store_key g,
        funder = va_funder ac, beneficiary = to, allocation_ld = amt, released_ld = 0, ve_start = s, cliff_end = ce,
        ve_end = en, ve_bump = gpda_bump g (VestSeed vid) \<rparr>),
        grs_config := (grs_config w1)\<lparr>vesting_count := vid\<rparr>\<rparr>"
  using assms unfolding execute_vest_def
  by (simp add: step_iffs ginvoke_Ok) (elim exE conjE, rule that, auto)

lemma execute_vest_inv:
  assumes G: "good_genv e g m" and inv: "grs_inv g m w" and f: "va_funder ac \<noteq> config_key g"
    and ok: "execute_vest e g ac vid to amt start c d w = Ok w'"
  shows "grs_inv g m w'"
  using ok
proof (rule execute_vest_Ok)
  fix mi w1 l s ce en
  let ?v = "\<lparr> ve_id = vid, ve_oft_store = store_key g,
        funder = va_funder ac, beneficiary = to, allocation_ld = amt, released_ld = 0, ve_start = s, cliff_end = ce,
        ve_end = en, ve_bump = gpda_bump g (VestSeed vid) \<rparr>"
  assume 1: "accounts_Vest e g ac vid w = Ok (mi, w1)" and c: "checked_add (vesting_count (grs_config w1)) 1 = Some vid"
    and s: "schedule (unix_timestamp e) start c d = Ok (s, ce, en)"
    and t: "transfer_checked g (va_token_source ac) (token_mint w1) (vest_escrow_key g) (va_funder ac) amt (mi_decimals mi)
       (gledger w1) = Some l"
    and w': "w' = w1\<lparr>gledger := l, vestings := (vestings w1)(vid \<mapsto> ?v),
        grs_config := (grs_config w1)\<lparr>vesting_count := vid\<rparr>\<rparr>"
  note A = accounts_Vest_Ok [OF G grs_invD(5) [OF inv] 1]
  have inv1: "grs_inv g m w1" by (rule quiet_step_inv [OF inv A(1)])
  have "not_ours g (va_token_source ac) (gledger w1)" using A(3) f by (auto simp: not_ours_def)
  then have mv: "moves g m 0 (int (unat amt)) (gledger w1) l"
    using moves_transfer(6) [OF G t grs_invD(5) [OF inv1] refl] by blast
  show "grs_inv g m w'"
  proof (rule vest_new [OF inv1 _ _ _ _ _ c, where v = ?v])
    show "vest_ok g vid ?v" using schedule_Ok [OF s] by (simp add: vest_ok_def unat_le_iff)
    show "moves g m 0 (int (unat (allocation_ld ?v))) (gledger w1) (gledger w')" using mv by (simp add: w')
  qed (simp_all add: w' beside_vests_def)
qed

lemma accounts_Release_Ok:
  assumes "good_genv e g m" "token_mint w = m" "accounts_Release e g ac w = Ok (v, mi, w')"
  shows "quiet_step g m w w'" "w' = w\<lparr>gledger := gledger w'\<rparr>" "vestings w' (ra_vesting ac) = Some v"
    "ra_beneficiary ac = beneficiary v"
proof -
  obtain w1 where i: "token_init_if_needed e (ra_payer ac) (ata e (ra_beneficiary ac) m) m (ra_beneficiary ac) w = Ok w1"
    "vestings w (ra_vesting ac) = Some v" "ra_beneficiary ac = beneficiary v" "w1 = w'"
    using assms(2,3) by (auto simp: accounts_Release_def step_iffs)
  note T = token_init_Ok [OF assms(1) i(1)]
  show "quiet_step g m w w'" "w' = w\<lparr>gledger := gledger w'\<rparr>" using T(1,2) i(4) by blast+
  then show "vestings w' (ra_vesting ac) = Some v" using i(2) by (simp add: quiet_step_def same_books_def)
  show "ra_beneficiary ac = beneficiary v" by (rule i(3))
qed

lemma execute_release_Ok:
  assumes "execute_release e g ac w = Ok w'"
  obtains v mi w1 now r l where "accounts_Release e g ac w = Ok (v, mi, w1)" "now_ts (unix_timestamp e) = Ok now"
    "0 < releasable_at v now" "checked_add (released_ld v) (releasable_at v now) = Some r"
    "transfer_checked g (vest_escrow_key g) (token_mint w1) (ata e (ra_beneficiary ac) (token_mint w1))
       (config_key g) (releasable_at v now) (mi_decimals mi) (gledger w1) = Some l"
    "w' = w1\<lparr>vestings := (vestings w1)(ra_vesting ac \<mapsto> v\<lparr>released_ld := r\<rparr>), gledger := l\<rparr>"
  using assms unfolding execute_release_def Let_def
  by (simp add: step_iffs ginvoke_Ok) (elim exE conjE, rule that, simp_all)

lemma execute_release_inv:
  assumes G: "good_genv e g m" and inv: "grs_inv g m w" and ok: "execute_release e g ac w = Ok w'"
  shows "grs_inv g m w'"
  using ok
proof (rule execute_release_Ok)
  fix v mi w1 now r l
  let ?n = "unat (releasable_at v now)"
  assume 1: "accounts_Release e g ac w = Ok (v, mi, w1)"
    and r: "checked_add (released_ld v) (releasable_at v now) = Some r"
    and t: "transfer_checked g (vest_escrow_key g) (token_mint w1) (ata e (ra_beneficiary ac) (token_mint w1))
       (config_key g) (releasable_at v now) (mi_decimals mi) (gledger w1) = Some l"
    and w': "w' = w1\<lparr>vestings := (vestings w1)(ra_vesting ac \<mapsto> v\<lparr>released_ld := r\<rparr>), gledger := l\<rparr>"
  note A = accounts_Release_Ok [OF G grs_invD(5) [OF inv] 1]
  have inv1: "grs_inv g m w1" by (rule quiet_step_inv [OF inv A(1)])
  note D = grs_invD [OF inv1]
  have row: "vest_ok g (ra_vesting ac) v" "vest_owed v \<le> outstanding w1" using book_ok_row [OF D(7) A(3)] by simp_all
  have p: "released_at v ?n (v\<lparr>released_ld := r\<rparr>)" using r by (auto simp: released_at_def)
  note P = vests.paid_law [OF row(1) p]
  have le: "?n \<le> outstanding w1" using P row(2) by linarith
  have n: "int (outstanding w1 - ?n) \<le> int (outstanding w1) + - int ?n" using le by linarith
  have at: "owed_at vest_owed (vestings w1) (ra_vesting ac) = vest_owed v" by (simp add: A(3))
  have dom: "insert (ra_vesting ac) (dom (vestings w1)) = dom (vestings w1)" using A(3) by blast
  show "grs_inv g m w'"
  proof (rule vest_step [OF inv1, where s = "- int ?n" and v = "v\<lparr>released_ld := r\<rparr>" and n = "outstanding w1 - ?n"])
    show "moves g m 0 (- int ?n) (gledger w1) (gledger w')" using moves_transfer(4) [OF G t refl] by (simp add: w')
    show "insert (ra_vesting ac) (dom (vestings w1)) = {i. i \<noteq> 0 \<and> i \<le> vesting_count (grs_config w')}"
      unfolding dom using D(12) by (simp add: w')
    show "outstanding w1 - ?n + owed_at vest_owed (vestings w1) (ra_vesting ac) =
        outstanding w1 + vest_owed (v\<lparr>released_ld := r\<rparr>)"
      using at P le by linarith
    show "int (outstanding w1 - ?n) \<le> int (outstanding w1) + - int ?n" by (rule n)
    show "vest_ok g (ra_vesting ac) (v\<lparr>released_ld := r\<rparr>)" using P by blast
  qed (simp_all add: w' beside_vests_def)
qed

section \<open>The receiver\<close>

definition tvl_step :: "grs_world \<Rightarrow> grs_world \<Rightarrow> bool" where
  "tvl_step w w' \<longleftrightarrow> w' = w\<lparr>oft_store := (oft_store w)\<lparr>tvl_ld := tvl_ld (oft_store w')\<rparr>, gledger := gledger w'\<rparr>"

lemma tvl_stepE:
  assumes "tvl_step w w'"
  obtains t l where "w' = w\<lparr>oft_store := (oft_store w)\<lparr>tvl_ld := t\<rparr>, gledger := l\<rparr>"
  using assms unfolding tvl_step_def by blast

text \<open>Crediting an account brings the amount to it, whichever escrow it may be.\<close>

lemma credit_Ok:
  assumes G: "good_genv e g m" and m: "token_mint w = m" and mi: "mints (gledger w) m = Some mi"
    and ok: "credit e g ac mi dest amt w = Ok w'"
  shows "moves g m (if dest = sale_escrow_key g then int (unat amt) else 0)
      (if dest = vest_escrow_key g then int (unat amt) else 0) (gledger w) (gledger w')"
    "tvl_step w w'"
proof -
  have ne: "sale_escrow_key g \<noteq> vest_escrow_key g" "token_escrow_key g \<noteq> sale_escrow_key g"
    "token_escrow_key g \<noteq> vest_escrow_key g" by (simp_all add: good_genvD(5) [OF G])
  have "moves g m (if dest = sale_escrow_key g then int (unat amt) else 0)
      (if dest = vest_escrow_key g then int (unat amt) else 0) (gledger w) (gledger w') \<and>
      tvl_step w w'"
  proof (cases "oft_type (oft_store w) = Adapter")
    case True
    then obtain t l where l: "transfer_checked g (token_escrow_key g) m dest (store_key g) amt (mi_decimals mi) (gledger w) = Some l"
      "w' = w\<lparr>oft_store := (oft_store w)\<lparr>tvl_ld := t\<rparr>, gledger := l\<rparr>"
      using ok m by (auto simp: credit_def step_iffs ginvoke_Ok)
    have "moves g m (if dest = sale_escrow_key g then int (unat amt) else 0)
      (if dest = vest_escrow_key g then int (unat amt) else 0) (gledger w) l"
      using moves_transfer(2) [OF G l(1) ne(2,3)] moves_transfer(5,6) [OF G l(1) refl] ne by auto
    then show ?thesis using l(2) by (simp add: tvl_step_def)
  next
    case False
    then obtain a l s where l: "spl_mint_to e m dest a amt (gledger w) = Some l" "w' = w\<lparr>gledger := l\<rparr>"
      and cap: "checked_add (mi_supply mi) amt = Some s" "s \<le> GRS_MAX_SUPPLY_LD"
      using ok m by (auto simp: credit_def step_iffs ginvoke_Ok split: option.splits)
    have "supply_of (gledger w) m + unat amt \<le> unat GRS_MAX_SUPPLY_LD"
      using cap mi by (simp add: supply_of_def checked_add_Some unat_le_iff)
    then have "moves g m (if dest = sale_escrow_key g then int (unat amt) else 0)
      (if dest = vest_escrow_key g then int (unat amt) else 0) (gledger w) l"
      using moves_mint [OF G l(1)] ne by auto
    then show ?thesis using l(2) by (simp add: tvl_step_def)
  qed
  then show "moves g m (if dest = sale_escrow_key g then int (unat amt) else 0)
      (if dest = vest_escrow_key g then int (unat amt) else 0) (gledger w) (gledger w')"
    "tvl_step w w'" by blast+
qed

lemma debit_sale_escrow_Ok:
  assumes G: "good_genv e g m" and m: "token_mint w = m" and ok: "debit_sale_escrow e g mi amt w = Ok w'"
  shows "moves g m (- int (unat amt)) 0 (gledger w) (gledger w')"
    "tvl_step w w'"
proof -
  have "moves g m (- int (unat amt)) 0 (gledger w) (gledger w') \<and>
      tvl_step w w'"
  proof (cases "amt = 0")
    case True
    then show ?thesis using ok by (simp add: debit_sale_escrow_def tvl_step_def)
  next
    case False
    show ?thesis
    proof (cases "oft_type (oft_store w) = Adapter")
      case True
      then obtain t l d where l: "transfer_checked g (sale_escrow_key g) m (token_escrow_key g) (config_key g) amt d (gledger w) = Some l"
        "w' = w\<lparr>oft_store := (oft_store w)\<lparr>tvl_ld := t\<rparr>, gledger := l\<rparr>"
        using ok m False by (auto simp: debit_sale_escrow_def step_iffs ginvoke_Ok)
      then show ?thesis using moves_transfer(3) [OF G l(1) refl] by (simp add: tvl_step_def)
    next
      case False
      then obtain l where l: "spl_burn e m (sale_escrow_key g) (config_key g) amt (gledger w) = Some l" "w' = w\<lparr>gledger := l\<rparr>"
        using ok m \<open>amt \<noteq> 0\<close> by (auto simp: debit_sale_escrow_def ginvoke_Ok)
      then show ?thesis using moves_burn(2) [OF G l(1) refl] by (simp add: tvl_step_def)
    qed
  qed
  then show "moves g m (- int (unat amt)) 0 (gledger w) (gledger w')"
    "tvl_step w w'" by blast+
qed

text \<open>The reserve and the escrow follow the row from its previous amount to the new one.\<close>

lemma settle_lot_Ok:
  assumes G: "good_genv e g m" and m: "token_mint w = m" and mi: "mints (gledger w) m = Some mi"
    and prev: "\<not> known \<Longrightarrow> previous = 0" and ok: "settle_lot e g ac mi previous known ga w = Ok w'"
  shows "\<exists>t r l. w' = w\<lparr>oft_store := (oft_store w)\<lparr>tvl_ld := t\<rparr>, grs_config := (grs_config w)\<lparr>sales_reserved := r\<rparr>, gledger := l\<rparr> \<and>
    moves g m (int (unat ga) - int (unat previous)) 0 (gledger w) l \<and>
    unat r + unat previous = unat (sales_reserved (grs_config w)) + unat ga"
proof -
  have ne: "sale_escrow_key g \<noteq> vest_escrow_key g" by (simp add: good_genvD(5) [OF G])
  have up: ?thesis if c: "credit_sale_escrow e g ac mi n w = Ok w1" and r: "reserve_sales n w1 = Ok w'"
    and n: "unat n + unat previous = unat ga" for n w1
  proof -
    note C = credit_Ok [OF G m mi c [unfolded credit_sale_escrow_def]]
    obtain t l where w1: "w1 = w\<lparr>oft_store := (oft_store w)\<lparr>tvl_ld := t\<rparr>, gledger := l\<rparr>" using C(2) unfolding tvl_step_def by blast
    obtain rr where rr: "checked_add (sales_reserved (grs_config w1)) n = Some rr"
      "w' = w1\<lparr>grs_config := (grs_config w1)\<lparr>sales_reserved := rr\<rparr>\<rparr>"
      using r by (auto simp: reserve_sales_def step_iffs)
    have d: "int (unat ga) - int (unat previous) = int (unat n)" using n by linarith
    have mv: "moves g m (int (unat ga) - int (unat previous)) 0 (gledger w) l" using C(1) ne unfolding d by (simp add: w1)
    have "unat rr + unat previous = unat (sales_reserved (grs_config w)) + unat ga"
      using rr(1) n by (simp add: checked_add_Some w1)
    with mv show ?thesis
      by (intro exI [of _ t] exI [of _ rr] exI [of _ l]) (simp add: rr(2) w1)
  qed
  have same: ?thesis if "w' = w" "ga = previous"
    using that by (intro exI [of _ "tvl_ld (oft_store w)"] exI [of _ "sales_reserved (grs_config w)"] exI [of _ "gledger w"]) simp
  have down: ?thesis if r: "release_sales n w = Ok w1" and d: "debit_sale_escrow e g mi n w1 = Ok w'"
    and n: "unat n + unat ga = unat previous" for n w1
  proof -
    obtain rr where rr: "checked_sub (sales_reserved (grs_config w)) n = Some rr"
      "w1 = w\<lparr>grs_config := (grs_config w)\<lparr>sales_reserved := rr\<rparr>\<rparr>"
      using r by (auto simp: release_sales_def step_iffs)
    have m1: "token_mint w1 = m" by (simp add: rr(2) m)
    note D = debit_sale_escrow_Ok [OF G m1 d]
    obtain t l where w': "w' = w1\<lparr>oft_store := (oft_store w1)\<lparr>tvl_ld := t\<rparr>, gledger := l\<rparr>" using D(2) unfolding tvl_step_def by blast
    have i: "int (unat ga) - int (unat previous) = - int (unat n)" using n by linarith
    have mv: "moves g m (int (unat ga) - int (unat previous)) 0 (gledger w) l" using D(1) unfolding i by (simp add: w' rr(2))
    have "unat rr + unat previous = unat (sales_reserved (grs_config w)) + unat ga"
      using rr(1) n by (simp add: checked_sub_Some)
    with mv show ?thesis
      by (intro exI [of _ t] exI [of _ rr] exI [of _ l]) (simp add: w' rr(2))
  qed
  consider "ga = previous" "w' = w"
    | n w1 where "credit_sale_escrow e g ac mi n w = Ok w1" "reserve_sales n w1 = Ok w'" "unat n + unat previous = unat ga"
    | n w1 where "release_sales n w = Ok w1" "debit_sale_escrow e g mi n w1 = Ok w'" "unat n + unat ga = unat previous"
    using ok prev unfolding settle_lot_def
    by (auto simp: step_iffs checked_sub_Some word_gt_0 split: if_splits)
  then show ?thesis by cases (use same up down in blast)+
qed

end
