(* ===== verification/Grs_Receiver.thy ===== *)
theory Grs_Receiver
  imports Grs_Arrivals
begin

text \<open>
  \<open>lz_receive\<close> keeps the invariant of the GRS program: a sale message moves the reserve and the
  escrow with the row, a grant brings its allocation, a transfer touches neither book.
\<close>

section \<open>Accounts\<close>

lemma accounts_LzReceive_Ok:
  assumes G: "good_genv e g m" and m: "token_mint w = m"
    and ok: "accounts_LzReceive e g ac params w = Ok (peer, mi, w')"
  shows "quiet_step g m w w'" "w' = w\<lparr>gledger := gledger w'\<rparr>" "mints (gledger w') m = Some mi"
    "peers w (rp_src_eid params) = Some peer" "peer_address peer = rp_sender params"
proof -
  obtain w1 where p: "peers w (rp_src_eid params) = Some peer" "peer_address peer = rp_sender params"
    and 1: "token_init_if_needed e (lr_payer ac) (sale_escrow_key g) m (config_key g) w = Ok w1"
    and 2: "token_init_if_needed e (lr_payer ac) (ata e (lr_to_address ac) (token_mint w1)) (token_mint w1) (lr_to_address ac) w1 = Ok w'"
    and l: "mints (gledger w') (token_mint w') = Some mi"
    using ok m by (auto simp: accounts_LzReceive_def step_iffs load_peer_def load_mint_Ok)
  note T1 = token_init_Ok [OF G 1 disjI1 [OF refl]]
  have m1: "token_mint w1 = m" using T1(1) m by (simp add: quiet_step_def same_books_def)
  have dest: "lr_to_address ac = config_key g \<or> (\<exists>u m'. ata e (lr_to_address ac) m = ata e u m')" by blast
  note T2 = token_init_Ok [OF G 2 [unfolded m1] dest]
  have m2: "token_mint w' = m" using T2(1) m1 by (simp add: quiet_step_def same_books_def)
  show "quiet_step g m w w'" by (rule quiet_step_trans [OF T1(1) T2(1)])
  have "w' = w1\<lparr>gledger := gledger w'\<rparr>" by (rule T2(2))
  moreover have "w1\<lparr>gledger := gledger w'\<rparr> = w\<lparr>gledger := gledger w'\<rparr>" by (subst T1(2)) simp
  ultimately show "w' = w\<lparr>gledger := gledger w'\<rparr>" by simp
  show "mints (gledger w') m = Some mi" using l m2 by simp
qed (use ok in \<open>auto simp: accounts_LzReceive_def step_iffs load_peer_def\<close>)

section \<open>A sale\<close>

lemma receive_sale_Ok:
  assumes "receive_sale e g ac mi msg w = Ok w'"
  obtains sid asset aa ga recipient previous known where
    "decode_sale (keccak g) msg = Ok (sid, asset, aa, ga, recipient)" "\<not> is_home (grs_config w)"
    "peek_sale_account g (lr_sale ac) sid w = Ok (previous, known)"
    "(known \<and> previous = 0 \<and> ga \<noteq> 0) \<and> w' = w \<or>
     \<not> (known \<and> previous = 0 \<and> ga \<noteq> 0) \<and>
     (\<exists>w1. upsert_sale_account e g (lr_sale ac) (lr_payer ac) sid asset aa ga recipient w = Ok w1 \<and>
       settle_lot e g ac mi previous known ga
         (if sale_count (sale_registry w1) < sid then w1\<lparr>sale_registry := (sale_registry w1)\<lparr>sale_count := sid\<rparr>\<rparr> else w1) = Ok w')"
proof -
  obtain x where d: "decode_sale (keccak g) msg = Ok x" using assms by (auto simp: receive_sale_def step_iffs)
  obtain sid asset aa ga recipient where x: "x = (sid, asset, aa, ga, recipient)" by (cases x)
  obtain previous known where p: "peek_sale_account g (lr_sale ac) sid w = Ok (previous, known)"
    using assms unfolding receive_sale_def d x by (auto simp: step_iffs)
  have h: "\<not> is_home (grs_config w)" using assms by (auto simp: receive_sale_def step_iffs)
  let ?skip = "known \<and> previous = 0 \<and> ga \<noteq> 0"
  have core: "(if ?skip then Ok w else
       and_then (upsert_sale_account e g (lr_sale ac) (lr_payer ac) sid asset aa ga recipient w) (\<lambda>w1.
         settle_lot e g ac mi previous known ga
         (if sale_count (sale_registry w1) < sid then w1\<lparr>sale_registry := (sale_registry w1)\<lparr>sale_count := sid\<rparr>\<rparr> else w1))) = Ok w'"
    using assms unfolding receive_sale_def Let_def d x
    by (simp add: and_then_Ok_iff require_Ok_iff p split del: if_split)
  show thesis
  proof (rule that [OF d [unfolded x] h p])
    show "?skip \<and> w' = w \<or> \<not> ?skip \<and> (\<exists>w1. upsert_sale_account e g (lr_sale ac) (lr_payer ac) sid asset aa ga recipient w = Ok w1 \<and>
       settle_lot e g ac mi previous known ga
         (if sale_count (sale_registry w1) < sid then w1\<lparr>sale_registry := (sale_registry w1)\<lparr>sale_count := sid\<rparr>\<rparr> else w1) = Ok w')"
    proof (cases ?skip)
      case True
      then show ?thesis using core by simp
    next
      case False
      then show ?thesis using core by (simp only: if_False and_then_Ok_iff) blast
    qed
  qed
qed

lemma upsert_sale_account_Ok:
  assumes G: "good_genv e g m" and ok: "upsert_sale_account e g info payer sid asset aa ga recipient w = Ok w'"
  shows "w' = w\<lparr>gledger := gledger w', sales := (sales w)(sid \<mapsto> \<lparr> sa_id = sid, sa_oft_store = store_key g, sa_asset = asset,
           sa_asset_amount = aa, sa_grs_amount = ga, sa_recipient = recipient, sa_bump = gpda_bump g (SaleSeed sid) \<rparr>)\<rparr>"
    "moves g m 0 0 (gledger w) (gledger w')" "mints (gledger w') = mints (gledger w)"
proof -
  obtain w1 where 1: "w1 = w \<or> (\<exists>l. sys_create_account e payer info (rent_minimum e SALE_ACCOUNT_SPACE)
        SALE_ACCOUNT_SPACE GRS_PROGRAM_ID (gledger w) = Some l \<and> w1 = w\<lparr>gledger := l\<rparr>)"
    and w': "w' = w1\<lparr>sales := (sales w1)(sid \<mapsto> \<lparr> sa_id = sid, sa_oft_store = store_key g, sa_asset = asset,
           sa_asset_amount = aa, sa_grs_amount = ga, sa_recipient = recipient, sa_bump = gpda_bump g (SaleSeed sid) \<rparr>)\<rparr>"
    using ok unfolding upsert_sale_account_def
    by (auto simp: step_iffs ginvoke_Ok split: option.splits)
  have "w1 = w\<lparr>gledger := gledger w1\<rparr> \<and> moves g m 0 0 (gledger w) (gledger w1) \<and> mints (gledger w1) = mints (gledger w)"
    using 1 moves_system(2) [OF G] by auto
  then have a: "w1 = w\<lparr>gledger := gledger w1\<rparr>" "moves g m 0 0 (gledger w) (gledger w1)" "mints (gledger w1) = mints (gledger w)"
    by blast+
  show "w' = w\<lparr>gledger := gledger w', sales := (sales w)(sid \<mapsto> \<lparr> sa_id = sid, sa_oft_store = store_key g, sa_asset = asset,
           sa_asset_amount = aa, sa_grs_amount = ga, sa_recipient = recipient, sa_bump = gpda_bump g (SaleSeed sid) \<rparr>)\<rparr>"
    unfolding w' by (subst a(1), subst (2) a(1)) simp
  show "moves g m 0 0 (gledger w) (gledger w')" "mints (gledger w') = mints (gledger w)"
    using a(2,3) by (simp_all add: w')
qed

lemma peek_sale_account_Ok:
  "peek_sale_account g info sid w = Ok (previous, known) \<Longrightarrow>
     0 < sid \<and> unat previous = owed_at lot_owed (sales w) sid \<and> (\<not> known \<longrightarrow> previous = 0)"
  by (auto simp: peek_sale_account_def step_iffs lot_owed_def split: option.splits)

lemma receive_sale_inv:
  assumes G: "good_genv e g m" and inv: "grs_inv g m w" and mi: "mints (gledger w) m = Some mi"
    and ok: "receive_sale e g ac mi msg w = Ok w'"
  shows "grs_inv g m w'"
  using ok
proof (rule receive_sale_Ok)
  fix sid asset aa ga recipient previous known
  let ?a = "\<lparr> sa_id = sid, sa_oft_store = store_key g, sa_asset = asset,
           sa_asset_amount = aa, sa_grs_amount = ga, sa_recipient = recipient, sa_bump = gpda_bump g (SaleSeed sid) \<rparr>"
  assume spoke: "\<not> is_home (grs_config w)" and p: "peek_sale_account g (lr_sale ac) sid w = Ok (previous, known)"
    and c: "(known \<and> previous = 0 \<and> ga \<noteq> 0) \<and> w' = w \<or>
     \<not> (known \<and> previous = 0 \<and> ga \<noteq> 0) \<and>
     (\<exists>w1. upsert_sale_account e g (lr_sale ac) (lr_payer ac) sid asset aa ga recipient w = Ok w1 \<and>
       settle_lot e g ac mi previous known ga
         (if sale_count (sale_registry w1) < sid then w1\<lparr>sale_registry := (sale_registry w1)\<lparr>sale_count := sid\<rparr>\<rparr> else w1) = Ok w')"
  show "grs_inv g m w'"
  proof (cases "w' = w")
    case False
    then obtain w1 where u: "upsert_sale_account e g (lr_sale ac) (lr_payer ac) sid asset aa ga recipient w = Ok w1"
      and s: "settle_lot e g ac mi previous known ga
         (if sale_count (sale_registry w1) < sid then w1\<lparr>sale_registry := (sale_registry w1)\<lparr>sale_count := sid\<rparr>\<rparr> else w1) = Ok w'"
      using c by blast
    note U = upsert_sale_account_Ok [OF G u]
    note P = peek_sale_account_Ok [OF p]
    define w2 where "w2 = (if sale_count (sale_registry w1) < sid then w1\<lparr>sale_registry := (sale_registry w1)\<lparr>sale_count := sid\<rparr>\<rparr> else w1)"
    define cnt where "cnt = max (sale_count (sale_registry w)) sid"
    have w2: "w2 = w\<lparr>gledger := gledger w1, sales := (sales w)(sid \<mapsto> ?a),
        sale_registry := (sale_registry w)\<lparr>sale_count := cnt\<rparr>\<rparr>"
      unfolding w2_def cnt_def by (subst (1 2 3 4) U(1)) (simp add: max_def not_less)
    have m2: "token_mint w2 = m" "mints (gledger w2) m = Some mi"
      using grs_invD(5) [OF inv] mi U(3) by (simp_all add: w2)
    obtain t r l where w': "w' = w2\<lparr>oft_store := (oft_store w2)\<lparr>tvl_ld := t\<rparr>,
          grs_config := (grs_config w2)\<lparr>sales_reserved := r\<rparr>, gledger := l\<rparr>"
      and mv: "moves g m (int (unat ga) - int (unat previous)) 0 (gledger w2) l"
      and r: "unat r + unat previous = unat (sales_reserved (grs_config w2)) + unat ga"
      using settle_lot_Ok [OF G m2 _ s [folded w2_def]] P by blast
    let ?d = "int (unat ga) - int (unat previous)"
    have mv': "moves g m ?d 0 (gledger w) l" using mv U(2) by (auto simp: w2 intro: then_moves)
    have cover: "int (unat r) \<le> int (bal (gledger w) (sale_escrow_key g)) + ?d"
    proof -
      have "unat r + unat previous = unat (sales_reserved (grs_config w)) + unat ga" using r by (simp add: w2)
      then show ?thesis using grs_invD(10) [OF inv] by linarith
    qed
    show ?thesis
    proof (rule lot_step [OF inv, where s = ?d and sid = sid and a = ?a])
      show "moves g m ?d 0 (gledger w) (gledger w')" using mv' by (simp add: w')
      show "int (unat (sales_reserved (grs_config w'))) \<le> int (bal (gledger w) (sale_escrow_key g)) + ?d"
        using cover by (simp add: w')
      show "unat (sales_reserved (grs_config w')) + owed_at lot_owed (sales w) sid =
          unat (sales_reserved (grs_config w)) + lot_owed ?a"
        using r P by (simp add: w' w2 lot_owed_def)
      show "lot_ok g (is_home (grs_config w)) sid ?a" using spoke by (simp add: lot_ok_def)
      show "sid \<noteq> 0" using P by auto
    qed (use spoke in \<open>simp_all add: w' w2 cnt_def beside_lots_def\<close>)
  qed (simp add: inv)
qed

section \<open>A grant\<close>

lemma ensure_vest_escrow_Ok:
  assumes G: "good_genv e g m" and m: "token_mint w = m" and ok: "ensure_vest_escrow e g ve payer prog w = Ok w'"
  shows "moves g m 0 0 (gledger w) (gledger w')" "mints (gledger w') = mints (gledger w)"
    "w' = w\<lparr>gledger := gledger w'\<rparr>" "ve = vest_escrow_key g"
proof -
  have "w' = w \<or> (\<exists>l l'. sys_create_account e payer ve (rent_minimum e TOKEN_ACCOUNT_SPACE) TOKEN_ACCOUNT_SPACE prog (gledger w) = Some l \<and>
      spl_initialize_account3 e ve m (config_key g) l = Some l' \<and> w' = w\<lparr>gledger := l'\<rparr>)"
    using ok m by (auto simp: ensure_vest_escrow_def step_iffs ginvoke_Ok split: if_splits)
  then have "moves g m 0 0 (gledger w) (gledger w') \<and> mints (gledger w') = mints (gledger w) \<and> w' = w\<lparr>gledger := gledger w'\<rparr>"
  proof (elim disjE exE conjE)
    fix l l'
    assume c: "sys_create_account e payer ve (rent_minimum e TOKEN_ACCOUNT_SPACE) TOKEN_ACCOUNT_SPACE prog (gledger w) = Some l"
      and i: "spl_initialize_account3 e ve m (config_key g) l = Some l'" and w': "w' = w\<lparr>gledger := l'\<rparr>"
    have "moves g m 0 0 (gledger w) l'" using moves_system(2) [OF G c] moves_init3(1) [OF G i] by (blast intro: moves_then)
    then show ?thesis using moves_system(2) [OF G c] moves_init3(2) [OF G i] by (simp add: w')
  qed simp
  then show "moves g m 0 0 (gledger w) (gledger w')" "mints (gledger w') = mints (gledger w)"
    "w' = w\<lparr>gledger := gledger w'\<rparr>" by blast+
  show "ve = vest_escrow_key g" using ok by (auto simp: ensure_vest_escrow_def step_iffs)
qed

lemma init_grant_vesting_Ok:
  assumes G: "good_genv e g m" and ok: "init_grant_vesting e g info payer vid frm to amt start c d w = Ok w'"
  obtains s ce en l where "schedule (unix_timestamp e) start c d = Ok (s, ce, en)"
    "moves g m 0 0 (gledger w) l" "mints l = mints (gledger w)"
    "w' = w\<lparr>gledger := l, vestings := (vestings w)(vid \<mapsto> \<lparr> ve_id = vid, ve_oft_store = store_key g,
        funder = frm, beneficiary = to, allocation_ld = amt, released_ld = 0, ve_start = s, cliff_end = ce,
        ve_end = en, ve_bump = gpda_bump g (VestSeed vid) \<rparr>)\<rparr>"
proof -
  obtain s ce en l where o: "schedule (unix_timestamp e) start c d = Ok (s, ce, en)"
    "sys_create_account e payer info (rent_minimum e VESTING_SPACE) VESTING_SPACE GRS_PROGRAM_ID (gledger w) = Some l"
    "w' = w\<lparr>gledger := l, vestings := (vestings w)(vid \<mapsto> \<lparr> ve_id = vid, ve_oft_store = store_key g,
        funder = frm, beneficiary = to, allocation_ld = amt, released_ld = 0, ve_start = s, cliff_end = ce,
        ve_end = en, ve_bump = gpda_bump g (VestSeed vid) \<rparr>)\<rparr>"
    using ok unfolding init_grant_vesting_def by (auto simp: step_iffs ginvoke_Ok)
  show thesis using that [OF o(1) _ _ o(3)] moves_system(2) [OF G o(2)] by blast
qed

lemma receive_grant_Ok:
  assumes "receive_grant e g ac mi msg w = Ok w'"
  obtains to amt start c d x vid w1 where "decode_grant (keccak g) msg = Ok (to, amt, start, c, d, x)"
    "\<not> is_home (grs_config w)" "checked_add (vesting_count (grs_config w)) 1 = Some vid"
    "init_grant_vesting e g (lr_sale ac) (lr_payer ac) vid (store_key g) to amt start c d w = Ok w1"
    "(if 0 < amt then and_then (ensure_vest_escrow e g (lr_vest_escrow ac) (lr_payer ac) (lr_token_program ac)
          (w1\<lparr>grs_config := (grs_config w1)\<lparr>vesting_count := vid\<rparr>\<rparr>)) (\<lambda>w. credit_vest_escrow e g ac mi amt w)
      else Ok (w1\<lparr>grs_config := (grs_config w1)\<lparr>vesting_count := vid\<rparr>\<rparr>)) = Ok w'"
proof -
  obtain y where y: "decode_grant (keccak g) msg = Ok y" using assms by (auto simp: receive_grant_def step_iffs)
  obtain to amt start c d x where x: "y = (to, amt, start, c, d, x)" by (cases y)
  show thesis
    using assms unfolding receive_grant_def Let_def y x
    by (simp add: and_then_Ok_iff [of "require b e" for b e] and_then_Ok_iff [of "ok_or b e" for b e]
        and_then_Ok_iff [of "init_grant_vesting e g a b c d f h i j k l" for a b c d f h i j k l]
        require_Ok_iff ok_or_Ok_iff split del: if_split)
      (elim exE conjE, rule that [OF y [unfolded x]], simp_all)
qed

lemma receive_grant_inv:
  assumes G: "good_genv e g m" and inv: "grs_inv g m w" and mi: "mints (gledger w) m = Some mi"
    and ok: "receive_grant e g ac mi msg w = Ok w'"
  shows "grs_inv g m w'"
  using ok
proof (rule receive_grant_Ok)
  fix to amt start c d x vid w1
  assume vid: "checked_add (vesting_count (grs_config w)) 1 = Some vid"
    and i: "init_grant_vesting e g (lr_sale ac) (lr_payer ac) vid (store_key g) to amt start c d w = Ok w1"
    and pay: "(if 0 < amt then and_then (ensure_vest_escrow e g (lr_vest_escrow ac) (lr_payer ac) (lr_token_program ac)
          (w1\<lparr>grs_config := (grs_config w1)\<lparr>vesting_count := vid\<rparr>\<rparr>)) (\<lambda>w. credit_vest_escrow e g ac mi amt w)
      else Ok (w1\<lparr>grs_config := (grs_config w1)\<lparr>vesting_count := vid\<rparr>\<rparr>)) = Ok w'"
  show "grs_inv g m w'"
  proof (rule init_grant_vesting_Ok [OF G i])
    fix s ce en l
    let ?v = "\<lparr> ve_id = vid, ve_oft_store = store_key g,
        funder = store_key g, beneficiary = to, allocation_ld = amt, released_ld = 0, ve_start = s, cliff_end = ce,
        ve_end = en, ve_bump = gpda_bump g (VestSeed vid) \<rparr>"
    assume sch: "schedule (unix_timestamp e) start c d = Ok (s, ce, en)"
      and l: "moves g m 0 0 (gledger w) l" "mints l = mints (gledger w)"
      and w1: "w1 = w\<lparr>gledger := l, vestings := (vestings w)(vid \<mapsto> ?v)\<rparr>"
    define w2 where "w2 = w1\<lparr>grs_config := (grs_config w1)\<lparr>vesting_count := vid\<rparr>\<rparr>"
    have m2: "token_mint w2 = m" using grs_invD(5) [OF inv] by (simp add: w2_def w1)
    have ne: "sale_escrow_key g \<noteq> vest_escrow_key g" by (simp add: good_genvD(5) [OF G])
    have p: "moves g m 0 (int (unat amt)) l (gledger w') \<and> tvl_step w2 w'"
    proof (cases "0 < amt")
      case False
      then have "w' = w2" "amt = 0" using pay by (simp_all add: w2_def word_gt_0)
      then show ?thesis by (simp add: tvl_step_def w2_def w1)
    next
      case True
      then obtain w3 where n: "ensure_vest_escrow e g (lr_vest_escrow ac) (lr_payer ac) (lr_token_program ac) w2 = Ok w3"
        and c: "credit e g ac mi (lr_vest_escrow ac) amt w3 = Ok w'"
        using pay by (auto simp: w2_def step_iffs credit_vest_escrow_def)
      note N = ensure_vest_escrow_Ok [OF G m2 n]
      have m3: "token_mint w3 = m" by (subst N(3)) (simp add: m2)
      have mi3: "mints (gledger w3) m = Some mi" using N(2) mi l(2) by (simp add: w2_def w1)
      note C = credit_Ok [OF G m3 mi3 c]
      have "moves g m 0 (int (unat amt)) (gledger w3) (gledger w')" using C(1) ne by (simp add: N(4))
      then have "moves g m 0 (int (unat amt)) l (gledger w')" using N(1) by (auto simp: w2_def w1 intro: then_moves)
      moreover have "tvl_step w2 w'"
      proof -
        obtain l3 where "w3 = w2\<lparr>gledger := l3\<rparr>" using N(3) by blast
        then show ?thesis using C(2) by (simp add: tvl_step_def)
      qed
      ultimately show ?thesis by blast
    qed
    have w': "w' = w2\<lparr>oft_store := (oft_store w2)\<lparr>tvl_ld := tvl_ld (oft_store w')\<rparr>, gledger := gledger w'\<rparr>"
      using p unfolding tvl_step_def by blast
    have eqs: "beside_vests w w'" "vestings w' = (vestings w)(vid \<mapsto> ?v)" "vesting_count (grs_config w') = vid"
      by (subst w', simp add: w2_def w1 beside_vests_def)+
    show "grs_inv g m w'"
    proof (rule vest_new [OF inv _ eqs(1,2) _ _ vid eqs(3)])
      show "moves g m 0 (int (unat (allocation_ld ?v))) (gledger w) (gledger w')"
        using then_moves [OF l(1)] p by simp
      show "vest_ok g vid ?v" using schedule_Ok [OF sch] by (simp add: vest_ok_def unat_le_iff)
    qed simp
  qed
qed

section \<open>A transfer\<close>

lemma receive_transfer_quiet:
  assumes G: "good_genv e g m" and m: "token_mint w = m" and mi: "mints (gledger w) m = Some mi"
    and ok: "receive_transfer e g ac ks params peer mi w = Ok w'"
  shows "quiet_step g m w w'"
proof -
  obtain peer' amt w1 got where c0: "credit e g ac mi
        (ata e (lr_to_address ac) (token_mint (w\<lparr>peers := (peers w)(rp_src_eid params \<mapsto> peer')\<rparr>))) amt
        (w\<lparr>peers := (peers w)(rp_src_eid params \<mapsto> peer')\<rparr>) = Ok w1"
    and call: "(case compose_msg (keccak g) (rp_message params) of
        Some msg \<Rightarrow>
          ginvoke (endpoint_send_compose g (endpoint_program (oft_store w1)) (store_key g)
            (drop (clear_min_accounts_len g) ks)
            \<lparr> cp_to = lr_to_address ac, cp_guid = rp_guid params, cp_index = 0,
              cp_message = compose_encode (rp_nonce params) (rp_src_eid params) got msg \<rparr>) w1
      | None \<Rightarrow> Ok w1) = Ok w'"
    using ok unfolding receive_transfer_def Let_def
    by (elim steps_OkE) blast
  have c: "credit e g ac mi (ata e (lr_to_address ac) m) amt
        (w\<lparr>peers := (peers w)(rp_src_eid params \<mapsto> peer')\<rparr>) = Ok w1"
    using c0 m by simp
  have ne: "ata e (lr_to_address ac) m \<noteq> sale_escrow_key g" "ata e (lr_to_address ac) m \<noteq> vest_escrow_key g"
    using good_genvD(3) [OF G] by blast+
  note C = credit_Ok [OF G _ _ c]
  have c': "tvl_step (w\<lparr>peers := (peers w)(rp_src_eid params \<mapsto> peer')\<rparr>) w1"
    "moves g m 0 0 (gledger w) (gledger w1)"
    using C m mi ne by simp_all
  from c'(1) have "same_books w w1" by (rule tvl_stepE) (simp add: same_books_def)
  with c'(2) have "quiet_step g m w w1" by (simp add: quiet_step_def)
  moreover have "quiet_step g m w1 w'"
    using call by (cases "compose_msg (keccak g) (rp_message params)")
      (auto simp: ginvoke_Ok intro!: quiet_gledger dest: moves_endpoint(3) [OF G])
  ultimately show ?thesis by (rule quiet_step_trans)
qed

section \<open>The handler\<close>

lemma execute_lz_receive_Ok:
  assumes "execute_lz_receive e g ac ks params w = Ok w'"
  obtains peer mi w1 l where "accounts_LzReceive e g ac params w = Ok (peer, mi, w1)"
    "endpoint_clear g (endpoint_program (oft_store w1)) (store_key g) (take (clear_min_accounts_len g) ks) params (gledger w1) = Some l"
    "\<not> os_paused (oft_store w1)"
    "(if is_sale (keccak g) (rp_message params) then receive_sale e g ac mi (rp_message params) (w1\<lparr>gledger := l\<rparr>)
      else if is_grant (keccak g) (rp_message params) then receive_grant e g ac mi (rp_message params) (w1\<lparr>gledger := l\<rparr>)
      else receive_transfer e g ac ks params peer mi (w1\<lparr>gledger := l\<rparr>)) = Ok w'"
proof -
  obtain y where y: "accounts_LzReceive e g ac params w = Ok y" using assms by (auto simp: execute_lz_receive_def step_iffs)
  obtain peer mi w1 where x: "y = (peer, mi, w1)" by (cases y)
  have take_if: "(if c then Some a else None) = Some b \<longleftrightarrow> c \<and> a = b" for c and a b :: "pubkey list" by simp
  show thesis
    using assms unfolding execute_lz_receive_def y x
    by (simp add: step_iffs ginvoke_Ok take_if split del: if_split)
      (elim exE conjE, rule that [OF y [unfolded x]], auto split del: if_split)
qed

lemma execute_lz_receive_inv:
  assumes G: "good_genv e g m" and inv: "grs_inv g m w" and ok: "execute_lz_receive e g ac ks params w = Ok w'"
  shows "grs_inv g m w'"
  using ok
proof (rule execute_lz_receive_Ok)
  fix peer mi and w1 :: grs_world and l
  let ?w = "w1\<lparr>gledger := l\<rparr>"
  assume 1: "accounts_LzReceive e g ac params w = Ok (peer, mi, w1)"
    and c: "endpoint_clear g (endpoint_program (oft_store w1)) (store_key g) (take (clear_min_accounts_len g) ks) params (gledger w1) = Some l"
    and r: "(if is_sale (keccak g) (rp_message params) then receive_sale e g ac mi (rp_message params) ?w
      else if is_grant (keccak g) (rp_message params) then receive_grant e g ac mi (rp_message params) ?w
      else receive_transfer e g ac ks params peer mi ?w) = Ok w'"
  note A = accounts_LzReceive_Ok [OF G grs_invD(5) [OF inv] 1]
  have inv2: "grs_inv g m ?w"
    by (rule quiet_step_inv [OF quiet_step_inv [OF inv A(1)]]) (rule quiet_gledger [OF moves_endpoint(2) [OF G c]])
  have mi: "mints (gledger ?w) m = Some mi" using endpoint_spares(2) [OF G c] A(3) by (simp add: spares_def)
  show "grs_inv g m w'"
    using r receive_sale_inv [OF G inv2 mi] receive_grant_inv [OF G inv2 mi]
      quiet_step_inv [OF inv2 receive_transfer_quiet [OF G grs_invD(5) [OF inv2] mi]]
    by (auto split: if_splits)
qed

end
