(* ===== verification/Grs_Peers.thy ===== *)
theory Grs_Peers
  imports Grs_Receiver
begin

text \<open>
  The peer registry as a map from endpoint ids to addresses, and the invariant of the peers:
  the registry lists exactly the peers that have an address, fees stay below the whole, and a
  rate limiter never holds more than its capacity.
\<close>

section \<open>The registry refines a map\<close>

definition book_of :: "PeerRegistry \<Rightarrow> u32 \<rightharpoonup> bytes32" where
  "book_of r = map_of (entries r)"

definition registry_ok :: "PeerRegistry \<Rightarrow> bool" where
  "registry_ok r \<longleftrightarrow> distinct (map fst (entries r)) \<and> 0 \<notin> snd ` set (entries r) \<and>
     length (entries r) \<le> GRS_MAX_PEERS"

lemma entry_at_Some:
  "entry_at eid xs = Some i \<Longrightarrow> i < length xs \<and> fst (xs ! i) = eid"
  by (induction xs arbitrary: i) (auto split: if_splits simp: nth_Cons split: nat.split)

lemma entry_at_None: "entry_at eid xs = None \<longleftrightarrow> eid \<notin> fst ` set xs"
  by (induction xs) auto

lemma swap_remove_parts:
  assumes "i < length xs"
  shows "mset (swap_remove i xs) = mset (take i xs @ drop (Suc i) xs)"
proof -
  have "mset (butlast (xs[i := last xs])) + {#xs ! i#} = mset xs"
    using assms by (simp add: mset_swap_remove)
  moreover have "mset xs = mset (take i xs @ drop (Suc i) xs) + {#xs ! i#}"
    by (subst id_take_nth_drop [OF assms]) simp
  ultimately show ?thesis by (simp add: swap_remove_def)
qed

lemma map_of_mset:
  assumes "mset xs = mset ys" "distinct (map fst ys)"
  shows "distinct (map fst xs)" "map_of xs = map_of ys"
proof -
  have "mset (map fst xs) = mset (map fst ys)" using assms(1) by simp
  then show d: "distinct (map fst xs)" using assms(2) mset_eq_imp_distinct_iff by blast
  show "map_of xs = map_of ys"
    using map_of_inject_set [OF d assms(2)] mset_eq_setD [OF assms(1)] by simp
qed

lemma upsert_store: "upsert eid a r = Ok r' \<Longrightarrow> pr_oft_store r' = pr_oft_store r"
  by (auto simp: upsert_def step_iffs split: option.splits if_splits)

lemma upsert_Ok:
  assumes r: "registry_ok r" and ok: "upsert eid a r = Ok r'"
  shows "registry_ok r'" "book_of r' = (book_of r)(eid := if a = 0 then None else Some a)"
    "pr_oft_store r' = pr_oft_store r"
proof -
  have d: "distinct (map fst (entries r))" "0 \<notin> snd ` set (entries r)" "length (entries r) \<le> GRS_MAX_PEERS"
    using r by (simp_all add: registry_ok_def)
  have "registry_ok r' \<and> book_of r' = (book_of r)(eid := if a = 0 then None else Some a)"
  proof (cases "entry_at eid (entries r)")
    case None
    then have new: "eid \<notin> fst ` set (entries r)" by (simp add: entry_at_None)
    then have "map_of (entries r) eid = None" by (simp add: map_of_eq_None_iff)
    then show ?thesis
      using ok None new d
      by (cases "a = 0")
        (auto simp: upsert_def step_iffs registry_ok_def book_of_def map_add_def fun_eq_iff split: option.splits)
  next
    case (Some i)
    note i = entry_at_Some [OF Some]
    let ?xs = "entries r"
    have parts: "?xs = take i ?xs @ ?xs ! i # drop (Suc i) ?xs" using i by (simp add: id_take_nth_drop)
    have fsts: "distinct (map fst (take i ?xs @ ?xs ! i # drop (Suc i) ?xs))" using d(1) parts by simp
    have out: "eid \<notin> fst ` set (take i ?xs)" "eid \<notin> fst ` set (drop (Suc i) ?xs)" "distinct (map fst (take i ?xs @ drop (Suc i) ?xs))"
      using fsts i by auto
    have sub: "set (take i ?xs) \<subseteq> set ?xs" "set (drop (Suc i) ?xs) \<subseteq> set ?xs"
      by (rule set_take_subset, rule set_drop_subset)
    have look: "map_of ?xs = map_of (take i ?xs @ (eid, snd (?xs ! i)) # drop (Suc i) ?xs)"
      using i by (subst parts) (metis prod.collapse)
    show ?thesis
    proof (cases "a = 0")
      case True
      then have e: "entries r' = swap_remove i ?xs" using ok Some by (auto simp: upsert_def)
      note M = map_of_mset [OF swap_remove_parts [OF conjunct1 [OF i]] out(3)]
      have "set (swap_remove i ?xs) \<subseteq> set ?xs"
        using mset_eq_setD [OF swap_remove_parts [OF conjunct1 [OF i]]] sub by auto
      moreover have "length (swap_remove i ?xs) \<le> length ?xs" by (simp add: swap_remove_def)
      ultimately have "registry_ok r'" using M(1) d(2,3) by (auto simp: registry_ok_def e)
      moreover have "map_of (take i ?xs) eid = None" "map_of (drop (Suc i) ?xs) eid = None"
        using out(1,2) by (simp_all add: map_of_eq_None_iff)
      then have "book_of r' = (book_of r)(eid := None)"
        unfolding book_of_def e M(2) look by (auto simp: map_add_def fun_eq_iff split: option.splits)
      ultimately show ?thesis using True by simp
    next
      case False
      then have e: "entries r' = take i ?xs @ (eid, a) # drop (Suc i) ?xs"
        using ok Some i by (auto simp: upsert_def upd_conv_take_nth_drop)
      have "registry_ok r'"
        using d(2,3) sub out False i by (auto simp: registry_ok_def e)
      moreover have "map_of (take i ?xs) eid = None" using out(1) by (simp add: map_of_eq_None_iff)
      then have "book_of r' = (book_of r)(eid \<mapsto> a)"
        unfolding book_of_def e look by (auto simp: map_add_def fun_eq_iff split: option.splits)
      ultimately show ?thesis using False by simp
    qed
  qed
  then show "registry_ok r'" "book_of r' = (book_of r)(eid := if a = 0 then None else Some a)" by blast+
  show "pr_oft_store r' = pr_oft_store r" by (rule upsert_store [OF ok])
qed

text \<open>Only a full registry refuses, and only a new address.\<close>

lemma upsert_Err:
  assumes r: "registry_ok r" and err: "upsert eid a r = Inl x"
  shows "x = Raise TooManyPeers" "a \<noteq> 0" "eid \<notin> dom (book_of r)" "card (dom (book_of r)) = GRS_MAX_PEERS"
proof -
  have e: "entry_at eid (entries r) = None" "a \<noteq> 0" "\<not> length (entries r) < GRS_MAX_PEERS" "x = Raise TooManyPeers"
    using err by (auto simp: upsert_def require_def split: option.splits if_splits)
  then show "x = Raise TooManyPeers" "a \<noteq> 0" by simp_all
  show "eid \<notin> dom (book_of r)" using e(1) by (simp add: entry_at_None book_of_def dom_map_of_conv_image_fst)
  have "card (dom (book_of r)) = length (entries r)"
    using r distinct_card [of "map fst (entries r)"] by (simp add: registry_ok_def book_of_def dom_map_of_conv_image_fst)
  then show "card (dom (book_of r)) = GRS_MAX_PEERS" using e(3) r by (simp add: registry_ok_def)
qed

text \<open>
  C26. The peer registry implements a bounded map from endpoint ids to addresses: an update is the
  map update, with the zero address removing the entry, and it is refused exactly when it would
  add an entry to a full registry. In the list, ids stay distinct and addresses non-zero.
\<close>

theorem upsert_refines_map:
  assumes "registry_ok r"
  shows "if a \<noteq> 0 \<and> eid \<notin> dom (book_of r) \<and> card (dom (book_of r)) = GRS_MAX_PEERS
    then upsert eid a r = Err TooManyPeers
    else \<exists>r'. upsert eid a r = Ok r' \<and> registry_ok r' \<and>
      book_of r' = (book_of r)(eid := if a = 0 then None else Some a)"
proof (cases "upsert eid a r")
  case (Inl x)
  then show ?thesis using upsert_Err [OF assms Inl] by simp
next
  case (Inr r')
  have "card (dom (book_of r)) = length (entries r)"
    using assms distinct_card [of "map fst (entries r)"] by (simp add: registry_ok_def book_of_def dom_map_of_conv_image_fst)
  then have "\<not> (a \<noteq> 0 \<and> eid \<notin> dom (book_of r) \<and> card (dom (book_of r)) = GRS_MAX_PEERS)"
    using Inr entry_at_None [of eid "entries r"]
    by (auto simp: upsert_def step_iffs book_of_def dom_map_of_conv_image_fst split: option.splits)
  then show ?thesis using upsert_Ok [OF assms Inr] Inr by auto
qed

theorem upsert_refines_map_witness:
  "\<exists>r'. upsert 30101 0 \<lparr> pr_oft_store = 1, pr_bump = 255, entries = [(30101, 7), (30102, 9)] \<rparr> = Ok r' \<and>
     registry_ok r' \<and> book_of r' = (book_of \<lparr> pr_oft_store = 1, pr_bump = 255, entries = [(30101, 7), (30102, 9)] \<rparr>)(30101 := None)"
  using upsert_refines_map [of "\<lparr> pr_oft_store = 1, pr_bump = 255, entries = [(30101, 7), (30102, 9)] \<rparr>" 0 30101]
  by (simp add: registry_ok_def GRS_MAX_PEERS_def)

section \<open>The peers' invariant\<close>

definition limiter_ok :: "RateLimiter \<Rightarrow> bool" where
  "limiter_ok r \<longleftrightarrow> rl_tokens r \<le> capacity r"

definition fee_ok :: "u16 option \<Rightarrow> bool" where
  "fee_ok b = pred_option (\<lambda>b. b < MAX_FEE_BASIS_POINTS) b"

definition peer_ok :: "PeerConfig \<Rightarrow> bool" where
  "peer_ok p \<longleftrightarrow> fee_ok (fee_bps p) \<and> pred_option limiter_ok (outbound_rate_limiter p) \<and>
     pred_option limiter_ok (inbound_rate_limiter p)"

definition listed :: "(u32 \<rightharpoonup> PeerConfig) \<Rightarrow> u32 \<rightharpoonup> bytes32" where
  "listed ps eid = (case ps eid of None \<Rightarrow> None
     | Some p \<Rightarrow> if peer_address p = 0 then None else Some (peer_address p))"

text \<open>\<open>a\<close> is the admin, whom no instruction but the acceptance of the ownership changes.\<close>

definition peers_inv :: "pubkey \<Rightarrow> grs_world \<Rightarrow> bool" where
  "peers_inv a w \<longleftrightarrow> os_admin (oft_store w) = a \<and> registry_ok (peer_registry w) \<and> book_of (peer_registry w) = listed (peers w) \<and>
     (\<forall>eid p. peers w eid = Some p \<longrightarrow> peer_ok p) \<and> default_fee_bps (oft_store w) < MAX_FEE_BASIS_POINTS"

definition same_peers :: "grs_world \<Rightarrow> grs_world \<Rightarrow> bool" where
  "same_peers w w' \<longleftrightarrow> peers w' = peers w \<and> peer_registry w' = peer_registry w \<and>
     default_fee_bps (oft_store w') = default_fee_bps (oft_store w) \<and> os_admin (oft_store w') = os_admin (oft_store w)"

lemma same_peers_inv: "same_peers w w' \<Longrightarrow> peers_inv own w \<Longrightarrow> peers_inv own w'"
  by (simp add: same_peers_def peers_inv_def)

lemma same_peers_trans: "same_peers a b \<Longrightarrow> same_peers b c \<Longrightarrow> same_peers a c"
  by (simp add: same_peers_def)

lemma ginvoke_same_peers: "ginvoke f w = Ok w' \<Longrightarrow> same_peers w w'"
  by (auto simp: ginvoke_Ok same_peers_def)

text \<open>Rate limiters and one peer's row.\<close>

lemma refill_limiter: "refill now n r = Ok r' \<Longrightarrow> limiter_ok r'"
  using refill_Ok(2) by (simp add: limiter_ok_def)

lemma try_consume_limiter:
  assumes "try_consume now n r = Ok r'"
  shows "limiter_ok r'"
proof -
  obtain r1 where r: "refill now 0 r = Ok r1" "unat (rl_tokens r') + unat n = unat (rl_tokens r1)" "capacity r' = capacity r1"
    using assms by (auto simp: try_consume_def step_iffs checked_sub_Some split: option.splits)
  then show ?thesis using refill_limiter [OF r(1)] by (simp add: limiter_ok_def unat_le_iff)
qed

lemma update_rate_limiter_ok:
  "update_rate_limiter now params x = Ok y \<Longrightarrow> pred_option limiter_ok x \<Longrightarrow> pred_option limiter_ok y"
  using refill_limiter
  by (fastforce simp: update_rate_limiter_def step_iffs set_capacity_def set_rate_def default_limiter_def
      limiter_ok_def Let_def split: option.splits)

lemma limit_Ok:
  "limit_outbound now n p = Ok p' \<Longrightarrow> peer_address p' = peer_address p \<and> (peer_ok p \<longrightarrow> peer_ok p')"
  "limit_inbound now n p = Ok p' \<Longrightarrow> peer_address p' = peer_address p \<and> (peer_ok p \<longrightarrow> peer_ok p')"
  using refill_limiter try_consume_limiter
  by (fastforce simp: limit_outbound_def limit_inbound_def with_limiter_def step_iffs peer_ok_def split: option.splits)+

lemma peer_row_inv:
  assumes "peers_inv own w" "peers w eid = Some p" "peer_address p' = peer_address p" "peer_ok p \<longrightarrow> peer_ok p'"
  shows "peers_inv own (w\<lparr>peers := (peers w)(eid \<mapsto> p')\<rparr>)"
proof -
  have "listed ((peers w)(eid \<mapsto> p')) = listed (peers w)" using assms(2,3) by (auto simp: listed_def fun_eq_iff)
  then show ?thesis using assms by (auto simp: peers_inv_def)
qed

lemma apply_peer_param_Ok:
  assumes "peers_inv own w" "peers w eid = Some p \<or> peers w eid = None \<and> p = default_peer"
    "apply_peer_param e g eid c p (peer_registry w) = Ok (p', reg')"
  shows "peers_inv own (w\<lparr>peers := (peers w)(eid \<mapsto> p'\<lparr>pc_bump := b\<rparr>), peer_registry := reg'\<rparr>)"
proof -
  have p: "peer_ok p" using assms(1,2) by (auto simp: peers_inv_def default_peer_def peer_ok_def fee_ok_def)
  have at: "listed (peers w) eid = (if peer_address p = 0 then None else Some (peer_address p))"
    using assms(2) by (auto simp: listed_def default_peer_def)
  have p': "peer_ok p'"
  proof (cases c)
    case (OutboundRateLimit params)
    then show ?thesis using p assms(3) by (auto simp: apply_peer_param_def step_iffs peer_ok_def dest: update_rate_limiter_ok)
  next
    case (InboundRateLimit params)
    then show ?thesis using p assms(3) by (auto simp: apply_peer_param_def step_iffs peer_ok_def dest: update_rate_limiter_ok)
  qed (use p assms(3) in \<open>auto simp: apply_peer_param_def step_iffs peer_ok_def fee_ok_def wire_options_def Let_def
      split: option.splits if_splits\<close>)
  have reg: "registry_ok (peer_registry w)" "book_of (peer_registry w) = listed (peers w)"
    using assms(1) by (simp_all add: peers_inv_def)
  have "registry_ok reg' \<and> book_of reg' = (listed (peers w))(eid := if peer_address p' = 0 then None else Some (peer_address p'))"
  proof (cases c)
    case (PeerAddress a)
    then have "upsert eid a (peer_registry w) = Ok reg'" "peer_address p' = a"
      using assms(3) by (auto simp: apply_peer_param_def step_iffs wire_options_def Let_def split: if_splits)
    then show ?thesis using upsert_Ok [OF reg(1)] reg(2) by auto
  qed (use assms(3) reg at in \<open>auto simp: apply_peer_param_def step_iffs fun_eq_iff Let_def\<close>)
  moreover have "listed ((peers w)(eid \<mapsto> p'\<lparr>pc_bump := b\<rparr>)) =
      (listed (peers w))(eid := if peer_address p' = 0 then None else Some (peer_address p'))"
    by (auto simp: listed_def fun_eq_iff)
  ultimately show ?thesis using assms(1) p' by (auto simp: peers_inv_def peer_ok_def)
qed

end
