(* ===== verification/Grs_Program.thy ===== *)
theory Grs_Program
  imports Grs_Peers
begin

text \<open>
  The entry points of the GRS program (\<open>#[program] mod grs\<close> of \<open>lib.rs\<close>) as one dispatch function
  over its state-changing instructions, and its invariants under each of them.
\<close>

section \<open>Entry points\<close>

datatype (plugins only: code size) gcall =
    MintGenesis pubkey pubkey
  | SetOFTConfig pubkey "pubkey list" SetOFTConfigParams
  | TransferOwnershipG pubkey pubkey
  | AcceptOwnershipG pubkey "pubkey list"
  | SetPeerConfig pubkey u32 PeerConfigParam
  | PatchLzReceiveTypes pubkey
  | SetPause pubkey bool
  | WithdrawFee pubkey pubkey u64
  | SaleG set_sale_accounts u64 pubkey u64 u64 pubkey
  | PublishSale pubkey "pubkey list" u32 u64 u64
  | Send pubkey pubkey "pubkey list" SendParams
  | Bridge pubkey pubkey "pubkey list" u32 bytes32 u64 u64
  | LzReceive lz_receive_accounts "pubkey list" LzReceiveParams
  | Buy buy_accounts u64 u64
  | Vest vest_accounts u64 pubkey u64 u64 u64 u64
  | Release release_accounts

definition drop_value :: "('a \<times> grs_world) gres \<Rightarrow> grs_world gres" where
  "drop_value x = and_then x (\<lambda>(_, w). Ok w)"

fun gdispatch :: "env \<Rightarrow> genv \<Rightarrow> gcall \<Rightarrow> grs_world \<Rightarrow> grs_world gres" where
  "gdispatch e g (MintGenesis admin to) w = execute_mint_genesis e g admin to w"
| "gdispatch e g (SetOFTConfig admin remaining params) w = execute_set_oft_config g admin remaining params w"
| "gdispatch e g (TransferOwnershipG admin new_owner) w = execute_transfer_ownership_grs admin new_owner w"
| "gdispatch e g (AcceptOwnershipG pending_owner remaining) w =
     execute_accept_ownership_grs g pending_owner remaining w"
| "gdispatch e g (SetPeerConfig admin remote_eid config) w = execute_set_peer_config e g admin remote_eid config w"
| "gdispatch e g (PatchLzReceiveTypes admin) w = execute_patch_lz_receive_types_accounts e g admin w"
| "gdispatch e g (SetPause signer paused) w = execute_set_pause signer paused w"
| "gdispatch e g (WithdrawFee admin token_dest fee_ld) w = execute_withdraw_fee g admin token_dest fee_ld w"
| "gdispatch e g (SaleG ac sid asset asset_amount grs_amount recipient) w =
     drop_value (execute_set_sale e g ac sid asset asset_amount grs_amount recipient w)"
| "gdispatch e g (PublishSale admin remaining dst_eid sid native_fee) w =
     drop_value (execute_publish_sale e g admin remaining dst_eid sid native_fee w)"
| "gdispatch e g (Send signer token_source remaining params) w =
     drop_value (execute_send e g signer token_source remaining params w)"
| "gdispatch e g (Bridge signer token_source remaining dst_eid to amount_ld native_fee) w =
     drop_value (execute_bridge e g signer token_source remaining dst_eid to amount_ld native_fee w)"
| "gdispatch e g (LzReceive ac remaining params) w = execute_lz_receive e g ac remaining params w"
| "gdispatch e g (Buy ac sid amount_ld) w = drop_value (execute_buy e g ac sid amount_ld w)"
| "gdispatch e g (Vest ac vid to amount_ld start cliff_seconds duration_seconds) w =
     execute_vest e g ac vid to amount_ld start cliff_seconds duration_seconds w"
| "gdispatch e g (Release ac) w = execute_release e g ac w"

lemma drop_value_Ok: "drop_value x = Ok w \<longleftrightarrow> (\<exists>r. x = Ok (r, w))"
  by (auto simp: drop_value_def step_iffs)

text \<open>
  The wallet whose tokens an instruction spends. The config account, which owns the two escrows,
  is derived from seeds and has no key pair, so it is none of them.
\<close>

fun gspender :: "gcall \<Rightarrow> pubkey option" where
  "gspender (SaleG ac _ _ _ _ _) = Some (ss_admin ac)"
| "gspender (Send signer _ _ _) = Some signer"
| "gspender (Bridge signer _ _ _ _ _ _) = Some signer"
| "gspender (Buy ac _ _) = Some (by_buyer ac)"
| "gspender (Vest ac _ _ _ _ _ _) = Some (va_funder ac)"
| "gspender _ = None"

text \<open>Instructions only the admin can sign.\<close>

fun admin_of :: "gcall \<Rightarrow> pubkey option" where
  "admin_of (MintGenesis admin _) = Some admin"
| "admin_of (SetOFTConfig admin _ _) = Some admin"
| "admin_of (TransferOwnershipG admin _) = Some admin"
| "admin_of (SetPeerConfig admin _ _) = Some admin"
| "admin_of (PatchLzReceiveTypes admin) = Some admin"
| "admin_of (WithdrawFee admin _ _) = Some admin"
| "admin_of (SaleG ac _ _ _ _ _) = Some (ss_admin ac)"
| "admin_of (PublishSale admin _ _ _ _) = Some admin"
| "admin_of _ = None"

section \<open>The books and their escrows\<close>

lemma execute_set_pause_quiet: "execute_set_pause s b w = Ok w' \<Longrightarrow> quiet_step g m w w'"
  by (auto simp: execute_set_pause_def step_iffs same_books_def intro!: quiet_books)

lemma gdispatch_inv:
  assumes G: "good_genv e g m" and inv: "grs_inv g m w" and s: "gspender i \<noteq> Some (config_key g)"
    and ok: "gdispatch e g i w = Ok w'"
  shows "grs_inv g m w'"
proof (cases i)
  case (MintGenesis admin to)
  then show ?thesis using ok execute_mint_genesis_quiet [OF G grs_invD(5) [OF inv]] quiet_step_inv [OF inv] by simp
next
  case (SetOFTConfig admin ks params)
  then show ?thesis using ok execute_set_oft_config_quiet [OF G] quiet_step_inv [OF inv] by simp
next
  case (TransferOwnershipG admin k)
  then show ?thesis
    using ok propose_admin_quiet quiet_step_inv [OF inv] by (auto simp: execute_transfer_ownership_grs_def step_iffs)
next
  case (AcceptOwnershipG k ks)
  then show ?thesis using ok execute_accept_ownership_quiet [OF G] quiet_step_inv [OF inv] by simp
next
  case (SetPeerConfig admin eid c)
  then show ?thesis using ok execute_set_peer_config_quiet [OF G] quiet_step_inv [OF inv] by simp
next
  case (PatchLzReceiveTypes admin)
  then show ?thesis using ok execute_patch_quiet [OF G] quiet_step_inv [OF inv] by simp
next
  case (SetPause k b)
  then show ?thesis using ok execute_set_pause_quiet quiet_step_inv [OF inv] by simp
next
  case (WithdrawFee admin dest fee)
  then show ?thesis using ok execute_withdraw_fee_quiet [OF G] quiet_step_inv [OF inv] by simp
next
  case (SaleG ac sid asset aa ga recipient)
  then show ?thesis using ok s execute_set_sale_inv [OF G inv] by (auto simp: drop_value_Ok)
next
  case (PublishSale admin ks dst sid fee)
  then show ?thesis using ok execute_publish_sale_inv [OF G inv] by (auto simp: drop_value_Ok)
next
  case (Send signer src ks params)
  then show ?thesis using ok s execute_send_quiet [OF G] quiet_step_inv [OF inv] by (auto simp: drop_value_Ok)
next
  case (Bridge signer src ks dst to amt fee)
  then show ?thesis
    using ok s execute_send_quiet [OF G] quiet_step_inv [OF inv] by (auto simp: drop_value_Ok execute_bridge_def)
next
  case (LzReceive ac ks params)
  then show ?thesis using ok execute_lz_receive_inv [OF G inv] by simp
next
  case (Buy ac sid n)
  then show ?thesis using ok s execute_buy_inv [OF G inv] by (auto simp: drop_value_Ok)
next
  case (Vest ac vid to amt start c d)
  then show ?thesis using ok s execute_vest_inv [OF G inv] by simp
next
  case (Release ac)
  then show ?thesis using ok execute_release_inv [OF G inv] by simp
qed

section \<open>Authority\<close>

text \<open>What only the admin decides: who the admin is, the fees, the peers' addresses, the roles.\<close>

lemma admin_only:
  assumes "gdispatch e g i w = Ok w'" "admin_of i = Some k"
  shows "os_admin (oft_store w) = k"
  using assms
  by (cases i)
    (auto simp: drop_value_Ok execute_mint_genesis_def execute_set_oft_config_def execute_transfer_ownership_grs_def
      execute_set_peer_config_def execute_patch_lz_receive_types_accounts_def execute_withdraw_fee_def
      execute_set_sale_def accounts_SetSale_def Let_def step_iffs ginvoke_Ok
      split: option.splits elim!: execute_publish_sale_Ok)

section \<open>The peers\<close>

named_theorems peers_kept "operations that keep the peers, the registry and the default fee"

declare ginvoke_same_peers [peers_kept]

lemma same_peers_refl [simp]: "same_peers w w"
  by (simp add: same_peers_def)

lemma token_init_peers [peers_kept]: "token_init_if_needed e a b c d w = Ok w' \<Longrightarrow> same_peers w w'"
  by (auto simp: token_init_if_needed_def Let_def step_iffs ginvoke_Ok same_peers_def split: option.splits if_splits)

lemma endpoint_send_as_peers [peers_kept]:
  assumes "endpoint_send_as g ks p w = Ok (r, w')"
  shows "same_peers w w'"
proof -
  obtain l where "w' = w\<lparr>gledger := l\<rparr>" using assms by (auto simp: endpoint_send_as_def step_iffs)
  then show ?thesis by (simp add: same_peers_def)
qed

lemma lock_or_burn_peers [peers_kept]:
  assumes "lock_or_burn e g a b mi x y z w = Ok w'"
  shows "same_peers w w'"
proof (cases "oft_type (oft_store w) = Adapter")
  case True
  then show ?thesis using assms by (auto simp: lock_or_burn_def step_iffs ginvoke_Ok same_peers_def)
next
  case False
  then show ?thesis
    using assms by (cases "0 < z") (auto simp: lock_or_burn_def step_iffs ginvoke_Ok same_peers_def)
qed

lemma propose_admin_peers [peers_kept]: "propose_admin k w = Ok w' \<Longrightarrow> same_peers w w'"
  by (auto simp: propose_admin_def Let_def step_iffs ginvoke_Ok same_peers_def split: option.splits if_splits)

lemma set_delegate_peers [peers_kept]: "set_delegate g ks k w = Ok w' \<Longrightarrow> same_peers w w'"
  by (auto simp: set_delegate_def Let_def step_iffs ginvoke_Ok same_peers_def split: option.splits if_splits)

lemma execute_set_pause_peers [peers_kept]: "execute_set_pause k paused w = Ok w' \<Longrightarrow> same_peers w w'"
  by (auto simp: execute_set_pause_def Let_def step_iffs ginvoke_Ok same_peers_def split: option.splits if_splits)

lemma burn_lot_peers [peers_kept]: "burn_lot e g s w = Ok w' \<Longrightarrow> same_peers w w'"
  by (auto simp: burn_lot_def Let_def step_iffs ginvoke_Ok same_peers_def split: option.splits if_splits)

lemma pay_quote_peers [peers_kept]: "pay_quote e g ba asset payee cost w = Ok w' \<Longrightarrow> same_peers w w'"
  by (auto simp: pay_quote_def Let_def step_iffs ginvoke_Ok same_peers_def split: option.splits if_splits)

lemma reserve_lot_peers [peers_kept]: "reserve_lot g sa src mi amount ga w = Ok w' \<Longrightarrow> same_peers w w'"
  by (auto simp: reserve_lot_def Let_def step_iffs ginvoke_Ok same_peers_def split: option.splits if_splits)

lemma execute_mint_genesis_peers [peers_kept]: "execute_mint_genesis e g k to w = Ok w' \<Longrightarrow> same_peers w w'"
  by (auto simp: execute_mint_genesis_def step_iffs ginvoke_Ok same_peers_def)

lemma execute_accept_ownership_peers:
  "execute_accept_ownership_grs g k ks w = Ok w' \<Longrightarrow> peers_inv own w \<Longrightarrow>
   peers_inv k w' \<and> k = os_pending_owner (oft_store w)"
  by (auto simp: execute_accept_ownership_grs_def set_delegate_def Let_def step_iffs ginvoke_Ok peers_inv_def split: if_splits)

lemma execute_patch_peers [peers_kept]: "execute_patch_lz_receive_types_accounts e g k w = Ok w' \<Longrightarrow> same_peers w w'"
  unfolding execute_patch_lz_receive_types_accounts_def Let_def
  by (elim steps_OkE) (auto simp: step_iffs ginvoke_Ok same_peers_def split: if_splits)

lemma execute_withdraw_fee_peers [peers_kept]: "execute_withdraw_fee g k dest fee w = Ok w' \<Longrightarrow> same_peers w w'"
  by (auto simp: execute_withdraw_fee_def step_iffs ginvoke_Ok same_peers_def)

lemma execute_set_sale_peers [peers_kept]:
  assumes "execute_set_sale e g ac sid asset aa ga recipient w = Ok (r, w')"
  shows "same_peers w w'"
proof -
  obtain src mi w1 where 1: "accounts_SetSale e g ac w = Ok (src, mi, w1)"
    and 2: "(\<exists>sid. sale_append e g ac src mi sid asset aa ga recipient w1 = Ok (r, w')) \<or> sale_close g ac sid w1 = Ok (r, w')"
    using assms by (auto simp: execute_set_sale_def Let_def step_iffs split: if_splits)
  have "same_peers w w1"
    using 1 by (auto simp: accounts_SetSale_def step_iffs intro: token_init_peers)
  moreover have "same_peers w1 w'"
    using 2
  proof (elim disjE exE)
    fix sid assume "sale_append e g ac src mi sid asset aa ga recipient w1 = Ok (r, w')"
    then obtain l w2 a where "reserve_lot g ac src mi (escrow_amount (sale_escrow_key g) w1) ga (w1\<lparr>gledger := l\<rparr>) = Ok w2"
      "w' = w2\<lparr>sales := (sales w2)(sid \<mapsto> a), sale_registry := (sale_registry w2)\<lparr>sale_count := sid\<rparr>\<rparr>"
      unfolding sale_append_def Let_def by (auto simp: step_iffs ginvoke_Ok)
    then show ?thesis using reserve_lot_peers by (fastforce simp: same_peers_def)
  next
    assume "sale_close g ac sid w1 = Ok (r, w')"
    then show ?thesis unfolding sale_close_def Let_def
      by (cases "0 < sa_grs_amount (the (sales w1 sid))") (auto simp: step_iffs same_peers_def)
  qed
  ultimately show ?thesis by (rule same_peers_trans)
qed

lemma execute_publish_sale_peers [peers_kept]:
  assumes "execute_publish_sale e g admin ks dst sid fee w = Ok (r, w')"
  shows "same_peers w w'"
  using assms
  by (rule execute_publish_sale_Ok) (auto simp: same_peers_def dest!: burn_lot_peers endpoint_send_as_peers split: if_splits)

lemma execute_buy_peers [peers_kept]:
  assumes "execute_buy e g ac sid n w = Ok (cost, w')"
  shows "same_peers w w'"
  using assms
proof (rule execute_buy_Ok)
  fix a mi and w1 w2 :: grs_world and spent
  assume 1: "accounts_Buy e g ac sid w = Ok (a, mi, w1)"
    and 2: "ginvoke (transfer_checked g (sale_escrow_key g) (token_mint w1) (ata e (by_to ac) (token_mint w1))
       (config_key g) n (mi_decimals mi))
     (w1\<lparr>grs_config := (grs_config w1)\<lparr>token_sales_spent := spent, sales_reserved := sales_reserved (grs_config w1) - n\<rparr>,
         sales := (sales w1)(sid \<mapsto> a\<lparr>sa_grs_amount := sa_grs_amount a - n, sa_asset_amount := sa_asset_amount a - cost\<rparr>)\<rparr>) = Ok w2"
    and 3: "pay_quote e g ac (sa_asset a) (by_payee ac) cost w2 = Ok w'"
  have "same_peers w w1" using 1 by (auto simp: accounts_Buy_def step_iffs intro: token_init_peers)
  moreover have "same_peers w1 w2" using ginvoke_same_peers [OF 2] by (simp add: same_peers_def)
  moreover have "same_peers w2 w'" using 3 by (rule pay_quote_peers)
  ultimately show ?thesis by (blast intro: same_peers_trans)
qed

lemma execute_vest_peers [peers_kept]: "execute_vest e g ac vid to amt start c d w = Ok w' \<Longrightarrow> same_peers w w'"
  by (erule execute_vest_Ok) (auto simp: accounts_Vest_def step_iffs ginvoke_Ok same_peers_def dest!: token_init_peers)

lemma execute_release_peers [peers_kept]: "execute_release e g ac w = Ok w' \<Longrightarrow> same_peers w w'"
  by (erule execute_release_Ok) (auto simp: accounts_Release_def step_iffs same_peers_def dest!: token_init_peers)

text \<open>A message consumes the limiters of its peer, and nothing else of the peers.\<close>

lemma credit_peers: "credit e g ac mi dest amt w = Ok w' \<Longrightarrow> same_peers w w'"
  by (auto simp: credit_def step_iffs ginvoke_Ok same_peers_def split: if_splits option.splits)

lemma settle_lot_peers:
  "settle_lot e g ac mi previous known ga w = Ok w' \<Longrightarrow> same_peers w w'"
  by (auto simp: settle_lot_def credit_sale_escrow_def reserve_sales_def release_sales_def debit_sale_escrow_def
      step_iffs ginvoke_Ok same_peers_def dest!: credit_peers split: if_splits)

lemma receive_sale_peers:
  assumes "receive_sale e g ac mi msg w = Ok w'"
  shows "same_peers w w'"
  using assms
  by (rule receive_sale_Ok)
    (auto simp: upsert_sale_account_def step_iffs ginvoke_Ok same_peers_def dest!: settle_lot_peers split: option.splits if_splits)

lemma receive_grant_peers:
  assumes "receive_grant e g ac mi msg w = Ok w'"
  shows "same_peers w w'"
  using assms
  by (rule receive_grant_Ok)
    (auto simp: init_grant_vesting_def ensure_vest_escrow_def credit_vest_escrow_def step_iffs ginvoke_Ok same_peers_def
      dest!: credit_peers split: if_splits)

text \<open>A transfer, out or in, consumes from one limiter of the peer and refills the other.\<close>

lemma execute_send_peers:
  assumes inv: "peers_inv own w" and ok: "execute_send e g signer src ks params w = Ok (r, w')"
  shows "peers_inv own w'"
proof -
  obtain peer peer' n x y z mi w1 where p: "peers w (sd_dst_eid params) = Some peer"
    and l: "limit_outbound (unix_timestamp e) n peer = Ok peer'"
    and 1: "lock_or_burn e g signer src mi x y z (w\<lparr>peers := (peers w)(sd_dst_eid params \<mapsto> peer')\<rparr>) = Ok w1"
    and 2: "\<exists>p r'. endpoint_send_as g ks p w1 = Ok (r', w')"
    using ok unfolding execute_send_def Let_def load_peer_def by (elim steps_OkE) (simp add: step_iffs, blast)
  have "peers_inv own (w\<lparr>peers := (peers w)(sd_dst_eid params \<mapsto> peer')\<rparr>)"
    using limit_Ok(1) [OF l] by (intro peer_row_inv [OF inv p]) simp_all
  then show ?thesis
    using same_peers_inv [OF lock_or_burn_peers [OF 1]] 2 same_peers_inv [OF endpoint_send_as_peers] by blast
qed

lemma receive_transfer_peers:
  assumes inv: "peers_inv own w" and p: "peers w (rp_src_eid params) = Some peer"
    and ok: "receive_transfer e g ac ks params peer mi w = Ok w'"
  shows "peers_inv own w'"
proof -
  obtain peer' n k w1 got where l: "limit_inbound (unix_timestamp e) n peer = Ok peer'"
    and c: "credit e g ac mi k n (w\<lparr>peers := (peers w)(rp_src_eid params \<mapsto> peer')\<rparr>) = Ok w1"
    and call: "(case compose_msg (keccak g) (rp_message params) of
        Some msg \<Rightarrow>
          ginvoke (endpoint_send_compose g (endpoint_program (oft_store w1)) (store_key g)
            (drop (clear_min_accounts_len g) ks)
            \<lparr> cp_to = lr_to_address ac, cp_guid = rp_guid params, cp_index = 0,
              cp_message = compose_encode (rp_nonce params) (rp_src_eid params) got msg \<rparr>) w1
      | None \<Rightarrow> Ok w1) = Ok w'"
    using ok unfolding receive_transfer_def Let_def by (elim steps_OkE) blast
  have "peers_inv own (w\<lparr>peers := (peers w)(rp_src_eid params \<mapsto> peer')\<rparr>)"
    using limit_Ok(2) [OF l] by (intro peer_row_inv [OF inv p]) simp_all
  then have "peers_inv own w1" using same_peers_inv [OF credit_peers [OF c]] by blast
  moreover have "same_peers w1 w'"
    using call by (cases "compose_msg (keccak g) (rp_message params)") (auto dest: ginvoke_same_peers)
  ultimately show ?thesis using same_peers_inv by blast
qed

lemma execute_lz_receive_peers:
  assumes inv: "peers_inv own w" and ok: "execute_lz_receive e g ac ks params w = Ok w'"
  shows "peers_inv own w'"
  using ok
proof (rule execute_lz_receive_Ok)
  fix peer mi and w1 :: grs_world and l
  let ?w = "w1\<lparr>gledger := l\<rparr>"
  assume 1: "accounts_LzReceive e g ac params w = Ok (peer, mi, w1)"
    and r: "(if is_sale (keccak g) (rp_message params) then receive_sale e g ac mi (rp_message params) ?w
      else if is_grant (keccak g) (rp_message params) then receive_grant e g ac mi (rp_message params) ?w
      else receive_transfer e g ac ks params peer mi ?w) = Ok w'"
  obtain wa where a: "token_init_if_needed e (lr_payer ac) (sale_escrow_key g) (token_mint w) (config_key g) w = Ok wa"
    "token_init_if_needed e (lr_payer ac) (ata e (lr_to_address ac) (token_mint wa)) (token_mint wa) (lr_to_address ac) wa = Ok w1"
    and p: "peers w (rp_src_eid params) = Some peer"
    using 1 by (auto simp: accounts_LzReceive_def step_iffs load_peer_def)
  have s: "same_peers w ?w"
    using same_peers_trans [OF token_init_peers [OF a(1)] token_init_peers [OF a(2)]] by (simp add: same_peers_def)
  then have inv2: "peers_inv own ?w" using inv by (rule same_peers_inv)
  have p2: "peers ?w (rp_src_eid params) = Some peer" using s p by (simp add: same_peers_def)
  consider "receive_sale e g ac mi (rp_message params) ?w = Ok w'" | "receive_grant e g ac mi (rp_message params) ?w = Ok w'"
    | "receive_transfer e g ac ks params peer mi ?w = Ok w'"
    using r by (auto split: if_splits)
  then show "peers_inv own w'"
  proof cases
    case 1
    then show ?thesis by (rule same_peers_inv [OF receive_sale_peers inv2])
  next
    case 2
    then show ?thesis by (rule same_peers_inv [OF receive_grant_peers inv2])
  next
    case 3
    then show ?thesis by (rule receive_transfer_peers [OF inv2 p2])
  qed
qed

lemma execute_set_oft_config_peers:
  assumes "peers_inv own w" "execute_set_oft_config g admin ks params w = Ok w'"
  shows "peers_inv own w'"
proof (cases params)
  case (Admin k)
  then have "propose_admin k w = Ok w'" using assms(2) by (auto simp: execute_set_oft_config_def step_iffs)
  then show ?thesis by (rule same_peers_inv [OF propose_admin_peers assms(1)])
next
  case (Delegate k)
  then have "set_delegate g ks k w = Ok w'" using assms(2) by (auto simp: execute_set_oft_config_def step_iffs)
  then show ?thesis by (rule same_peers_inv [OF set_delegate_peers assms(1)])
qed (use assms in \<open>auto simp: execute_set_oft_config_def step_iffs peers_inv_def\<close>)

lemma execute_set_peer_config_peers:
  assumes inv: "peers_inv own w" and ok: "execute_set_peer_config e g admin eid c w = Ok w'"
  shows "peers_inv own w'"
proof -
  obtain p w1 p' reg where c: "(case peers w eid of Some p \<Rightarrow> Ok (p, w)
       | None \<Rightarrow> and_then (ginvoke (anchor_init e admin (gpda g (PeerSeed eid)) PeerConfig_SPACE) w)
                           (\<lambda>w. Ok (default_peer, w))) = Ok (p, w1)"
    and a: "apply_peer_param e g eid c p (peer_registry w1) = Ok (p', reg)"
    and w'': "Ok (w1\<lparr>peers := (peers w1)(eid \<mapsto> p'\<lparr>pc_bump := gpda_bump g (PeerSeed eid)\<rparr>), peer_registry := reg\<rparr>) = (Ok w' :: _ gres)"
    using ok unfolding execute_set_peer_config_def by (elim steps_OkE) blast
  have 1: "peers w eid = Some p \<and> w1 = w \<or> peers w eid = None \<and> p = default_peer \<and> same_peers w w1"
    using c ginvoke_same_peers by (auto simp: step_iffs split: option.splits)
  have w': "w' = w1\<lparr>peers := (peers w1)(eid \<mapsto> p'\<lparr>pc_bump := gpda_bump g (PeerSeed eid)\<rparr>), peer_registry := reg\<rparr>"
    using w'' by simp
  have "same_peers w w1" using 1 by auto
  then have "peers_inv own w1" "peers w1 eid = Some p \<or> peers w1 eid = None \<and> p = default_peer"
    using inv same_peers_inv 1 by (auto simp: same_peers_def)
  then show ?thesis using apply_peer_param_Ok a by (simp add: w')
qed

lemma gdispatch_peers:
  assumes inv: "peers_inv own w" and ok: "gdispatch e g i w = Ok w'"
  shows "peers_inv own w' \<or> (\<exists>k ks. i = AcceptOwnershipG k ks \<and> k = os_pending_owner (oft_store w) \<and> peers_inv k w')"
proof (cases i)
  case (AcceptOwnershipG k ks)
  then show ?thesis using ok execute_accept_ownership_peers [OF _ inv] by auto
next
  case (SetOFTConfig admin ks params)
  then show ?thesis using ok execute_set_oft_config_peers [OF inv] by simp
next
  case (TransferOwnershipG admin k)
  then show ?thesis
    using ok same_peers_inv [OF propose_admin_peers inv] by (auto simp: execute_transfer_ownership_grs_def step_iffs)
next
  case (SetPeerConfig admin eid c)
  then show ?thesis using ok execute_set_peer_config_peers [OF inv] by simp
next
  case (Send signer src ks params)
  then show ?thesis using ok execute_send_peers [OF inv] by (auto simp: drop_value_Ok)
next
  case (Bridge signer src ks dst to amt fee)
  then show ?thesis using ok execute_send_peers [OF inv] by (auto simp: drop_value_Ok execute_bridge_def)
next
  case (LzReceive ac ks params)
  then show ?thesis using ok execute_lz_receive_peers [OF inv] by simp
qed (use ok same_peers_inv [OF _ inv] in \<open>auto simp: drop_value_Ok dest: peers_kept\<close>)

end
