(* ===== verification/Grs_Runs.thy ===== *)
theory Grs_Runs
  imports Grs_Program
begin

text \<open>
  Runs of the GRS program on one OFT store: \<open>init\<close>, then any interleaving of its instructions -
  each under its own clock and behaviour of the called programs - with the transactions of other
  programs, which cannot spend from the store's escrows or mint above the cap. Every state of a
  run has the invariants of \<open>Grs_Books\<close> and \<open>Grs_Peers\<close>.
\<close>

section \<open>Initialisation\<close>

definition escrows_unused :: "genv \<Rightarrow> ledger \<Rightarrow> bool" where
  "escrows_unused g l \<longleftrightarrow> token_accounts l (sale_escrow_key g) = None \<and> token_accounts l (vest_escrow_key g) = None"

lemma accounts_Init_Ok:
  assumes G: "good_genv e g m" and ok: "accounts_Init e g ac params l = Ok (mi, l')" and m: "in_token_mint ac = m"
  shows "moves g m 0 0 l l'" "mints l' = mints l" "mints l m = Some mi"
proof -
  obtain l1 l2 l3 l4 l5 l6 where
      1: "spl_init_account e (in_payer ac) (token_escrow_key g) m (store_key g) l = Some l1"
      and 2: "anchor_init e (in_payer ac) (store_key g) OFTStore_SPACE l1 = Some l2"
      and 3: "anchor_init e (in_payer ac) (gpda g LzReceiveTypesSeed) LzReceiveTypesAccounts_SPACE l2 = Some l3"
      and 4: "anchor_init e (in_payer ac) (config_key g) GrsConfig_SPACE l3 = Some l4"
      and 5: "anchor_init e (in_payer ac) (gpda g PeerRegistrySeed) PeerRegistry_SPACE l4 = Some l5"
      and 6: "anchor_init e (in_payer ac) (gpda g SaleRegistrySeed) SaleRegistry_SPACE l5 = Some l6"
      and 70: "(if in_peer ac
               then cpi (anchor_init e (in_payer ac) (gpda g (PeerSeed (ip_home_eid params))) PeerConfig_SPACE l6)
               else Ok l6) = (Ok l' :: _ gres)"
    using ok m unfolding accounts_Init_def by (auto simp: step_iffs split del: if_split)
  have 7: "l' = l6 \<or> (\<exists>k s. anchor_init e (in_payer ac) k s l6 = Some l')"
    using 70 by (auto simp: step_iffs split: if_splits)
  note A = moves_system(4) [OF G]
  have k: "shift m (config_key g) (gpda g s) 0 l l1" if "s \<noteq> OftEscrowSeed" for s
    by (rule init_shift [OF good_genvD(1) [OF G] 1]) (use that in \<open>simp add: good_genvD(5) [OF G]\<close>)
  have m1: "mints l1 = mints l" by (rule init_lawD(2) [OF good_genvD(1) [OF G] 1])
  have "moves g m 0 0 l l1" using k m1 by (simp add: moves_def capped_cong)
  moreover have "moves g m 0 0 l1 l6 \<and> mints l6 = mints l1"
    using A [OF 2] A [OF 3] A [OF 4] A [OF 5] A [OF 6] by (auto simp: supply_of_def intro!: moves_frame)
  moreover have "moves g m 0 0 l6 l' \<and> mints l' = mints l6" using 7 A by auto
  ultimately show "moves g m 0 0 l l'" "mints l' = mints l" using m1 by (auto intro: moves_then)
  show "mints l m = Some mi" using ok m by (auto simp: accounts_Init_def step_iffs)
qed

text \<open>The world right after \<open>init\<close>: a fresh store, possibly with its home as the one peer.\<close>

definition home_peer :: "genv \<Rightarrow> InitParams \<Rightarrow> PeerConfig" where
  "home_peer g params = wire_options (default_peer\<lparr>peer_address := ip_home_address params,
     pc_bump := gpda_bump g (PeerSeed (ip_home_eid params))\<rparr>)"

lemma execute_init_Ok:
  assumes "execute_init e g ac ks params l = Ok w"
  obtains mi l1 rate w1 w2 where "accounts_Init e g ac params l = Ok (mi, l1)" "rate = GRS_LD2SD_RATE"
    "(if ks = [] then Ok (fresh_world g ac params rate l1)
      else ginvoke (endpoint_register_oapp g (endpoint_program (oft_store (fresh_world g ac params rate l1))) (store_key g) ks
                      (in_payer ac)) (fresh_world g ac params rate l1)) = Ok w1"
    "init_metadata g mi w1 = Ok w2"
    "ip_home_address params = default_pubkey \<and> ip_home_eid params = 0 \<and>
       w = w2\<lparr>grs_config := (grs_config w2)\<lparr>home_address := store_key g\<rparr>\<rparr> \<or>
     ip_home_address params \<noteq> default_pubkey \<and> ip_home_eid params \<noteq> 0 \<and>
       (\<exists>reg. upsert (ip_home_eid params) (ip_home_address params) (peer_registry w2) = Ok reg \<and>
          handoff_spoke_mint g mi (w2\<lparr>peers := (peers w2)(ip_home_eid params \<mapsto> home_peer g params), peer_registry := reg,
            grs_config := (grs_config w2)\<lparr>home_address := ip_home_address params\<rparr>\<rparr>) = Ok w)"
proof -
  obtain mi l1 where a: "accounts_Init e g ac params l = Ok (mi, l1)"
    using assms by (auto simp: execute_init_def step_iffs)
  define rate where "rate = (10 :: u64) ^ unat (mi_decimals mi - ip_shared_decimals params)"
  let ?w = "fresh_world g ac params rate l1"
  obtain w1 w2 where r: "rate = GRS_LD2SD_RATE"
    and 1: "(if ks = [] then Ok ?w
      else ginvoke (endpoint_register_oapp g (endpoint_program (oft_store ?w)) (store_key g) ks (in_payer ac)) ?w) = Ok w1"
    and 2: "init_metadata g mi w1 = Ok w2"
    and 3: "(if ip_home_address params = default_pubkey
     then and_then (require (ip_home_eid params = 0) InvalidRecipient) (\<lambda>_.
          and_then (require (\<not> in_peer ac) InvalidRecipient) (\<lambda>_.
          Ok (w2\<lparr>grs_config := (grs_config w2)\<lparr>home_address := store_key g\<rparr>\<rparr>)))
     else and_then (require (ip_home_eid params \<noteq> 0) InvalidRecipient) (\<lambda>_.
          and_then (require (in_peer ac) InvalidRecipient) (\<lambda>_.
          and_then (upsert (ip_home_eid params) (ip_home_address params) (peer_registry w2)) (\<lambda>reg.
          handoff_spoke_mint g mi (w2\<lparr>peers := (peers w2)(ip_home_eid params \<mapsto> home_peer g params), peer_registry := reg,
            grs_config := (grs_config w2)\<lparr>home_address := ip_home_address params\<rparr>\<rparr>))))) = Ok w"
    using assms unfolding execute_init_def Let_def a rate_def [symmetric] home_peer_def [symmetric] prod.case and_then_simps
    by (elim steps_OkE, intro that) (simp only: require_Ok_iff, assumption+)
  show thesis
    by (rule that [OF a r 1 2]) (use 3 in \<open>auto simp: step_iffs split: if_splits\<close>)
qed

lemma init_inv:
  assumes G: "good_genv e g m" and m: "in_token_mint ac = m" and un: "escrows_unused g l"
    and cap: "supply_of l m \<le> unat GRS_MAX_SUPPLY_LD" and ok: "execute_init e g ac ks params l = Ok w"
  shows "grs_inv g m w" "peers_inv (os_admin (oft_store w)) w"
proof -
  have "grs_inv g m w \<and> peers_inv (os_admin (oft_store w)) w"
    using ok
  proof (rule execute_init_Ok)
    fix mi l1 rate w1 w2
    let ?w = "fresh_world g ac params rate l1"
    assume a: "accounts_Init e g ac params l = Ok (mi, l1)" and r: "rate = GRS_LD2SD_RATE"
      and 1: "(if ks = [] then Ok ?w
      else ginvoke (endpoint_register_oapp g (endpoint_program (oft_store ?w)) (store_key g) ks (in_payer ac)) ?w) = Ok w1"
      and 2: "init_metadata g mi w1 = Ok w2"
      and 3: "ip_home_address params = default_pubkey \<and> ip_home_eid params = 0 \<and>
         w = w2\<lparr>grs_config := (grs_config w2)\<lparr>home_address := store_key g\<rparr>\<rparr> \<or>
       ip_home_address params \<noteq> default_pubkey \<and> ip_home_eid params \<noteq> 0 \<and>
         (\<exists>reg. upsert (ip_home_eid params) (ip_home_address params) (peer_registry w2) = Ok reg \<and>
            handoff_spoke_mint g mi (w2\<lparr>peers := (peers w2)(ip_home_eid params \<mapsto> home_peer g params), peer_registry := reg,
              grs_config := (grs_config w2)\<lparr>home_address := ip_home_address params\<rparr>\<rparr>) = Ok w)"
    note A = accounts_Init_Ok [OF G a m]
    have w1: "w1 = ?w\<lparr>gledger := gledger w1\<rparr>" "moves g m 0 0 l1 (gledger w1)"
      using 1 moves_endpoint(5) [OF G] by (auto simp: ginvoke_Ok fresh_world_def split: if_splits)
    have w2: "w2 = w1\<lparr>gledger := gledger w2\<rparr>" "moves g m 0 0 (gledger w1) (gledger w2)"
      using 2 moves_authority(2) [OF G]
      by (auto simp: init_metadata_def ginvoke_Ok split: option.splits if_splits)
    have w2': "w2 = ?w\<lparr>gledger := gledger w2\<rparr>" using w1(1) w2(1) by (metis (no_types) grs_world.update_convs(9) grs_world.surjective)
    have mv: "moves g m 0 0 l (gledger w2)" using A(1) w1(2) w2(2) by (blast intro: moves_then)
    obtain ps reg addr where
        s: "\<exists>l'. w = w2\<lparr>peers := ps, peer_registry := reg, grs_config := (grs_config w2)\<lparr>home_address := addr\<rparr>, gledger := l'\<rparr> \<and>
          moves g m 0 0 (gledger w2) l'"
        and p: "ps = Map.empty \<and> reg = peer_registry w2 \<or>
          ip_home_address params \<noteq> 0 \<and> ps = [ip_home_eid params \<mapsto> home_peer g params] \<and>
          upsert (ip_home_eid params) (ip_home_address params) (peer_registry w2) = Ok reg"
      using 3
    proof (elim disjE exE conjE)
      assume "w = w2\<lparr>grs_config := (grs_config w2)\<lparr>home_address := store_key g\<rparr>\<rparr>"
      moreover have "peers w2 = Map.empty" by (subst w2') (simp add: fresh_world_def)
      ultimately show thesis
        by (intro that [where ps = Map.empty and reg = "peer_registry w2" and addr = "store_key g"]
            exI [of _ "gledger w2"]) simp_all
    next
      fix reg
      assume h: "ip_home_address params \<noteq> default_pubkey"
        and u: "upsert (ip_home_eid params) (ip_home_address params) (peer_registry w2) = Ok reg"
        and hand: "handoff_spoke_mint g mi (w2\<lparr>peers := (peers w2)(ip_home_eid params \<mapsto> home_peer g params), peer_registry := reg,
              grs_config := (grs_config w2)\<lparr>home_address := ip_home_address params\<rparr>\<rparr>) = Ok w"
      have e: "peers w2 = Map.empty" by (subst w2') (simp add: fresh_world_def)
      have "\<exists>l'. w = w2\<lparr>peers := [ip_home_eid params \<mapsto> home_peer g params], peer_registry := reg,
          grs_config := (grs_config w2)\<lparr>home_address := ip_home_address params\<rparr>, gledger := l'\<rparr> \<and> moves g m 0 0 (gledger w2) l'"
      proof (cases "mi_authority mi = Some (store_key g)")
        case True
        then show ?thesis using hand by (intro exI [of _ "gledger w2"]) (auto simp: handoff_spoke_mint_def e)
      next
        case False
        then show ?thesis
          using hand moves_authority(1) [OF G] by (auto simp: handoff_spoke_mint_def e ginvoke_Ok split: if_splits)
      qed
      then show thesis using that h u by blast
    qed
    obtain l' where w: "w = ?w\<lparr>peers := ps, peer_registry := reg, grs_config := (grs_config ?w)\<lparr>home_address := addr\<rparr>, gledger := l'\<rparr>"
      and mv': "moves g m 0 0 l l'"
    proof -
      obtain l' where l: "w = w2\<lparr>peers := ps, peer_registry := reg, grs_config := (grs_config w2)\<lparr>home_address := addr\<rparr>, gledger := l'\<rparr>"
        "moves g m 0 0 (gledger w2) l'" using s by blast
      have "w = ?w\<lparr>peers := ps, peer_registry := reg, grs_config := (grs_config ?w)\<lparr>home_address := addr\<rparr>, gledger := l'\<rparr>"
        unfolding l(1) by (subst (1 2) w2') simp
      then show thesis using that moves_then [OF mv l(2)] by blast
    qed
    have reg0: "peer_registry w2 = \<lparr> pr_oft_store = store_key g, pr_bump = gpda_bump g PeerRegistrySeed, entries = [] \<rparr>"
      by (subst w2') (simp add: fresh_world_def)
    then have ok0: "registry_ok (peer_registry w2)" "book_of (peer_registry w2) = Map.empty"
      by (simp_all add: registry_ok_def book_of_def)
    have reg: "registry_ok reg \<and> book_of reg = listed ps \<and> pr_oft_store reg = store_key g"
      using p
    proof (elim disjE conjE)
      assume "ps = Map.empty" "reg = peer_registry w2"
      then show ?thesis using ok0 by (simp add: reg0 listed_def fun_eq_iff)
    next
      assume q: "ip_home_address params \<noteq> 0" "ps = [ip_home_eid params \<mapsto> home_peer g params]"
        "upsert (ip_home_eid params) (ip_home_address params) (peer_registry w2) = Ok reg"
      have "peer_address (home_peer g params) = ip_home_address params" by (simp add: home_peer_def wire_options_def)
      then show ?thesis using upsert_Ok [OF ok0(1) q(3)] q(1,2) by (auto simp: ok0(2) listed_def fun_eq_iff reg0 book_of_def)
    qed
    have "sales_inv g w" by (simp add: w sales_inv_def fresh_world_def)
    moreover have "vests_inv g w" by (auto simp: w vests_inv_def outstanding_def fresh_world_def)
    moreover have "stores_inv g m w" using reg by (simp add: w stores_inv_def fresh_world_def r m)
    moreover have "backed g m w"
    proof -
      have h: "held m (config_key g) (sale_escrow_key g) l" "held m (config_key g) (vest_escrow_key g) l"
        using un by (simp_all add: escrows_unused_def held_def)
      have "held m (config_key g) (sale_escrow_key g) l'" "held m (config_key g) (vest_escrow_key g) l'"
        "supply_of l' m \<le> unat GRS_MAX_SUPPLY_LD"
        using mv' h cap by (auto simp: moves_def shift_def capped_def)
      then show ?thesis by (simp add: w backed_def outstanding_def fresh_world_def)
    qed
    moreover have "peers_inv (os_admin (oft_store w)) w"
      using reg p by (auto simp: w peers_inv_def fresh_world_def peer_ok_def fee_ok_def home_peer_def wire_options_def
          default_peer_def MAX_FEE_BASIS_POINTS_def split: if_splits)
    ultimately show ?thesis by (simp add: grs_inv_def)
  qed
  then show "grs_inv g m w" "peers_inv (os_admin (oft_store w)) w" by blast+
qed

section \<open>Runs\<close>

definition same_gaddresses :: "genv \<Rightarrow> genv \<Rightarrow> bool" where
  "same_gaddresses g g' \<longleftrightarrow> gpda g' = gpda g \<and> gpda_bump g' = gpda_bump g \<and> keccak g' = keccak g"

inductive grs_run :: "genv \<Rightarrow> pubkey \<Rightarrow> grs_world \<Rightarrow> bool" for g m where
  init: "good_genv e g' m \<Longrightarrow> same_gaddresses g g' \<Longrightarrow> in_token_mint ac = m \<Longrightarrow> escrows_unused g l \<Longrightarrow>
     supply_of l m \<le> unat GRS_MAX_SUPPLY_LD \<Longrightarrow> execute_init e g' ac ks params l = Ok w \<Longrightarrow> grs_run g m w"
| call: "grs_run g m w \<Longrightarrow> good_genv e g' m \<Longrightarrow> same_gaddresses g g' \<Longrightarrow>
     gspender i \<noteq> Some (config_key g) \<Longrightarrow> gdispatch e g' i w = Ok w' \<Longrightarrow> grs_run g m w'"
| others: "grs_run g m w \<Longrightarrow> moves g m 0 0 (gledger w) l \<Longrightarrow> grs_run g m (w\<lparr>gledger := l\<rparr>)"

inductive_cases grs_runE: "grs_run g m w"

text \<open>The invariant reads nothing of the environment but the addresses.\<close>

lemma grs_inv_addresses: "same_gaddresses g g' \<Longrightarrow> grs_inv g' m w = grs_inv g m w"
  by (simp add: same_gaddresses_def grs_inv_def stores_inv_def sales_inv_def vests_inv_def backed_def
      lot_ok_def [abs_def] vest_ok_def [abs_def])

lemma grs_run_inv: "grs_run g m w \<Longrightarrow> grs_inv g m w \<and> peers_inv (os_admin (oft_store w)) w"
proof (induction rule: grs_run.induct)
  case (init e g' ac l ks params w)
  have "escrows_unused g' l" using init.hyps(2,4) by (simp add: escrows_unused_def same_gaddresses_def)
  then show ?case
    using init_inv [OF init.hyps(1,3) _ init.hyps(5,6)] grs_inv_addresses [OF init.hyps(2)] by blast
next
  case (call w e g' i w')
  have "grs_inv g' m w" "gspender i \<noteq> Some (config_key g')"
    using call.IH call.hyps(3,4) grs_inv_addresses [OF call.hyps(3)] by (simp_all add: same_gaddresses_def)
  then have "grs_inv g' m w'" using gdispatch_inv [OF call.hyps(2) _ _ call.hyps(5)] by blast
  moreover have "peers_inv (os_admin (oft_store w')) w'"
    using gdispatch_peers [OF _ call.hyps(5)] call.IH by (auto simp: peers_inv_def)
  ultimately show ?case using grs_inv_addresses [OF call.hyps(3)] by blast
next
  case (others w l)
  then have "grs_inv g m (w\<lparr>gledger := l\<rparr>)" using quiet_step_inv quiet_gledger by blast
  moreover have "same_peers w (w\<lparr>gledger := l\<rparr>)" by (simp add: same_peers_def)
  moreover have "peers_inv (os_admin (oft_store w)) (w\<lparr>gledger := l\<rparr>)" using others.IH same_peers_inv calculation(2) by blast
  ultimately show ?case by simp
qed

end
