(* ===== verification/Grs_Sample.thy ===== *)
theory Grs_Sample
  imports Grs_Runs Reference_Env
begin

text \<open>
  The reference environment extended by what the GRS program calls, and a run in it: a home store
  is opened, the genesis supply minted, a peer wired, a lot put on sale and partly bought, and a
  vesting funded. The concrete instances of the theorems about the GRS program start from
  \<open>sample_grs\<close>, the state it ends in; no theorem is about it.
\<close>

section \<open>The environment\<close>

fun ref_gpda :: "gseed \<Rightarrow> pubkey" where
  "ref_gpda OftEscrowSeed = tagged 0 20"
| "ref_gpda OftSeed = tagged 0 21"
| "ref_gpda LzReceiveTypesSeed = tagged 0 22"
| "ref_gpda GrsConfigSeed = tagged 0 23"
| "ref_gpda PeerRegistrySeed = tagged 0 24"
| "ref_gpda SaleRegistrySeed = tagged 0 25"
| "ref_gpda SaleEscrowSeed = tagged 0 26"
| "ref_gpda VestEscrowSeed = tagged 0 27"
| "ref_gpda (SaleSeed i) = tagged (ucast i) 28"
| "ref_gpda (VestSeed i) = tagged (ucast i) 29"
| "ref_gpda (PeerSeed i) = tagged (ucast i) 30"
| "ref_gpda EventAuthoritySeed = tagged 0 31"

definition ref_checked :: "pubkey \<Rightarrow> pubkey \<Rightarrow> pubkey \<Rightarrow> pubkey \<Rightarrow> u64 \<Rightarrow> u8 \<Rightarrow> ledger \<Rightarrow> ledger option" where
  "ref_checked from m to auth amt d l =
     (case token_accounts l from of
        Some a \<Rightarrow> if tk_mint a = m then ref_transfer from to auth amt l else None
      | None \<Rightarrow> None)"

definition ref_set_authority :: "pubkey \<Rightarrow> pubkey \<Rightarrow> pubkey \<Rightarrow> ledger \<Rightarrow> ledger option" where
  "ref_set_authority m old new l =
     (case mints l m of
        Some x \<Rightarrow> if mi_authority x = Some old then Some (l\<lparr>mints := (mints l)(m \<mapsto> x\<lparr>mi_authority := Some new\<rparr>)\<rparr>) else None
      | None \<Rightarrow> None)"

definition ref_receipt :: MessagingReceipt where
  "ref_receipt = \<lparr> mr_guid = 7, mr_nonce = 1, mr_fee = \<lparr> mf_native_fee = 0, mf_lz_token_fee = 0 \<rparr> \<rparr>"

definition ref_genv :: genv where
  "ref_genv = \<lparr> gpda = ref_gpda, gpda_bump = (\<lambda>_. 255), keccak = (\<lambda>bs. of_nat (length bs)),
     transfer_checked = ref_checked, set_mint_authority = ref_set_authority,
     create_metadata_v3 = (\<lambda>_ _ _. Some), epoch_fee = (\<lambda>_. None), post_fee = (\<lambda>_ _. None),
     oapp_combine_options = (\<lambda>a b. Some (a @ b)), assert_type_3 = (\<lambda>_. True), endpoint_id = 79,
     endpoint_send = (\<lambda>_ _ _ _ l. Some (l, ref_receipt)),
     endpoint_quote = (\<lambda>_ _ _ _. Some \<lparr> mf_native_fee = 0, mf_lz_token_fee = 0 \<rparr>),
     endpoint_clear = (\<lambda>_ _ _ _. Some), endpoint_send_compose = (\<lambda>_ _ _ _. Some),
     endpoint_set_delegate = (\<lambda>_ _ _ _. Some), endpoint_register_oapp = (\<lambda>_ _ _ _. Some),
     clear_min_accounts_len = 1, accounts_for_clear = (\<lambda>_ _ _ _ _. []),
     accounts_for_send_compose = (\<lambda>_ _ _ _ _ _. []), associated_token_id = 80 \<rparr>"

lemma ref_genv_sel:
  "gpda ref_genv = ref_gpda" "gpda_bump ref_genv s = 255" "keccak ref_genv = (\<lambda>bs. of_nat (length bs))"
  "transfer_checked ref_genv = ref_checked" "set_mint_authority ref_genv = ref_set_authority"
  "create_metadata_v3 ref_genv a b c = Some" "epoch_fee ref_genv m = None"
  "oapp_combine_options ref_genv x y = Some (x @ y)" "assert_type_3 ref_genv x = True" "endpoint_id ref_genv = 79"
  "endpoint_send ref_genv p a ks sp = (\<lambda>l. Some (l, ref_receipt))" "endpoint_clear ref_genv p a ks rp = Some"
  "endpoint_send_compose ref_genv p a ks cp = Some" "endpoint_set_delegate ref_genv p a ks d = Some"
  "endpoint_register_oapp ref_genv p a ks d = Some" "clear_min_accounts_len ref_genv = 1"
  by (simp_all add: ref_genv_def fun_eq_iff)

lemma ref_gpda_inj: "inj ref_gpda"
proof (rule injI)
  fix s t assume st: "ref_gpda s = ref_gpda t"
  show "s = t"
    using st by (cases s; cases t) (auto dest: tagged_eqD tagged_ucast_inj [rotated])
qed

lemma ref_checked_law: "checked_law ref_genv"
  unfolding checked_law_def ref_genv_sel
proof (intro allI impI)
  fix "from" m to auth amt d and l l' :: ledger
  assume "ref_checked from m to auth amt d l = Some l'"
  then have "spl_transfer ref_env from to auth amt l = Some l'"
    by (auto simp: ref_checked_def ref_env_sel split: option.splits if_splits)
  note T = transfer_lawD [OF ref_env_laws this]
  show "same_shape l l' \<and> none_new l l' \<and> mints l' = mints l \<and> unat amt \<le> bal l from \<and>
     (\<forall>k. if from = to \<or> k \<noteq> from \<and> k \<noteq> to then bal l' k = bal l k
          else if k = from then bal l' k = bal l k - unat amt
          else bal l k \<le> bal l' k \<and> ((None :: TransferFee option) = None \<longrightarrow> bal l' k = bal l k + unat amt))"
    using T(1,2,3) T(4) spl_transfer_moved [OF ref_env_laws \<open>spl_transfer ref_env from to auth amt l = Some l'\<close>]
    by (auto simp: moved_def)
qed

lemma ref_good_genv: "good_genv ref_env ref_genv m"
proof -
  have "endpoint_law ref_genv m" by (auto simp: endpoint_law_def ref_genv_sel spares_def)
  moreover have "authority_law ref_genv"
    by (auto simp: authority_law_def ref_genv_sel ref_set_authority_def frames_def split: option.splits if_splits)
  moreover have "ref_ata u k \<noteq> ref_gpda s" for u k s
    by (cases s) (auto simp: ref_ata_def dest: tagged_eqD)
  ultimately show ?thesis
    using ref_env_laws ref_checked_law ref_gpda_inj
    by (simp add: good_genv_def genv_laws_def apart_def ref_genv_sel ref_env_sel)
qed

section \<open>A run\<close>

fun gdispatch_all :: "env \<Rightarrow> genv \<Rightarrow> gcall list \<Rightarrow> grs_world \<Rightarrow> grs_world gres" where
  "gdispatch_all e g [] w = Ok w"
| "gdispatch_all e g (i # is) w = and_then (gdispatch e g i w) (gdispatch_all e g is)"

definition sample_gledger :: ledger where
  "sample_gledger = \<lparr> token_accounts = [500 \<mapsto> \<lparr> tk_mint = 77, tk_owner = 5, tk_amount = 0 \<rparr>],
       mints = [77 \<mapsto> \<lparr> mi_supply = 0, mi_decimals = 9, mi_authority = Some 5 \<rparr>],
       lamports = (\<lambda>k. if k = 5 \<or> k = 6 then 1000 else 0), data_len = (\<lambda>_. 0),
       program_owner = (\<lambda>_. 0), raw_data = (\<lambda>_. []), executable = (\<lambda>_. False) \<rparr>"

definition sample_init :: init_accounts where
  "sample_init = \<lparr> in_payer = 5, in_token_mint = 77, in_peer = False \<rparr>"

definition sample_params :: InitParams where
  "sample_params = \<lparr> ip_oft_type = Native, ip_shared_decimals = 6, ip_endpoint_program = None,
     ip_home_eid = 0, ip_home_address = 0 \<rparr>"

definition sample_calls :: "gcall list" where
  "sample_calls =
     [MintGenesis 5 500,
      SetPeerConfig 5 30101 (PeerAddress 999),
      SetPeerConfig 5 30101 (OutboundRateLimit (Some \<lparr> rl_refill_per_second = Some 1000, rl_capacity = Some 900000000 \<rparr>)),
      SaleG \<lparr> ss_admin = 5, ss_token_mint = 77, ss_sale = tagged 1 28, ss_inventory_source = 500 \<rparr> 0 0 100 5000000 0,
      Buy \<lparr> by_buyer = 6, by_token_mint = 77, by_payee = 5, by_to = 6, by_quote_mint = None,
          by_quote_source = None, by_quote_dest = None, by_quote_program = None \<rparr> 1 2000000,
      Vest \<lparr> va_funder = 5, va_token_mint = 77, va_token_source = 500 \<rparr> 1 9 4000000 1000 100 1800]"

section \<open>Evaluation\<close>

lemmas grs_codes = execute_init_def accounts_Init_def fresh_world_def init_metadata_def sample_init_def sample_params_def
  sample_gledger_def execute_mint_genesis_def token_account_def load_mint_def ginvoke_def execute_set_peer_config_def
  apply_peer_param_def upsert_def wire_options_def default_peer_def default_options_def set_lz_receive_budget_def
  encode_executor_lz_receive_option_def be_bytes_def update_rate_limiter_def set_capacity_def set_rate_def refill_def
  clock_u64_def default_limiter_def execute_set_sale_def accounts_SetSale_def token_init_if_needed_def sale_append_def
  escrow_amount_def reserve_lot_def free_sale_inventory_def is_home_def execute_buy_def accounts_Buy_def load_sale_def row_def
  quote_cost_def pay_quote_def execute_vest_def accounts_Vest_def schedule_def drop_value_def
  GRS_LOCAL_DECIMALS_def GRS_LD2SD_RATE_def GRS_MAX_SUPPLY_LD_def GRS_ONE_LD_def GRS_MAX_PEERS_def DEFAULT_LZ_RECEIVE_GAS_def
  GRS_PROGRAM_ID_def GRS_MAX_CLIFF_SECONDS_def GRS_MAX_DURATION_SECONDS_def
lemmas grs_refs = ref_genv_sel ref_env_sel ref_anchor_init_def ref_create_account_def ref_sys_transfer_def ref_checked_def
  ref_set_authority_def ref_init_account_def ref_transfer_def ref_mint_to_def tagged_def ref_ata_def pair_key_def eval_simps Let_def

definition sample_grs :: grs_world where
  "sample_grs =
\<lparr>oft_store =
         \<lparr>oft_type = Native, ld2sd_rate = 1000, os_token_mint = 77,
            os_token_escrow = 20, endpoint_program = 79, os_bump = 255,
            tvl_ld = 0, os_admin = 5, os_pending_owner = default_pubkey,
            default_fee_bps = 0, os_paused = False, pauser = None,
            unpauser = None\<rparr>,
         lz_types =
           \<lparr>lt_oft_store = 21, lt_token_mint = 77, lt_grs_config = 23\<rparr>,
         grs_config =
           \<lparr>home_eid = 0, home_address = 21, genesis_minted = True,
              gc_bump = 255, vesting_count = 1, token_sales_spent = 2000000,
              sales_reserved = 3000000\<rparr>,
         peers =
           [30101 \<mapsto>
            \<lparr>peer_address = 999,
               enforced_options =
                 \<lparr>eo_send =
                    be_of_nat 2 3 @
                    1 # be_of_nat 2 17 @ 1 # be_of_nat 16 200000,
                    eo_send_and_call =
                      be_of_nat 2 3 @
                      1 # be_of_nat 2 17 @ 1 # be_of_nat 16 200000\<rparr>,
               outbound_rate_limiter =
                 Some
                  \<lparr>capacity = 900000000, rl_tokens = 900000000,
                     refill_per_second = 1000, last_refill_time = 2000\<rparr>,
               inbound_rate_limiter = None, fee_bps = None, pc_bump = 255\<rparr>],
         peer_registry =
           \<lparr>pr_oft_store = 21, pr_bump = 255, entries = [(30101, 999)]\<rparr>,
         sale_registry = \<lparr>sr_oft_store = 21, sr_bump = 255, sale_count = 1\<rparr>,
         sales =
           [1 \<mapsto>
            \<lparr>sa_id = 1, sa_oft_store = 21, sa_asset = default_pubkey,
               sa_asset_amount = 60, sa_grs_amount = 3000000,
               sa_recipient = default_pubkey, sa_bump = 255\<rparr>],
         vestings =
           [1 \<mapsto>
            \<lparr>ve_id = 1, ve_oft_store = 21, funder = 5, beneficiary = 9,
               allocation_ld = 4000000, released_ld = 0, ve_start = 1000,
               cliff_end = 1100, ve_end = 2900, ve_bump = 255\<rparr>],
         gledger =
           \<lparr>token_accounts =
              [20 \<mapsto> \<lparr>tk_mint = 77, tk_owner = 21, tk_amount = 0\<rparr>,
               26 \<mapsto> \<lparr>tk_mint = 77, tk_owner = 23, tk_amount = 3000000\<rparr>,
               28334198897217871301898 \<mapsto>
               \<lparr>tk_mint = 77, tk_owner = 6, tk_amount = 2000000\<rparr>,
               500 \<mapsto>
               \<lparr>tk_mint = 77, tk_owner = 5, tk_amount = 999999999991000000\<rparr>,
               27 \<mapsto> \<lparr>tk_mint = 77, tk_owner = 23, tk_amount = 4000000\<rparr>],
              mints =
                [77 \<mapsto>
                 \<lparr>mi_supply = 1000000000000000000, mi_decimals = 9,
                    mi_authority = Some 21\<rparr>],
              lamports =
                (\<lambda>k. if k = 5 \<or> k = 6 then 1000 else 0)
                (21 := 1, 22 := 1, 23 := 1, 24 := 1, 25 := 1, 7705886 := 1,
                   284 := 1, 6 := 960, 5 := 1032, 285 := 1),
              data_len =
                (\<lambda>_. 0)
                (20 := 165, 21 := OFTStore_SPACE,
                   22 := LzReceiveTypesAccounts_SPACE, 23 := GrsConfig_SPACE,
                   24 := PeerRegistry_SPACE, 25 := SaleRegistry_SPACE,
                   7705886 := PeerConfig_SPACE, 26 := 165,
                   284 := SALE_ACCOUNT_SPACE, 28334198897217871301898 := 165,
                   285 := VESTING_SPACE, 27 := 165),
              program_owner =
                (\<lambda>_. default_pubkey)
                (21 := 99, 22 := 99, 23 := 99, 24 := 99, 25 := 99,
                   7705886 := 99,
                   284 :=
                     69002580975004836452865279731840968917385871065715587493099151237070115914400,
                   285 := 99),
              raw_data = \<lambda>_. [], executable = \<lambda>_. False\<rparr>\<rparr>"

lemma sample_grs_reached:
  "and_then (execute_init ref_env ref_genv sample_init [] sample_params sample_gledger)
     (gdispatch_all ref_env ref_genv sample_calls) = Ok sample_grs"
  by (simp add: sample_calls_def grs_codes grs_refs sample_grs_def)

section \<open>It is a run\<close>

lemma gdispatch_all_run:
  "grs_run g m w \<Longrightarrow> good_genv e g m \<Longrightarrow> \<forall>i\<in>set is. gspender i \<noteq> Some (config_key g) \<Longrightarrow>
   gdispatch_all e g is w = Ok w' \<Longrightarrow> grs_run g m w'"
proof (induction "is" arbitrary: w)
  case (Cons i "is")
  then obtain w1 where 1: "gdispatch e g i w = Ok w1" "gdispatch_all e g is w1 = Ok w'"
    by (auto simp: and_then_Ok_iff)
  then show ?case
    using Cons.IH Cons.prems grs_run.call [OF Cons.prems(1,2) _ _ 1(1)] by (simp add: same_gaddresses_def)
qed simp

lemma sample_grs_run: "grs_run ref_genv 77 sample_grs"
proof -
  obtain w where w: "execute_init ref_env ref_genv sample_init [] sample_params sample_gledger = Ok w"
      "gdispatch_all ref_env ref_genv sample_calls w = Ok sample_grs"
    using sample_grs_reached by (auto simp: and_then_Ok_iff)
  have "grs_run ref_genv 77 w"
    by (rule grs_run.init [OF ref_good_genv _ _ _ _ w(1)])
      (simp_all add: same_gaddresses_def sample_init_def escrows_unused_def sample_gledger_def ref_genv_sel tagged_def
        supply_of_def)
  then show ?thesis
    by (rule gdispatch_all_run [OF _ ref_good_genv _ w(2)])
      (simp add: sample_calls_def ref_genv_sel tagged_def)
qed

end
