(* ===== verification/Grs_Claims.thy ===== *)
theory Grs_Claims
  imports Grs_Sample Ownable
begin

text \<open>
  The properties of the GRS program over every run of it: the escrows cover what is owed, the
  peers stay in order, the admin's powers stay with the admin, and a vesting that has something
  to release can be released. Their concrete instances are at \<open>sample_grs\<close>.
\<close>

section \<open>Escrows\<close>

text \<open>
  C3. In every state of a run of the GRS program, whatever the order of its instructions and of
  other programs' transactions: the reserve counter of the store is exactly the sum of the tokens
  of all lots on sale, the sale escrow holds at least that much, the vesting escrow holds at least
  what all vestings together have not yet released, and the supply of the token is within its cap.
\<close>

theorem escrows_cover_books:
  assumes "grs_run g m w"
  shows "msum (\<lambda>a. unat (sa_grs_amount a)) (sales w) = unat (sales_reserved (grs_config w)) \<and>
    unat (sales_reserved (grs_config w)) \<le> bal (gledger w) (sale_escrow_key g) \<and>
    msum (\<lambda>v. unat (allocation_ld v) - unat (released_ld v)) (vestings w) \<le> bal (gledger w) (vest_escrow_key g) \<and>
    supply_of (gledger w) m \<le> unat GRS_MAX_SUPPLY_LD"
proof -
  have i: "sales_inv g w" "backed g m w" using grs_run_inv [OF assms] by (simp_all add: grs_inv_def)
  then show ?thesis
    by (auto simp: sales_inv_def book_ok_def backed_def outstanding_def lot_owed_def [abs_def] vest_owed_def [abs_def])
qed

lemma escrows_cover_books_witness:
  "msum (\<lambda>a. unat (sa_grs_amount a)) (sales sample_grs) = 3000000 \<and>
   3000000 \<le> bal (gledger sample_grs) (sale_escrow_key ref_genv)"
  using escrows_cover_books [OF sample_grs_run] by (simp add: sample_grs_def)

section \<open>Peers\<close>

text \<open>
  C15. In every state of a run the registry is a function from endpoint ids to addresses, with at
  most its capacity of entries and none at the zero address, that lists exactly the peers with an
  address; every peer's fee is below the whole, no rate limiter holds more tokens than its
  capacity, and the default fee is below the whole.
\<close>

theorem peers_in_order:
  assumes "grs_run g m w"
  shows "distinct (map fst (entries (peer_registry w))) \<and> length (entries (peer_registry w)) \<le> GRS_MAX_PEERS \<and>
    (\<forall>eid a. (eid, a) \<in> set (entries (peer_registry w)) \<longleftrightarrow>
       (\<exists>p. peers w eid = Some p \<and> peer_address p = a \<and> a \<noteq> 0)) \<and>
    (\<forall>eid p. peers w eid = Some p \<longrightarrow> peer_ok p) \<and>
    default_fee_bps (oft_store w) < MAX_FEE_BASIS_POINTS"
proof -
  have r: "registry_ok (peer_registry w)" "book_of (peer_registry w) = listed (peers w)"
      "\<forall>eid p. peers w eid = Some p \<longrightarrow> peer_ok p" "default_fee_bps (oft_store w) < MAX_FEE_BASIS_POINTS"
    using grs_run_inv [OF assms] by (simp_all add: peers_inv_def)
  have d: "distinct (map fst (entries (peer_registry w)))" "length (entries (peer_registry w)) \<le> GRS_MAX_PEERS"
    using r(1) by (simp_all add: registry_ok_def)
  have "(eid, a) \<in> set (entries (peer_registry w)) \<longleftrightarrow> (\<exists>p. peers w eid = Some p \<and> peer_address p = a \<and> a \<noteq> 0)" for eid a
  proof -
    have "(eid, a) \<in> set (entries (peer_registry w)) \<longleftrightarrow> book_of (peer_registry w) eid = Some a"
      using d(1) by (simp add: book_of_def)
    also have "\<dots> \<longleftrightarrow> (\<exists>p. peers w eid = Some p \<and> peer_address p = a \<and> a \<noteq> 0)"
      unfolding r(2) by (auto simp: listed_def split: option.splits if_splits)
    finally show ?thesis .
  qed
  then show ?thesis using d r(3,4) by blast
qed

lemma peers_in_order_witness:
  "peer_ok (the (peers sample_grs 30101)) \<and> (30101, 999) \<in> set (entries (peer_registry sample_grs))"
proof -
  obtain p where "peers sample_grs 30101 = Some p" "peer_address p = 999" by (simp add: sample_grs_def)
  then show ?thesis using peers_in_order [OF sample_grs_run] by auto
qed

section \<open>The admin\<close>

text \<open>
  C13. An instruction of the GRS program that only the admin may sign - minting the genesis supply,
  the settings of the store and of its peers, the migration of the accounts of the receiver, the
  withdrawal of fees, putting lots on sale and publishing them, proposing an owner - succeeds in
  a run for nobody else, and the admin changes only when the owner the admin proposed accepts.
\<close>

theorem admin_guarded:
  assumes "grs_run g m w" "gdispatch e g i w = Ok w'"
  shows "(\<forall>k. admin_of i = Some k \<longrightarrow> k = os_admin (oft_store w)) \<and>
    (os_admin (oft_store w') = os_admin (oft_store w) \<or>
     (\<exists>ks. i = AcceptOwnershipG (os_pending_owner (oft_store w)) ks \<and>
        os_admin (oft_store w') = os_pending_owner (oft_store w)))"
proof -
  have "peers_inv (os_admin (oft_store w)) w" using grs_run_inv [OF assms(1)] by simp
  from gdispatch_peers [OF this assms(2)] show ?thesis
    using admin_only [OF assms(2)] by (auto simp: peers_inv_def)
qed

lemma admin_guarded_witness:
  "\<exists>w'. gdispatch ref_env ref_genv (TransferOwnershipG 5 8) sample_grs = Ok w' \<and> os_admin (oft_store w') = 5"
proof -
  have i: "gdispatch ref_env ref_genv (TransferOwnershipG 5 8) sample_grs =
      Ok (sample_grs\<lparr>oft_store := (oft_store sample_grs)\<lparr>os_pending_owner := 8\<rparr>\<rparr>)"
    by (simp add: execute_transfer_ownership_grs_def propose_admin_def sample_grs_def)
  have "os_admin (oft_store sample_grs) = 5" by (simp add: sample_grs_def)
  then show ?thesis using admin_guarded [OF sample_grs_run i] i by auto
qed

text \<open>The two-step handover follows the contract of \<open>Ownable\<close>, endpoint delegate or not.\<close>

interpretation grs_own: ownable2step "\<lambda>w. os_admin (oft_store w)" "\<lambda>w. os_pending_owner (oft_store w)"
  execute_transfer_ownership_grs "\<lambda>k w. execute_accept_ownership_grs g k ks w" for g ks
  by unfold_locales
    (auto simp: execute_transfer_ownership_grs_def execute_accept_ownership_grs_def propose_admin_def set_delegate_def
      step_iffs ginvoke_Ok Let_def split: if_splits)

section \<open>Release\<close>

text \<open>
  What a release relies on for its success: the token program carries out a transfer between two
  accounts of the mint that the authority owns and that has the tokens and the room.
\<close>

definition transfer_live :: "genv \<Rightarrow> pubkey \<Rightarrow> bool" where
  "transfer_live g m \<longleftrightarrow> (\<forall>from to a b mi amt l. from \<noteq> to \<and> token_accounts l from = Some a \<and> tk_mint a = m \<and>
     token_accounts l to = Some b \<and> tk_mint b = m \<and> mints l m = Some mi \<and> unat amt \<le> unat (tk_amount a) \<and>
     unat (tk_amount b) + unat amt < 2 ^ 64 \<longrightarrow>
     (\<exists>l'. transfer_checked g from m to (tk_owner a) amt (mi_decimals mi) l = Some l'))"

lemma transfer_liveD:
  assumes "transfer_live g m" "from \<noteq> to" "token_accounts l from = Some a" "tk_mint a = m"
    "token_accounts l to = Some b" "tk_mint b = m" "mints l m = Some mi" "unat amt \<le> unat (tk_amount a)"
    "unat (tk_amount b) + unat amt < 2 ^ 64"
  shows "\<exists>l'. transfer_checked g from m to (tk_owner a) amt (mi_decimals mi) l = Some l'"
  using assms unfolding transfer_live_def by blast

text \<open>In a run the escrow has what a vesting still owes.\<close>

lemma escrow_has:
  assumes "grs_run g m w" "vestings w vid = Some v" "0 < vest_owed v"
  obtains a where "token_accounts (gledger w) (vest_escrow_key g) = Some a" "tk_mint a = m" "tk_owner a = config_key g"
    "vest_owed v \<le> unat (tk_amount a)"
proof -
  have i: "vests_inv g w" "backed g m w" using grs_run_inv [OF assms(1)] by (simp_all add: grs_inv_def)
  have "vest_owed v \<le> outstanding w" using i(1) assms(2) by (auto simp: vests_inv_def dest: book_ok_row)
  then have b: "vest_owed v \<le> bal (gledger w) (vest_escrow_key g)" using i(2) by (simp add: backed_def)
  then obtain a where a: "token_accounts (gledger w) (vest_escrow_key g) = Some a"
    using assms(3) by (cases "token_accounts (gledger w) (vest_escrow_key g)") (simp_all add: bal_def)
  show thesis by (rule that [OF a]) (use i(2) a b in \<open>auto simp: backed_def held_def bal_def\<close>)
qed

lemma releasable_owed: "unat (releasable_at v t) \<le> vest_owed v"
  using vested_nat_le [of "unat (allocation_ld v)"] by (simp add: releasable_nat vested_at_nat vest_owed_def diff_le_mono)

lemma released_sum:
  assumes "0 < releasable_at v t"
  shows "checked_add (released_ld v) (releasable_at v t) = Some (vested_at v t)"
proof -
  have "unat (released_ld v) + unat (releasable_at v t) = unat (vested_at v t)"
    using assms releasable_nat [of v t] by (simp add: word_less_nat_alt)
  then show ?thesis using unat_u64_bound [of "vested_at v t"] by (simp add: checked_add_Some)
qed

text \<open>
  C8. A vesting cannot get stuck: in every state of a run, whenever the schedule has vested more
  than was released, a release by anybody for the beneficiary succeeds - when the token program
  carries out covered transfers and the beneficiary's account has room -, it pays exactly the
  difference to the beneficiary, and it leaves everything that has vested by then as released, the
  whole allocation from the end of the schedule on.
\<close>

theorem release_live:
  assumes "grs_run g m w" "good_genv e g m" "transfer_live g m"
    and v: "vestings w vid = Some v" and mi: "mints (gledger w) m = Some mi"
    and b: "token_accounts (gledger w) (ata e (beneficiary v) m) = Some b" "tk_mint b = m" "tk_owner b = beneficiary v"
    and now: "0 \<le> sint (unix_timestamp e)" and due: "0 < releasable_at v (unix_timestamp e)"
    and room: "unat (tk_amount b) + unat (releasable_at v (unix_timestamp e)) < 2 ^ 64"
  shows "\<exists>w'. execute_release e g \<lparr> ra_payer = payer, ra_token_mint = m, ra_vesting = vid, ra_beneficiary = beneficiary v \<rparr> w
           = Ok w' \<and>
       vestings w' = (vestings w)(vid \<mapsto> v\<lparr>released_ld := vested_at v (unix_timestamp e)\<rparr>) \<and>
       bal (gledger w') (ata e (beneficiary v) m) =
         bal (gledger w) (ata e (beneficiary v) m) + unat (releasable_at v (unix_timestamp e)) \<and>
       (ve_end v \<le> unix_timestamp e \<longrightarrow> vested_at v (unix_timestamp e) = allocation_ld v)"
proof -
  let ?t = "unix_timestamp e" and ?to = "ata e (beneficiary v) m" and ?x = "releasable_at v (unix_timestamp e)"
  note owed = releasable_owed [of v ?t]
  have "0 < vest_owed v" using due owed by (simp add: word_less_nat_alt)
  then obtain a where a: "token_accounts (gledger w) (vest_escrow_key g) = Some a" "tk_mint a = m" "tk_owner a = config_key g"
    "vest_owed v \<le> unat (tk_amount a)"
    using escrow_has [OF assms(1) v] by blast
  have i: "stores_inv g m w" "vests_inv g w" using grs_run_inv [OF assms(1)] by (simp_all add: grs_inv_def)
  have m: "token_mint w = m" using i(1) by (simp add: stores_inv_def)
  have ok: "vest_ok g vid v" using i(2) v by (auto simp: vests_inv_def dest: book_ok_row)
  have apart: "?to \<noteq> vest_escrow_key g" using good_genvD(3) [OF assms(2)] .
  obtain l where l: "transfer_checked g (vest_escrow_key g) m ?to (config_key g) ?x (mi_decimals mi) (gledger w) = Some l"
    using transfer_liveD [OF assms(3) _ a(1,2) b(1,2) mi _ room] a(3,4) owed apart by fastforce
  let ?w' = "w\<lparr>vestings := (vestings w)(vid \<mapsto> v\<lparr>released_ld := vested_at v ?t\<rparr>), gledger := l\<rparr>"
  have "execute_release e g \<lparr> ra_payer = payer, ra_token_mint = m, ra_vesting = vid, ra_beneficiary = beneficiary v \<rparr> w = Ok ?w'"
    using ok a b v m mi l now due
    by (simp add: execute_release_def accounts_Release_def token_account_def token_init_if_needed_def load_mint_def
        account_def constraint_def vest_ok_def now_ts_def released_sum ginvoke_def)
  moreover have "bal l ?to = bal (gledger w) ?to + unat ?x"
    using checked_lawD(8) [OF good_genvD(2) [OF assms(2)] l apart refl good_genvD(4) [OF assms(2)]] .
  moreover have "ve_end v \<le> ?t \<Longrightarrow> vested_at v ?t = allocation_ld v"
    using ok by (auto simp: vested_at_def vest_ok_def)
  ultimately show ?thesis by (intro exI [of _ ?w']) auto
qed

lemma ref_transfer_live: "transfer_live ref_genv m"
  unfolding transfer_live_def ref_genv_sel
proof (intro allI impI, elim conjE)
  fix "from" to a b mi and amt :: u64 and l :: ledger
  assume "from \<noteq> to" "token_accounts l from = Some a" "tk_mint a = m" "token_accounts l to = Some b" "tk_mint b = m"
    "unat amt \<le> unat (tk_amount a)" "unat (tk_amount b) + unat amt < 2 ^ 64"
  then show "\<exists>l'. ref_checked from m to (tk_owner a) amt (mi_decimals mi) l = Some l'"
    by (simp add: ref_checked_def ref_transfer_def unat_le_iff checked_add_def)
qed

lemma release_live_witness:
  "\<exists>w w'. grs_run ref_genv 77 w \<and>
     execute_release ref_env ref_genv \<lparr> ra_payer = 6, ra_token_mint = 77, ra_vesting = 1, ra_beneficiary = 9 \<rparr> w = Ok w' \<and>
     map_option released_ld (vestings w' 1) = Some 2000000"
proof -
  let ?l = "gledger sample_grs\<lparr>token_accounts := (token_accounts (gledger sample_grs))
      (ref_ata 9 77 \<mapsto> \<lparr> tk_mint = 77, tk_owner = 9, tk_amount = 3 \<rparr>)\<rparr>"
  let ?w = "sample_grs\<lparr>gledger := ?l\<rparr>"
  have "moves ref_genv 77 0 0 (gledger sample_grs) ?l"
    by (simp add: moves_def shift_def held_def bal_def capped_cong ref_genv_sel ref_ata_def tagged_def pair_key_def)
  then have r: "grs_run ref_genv 77 ?w" by (rule grs_run.others [OF sample_grs_run])
  have v: "vestings ?w 1 = Some (the (vestings sample_grs 1))" by (simp add: sample_grs_def)
  have t: "releasable_at (the (vestings sample_grs 1)) 2000 = 2000000" "vested_at (the (vestings sample_grs 1)) 2000 = 2000000"
    by (simp_all add: sample_grs_def releasable_at_def vested_at_def saturating_sub_def)
  have b: "beneficiary (the (vestings sample_grs 1)) = 9" by (simp add: sample_grs_def)
  have ac: "mints (gledger ?w) 77 = Some \<lparr> mi_supply = 1000000000000000000, mi_decimals = 9, mi_authority = Some 21 \<rparr>"
    "token_accounts (gledger ?w) (ata ref_env (beneficiary (the (vestings sample_grs 1))) 77) =
       Some \<lparr> tk_mint = 77, tk_owner = 9, tk_amount = 3 \<rparr>"
    using b by (simp_all add: sample_grs_def ref_env_sel)
  obtain w' where w': "execute_release ref_env ref_genv \<lparr> ra_payer = 6, ra_token_mint = 77, ra_vesting = 1, ra_beneficiary = 9 \<rparr> ?w = Ok w'"
    "vestings w' = (vestings ?w)(1 \<mapsto> the (vestings sample_grs 1)\<lparr>released_ld := 2000000\<rparr>)"
    using release_live [OF r ref_good_genv ref_transfer_live v ac, where payer = 6] t b by (auto simp: ref_env_sel)
  then show ?thesis using r by (intro exI [of _ ?w] exI [of _ w']) simp
qed

section \<open>What a transfer says at the other end\<close>

lemma lock_or_burn_rate:
  "lock_or_burn e g signer src mi sent received fee w = Ok w' \<Longrightarrow> ld2sd_rate (oft_store w') = ld2sd_rate (oft_store w)"
  by (auto simp: lock_or_burn_def ginvoke_def step_iffs split: if_splits)

text \<open>The message is composed without asking the endpoint anything.\<close>

lemma other_endpoint [simp]:
  "compute_fee_and_adjust_amount (g\<lparr>endpoint_send := ep\<rparr>) = compute_fee_and_adjust_amount g"
  "lock_or_burn e (g\<lparr>endpoint_send := ep\<rparr>) = lock_or_burn e g"
  by (intro ext, simp add: compute_fee_and_adjust_amount_def lock_or_burn_def get_pre_fee_amount_ld_def
      get_post_fee_amount_ld_def split: option.split cong: if_cong)+

lemma execute_send_message:
  assumes "execute_send e g signer token_source remaining params w = Ok ((receipt, r), w')"
  obtains (sent) peer :: PeerConfig and peer' mi sent received fee w1 a p where
      "compute_fee_and_adjust_amount g (sd_amount_ld params) (oft_store w) (token_mint w) (fee_bps peer) = Ok (sent, received, fee)"
      "lock_or_burn e g signer token_source mi sent received fee (w\<lparr>peers := (peers w)(sd_dst_eid params \<mapsto> peer')\<rparr>) = Ok w1"
      "ld2sd (oft_store w1) received = Ok a" "sp_dst_eid p = sd_dst_eid params"
      "sp_message p = encode (sd_to params) a signer None" "or_amount_received_ld r = received"
      "\<And>ep. execute_send e (g\<lparr>endpoint_send := ep\<rparr>) signer token_source remaining params w =
         and_then (endpoint_send_as (g\<lparr>endpoint_send := ep\<rparr>) remaining p w1) (\<lambda>(rc, u). Ok ((rc, r), u))"
  using assms [unfolded execute_send_def Let_def]
proof (elim steps_OkE, goal_cases)
  case (1 peer _ _ mi _ sent received fee _ peer' w1 _ _ _ _ a opts)
  then show thesis
    by (intro sent [of peer sent received fee mi peer' w1 a "\<lparr> sp_dst_eid = sd_dst_eid params, sp_receiver = peer_address peer',
          sp_message = encode (sd_to params) a signer None, sp_options = opts, sp_native_fee = sd_native_fee params,
          sp_lz_token_fee = sd_lz_token_fee params \<rparr>"]) (auto simp: execute_send_def step_iffs)
qed

text \<open>
  C38. A transfer is never taken for a sale or a grant. Whatever parameters \<open>send\<close> (and \<open>bridge\<close>, which
  is \<open>send\<close>) accepts, the outcome is that of one call of the endpoint, whichever endpoint it is, with a
  message that is read at the other end as a plain transfer: it is neither a sale nor a grant, has no
  compose part, and is decoded to the recipient asked for and exactly the amount of the receipt.
\<close>

theorem transfer_is_no_order:
  assumes "execute_send e g signer token_source remaining params w = Ok ((receipt, r), w')"
  shows "\<exists>p w1 a. (\<forall>ep. execute_send e (g\<lparr>endpoint_send := ep\<rparr>) signer token_source remaining params w =
      and_then (endpoint_send_as (g\<lparr>endpoint_send := ep\<rparr>) remaining p w1) (\<lambda>(rc, u). Ok ((rc, r), u))) \<and>
    sp_dst_eid p = sd_dst_eid params \<and> \<not> is_sale (keccak g) (sp_message p) \<and> \<not> is_grant (keccak g) (sp_message p) \<and>
    compose_msg (keccak g) (sp_message p) = None \<and> send_to (sp_message p) = Ok (sd_to params) \<and>
    amount_sd (sp_message p) = Ok a \<and> unat a * unat (ld2sd_rate (oft_store w)) = unat (or_amount_received_ld r)"
  using assms
proof (rule execute_send_message)
  fix peer :: PeerConfig and peer' mi sent received fee w1 a p
  assume c: "compute_fee_and_adjust_amount g (sd_amount_ld params) (oft_store w) (token_mint w) (fee_bps peer) = Ok (sent, received, fee)"
    and lb: "lock_or_burn e g signer token_source mi sent received fee (w\<lparr>peers := (peers w)(sd_dst_eid params \<mapsto> peer')\<rparr>) = Ok w1"
    and a: "ld2sd (oft_store w1) received = Ok a" and r: "or_amount_received_ld r = received"
    and p: "sp_dst_eid p = sd_dst_eid params" "sp_message p = encode (sd_to params) a signer None"
    and k: "\<And>ep. execute_send e (g\<lparr>endpoint_send := ep\<rparr>) signer token_source remaining params w =
      and_then (endpoint_send_as (g\<lparr>endpoint_send := ep\<rparr>) remaining p w1) (\<lambda>(rc, u). Ok ((rc, r), u))"
  have "ld2sd_rate (oft_store w1) = ld2sd_rate (oft_store w)" using lock_or_burn_rate [OF lb] by simp
  moreover have "unat received div unat (ld2sd_rate (oft_store w)) * unat (ld2sd_rate (oft_store w)) = unat received"
    using compute_fee_dustless(1) [OF c] by simp
  ultimately have "unat a * unat (ld2sd_rate (oft_store w)) = unat received"
    using a by (auto simp: ld2sd_def step_iffs checked_div_Some)
  moreover have "compose_msg (keccak g) (sp_message p) = None" by (simp add: p(2) compose_msg_def COMPOSE_MSG_OFFSET_def)
  ultimately show ?thesis
    using k p transfer_encoding [of "keccak g" "sd_to params" a signer] transfer_read_back [of "sd_to params" a signer None]
    by (intro exI [of _ p] exI [of _ w1] exI [of _ a] conjI allI) (simp_all add: r)
qed

definition sample_send :: SendParams where
  "sample_send = \<lparr> sd_dst_eid = 30101, sd_to = 4321, sd_amount_ld = 1000500, sd_min_amount_ld = 0, sd_options = [],
     sd_compose_msg = None, sd_native_fee = 0, sd_lz_token_fee = 0 \<rparr>"

lemma transfer_is_no_order_witness:
  "\<exists>receipt r w'. execute_send ref_env ref_genv 6 (ref_ata 6 77) [0, 21] sample_send sample_grs = Ok ((receipt, r), w') \<and>
     or_amount_received_ld r = 1000000 \<and>
     (\<exists>(p :: EndpointSendParams) a. send_to (sp_message p) = Ok 4321 \<and> amount_sd (sp_message p) = Ok a \<and> unat a * 1000 = 1000000)"
proof -
  have k: "\<exists>receipt r w'. execute_send ref_env ref_genv 6 (ref_ata 6 77) [0, 21] sample_send sample_grs = Ok ((receipt, r), w') \<and>
      or_amount_received_ld r = 1000000"
    by (simp add: sample_send_def execute_send_def sample_grs_def grs_codes grs_refs load_peer_def
        compute_fee_and_adjust_amount_def remove_dust_def calculate_fee_def ONE_IN_BASIS_POINTS_def limit_outbound_def
        with_limiter_def try_consume_def lock_or_burn_def ref_burn_def second_account_def sale_msg_type_def
        grant_msg_type_def ld2sd_def combine_options_def get_enforced_options_def endpoint_send_as_def)
  have rate: "ld2sd_rate (oft_store sample_grs) = 1000" "sd_to sample_send = 4321" by (simp_all add: sample_grs_def sample_send_def)
  from k obtain receipt r w' where s: "execute_send ref_env ref_genv 6 (ref_ata 6 77) [0, 21] sample_send sample_grs = Ok ((receipt, r), w')"
    "or_amount_received_ld r = 1000000" by blast
  from transfer_is_no_order [OF this(1)] obtain p :: EndpointSendParams and a where
    "send_to (sp_message p) = Ok 4321" "amount_sd (sp_message p) = Ok a" "unat a * 1000 = 1000000"
    unfolding rate s(2) by auto
  then show ?thesis using s by blast
qed

end
