(* ===== verification/Grinders_Types.thy ===== *)
theory Grinders_Types
  imports Grai_Entry Bytes
begin

text \<open>
  The accounts of the Grinders program (\<open>programs/grinders/src/state.rs\<close>) and its error codes
  (\<open>errors.rs\<close>): the state account as its Borsh bytes and as a record, the custodian accounts,
  the CAIP-2 cluster reference and the CAIP labels of the custodians' implementations. Strings
  are their UTF-8 bytes.
\<close>

section \<open>Errors\<close>

datatype (plugins only: code size) GrindersError =
    Grinders_Unauthorized | NotToreador | Grinders_AmountZero | ToZero | InvalidCustodianProgram
  | UnknownCustodianKind | CustodianKindMismatch | InvalidClusterRef | NotCustodianWallet
  | InvalidNftOwner | Grinders_MathOverflow | SolTransferFailed | InvalidGrindersTokenAccount
  | NotCustodianOwner | TargetZero | DataEmpty | SwapFailed | NotTradingAsset | NoTrade
  | ExceededPriceLimit | GrinderMustNotPayGas | InvalidFeePayer | CustodianSwapNotImplemented
  | InsufficientReserve | InvalidCollection | NotGrai | NoLiquidation | Grinders_LiquidationOpen
  | Grinders_Grinding | InvalidGrindPeriod | Grinders_InvalidRemainingAccounts | BaseZero | QuoteZero
  | SameAsset | NonZeroBalance | GraiTokenZero | ToreadorZero

type_synonym 'a nres = "(GrindersError, 'a) result"

section \<open>Accounts\<close>

record GrindersState =
  toreador :: pubkey
  gr_reserved :: pubkey
  gr_grai_program :: pubkey
  next_custodian_id :: u64
  collection_mint :: pubkey
  heartbeat_at :: i64
  grinding_period :: u32
  gr_bump :: u8
  cluster_ref :: bytes   \<comment> \<open>32 bytes\<close>

definition GrindersState_LEN :: nat where
  "GrindersState_LEN = 32 * 4 + 8 + 8 + 4 + 1 + 32"

record CustodianState =
  cu_grinders :: pubkey
  custodian_id :: u64
  cu_grai_program :: pubkey
  cu_label :: pubkey   \<comment> \<open>a 32-byte hash\<close>
  base_mint :: pubkey
  quote_mint :: pubkey
  nft_mint :: pubkey
  nft_owner :: pubkey
  cu_bump :: u8

definition CustodianState_LEN :: nat where
  "CustodianState_LEN = 32 + 8 + 32 + 32 + 32 + 32 + 32 + 32 + 1"

section \<open>The state account's bytes\<close>

text \<open>
  Anchor keeps the account as its discriminator and the Borsh encoding of its fields in their
  order. GRAI reads some of the fields at fixed offsets, so the bytes are part of the contract.
\<close>

definition encode_grinders :: "bytes \<Rightarrow> GrindersState \<Rightarrow> bytes" where
  "encode_grinders disc s =
     disc @ be_bytes 32 (toreador s) @ be_bytes 32 (gr_reserved s) @ be_bytes 32 (gr_grai_program s) @
     le_bytes 8 (next_custodian_id s) @ be_bytes 32 (collection_mint s) @ le_bytes 8 (heartbeat_at s) @
     le_bytes 4 (grinding_period s) @ [gr_bump s] @ cluster_ref s"

definition decode_grinders :: "bytes \<Rightarrow> bytes \<Rightarrow> GrindersState option" where
  "decode_grinders disc d =
     (if take 8 d = disc \<and> 8 + GrindersState_LEN \<le> length d
      then Some \<lparr> toreador = be_word (slice 8 40 d), gr_reserved = be_word (slice 40 72 d),
        gr_grai_program = be_word (slice 72 104 d),
        next_custodian_id = word_of_nat (le_nat (slice 104 112 d)),
        collection_mint = be_word (slice 112 144 d),
        heartbeat_at = word_of_nat (le_nat (slice 144 152 d)),
        grinding_period = word_of_nat (le_nat (slice 152 156 d)),
        gr_bump = d ! 156, cluster_ref = slice 157 189 d \<rparr>
      else None)"

section \<open>Cluster references\<close>

definition utf8 :: "string \<Rightarrow> bytes" where
  "utf8 s = map of_char s"

definition continues :: "u8 \<Rightarrow> bool" where
  "continues b \<longleftrightarrow> 0x80 \<le> b \<and> b \<le> 0xBF"

text \<open>The second byte of a sequence of three and of four (\<open>core::str::from_utf8\<close>).\<close>

definition second_of_3 :: "u8 \<Rightarrow> u8 \<Rightarrow> bool" where
  "second_of_3 a b \<longleftrightarrow> a = 0xE0 \<and> 0xA0 \<le> b \<and> b \<le> 0xBF \<or> 0xE1 \<le> a \<and> a \<le> 0xEC \<and> continues b \<or>
     a = 0xED \<and> 0x80 \<le> b \<and> b \<le> 0x9F \<or> 0xEE \<le> a \<and> a \<le> 0xEF \<and> continues b"

definition second_of_4 :: "u8 \<Rightarrow> u8 \<Rightarrow> bool" where
  "second_of_4 a b \<longleftrightarrow> a = 0xF0 \<and> 0x90 \<le> b \<and> b \<le> 0xBF \<or> 0xF1 \<le> a \<and> a \<le> 0xF3 \<and> continues b \<or>
     a = 0xF4 \<and> 0x80 \<le> b \<and> b \<le> 0x8F"

fun utf8_valid :: "bytes \<Rightarrow> bool" where
  "utf8_valid [] = True"
| "utf8_valid [a] = (a < 0x80)"
| "utf8_valid (a # b # bs) =
     (if a < 0x80 then utf8_valid (b # bs)
      else if 0xC2 \<le> a \<and> a \<le> 0xDF then continues b \<and> utf8_valid bs
      else case bs of
        [] \<Rightarrow> False
      | c # cs \<Rightarrow>
          if second_of_3 a b then continues c \<and> utf8_valid cs
          else case cs of
            [] \<Rightarrow> False
          | d # ds \<Rightarrow> second_of_4 a b \<and> continues c \<and> continues d \<and> utf8_valid ds)"

definition cluster_ref_str :: "bytes \<Rightarrow> bytes" where
  "cluster_ref_str bs = (let s = takeWhile (\<lambda>b. b \<noteq> 0) bs in if utf8_valid s then s else [])"

definition is_ascii_graphic :: "u8 \<Rightarrow> bool" where
  "is_ascii_graphic c \<longleftrightarrow> 0x21 \<le> c \<and> c \<le> 0x7E"

definition encode_cluster_ref :: "bytes \<Rightarrow> bytes nres" where
  "encode_cluster_ref b =
     and_then (require (b \<noteq> [] \<and> length b \<le> 32) InvalidClusterRef) (\<lambda>_.
     and_then (require (list_all is_ascii_graphic b) InvalidClusterRef) (\<lambda>_.
     Ok (b @ replicate (32 - length b) 0)))"

section \<open>Labels\<close>

definition LABEL_NAMESPACE :: bytes where "LABEL_NAMESPACE = utf8 ''grinder.custodian''"
definition CAIP2_SOLANA :: bytes where "CAIP2_SOLANA = utf8 ''solana''"
definition LABEL_NAME_SWAP :: bytes where "LABEL_NAME_SWAP = utf8 ''swap''"
definition LABEL_NAME_JUPITER_GASLESS :: bytes where "LABEL_NAME_JUPITER_GASLESS = utf8 ''jupiter_gasless''"

definition label_id :: "bytes \<Rightarrow> bytes \<Rightarrow> bytes" where
  "label_id adapter cref =
     (if of_char CHR ''@'' \<in> set adapter then adapter
      else
        let label_name = (if take (length LABEL_NAMESPACE) adapter = LABEL_NAMESPACE then adapter
                          else LABEL_NAMESPACE @ utf8 ''.'' @ adapter) in
        label_name @ utf8 ''@'' @ CAIP2_SOLANA @ utf8 '':'' @ cref)"

definition label_hash :: "(bytes \<Rightarrow> pubkey) \<Rightarrow> bytes \<Rightarrow> bytes \<Rightarrow> pubkey" where
  "label_hash keccak' adapter cref = keccak' (label_id adapter cref)"

definition swap_label :: "(bytes \<Rightarrow> pubkey) \<Rightarrow> bytes \<Rightarrow> pubkey" where
  "swap_label keccak' cref = label_hash keccak' LABEL_NAME_SWAP (cluster_ref_str cref)"

definition jupiter_gasless_label :: "(bytes \<Rightarrow> pubkey) \<Rightarrow> bytes \<Rightarrow> pubkey" where
  "jupiter_gasless_label keccak' cref = label_hash keccak' LABEL_NAME_JUPITER_GASLESS (cluster_ref_str cref)"

definition is_known_label :: "(bytes \<Rightarrow> pubkey) \<Rightarrow> pubkey \<Rightarrow> bytes \<Rightarrow> bool" where
  "is_known_label keccak' label cref \<longleftrightarrow>
     label = swap_label keccak' cref \<or> label = jupiter_gasless_label keccak' cref"

text \<open>\<open>grinder_art.rs\<close> and the item names of \<open>lib.rs\<close>; a number in decimal.\<close>

fun decimal :: "nat \<Rightarrow> bytes" where
  "decimal n = (if n < 10 then [word_of_nat (48 + n)] else decimal (n div 10) @ [word_of_nat (48 + n mod 10)])"

declare decimal.simps [simp del]

definition token_json_uri :: "u64 \<Rightarrow> bytes" where
  "token_json_uri cid = utf8 ''https://grindurus.xyz/solana/custodian/'' @ decimal (unat cid)"

definition COLLECTION_NAME :: bytes where "COLLECTION_NAME = utf8 ''Grinders Custodians''"

definition custodian_name :: "u64 \<Rightarrow> bytes" where
  "custodian_name cid = COLLECTION_NAME @ utf8 '' #'' @ decimal (unat cid)"

section \<open>Lemmas\<close>

lemma le_word_bytes [simp]:
  "word_of_nat (le_nat (le_bytes 8 x)) = (x :: u64)" "word_of_nat (le_nat (le_bytes 4 y)) = (y :: u32)"
  by (simp_all add: le_nat_bytes)

text \<open>Where the fields of the encoding are.\<close>

lemma encode_grinders_fields:
  assumes "length disc = 8"
  shows "take 8 (encode_grinders disc s) = disc"
    "slice 8 40 (encode_grinders disc s) = be_bytes 32 (toreador s)"
    "slice 40 72 (encode_grinders disc s) = be_bytes 32 (gr_reserved s)"
    "slice 72 104 (encode_grinders disc s) = be_bytes 32 (gr_grai_program s)"
    "slice 104 112 (encode_grinders disc s) = le_bytes 8 (next_custodian_id s)"
    "slice 112 144 (encode_grinders disc s) = be_bytes 32 (collection_mint s)"
    "slice 144 152 (encode_grinders disc s) = le_bytes 8 (heartbeat_at s)"
    "slice 152 156 (encode_grinders disc s) = le_bytes 4 (grinding_period s)"
    "encode_grinders disc s ! 156 = gr_bump s"
    "length (cluster_ref s) = 32 \<Longrightarrow> slice 157 189 (encode_grinders disc s) = cluster_ref s"
    "length (encode_grinders disc s) = 157 + length (cluster_ref s)"
  using assms by (simp_all add: encode_grinders_def slice_def nth_append)

lemma decode_encode_grinders:
  assumes "length disc = 8" "length (cluster_ref s) = 32"
  shows "decode_grinders disc (encode_grinders disc s) = Some s"
  using assms by (simp add: decode_grinders_def encode_grinders_fields GrindersState_LEN_def)

lemma cluster_ref_str_encode:
  assumes "encode_cluster_ref b = Ok out"
  shows "cluster_ref_str out = b" "length out = 32"
proof -
  have b: "length b \<le> 32" "list_all is_ascii_graphic b" "out = b @ replicate (32 - length b) 0"
    using assms by (auto simp: encode_cluster_ref_def step_iffs)
  have nz: "x \<noteq> 0" "x < 0x80" if "is_ascii_graphic x" for x
    using that by (auto simp: is_ascii_graphic_def word_le_nat_alt word_less_nat_alt)
  have "takeWhile (\<lambda>x. x \<noteq> 0) (b @ replicate k 0) = b" for k
    using b(2) nz(1) by (cases k) (induction b; simp)+
  moreover have "utf8_valid b"
    using b(2) by (induction b rule: utf8_valid.induct) (simp_all add: nz(2))
  ultimately show "cluster_ref_str out = b" by (simp add: cluster_ref_str_def b(3) Let_def)
  show "length out = 32" using b(1,3) by simp
qed

end
