(* ===== verification/Grinders_World.thy ===== *)
theory Grinders_World
  imports Grinders_Types
begin

text \<open>
  The state the Grinders program runs on and the environment it calls.

  The state account lives in the shared ledger as raw bytes, where GRAI reads it too;
  \<open>gn_custodians\<close> holds the custodian accounts by id and \<open>gn_grai\<close> the world of the linked GRAI
  program, whose ledger is the ledger of both. \<open>nenv\<close> holds what is not in this repository beyond
  \<open>env\<close>: address derivation, keccak, the discriminator Anchor computes, the creation of the
  program's accounts, Metaplex's item metadata and collections, and the program a swap is routed
  to, which may do anything the custodian's signature allows.
\<close>

section \<open>World and environment\<close>

record grinders_world =
  gn_custodians :: "u64 \<rightharpoonup> CustodianState"
  gn_grai :: world

datatype nseed =
    GrindersSeed
  | CollectionMintSeed
  | CustodianSeed u64
  | CustodianMintSeed u64

record nenv =
  npda :: "nseed \<Rightarrow> pubkey"
  npda_bump :: "nseed \<Rightarrow> u8"
  nkeccak :: "bytes \<Rightarrow> pubkey"
  grinders_disc :: bytes
  grinders_init :: "pubkey \<Rightarrow> pubkey \<Rightarrow> nat \<Rightarrow> ledger \<Rightarrow> ledger option"
    \<comment> \<open>payer, account, space\<close>
  item_metadata :: "pubkey \<Rightarrow> pubkey \<Rightarrow> bytes \<Rightarrow> bytes \<Rightarrow> pubkey \<Rightarrow> ledger \<Rightarrow> ledger option"
    \<comment> \<open>mint, payer, name, uri, collection\<close>
  verify_collection :: "pubkey \<Rightarrow> pubkey \<Rightarrow> pubkey \<Rightarrow> ledger \<Rightarrow> ledger option"
    \<comment> \<open>payer, mint, collection\<close>
  swap_router :: "pubkey \<Rightarrow> (pubkey \<times> bool \<times> bool) list \<Rightarrow> bytes \<Rightarrow> grinders_world \<Rightarrow> grinders_world option"
    \<comment> \<open>target, accounts with signer and writable flags, data\<close>

abbreviation grinders_key :: "nenv \<Rightarrow> pubkey" where "grinders_key n \<equiv> npda n GrindersSeed"
abbreviation custodian_key :: "nenv \<Rightarrow> u64 \<Rightarrow> pubkey" where "custodian_key n cid \<equiv> npda n (CustodianSeed cid)"
abbreviation custodian_mint_key :: "nenv \<Rightarrow> u64 \<Rightarrow> pubkey" where
  "custodian_mint_key n cid \<equiv> npda n (CustodianMintSeed cid)"

abbreviation nledger :: "grinders_world \<Rightarrow> ledger" where
  "nledger w \<equiv> ledger (gn_grai w)"

definition set_nledger :: "ledger \<Rightarrow> grinders_world \<Rightarrow> grinders_world" where
  "set_nledger l w = w\<lparr>gn_grai := (gn_grai w)\<lparr>ledger := l\<rparr>\<rparr>"

definition ninvoke :: "(ledger \<Rightarrow> ledger option) \<Rightarrow> grinders_world \<Rightarrow> grinders_world nres" where
  "ninvoke f w = and_then (cpi (f (nledger w))) (\<lambda>l. Ok (set_nledger l w))"

text \<open>A call of a GRAI instruction: its failure fails the transaction.\<close>

definition grai_cpi :: "world res \<Rightarrow> grinders_world \<Rightarrow> grinders_world nres" where
  "grai_cpi r w = (case r of Inl _ \<Rightarrow> Inl CpiFailed | Inr g \<Rightarrow> Ok (w\<lparr>gn_grai := g\<rparr>))"

section \<open>Loading and storing accounts\<close>

text \<open>The state account, with its \<open>seeds\<close> and \<open>bump\<close>.\<close>

definition read_grinders :: "nenv \<Rightarrow> ledger \<Rightarrow> GrindersState option" where
  "read_grinders n l = decode_grinders (grinders_disc n) (raw_data l (grinders_key n))"

definition load_grinders :: "nenv \<Rightarrow> grinders_world \<Rightarrow> GrindersState nres" where
  "load_grinders n w =
     and_then (account (read_grinders n (nledger w))) (\<lambda>s.
     and_then (constraint (gr_bump s = npda_bump n GrindersSeed)) (\<lambda>_. Ok s))"

definition put_grinders :: "nenv \<Rightarrow> GrindersState \<Rightarrow> ledger \<Rightarrow> ledger" where
  "put_grinders n s l = l\<lparr>raw_data := (raw_data l)(grinders_key n := encode_grinders (grinders_disc n) s)\<rparr>"

definition store_grinders :: "nenv \<Rightarrow> GrindersState \<Rightarrow> grinders_world \<Rightarrow> grinders_world" where
  "store_grinders n s w = set_nledger (put_grinders n s (nledger w)) w"

text \<open>
  The linked GRAI's state: an address derived under the linked program, holding a GRAI state
  account. One derived under any other program is not owned by GRAI and does not load.
\<close>

definition load_grai :: "env \<Rightarrow> GrindersState \<Rightarrow> grinders_world \<Rightarrow> GraiState nres" where
  "load_grai e s w =
     and_then (constraint (gr_grai_program s = grai_program e)) (\<lambda>_.
     and_then (constraint (gs_bump (grai_state (gn_grai w)) = pda_bump e GraiStateSeed)) (\<lambda>_.
     Ok (grai_state (gn_grai w))))"

definition load_custodian :: "nenv \<Rightarrow> u64 \<Rightarrow> grinders_world \<Rightarrow> CustodianState nres" where
  "load_custodian n cid w =
     and_then (account (gn_custodians w cid)) (\<lambda>c.
     and_then (constraint (custodian_id c = cid \<and> cu_bump c = npda_bump n (CustodianSeed cid))) (\<lambda>_.
     and_then (require (cu_grinders c = grinders_key n) NotCustodianWallet) (\<lambda>_. Ok c)))"

text \<open>A token account with its \<open>owner\<close> and \<open>mint\<close> constraints, in either order.\<close>

definition owned_account ::
  "pubkey \<Rightarrow> pubkey \<Rightarrow> GrindersError \<Rightarrow> pubkey \<Rightarrow> GrindersError \<Rightarrow> grinders_world \<Rightarrow> TokenAccount nres" where
  "owned_account k own own_err m m_err w =
     and_then (account (token_accounts (nledger w) k)) (\<lambda>a.
     and_then (require (tk_owner a = own) own_err) (\<lambda>_.
     and_then (require (tk_mint a = m) m_err) (\<lambda>_. Ok a)))"

definition minted_account ::
  "pubkey \<Rightarrow> pubkey \<Rightarrow> GrindersError \<Rightarrow> pubkey \<Rightarrow> GrindersError \<Rightarrow> grinders_world \<Rightarrow> TokenAccount nres" where
  "minted_account k m m_err own own_err w =
     and_then (account (token_accounts (nledger w) k)) (\<lambda>a.
     and_then (require (tk_mint a = m) m_err) (\<lambda>_.
     and_then (require (tk_owner a = own) own_err) (\<lambda>_. Ok a)))"

definition read_mint :: "pubkey \<Rightarrow> grinders_world \<Rightarrow> Mint nres" where
  "read_mint m w = account (mints (nledger w) m)"

section \<open>\<open>heartbeat.rs\<close>\<close>

definition heartbeat :: "env \<Rightarrow> nenv \<Rightarrow> GrindersState \<Rightarrow> grinders_world \<Rightarrow> grinders_world" where
  "heartbeat e n s w = store_grinders n (s\<lparr>heartbeat_at := unix_timestamp e\<rparr>) w"

section \<open>\<open>custodian.rs\<close>: who may act\<close>

text \<open>The holder of the custodian's NFT: the account's constraints, and the same checks in the handler.\<close>

definition assert_custodian_owner :: "pubkey \<Rightarrow> CustodianState \<Rightarrow> TokenAccount \<Rightarrow> unit nres" where
  "assert_custodian_owner owner c nft =
     and_then (require (tk_mint nft = nft_mint c) InvalidNftOwner) (\<lambda>_.
     and_then (require (tk_owner nft = owner) NotCustodianOwner) (\<lambda>_.
     require (1 \<le> tk_amount nft) NotCustodianOwner))"

definition assert_protocol_owner :: "pubkey \<Rightarrow> GraiState \<Rightarrow> unit nres" where
  "assert_protocol_owner authority gs = require (authority = gs_owner gs) Grinders_Unauthorized"

definition assert_toreador :: "pubkey \<Rightarrow> GrindersState \<Rightarrow> unit nres" where
  "assert_toreador authority s = require (authority = toreador s) NotToreador"

definition require_not_liquidation :: "GraiState \<Rightarrow> unit nres" where
  "require_not_liquidation gs = require (\<not> liquidation gs) Grinders_LiquidationOpen"

text \<open>
  \<open>require_grai_vault_ata\<close>: an account of the token program at the vault's address whose first
  64 bytes - a token account's mint and owner - are the mint and GRAI's state.
\<close>

definition require_grai_vault_ata :: "env \<Rightarrow> pubkey \<Rightarrow> pubkey \<Rightarrow> grinders_world \<Rightarrow> unit nres" where
  "require_grai_vault_ata e vault mint' w =
     and_then (require (vault = vault_key e mint') InvalidGrindersTokenAccount) (\<lambda>_.
     and_then (ok_or (token_accounts (nledger w) vault) InvalidGrindersTokenAccount) (\<lambda>v.
     and_then (require (tk_mint v = mint') InvalidGrindersTokenAccount) (\<lambda>_.
     require (tk_owner v = gs_key e) InvalidGrindersTokenAccount)))"

section \<open>Lemmas\<close>

lemma set_nledger_sel [simp]:
  "nledger (set_nledger l w) = l" "gn_custodians (set_nledger l w) = gn_custodians w"
  "grai_state (gn_grai (set_nledger l w)) = grai_state (gn_grai w)"
  "set_nledger l (set_nledger l' w) = set_nledger l w" "set_nledger (nledger w) w = w"
  by (simp_all add: set_nledger_def)

lemma ninvoke_Ok: "ninvoke f w = Ok w' \<longleftrightarrow> (\<exists>l. f (nledger w) = Some l \<and> w' = set_nledger l w)"
  by (auto simp: ninvoke_def step_iffs)

lemma grai_cpi_Ok: "grai_cpi r w = Ok w' \<longleftrightarrow> (\<exists>g. r = Ok g \<and> w' = w\<lparr>gn_grai := g\<rparr>)"
  by (auto simp: grai_cpi_def split: sum.splits)

lemma put_grinders_sel [simp]:
  "token_accounts (put_grinders n s l) = token_accounts l" "mints (put_grinders n s l) = mints l"
  "bal (put_grinders n s l) k = bal l k"
  by (simp_all add: put_grinders_def bal_def)

lemma read_put_grinders:
  "length (grinders_disc n) = 8 \<Longrightarrow> length (cluster_ref s) = 32 \<Longrightarrow> read_grinders n (put_grinders n s l) = Some s"
  by (simp add: read_grinders_def put_grinders_def decode_encode_grinders)

lemma store_grinders_sel [simp]:
  "gn_custodians (store_grinders n s w) = gn_custodians w" "nledger (store_grinders n s w) = put_grinders n s (nledger w)"
  "grai_state (gn_grai (store_grinders n s w)) = grai_state (gn_grai w)"
  by (simp_all add: store_grinders_def)

lemma load_grinders_Ok: "load_grinders n w = Ok s \<longleftrightarrow>
    read_grinders n (nledger w) = Some s \<and> gr_bump s = npda_bump n GrindersSeed"
  by (auto simp: load_grinders_def step_iffs)

lemma load_grai_Ok: "load_grai e s w = Ok gs \<longleftrightarrow> gr_grai_program s = grai_program e \<and>
    gs_bump (grai_state (gn_grai w)) = pda_bump e GraiStateSeed \<and> gs = grai_state (gn_grai w)"
  by (auto simp: load_grai_def step_iffs)

lemma load_custodian_Ok: "load_custodian n cid w = Ok c \<longleftrightarrow> gn_custodians w cid = Some c \<and>
    custodian_id c = cid \<and> cu_bump c = npda_bump n (CustodianSeed cid) \<and> cu_grinders c = grinders_key n"
  by (auto simp: load_custodian_def step_iffs)

lemma owned_account_Ok: "owned_account k own e1 m e2 w = Ok a \<longleftrightarrow>
    token_accounts (nledger w) k = Some a \<and> tk_owner a = own \<and> tk_mint a = m"
  by (auto simp: owned_account_def step_iffs)

lemma minted_account_Ok: "minted_account k m e1 own e2 w = Ok a \<longleftrightarrow>
    token_accounts (nledger w) k = Some a \<and> tk_mint a = m \<and> tk_owner a = own"
  by (auto simp: minted_account_def step_iffs)

lemmas load_iffs = load_grinders_Ok load_grai_Ok load_custodian_Ok owned_account_Ok minted_account_Ok
  read_mint_def ninvoke_Ok grai_cpi_Ok

end
