(* ===== verification/Grinders_Ops.thy ===== *)
theory Grinders_Ops
  imports Grinders_World
begin

text \<open>
  The instructions of the Grinders program (\<open>programs/grinders/src/lib.rs\<close>, \<open>custodian.rs\<close>,
  \<open>collection.rs\<close>): setting it up, its settings, the custodian NFTs, and moving the reserve to
  and from the custodians, into GRAI and out of the program. An instruction is the checks of its
  \<open>Accounts\<close> struct followed by its handler.
\<close>

section \<open>\<open>collection.rs\<close>\<close>

definition create_collection :: "env \<Rightarrow> nenv \<Rightarrow> pubkey \<Rightarrow> grinders_world \<Rightarrow> grinders_world nres" where
  "create_collection e n payer w =
     (let cm = npda n CollectionMintSeed; key = grinders_key n in
      and_then (ninvoke (create_metadata e cm payer 0 None) w) (\<lambda>w.
      and_then (ninvoke (spl_mint_to e cm (ata e key cm) key 1) w) (\<lambda>w.
      ninvoke (create_master_edition e cm payer) w)))"

definition verify_custodian_collection ::
  "nenv \<Rightarrow> pubkey \<Rightarrow> pubkey \<Rightarrow> pubkey \<Rightarrow> grinders_world \<Rightarrow> grinders_world nres" where
  "verify_custodian_collection n payer item collection w = ninvoke (verify_collection n payer item collection) w"

section \<open>\<open>initialize\<close>\<close>

definition DEFAULT_GRINDING_PERIOD :: u32 where "DEFAULT_GRINDING_PERIOD = 7 * 24 * 60 * 60"

text \<open>\<open>init\<close> of a mint without decimals, and of an associated token account.\<close>

definition init_nft_mint :: "env \<Rightarrow> pubkey \<Rightarrow> pubkey \<Rightarrow> pubkey \<Rightarrow> grinders_world \<Rightarrow> grinders_world nres" where
  "init_nft_mint e payer m auth w =
     and_then (ninvoke (anchor_init e payer m Mint_LEN) w) (ninvoke (spl_initialize_mint2 e m 0 auth))"

definition init_ata :: "env \<Rightarrow> pubkey \<Rightarrow> pubkey \<Rightarrow> pubkey \<Rightarrow> grinders_world \<Rightarrow> grinders_world nres" where
  "init_ata e payer m own w = ninvoke (spl_init_account e payer (ata e own m) m own) w"

definition accounts_InitializeGrinders :: "env \<Rightarrow> nenv \<Rightarrow> pubkey \<Rightarrow> grinders_world \<Rightarrow> grinders_world nres" where
  "accounts_InitializeGrinders e n payer w =
     (let cm = npda n CollectionMintSeed; key = grinders_key n in
      and_then (ninvoke (grinders_init n payer key (8 + GrindersState_LEN)) w) (\<lambda>w.
      and_then (init_nft_mint e payer cm key w) (\<lambda>w.
      init_ata e payer cm key w)))"

definition grinders_initialize ::
  "env \<Rightarrow> nenv \<Rightarrow> pubkey \<Rightarrow> pubkey \<Rightarrow> bytes \<Rightarrow> pubkey \<Rightarrow> grinders_world \<Rightarrow> grinders_world nres" where
  "grinders_initialize e n payer grai_program' cref toreador' w =
     and_then (accounts_InitializeGrinders e n payer w) (\<lambda>w.
     and_then (require (grai_program' \<noteq> default_pubkey) ToZero) (\<lambda>_.
     let t = (if toreador' = default_pubkey then payer else toreador') in
     and_then (encode_cluster_ref cref) (\<lambda>cref.
     let s = \<lparr> toreador = t, gr_reserved = default_pubkey, gr_grai_program = grai_program',
               next_custodian_id = 0, collection_mint = npda n CollectionMintSeed,
               heartbeat_at = unix_timestamp e, grinding_period = DEFAULT_GRINDING_PERIOD,
               gr_bump = npda_bump n GrindersSeed, cluster_ref = cref \<rparr> in
     and_then (create_collection e n payer w) (\<lambda>w.
     Ok (store_grinders n s w)))))"

section \<open>Settings\<close>

definition accounts_SetGrindPeriod ::
  "env \<Rightarrow> nenv \<Rightarrow> pubkey \<Rightarrow> grinders_world \<Rightarrow> (GrindersState \<times> GraiState) nres" where
  "accounts_SetGrindPeriod e n owner w =
     and_then (load_grinders n w) (\<lambda>s.
     and_then (load_grai e s w) (\<lambda>gs.
     and_then (require (owner = gs_owner gs) Grinders_Unauthorized) (\<lambda>_.
     Ok (s, gs))))"

definition set_grind_period ::
  "env \<Rightarrow> nenv \<Rightarrow> pubkey \<Rightarrow> u32 \<Rightarrow> grinders_world \<Rightarrow> grinders_world nres" where
  "set_grind_period e n owner grind_period w =
     and_then (accounts_SetGrindPeriod e n owner w) (\<lambda>(s, gs).
     and_then (require (24 * 60 * 60 \<le> grind_period \<and> grind_period \<le> 30 * 24 * 60 * 60) InvalidGrindPeriod) (\<lambda>_.
     Ok (store_grinders n (s\<lparr>grinding_period := grind_period\<rparr>) w)))"

definition set_toreador ::
  "env \<Rightarrow> nenv \<Rightarrow> pubkey \<Rightarrow> pubkey \<Rightarrow> grinders_world \<Rightarrow> grinders_world nres" where
  "set_toreador e n owner toreador' w =
     and_then (accounts_SetGrindPeriod e n owner w) (\<lambda>(s, gs).
     and_then (require (toreador' \<noteq> default_pubkey) ToreadorZero) (\<lambda>_.
     Ok (store_grinders n (s\<lparr>toreador := toreador'\<rparr>) w)))"

text \<open>\<open>heartbeat\<close>, for the linked GRAI's state account as a signer.\<close>

definition accounts_Heartbeat :: "env \<Rightarrow> nenv \<Rightarrow> grinders_world \<Rightarrow> (GrindersState \<times> GraiState) nres" where
  "accounts_Heartbeat e n w =
     and_then (load_grinders n w) (\<lambda>s.
     and_then (load_grai e s w) (\<lambda>gs.
     and_then (require (gs_grinders gs = grinders_key n) NotGrai) (\<lambda>_.
     Ok (s, gs))))"

definition execute_heartbeat :: "env \<Rightarrow> nenv \<Rightarrow> bool \<Rightarrow> grinders_world \<Rightarrow> grinders_world nres" where
  "execute_heartbeat e n grai_signed w =
     and_then (accounts_Heartbeat e n w) (\<lambda>(s, gs).
     and_then (require grai_signed NotGrai) (\<lambda>_.
     Ok (heartbeat e n s w)))"

section \<open>Custodian NFTs\<close>

record mint_accounts =
  mc_authority :: pubkey
  mc_custodian_owner :: pubkey
  mc_grai_program :: pubkey
  mc_base_mint :: pubkey
  mc_quote_mint :: pubkey

definition accounts_MintCustodian ::
  "env \<Rightarrow> nenv \<Rightarrow> mint_accounts \<Rightarrow> grinders_world \<Rightarrow> (GrindersState \<times> grinders_world) nres" where
  "accounts_MintCustodian e n ac w =
     and_then (load_grinders n w) (\<lambda>s.
     let payer = mc_authority ac; cid = next_custodian_id s; wallet = custodian_key n cid in
     and_then (require (payer = toreador s) NotToreador) (\<lambda>_.
     and_then (require (mc_grai_program ac = gr_grai_program s) Grinders_Unauthorized) (\<lambda>_.
     and_then (read_mint (mc_base_mint ac) w) (\<lambda>_.
     and_then (read_mint (mc_quote_mint ac) w) (\<lambda>_.
     and_then (ninvoke (grinders_init n payer wallet (8 + CustodianState_LEN)) w) (\<lambda>w.
     and_then (read_mint (collection_mint s) w) (\<lambda>_.
     and_then (init_nft_mint e payer (custodian_mint_key n cid) (grinders_key n) w) (\<lambda>w.
     and_then (init_ata e payer (custodian_mint_key n cid) (mc_custodian_owner ac) w) (\<lambda>w.
     and_then (init_ata e payer (mc_base_mint ac) wallet w) (\<lambda>w.
     and_then (init_ata e payer (mc_quote_mint ac) wallet w) (\<lambda>w.
     Ok (s, w))))))))))))"

definition new_custodian :: "nenv \<Rightarrow> mint_accounts \<Rightarrow> GrindersState \<Rightarrow> pubkey \<Rightarrow> CustodianState" where
  "new_custodian n ac s label =
     \<lparr> cu_grinders = grinders_key n, custodian_id = next_custodian_id s, cu_grai_program = mc_grai_program ac,
       cu_label = label, base_mint = mc_base_mint ac, quote_mint = mc_quote_mint ac,
       nft_mint = custodian_mint_key n (next_custodian_id s), nft_owner = mc_custodian_owner ac,
       cu_bump = npda_bump n (CustodianSeed (next_custodian_id s)) \<rparr>"

definition mint_custodian ::
  "env \<Rightarrow> nenv \<Rightarrow> mint_accounts \<Rightarrow> pubkey \<Rightarrow> grinders_world \<Rightarrow> grinders_world nres" where
  "mint_custodian e n ac label w =
     and_then (accounts_MintCustodian e n ac w) (\<lambda>(s, w).
     and_then (require (mc_base_mint ac \<noteq> default_pubkey) BaseZero) (\<lambda>_.
     and_then (require (mc_quote_mint ac \<noteq> default_pubkey) QuoteZero) (\<lambda>_.
     and_then (require (mc_base_mint ac \<noteq> mc_quote_mint ac) SameAsset) (\<lambda>_.
     let cid = next_custodian_id s; m = custodian_mint_key n cid in
     and_then (ok_or (checked_add cid 1) Grinders_MathOverflow) (\<lambda>next.
     and_then (require (is_known_label (nkeccak n) label (cluster_ref s)) UnknownCustodianKind) (\<lambda>_.
     let w = w\<lparr>gn_custodians := (gn_custodians w)(cid \<mapsto> new_custodian n ac s label)\<rparr> in
     and_then (ninvoke (item_metadata n m (mc_authority ac) (custodian_name cid) (token_json_uri cid)
                 (collection_mint s)) w) (\<lambda>w.
     and_then (verify_custodian_collection n (mc_authority ac) m (collection_mint s) w) (\<lambda>w.
     and_then (ninvoke (spl_mint_to e m (ata e (mc_custodian_owner ac) m) (grinders_key n) 1) w) (\<lambda>w.
     Ok (store_grinders n (s\<lparr>next_custodian_id := next\<rparr>) w))))))))))"

text \<open>\<open>init_if_needed\<close> of the receiver's associated account.\<close>

definition init_ata_if_needed :: "env \<Rightarrow> pubkey \<Rightarrow> pubkey \<Rightarrow> pubkey \<Rightarrow> grinders_world \<Rightarrow> grinders_world nres" where
  "init_ata_if_needed e payer m own w =
     (case token_accounts (nledger w) (ata e own m) of
        Some a \<Rightarrow> and_then (constraint (tk_mint a = m \<and> tk_owner a = own)) (\<lambda>_. Ok w)
      | None \<Rightarrow> init_ata e payer m own w)"

definition accounts_TransferCustodianNft ::
  "env \<Rightarrow> nenv \<Rightarrow> u64 \<Rightarrow> pubkey \<Rightarrow> pubkey \<Rightarrow> pubkey \<Rightarrow> pubkey \<Rightarrow> grinders_world \<Rightarrow>
   (CustodianState \<times> grinders_world) nres" where
  "accounts_TransferCustodianNft e n cid current_owner new_owner custodian_mint from_ata w =
     and_then (account (gn_custodians w cid)) (\<lambda>c.
     and_then (constraint (custodian_id c = cid \<and> cu_bump c = npda_bump n (CustodianSeed cid))) (\<lambda>_.
     and_then (read_mint custodian_mint w) (\<lambda>_.
     and_then (require (custodian_mint = nft_mint c) InvalidNftOwner) (\<lambda>_.
     and_then (minted_account from_ata custodian_mint InvalidNftOwner current_owner InvalidNftOwner w) (\<lambda>a.
     and_then (require (1 \<le> tk_amount a) InvalidNftOwner) (\<lambda>_.
     and_then (init_ata_if_needed e current_owner custodian_mint new_owner w) (\<lambda>w.
     Ok (c, w))))))))"

definition transfer_custodian_nft ::
  "env \<Rightarrow> nenv \<Rightarrow> u64 \<Rightarrow> pubkey \<Rightarrow> pubkey \<Rightarrow> pubkey \<Rightarrow> pubkey \<Rightarrow> grinders_world \<Rightarrow> grinders_world nres" where
  "transfer_custodian_nft e n cid current_owner new_owner custodian_mint from_ata w =
     and_then (accounts_TransferCustodianNft e n cid current_owner new_owner custodian_mint from_ata w) (\<lambda>(c, w).
     and_then (ninvoke (spl_transfer e from_ata (ata e new_owner custodian_mint) current_owner 1) w) (\<lambda>w.
     Ok (w\<lparr>gn_custodians := (gn_custodians w)(cid \<mapsto> c\<lparr>nft_owner := new_owner\<rparr>)\<rparr>)))"

section \<open>Trading assets\<close>

record set_assets_accounts =
  sa_authority :: pubkey
  sa_base_ata :: pubkey
  sa_quote_ata :: pubkey
  sa_new_base :: pubkey
  sa_new_quote :: pubkey

definition accounts_SetAssets ::
  "nenv \<Rightarrow> u64 \<Rightarrow> set_assets_accounts \<Rightarrow> grinders_world \<Rightarrow>
   (GrindersState \<times> CustodianState \<times> TokenAccount \<times> TokenAccount) nres" where
  "accounts_SetAssets n cid ac w =
     and_then (load_grinders n w) (\<lambda>s.
     and_then (require (sa_authority ac = toreador s) NotToreador) (\<lambda>_.
     and_then (load_custodian n cid w) (\<lambda>c.
     and_then (owned_account (sa_base_ata ac) (custodian_key n cid) NotCustodianOwner (base_mint c) NotTradingAsset w) (\<lambda>b.
     and_then (owned_account (sa_quote_ata ac) (custodian_key n cid) NotCustodianOwner (quote_mint c) NotTradingAsset w) (\<lambda>q.
     and_then (read_mint (sa_new_base ac) w) (\<lambda>_.
     and_then (read_mint (sa_new_quote ac) w) (\<lambda>_.
     Ok (s, c, b, q))))))))"

definition execute_set_assets ::
  "nenv \<Rightarrow> pubkey \<Rightarrow> GrindersState \<Rightarrow> CustodianState \<Rightarrow> TokenAccount \<Rightarrow> TokenAccount \<Rightarrow> pubkey \<Rightarrow> pubkey \<Rightarrow>
   CustodianState nres" where
  "execute_set_assets n authority s c base_ata quote_ata new_base new_quote =
     and_then (assert_toreador authority s) (\<lambda>_.
     and_then (require (cu_grinders c = grinders_key n) NotCustodianWallet) (\<lambda>_.
     and_then (require (tk_amount base_ata = 0 \<and> tk_amount quote_ata = 0) NonZeroBalance) (\<lambda>_.
     and_then (require (new_base \<noteq> default_pubkey) BaseZero) (\<lambda>_.
     and_then (require (new_quote \<noteq> default_pubkey) QuoteZero) (\<lambda>_.
     and_then (require (new_base \<noteq> new_quote) SameAsset) (\<lambda>_.
     Ok (c\<lparr>base_mint := new_base, quote_mint := new_quote\<rparr>)))))))"

definition set_assets ::
  "nenv \<Rightarrow> u64 \<Rightarrow> set_assets_accounts \<Rightarrow> grinders_world \<Rightarrow> grinders_world nres" where
  "set_assets n cid ac w =
     and_then (accounts_SetAssets n cid ac w) (\<lambda>(s, c, b, q).
     and_then (execute_set_assets n (sa_authority ac) s c b q (sa_new_base ac) (sa_new_quote ac)) (\<lambda>c.
     Ok (w\<lparr>gn_custodians := (gn_custodians w)(cid \<mapsto> c)\<rparr>)))"

end
