(* ===== verification/Grinders_Moves.thy ===== *)
theory Grinders_Moves
  imports Grinders_Ops
begin

text \<open>
  The instructions of the Grinders program that move tokens: the reserve to and from the
  custodians (\<open>allocate\<close>, \<open>custodian_deallocate\<close>), yield into GRAI (\<open>custodian_distribute\<close>),
  the sweeps of a liquidation, withdrawals, and the custodians' swaps (\<open>custodians/\<close>).
\<close>

section \<open>The reserve\<close>

record reserve_accounts =
  ra_authority :: pubkey
  ra_custodian_id :: u64
  ra_asset_mint :: pubkey
  ra_grinders_ata :: pubkey
  ra_custodian_ata :: pubkey

definition accounts_Allocate ::
  "nenv \<Rightarrow> reserve_accounts \<Rightarrow> grinders_world \<Rightarrow> (GrindersState \<times> TokenAccount) nres" where
  "accounts_Allocate n ac w =
     and_then (load_grinders n w) (\<lambda>s.
     and_then (require (ra_authority ac = toreador s) NotToreador) (\<lambda>_.
     and_then (load_custodian n (ra_custodian_id ac) w) (\<lambda>c.
     and_then (read_mint (ra_asset_mint ac) w) (\<lambda>_.
     and_then (owned_account (ra_grinders_ata ac) (grinders_key n) InvalidGrindersTokenAccount
                 (ra_asset_mint ac) NotTradingAsset w) (\<lambda>a.
     and_then (owned_account (ra_custodian_ata ac) (custodian_key n (ra_custodian_id ac)) NotCustodianOwner
                 (ra_asset_mint ac) NotTradingAsset w) (\<lambda>_.
     Ok (s, a)))))))"

definition execute_allocate ::
  "env \<Rightarrow> nenv \<Rightarrow> pubkey \<Rightarrow> TokenAccount \<Rightarrow> pubkey \<Rightarrow> u64 \<Rightarrow> grinders_world \<Rightarrow> grinders_world nres" where
  "execute_allocate e n grinders_ata a custodian_ata amount w =
     and_then (require (0 < amount) Grinders_AmountZero) (\<lambda>_.
     and_then (require (amount \<le> tk_amount a) InsufficientReserve) (\<lambda>_.
     ninvoke (spl_transfer e grinders_ata custodian_ata (grinders_key n) amount) w))"

definition allocate :: "env \<Rightarrow> nenv \<Rightarrow> reserve_accounts \<Rightarrow> u64 \<Rightarrow> grinders_world \<Rightarrow> grinders_world nres" where
  "allocate e n ac amount w =
     and_then (accounts_Allocate n ac w) (\<lambda>(s, a).
     and_then (execute_allocate e n (ra_grinders_ata ac) a (ra_custodian_ata ac) amount w) (\<lambda>w.
     Ok (heartbeat e n s w)))"

definition accounts_CustodianDeallocate ::
  "env \<Rightarrow> nenv \<Rightarrow> reserve_accounts \<Rightarrow> grinders_world \<Rightarrow> (GrindersState \<times> GraiState \<times> CustodianState) nres" where
  "accounts_CustodianDeallocate e n ac w =
     and_then (load_grinders n w) (\<lambda>s.
     and_then (require (ra_authority ac = toreador s) NotToreador) (\<lambda>_.
     and_then (load_grai e s w) (\<lambda>gs.
     and_then (load_custodian n (ra_custodian_id ac) w) (\<lambda>c.
     and_then (read_mint (ra_asset_mint ac) w) (\<lambda>_.
     and_then (owned_account (ra_custodian_ata ac) (custodian_key n (ra_custodian_id ac)) NotCustodianOwner
                 (ra_asset_mint ac) NotTradingAsset w) (\<lambda>_.
     and_then (owned_account (ra_grinders_ata ac) (grinders_key n) InvalidGrindersTokenAccount
                 (ra_asset_mint ac) NotTradingAsset w) (\<lambda>_.
     Ok (s, gs, c))))))))"

definition execute_custodian_deallocate ::
  "env \<Rightarrow> nenv \<Rightarrow> pubkey \<Rightarrow> GrindersState \<Rightarrow> CustodianState \<Rightarrow> GraiState \<Rightarrow> pubkey \<Rightarrow> pubkey \<Rightarrow> u64 \<Rightarrow>
   grinders_world \<Rightarrow> grinders_world nres" where
  "execute_custodian_deallocate e n authority s c gs custodian_ata grinders_ata amount w =
     and_then (assert_toreador authority s) (\<lambda>_.
     and_then (require (cu_grinders c = grinders_key n) NotCustodianWallet) (\<lambda>_.
     and_then (require_not_liquidation gs) (\<lambda>_.
     and_then (require (0 < amount) Grinders_AmountZero) (\<lambda>_.
     ninvoke (spl_transfer e custodian_ata grinders_ata (custodian_key n (custodian_id c)) amount) w))))"

definition custodian_deallocate ::
  "env \<Rightarrow> nenv \<Rightarrow> reserve_accounts \<Rightarrow> u64 \<Rightarrow> grinders_world \<Rightarrow> grinders_world nres" where
  "custodian_deallocate e n ac amount w =
     and_then (accounts_CustodianDeallocate e n ac w) (\<lambda>(s, gs, c).
     and_then (execute_custodian_deallocate e n (ra_authority ac) s c gs (ra_custodian_ata ac) (ra_grinders_ata ac)
                 amount w) (\<lambda>w.
     Ok (heartbeat e n s w)))"

section \<open>Yield into GRAI\<close>

record distribute_accounts =
  di_authority :: pubkey
  di_payer :: pubkey
  di_custodian_id :: u64
  di_asset_mint :: pubkey
  di_price_feed :: pubkey
  di_grai_mint :: pubkey
  di_custodian_ata :: pubkey

text \<open>
  GRAI's asset configuration, vaults and position are passed through unchecked: GRAI derives
  their addresses itself. The program called is the one recorded in the custodian.
\<close>

definition accounts_CustodianDistribute ::
  "env \<Rightarrow> nenv \<Rightarrow> distribute_accounts \<Rightarrow> grinders_world \<Rightarrow> (GrindersState \<times> GraiState \<times> CustodianState) nres" where
  "accounts_CustodianDistribute e n ac w =
     and_then (load_grinders n w) (\<lambda>s.
     and_then (require (di_authority ac = toreador s) NotToreador) (\<lambda>_.
     and_then (load_custodian n (di_custodian_id ac) w) (\<lambda>c.
     and_then (constraint (cu_grai_program c = grai_program e)) (\<lambda>_.
     and_then (load_grai e s w) (\<lambda>gs.
     and_then (read_mint (di_asset_mint ac) w) (\<lambda>_.
     and_then (read_mint (di_grai_mint ac) w) (\<lambda>_.
     and_then (owned_account (di_custodian_ata ac) (custodian_key n (di_custodian_id ac)) NotCustodianOwner
                 (di_asset_mint ac) NotTradingAsset w) (\<lambda>_.
     Ok (s, gs, c)))))))))"

definition execute_custodian_distribute ::
  "env \<Rightarrow> nenv \<Rightarrow> distribute_accounts \<Rightarrow> GrindersState \<Rightarrow> CustodianState \<Rightarrow> GraiState \<Rightarrow> u64 \<Rightarrow>
   grinders_world \<Rightarrow> grinders_world nres" where
  "execute_custodian_distribute e n ac s c gs yield_amount w =
     and_then (assert_toreador (di_authority ac) s) (\<lambda>_.
     and_then (require (cu_grinders c = grinders_key n) NotCustodianWallet) (\<lambda>_.
     and_then (require_not_liquidation gs) (\<lambda>_.
     and_then (require (0 < yield_amount) Grinders_AmountZero) (\<lambda>_.
     grai_cpi (dispatch e (Distribute (custodian_key n (custodian_id c)) (di_payer ac) (di_asset_mint ac)
                 (di_price_feed ac) (di_grai_mint ac) (di_custodian_ata ac) yield_amount) (gn_grai w)) w))))"

definition custodian_distribute ::
  "env \<Rightarrow> nenv \<Rightarrow> distribute_accounts \<Rightarrow> u64 \<Rightarrow> grinders_world \<Rightarrow> grinders_world nres" where
  "custodian_distribute e n ac yield_amount w =
     and_then (accounts_CustodianDistribute e n ac w) (\<lambda>(s, gs, c).
     and_then (execute_custodian_distribute e n ac s c gs yield_amount w) (\<lambda>w.
     Ok (heartbeat e n s w)))"

section \<open>Liquidation\<close>

definition accounts_LiquidateIdle :: "env \<Rightarrow> nenv \<Rightarrow> grinders_world \<Rightarrow> GraiState nres" where
  "accounts_LiquidateIdle e n w =
     and_then (load_grinders n w) (\<lambda>s.
     and_then (load_grai e s w) (\<lambda>gs.
     and_then (require (gs_grinders gs = grinders_key n) NotGrai) (\<lambda>_. Ok gs)))"

text \<open>The pass that binds every pair of accounts, then the pass that sweeps.\<close>

fun bind_idle :: "env \<Rightarrow> nenv \<Rightarrow> pubkey list \<Rightarrow> pubkey list \<Rightarrow> grinders_world \<Rightarrow> unit nres" where
  "bind_idle e n (a # v # rest) (m # ms) w =
     and_then (minted_account a m NotTradingAsset (grinders_key n) InvalidGrindersTokenAccount w) (\<lambda>_.
     and_then (require_grai_vault_ata e v m w) (\<lambda>_.
     bind_idle e n rest ms w))"
| "bind_idle e n _ _ w = Ok ()"

definition sweep_idle :: "env \<Rightarrow> nenv \<Rightarrow> pubkey \<Rightarrow> pubkey \<Rightarrow> grinders_world \<Rightarrow> grinders_world nres" where
  "sweep_idle e n grinders_ata vault w =
     and_then (account (token_accounts (nledger w) grinders_ata)) (\<lambda>a.
     if tk_amount a = 0 then Ok w
     else ninvoke (spl_transfer e grinders_ata vault (grinders_key n) (tk_amount a)) w)"

fun sweep_idles :: "env \<Rightarrow> nenv \<Rightarrow> pubkey list \<Rightarrow> pubkey list \<Rightarrow> grinders_world \<Rightarrow> grinders_world nres" where
  "sweep_idles e n (a # v # rest) (m # ms) w = and_then (sweep_idle e n a v w) (sweep_idles e n rest ms)"
| "sweep_idles e n _ _ w = Ok w"

definition liquidate_idle :: "env \<Rightarrow> nenv \<Rightarrow> pubkey list \<Rightarrow> grinders_world \<Rightarrow> grinders_world nres" where
  "liquidate_idle e n remaining w =
     and_then (accounts_LiquidateIdle e n w) (\<lambda>gs.
     let ms = asset_mints gs in
     and_then (require (length remaining = length ms * 2) Grinders_InvalidRemainingAccounts) (\<lambda>_.
     and_then (bind_idle e n remaining ms w) (\<lambda>_.
     and_then (require (liquidation gs) NoLiquidation) (\<lambda>_.
     sweep_idles e n remaining ms w))))"

record custodian_atas =
  ca_base_mint :: pubkey
  ca_quote_mint :: pubkey
  ca_base_custodian :: pubkey
  ca_quote_custodian :: pubkey
  ca_base_grinders :: pubkey
  ca_quote_grinders :: pubkey

definition check_vault_ata :: "env \<Rightarrow> pubkey \<Rightarrow> grinders_world \<Rightarrow> unit nres" where
  "check_vault_ata e m w =
     and_then (account (token_accounts (nledger w) (vault_key e m))) (\<lambda>v.
     require (tk_mint v = m) InvalidGrindersTokenAccount)"

definition accounts_LiquidateCustodian ::
  "env \<Rightarrow> nenv \<Rightarrow> u64 \<Rightarrow> custodian_atas \<Rightarrow> grinders_world \<Rightarrow> (GraiState \<times> TokenAccount \<times> TokenAccount) nres" where
  "accounts_LiquidateCustodian e n cid ac w =
     and_then (accounts_LiquidateIdle e n w) (\<lambda>gs.
     and_then (load_custodian n cid w) (\<lambda>c.
     and_then (read_mint (ca_base_mint ac) w) (\<lambda>_.
     and_then (read_mint (ca_quote_mint ac) w) (\<lambda>_.
     and_then (owned_account (ca_base_custodian ac) (custodian_key n cid) NotCustodianOwner (base_mint c) NotTradingAsset w) (\<lambda>b.
     and_then (require (ca_base_mint ac = base_mint c) NotTradingAsset) (\<lambda>_.
     and_then (owned_account (ca_quote_custodian ac) (custodian_key n cid) NotCustodianOwner (quote_mint c) NotTradingAsset w) (\<lambda>q.
     and_then (require (ca_quote_mint ac = quote_mint c) NotTradingAsset) (\<lambda>_.
     and_then (owned_account (ca_base_grinders ac) (grinders_key n) InvalidGrindersTokenAccount (ca_base_mint ac) NotTradingAsset w) (\<lambda>_.
     and_then (owned_account (ca_quote_grinders ac) (grinders_key n) InvalidGrindersTokenAccount (ca_quote_mint ac) NotTradingAsset w) (\<lambda>_.
     and_then (check_vault_ata e (ca_base_mint ac) w) (\<lambda>_.
     and_then (check_vault_ata e (ca_quote_mint ac) w) (\<lambda>_.
     Ok (gs, b, q)))))))))))))"

text \<open>One asset: custodian to reserve, then reserve to vault.\<close>

definition forward :: "env \<Rightarrow> nenv \<Rightarrow> u64 \<Rightarrow> pubkey \<Rightarrow> pubkey \<Rightarrow> pubkey \<Rightarrow> u64 \<Rightarrow> grinders_world \<Rightarrow> grinders_world nres" where
  "forward e n cid custodian_ata grinders_ata vault amount w =
     (if 0 < amount then
        and_then (ninvoke (spl_transfer e custodian_ata grinders_ata (custodian_key n cid) amount) w)
          (ninvoke (spl_transfer e grinders_ata vault (grinders_key n) amount))
      else Ok w)"

definition liquidate_custodian ::
  "env \<Rightarrow> nenv \<Rightarrow> u64 \<Rightarrow> custodian_atas \<Rightarrow> grinders_world \<Rightarrow> grinders_world nres" where
  "liquidate_custodian e n cid ac w =
     and_then (accounts_LiquidateCustodian e n cid ac w) (\<lambda>(gs, b, q).
     and_then (require (liquidation gs) NoLiquidation) (\<lambda>_.
     and_then (forward e n cid (ca_base_custodian ac) (ca_base_grinders ac) (vault_key e (ca_base_mint ac)) (tk_amount b) w)
       (forward e n cid (ca_quote_custodian ac) (ca_quote_grinders ac) (vault_key e (ca_quote_mint ac)) (tk_amount q))))"

section \<open>Withdrawals\<close>

definition withdraw_sol ::
  "env \<Rightarrow> nenv \<Rightarrow> pubkey \<Rightarrow> pubkey \<Rightarrow> u64 \<Rightarrow> grinders_world \<Rightarrow> grinders_world nres" where
  "withdraw_sol e n owner to amount w =
     and_then (accounts_SetGrindPeriod e n owner w) (\<lambda>_.
     and_then (require (0 < amount) Grinders_AmountZero) (\<lambda>_.
     and_then (require (to \<noteq> default_pubkey) ToZero) (\<lambda>_.
     and_then (ok_or (sys_transfer e (grinders_key n) to amount (nledger w)) SolTransferFailed) (\<lambda>l.
     Ok (set_nledger l w)))))"

record withdraw_accounts =
  wt_owner :: pubkey
  wt_asset_mint :: pubkey
  wt_to :: pubkey
  wt_grinders_ata :: pubkey
  wt_to_ata :: pubkey

definition accounts_WithdrawToken ::
  "env \<Rightarrow> nenv \<Rightarrow> withdraw_accounts \<Rightarrow> grinders_world \<Rightarrow> (TokenAccount \<times> TokenAccount) nres" where
  "accounts_WithdrawToken e n ac w =
     and_then (accounts_SetGrindPeriod e n (wt_owner ac) w) (\<lambda>_.
     and_then (read_mint (wt_asset_mint ac) w) (\<lambda>_.
     and_then (minted_account (wt_grinders_ata ac) (wt_asset_mint ac) InvalidGrindersTokenAccount
                 (grinders_key n) InvalidGrindersTokenAccount w) (\<lambda>a.
     and_then (account (token_accounts (nledger w) (wt_to_ata ac))) (\<lambda>b.
     and_then (require (tk_mint b = wt_asset_mint ac) InvalidGrindersTokenAccount) (\<lambda>_.
     Ok (a, b))))))"

definition withdraw_token ::
  "env \<Rightarrow> nenv \<Rightarrow> withdraw_accounts \<Rightarrow> u64 \<Rightarrow> grinders_world \<Rightarrow> grinders_world nres" where
  "withdraw_token e n ac amount w =
     and_then (accounts_WithdrawToken e n ac w) (\<lambda>(a, b).
     and_then (require (0 < amount) Grinders_AmountZero) (\<lambda>_.
     and_then (require (wt_to ac \<noteq> default_pubkey) ToZero) (\<lambda>_.
     and_then (require (tk_mint a = wt_asset_mint ac) InvalidGrindersTokenAccount) (\<lambda>_.
     and_then (require (tk_owner a = grinders_key n) InvalidGrindersTokenAccount) (\<lambda>_.
     and_then (require (tk_mint b = wt_asset_mint ac) InvalidGrindersTokenAccount) (\<lambda>_.
     ninvoke (spl_transfer e (wt_grinders_ata ac) (wt_to_ata ac) (grinders_key n) amount) w))))))"

end
