(* ===== verification/Grinders_Swap.thy ===== *)
theory Grinders_Swap
  imports Grinders_Moves
begin

text \<open>
  The custodians' swaps (\<open>custodians/explicit_swap.rs\<close>, \<open>custodians/jupiter_gasless.rs\<close>): a call of a
  router chosen by the NFT's holder, bounded by the price it executed at.
\<close>

definition PRICE_DECIMALS :: u128 where "PRICE_DECIMALS = 1000000000000000000"

text \<open>\<open>10u128.checked_pow\<close>: repeated squaring overflows exactly when the power does not fit.\<close>

definition swap_pow10 :: "u8 \<Rightarrow> u128 nres" where
  "swap_pow10 decimals =
     ok_or (if 10 ^ unat decimals < (2 :: nat) ^ 128 then Some (word_of_nat (10 ^ unat decimals)) else None)
       Grinders_MathOverflow"

definition quote_per_base :: "u64 \<Rightarrow> u64 \<Rightarrow> u8 \<Rightarrow> u8 \<Rightarrow> u128 nres" where
  "quote_per_base base_delta quote_delta base_decimals quote_decimals =
     and_then (swap_pow10 base_decimals) (\<lambda>base_scale.
     and_then (swap_pow10 quote_decimals) (\<lambda>quote_scale.
     let quote = (ucast quote_delta :: u128) in
     ok_or (Option.bind (checked_mul quote PRICE_DECIMALS) (\<lambda>v.
            Option.bind (checked_mul v base_scale) (\<lambda>v.
            Option.bind (checked_div v (ucast base_delta)) (\<lambda>v.
            checked_div v quote_scale)))) Grinders_MathOverflow))"

text \<open>The outcome of a swap: what left, what arrived, at what price.\<close>

definition settle_swap ::
  "u64 \<Rightarrow> u64 \<Rightarrow> u64 \<Rightarrow> u64 \<Rightarrow> u8 \<Rightarrow> u8 \<Rightarrow> u128 \<Rightarrow> (u64 \<times> u64 \<times> u128) nres" where
  "settle_swap base_before quote_before base_after quote_after base_decimals quote_decimals limit_price =
     (if base_after < base_before \<and> quote_before < quote_after then
        and_then (ok_or (checked_sub base_before base_after) Grinders_MathOverflow) (\<lambda>base_delta.
        and_then (ok_or (checked_sub quote_after quote_before) Grinders_MathOverflow) (\<lambda>quote_delta.
        and_then (quote_per_base base_delta quote_delta base_decimals quote_decimals) (\<lambda>price.
        and_then (require (limit_price \<le> price) ExceededPriceLimit) (\<lambda>_.
        Ok (base_delta, quote_delta, price)))))
      else if base_before < base_after \<and> quote_after < quote_before then
        and_then (ok_or (checked_sub base_after base_before) Grinders_MathOverflow) (\<lambda>base_delta.
        and_then (ok_or (checked_sub quote_before quote_after) Grinders_MathOverflow) (\<lambda>quote_delta.
        and_then (quote_per_base base_delta quote_delta base_decimals quote_decimals) (\<lambda>price.
        and_then (require (price \<le> limit_price) ExceededPriceLimit) (\<lambda>_.
        Ok (base_delta, quote_delta, price)))))
      else Err NoTrade)"

record swap_accounts =
  sw_owner :: pubkey
  sw_custodian_id :: u64
  sw_nft_ata :: pubkey
  sw_base_ata :: pubkey
  sw_quote_ata :: pubkey
  sw_base_mint :: pubkey
  sw_quote_mint :: pubkey

text \<open>
  The checks of both swaps; the label is the one each serves. The two mint accounts are not
  bound to the custodian's mints.
\<close>

definition accounts_CustodianSwap ::
  "nenv \<Rightarrow> (bytes \<Rightarrow> pubkey) \<Rightarrow> swap_accounts \<Rightarrow> grinders_world \<Rightarrow>
   (CustodianState \<times> TokenAccount \<times> TokenAccount \<times> TokenAccount \<times> Mint \<times> Mint) nres" where
  "accounts_CustodianSwap n label_of ac w =
     and_then (load_grinders n w) (\<lambda>s.
     and_then (load_custodian n (sw_custodian_id ac) w) (\<lambda>c.
     let key = custodian_key n (sw_custodian_id ac) in
     and_then (require (cu_label c = label_of (cluster_ref s)) CustodianKindMismatch) (\<lambda>_.
     and_then (account (token_accounts (nledger w) (sw_nft_ata ac))) (\<lambda>nft.
     and_then (assert_custodian_owner (sw_owner ac) c nft) (\<lambda>_.
     and_then (minted_account (sw_base_ata ac) (base_mint c) NotTradingAsset key NotCustodianOwner w) (\<lambda>b.
     and_then (minted_account (sw_quote_ata ac) (quote_mint c) NotTradingAsset key NotCustodianOwner w) (\<lambda>q.
     and_then (read_mint (sw_base_mint ac) w) (\<lambda>bm.
     and_then (read_mint (sw_quote_mint ac) w) (\<lambda>qm.
     Ok (c, nft, b, q, bm, qm))))))))))"

text \<open>The metas of the routed instruction: the custodian signs, the others as they did.\<close>

definition router_metas :: "pubkey \<Rightarrow> (pubkey \<times> bool \<times> bool) list \<Rightarrow> (pubkey \<times> bool \<times> bool) list" where
  "router_metas key = map (\<lambda>(k, is_signer, is_writable). (k, if k = key then True else is_signer, is_writable))"

definition execute_swap ::
  "nenv \<Rightarrow> swap_accounts \<Rightarrow> CustodianState \<Rightarrow> TokenAccount \<Rightarrow> TokenAccount \<Rightarrow> TokenAccount \<Rightarrow> Mint \<Rightarrow> Mint \<Rightarrow>
   (pubkey \<times> bool \<times> bool) list \<Rightarrow> u128 \<Rightarrow> bytes \<Rightarrow> grinders_world \<Rightarrow> grinders_world nres" where
  "execute_swap n ac c nft b q bm qm remaining limit_price ix_data w =
     and_then (assert_custodian_owner (sw_owner ac) c nft) (\<lambda>_.
     and_then (require (ix_data \<noteq> []) DataEmpty) (\<lambda>_.
     and_then (require (remaining \<noteq> []) TargetZero) (\<lambda>_.
     let target = fst (hd remaining) in
     and_then (require (executable (nledger w) target) TargetZero) (\<lambda>_.
     and_then (ok_or (swap_router n target (router_metas (custodian_key n (custodian_id c)) (tl remaining)) ix_data w)
                 SwapFailed) (\<lambda>w.
     and_then (account (token_accounts (nledger w) (sw_base_ata ac))) (\<lambda>b'.
     and_then (account (token_accounts (nledger w) (sw_quote_ata ac))) (\<lambda>q'.
     and_then (settle_swap (tk_amount b) (tk_amount q) (tk_amount b') (tk_amount q') (mi_decimals bm) (mi_decimals qm)
                 limit_price) (\<lambda>_.
     Ok w))))))))"

definition custodian_swap ::
  "nenv \<Rightarrow> swap_accounts \<Rightarrow> (pubkey \<times> bool \<times> bool) list \<Rightarrow> u128 \<Rightarrow> bytes \<Rightarrow> grinders_world \<Rightarrow> grinders_world nres" where
  "custodian_swap n ac remaining limit_price ix_data w =
     and_then (accounts_CustodianSwap n (swap_label (nkeccak n)) ac w) (\<lambda>(c, nft, b, q, bm, qm).
     execute_swap n ac c nft b q bm qm remaining limit_price ix_data w)"

definition execute_jupiter_gasless_swap ::
  "nenv \<Rightarrow> swap_accounts \<Rightarrow> pubkey \<Rightarrow> CustodianState \<Rightarrow> TokenAccount \<Rightarrow> TokenAccount \<Rightarrow> TokenAccount \<Rightarrow>
   grinders_world \<Rightarrow> grinders_world nres" where
  "execute_jupiter_gasless_swap n ac fee_payer c nft b q w =
     (let key = custodian_key n (sw_custodian_id ac) in
      and_then (assert_custodian_owner (sw_owner ac) c nft) (\<lambda>_.
      and_then (require (fee_payer \<noteq> sw_owner ac) GrinderMustNotPayGas) (\<lambda>_.
      and_then (require (tk_mint b = sw_base_mint ac) NotTradingAsset) (\<lambda>_.
      and_then (require (tk_mint q = sw_quote_mint ac) NotTradingAsset) (\<lambda>_.
      and_then (require (tk_owner b = key) NotCustodianOwner) (\<lambda>_.
      and_then (require (tk_owner q = key) NotCustodianOwner) (\<lambda>_.
      Err CustodianSwapNotImplemented)))))))"

definition custodian_jupiter_gasless_swap ::
  "nenv \<Rightarrow> swap_accounts \<Rightarrow> pubkey \<Rightarrow> grinders_world \<Rightarrow> grinders_world nres" where
  "custodian_jupiter_gasless_swap n ac fee_payer w =
     and_then (require (fee_payer \<noteq> sw_owner ac) GrinderMustNotPayGas) (\<lambda>_.
     and_then (accounts_CustodianSwap n (jupiter_gasless_label (nkeccak n)) ac w) (\<lambda>(c, nft, b, q, bm, qm).
     execute_jupiter_gasless_swap n ac fee_payer c nft b q w))"

end
