(* ===== verification/Grinders_Flows.thy ===== *)
theory Grinders_Flows
  imports Grinders_Swap Grai_Runs
begin

text \<open>
  What the Grinders program relies on of the programs it calls, what GRAI sees of a call of
  Grinders, and the invariant of the program's accounts with the lemmas that a call of another
  program, a write of the state account and a new custodian keep it.
\<close>

section \<open>What GRAI may do next\<close>

text \<open>The steps of GRAI's runs from a given world on.\<close>

inductive grai_then :: "env \<Rightarrow> pubkey set \<Rightarrow> pubkey \<Rightarrow> world \<Rightarrow> world \<Rightarrow> bool" for e S gm g where
  nothing: "grai_then e S gm g g"
| instruction: "grai_then e S gm g w \<Longrightarrow> good_env e' S gm \<Longrightarrow> same_addresses e e' \<Longrightarrow>
     spender i \<noteq> Some (gs_key e) \<Longrightarrow> mints_met i \<subseteq> S \<Longrightarrow> dispatch e' i w = Ok w' \<Longrightarrow> grai_then e S gm g w'"
| others: "grai_then e S gm g w \<Longrightarrow> lflow e S gm (\<lambda>_. 0) (ledger w) l \<Longrightarrow> grai_then e S gm g (w\<lparr>ledger := l\<rparr>)"

lemma grai_then_run: "grai_then e S gm g w \<Longrightarrow> grai_run e S gm g \<Longrightarrow> grai_run e S gm w"
  by (induction rule: grai_then.induct) (auto intro: grai_run.intros)

lemma grai_then_trans: "grai_then e S gm b c \<Longrightarrow> grai_then e S gm a b \<Longrightarrow> grai_then e S gm a c"
  by (induction rule: grai_then.induct) (auto intro: grai_then.intros)

lemma lflow_addresses: "same_addresses e e' \<Longrightarrow> lflow e' S gm = lflow e S gm"
proof (intro ext)
  fix g l l' assume a: "same_addresses e e'"
  then have "vault_kept e' k l l' = vault_kept e k l l'" for k
    by (simp add: vault_kept_def same_addresses_def split: option.split)
  with a show "lflow e' S gm g l l' = lflow e S gm g l l'" by (simp add: lflow_def same_addresses_def)
qed

section \<open>What the code relies on\<close>

text \<open>
  A program writes the data of its own accounts only, so no call of another program changes the
  bytes of the state account. A token account of an owner whose signature is not given loses
  nothing.
\<close>

definition spares_data :: "pubkey \<Rightarrow> (ledger \<Rightarrow> ledger option) \<Rightarrow> bool" where
  "spares_data k f \<longleftrightarrow> (\<forall>l l'. f l = Some l' \<longrightarrow> raw_data l' k = raw_data l k)"

definition data_law :: "env \<Rightarrow> pubkey \<Rightarrow> bool" where
  "data_law e k \<longleftrightarrow> (\<forall>a b c x. spares_data k (spl_transfer e a b c x)) \<and>
     (\<forall>m a b x. spares_data k (spl_mint_to e m a b x)) \<and> (\<forall>m d a. spares_data k (spl_initialize_mint2 e m d a)) \<and>
     (\<forall>p a m b. spares_data k (spl_init_account e p a m b)) \<and> (\<forall>p a s. spares_data k (anchor_init e p a s)) \<and>
     (\<forall>m p r c. spares_data k (create_metadata e m p r c)) \<and> (\<forall>m p. spares_data k (create_master_edition e m p)) \<and>
     (\<forall>a b x. spares_data k (sys_transfer e a b x))"

definition spares_owner :: "pubkey \<Rightarrow> ledger \<Rightarrow> ledger \<Rightarrow> bool" where
  "spares_owner own l l' \<longleftrightarrow> (\<forall>k a. token_accounts l k = Some a \<longrightarrow> tk_owner a = own \<longrightarrow>
     bal l k \<le> bal l' k \<and> (\<exists>a'. token_accounts l' k = Some a' \<and> tk_owner a' = own \<and> tk_mint a' = tk_mint a))"

text \<open>
  The routed program acts through GRAI's instructions and its own; it cannot call back into
  Grinders while a Grinders instruction is running it.
\<close>

definition router_law :: "env \<Rightarrow> pubkey set \<Rightarrow> pubkey \<Rightarrow> nenv \<Rightarrow> bool" where
  "router_law e S gm n \<longleftrightarrow> (\<forall>t ms d w w'. swap_router n t ms d w = Some w' \<longrightarrow>
     gn_custodians w' = gn_custodians w \<and> raw_data (nledger w') (grinders_key n) = raw_data (nledger w) (grinders_key n) \<and>
     grai_then e S gm (gn_grai w) (gn_grai w') \<and> spares_owner (grinders_key n) (nledger w) (nledger w'))"

definition program_law :: "nenv \<Rightarrow> bool" where
  "program_law n \<longleftrightarrow> length (grinders_disc n) = 8 \<and> inj (npda n) \<and>
     (\<forall>p k s. frames (grinders_init n p k s)) \<and> (\<forall>m p a u c. frames (item_metadata n m p a u c)) \<and>
     (\<forall>p m c. frames (verify_collection n p m c)) \<and>
     (\<forall>p k s. k \<noteq> grinders_key n \<longrightarrow> spares_data (grinders_key n) (grinders_init n p k s)) \<and>
     (\<forall>m p a u c. spares_data (grinders_key n) (item_metadata n m p a u c)) \<and>
     (\<forall>p m c. spares_data (grinders_key n) (verify_collection n p m c))"

definition good_nenv :: "env \<Rightarrow> pubkey set \<Rightarrow> pubkey \<Rightarrow> nenv \<Rightarrow> bool" where
  "good_nenv e S gm n \<longleftrightarrow> good_env e S gm \<and> data_law e (grinders_key n) \<and> program_law n \<and> router_law e S gm n \<and>
     (\<forall>s. npda n s \<noteq> gs_key e) \<and> npda n CollectionMintSeed \<noteq> gm"

lemma good_nenvD:
  assumes "good_nenv e S gm n"
  shows "good_env e S gm" "env_laws e" "length (grinders_disc n) = 8" "npda n s \<noteq> gs_key e"
    "npda n CollectionMintSeed \<noteq> gm" "npda n s = npda n t \<longleftrightarrow> s = t"
  using assms good_envD(1) by (auto simp: good_nenv_def program_law_def dest: injD)

lemma spares_dataD: "spares_data k f \<Longrightarrow> f l = Some l' \<Longrightarrow> raw_data l' k = raw_data l k"
  by (simp add: spares_data_def)

lemma data_law_facts:
  assumes "good_nenv e S gm n"
  shows "spares_data (grinders_key n) (spl_transfer e a b c x)" "spares_data (grinders_key n) (spl_mint_to e m a b x)"
    "spares_data (grinders_key n) (spl_initialize_mint2 e m d a)" "spares_data (grinders_key n) (spl_init_account e p a m b)"
    "spares_data (grinders_key n) (anchor_init e p a s)" "spares_data (grinders_key n) (create_metadata e m p r cr)"
    "spares_data (grinders_key n) (create_master_edition e m p)" "spares_data (grinders_key n) (sys_transfer e a b x)"
    "spares_data (grinders_key n) (item_metadata n m p nm u cl)" "spares_data (grinders_key n) (verify_collection n p m cl)"
    "k \<noteq> grinders_key n \<Longrightarrow> spares_data (grinders_key n) (grinders_init n p k s)"
  using assms by (simp_all add: good_nenv_def data_law_def program_law_def)

lemmas data_lawD = data_law_facts [THEN spares_dataD]

section \<open>Calls of other programs\<close>

text \<open>
  A call after which GRAI, seen from outside, has only had a transaction of another program:
  its vaults have lost nothing; the program's own accounts are as they were.
\<close>

definition call_flow :: "env \<Rightarrow> pubkey set \<Rightarrow> pubkey \<Rightarrow> nenv \<Rightarrow> grinders_world \<Rightarrow> grinders_world \<Rightarrow> bool" where
  "call_flow e S gm n w w' \<longleftrightarrow> w' = set_nledger (nledger w') w \<and> lflow e S gm (\<lambda>_. 0) (nledger w) (nledger w') \<and>
     raw_data (nledger w') (grinders_key n) = raw_data (nledger w) (grinders_key n)"

lemma call_flow_refl [simp]: "call_flow e S gm n w w"
  by (simp add: call_flow_def)

lemma call_flow_trans [trans]: "call_flow e S gm n a b \<Longrightarrow> call_flow e S gm n b c \<Longrightarrow> call_flow e S gm n a c"
proof -
  assume 1: "call_flow e S gm n a b" and 2: "call_flow e S gm n b c"
  have "lflow e S gm (\<lambda>_. 0) (nledger a) (nledger c)"
    using 1 2 by (auto simp: call_flow_def intro: lflow_trans)
  moreover have "set_nledger (nledger c) (set_nledger (nledger b) a) = set_nledger (nledger c) a" by simp
  then have "c = set_nledger (nledger c) a" using 1 2 by (metis call_flow_def)
  ultimately show ?thesis using 1 2 by (simp add: call_flow_def)
qed

lemma call_flow_invoke:
  assumes "ninvoke f w = Ok w'"
    and "\<And>l. f (nledger w) = Some l \<Longrightarrow> lflow e S gm (\<lambda>_. 0) (nledger w) l"
    and "\<And>l. f (nledger w) = Some l \<Longrightarrow> raw_data l (grinders_key n) = raw_data (nledger w) (grinders_key n)"
  shows "call_flow e S gm n w w'"
  using assms by (auto simp: ninvoke_Ok call_flow_def)

lemma frames_flow: "frames f \<Longrightarrow> f l = Some l' \<Longrightarrow> lflow e S gm (\<lambda>_. 0) l l'"
  unfolding frames_def by (blast intro: lflow_same)

lemma program_flow:
  assumes "good_nenv e S gm n"
  shows "grinders_init n p k s l = Some l' \<Longrightarrow> lflow e S gm (\<lambda>_. 0) l l'"
    "item_metadata n m p nm u cl l = Some l' \<Longrightarrow> lflow e S gm (\<lambda>_. 0) l l'"
    "verify_collection n p m cl l = Some l' \<Longrightarrow> lflow e S gm (\<lambda>_. 0) l l'"
proof -
  have "frames (grinders_init n p k s)" "frames (item_metadata n m p nm u cl)" "frames (verify_collection n p m cl)"
    using assms by (simp_all add: good_nenv_def program_law_def)
  note f = this [THEN frames_flow]
  show "grinders_init n p k s l = Some l' \<Longrightarrow> lflow e S gm (\<lambda>_. 0) l l'" by (rule f(1))
  show "item_metadata n m p nm u cl l = Some l' \<Longrightarrow> lflow e S gm (\<lambda>_. 0) l l'" by (rule f(2))
  show "verify_collection n p m cl l = Some l' \<Longrightarrow> lflow e S gm (\<lambda>_. 0) l l'" by (rule f(3))
qed

lemma transfer_call:
  assumes "good_nenv e S gm n" "ninvoke (spl_transfer e from to auth x) w = Ok w'"
    "from \<notin> (\<lambda>m. vault_key e m) ` S"
  shows "call_flow e S gm n w w'"
  using assms(2) moved_past [OF spl_transfer_moved [OF good_nenvD(2) [OF assms(1)]] assms(3)] data_lawD(1) [OF assms(1)]
  by (rule call_flow_invoke)

lemma mint_call:
  assumes "good_nenv e S gm n" "ninvoke (spl_mint_to e m to auth x) w = Ok w'"
  shows "call_flow e S gm n w w'"
  using assms(2) mint_flow [OF good_nenvD(2) [OF assms(1)]] data_lawD(2) [OF assms(1)] by (rule call_flow_invoke)

lemma init_mint_flow:
  assumes "env_laws e" "spl_initialize_mint2 e m d auth l = Some l'"
  shows "lflow e S gm (\<lambda>_. 0) l l'"
  using init_mint_lawD [OF assms] by (auto simp: lflow_def vault_kept_cong mint_kept_def bal_def)

lemma init_nft_mint_call:
  assumes "good_nenv e S gm n" "init_nft_mint e payer m auth w = Ok w'"
  shows "call_flow e S gm n w w'"
proof -
  note L = good_nenvD(2) [OF assms(1)]
  obtain w1 where 1: "ninvoke (anchor_init e payer m Mint_LEN) w = Ok w1"
      and 2: "ninvoke (spl_initialize_mint2 e m 0 auth) w1 = Ok w'"
    using assms(2) by (auto simp: init_nft_mint_def step_iffs)
  have "call_flow e S gm n w w1"
    using 1 lflow_same [OF conjunct1 conjunct2, OF system_lawD(6) [OF L] system_lawD(6) [OF L]] data_lawD(5) [OF assms(1)]
    by (rule call_flow_invoke)
  also have "call_flow e S gm n w1 w'" using 2 init_mint_flow [OF L] data_lawD(3) [OF assms(1)] by (rule call_flow_invoke)
  finally show ?thesis .
qed

lemma init_ata_call:
  assumes "good_nenv e S gm n" "init_ata e payer m own w = Ok w'"
  shows "call_flow e S gm n w w'"
proof -
  have no: "own = gs_key e \<or> ata e own m \<notin> (\<lambda>m. vault_key e m) ` S"
    using good_envD(5) [OF good_nenvD(1) [OF assms(1)]] by blast
  show ?thesis
    using assms(2) unfolding init_ata_def
    by (rule call_flow_invoke)
      (rule new_account_flow [OF init_lawD(1-3) [OF good_nenvD(2) [OF assms(1)]] no], assumption+,
        rule data_lawD(4) [OF assms(1)], assumption)
qed

lemma create_collection_call:
  assumes "good_nenv e S gm n" "create_collection e n payer w = Ok w'"
  shows "call_flow e S gm n w w'"
proof -
  note L = good_nenvD(2) [OF assms(1)]
  obtain w1 w2 where 1: "ninvoke (create_metadata e (npda n CollectionMintSeed) payer 0 None) w = Ok w1"
      and 2: "ninvoke (spl_mint_to e (npda n CollectionMintSeed) (ata e (grinders_key n) (npda n CollectionMintSeed)) (grinders_key n) 1) w1 = Ok w2"
      and 3: "ninvoke (create_master_edition e (npda n CollectionMintSeed) payer) w2 = Ok w'"
    using assms(2) by (auto simp: create_collection_def Let_def step_iffs)
  have "call_flow e S gm n w w1"
    using 1 data_lawD(6) [OF assms(1)] metadata_lawD(1) [OF L] by (intro call_flow_invoke lflow_same) blast+
  also have "call_flow e S gm n w1 w2" using assms(1) 2 by (rule mint_call)
  also have "call_flow e S gm n w2 w'"
  proof (rule call_flow_invoke [OF 3 _ data_lawD(7) [OF assms(1)]])
    fix l assume "create_master_edition e (npda n CollectionMintSeed) payer (nledger w2) = Some l"
    then have "token_accounts l = token_accounts (nledger w2)" "mints l gm = mints (nledger w2) gm"
      using metadata_lawD(2) [OF L] good_nenvD(5) [OF assms(1), symmetric] by blast+
    then show "lflow e S gm (\<lambda>_. 0) (nledger w2) l"
      by (simp add: lflow_def vault_kept_cong mint_kept_cong bal_def)
  qed
  finally show ?thesis .
qed

section \<open>Calls and custodians\<close>

text \<open>The same, whatever happened to the custodian accounts meanwhile.\<close>

definition seen :: "env \<Rightarrow> pubkey set \<Rightarrow> pubkey \<Rightarrow> nenv \<Rightarrow> grinders_world \<Rightarrow> grinders_world \<Rightarrow> bool" where
  "seen e S gm n w w' \<longleftrightarrow> gn_grai w' = (gn_grai w)\<lparr>ledger := nledger w'\<rparr> \<and>
     lflow e S gm (\<lambda>_. 0) (nledger w) (nledger w') \<and>
     raw_data (nledger w') (grinders_key n) = raw_data (nledger w) (grinders_key n)"

lemma call_flowD:
  assumes "call_flow e S gm n w w'"
  shows "gn_custodians w' = gn_custodians w" "seen e S gm n w w'"
proof -
  have "w' = set_nledger (nledger w') w" using assms by (simp add: call_flow_def)
  then have "gn_custodians w' = gn_custodians w \<and> gn_grai w' = (gn_grai w)\<lparr>ledger := nledger w'\<rparr>"
    by (metis grinders_world.ext_inject grinders_world.surjective grinders_world.update_convs(2) set_nledger_def)
  with assms show "gn_custodians w' = gn_custodians w" "seen e S gm n w w'"
    by (simp_all add: call_flow_def seen_def)
qed

lemma seen_trans [trans]:
  assumes 1: "seen e S gm n a b" and 2: "seen e S gm n b c"
  shows "seen e S gm n a c"
proof -
  have "lflow e S gm (\<lambda>_. 0) (nledger a) (nledger c)" using 1 2 by (auto simp: seen_def intro: lflow_trans)
  moreover have "gn_grai c = (gn_grai a)\<lparr>ledger := nledger c\<rparr>"
  proof -
    have "gn_grai c = ((gn_grai a)\<lparr>ledger := nledger b\<rparr>)\<lparr>ledger := nledger c\<rparr>" using 1 2 by (metis seen_def)
    then show ?thesis by simp
  qed
  ultimately show ?thesis using 1 2 by (simp add: seen_def)
qed

lemma seen_custodians [simp]: "seen e S gm n w (w\<lparr>gn_custodians := f\<rparr>)"
  by (simp add: seen_def)

lemma seen_then: "seen e S gm n w w' \<Longrightarrow> grai_then e S gm (gn_grai w) (gn_grai w')"
  unfolding seen_def by (metis grai_then.nothing grai_then.others)

lemma seen_read: "seen e S gm n w w' \<Longrightarrow> read_grinders n (nledger w') = read_grinders n (nledger w)"
  by (simp add: seen_def read_grinders_def)

section \<open>The invariant\<close>

definition state_ok :: "nenv \<Rightarrow> GrindersState \<Rightarrow> bool" where
  "state_ok n s \<longleftrightarrow> toreador s \<noteq> default_pubkey \<and> gr_bump s = npda_bump n GrindersSeed \<and>
     collection_mint s = npda n CollectionMintSeed \<and>
     24 * 60 * 60 \<le> grinding_period s \<and> grinding_period s \<le> 30 * 24 * 60 * 60 \<and>
     (\<exists>b. encode_cluster_ref b = Ok (cluster_ref s))"

definition custodian_ok :: "nenv \<Rightarrow> GrindersState \<Rightarrow> u64 \<Rightarrow> CustodianState \<Rightarrow> bool" where
  "custodian_ok n s cid c \<longleftrightarrow> cid < next_custodian_id s \<and> custodian_id c = cid \<and>
     cu_grinders c = grinders_key n \<and> cu_bump c = npda_bump n (CustodianSeed cid) \<and>
     cu_grai_program c = gr_grai_program s \<and> is_known_label (nkeccak n) (cu_label c) (cluster_ref s) \<and>
     base_mint c \<noteq> quote_mint c \<and> base_mint c \<noteq> default_pubkey \<and> quote_mint c \<noteq> default_pubkey \<and>
     nft_mint c = custodian_mint_key n cid"

definition custodians_ok :: "nenv \<Rightarrow> GrindersState \<Rightarrow> grinders_world \<Rightarrow> bool" where
  "custodians_ok n s w \<longleftrightarrow> (\<forall>cid c. gn_custodians w cid = Some c \<longrightarrow> custodian_ok n s cid c)"

definition grinders_inv :: "nenv \<Rightarrow> grinders_world \<Rightarrow> bool" where
  "grinders_inv n w \<longleftrightarrow> (\<exists>s. read_grinders n (nledger w) = Some s \<and> state_ok n s \<and> custodians_ok n s w)"

text \<open>A step keeps the invariant, and to GRAI it is a sequence of its own steps and others'.\<close>

definition sound :: "env \<Rightarrow> pubkey set \<Rightarrow> pubkey \<Rightarrow> nenv \<Rightarrow> grinders_world \<Rightarrow> grinders_world \<Rightarrow> bool" where
  "sound e S gm n w w' \<longleftrightarrow> (grinders_inv n w \<longrightarrow> grinders_inv n w') \<and> grai_then e S gm (gn_grai w) (gn_grai w')"

lemma sound_call:
  assumes "call_flow e S gm n w w'"
  shows "sound e S gm n w w'"
  using seen_then [OF call_flowD(2) [OF assms]] seen_read [OF call_flowD(2) [OF assms]] call_flowD(1) [OF assms]
  by (simp add: sound_def grinders_inv_def custodians_ok_def)

lemma grinders_then_store: "grai_then e S gm g (gn_grai w) \<Longrightarrow> grai_then e S gm g (gn_grai (store_grinders n s w))"
proof -
  assume "grai_then e S gm g (gn_grai w)"
  then have "grai_then e S gm g ((gn_grai w)\<lparr>ledger := put_grinders n s (nledger w)\<rparr>)"
    by (rule grai_then.others) (simp add: lflow_same)
  then show ?thesis by (simp add: store_grinders_def set_nledger_def)
qed

text \<open>A call of others, some writes of custodian accounts, and a write of the state account.\<close>

lemma sound_write:
  assumes "good_nenv e S gm n" "grai_then e S gm (gn_grai w) (gn_grai w1)" "read_grinders n (nledger w) = Some s"
    and ok: "state_ok n s \<Longrightarrow> custodians_ok n s w \<Longrightarrow> state_ok n s' \<and> custodians_ok n s' w1"
  shows "sound e S gm n w (store_grinders n s' w1)"
proof -
  have "grinders_inv n (store_grinders n s' w1)" if "grinders_inv n w"
  proof -
    have s': "state_ok n s'" "custodians_ok n s' w1" using that assms(3) ok by (auto simp: grinders_inv_def)
    then have "length (cluster_ref s') = 32" using cluster_ref_str_encode(2) by (auto simp: state_ok_def)
    then have "read_grinders n (nledger (store_grinders n s' w1)) = Some s'"
      using good_nenvD(3) [OF assms(1)] by (simp add: read_put_grinders)
    then show ?thesis using s' by (simp add: grinders_inv_def custodians_ok_def)
  qed
  then show ?thesis using grinders_then_store [OF assms(2)] by (simp add: sound_def)
qed

lemmas sound_store = sound_write [OF _ seen_then]

lemma sound_custodians:
  assumes "seen e S gm n w w1" "read_grinders n (nledger w) = Some s"
    and "state_ok n s \<Longrightarrow> custodians_ok n s w \<Longrightarrow> custodians_ok n s w1"
  shows "sound e S gm n w w1"
  using seen_then [OF assms(1)] seen_read [OF assms(1)] assms(2,3) by (auto simp: sound_def grinders_inv_def)

lemma sound_heartbeat:
  assumes "good_nenv e S gm n" "call_flow e S gm n w w1" "read_grinders n (nledger w) = Some s"
  shows "sound e S gm n w (heartbeat e' n s w1)"
  unfolding heartbeat_def using call_flowD(1) [OF assms(2)]
  by (intro sound_store [OF assms(1) call_flowD(2) [OF assms(2)] assms(3)])
    (simp add: state_ok_def custodians_ok_def custodian_ok_def)

end
