(* ===== verification/Grinders_Steps.thy ===== *)
theory Grinders_Steps
  imports Grinders_Flows
begin

text \<open>
  Every instruction of the Grinders program keeps the invariant of its accounts, and is to GRAI
  a sequence of GRAI's own instructions and of transactions of other programs.
\<close>

section \<open>Settings\<close>

lemma accounts_SetGrindPeriod_Ok:
  "accounts_SetGrindPeriod e n owner w = Ok (s, gs) \<longleftrightarrow> read_grinders n (nledger w) = Some s \<and>
     gr_bump s = npda_bump n GrindersSeed \<and> gr_grai_program s = grai_program e \<and>
     gs_bump (grai_state (gn_grai w)) = pda_bump e GraiStateSeed \<and> gs = grai_state (gn_grai w) \<and> owner = gs_owner gs"
  by (auto simp: accounts_SetGrindPeriod_def step_iffs load_iffs)

lemma set_grind_period_sound:
  assumes "good_nenv e S gm n" "set_grind_period e n owner p w = Ok w'"
  shows "sound e S gm n w w'"
proof -
  obtain s where "read_grinders n (nledger w) = Some s" "24 * 60 * 60 \<le> p" "p \<le> 30 * 24 * 60 * 60"
      and w': "w' = store_grinders n (s\<lparr>grinding_period := p\<rparr>) w"
    using assms(2) unfolding set_grind_period_def
    by (elim steps_OkE) (auto simp: step_iffs accounts_SetGrindPeriod_Ok)
  then show ?thesis unfolding w'
    by (intro sound_store [OF assms(1)]) (auto simp: seen_def state_ok_def custodians_ok_def custodian_ok_def)
qed

lemma set_toreador_sound:
  assumes "good_nenv e S gm n" "set_toreador e n owner t w = Ok w'"
  shows "sound e S gm n w w'"
proof -
  obtain s where "read_grinders n (nledger w) = Some s" "t \<noteq> default_pubkey"
      and w': "w' = store_grinders n (s\<lparr>toreador := t\<rparr>) w"
    using assms(2) unfolding set_toreador_def
    by (elim steps_OkE) (auto simp: step_iffs accounts_SetGrindPeriod_Ok)
  then show ?thesis unfolding w'
    by (intro sound_store [OF assms(1)]) (auto simp: seen_def state_ok_def custodians_ok_def custodian_ok_def)
qed

lemma execute_heartbeat_sound:
  assumes "good_nenv e S gm n" "execute_heartbeat e n auth w = Ok w'"
  shows "sound e S gm n w w'"
proof -
  obtain s where "read_grinders n (nledger w) = Some s" "w' = heartbeat e n s w"
    using assms(2) unfolding execute_heartbeat_def accounts_Heartbeat_def
    by (elim steps_OkE) (auto simp: step_iffs load_iffs)
  then show ?thesis using sound_heartbeat [OF assms(1) call_flow_refl] by simp
qed

section \<open>Custodian NFTs\<close>

lemma accounts_MintCustodian_Ok:
  assumes "good_nenv e S gm n" "accounts_MintCustodian e n ac w = Ok (s, w1)"
  shows "read_grinders n (nledger w) = Some s" "mc_grai_program ac = gr_grai_program s"
    "mc_authority ac = toreador s" "call_flow e S gm n w w1"
proof -
  let ?p = "mc_authority ac" and ?id = "next_custodian_id s"
  obtain v1 v2 v3 v4 where r: "read_grinders n (nledger w) = Some s" "mc_grai_program ac = gr_grai_program s" "?p = toreador s"
      and 1: "ninvoke (grinders_init n ?p (custodian_key n ?id) (8 + CustodianState_LEN)) w = Ok v1"
      and 2: "init_nft_mint e ?p (custodian_mint_key n ?id) (grinders_key n) v1 = Ok v2"
      and 3: "init_ata e ?p (custodian_mint_key n ?id) (mc_custodian_owner ac) v2 = Ok v3"
      and 4: "init_ata e ?p (mc_base_mint ac) (custodian_key n ?id) v3 = Ok v4"
      and 5: "init_ata e ?p (mc_quote_mint ac) (custodian_key n ?id) v4 = Ok w1"
    using assms(2) unfolding accounts_MintCustodian_def Let_def
    by (elim steps_OkE) (simp add: step_iffs load_grinders_Ok; blast)
  show "read_grinders n (nledger w) = Some s" "mc_grai_program ac = gr_grai_program s" "?p = toreador s" by (fact r)+
  have "custodian_key n ?id \<noteq> grinders_key n" using good_nenvD(6) [OF assms(1)] by simp
  then have "call_flow e S gm n w v1"
    using program_flow(1) [OF assms(1)] data_lawD(11) [OF assms(1)] by (intro call_flow_invoke [OF 1]) blast+
  also have "call_flow e S gm n v1 v2" using assms(1) 2 by (rule init_nft_mint_call)
  also have "call_flow e S gm n v2 v3" using assms(1) 3 by (rule init_ata_call)
  also have "call_flow e S gm n v3 v4" using assms(1) 4 by (rule init_ata_call)
  also have "call_flow e S gm n v4 w1" using assms(1) 5 by (rule init_ata_call)
  finally show "call_flow e S gm n w w1" .
qed

lemma mint_custodian_Ok:
  assumes "good_nenv e S gm n" "mint_custodian e n ac label w = Ok w'"
  obtains s w1 w2 where "accounts_MintCustodian e n ac w = Ok (s, w1)"
    "mc_base_mint ac \<noteq> default_pubkey" "mc_quote_mint ac \<noteq> default_pubkey" "mc_base_mint ac \<noteq> mc_quote_mint ac"
    "unat (next_custodian_id s) + 1 < 2 ^ 64" "is_known_label (nkeccak n) label (cluster_ref s)"
    "gn_custodians w2 = (gn_custodians w1)(next_custodian_id s \<mapsto> new_custodian n ac s label)"
    "seen e S gm n w1 w2" "w' = store_grinders n (s\<lparr>next_custodian_id := next_custodian_id s + 1\<rparr>) w2"
proof -
  obtain s w1 v1 v2 v3 nx where a: "accounts_MintCustodian e n ac w = Ok (s, w1)"
      and g: "mc_base_mint ac \<noteq> default_pubkey" "mc_quote_mint ac \<noteq> default_pubkey" "mc_base_mint ac \<noteq> mc_quote_mint ac"
        "checked_add (next_custodian_id s) 1 = Some nx" "is_known_label (nkeccak n) label (cluster_ref s)"
      and 1: "ninvoke (item_metadata n (custodian_mint_key n (next_custodian_id s)) (mc_authority ac)
          (custodian_name (next_custodian_id s)) (token_json_uri (next_custodian_id s)) (collection_mint s))
          (w1\<lparr>gn_custodians := (gn_custodians w1)(next_custodian_id s \<mapsto> new_custodian n ac s label)\<rparr>) = Ok v1"
      and 2: "ninvoke (verify_collection n (mc_authority ac) (custodian_mint_key n (next_custodian_id s)) (collection_mint s)) v1 = Ok v2"
      and 3: "ninvoke (spl_mint_to e (custodian_mint_key n (next_custodian_id s))
          (ata e (mc_custodian_owner ac) (custodian_mint_key n (next_custodian_id s))) (grinders_key n) 1) v2 = Ok v3"
      and w': "w' = store_grinders n (s\<lparr>next_custodian_id := nx\<rparr>) v3"
    using assms(2) unfolding mint_custodian_def Let_def verify_custodian_collection_def
    by (elim steps_OkE) (simp add: step_iffs; blast)
  let ?w1 = "w1\<lparr>gn_custodians := (gn_custodians w1)(next_custodian_id s \<mapsto> new_custodian n ac s label)\<rparr>"
  have "call_flow e S gm n ?w1 v1"
    using 1 program_flow(2) [OF assms(1)] data_lawD(9) [OF assms(1)] by (rule call_flow_invoke)
  also have "call_flow e S gm n v1 v2"
    using 2 program_flow(3) [OF assms(1)] data_lawD(10) [OF assms(1)] by (rule call_flow_invoke)
  also have "call_flow e S gm n v2 v3" using assms(1) 3 by (rule mint_call)
  finally have c: "call_flow e S gm n ?w1 v3" .
  have n: "nx = next_custodian_id s + 1" "unat (next_custodian_id s) + 1 < 2 ^ 64"
    using g(4) by (auto simp: checked_add_def split: if_splits)
  show thesis
    by (rule that [OF a g(1-3) n(2) g(5), of v3])
      (use call_flowD(1) [OF c] seen_trans [OF seen_custodians call_flowD(2) [OF c]] w' n(1) in auto)
qed

lemma custodian_ok_next:
  "custodian_ok n s cid c \<Longrightarrow> unat (next_custodian_id s) + 1 < 2 ^ 64 \<Longrightarrow>
   custodian_ok n (s\<lparr>next_custodian_id := next_custodian_id s + 1\<rparr>) cid c"
  by (simp add: custodian_ok_def word_less_nat_alt unat_word_ariths)

lemma mint_custodian_sound:
  assumes "good_nenv e S gm n" "mint_custodian e n ac label w = Ok w'"
  shows "sound e S gm n w w'"
  using assms
proof (rule mint_custodian_Ok)
  fix s w1 w2
  assume a: "accounts_MintCustodian e n ac w = Ok (s, w1)"
    and g: "mc_base_mint ac \<noteq> default_pubkey" "mc_quote_mint ac \<noteq> default_pubkey" "mc_base_mint ac \<noteq> mc_quote_mint ac"
      "unat (next_custodian_id s) + 1 < 2 ^ 64" "is_known_label (nkeccak n) label (cluster_ref s)"
    and 2: "gn_custodians w2 = (gn_custodians w1)(next_custodian_id s \<mapsto> new_custodian n ac s label)"
      "seen e S gm n w1 w2" "w' = store_grinders n (s\<lparr>next_custodian_id := next_custodian_id s + 1\<rparr>) w2"
  note A = accounts_MintCustodian_Ok [OF assms(1) a]
  have new: "custodian_ok n (s\<lparr>next_custodian_id := next_custodian_id s + 1\<rparr>) (next_custodian_id s) (new_custodian n ac s label)"
    using g A(2) by (auto simp: custodian_ok_def new_custodian_def word_less_nat_alt unat_word_ariths)
  show ?thesis unfolding 2(3)
  proof (rule sound_store [OF assms(1) seen_trans [OF call_flowD(2) [OF A(4)] 2(2)] A(1)])
    assume "state_ok n s" "custodians_ok n s w"
    then show "state_ok n (s\<lparr>next_custodian_id := next_custodian_id s + 1\<rparr>) \<and>
        custodians_ok n (s\<lparr>next_custodian_id := next_custodian_id s + 1\<rparr>) w2"
      using new custodian_ok_next [OF _ g(4)] call_flowD(1) [OF A(4)]
      by (simp add: state_ok_def custodians_ok_def 2(1))
  qed
qed

lemma transfer_custodian_nft_seen:
  assumes "good_nenv e S gm n" "vaults_owned e S (nledger w)" "owner \<noteq> gs_key e"
    and "transfer_custodian_nft e n cid owner new_owner m from_ata w = Ok w'"
  shows "seen e S gm n w w'" "custodians_ok n s w \<Longrightarrow> custodians_ok n s w'"
proof -
  obtain c a w1 w2 where c: "gn_custodians w cid = Some c" "token_accounts (nledger w) from_ata = Some a" "tk_owner a = owner"
      and 1: "init_ata_if_needed e owner m new_owner w = Ok w1"
      and 2: "ninvoke (spl_transfer e from_ata (ata e new_owner m) owner 1) w1 = Ok w2"
      and w': "w' = w2\<lparr>gn_custodians := (gn_custodians w2)(cid \<mapsto> c\<lparr>nft_owner := new_owner\<rparr>)\<rparr>"
    using assms(4) unfolding transfer_custodian_nft_def accounts_TransferCustodianNft_def
    by (elim steps_OkE) (simp add: step_iffs minted_account_Ok; blast)
  have "call_flow e S gm n w w1"
    using 1 init_ata_call [OF assms(1)] by (auto simp: init_ata_if_needed_def step_iffs split: option.splits)
  also have "call_flow e S gm n w1 w2"
    by (rule transfer_call [OF assms(1) 2 not_a_vault [OF assms(2) c(2)]]) (simp add: c(3) assms(3))
  finally have f: "call_flow e S gm n w w2" .
  show "custodians_ok n s w \<Longrightarrow> custodians_ok n s w'"
    using c(1) call_flowD(1) [OF f] by (auto simp: custodians_ok_def custodian_ok_def w')
  show "seen e S gm n w w'" unfolding w' using seen_trans [OF call_flowD(2) [OF f] seen_custodians] .
qed

lemma transfer_custodian_nft_sound:
  assumes "good_nenv e S gm n" "vaults_owned e S (nledger w)" "owner \<noteq> gs_key e"
    and "transfer_custodian_nft e n cid owner new_owner m from_ata w = Ok w'"
  shows "sound e S gm n w w'"
  using seen_then seen_read transfer_custodian_nft_seen [OF assms] by (fastforce simp: sound_def grinders_inv_def)

lemma set_assets_Ok:
  assumes "set_assets n cid ac w = Ok w'"
  obtains s c where "read_grinders n (nledger w) = Some s" "gn_custodians w cid = Some c"
    "sa_new_base ac \<noteq> default_pubkey" "sa_new_quote ac \<noteq> default_pubkey" "sa_new_base ac \<noteq> sa_new_quote ac"
    "w' = w\<lparr>gn_custodians := (gn_custodians w)(cid \<mapsto> c\<lparr>base_mint := sa_new_base ac, quote_mint := sa_new_quote ac\<rparr>)\<rparr>"
  using assms by (auto simp: set_assets_def accounts_SetAssets_def execute_set_assets_def step_iffs load_iffs)

lemma set_assets_sound:
  assumes "good_nenv e S gm n" "set_assets n cid ac w = Ok w'"
  shows "sound e S gm n w w'"
proof -
  obtain s c where c: "read_grinders n (nledger w) = Some s" "gn_custodians w cid = Some c"
      and m: "sa_new_base ac \<noteq> default_pubkey" "sa_new_quote ac \<noteq> default_pubkey" "sa_new_base ac \<noteq> sa_new_quote ac"
      and w': "w' = w\<lparr>gn_custodians := (gn_custodians w)(cid \<mapsto> c\<lparr>base_mint := sa_new_base ac, quote_mint := sa_new_quote ac\<rparr>)\<rparr>"
    using assms(2) by (rule set_assets_Ok)
  show ?thesis unfolding w'
    by (rule sound_custodians [OF seen_custodians c(1)])
      (use c(2) m in \<open>auto simp: custodians_ok_def custodian_ok_def\<close>)
qed

section \<open>Moving tokens\<close>

text \<open>An account of Grinders or of a custodian is no vault of GRAI.\<close>

lemma own_account_no_vault:
  assumes "good_nenv e S gm n" "vaults_owned e S (nledger w)" "token_accounts (nledger w) k = Some a" "tk_owner a = npda n s"
  shows "k \<notin> (\<lambda>m. vault_key e m) ` S"
  by (rule not_a_vault [OF assms(2,3)]) (use good_nenvD(4) [OF assms(1)] assms(4) in metis)

lemma accounts_Allocate_Ok:
  assumes "accounts_Allocate n ac w = Ok (s, a)"
  shows "read_grinders n (nledger w) = Some s" "ra_authority ac = toreador s"
    "token_accounts (nledger w) (ra_grinders_ata ac) = Some a" "tk_owner a = grinders_key n"
  using assms by (auto simp: accounts_Allocate_def step_iffs load_grinders_Ok owned_account_Ok)

lemma accounts_CustodianDeallocate_Ok:
  assumes "accounts_CustodianDeallocate e n ac w = Ok (s, gs, c)"
  shows "read_grinders n (nledger w) = Some s" "ra_authority ac = toreador s" "gs = grai_state (gn_grai w)"
    "\<exists>a. token_accounts (nledger w) (ra_custodian_ata ac) = Some a \<and> tk_owner a = custodian_key n (ra_custodian_id ac)"
  using assms by (auto simp: accounts_CustodianDeallocate_def step_iffs load_grinders_Ok load_grai_Ok owned_account_Ok)

lemma allocate_Ok:
  assumes "allocate e n ac x w = Ok w'"
  obtains s a w1 where "accounts_Allocate n ac w = Ok (s, a)" "0 < x" "x \<le> tk_amount a" "w' = heartbeat e n s w1"
    "ninvoke (spl_transfer e (ra_grinders_ata ac) (ra_custodian_ata ac) (grinders_key n) x) w = Ok w1"
  using assms unfolding allocate_def execute_allocate_def by (elim steps_OkE) (simp add: step_iffs, blast)

lemma custodian_deallocate_Ok:
  assumes "custodian_deallocate e n ac x w = Ok w'"
  obtains s gs c w1 where "accounts_CustodianDeallocate e n ac w = Ok (s, gs, c)" "0 < x" "\<not> liquidation gs"
    "w' = heartbeat e n s w1"
    "ninvoke (spl_transfer e (ra_custodian_ata ac) (ra_grinders_ata ac) (custodian_key n (custodian_id c)) x) w = Ok w1"
  using assms unfolding custodian_deallocate_def execute_custodian_deallocate_def require_not_liquidation_def
  by (elim steps_OkE) (simp add: step_iffs, blast)

lemma allocate_sound:
  assumes "good_nenv e S gm n" "vaults_owned e S (nledger w)" "allocate e n ac x w = Ok w'"
  shows "sound e S gm n w w'"
  using assms(3)
proof (rule allocate_Ok)
  fix s a w1
  assume "accounts_Allocate n ac w = Ok (s, a)" and w': "w' = heartbeat e n s w1"
    and 1: "ninvoke (spl_transfer e (ra_grinders_ata ac) (ra_custodian_ata ac) (grinders_key n) x) w = Ok w1"
  note A = accounts_Allocate_Ok [OF this(1)]
  show ?thesis unfolding w'
    by (rule sound_heartbeat [OF assms(1) transfer_call [OF assms(1) 1 own_account_no_vault [OF assms(1,2) A(3,4)]] A(1)])
qed

lemma custodian_deallocate_sound:
  assumes "good_nenv e S gm n" "vaults_owned e S (nledger w)" "custodian_deallocate e n ac x w = Ok w'"
  shows "sound e S gm n w w'"
  using assms(3)
proof (rule custodian_deallocate_Ok)
  fix s gs c w1
  assume "accounts_CustodianDeallocate e n ac w = Ok (s, gs, c)" and w': "w' = heartbeat e n s w1"
    and 1: "ninvoke (spl_transfer e (ra_custodian_ata ac) (ra_grinders_ata ac) (custodian_key n (custodian_id c)) x) w = Ok w1"
  note A = accounts_CustodianDeallocate_Ok [OF this(1)]
  then obtain a where "token_accounts (nledger w) (ra_custodian_ata ac) = Some a" "tk_owner a = custodian_key n (ra_custodian_id ac)"
    by blast
  note nv = own_account_no_vault [OF assms(1,2) this]
  show ?thesis unfolding w' by (rule sound_heartbeat [OF assms(1) transfer_call [OF assms(1) 1 nv] A(1)])
qed

lemma forward_call:
  assumes "good_nenv e S gm n" "a \<notin> (\<lambda>m. vault_key e m) ` S" "b \<notin> (\<lambda>m. vault_key e m) ` S"
    "forward e n cid a b v x w = Ok w'"
  shows "call_flow e S gm n w w'"
proof (cases "0 < x")
  case True
  then obtain w1 where 1: "ninvoke (spl_transfer e a b (custodian_key n cid) x) w = Ok w1"
      and 2: "ninvoke (spl_transfer e b v (grinders_key n) x) w1 = Ok w'"
    using assms(4) by (auto simp: forward_def step_iffs)
  show ?thesis
    by (rule call_flow_trans [OF transfer_call [OF assms(1) 1 assms(2)] transfer_call [OF assms(1) 2 assms(3)]])
qed (use assms(4) in \<open>simp add: forward_def\<close>)

lemma accounts_LiquidateCustodian_Ok:
  assumes "accounts_LiquidateCustodian e n cid ac w = Ok (gs, b, q)"
  obtains s c bg qg where "read_grinders n (nledger w) = Some s" "gs = grai_state (gn_grai w)" "gs_grinders gs = grinders_key n"
    "gr_grai_program s = grai_program e" "gn_custodians w cid = Some c" "ca_base_mint ac = base_mint c" "ca_quote_mint ac = quote_mint c"
    "token_accounts (nledger w) (ca_base_custodian ac) = Some b" "tk_owner b = custodian_key n cid" "tk_mint b = base_mint c"
    "token_accounts (nledger w) (ca_quote_custodian ac) = Some q" "tk_owner q = custodian_key n cid" "tk_mint q = quote_mint c"
    "token_accounts (nledger w) (ca_base_grinders ac) = Some bg" "tk_owner bg = grinders_key n"
    "token_accounts (nledger w) (ca_quote_grinders ac) = Some qg" "tk_owner qg = grinders_key n"
  using assms unfolding accounts_LiquidateCustodian_def accounts_LiquidateIdle_def
  by (elim steps_OkE) (simp add: step_iffs load_iffs; blast)

lemma liquidate_custodian_call:
  assumes "good_nenv e S gm n" "vaults_owned e S (nledger w)" "liquidate_custodian e n cid ac w = Ok w'"
  shows "call_flow e S gm n w w'"
proof -
  obtain gs b q w1 where a: "accounts_LiquidateCustodian e n cid ac w = Ok (gs, b, q)"
      and 1: "forward e n cid (ca_base_custodian ac) (ca_base_grinders ac) (vault_key e (ca_base_mint ac)) (tk_amount b) w = Ok w1"
      and 2: "forward e n cid (ca_quote_custodian ac) (ca_quote_grinders ac) (vault_key e (ca_quote_mint ac)) (tk_amount q) w1 = Ok w'"
    using assms(3) unfolding liquidate_custodian_def by (elim steps_OkE) (simp add: step_iffs)
  have nv: "k \<notin> (\<lambda>m. vault_key e m) ` S"
    if "k \<in> {ca_base_custodian ac, ca_base_grinders ac, ca_quote_custodian ac, ca_quote_grinders ac}" for k
    using accounts_LiquidateCustodian_Ok [OF a] that own_account_no_vault [OF assms(1,2)] by (metis insertE singletonD)
  have "call_flow e S gm n w w1" using forward_call [OF assms(1) _ _ 1] nv by blast
  also have "call_flow e S gm n w1 w'" using forward_call [OF assms(1) _ _ 2] nv by blast
  finally show ?thesis .
qed

lemmas liquidate_custodian_sound = liquidate_custodian_call [THEN sound_call]

lemma bind_idle_no_vault:
  "good_nenv e S gm n \<Longrightarrow> vaults_owned e S (nledger w) \<Longrightarrow> bind_idle e n rem ms w = Ok () \<Longrightarrow>
   sweep_idles e n rem ms w0 = Ok w' \<Longrightarrow> call_flow e S gm n w0 w'"
proof (induction e n rem ms w arbitrary: w0 rule: bind_idle.induct)
  case (1 e n a v rest m ms w)
  obtain x where x: "token_accounts (nledger w) a = Some x" "tk_owner x = grinders_key n" "bind_idle e n rest ms w = Ok ()"
    using 1(4) by (auto simp: step_iffs minted_account_Ok)
  obtain w1 where 2: "sweep_idle e n a v w0 = Ok w1" "sweep_idles e n rest ms w1 = Ok w'"
    using 1(5) by (auto simp: step_iffs)
  have "call_flow e S gm n w0 w1"
    using 2(1) transfer_call [OF 1(2) _ own_account_no_vault [OF 1(2,3) x(1,2)]]
    by (auto simp: sweep_idle_def step_iffs split: if_splits)
  then show ?case using call_flow_trans 1(1) [OF 1(2,3) x(3) 2(2)] by blast
qed simp_all

lemma liquidate_idle_call:
  assumes "good_nenv e S gm n" "vaults_owned e S (nledger w)" "liquidate_idle e n rem w = Ok w'"
  shows "call_flow e S gm n w w'"
proof -
  obtain ms where "bind_idle e n rem ms w = Ok ()" "sweep_idles e n rem ms w = Ok w'"
    using assms(3) unfolding liquidate_idle_def Let_def by (elim steps_OkE) (simp add: step_iffs)
  then show ?thesis using bind_idle_no_vault [OF assms(1,2)] by blast
qed

lemmas liquidate_idle_sound = liquidate_idle_call [THEN sound_call]

lemma withdraw_sol_call:
  assumes "good_nenv e S gm n" "withdraw_sol e n owner to x w = Ok w'"
  shows "call_flow e S gm n w w'"
proof -
  obtain l where l: "sys_transfer e (grinders_key n) to x (nledger w) = Some l" "w' = set_nledger l w"
    using assms(2) unfolding withdraw_sol_def by (elim steps_OkE) (simp add: step_iffs)
  show ?thesis
    using system_lawD(1) [OF good_nenvD(2) [OF assms(1)] l(1)] data_lawD(8) [OF assms(1) l(1)]
    by (simp add: l(2) call_flow_def lflow_same)
qed

lemmas withdraw_sol_sound = withdraw_sol_call [THEN sound_call]

lemma withdraw_token_call:
  assumes "good_nenv e S gm n" "vaults_owned e S (nledger w)" "withdraw_token e n ac x w = Ok w'"
  shows "call_flow e S gm n w w'"
proof -
  obtain a where a: "token_accounts (nledger w) (wt_grinders_ata ac) = Some a" "tk_owner a = grinders_key n"
      and 1: "ninvoke (spl_transfer e (wt_grinders_ata ac) (wt_to_ata ac) (grinders_key n) x) w = Ok w'"
    using assms(3) unfolding withdraw_token_def accounts_WithdrawToken_def
    by (elim steps_OkE) (simp add: step_iffs minted_account_Ok; blast)
  show ?thesis by (rule transfer_call [OF assms(1) 1 own_account_no_vault [OF assms(1,2) a]])
qed

lemmas withdraw_token_sound = withdraw_token_call [THEN sound_call]

end
