(* ===== verification/Grinders_Program.thy ===== *)
theory Grinders_Program
  imports Grinders_Steps
begin

text \<open>
  The entry points of the Grinders program (\<open>#[program] mod grinders\<close>) as one dispatch function,
  and its runs beside GRAI: every state of a run has the invariant of both programs.
\<close>

section \<open>Entry points\<close>

datatype (plugins only: code size) ncall =
    SetGrindPeriod pubkey u32
  | SetToreador pubkey pubkey
  | Heartbeat bool
  | MintCustodian mint_accounts pubkey
  | CustodianSwap swap_accounts "(pubkey \<times> bool \<times> bool) list" u128 bytes
  | CustodianJupiterGaslessSwap swap_accounts pubkey
  | Allocate reserve_accounts u64
  | SetAssets u64 set_assets_accounts
  | CustodianDeallocate reserve_accounts u64
  | CustodianDistribute distribute_accounts u64
  | LiquidateIdle "pubkey list"
  | LiquidateCustodian u64 custodian_atas
  | TransferCustodianNft u64 pubkey pubkey pubkey pubkey
  | WithdrawSol pubkey pubkey u64
  | WithdrawToken withdraw_accounts u64

fun ndispatch :: "env \<Rightarrow> nenv \<Rightarrow> ncall \<Rightarrow> grinders_world \<Rightarrow> grinders_world nres" where
  "ndispatch e n (SetGrindPeriod owner p) w = set_grind_period e n owner p w"
| "ndispatch e n (SetToreador owner t) w = set_toreador e n owner t w"
| "ndispatch e n (Heartbeat grai_signed) w = execute_heartbeat e n grai_signed w"
| "ndispatch e n (MintCustodian ac label) w = mint_custodian e n ac label w"
| "ndispatch e n (CustodianSwap ac remaining limit_price ix_data) w =
     custodian_swap n ac remaining limit_price ix_data w"
| "ndispatch e n (CustodianJupiterGaslessSwap ac fee_payer) w = custodian_jupiter_gasless_swap n ac fee_payer w"
| "ndispatch e n (Allocate ac amount) w = allocate e n ac amount w"
| "ndispatch e n (SetAssets cid ac) w = set_assets n cid ac w"
| "ndispatch e n (CustodianDeallocate ac amount) w = custodian_deallocate e n ac amount w"
| "ndispatch e n (CustodianDistribute ac yield_amount) w = custodian_distribute e n ac yield_amount w"
| "ndispatch e n (LiquidateIdle remaining) w = liquidate_idle e n remaining w"
| "ndispatch e n (LiquidateCustodian cid ac) w = liquidate_custodian e n cid ac w"
| "ndispatch e n (TransferCustodianNft cid owner new_owner m from_ata) w =
     transfer_custodian_nft e n cid owner new_owner m from_ata w"
| "ndispatch e n (WithdrawSol owner to amount) w = withdraw_sol e n owner to amount w"
| "ndispatch e n (WithdrawToken ac amount) w = withdraw_token e n ac amount w"

text \<open>The wallets whose signature a call spends by.\<close>

fun nspender :: "ncall \<Rightarrow> pubkey option" where
  "nspender (TransferCustodianNft _ owner _ _ _) = Some owner"
| "nspender _ = None"

section \<open>Yield and swaps\<close>

text \<open>The whole of \<open>custodian_distribute\<close>: GRAI's \<open>distribute\<close> of the custodian, then a heartbeat.\<close>

lemma accounts_CustodianDistribute_Ok:
  assumes "accounts_CustodianDistribute e n ac w = Ok (s, gs, c)"
  shows "read_grinders n (nledger w) = Some s" "di_authority ac = toreador s" "gs = grai_state (gn_grai w)"
    "custodian_id c = di_custodian_id ac"
    "\<exists>a. token_accounts (nledger w) (di_custodian_ata ac) = Some a \<and> tk_owner a = custodian_key n (di_custodian_id ac)"
  using assms by (auto simp: accounts_CustodianDistribute_def step_iffs load_grinders_Ok load_grai_Ok load_custodian_Ok owned_account_Ok)

lemma custodian_distribute_Ok:
  assumes "custodian_distribute e n ac x w = Ok w'"
  obtains s gs c g where "accounts_CustodianDistribute e n ac w = Ok (s, gs, c)" "0 < x" "\<not> liquidation gs"
    "dispatch e (Distribute (custodian_key n (di_custodian_id ac)) (di_payer ac) (di_asset_mint ac)
       (di_price_feed ac) (di_grai_mint ac) (di_custodian_ata ac) x) (gn_grai w) = Ok g"
    "w' = heartbeat e n s (w\<lparr>gn_grai := g\<rparr>)"
proof -
  obtain s gs c w1 where a: "accounts_CustodianDistribute e n ac w = Ok (s, gs, c)"
      and b: "execute_custodian_distribute e n ac s c gs x w = Ok w1" and w': "w' = heartbeat e n s w1"
    using assms unfolding custodian_distribute_def by (elim steps_OkE) simp
  obtain g where "0 < x" "\<not> liquidation gs" "w1 = w\<lparr>gn_grai := g\<rparr>"
      "dispatch e (Distribute (custodian_key n (di_custodian_id ac)) (di_payer ac) (di_asset_mint ac)
         (di_price_feed ac) (di_grai_mint ac) (di_custodian_ata ac) x) (gn_grai w) = Ok g"
    using b accounts_CustodianDistribute_Ok(4) [OF a]
    by (auto simp: execute_custodian_distribute_def require_not_liquidation_def step_iffs grai_cpi_Ok simp del: dispatch.simps)
  then show thesis using that [OF a, of g] w' by blast
qed

lemma custodian_distribute_sound:
  assumes "good_nenv e S gm n" "custodian_distribute e n ac x w = Ok w'"
  shows "sound e S gm n w w'"
  using assms(2)
proof (rule custodian_distribute_Ok)
  fix s gs c g
  assume a: "accounts_CustodianDistribute e n ac w = Ok (s, gs, c)" and w': "w' = heartbeat e n s (w\<lparr>gn_grai := g\<rparr>)"
    and d: "dispatch e (Distribute (custodian_key n (di_custodian_id ac)) (di_payer ac) (di_asset_mint ac)
       (di_price_feed ac) (di_grai_mint ac) (di_custodian_ata ac) x) (gn_grai w) = Ok g"
  have "grai_then e S gm (gn_grai w) g"
    by (rule grai_then.instruction [OF grai_then.nothing good_nenvD(1) [OF assms(1)] _ _ _ d])
      (use good_nenvD(4) [OF assms(1)] in \<open>simp_all add: same_addresses_def\<close>)
  then show ?thesis unfolding w' heartbeat_def
    by (intro sound_write [OF assms(1) _ accounts_CustodianDistribute_Ok(1) [OF a]])
      (simp_all add: state_ok_def custodians_ok_def custodian_ok_def)
qed

lemma custodian_swap_sound:
  assumes "good_nenv e S gm n" "custodian_swap n ac rem lim ix w = Ok w'"
  shows "sound e S gm n w w'"
proof -
  obtain t ms where "swap_router n t ms ix w = Some w'"
    using assms(2) unfolding custodian_swap_def execute_swap_def Let_def
    by (elim steps_OkE) (auto simp: step_iffs)
  then show ?thesis
    using assms(1) by (auto simp: good_nenv_def router_law_def sound_def grinders_inv_def read_grinders_def custodians_ok_def)
qed

lemma jupiter_gasless_never: "custodian_jupiter_gasless_swap n ac payer w \<noteq> Ok w'"
proof
  assume "custodian_jupiter_gasless_swap n ac payer w = Ok w'"
  then show False
    unfolding custodian_jupiter_gasless_swap_def execute_jupiter_gasless_swap_def Let_def
    by (elim steps_OkE) (auto simp: step_iffs)
qed

section \<open>Every call\<close>

lemma ndispatch_sound:
  assumes "good_nenv e S gm n" "vaults_owned e S (nledger w)" "nspender i \<noteq> Some (gs_key e)" "ndispatch e n i w = Ok w'"
  shows "sound e S gm n w w'"
  using assms
  by (cases i) (auto simp: jupiter_gasless_never intro: set_grind_period_sound set_toreador_sound execute_heartbeat_sound
      mint_custodian_sound transfer_custodian_nft_sound set_assets_sound allocate_sound custodian_deallocate_sound
      custodian_distribute_sound liquidate_custodian_sound liquidate_idle_sound withdraw_sol_sound withdraw_token_sound
      custodian_swap_sound)

section \<open>Initialisation\<close>

lemma grinders_initialize_Ok:
  assumes "good_nenv e S gm n" "grinders_initialize e n payer gp cref t w = Ok w'"
  obtains s w1 out where "w' = store_grinders n s w1" "gn_custodians w1 = gn_custodians w"
    "grai_then e S gm (gn_grai w) (gn_grai w1)" "encode_cluster_ref cref = Ok out" "gp \<noteq> default_pubkey"
    "s = \<lparr> toreador = (if t = default_pubkey then payer else t), gr_reserved = default_pubkey, gr_grai_program = gp,
           next_custodian_id = 0, collection_mint = npda n CollectionMintSeed, heartbeat_at = unix_timestamp e,
           grinding_period = DEFAULT_GRINDING_PERIOD, gr_bump = npda_bump n GrindersSeed, cluster_ref = out \<rparr>"
proof -
  obtain v1 v2 v3 v4 out where 1: "ninvoke (grinders_init n payer (grinders_key n) (8 + GrindersState_LEN)) w = Ok v1"
      and 2: "init_nft_mint e payer (npda n CollectionMintSeed) (grinders_key n) v1 = Ok v2"
      and 3: "init_ata e payer (npda n CollectionMintSeed) (grinders_key n) v2 = Ok v3"
      and 4: "create_collection e n payer v3 = Ok v4"
      and o: "encode_cluster_ref cref = Ok out" "gp \<noteq> default_pubkey"
      and w': "w' = store_grinders n \<lparr> toreador = (if t = default_pubkey then payer else t), gr_reserved = default_pubkey,
           gr_grai_program = gp, next_custodian_id = 0, collection_mint = npda n CollectionMintSeed,
           heartbeat_at = unix_timestamp e, grinding_period = DEFAULT_GRINDING_PERIOD,
           gr_bump = npda_bump n GrindersSeed, cluster_ref = out \<rparr> v4"
    using assms(2) unfolding grinders_initialize_def accounts_InitializeGrinders_def Let_def
    by (elim steps_OkE) (simp add: step_iffs)
  obtain l where l: "grinders_init n payer (grinders_key n) (8 + GrindersState_LEN) (nledger w) = Some l" "v1 = set_nledger l w"
    using 1 by (auto simp: ninvoke_Ok)
  have "grai_then e S gm (gn_grai w) (gn_grai v1)"
    using grai_then.others [OF grai_then.nothing program_flow(1) [OF assms(1) l(1)]] by (simp add: l(2) set_nledger_def)
  moreover have f: "call_flow e S gm n v1 v4"
    using init_nft_mint_call [OF assms(1) 2] init_ata_call [OF assms(1) 3] create_collection_call [OF assms(1) 4]
    by (blast intro: call_flow_trans)
  ultimately have "grai_then e S gm (gn_grai w) (gn_grai v4)"
    using grai_then_trans [OF seen_then [OF call_flowD(2) [OF f]]] by blast
  moreover have "gn_custodians v4 = gn_custodians w" using call_flowD(1) [OF f] l(2) by simp
  ultimately show thesis using that [OF w' _ _ o refl] by blast
qed

lemma grinders_initialize_inv:
  assumes "good_nenv e S gm n" "grinders_initialize e n payer gp cref t w = Ok w'"
    and "gn_custodians w = Map.empty" "payer \<noteq> default_pubkey"
  shows "grinders_inv n w'" "grai_then e S gm (gn_grai w) (gn_grai w')"
proof -
  have "grinders_inv n w' \<and> grai_then e S gm (gn_grai w) (gn_grai w')"
    using assms(1,2)
  proof (rule grinders_initialize_Ok)
    fix s w1 out
    assume w': "w' = store_grinders n s w1" "gn_custodians w1 = gn_custodians w"
        "grai_then e S gm (gn_grai w) (gn_grai w1)" and o: "encode_cluster_ref cref = Ok out"
      and s: "s = \<lparr> toreador = (if t = default_pubkey then payer else t), gr_reserved = default_pubkey, gr_grai_program = gp,
           next_custodian_id = 0, collection_mint = npda n CollectionMintSeed, heartbeat_at = unix_timestamp e,
           grinding_period = DEFAULT_GRINDING_PERIOD, gr_bump = npda_bump n GrindersSeed, cluster_ref = out \<rparr>"
    have "state_ok n s" using assms(4) o by (auto simp: state_ok_def s DEFAULT_GRINDING_PERIOD_def)
    moreover have "read_grinders n (nledger w') = Some s"
      using good_nenvD(3) [OF assms(1)] cluster_ref_str_encode(2) [OF o] by (simp add: w'(1) s read_put_grinders)
    moreover have "custodians_ok n s w'" using assms(3) by (simp add: custodians_ok_def w'(1,2))
    ultimately show ?thesis using grinders_then_store [OF w'(3)] by (auto simp: grinders_inv_def w'(1))
  qed
  then show "grinders_inv n w'" "grai_then e S gm (gn_grai w) (gn_grai w')" by blast+
qed

section \<open>Runs\<close>

definition same_naddresses :: "nenv \<Rightarrow> nenv \<Rightarrow> bool" where
  "same_naddresses n n' \<longleftrightarrow> npda n' = npda n \<and> npda_bump n' = npda_bump n \<and> nkeccak n' = nkeccak n \<and>
     grinders_disc n' = grinders_disc n"

text \<open>
  Outside Grinders' own calls its state account changes only by the heartbeat that GRAI's
  \<open>revive\<close> calls.
\<close>

definition beats :: "nenv \<Rightarrow> ledger \<Rightarrow> ledger \<Rightarrow> bool" where
  "beats n l l' \<longleftrightarrow> raw_data l' (grinders_key n) = raw_data l (grinders_key n) \<or>
     (\<exists>s t. read_grinders n l = Some s \<and>
        raw_data l' (grinders_key n) = encode_grinders (grinders_disc n) (s\<lparr>heartbeat_at := t\<rparr>))"

inductive grinders_run :: "env \<Rightarrow> pubkey set \<Rightarrow> pubkey \<Rightarrow> nenv \<Rightarrow> grinders_world \<Rightarrow> bool" for e S gm n where
  initialize: "grai_run e S gm g \<Longrightarrow> good_nenv e' S gm n' \<Longrightarrow> same_addresses e e' \<Longrightarrow> same_naddresses n n' \<Longrightarrow>
     payer \<noteq> default_pubkey \<Longrightarrow>
     grinders_initialize e' n' payer gp cref t \<lparr> gn_custodians = Map.empty, gn_grai = g \<rparr> = Ok w \<Longrightarrow>
     grinders_run e S gm n w"
| call: "grinders_run e S gm n w \<Longrightarrow> good_nenv e' S gm n' \<Longrightarrow> same_addresses e e' \<Longrightarrow> same_naddresses n n' \<Longrightarrow>
     nspender i \<noteq> Some (gs_key e) \<Longrightarrow> ndispatch e' n' i w = Ok w' \<Longrightarrow> grinders_run e S gm n w'"
| grai: "grinders_run e S gm n w \<Longrightarrow> grai_then e S gm (gn_grai w) g \<Longrightarrow> beats n (nledger w) (ledger g) \<Longrightarrow>
     grinders_run e S gm n (w\<lparr>gn_grai := g\<rparr>)"

lemma grinders_inv_addresses: "same_naddresses n n' \<Longrightarrow> grinders_inv n' w = grinders_inv n w"
  by (simp add: same_naddresses_def grinders_inv_def state_ok_def custodians_ok_def custodian_ok_def read_grinders_def)

lemma grai_then_addresses: "same_addresses e e' \<Longrightarrow> grai_then e' S gm g w \<Longrightarrow> grai_then e S gm g w"
proof (rotate_tac, induction rule: grai_then.induct)
  case nothing
  show ?case by (rule grai_then.nothing)
next
  case (instruction w e'' i w')
  show ?case
    by (rule grai_then.instruction [OF instruction.IH instruction.hyps(2) _ _ instruction.hyps(5,6)])
      (use instruction.hyps(3,4) instruction.prems in \<open>simp_all add: same_addresses_def\<close>)
next
  case (others w l)
  show ?case
    by (rule grai_then.others [OF others.IH]) (use others.hyps(2) others.prems in \<open>simp_all add: lflow_addresses\<close>)
qed

lemma beats_inv:
  assumes "grinders_inv n w" "beats n (nledger w) (ledger g)" "length (grinders_disc n) = 8"
  shows "grinders_inv n (w\<lparr>gn_grai := g\<rparr>)"
proof -
  obtain s where s: "read_grinders n (nledger w) = Some s" "state_ok n s" "custodians_ok n s w"
    using assms(1) by (auto simp: grinders_inv_def)
  then have len: "length (cluster_ref s) = 32" using cluster_ref_str_encode(2) by (auto simp: state_ok_def)
  obtain t where "read_grinders n (ledger g) = Some (s\<lparr>heartbeat_at := t\<rparr>)"
    using assms(2) s(1) len decode_encode_grinders [OF assms(3)]
    unfolding beats_def read_grinders_def by (metis GrindersState.surjective GrindersState.select_convs(9) GrindersState.update_convs(6) option.inject)
  then show ?thesis using s(2,3) by (auto simp: grinders_inv_def state_ok_def custodians_ok_def custodian_ok_def)
qed

lemma grinders_run_disc: "grinders_run e S gm n w \<Longrightarrow> length (grinders_disc n) = 8"
  by (induction rule: grinders_run.induct) (auto simp: same_naddresses_def dest: good_nenvD(3))

lemma grinders_run_inv: "grinders_run e S gm n w \<Longrightarrow> grinders_inv n w \<and> grai_run e S gm (gn_grai w)"
proof (induction rule: grinders_run.induct)
  case (initialize g e' n' payer gp cref t w)
  note I = grinders_initialize_inv [OF initialize.hyps(2,6) _ initialize.hyps(5)]
  then show ?case
    using grinders_inv_addresses [OF initialize.hyps(4)] grai_then_addresses [OF initialize.hyps(3)]
      grai_then_run initialize.hyps(1) by fastforce
next
  case (call w e' n' i w')
  have "vaults_owned e S (nledger w)"
    using call.IH grai_run_inv by (auto simp: program_inv_def grai_inv_def registry_inv_def)
  then have "vaults_owned e' S (nledger w)" "nspender i \<noteq> Some (gs_key e')"
    using call.hyps(3,5) by (simp_all add: vaults_owned_def same_addresses_def)
  then have "sound e' S gm n' w w'" using ndispatch_sound [OF call.hyps(2) _ _ call.hyps(6)] by blast
  then show ?case
    using call.IH grinders_inv_addresses [OF call.hyps(4)] grai_then_addresses [OF call.hyps(3)] grai_then_run
    unfolding sound_def by blast
next
  case (grai w g)
  then show ?case using beats_inv grinders_run_disc grai_then_run by auto
qed

end
