(* ===== verification/Grinders_Guard.thy ===== *)
theory Grinders_Guard
  imports Grinders_Program
begin

text \<open>
  Who can take tokens out of the reserve: the token accounts of the Grinders program lose tokens
  only by the instructions of the toreador and of GRAI's owner and, while a liquidation is open,
  by its sweep.
\<close>

section \<open>What a call leaves an owner\<close>

abbreviation nspares :: "nenv \<Rightarrow> grinders_world \<Rightarrow> grinders_world \<Rightarrow> bool" where
  "nspares n w w' \<equiv> spares_owner (grinders_key n) (nledger w) (nledger w')"

lemma spares_owner_refl [simp]: "spares_owner own l l"
  by (simp add: spares_owner_def)

lemma spares_owner_trans [trans]: "spares_owner own a b \<Longrightarrow> spares_owner own b c \<Longrightarrow> spares_owner own a c"
  unfolding spares_owner_def by (fastforce intro: order_trans)

lemma spares_owner_cong: "token_accounts l' = token_accounts l \<Longrightarrow> spares_owner own l l'"
  by (simp add: spares_owner_def bal_def)

lemma spares_shape: "same_shape l l' \<Longrightarrow> (\<And>k. bal l k \<le> bal l' k) \<Longrightarrow> spares_owner own l l'"
  unfolding spares_owner_def same_shape_def by metis

lemma spares_moved:
  assumes "moved from to x l l'" "\<And>a. token_accounts l from = Some a \<Longrightarrow> tk_owner a \<noteq> own"
  shows "spares_owner own l l'"
  using assms unfolding spares_owner_def moved_def same_shape_def by (metis le_add1 order_refl)

lemma moved_back:
  assumes "moved from to x l l'" "token_accounts l' k = Some v"
  obtains v0 where "token_accounts l k = Some v0" "tk_owner v0 = tk_owner v"
proof -
  have s: "same_shape l l'" "none_new l l'" using assms(1) by (simp_all add: moved_def)
  then obtain v0 where v0: "token_accounts l k = Some v0"
    using assms(2) by (cases "token_accounts l k") (auto simp: none_new_def)
  moreover have "tk_owner v0 = tk_owner v" using s(1) v0 assms(2) unfolding same_shape_def by fastforce
  ultimately show thesis by (rule that)
qed

lemma spares_new:
  assumes "token_accounts l k = None" "token_accounts l' = (token_accounts l)(k \<mapsto> a)"
  shows "spares_owner own l l'"
  using assms by (auto simp: spares_owner_def bal_def)

lemma spares_transfer:
  assumes "env_laws e" "ninvoke (spl_transfer e from to auth x) w = Ok w'"
    "\<And>a. token_accounts (nledger w) from = Some a \<Longrightarrow> tk_owner a \<noteq> grinders_key n"
  shows "nspares n w w'"
  using assms spares_moved [OF spl_transfer_moved [OF assms(1)]] by (auto simp: ninvoke_Ok)

lemma spares_mint:
  assumes "env_laws e" "ninvoke (spl_mint_to e m to auth x) w = Ok w'"
  shows "nspares n w w'"
  using assms(2) mint_lawD(1,4) [OF assms(1)] spares_shape [of "nledger w"] by (auto simp: ninvoke_Ok)

lemma spares_init_nft_mint:
  assumes "env_laws e" "init_nft_mint e payer m auth w = Ok w'"
  shows "nspares n w w'"
proof -
  have "token_accounts (nledger w') = token_accounts (nledger w)"
    using assms(2) system_lawD(6) [OF assms(1)] init_mint_lawD(2) [OF assms(1)]
    by (fastforce simp: init_nft_mint_def step_iffs ninvoke_Ok)
  then show ?thesis by (rule spares_owner_cong)
qed

lemma spares_init_ata:
  assumes "env_laws e" "init_ata e payer m own w = Ok w'"
  shows "nspares n w w'"
  using assms(2) spares_new [OF init_lawD(1,3) [OF assms(1)]] by (auto simp: init_ata_def ninvoke_Ok)

lemma spares_frames:
  assumes "ninvoke f w = Ok w'" "frames f"
  shows "nspares n w w'"
  using assms by (auto simp: ninvoke_Ok frames_def intro: spares_owner_cong)

lemma spares_store [simp]: "nspares n w (store_grinders n' s w)" "nspares n w (heartbeat e n' s w)"
  by (simp_all add: spares_owner_cong heartbeat_def)

section \<open>The instructions\<close>

lemma mint_custodian_spares:
  assumes "good_nenv e S gm n" "mint_custodian e n ac label w = Ok w'"
  shows "nspares n w w'"
proof -
  note L = good_nenvD(2) [OF assms(1)]
  have f: "frames (grinders_init n p k z)" "frames (item_metadata n m p nm u cl)" "frames (verify_collection n p m cl)"
    for p k z m nm u cl using assms(1) by (simp_all add: good_nenv_def program_law_def)
  obtain s w1 where 1: "accounts_MintCustodian e n ac w = Ok (s, w1)" using assms by (rule mint_custodian_Ok)
  obtain v1 v2 v3 nx where 2: "ninvoke (item_metadata n (custodian_mint_key n (next_custodian_id s)) (mc_authority ac)
          (custodian_name (next_custodian_id s)) (token_json_uri (next_custodian_id s)) (collection_mint s))
          (w1\<lparr>gn_custodians := (gn_custodians w1)(next_custodian_id s \<mapsto> new_custodian n ac s label)\<rparr>) = Ok v1"
      and 3: "ninvoke (verify_collection n (mc_authority ac) (custodian_mint_key n (next_custodian_id s)) (collection_mint s)) v1 = Ok v2"
      and 4: "ninvoke (spl_mint_to e (custodian_mint_key n (next_custodian_id s))
          (ata e (mc_custodian_owner ac) (custodian_mint_key n (next_custodian_id s))) (grinders_key n) 1) v2 = Ok v3"
      and w': "w' = store_grinders n (s\<lparr>next_custodian_id := nx\<rparr>) v3"
    using assms(2) unfolding mint_custodian_def Let_def verify_custodian_collection_def
    by (elim steps_OkE) (simp add: step_iffs 1, blast)
  obtain u1 u2 u3 u4 where 5: "ninvoke (grinders_init n (mc_authority ac) (custodian_key n (next_custodian_id s)) (8 + CustodianState_LEN)) w = Ok u1"
      "init_nft_mint e (mc_authority ac) (custodian_mint_key n (next_custodian_id s)) (grinders_key n) u1 = Ok u2"
      "init_ata e (mc_authority ac) (custodian_mint_key n (next_custodian_id s)) (mc_custodian_owner ac) u2 = Ok u3"
      "init_ata e (mc_authority ac) (mc_base_mint ac) (custodian_key n (next_custodian_id s)) u3 = Ok u4"
      "init_ata e (mc_authority ac) (mc_quote_mint ac) (custodian_key n (next_custodian_id s)) u4 = Ok w1"
    using 1 unfolding accounts_MintCustodian_def Let_def
    by (elim steps_OkE) (simp add: step_iffs load_grinders_Ok)
  have "nspares n w u1" using spares_frames [OF 5(1) f(1)] .
  also have "nspares n u1 u2" using spares_init_nft_mint [OF L 5(2)] .
  also have "nspares n u2 u3" using spares_init_ata [OF L 5(3)] .
  also have "nspares n u3 u4" using spares_init_ata [OF L 5(4)] .
  also have "nspares n u4 w1" using spares_init_ata [OF L 5(5)] .
  also have "nspares n w1 v1" using spares_frames [OF 2 f(2)] by simp
  also have "nspares n v1 v2" using spares_frames [OF 3 f(3)] .
  also have "nspares n v2 v3" using spares_mint [OF L 4] .
  finally have "nspares n w v3" .
  then show ?thesis unfolding w' using spares_store(1) spares_owner_trans by blast
qed

lemma transfer_custodian_nft_spares:
  assumes "good_nenv e S gm n" "owner \<noteq> grinders_key n" "transfer_custodian_nft e n cid owner new_owner m from_ata w = Ok w'"
  shows "nspares n w w'"
proof -
  note L = good_nenvD(2) [OF assms(1)]
  obtain c a w1 w2 where a: "token_accounts (nledger w) from_ata = Some a" "tk_owner a = owner"
      and 1: "init_ata_if_needed e owner m new_owner w = Ok w1"
      and 2: "ninvoke (spl_transfer e from_ata (ata e new_owner m) owner 1) w1 = Ok w2"
      and w': "nledger w' = nledger w2"
    using assms(3) by (auto simp: transfer_custodian_nft_def accounts_TransferCustodianNft_def step_iffs minted_account_Ok)
  have "nspares n w w1"
    using 1 spares_init_ata [OF L] by (auto simp: init_ata_if_needed_def step_iffs split: option.splits)
  moreover have "token_accounts (nledger w1) from_ata = Some a"
    using 1 a(1) init_lawD(1,3) [OF L] by (fastforce simp: init_ata_if_needed_def init_ata_def ninvoke_Ok step_iffs split: option.splits)
  then have "nspares n w1 w2" using spares_transfer [OF L 2] a(2) assms(2) by simp
  ultimately show ?thesis using w' spares_owner_trans by metis
qed

lemma custodian_deallocate_spares:
  assumes "good_nenv e S gm n" "custodian_deallocate e n ac x w = Ok w'"
  shows "nspares n w w'"
  using assms(2)
proof (rule custodian_deallocate_Ok)
  fix s gs c w1
  assume "accounts_CustodianDeallocate e n ac w = Ok (s, gs, c)" and w': "w' = heartbeat e n s w1"
    and 1: "ninvoke (spl_transfer e (ra_custodian_ata ac) (ra_grinders_ata ac) (custodian_key n (custodian_id c)) x) w = Ok w1"
  note A = accounts_CustodianDeallocate_Ok [OF this(1)]
  have "nspares n w w1"
    using spares_transfer [OF good_nenvD(2) [OF assms(1)] 1] A(4) good_nenvD(6) [OF assms(1)] by auto
  then show ?thesis unfolding w' using spares_store(2) spares_owner_trans by blast
qed

lemma forward_spares:
  assumes "good_nenv e S gm n" "forward e n cid a b v x w = Ok w'"
    and a: "token_accounts (nledger w) a = Some ta" "tk_owner ta = custodian_key n cid"
    and b: "token_accounts (nledger w) b = Some tb" "tk_owner tb = grinders_key n"
  shows "nspares n w w'" "same_shape (nledger w) (nledger w')"
proof -
  note L = good_nenvD(2) [OF assms(1)]
  have ne: "custodian_key n cid \<noteq> grinders_key n" "a \<noteq> b" using good_nenvD(6) [OF assms(1)] a b by auto
  have "nspares n w w' \<and> same_shape (nledger w) (nledger w')"
  proof (cases "0 < x")
    case True
    then obtain l1 l2 where 1: "moved a b (unat x) (nledger w) l1" and 2: "moved b v (unat x) l1 l2" and w': "nledger w' = l2"
      using assms(2) spl_transfer_moved [OF L] by (fastforce simp: forward_def step_iffs ninvoke_Ok)
    have sh: "same_shape (nledger w) l1" "same_shape l1 l2" using 1 2 by (auto simp: moved_def)
    have "bal (nledger w) k \<le> bal l2 k" if "k \<noteq> a" for k
    proof -
      have "bal l1 k = (if k = b then bal (nledger w) k + unat x else bal (nledger w) k)"
        using 1 that ne(2) by (simp add: moved_def)
      moreover have "bal l1 k \<le> bal l2 k + (if k = b then unat x else 0)" using 2 by (auto simp: moved_def)
      ultimately show ?thesis by (auto split: if_splits)
    qed
    moreover have "\<And>k t. token_accounts (nledger w) k = Some t \<Longrightarrow> tk_owner t = grinders_key n \<Longrightarrow> k \<noteq> a"
      using a ne(1) by auto
    moreover have sh': "same_shape (nledger w) l2" using sh by (rule same_shape_trans)
    ultimately show ?thesis using w' unfolding spares_owner_def same_shape_def by metis
  next
    case False
    then show ?thesis using assms(2) by (simp add: forward_def)
  qed
  then show "nspares n w w'" "same_shape (nledger w) (nledger w')" by blast+
qed

lemma liquidate_custodian_spares:
  assumes "good_nenv e S gm n" "liquidate_custodian e n cid ac w = Ok w'"
  shows "nspares n w w'"
proof -
  obtain gs b q w1 where a: "accounts_LiquidateCustodian e n cid ac w = Ok (gs, b, q)"
      and 1: "forward e n cid (ca_base_custodian ac) (ca_base_grinders ac) (vault_key e (ca_base_mint ac)) (tk_amount b) w = Ok w1"
      and 2: "forward e n cid (ca_quote_custodian ac) (ca_quote_grinders ac) (vault_key e (ca_quote_mint ac)) (tk_amount q) w1 = Ok w'"
    using assms(2) unfolding liquidate_custodian_def by (elim steps_OkE) (simp add: step_iffs)
  obtain tb tq where b: "token_accounts (nledger w) (ca_base_custodian ac) = Some b" "tk_owner b = custodian_key n cid"
      "token_accounts (nledger w) (ca_base_grinders ac) = Some tb" "tk_owner tb = grinders_key n"
      and q: "token_accounts (nledger w) (ca_quote_custodian ac) = Some q" "tk_owner q = custodian_key n cid"
      "token_accounts (nledger w) (ca_quote_grinders ac) = Some tq" "tk_owner tq = grinders_key n"
    using a by (rule accounts_LiquidateCustodian_Ok)
  note F = forward_spares [OF assms(1) 1 b]
  obtain q' tq' where "token_accounts (nledger w1) (ca_quote_custodian ac) = Some q'" "tk_owner q' = custodian_key n cid"
      "token_accounts (nledger w1) (ca_quote_grinders ac) = Some tq'" "tk_owner tq' = grinders_key n"
    using F(2) q unfolding same_shape_def by metis
  from spares_owner_trans [OF F(1) forward_spares(1) [OF assms(1) 2 this]] show ?thesis .
qed

text \<open>GRAI's \<open>distribute\<close> takes from the custodian and from its own vault.\<close>

lemma distribute_spares:
  assumes "good_env e S gm" "vaults_owned e S (ledger w)" "assets w m \<noteq> None \<Longrightarrow> m \<in> S"
    and "execute_distribute e wallet payer m feed gm' source x w = Ok w'"
    and "own \<noteq> wallet" "own \<noteq> gs_key e"
  shows "spares_owner own (ledger w) (ledger w')"
proof -
  note L = good_envD(1) [OF assms(1)]
  obtain a p w1 w2 a' w3 ty py where 1: "accounts_Distribute e wallet payer m feed gm' source w = Ok (a, p, w1)"
      and 2: "transfer_from_signer e source (vault_key e m) wallet x w1 = Ok w2"
      and 3: "pay_cuts e m a x w2 = Ok (a', w3)"
      and 4: "w' = store_position wallet m (p\<lparr>po_yielded := py, po_bump := pda_bump e (PositionSeed wallet m)\<rparr>)
           (store_asset_config m (a'\<lparr>total_yielded := ty\<rparr>) w3)"
    using assms(4) unfolding execute_distribute_def
    by (elim steps_OkE) (simp add: step_iffs, blast)
  have w': "ledger w' = ledger w3" by (simp add: 4 store_position_def store_asset_config_def)
  have m: "m \<in> S" using 1 assms(3) unfolding accounts_Distribute_def check_asset_config_def
    by (elim steps_OkE) (auto simp: step_iffs)
  obtain t where t: "token_accounts (ledger w) source = Some t" "tk_owner t = wallet"
    using 1 unfolding accounts_Distribute_def by (elim steps_OkE) (auto simp: step_iffs check_token_account_def)
  have l1: "token_accounts (ledger w1) = token_accounts (ledger w)"
    using 1 system_lawD(6) [OF L] unfolding accounts_Distribute_def
    by (elim steps_OkE) (auto simp: step_iffs init_position_if_needed_def invoke_Ok store_position_def Let_def split: option.splits)
  obtain l2 where l2: "ledger w2 = l2" "moved source (vault_key e m) (unat x) (ledger w1) l2"
    using transfer_from_signer_Ok [OF L 2] by (metis world.select_convs(6) world.surjective world.update_convs(6))
  have "spares_owner own (ledger w) (ledger w1)" using l1 by (rule spares_owner_cong)
  also have "spares_owner own (ledger w1) (ledger w2)"
    unfolding l2(1) by (rule spares_moved [OF l2(2)]) (use t l1 assms(5) in auto)
  also have "spares_owner own (ledger w2) (ledger w3)"
  proof -
    have own: "tk_owner v = gs_key e" if v: "token_accounts (ledger w2) (vault_key e m) = Some v" for v
    proof -
      obtain v0 where "token_accounts (ledger w) (vault_key e m) = Some v0" "tk_owner v0 = tk_owner v"
        by (rule moved_back [OF l2(2)]) (use v l1 l2(1) in auto)
      then show ?thesis using assms(2) m by (auto simp: vaults_owned_def)
    qed
    have "w3 = w2 \<or> (\<exists>z. transfer_from_vault e (vault_key e m) (treasury_key e m) z w2 = Ok w3)"
      using 3 unfolding pay_cuts_def Let_def by (elim steps_OkE) (auto simp: step_iffs split: if_splits)
    then show ?thesis
    proof
      assume "\<exists>z. transfer_from_vault e (vault_key e m) (treasury_key e m) z w2 = Ok w3"
      then obtain z l3 where "ledger w3 = l3" "moved (vault_key e m) (treasury_key e m) z (ledger w2) l3"
        using transfer_from_vault_Ok [OF L] by (metis world.select_convs(6) world.surjective world.update_convs(6))
      then show ?thesis using spares_moved own assms(6) by metis
    qed simp
  qed
  finally show ?thesis by (simp add: w')
qed

section \<open>The guard\<close>

lemma bal_transfer_other:
  assumes "env_laws e" "ninvoke (spl_transfer e from to auth x) w = Ok w'" "bal (nledger w') k < bal (nledger w) k"
  shows "k = from"
  using assms(2,3) transfer_lawD(4) [OF assms(1)] by (auto simp: ninvoke_Ok split: if_splits)

lemma spares_bal:
  "nspares n w w' \<Longrightarrow> token_accounts (nledger w) k = Some a \<Longrightarrow> tk_owner a = grinders_key n \<Longrightarrow>
   bal (nledger w) k \<le> bal (nledger w') k"
  by (simp add: spares_owner_def)

lemma custodian_distribute_spares:
  assumes "good_nenv e S gm n" "grai_inv e S gm (gn_grai w)" "custodian_distribute e n ac x w = Ok w'"
  shows "nspares n w w'"
  using assms(3)
proof (rule custodian_distribute_Ok)
  fix s gs c g
  assume w': "w' = heartbeat e n s (w\<lparr>gn_grai := g\<rparr>)"
    and d: "dispatch e (Distribute (custodian_key n (di_custodian_id ac)) (di_payer ac) (di_asset_mint ac)
       (di_price_feed ac) (di_grai_mint ac) (di_custodian_ata ac) x) (gn_grai w) = Ok g"
  have r: "vaults_owned e S (nledger w)" "assets (gn_grai w) m \<noteq> None \<Longrightarrow> m \<in> S" for m
    using assms(2) by (auto simp: grai_inv_def registry_inv_def)
  have "nspares n w (w\<lparr>gn_grai := g\<rparr>)"
    using distribute_spares [OF good_nenvD(1) [OF assms(1)] r, of "di_asset_mint ac"] d
      good_nenvD(4,6) [OF assms(1)] by simp
  then show ?thesis unfolding w' using spares_store(2) spares_owner_trans by blast
qed

lemma set_calls_spare:
  "set_grind_period e n owner p w = Ok w' \<Longrightarrow> nspares n w w'"
  "set_toreador e n owner t w = Ok w' \<Longrightarrow> nspares n w w'"
  "execute_heartbeat e n auth w = Ok w' \<Longrightarrow> nspares n w w'"
  "set_assets n cid sa w = Ok w' \<Longrightarrow> nspares n w w'"
  by (auto simp: set_grind_period_def set_toreador_def execute_heartbeat_def accounts_Heartbeat_def set_assets_def
      accounts_SetAssets_def accounts_SetGrindPeriod_def step_iffs intro: spares_owner_cong)

lemma custodian_swap_spares:
  assumes "good_nenv e S gm n" "custodian_swap n ac rem lim ix w = Ok w'"
  shows "nspares n w w'"
proof -
  obtain t ms where "swap_router n t ms ix w = Some w'"
    using assms(2) unfolding custodian_swap_def execute_swap_def Let_def
    by (elim steps_OkE) (auto simp: step_iffs)
  then show ?thesis using assms(1) unfolding good_nenv_def router_law_def by blast
qed

lemma withdraw_sol_spares:
  assumes "good_nenv e S gm n" "withdraw_sol e n owner to x w = Ok w'"
  shows "nspares n w w'"
proof -
  obtain l where "sys_transfer e (grinders_key n) to x (nledger w) = Some l" "w' = set_nledger l w"
    using assms(2) unfolding withdraw_sol_def by (elim steps_OkE) (simp add: step_iffs)
  then show ?thesis using system_lawD(1) [OF good_nenvD(2) [OF assms(1)]] by (simp add: spares_owner_cong)
qed

text \<open>
  C4. A token account of the reserve loses tokens only by an \<open>allocate\<close> of the toreador, by a
  \<open>withdraw_token\<close> of GRAI's owner, or, while GRAI's liquidation is open, by its idle sweep; no
  other instruction takes anything from it, whoever signs it.
\<close>

theorem reserve_guarded:
  assumes run: "grinders_run e S gm n w" and good: "good_nenv e S gm n" and sp: "nspender i \<noteq> Some (grinders_key n)"
    and ok: "ndispatch e n i w = Ok w'"
    and k: "token_accounts (nledger w) k = Some a" "tk_owner a = grinders_key n"
    and less: "bal (nledger w') k < bal (nledger w) k"
  shows "(\<exists>ac x s. i = Allocate ac x \<and> ra_grinders_ata ac = k \<and> read_grinders n (nledger w) = Some s \<and>
        ra_authority ac = toreador s) \<or>
     (\<exists>ac x. i = WithdrawToken ac x \<and> wt_grinders_ata ac = k \<and> wt_owner ac = gs_owner (grai_state (gn_grai w))) \<or>
     (\<exists>rem. i = LiquidateIdle rem \<and> liquidation (grai_state (gn_grai w)))"
proof -
  note L = good_nenvD(2) [OF good]
  have inv: "grai_inv e S gm (gn_grai w)"
    using grinders_run_inv [OF run] grai_run_inv by (auto simp: program_inv_def)
  have no: "\<not> nspares n w w'" using spares_bal k less by (meson linorder_not_le)
  show ?thesis
  proof (cases i)
    case (Allocate ac x)
    with ok have "allocate e n ac x w = Ok w'" by simp
    then show ?thesis
    proof (rule allocate_Ok)
      fix s b w1 assume A: "accounts_Allocate n ac w = Ok (s, b)" and w': "w' = heartbeat e n s w1"
        and 1: "ninvoke (spl_transfer e (ra_grinders_ata ac) (ra_custodian_ata ac) (grinders_key n) x) w = Ok w1"
      have "bal (nledger w1) k < bal (nledger w) k" using less by (simp add: w' heartbeat_def)
      then show ?thesis using bal_transfer_other [OF L 1] accounts_Allocate_Ok(1,2) [OF A] Allocate by blast
    qed
  next
    case (WithdrawToken ac x)
    with ok have "ninvoke (spl_transfer e (wt_grinders_ata ac) (wt_to_ata ac) (grinders_key n) x) w = Ok w'"
      and "wt_owner ac = gs_owner (grai_state (gn_grai w))"
      by (auto simp: withdraw_token_def accounts_WithdrawToken_def step_iffs accounts_SetGrindPeriod_def load_grai_Ok)
    then show ?thesis using bal_transfer_other [OF L _ less] WithdrawToken by blast
  next
    case (LiquidateIdle rem)
    with ok have "liquidation (grai_state (gn_grai w))"
      by (auto simp: liquidate_idle_def accounts_LiquidateIdle_def step_iffs load_grai_Ok Let_def)
    then show ?thesis using LiquidateIdle by blast
  next
    case (CustodianJupiterGaslessSwap ac payer)
    then show ?thesis using ok by (simp add: jupiter_gasless_never)
  qed (use ok no sp set_calls_spare mint_custodian_spares [OF good] transfer_custodian_nft_spares [OF good]
      custodian_swap_spares [OF good] custodian_deallocate_spares [OF good] custodian_distribute_spares [OF good inv]
      liquidate_custodian_spares [OF good] withdraw_sol_spares [OF good] in \<open>simp, blast?\<close>)+
qed

end
