(* ===== verification/Grinders_Facts.thy ===== *)
theory Grinders_Facts
  imports Grinders_Guard Grai_Phases
begin

text \<open>
  What the Grinders program guarantees: the bytes GRAI reads are the fields it writes, a swap never
  executes past its limit, and a run of Grinders beside GRAI is to GRAI a run of its own.
\<close>

section \<open>The bytes GRAI reads\<close>

lemma pubkey_of_bytes_word: "pubkey_of_bytes bs = be_word bs"
proof -
  have "foldl (\<lambda>k b. k * 256 + ucast b) (of_nat a :: pubkey) bs = of_nat (foldl (\<lambda>a b. a * 256 + unat b) a bs)" for a
  proof (induction bs arbitrary: a)
    case (Cons b bs)
    have "(ucast b :: pubkey) = of_nat (unat b)" by (simp add: unsigned_ucast_eq)
    then have "(of_nat a :: pubkey) * 256 + ucast b = of_nat (a * 256 + unat b)" by simp
    then show ?case using Cons by (simp del: of_nat_add of_nat_mult)
  qed simp
  from this [of 0] show ?thesis by (simp add: pubkey_of_bytes_def be_word_def be_nat_def)
qed

lemma grinding_of_state:
  assumes "read_grinders n (ledger g) = Some s"
  shows "grinders_grinding (grinders_key n) now g =
     Ok (sint now \<le> sint (saturating_sadd (heartbeat_at s) (ucast (grinding_period s))))"
  using assms
  by (auto simp: read_grinders_def decode_grinders_def grinders_grinding_def GRINDERS_HEARTBEAT_AT_OFFSET_def
      GRINDERS_GRINDING_PERIOD_OFFSET_def GrindersState_LEN_def Let_def split: if_splits)

text \<open>
  C27. The state account round-trips through its Borsh bytes, and the two readers GRAI has of these
  bytes - the liveness check of \<open>liquidate\<close> and the link check of \<open>set_grinders\<close>, which decode
  nothing but read at fixed offsets - see the heartbeat, the grinding period and the linked
  program that the Grinders program wrote.
\<close>

theorem grai_reads_what_grinders_wrote:
  assumes "length (grinders_disc n) = 8" "length (cluster_ref s) = 32"
  shows "read_grinders n (put_grinders n s l) = Some s \<and>
    grinders_grinding (grinders_key n) now (g\<lparr>ledger := put_grinders n s l\<rparr>) =
      Ok (sint now \<le> sint (saturating_sadd (heartbeat_at s) (ucast (grinding_period s)))) \<and>
    pubkey_of_bytes (slice GRINDERS_STATE_GRAI_PROGRAM_OFFSET (GRINDERS_STATE_GRAI_PROGRAM_OFFSET + 32)
      (raw_data (put_grinders n s l) (grinders_key n))) = gr_grai_program s"
  using read_put_grinders [OF assms] grinding_of_state [of n "g\<lparr>ledger := put_grinders n s l\<rparr>" s now]
    encode_grinders_fields(4) [OF assms(1), of s]
  by (simp add: GRINDERS_STATE_GRAI_PROGRAM_OFFSET_def put_grinders_def pubkey_of_bytes_word)

section \<open>Swaps\<close>

lemma swap_pow10_Ok: "swap_pow10 d = Ok x \<Longrightarrow> unat x = 10 ^ unat d"
  using unat_word_of_nat_fits [of "10 ^ unat d", where ?'a = 128] by (auto simp: swap_pow10_def step_iffs split: if_splits)

lemma quote_per_base_Ok:
  assumes "quote_per_base base quote bd qd = Ok p"
  shows "0 < unat base" "unat p = unat quote * 10 ^ 18 * 10 ^ unat bd div (unat base * 10 ^ unat qd)"
proof -
  obtain bs qs where "swap_pow10 bd = Ok bs" "swap_pow10 qd = Ok qs"
      and m: "ok_or (Option.bind (checked_mul (ucast quote) PRICE_DECIMALS) (\<lambda>v. Option.bind (checked_mul v bs) (\<lambda>v.
            Option.bind (checked_div v (ucast base)) (\<lambda>v. checked_div v qs)))) Grinders_MathOverflow = Ok p"
    using assms unfolding quote_per_base_def Let_def by (elim steps_OkE) simp
  then have b: "unat bs = 10 ^ unat bd" "unat qs = 10 ^ unat qd" by (simp_all add: swap_pow10_Ok)
  have u: "unat (ucast y :: u128) = unat y" for y :: u64 by (rule unat_ucast_u64_u128)
  have d: "unat PRICE_DECIMALS = 10 ^ 18" by (simp add: PRICE_DECIMALS_def)
  have "unat base \<noteq> 0 \<and> unat p = unat quote * 10 ^ 18 * 10 ^ unat bd div unat base div 10 ^ unat qd"
    using m by (auto simp: step_iffs bind_eq_Some_conv checked_mul_Some checked_div_Some u b d)
  then show "0 < unat base" "unat p = unat quote * 10 ^ 18 * 10 ^ unat bd div (unat base * 10 ^ unat qd)"
    by (simp_all add: div_mult2_eq)
qed

text \<open>
  C17. A swap executes only for the holder of the custodian's NFT and never past its limit: either
  base left and quote arrived at no less than \<open>limit_price\<close> quote per base, or base arrived and
  quote left at less than one unit in \<open>10 ^ 18\<close> above it. Prices compare cross-multiplied, in the
  decimals of the two mint accounts passed; division by zero and overflow cannot slip through.
\<close>

theorem swap_price_limited:
  assumes "custodian_swap n ac rem limit_price ix_data w = Ok w'"
  shows "\<exists>c nft b q b' q' bm qm. gn_custodians w (sw_custodian_id ac) = Some c \<and>
    token_accounts (nledger w) (sw_nft_ata ac) = Some nft \<and> tk_mint nft = nft_mint c \<and>
    tk_owner nft = sw_owner ac \<and> 1 \<le> tk_amount nft \<and>
    token_accounts (nledger w) (sw_base_ata ac) = Some b \<and> token_accounts (nledger w') (sw_base_ata ac) = Some b' \<and>
    token_accounts (nledger w) (sw_quote_ata ac) = Some q \<and> token_accounts (nledger w') (sw_quote_ata ac) = Some q' \<and>
    mints (nledger w) (sw_base_mint ac) = Some bm \<and> mints (nledger w) (sw_quote_mint ac) = Some qm \<and>
    (let B = unat (tk_amount b); B' = unat (tk_amount b'); Q = unat (tk_amount q); Q' = unat (tk_amount q');
         bs = 10 ^ 18 * 10 ^ unat (mi_decimals bm); qs = 10 ^ unat (mi_decimals qm); limit = unat limit_price in
     B' < B \<and> Q < Q' \<and> limit * ((B - B') * qs) \<le> (Q' - Q) * bs \<or>
     B < B' \<and> Q' < Q \<and> (Q - Q') * bs < (limit + 1) * ((B' - B) * qs))"
proof -
  obtain c nft b q bm qm where a: "accounts_CustodianSwap n (swap_label (nkeccak n)) ac w = Ok (c, nft, b, q, bm, qm)"
      and x: "execute_swap n ac c nft b q bm qm rem limit_price ix_data w = Ok w'"
    using assms unfolding custodian_swap_def by (auto simp: step_iffs)
  have A: "gn_custodians w (sw_custodian_id ac) = Some c" "token_accounts (nledger w) (sw_nft_ata ac) = Some nft"
      "tk_mint nft = nft_mint c" "tk_owner nft = sw_owner ac" "1 \<le> tk_amount nft"
      "token_accounts (nledger w) (sw_base_ata ac) = Some b" "token_accounts (nledger w) (sw_quote_ata ac) = Some q"
      "mints (nledger w) (sw_base_mint ac) = Some bm" "mints (nledger w) (sw_quote_mint ac) = Some qm"
    using a by (auto simp: accounts_CustodianSwap_def assert_custodian_owner_def step_iffs load_iffs Let_def)
  obtain b' q' r where b': "token_accounts (nledger w') (sw_base_ata ac) = Some b'"
      "token_accounts (nledger w') (sw_quote_ata ac) = Some q'"
      and s: "settle_swap (tk_amount b) (tk_amount q) (tk_amount b') (tk_amount q') (mi_decimals bm) (mi_decimals qm) limit_price = Ok r"
    using x unfolding execute_swap_def Let_def by (elim steps_OkE) (auto simp: step_iffs)
  let ?B = "unat (tk_amount b)" and ?B' = "unat (tk_amount b')" and ?Q = "unat (tk_amount q)" and ?Q' = "unat (tk_amount q')"
  let ?bs = "10 ^ 18 * 10 ^ unat (mi_decimals bm) :: nat" and ?qs = "10 ^ unat (mi_decimals qm) :: nat"
  have "?B' < ?B \<and> ?Q < ?Q' \<and> unat limit_price * ((?B - ?B') * ?qs) \<le> (?Q' - ?Q) * ?bs \<or>
     ?B < ?B' \<and> ?Q' < ?Q \<and> (?Q - ?Q') * ?bs < (unat limit_price + 1) * ((?B' - ?B) * ?qs)"
  proof (cases "tk_amount b' < tk_amount b \<and> tk_amount q < tk_amount q'")
    case True
    then obtain db dq p where d: "?B = unat db + ?B'" "?Q' = unat dq + ?Q"
        and p: "quote_per_base db dq (mi_decimals bm) (mi_decimals qm) = Ok p" "limit_price \<le> p"
      using s by (auto simp: settle_swap_def step_iffs checked_sub_Some)
    have "unat limit_price * (unat db * ?qs) \<le> unat dq * ?bs"
      using p(2) quote_per_base_Ok [OF p(1)] by (simp add: word_le_nat_alt less_eq_div_iff_mult_less_eq ac_simps)
    then show ?thesis using True d by (simp add: word_less_nat_alt)
  next
    case False
    then have F: "tk_amount b < tk_amount b' \<and> tk_amount q' < tk_amount q"
      using s by (auto simp: settle_swap_def split: if_splits)
    then obtain db dq p where d: "?B' = unat db + ?B" "?Q = unat dq + ?Q'"
        and p: "quote_per_base db dq (mi_decimals bm) (mi_decimals qm) = Ok p" "p \<le> limit_price"
      using s False by (auto simp: settle_swap_def step_iffs checked_sub_Some simp del: not_less)
    have "unat p < unat limit_price + 1" using p(2) by (simp add: word_le_nat_alt)
    then have "unat dq * ?bs < (unat limit_price + 1) * (unat db * ?qs)"
      using quote_per_base_Ok [OF p(1)] by (simp add: div_less_iff_less_mult ac_simps del: One_nat_def)
    then show ?thesis using F d by (simp add: word_less_nat_alt)
  qed
  then show ?thesis using A b' unfolding Let_def by blast
qed

section \<open>Runs\<close>

text \<open>
  C9. Running Grinders beside GRAI - its own instructions, with GRAI's \<open>distribute\<close> inside one of
  them, and the routed swaps - is for GRAI only more of its own instructions and of other
  programs' transactions: GRAI's world stays a state of GRAI's own runs, so that everything
  proved of those holds beside Grinders. And the Grinders accounts stay well-formed: the period
  in one to thirty days, a toreador set, custodians numbered below the counter, each of a known
  label, on two distinct assets and linked to the same GRAI program.
\<close>

theorem grinders_beside_grai:
  assumes "grinders_run e S gm n w"
  shows "grai_run e S gm (gn_grai w) \<and>
    (\<exists>s. read_grinders n (nledger w) = Some s \<and> toreador s \<noteq> default_pubkey \<and>
       24 * 60 * 60 \<le> grinding_period s \<and> grinding_period s \<le> 30 * 24 * 60 * 60 \<and>
       (\<forall>cid c. gn_custodians w cid = Some c \<longrightarrow> cid < next_custodian_id s \<and> custodian_id c = cid \<and>
          cu_grai_program c = gr_grai_program s \<and> is_known_label (nkeccak n) (cu_label c) (cluster_ref s) \<and>
          base_mint c \<noteq> quote_mint c))"
  using grinders_run_inv [OF assms]
  unfolding grinders_inv_def state_ok_def custodians_ok_def custodian_ok_def by blast

end
