(* ===== verification/Grinders_Keeper.thy ===== *)
theory Grinders_Keeper
  imports Grinders_Facts
begin

text \<open>
  The keeper and the liquidation: while the last heartbeat is fresh, GRAI's liquidation stays closed
  over any further steps of both programs.
\<close>

section \<open>Beating\<close>

fun beats_heart :: "ncall \<Rightarrow> bool" where
  "beats_heart (Allocate _ _) = True"
| "beats_heart (CustodianDeallocate _ _) = True"
| "beats_heart (CustodianDistribute _ _) = True"
| "beats_heart (Heartbeat _) = True"
| "beats_heart _ = False"

lemma heartbeat_written:
  assumes "beats_heart i" "ndispatch e n i w = Ok w'"
  obtains s w1 where "read_grinders n (nledger w) = Some s" "w' = heartbeat e n s w1"
proof (cases i)
  case (Allocate ac x)
  with assms have "allocate e n ac x w = Ok w'" by simp
  then show thesis by (rule allocate_Ok) (use accounts_Allocate_Ok(1) that in blast)
next
  case (CustodianDeallocate ac x)
  with assms have "custodian_deallocate e n ac x w = Ok w'" by simp
  then show thesis by (rule custodian_deallocate_Ok) (use accounts_CustodianDeallocate_Ok(1) that in blast)
next
  case (CustodianDistribute ac x)
  with assms have "custodian_distribute e n ac x w = Ok w'" by simp
  then show thesis by (rule custodian_distribute_Ok) (use accounts_CustodianDistribute_Ok(1) that in blast)
next
  case (Heartbeat auth)
  with assms show thesis
    using that by (auto simp: execute_heartbeat_def accounts_Heartbeat_def step_iffs load_grinders_Ok)
qed (use assms(1) in simp_all)

lemma sint_i64_max: "sint (x :: i64) \<le> 2 ^ 63 - 1"
  using sint_lt [of x] by simp

lemma sint_sat_deadline:
  assumes "sint (now :: i64) \<le> sint (t :: i64) + int (unat (p :: u32))"
  shows "sint now \<le> sint (saturating_sadd t (ucast p))"
proof -
  have p: "sint (ucast p :: i64) = uint p" by (rule sint_ucast_u32)
  have "sint now \<le> sint t + uint p" using assms by simp
  moreover have nn: "- 9223372036854775808 \<le> sint t + uint p" using sint_ge [of t] by (simp add: add_increasing2)
  moreover have "sint (saturating_sadd t (ucast p :: i64)) = min (sint t + uint p) (2 ^ 63 - 1)"
    using nn sint_i64_max [of t] checked_sadd_Some [of t "ucast p :: i64" "t + ucast p"]
    by (auto simp: saturating_sadd_def checked_sadd_def p min_def)
  ultimately show ?thesis using sint_i64_max [of now] by simp
qed

section \<open>The window\<close>

text \<open>
  \<open>in_window t p now\<close>: the clock is within the grinding period \<open>p\<close> of a heartbeat at \<open>t\<close>. The steps
  of the window are all steps of both programs and of others, but for the two with which the
  protocol's owner takes the keeper out of force: a new grinding period and a new link.
\<close>

definition in_window :: "i64 \<Rightarrow> u32 \<Rightarrow> i64 \<Rightarrow> bool" where
  "in_window t p now \<longleftrightarrow> sint t \<le> sint now \<and> sint now \<le> sint t + int (unat p)"

fun relinks :: "instruction \<Rightarrow> bool" where
  "relinks (SetGrinders _ _ _) = True"
| "relinks _ = False"

fun resets_period :: "ncall \<Rightarrow> bool" where
  "resets_period (SetGrindPeriod _ _) = True"
| "resets_period _ = False"

text \<open>Within GRAI's steps the state account of Grinders changes by heartbeats of that moment only.\<close>

definition beats_at :: "nenv \<Rightarrow> i64 \<Rightarrow> ledger \<Rightarrow> ledger \<Rightarrow> bool" where
  "beats_at n t l l' \<longleftrightarrow> raw_data l' (grinders_key n) = raw_data l (grinders_key n) \<or>
     (\<exists>s. read_grinders n l = Some s \<and>
        raw_data l' (grinders_key n) = encode_grinders (grinders_disc n) (s\<lparr>heartbeat_at := t\<rparr>))"

inductive grai_within :: "env \<Rightarrow> pubkey set \<Rightarrow> pubkey \<Rightarrow> nenv \<Rightarrow> (i64 \<Rightarrow> bool) \<Rightarrow> world \<Rightarrow> world \<Rightarrow> bool"
  for e S gm n C g where
  nothing: "grai_within e S gm n C g g"
| instruction: "grai_within e S gm n C g w \<Longrightarrow> good_env e' S gm \<Longrightarrow> same_addresses e e' \<Longrightarrow>
     spender i \<noteq> Some (gs_key e) \<Longrightarrow> mints_met i \<subseteq> S \<Longrightarrow> C (unix_timestamp e') \<Longrightarrow> \<not> relinks i \<Longrightarrow>
     dispatch e' i w = Ok w' \<Longrightarrow> beats_at n (unix_timestamp e') (ledger w) (ledger w') \<Longrightarrow> grai_within e S gm n C g w'"
| others: "grai_within e S gm n C g w \<Longrightarrow> lflow e S gm (\<lambda>_. 0) (ledger w) l \<Longrightarrow>
     raw_data l (grinders_key n) = raw_data (ledger w) (grinders_key n) \<Longrightarrow> grai_within e S gm n C g (w\<lparr>ledger := l\<rparr>)"

text \<open>A routed program runs in the transaction, and at the time, of the swap.\<close>

definition router_within :: "env \<Rightarrow> pubkey set \<Rightarrow> pubkey \<Rightarrow> nenv \<Rightarrow> bool" where
  "router_within e S gm n \<longleftrightarrow> (\<forall>t ms d w w'. swap_router n t ms d w = Some w' \<longrightarrow>
     grai_within e S gm n (\<lambda>now. now = unix_timestamp e) (gn_grai w) (gn_grai w'))"

inductive keeper_then :: "env \<Rightarrow> pubkey set \<Rightarrow> pubkey \<Rightarrow> nenv \<Rightarrow> i64 \<Rightarrow> u32 \<Rightarrow> grinders_world \<Rightarrow> grinders_world \<Rightarrow> bool"
  for e S gm n t p w where
  nothing: "keeper_then e S gm n t p w w"
| call: "keeper_then e S gm n t p w u \<Longrightarrow> good_nenv e' S gm n' \<Longrightarrow> router_within e' S gm n' \<Longrightarrow> same_addresses e e' \<Longrightarrow>
     same_naddresses n n' \<Longrightarrow> nspender i \<noteq> Some (gs_key e) \<Longrightarrow> in_window t p (unix_timestamp e') \<Longrightarrow>
     \<not> resets_period i \<Longrightarrow> ndispatch e' n' i u = Ok u' \<Longrightarrow> keeper_then e S gm n t p w u'"
| grai: "keeper_then e S gm n t p w u \<Longrightarrow> grai_within e S gm n (in_window t p) (gn_grai u) g \<Longrightarrow>
     keeper_then e S gm n t p w (u\<lparr>gn_grai := g\<rparr>)"

section \<open>Closed while fresh\<close>

text \<open>Closed and linked, with a heartbeat since \<open>t\<close> and the grinding period \<open>p\<close>.\<close>

definition awake :: "nenv \<Rightarrow> i64 \<Rightarrow> u32 \<Rightarrow> world \<Rightarrow> bool" where
  "awake n t p g \<longleftrightarrow> \<not> liquidation (grai_state g) \<and> gs_grinders (grai_state g) = grinders_key n \<and>
     (\<exists>s. read_grinders n (ledger g) = Some s \<and> length (cluster_ref s) = 32 \<and> grinding_period s = p \<and>
        sint t \<le> sint (heartbeat_at s))"

lemma awake_grinding:
  assumes "awake n t p g" "in_window t p now"
  shows "grinders_grinding (gs_grinders (grai_state g)) now g = Ok True"
proof -
  obtain s where s: "read_grinders n (ledger g) = Some s" "grinding_period s = p" "sint t \<le> sint (heartbeat_at s)"
      and k: "gs_grinders (grai_state g) = grinders_key n"
    using assms(1) by (auto simp: awake_def)
  have "sint now \<le> sint (heartbeat_at s) + int (unat (grinding_period s))"
    using assms(2) s(3) by (simp add: in_window_def s(2))
  then show ?thesis using grinding_of_state [OF s(1)] sint_sat_deadline k by simp
qed

lemma dispatch_linked:
  assumes "good_env e S gm" "grai_inv e S gm w" "spender i \<noteq> Some (gs_key e)" "mints_met i \<subseteq> S"
    and ok: "dispatch e i w = Ok w'" and r: "\<not> relinks i"
  shows "gs_grinders (grai_state w') = gs_grinders (grai_state w)"
proof (cases "writes_settings i")
  case True
  then show ?thesis
    using ok r by (cases i) (auto simp: execute_transfer_ownership_def execute_accept_ownership_def
      execute_set_beneficiar_def execute_set_royalty_bps_def execute_set_revenue_share_bps_def
      execute_set_config_def Let_def upd_state_def step_iffs)
next
  case False
  have "settings w' = settings w"
  proof (cases "moves_phase i")
    case True
    then show ?thesis
      using ok execute_liquidate_inv [OF assms(1,2)] execute_revive_inv [OF assms(1,2)] by (cases i) auto
  next
    case False
    then show ?thesis using dispatch_routine [OF assms(1-5)] \<open>\<not> writes_settings i\<close> by (auto simp: routine_def)
  qed
  then show ?thesis by (simp add: settings_def)
qed

lemma read_beaten:
  assumes "beats_at n t l l'" "read_grinders n l = Some s" "length (grinders_disc n) = 8" "length (cluster_ref s) = 32"
  obtains s' where "read_grinders n l' = Some s'" "cluster_ref s' = cluster_ref s" "grinding_period s' = grinding_period s"
    "heartbeat_at s' = heartbeat_at s \<or> heartbeat_at s' = t"
proof -
  have "read_grinders n l' = Some s \<or> read_grinders n l' = Some (s\<lparr>heartbeat_at := t\<rparr>)"
    using assms decode_encode_grinders [OF assms(3), of "s\<lparr>heartbeat_at := t\<rparr>"] by (auto simp: beats_at_def read_grinders_def)
  then show thesis using that by force
qed

lemma awake_dispatch:
  assumes good: "good_env e S gm" "grai_inv e S gm w" "spender i \<noteq> Some (gs_key e)" "mints_met i \<subseteq> S"
    and ok: "dispatch e i w = Ok w'" and r: "\<not> relinks i" and aw: "awake n t p w" "in_window t p (unix_timestamp e)"
  shows "\<not> liquidation (grai_state w')" "gs_grinders (grai_state w') = grinders_key n"
proof -
  have "\<not> may_open e gm w" using awake_grinding [OF aw] by (simp add: may_open_def)
  moreover have "\<not> may_close e w" using aw(1) by (simp add: awake_def may_close_def)
  ultimately have "phase w' = phase w" using dispatch_phase [OF good ok] by blast
  then show "\<not> liquidation (grai_state w')" using aw(1) by (simp add: phase_def awake_def)
  show "gs_grinders (grai_state w') = grinders_key n"
    using dispatch_linked [OF good ok r] aw(1) by (simp add: awake_def)
qed

lemma awake_step:
  assumes "good_env e S gm" "grai_inv e S gm w" "spender i \<noteq> Some (gs_key e)" "mints_met i \<subseteq> S"
    and "dispatch e i w = Ok w'" "\<not> relinks i" and aw: "awake n t p w" "in_window t p (unix_timestamp e)"
    and b: "beats_at n (unix_timestamp e) (ledger w) (ledger w')" "length (grinders_disc n) = 8"
  shows "awake n t p w'"
proof -
  obtain s where s: "read_grinders n (ledger w) = Some s" "length (cluster_ref s) = 32" "grinding_period s = p"
      "sint t \<le> sint (heartbeat_at s)"
    using aw(1) by (auto simp: awake_def)
  obtain s' where "read_grinders n (ledger w') = Some s'" "cluster_ref s' = cluster_ref s" "grinding_period s' = grinding_period s"
      "heartbeat_at s' = heartbeat_at s \<or> heartbeat_at s' = unix_timestamp e"
    using b(1) s(1) b(2) s(2) by (rule read_beaten)
  then show ?thesis
    using awake_dispatch [OF assms(1-8)] s aw(2) by (auto simp: awake_def in_window_def)
qed

lemma awake_within:
  assumes "grai_within e S gm n C g w" "grai_run e S gm g" "awake n t p g" "length (grinders_disc n) = 8"
    and C: "\<And>now. C now \<Longrightarrow> in_window t p now"
  shows "grai_run e S gm w \<and> awake n t p w"
  using assms(1)
proof (induction rule: grai_within.induct)
  case nothing
  then show ?case using assms(2,3) by blast
next
  case (instruction w e' i w')
  then have "admitted e S gm e' i" by (simp add: admitted_def)
  note A = admittedD [OF conjunct1 [OF instruction.IH] this]
  show ?case
    using awake_step [OF A instruction.hyps(8,7) conjunct2 [OF instruction.IH] C [OF instruction.hyps(6)] instruction.hyps(9) assms(4)]
      grai_run.instruction [OF conjunct1 [OF instruction.IH] instruction.hyps(2-5,8)] by blast
next
  case (others w l)
  then show ?case using grai_run.others by (auto simp: awake_def read_grinders_def)
qed

section \<open>The calls of Grinders\<close>

text \<open>A call that keeps the period and, but for a beat, the heartbeat.\<close>

definition pulse_kept :: "nenv \<Rightarrow> i64 \<Rightarrow> grinders_world \<Rightarrow> grinders_world \<Rightarrow> bool" where
  "pulse_kept n t w w' \<longleftrightarrow> (\<forall>s. read_grinders n (nledger w) = Some s \<longrightarrow> length (cluster_ref s) = 32 \<longrightarrow>
     (\<exists>s'. read_grinders n (nledger w') = Some s' \<and> cluster_ref s' = cluster_ref s \<and>
        grinding_period s' = grinding_period s \<and> heartbeat_at s' \<in> {heartbeat_at s, t}))"

definition aside :: "nenv \<Rightarrow> i64 \<Rightarrow> grinders_world \<Rightarrow> grinders_world \<Rightarrow> bool" where
  "aside n t w w' \<longleftrightarrow> grai_state (gn_grai w') = grai_state (gn_grai w) \<and> pulse_kept n t w w'"

lemma seen_state:
  assumes "seen e S gm n w w'"
  shows "grai_state (gn_grai w') = grai_state (gn_grai w)"
  by (rule trans [OF arg_cong [OF conjunct1 [OF assms [unfolded seen_def]], of grai_state]]) simp

lemma aside_seen: "seen e S gm n w w' \<Longrightarrow> aside n t w w'"
  by (simp add: aside_def pulse_kept_def seen_state seen_read)

lemmas aside_call = call_flowD(2) [THEN aside_seen]

lemma aside_store:
  assumes "good_nenv e S gm n" "grai_state (gn_grai w1) = grai_state (gn_grai w)" "read_grinders n (nledger w) = Some s"
    and "cluster_ref s' = cluster_ref s" "grinding_period s' = grinding_period s" "heartbeat_at s' \<in> {heartbeat_at s, t}"
  shows "aside n t w (store_grinders n s' w1)"
  using assms(2-) good_nenvD(3) [OF assms(1)] by (auto simp: aside_def pulse_kept_def read_put_grinders)

lemma aside_beat:
  assumes "good_nenv e S gm n" "call_flow e S gm n w w1" "read_grinders n (nledger w) = Some s"
  shows "aside n (unix_timestamp e) w (heartbeat e n s w1)"
  unfolding heartbeat_def using call_flowD(2) [OF assms(2)]
  by (intro aside_store [OF assms(1) _ assms(3)]) (simp_all add: seen_state)

lemma allocate_aside:
  assumes "good_nenv e S gm n" "vaults_owned e S (nledger w)" "allocate e n ac x w = Ok w'"
  shows "aside n (unix_timestamp e) w w'"
  using assms(3)
proof (rule allocate_Ok)
  fix s a w1
  assume "accounts_Allocate n ac w = Ok (s, a)" and w': "w' = heartbeat e n s w1"
    and 1: "ninvoke (spl_transfer e (ra_grinders_ata ac) (ra_custodian_ata ac) (grinders_key n) x) w = Ok w1"
  note A = accounts_Allocate_Ok [OF this(1)]
  show ?thesis unfolding w'
    by (rule aside_beat [OF assms(1) transfer_call [OF assms(1) 1 own_account_no_vault [OF assms(1,2) A(3,4)]] A(1)])
qed

lemma custodian_deallocate_aside:
  assumes "good_nenv e S gm n" "vaults_owned e S (nledger w)" "custodian_deallocate e n ac x w = Ok w'"
  shows "aside n (unix_timestamp e) w w'"
  using assms(3)
proof (rule custodian_deallocate_Ok)
  fix s gs c w1
  assume "accounts_CustodianDeallocate e n ac w = Ok (s, gs, c)" and w': "w' = heartbeat e n s w1"
    and 1: "ninvoke (spl_transfer e (ra_custodian_ata ac) (ra_grinders_ata ac) (custodian_key n (custodian_id c)) x) w = Ok w1"
  note A = accounts_CustodianDeallocate_Ok [OF this(1)]
  then obtain a where "token_accounts (nledger w) (ra_custodian_ata ac) = Some a" "tk_owner a = custodian_key n (ra_custodian_id ac)"
    by blast
  note nv = own_account_no_vault [OF assms(1,2) this]
  show ?thesis unfolding w' by (rule aside_beat [OF assms(1) transfer_call [OF assms(1) 1 nv] A(1)])
qed

lemma execute_heartbeat_aside:
  assumes "good_nenv e S gm n" "execute_heartbeat e n auth w = Ok w'"
  shows "aside n (unix_timestamp e) w w'"
proof -
  obtain s where "read_grinders n (nledger w) = Some s" "w' = heartbeat e n s w"
    using assms(2) unfolding execute_heartbeat_def accounts_Heartbeat_def
    by (elim steps_OkE) (auto simp: step_iffs load_iffs)
  then show ?thesis using aside_beat [OF assms(1) call_flow_refl] by simp
qed

lemma set_toreador_aside:
  assumes "good_nenv e S gm n" "set_toreador e n owner x w = Ok w'"
  shows "aside n t w w'"
proof -
  obtain s where s: "read_grinders n (nledger w) = Some s" "w' = store_grinders n (s\<lparr>toreador := x\<rparr>) w"
    using assms(2) unfolding set_toreador_def
    by (elim steps_OkE) (auto simp: step_iffs accounts_SetGrindPeriod_Ok)
  show ?thesis unfolding s(2) by (rule aside_store [OF assms(1) refl s(1)]) simp_all
qed

lemma mint_custodian_aside:
  assumes "good_nenv e S gm n" "mint_custodian e n ac label w = Ok w'"
  shows "aside n t w w'"
  using assms
proof (rule mint_custodian_Ok)
  fix s w1 w2
  assume a: "accounts_MintCustodian e n ac w = Ok (s, w1)" and k: "seen e S gm n w1 w2"
    and w': "w' = store_grinders n (s\<lparr>next_custodian_id := next_custodian_id s + 1\<rparr>) w2"
  note A = accounts_MintCustodian_Ok [OF assms(1) a]
  have "seen e S gm n w w2" using seen_trans [OF call_flowD(2) [OF A(4)] k] .
  then show ?thesis unfolding w' by (intro aside_store [OF assms(1) _ A(1)]) (simp_all add: seen_state)
qed

lemma set_assets_aside: "set_assets n cid ac w = Ok w' \<Longrightarrow> aside n t w w'"
  by (erule set_assets_Ok) (simp add: aside_def pulse_kept_def)

text \<open>Every call but those that run GRAI's instructions inside, and the owner's \<open>set_grind_period\<close>.\<close>

fun runs_grai :: "ncall \<Rightarrow> bool" where
  "runs_grai (CustodianSwap _ _ _ _) = True"
| "runs_grai (CustodianDistribute _ _) = True"
| "runs_grai _ = False"

lemma ndispatch_aside:
  assumes "good_nenv e S gm n" "vaults_owned e S (nledger w)" "nspender i \<noteq> Some (gs_key e)" "ndispatch e n i w = Ok w'"
    and "\<not> resets_period i" "\<not> runs_grai i"
  shows "aside n (unix_timestamp e) w w'"
  using assms
  by (cases i) (auto simp: jupiter_gasless_never intro: set_toreador_aside execute_heartbeat_aside mint_custodian_aside
      transfer_custodian_nft_seen(1) [THEN aside_seen] set_assets_aside allocate_aside custodian_deallocate_aside
      liquidate_custodian_call [THEN aside_call] liquidate_idle_call [THEN aside_call]
      withdraw_sol_call [THEN aside_call] withdraw_token_call [THEN aside_call])

lemma awake_aside:
  assumes "aside n now w w'" "awake n t p (gn_grai w)" "in_window t p now"
  shows "awake n t p (gn_grai w')"
  using assms by (fastforce simp: aside_def pulse_kept_def awake_def in_window_def)

lemma awake_distribute:
  assumes good: "good_nenv e S gm n" and run: "grai_inv e S gm (gn_grai w)" and aw: "awake n t p (gn_grai w)" "in_window t p (unix_timestamp e)"
    and ok: "custodian_distribute e n ac x w = Ok w'"
  shows "awake n t p (gn_grai w')"
  using ok
proof (rule custodian_distribute_Ok)
  let ?i = "Distribute (custodian_key n (di_custodian_id ac)) (di_payer ac) (di_asset_mint ac)
       (di_price_feed ac) (di_grai_mint ac) (di_custodian_ata ac) x"
  fix s gs c g
  assume a: "accounts_CustodianDistribute e n ac w = Ok (s, gs, c)" and d: "dispatch e ?i (gn_grai w) = Ok g"
    and w': "w' = heartbeat e n s (w\<lparr>gn_grai := g\<rparr>)"
  have "spender ?i \<noteq> Some (gs_key e)" "mints_met ?i \<subseteq> S" using good_nenvD(4) [OF good] by auto
  note D = awake_dispatch [OF good_nenvD(1) [OF good] run this d _ aw]
  obtain s0 where "read_grinders n (nledger w) = Some s0" "length (cluster_ref s0) = 32" "grinding_period s0 = p"
    using aw(1) by (auto simp: awake_def)
  then have s: "length (cluster_ref s) = 32" "grinding_period s = p"
    using accounts_CustodianDistribute_Ok(1) [OF a] by auto
  have "read_grinders n (nledger w') = Some (s\<lparr>heartbeat_at := unix_timestamp e\<rparr>)"
    unfolding w' heartbeat_def using good_nenvD(3) [OF good] s(1) by (simp add: read_put_grinders)
  moreover have "grai_state (gn_grai w') = grai_state g" by (simp add: w' heartbeat_def)
  ultimately show ?thesis using D s aw(2) by (simp add: awake_def in_window_def)
qed

lemma awake_swap:
  assumes "good_nenv e S gm n" "router_within e S gm n" "grai_run e S gm (gn_grai w)" "awake n t p (gn_grai w)"
    and "in_window t p (unix_timestamp e)" "custodian_swap n ac rem lim ix w = Ok w'"
  shows "awake n t p (gn_grai w')"
proof -
  obtain tg ms where "swap_router n tg ms ix w = Some w'"
    using assms(6) unfolding custodian_swap_def execute_swap_def Let_def
    by (elim steps_OkE) (auto simp: step_iffs)
  then have "grai_within e S gm n (\<lambda>now. now = unix_timestamp e) (gn_grai w) (gn_grai w')"
    using assms(2) by (simp add: router_within_def)
  from awake_within [OF this assms(3,4) good_nenvD(3) [OF assms(1)]] show ?thesis using assms(5) by simp
qed

lemma awake_ndispatch:
  assumes good: "good_nenv e S gm n" "router_within e S gm n" and run: "grai_run e S gm (gn_grai w)"
    and i: "nspender i \<noteq> Some (gs_key e)" "\<not> resets_period i" "ndispatch e n i w = Ok w'"
    and aw: "awake n t p (gn_grai w)" "in_window t p (unix_timestamp e)"
  shows "awake n t p (gn_grai w')"
proof (cases "runs_grai i")
  case True
  have "grai_inv e S gm (gn_grai w)" using grai_run_inv [OF run] by (simp add: program_inv_def)
  then show ?thesis
    using True i(3) awake_distribute [OF good(1) _ aw] awake_swap [OF good run aw] by (cases i) auto
next
  case False
  have "vaults_owned e S (nledger w)"
    using grai_run_inv [OF run] by (simp add: program_inv_def grai_inv_def registry_inv_def)
  then show ?thesis using awake_aside [OF ndispatch_aside [OF good(1) _ i(1,3,2) False] aw] by blast
qed

section \<open>The window, step by step\<close>

lemma grai_run_addresses: "grai_run e S gm w \<Longrightarrow> same_addresses e e' \<Longrightarrow> grai_run e' S gm w"
proof (induction rule: grai_run.induct)
  case (start d w owner w')
  then show ?case by (intro grai_run.start [of d S gm e' w owner w']) (auto simp: same_addresses_def unused_def)
next
  case (instruction w d i w')
  then show ?case
    by (intro grai_run.instruction [OF instruction.IH [OF instruction.prems] instruction.hyps(2) _ _ instruction.hyps(5,6)])
      (auto simp: same_addresses_def)
next
  case (others w l)
  then show ?case by (intro grai_run.others) (simp_all add: lflow_addresses)
qed

lemma awake_addresses: "same_naddresses n n' \<Longrightarrow> awake n' t p g = awake n t p g"
  by (simp add: same_naddresses_def awake_def read_grinders_def)

lemma within_run:
  "grai_within e S gm n C (gn_grai u) w \<Longrightarrow> grinders_run e S gm n u \<Longrightarrow> grinders_run e S gm n (u\<lparr>gn_grai := w\<rparr>)"
proof (induction rule: grai_within.induct)
  case (instruction w e' i w')
  have "grai_then e S gm w w'"
    using grai_then.instruction [OF grai_then.nothing instruction.hyps(2-5,8)] .
  moreover have "beats n (ledger w) (ledger w')" using instruction.hyps(9) by (auto simp: beats_def beats_at_def)
  ultimately show ?case using grinders_run.grai [OF instruction.IH [OF instruction.prems], of w'] by simp
next
  case (others w l)
  have "grai_then e S gm w (w\<lparr>ledger := l\<rparr>)" using grai_then.others [OF grai_then.nothing others.hyps(2)] .
  then show ?case
    using grinders_run.grai [OF others.IH [OF others.prems], of "w\<lparr>ledger := l\<rparr>"] others.hyps(3) by (simp add: beats_def)
qed simp

lemma keeper_then_awake:
  "keeper_then e S gm n t p w u \<Longrightarrow> grinders_run e S gm n w \<Longrightarrow> awake n t p (gn_grai w) \<Longrightarrow>
   grinders_run e S gm n u \<and> awake n t p (gn_grai u)"
proof (induction rule: keeper_then.induct)
  case (call u e' n' i u')
  have run: "grinders_run e S gm n u" and aw: "awake n t p (gn_grai u)" using call.IH call.prems by blast+
  have g: "grai_run e' S gm (gn_grai u)" using grai_run_addresses [OF _ call.hyps(4)] grinders_run_inv [OF run] by blast
  have sp: "nspender i \<noteq> Some (gs_key e')" using call.hyps(4,6) by (simp add: same_addresses_def)
  have "awake n' t p (gn_grai u')"
    using awake_ndispatch [OF call.hyps(2,3) g sp call.hyps(8,9) _ call.hyps(7)] aw awake_addresses [OF call.hyps(5)] by blast
  then show ?case
    using grinders_run.call [OF run call.hyps(2,4-6,9)] awake_addresses [OF call.hyps(5)] by blast
next
  case (grai u g)
  have run: "grinders_run e S gm n u" and aw: "awake n t p (gn_grai u)" using grai.IH grai.prems by blast+
  have "awake n t p g"
    using awake_within [OF grai.hyps(2) _ aw grinders_run_disc [OF run]] grinders_run_inv [OF run] by blast
  then show ?case using within_run [OF grai.hyps(2) run] by simp
qed simp

text \<open>
  C10. A working keeper keeps the liquidation closed. Once an allocation, a deallocation, a
  distribution or a heartbeat has succeeded while the liquidation was closed and Grinders linked,
  the liquidation stays closed until the grinding period has passed: after whatever further steps
  of both programs and of others the clock admits by then, with whatever votes, it is closed and no
  \<open>liquidate\<close> succeeds. Only the protocol's owner can end this early, with \<open>set_grind_period\<close> or
  \<open>set_grinders\<close>.
\<close>

theorem keeper_blocks_liquidation:
  assumes run: "grinders_run e S gm n w" and env: "good_nenv e' S gm n'" "same_addresses e e'" "same_naddresses n n'"
    and beat: "beats_heart i" "ndispatch e' n' i w = Ok w1" and s: "read_grinders n (nledger w1) = Some s"
    and closed: "\<not> liquidation (grai_state (gn_grai w1))" "gs_grinders (grai_state (gn_grai w1)) = grinders_key n"
    and later: "keeper_then e S gm n (unix_timestamp e') (grinding_period s) w1 w2"
  shows "\<not> liquidation (grai_state (gn_grai w2)) \<and>
    (\<forall>e2 caller gr m. good_env e2 S gm \<longrightarrow> same_addresses e e2 \<longrightarrow>
       in_window (unix_timestamp e') (grinding_period s) (unix_timestamp e2) \<longrightarrow>
       (\<nexists>g. dispatch e2 (Liquidate caller gr m) (gn_grai w2) = Ok g))"
proof -
  let ?t = "unix_timestamp e'" and ?p = "grinding_period s"
  have "nspender i \<noteq> Some (gs_key e)" using beat(1) by (cases i) auto
  then have run1: "grinders_run e S gm n w1" using grinders_run.call [OF run env _ beat(2)] by blast
  obtain s0 v where w1: "w1 = heartbeat e' n' s0 v" and s0: "read_grinders n' (nledger w) = Some s0"
    using heartbeat_written [OF beat] by blast
  have "\<exists>b. encode_cluster_ref b = Ok (cluster_ref s)"
    using grinders_run_inv [OF run1] s by (auto simp: grinders_inv_def state_ok_def)
  then have len: "length (cluster_ref s) = 32" using cluster_ref_str_encode(2) by blast
  have "\<exists>b. encode_cluster_ref b = Ok (cluster_ref s0)"
    using grinders_run_inv [OF run] s0 env(3) by (auto simp: grinders_inv_def state_ok_def same_naddresses_def read_grinders_def)
  then have "length (cluster_ref s0) = 32" using cluster_ref_str_encode(2) by blast
  then have "read_grinders n' (nledger w1) = Some (s0\<lparr>heartbeat_at := ?t\<rparr>)"
    using good_nenvD(3) [OF env(1)] by (simp add: w1 heartbeat_def read_put_grinders)
  then have "heartbeat_at s = ?t" using s env(3) by (auto simp: same_naddresses_def read_grinders_def)
  then have "awake n ?t ?p (gn_grai w1)" using s len closed by (simp add: awake_def)
  then have run2: "grinders_run e S gm n w2" and aw: "awake n ?t ?p (gn_grai w2)"
    using keeper_then_awake [OF later run1] by blast+
  have "dispatch e2 (Liquidate caller gr m) (gn_grai w2) \<noteq> Ok g"
    if "good_env e2 S gm" "same_addresses e e2" "in_window ?t ?p (unix_timestamp e2)" for e2 caller gr m g
  proof
    assume "dispatch e2 (Liquidate caller gr m) (gn_grai w2) = Ok g"
    moreover have "grai_inv e2 S gm (gn_grai w2)"
      using grai_run_inv [OF grai_run_addresses [OF _ that(2)]] grinders_run_inv [OF run2] by (simp add: program_inv_def)
    ultimately show False using liquidate_may_open [OF that(1)] awake_grinding [OF aw that(3)] by (simp add: may_open_def)
  qed
  then show ?thesis using aw by (auto simp: awake_def)
qed

end
