(* ===== verification/Grinders_Sample.thy ===== *)
theory Grinders_Sample
  imports Grinders_Keeper Sample_Run
begin

text \<open>
  A concrete environment for the Grinders program, with the laws it relies on, and a run beside
  the sample run of GRAI: the program is initialised, a custodian minted, reserve allocated to it
  and swapped. The properties of \<open>Grinders_Guard\<close>, \<open>Grinders_Facts\<close> and
  \<open>Grinders_Keeper\<close> are evaluated there.
\<close>

section \<open>An environment\<close>

fun ref_npda :: "nseed \<Rightarrow> pubkey" where
  "ref_npda GrindersSeed = tagged 0 32"
| "ref_npda CollectionMintSeed = tagged 0 33"
| "ref_npda (CustodianSeed cid) = tagged (ucast cid) 34"
| "ref_npda (CustodianMintSeed cid) = tagged (ucast cid) 35"

text \<open>A router that sells 100 of the first custodian's base for 250 of a pool's quote.\<close>

definition ref_router :: "grinders_world \<Rightarrow> grinders_world option" where
  "ref_router w =
     Option.bind (ref_transfer (ref_ata (tagged 0 34) 7) 601 (tagged 0 34) 100 (nledger w)) (\<lambda>l.
     Option.bind (ref_transfer 602 (ref_ata (tagged 0 34) 11) 50 250 l) (\<lambda>l. Some (set_nledger l w)))"

definition ref_grinders_init :: "pubkey \<Rightarrow> pubkey \<Rightarrow> nat \<Rightarrow> ledger \<Rightarrow> ledger option" where
  "ref_grinders_init payer k space l =
     (if data_len l k = 0 then ref_create_account payer k 1 space GRINDERS_PROGRAM_ID l else None)"

definition ref_nenv :: nenv where
  "ref_nenv = \<lparr> npda = ref_npda, npda_bump = (\<lambda>_. 255), nkeccak = (\<lambda>bs. of_nat (length bs)),
     grinders_disc = [1, 2, 3, 4, 5, 6, 7, 8], grinders_init = ref_grinders_init,
     item_metadata = (\<lambda>_ _ _ _ _. Some), verify_collection = (\<lambda>_ _ _. Some), swap_router = (\<lambda>_ _ _. ref_router) \<rparr>"

lemma ref_nenv_sel:
  "npda ref_nenv = ref_npda" "npda_bump ref_nenv s = 255" "nkeccak ref_nenv = (\<lambda>bs. of_nat (length bs))"
  "grinders_disc ref_nenv = [1, 2, 3, 4, 5, 6, 7, 8]" "grinders_init ref_nenv = ref_grinders_init"
  "item_metadata ref_nenv m p a u c = Some" "verify_collection ref_nenv p m c = Some"
  "swap_router ref_nenv t ms d = ref_router"
  by (simp_all add: ref_nenv_def)

lemma ref_npda_inj: "inj ref_npda"
proof (rule injI)
  fix s t assume "ref_npda s = ref_npda t"
  then show "s = t" by (cases s; cases t) (auto dest: tagged_eqD tagged_ucast_inj [rotated])
qed

lemma ref_data:
  "ref_transfer a b c x l = Some l' \<Longrightarrow> raw_data l' = raw_data l"
  "ref_anchor_init p k s l = Some l' \<Longrightarrow> raw_data l' = raw_data l"
  "ref_grinders_init p k s l = Some l' \<Longrightarrow> raw_data l' = raw_data l"
  "ref_sys_transfer a b x l = Some l' \<Longrightarrow> raw_data l' = raw_data l"
  by (auto simp: ref_transfer_def ref_anchor_init_def ref_grinders_init_def ref_create_account_def ref_sys_transfer_def
      split: option.splits if_splits bind_splits)

lemma ref_data_law: "data_law ref_env k"
  unfolding data_law_def spares_data_def ref_env_sel
  by (auto simp: ref_mint_to_def ref_init_mint_def ref_init_account_def ref_master_edition_def
      dest: ref_data split: option.splits if_splits)

definition clock_env :: "i64 \<Rightarrow> env" where
  "clock_env t = ref_env\<lparr>unix_timestamp := t\<rparr>"

lemma clock_env_laws: "good_env (clock_env t) {7, 11} 11" "same_addresses ref_env (clock_env t)" "data_law (clock_env t) k"
proof -
  show "good_env (clock_env t) {7, 11} 11"
    using ref_good_env
    by (simp add: clock_env_def good_env_def addr_ok_def env_laws_def transfer_law_def mint_law_def burn_law_def
        init_law_def init3_law_def init_mint_law_def close_law_def sync_law_def metadata_law_def system_law_def)
  show "same_addresses ref_env (clock_env t)" by (simp add: same_addresses_def clock_env_def)
  show "data_law (clock_env t) k" using ref_data_law [of k] by (simp add: data_law_def clock_env_def)
qed

lemma clock_env_refl: "clock_env 2000 = ref_env"
  by (simp add: clock_env_def ref_env_def)

lemma ref_router_flow:
  assumes "ref_router w = Some w'"
  shows "w' = set_nledger (nledger w') w" "lflow ref_env {7, 11} 11 (\<lambda>_. 0) (nledger w) (nledger w')"
    "raw_data (nledger w') = raw_data (nledger w)" "spares_owner (ref_npda GrindersSeed) (nledger w) (nledger w')"
proof -
  obtain l1 l2 where 1: "ref_transfer (ref_ata (tagged 0 34) 7) 601 (tagged 0 34) 100 (nledger w) = Some l1"
      and 2: "ref_transfer 602 (ref_ata (tagged 0 34) 11) 50 250 l1 = Some l2" and w': "w' = set_nledger l2 w"
    using assms by (auto simp: ref_router_def split: bind_splits)
  show "w' = set_nledger (nledger w') w" by (simp add: w')
  have "spl_transfer ref_env (ref_ata (tagged 0 34) 7) 601 (tagged 0 34) 100 (nledger w) = Some l1"
    using 1 by (simp add: ref_env_sel)
  note m1 = spl_transfer_moved [OF ref_env_laws this]
  have "spl_transfer ref_env 602 (ref_ata (tagged 0 34) 11) 50 250 l1 = Some l2" using 2 by (simp add: ref_env_sel)
  note m2 = spl_transfer_moved [OF ref_env_laws this]
  have "lflow ref_env {7, 11} 11 (\<lambda>_. 0) (nledger w) l1"
    by (rule moved_past [OF m1]) (simp add: ref_env_sel ref_ata_def tagged_def pair_key_def)
  moreover have "lflow ref_env {7, 11} 11 (\<lambda>_. 0) l1 l2"
    by (rule moved_past [OF m2]) (simp add: ref_env_sel tagged_def)
  ultimately have f: "lflow ref_env {7, 11} 11 (\<lambda>_. 0) (nledger w) l2" by (rule lflow_trans) simp
  then show "lflow ref_env {7, 11} 11 (\<lambda>_. 0) (nledger w) (nledger w')" by (simp add: w')
  have "spares_owner (ref_npda GrindersSeed) (nledger w) l1"
    by (rule spares_moved [OF m1]) (use 1 in \<open>auto simp: ref_transfer_def tagged_def split: option.splits if_splits\<close>)
  also have "spares_owner (ref_npda GrindersSeed) l1 l2"
    by (rule spares_moved [OF m2]) (use 2 in \<open>auto simp: ref_transfer_def tagged_def split: option.splits if_splits\<close>)
  finally show "spares_owner (ref_npda GrindersSeed) (nledger w) (nledger w')" by (simp add: w')
  show "raw_data (nledger w') = raw_data (nledger w)" using ref_data(1) [OF 1] ref_data(1) [OF 2] by (simp add: w')
qed

lemma ref_router_within:
  assumes "ref_router w = Some w'" "same_addresses ref_env e"
  shows "gn_custodians w' = gn_custodians w" "grai_within e {7, 11} 11 ref_nenv C (gn_grai w) (gn_grai w')"
    "grai_then e {7, 11} 11 (gn_grai w) (gn_grai w')"
proof -
  note F = ref_router_flow [OF assms(1)]
  have f: "lflow e {7, 11} 11 (\<lambda>_. 0) (ledger (gn_grai w)) (nledger w')" using F(2) lflow_addresses [OF assms(2)] by simp
  obtain l where l: "w' = set_nledger l w" "nledger w' = l" using F(1) by simp
  show "gn_custodians w' = gn_custodians w" by (simp add: l(1))
  show "grai_within e {7, 11} 11 ref_nenv C (gn_grai w) (gn_grai w')"
    using grai_within.others [OF grai_within.nothing f] F(3) l by (simp add: set_nledger_def)
  show "grai_then e {7, 11} 11 (gn_grai w) (gn_grai w')"
    using grai_then.others [OF grai_then.nothing f] l by (simp add: set_nledger_def)
qed

lemma clock_good_nenv: "good_nenv (clock_env t) {7, 11} 11 ref_nenv" "router_within (clock_env t) {7, 11} 11 ref_nenv"
proof -
  have "frames (ref_grinders_init p k s)" for p k s
    by (auto simp: frames_def ref_grinders_init_def ref_create_account_def ref_sys_transfer_def
        split: if_splits bind_splits option.splits)
  then have "program_law ref_nenv"
    using ref_data(3) ref_npda_inj by (simp add: program_law_def ref_nenv_sel spares_data_def) (simp add: frames_def)
  moreover have "router_law (clock_env t) {7, 11} 11 ref_nenv"
    unfolding router_law_def ref_nenv_sel
  proof (intro allI impI)
    fix w w' assume r: "ref_router w = Some w'"
    show "gn_custodians w' = gn_custodians w \<and>
        raw_data (nledger w') (ref_npda GrindersSeed) = raw_data (nledger w) (ref_npda GrindersSeed) \<and>
        grai_then (clock_env t) {7, 11} 11 (gn_grai w) (gn_grai w') \<and>
        spares_owner (ref_npda GrindersSeed) (nledger w) (nledger w')"
      using ref_router_within(1,3) [OF r clock_env_laws(2)] ref_router_flow(3,4) [OF r] by simp
  qed
  moreover have "ref_npda s \<noteq> tagged 0 1" for s by (cases s) (auto dest: tagged_eqD)
  moreover have "gs_key (clock_env t) = tagged 0 1" by (simp add: clock_env_def ref_env_sel)
  ultimately show "good_nenv (clock_env t) {7, 11} 11 ref_nenv"
    using clock_env_laws by (simp add: good_nenv_def ref_nenv_sel tagged_def)
  show "router_within (clock_env t) {7, 11} 11 ref_nenv"
    using ref_router_within(2) [OF _ clock_env_laws(2)] by (simp add: router_within_def ref_nenv_sel)
qed

lemmas ref_good_nenv = clock_good_nenv(1) [of 2000, unfolded clock_env_refl]

section \<open>A run\<close>

fun ndispatch_all :: "env \<Rightarrow> nenv \<Rightarrow> ncall list \<Rightarrow> grinders_world \<Rightarrow> grinders_world nres" where
  "ndispatch_all e n [] w = Ok w"
| "ndispatch_all e n (i # is) w = and_then (ndispatch e n i w) (ndispatch_all e n is)"

text \<open>Somebody funds the reserve and the pool of a router.\<close>

definition funded :: "ledger \<Rightarrow> ledger" where
  "funded l = l\<lparr>token_accounts := (token_accounts l)
       (600 \<mapsto> \<lparr> tk_mint = 7, tk_owner = tagged 0 32, tk_amount = 5000 \<rparr>,
        601 \<mapsto> \<lparr> tk_mint = 7, tk_owner = 50, tk_amount = 0 \<rparr>,
        602 \<mapsto> \<lparr> tk_mint = 11, tk_owner = 50, tk_amount = 9000 \<rparr>),
      executable := (\<lambda>k. k = 700)\<rparr>"

definition grinders_start :: grinders_world where
  "grinders_start = \<lparr> gn_custodians = Map.empty, gn_grai = sample_world\<lparr>ledger := funded (ledger sample_world)\<rparr> \<rparr>"

definition sample_reserve :: reserve_accounts where
  "sample_reserve = \<lparr> ra_authority = 20, ra_custodian_id = 0, ra_asset_mint = 7, ra_grinders_ata = 600,
     ra_custodian_ata = ref_ata (tagged 0 34) 7 \<rparr>"

definition sample_mint :: mint_accounts where
  "sample_mint = \<lparr> mc_authority = 20, mc_custodian_owner = 40, mc_grai_program = 99, mc_base_mint = 7, mc_quote_mint = 11 \<rparr>"

definition sample_swap :: swap_accounts where
  "sample_swap = \<lparr> sw_owner = 40, sw_custodian_id = 0, sw_nft_ata = ref_ata 40 (tagged 0 35),
     sw_base_ata = ref_ata (tagged 0 34) 7, sw_quote_ata = ref_ata (tagged 0 34) 11, sw_base_mint = 7, sw_quote_mint = 11 \<rparr>"

definition sample_ncalls :: "ncall list" where
  "sample_ncalls = [MintCustodian sample_mint 38, Allocate sample_reserve 1000]"

lemmas ndefs = grinders_initialize_def accounts_InitializeGrinders_def init_nft_mint_def init_ata_def ninvoke_def
  encode_cluster_ref_def is_ascii_graphic_def create_collection_def store_grinders_def set_nledger_def put_grinders_def
  mint_custodian_def accounts_MintCustodian_def load_grinders_def read_grinders_def read_mint_def new_custodian_def
  verify_custodian_collection_def allocate_def accounts_Allocate_def execute_allocate_def load_custodian_def
  owned_account_def heartbeat_def is_known_label_def swap_label_def jupiter_gasless_label_def label_hash_def label_id_def
  cluster_ref_str_def LABEL_NAMESPACE_def CAIP2_SOLANA_def LABEL_NAME_SWAP_def LABEL_NAME_JUPITER_GASLESS_def utf8_def
  sample_ncalls_def sample_mint_def sample_reserve_def GrindersState_LEN_def CustodianState_LEN_def Mint_LEN_def
  DEFAULT_GRINDING_PERIOD_def grinders_start_def funded_def sample_world_def

text \<open>The state after the calls.\<close>

definition sample_gstate :: GrindersState where
  "sample_gstate = \<lparr> toreador = 20, gr_reserved = default_pubkey, gr_grai_program = 99, next_custodian_id = 1,
     collection_mint = 33, heartbeat_at = 2000, grinding_period = 604800, gr_bump = 255,
     cluster_ref = utf8 ''localnet'' @ replicate 24 0 \<rparr>"

definition sample_custodian :: CustodianState where
  "sample_custodian = \<lparr> cu_grinders = 32, custodian_id = 0, cu_grai_program = 99, cu_label = 38, base_mint = 7,
     quote_mint = 11, nft_mint = 35, nft_owner = 40, cu_bump = 255 \<rparr>"

definition sample_nledger :: ledger where
  "sample_nledger =
     \<lparr>token_accounts =
        [141670994486089356412682 \<mapsto>
         \<lparr>tk_mint = 7, tk_owner = 30,
            tk_amount = 5000000000\<rparr>,
         47223664828696452138762 \<mapsto>
         \<lparr>tk_mint = 7, tk_owner = 10,
            tk_amount = 1000000000\<rparr>,
         94447329657392905586698 \<mapsto>
         \<lparr>tk_mint = 5128, tk_owner = 20, tk_amount = 1\<rparr>,
         94447329657392904276746 \<mapsto>
         \<lparr>tk_mint = 11, tk_owner = 20, tk_amount = 0\<rparr>,
         2819 \<mapsto>
         \<lparr>tk_mint = 11, tk_owner = 1,
            tk_amount = 1000000000\<rparr>,
         94447329657392904275722 \<mapsto>
         \<lparr>tk_mint = 7, tk_owner = 20,
            tk_amount = 3999000000\<rparr>,
         1795 \<mapsto>
         \<lparr>tk_mint = 7, tk_owner = 1, tk_amount = 500000\<rparr>,
         1796 \<mapsto>
         \<lparr>tk_mint = 7, tk_owner = 1, tk_amount = 500000\<rparr>,
         601 \<mapsto> \<lparr>tk_mint = 7, tk_owner = 50, tk_amount = 0\<rparr>,
         602 \<mapsto>
         \<lparr>tk_mint = 11, tk_owner = 50, tk_amount = 9000\<rparr>,
         151115727451828646846730 \<mapsto>
         \<lparr>tk_mint = 33, tk_owner = 32, tk_amount = 1\<rparr>,
         160560460417567937268490 \<mapsto>
         \<lparr>tk_mint = 11, tk_owner = 34, tk_amount = 0\<rparr>,
         188894659314785808556810 \<mapsto>
         \<lparr>tk_mint = 35, tk_owner = 40, tk_amount = 1\<rparr>,
         600 \<mapsto>
         \<lparr>tk_mint = 7, tk_owner = 32, tk_amount = 4000\<rparr>,
         160560460417567937267466 \<mapsto>
         \<lparr>tk_mint = 7, tk_owner = 34, tk_amount = 1000\<rparr>],
        mints =
          [7 \<mapsto>
           \<lparr>mi_supply = 9000000000000, mi_decimals = 6,
              mi_authority = Some 50\<rparr>,
           11 \<mapsto>
           \<lparr>mi_supply = 1000000000, mi_decimals = 6,
              mi_authority = Some 1\<rparr>,
           5128 \<mapsto>
           \<lparr>mi_supply = 1, mi_decimals = 0,
              mi_authority = None\<rparr>,
           33 \<mapsto>
           \<lparr>mi_supply = 1, mi_decimals = 0,
              mi_authority = None\<rparr>,
           35 \<mapsto>
           \<lparr>mi_supply = 1, mi_decimals = 0,
              mi_authority = Some 32\<rparr>],
        lamports =
          (\<lambda>k. if k = 20 \<or> k = 10 \<or> k = 30 then 1000 else 0)
          (1 := 1, 11 := 1, 1794 := 1, 1795 := 1, 10 := 995,
             1796 := 1, 5125 := 1, 5127 := 1, 5128 := 1,
             94447329657392904275718 := 1, 32 := 1, 33 := 1,
             34 := 1, 20 := 992, 35 := 1),
        data_len =
          (\<lambda>_. 0)
          (11 := 82, 1794 := 143, 1795 := 165, 1796 := 165,
             47223664828696452138762 := 165,
             94447329657392904276746 := 165, 5125 := 41,
             2819 := 165, 5127 := 121, 5128 := 82,
             94447329657392905586698 := 165,
             94447329657392904275718 := 41, 1 := 395,
             32 := 189, 33 := 82,
             151115727451828646846730 := 165, 34 := 241,
             35 := 82, 188894659314785808556810 := 165,
             160560460417567937267466 := 165,
             160560460417567937268490 := 165),
        program_owner =
          (\<lambda>k. if k = 1801 then CUSTOM_PRICE_FEED_PROGRAM_ID
               else default_pubkey)
          (1 := 99, 11 := 99, 1794 := 99,
             1795 :=
               3106054211088883198575105191760876350940303353676611666299516346430146937001,
             1796 :=
               3106054211088883198575105191760876350940303353676611666299516346430146937001,
             5125 := 99, 5127 := 99,
             5128 :=
               3106054211088883198575105191760876350940303353676611666299516346430146937001,
             94447329657392904275718 := 99, 32 := GRINDERS_PROGRAM_ID,
             33 := 99, 34 := GRINDERS_PROGRAM_ID, 35 := 99),
        raw_data =
          (\<lambda>k. if k = 10 then replicate 200 0 else [])
          (32 := encode_grinders [1, 2, 3, 4, 5, 6, 7, 8] sample_gstate),
        executable = \<lambda>k. k = 700\<rparr>"

definition sample_grinders :: grinders_world where
  "sample_grinders = \<lparr> gn_custodians = [0 \<mapsto> sample_custodian], gn_grai = sample_world\<lparr>ledger := sample_nledger\<rparr> \<rparr>"

lemmas sample_gdefs = sample_gstate_def sample_custodian_def sample_nledger_def sample_grinders_def
lemmas nrefs = ref_nenv_sel ref_env_sel ref_grinders_init_def ref_anchor_init_def ref_create_account_def ref_sys_transfer_def
  ref_init_mint_def ref_init_account_def ref_transfer_def ref_mint_to_def ref_master_edition_def ref_ata_def tagged_def
  pair_key_def eval_simps Let_def decode_encode_grinders

lemma sample_grinders_reached:
  "and_then (grinders_initialize ref_env ref_nenv 20 99 (utf8 ''localnet'') 0 grinders_start)
     (ndispatch_all ref_env ref_nenv sample_ncalls) = Ok sample_grinders"
  by (simp add: ndefs nrefs sample_gdefs)

section \<open>It is a run\<close>

lemma ndispatch_all_run:
  "grinders_run e S gm n w \<Longrightarrow> good_nenv e S gm n \<Longrightarrow> \<forall>i\<in>set is. nspender i \<noteq> Some (gs_key e) \<Longrightarrow>
   ndispatch_all e n is w = Ok w' \<Longrightarrow> grinders_run e S gm n w'"
proof (induction "is" arbitrary: w)
  case (Cons i "is")
  then obtain w1 where 1: "ndispatch e n i w = Ok w1" "ndispatch_all e n is w1 = Ok w'"
    by (auto simp: and_then_Ok_iff)
  then show ?case
    using Cons.IH Cons.prems grinders_run.call [OF Cons.prems(1,2) _ _ _ 1(1)]
    by (simp add: same_addresses_def same_naddresses_def)
qed simp

lemma grinders_start_run: "grai_run ref_env {7, 11} 11 (gn_grai grinders_start)"
proof -
  have "lflow ref_env {7, 11} 11 (\<lambda>_. 0) (ledger sample_world) (funded (ledger sample_world))"
    by (simp add: lflow_def mint_kept_def vault_kept_def funded_def bal_def ref_env_sel tagged_def eval_simps sample_world_def)
  then show ?thesis unfolding grinders_start_def using grai_run.others [OF sample_run] by simp
qed

lemma sample_grinders_run: "grinders_run ref_env {7, 11} 11 ref_nenv sample_grinders"
proof -
  obtain w where w: "grinders_initialize ref_env ref_nenv 20 99 (utf8 ''localnet'') 0 grinders_start = Ok w"
      "ndispatch_all ref_env ref_nenv sample_ncalls w = Ok sample_grinders"
    using sample_grinders_reached by (auto simp: and_then_Ok_iff)
  have g: "\<lparr> gn_custodians = Map.empty, gn_grai = gn_grai grinders_start \<rparr> = grinders_start"
    by (simp add: grinders_start_def)
  have "grinders_run ref_env {7, 11} 11 ref_nenv w"
    by (rule grinders_run.initialize [OF grinders_start_run ref_good_nenv, where payer = 20, unfolded g, OF _ _ _ w(1)])
      (simp_all add: same_addresses_def same_naddresses_def)
  then show ?thesis
    by (rule ndispatch_all_run [OF _ ref_good_nenv _ w(2)])
      (simp add: sample_ncalls_def sample_mint_def sample_reserve_def ref_env_sel tagged_def)
qed

section \<open>Concrete instances\<close>

lemma sample_grinders_sel:
  "read_grinders ref_nenv (nledger sample_grinders) = Some sample_gstate" "gn_custodians sample_grinders 0 = Some sample_custodian"
  "mints (nledger sample_grinders) = mints sample_nledger" "executable (nledger sample_grinders) k = (k = 700)"
  "token_accounts (nledger sample_grinders) = token_accounts sample_nledger" "gs_bump (grai_state (gn_grai sample_grinders)) = 255"
  by (simp_all add: read_grinders_def sample_gdefs nrefs sample_world_def utf8_def)

definition after_allocate :: grinders_world where
  "after_allocate = heartbeat ref_env ref_nenv sample_gstate (set_nledger (sample_nledger\<lparr>token_accounts :=
     (token_accounts sample_nledger)(600 \<mapsto> \<lparr> tk_mint = 7, tk_owner = 32, tk_amount = 3500 \<rparr>,
       ref_ata (tagged 0 34) 7 \<mapsto> \<lparr> tk_mint = 7, tk_owner = 34, tk_amount = 1500 \<rparr>)\<rparr>) sample_grinders)"

lemma sample_allocate: "ndispatch ref_env ref_nenv (Allocate sample_reserve 500) sample_grinders = Ok after_allocate"
  by (simp add: allocate_def accounts_Allocate_def execute_allocate_def load_grinders_def load_custodian_def read_mint_def
      owned_account_def ninvoke_def sample_grinders_sel after_allocate_def sample_reserve_def)
    (simp add: sample_gdefs nrefs)

lemma reserve_guarded_witness:
  "bal (nledger after_allocate) 600 < bal (nledger sample_grinders) 600 \<and>
   ra_authority sample_reserve = toreador sample_gstate"
proof -
  have k: "token_accounts (nledger sample_grinders) 600 = Some \<lparr> tk_mint = 7, tk_owner = 32, tk_amount = 4000 \<rparr>"
    by (simp add: sample_grinders_sel sample_nledger_def)
  have less: "bal (nledger after_allocate) 600 < bal (nledger sample_grinders) 600"
    by (simp add: bal_def k after_allocate_def heartbeat_def store_grinders_def put_grinders_def ref_ata_def tagged_def
        pair_key_def eval_simps)
  have "nspender (Allocate sample_reserve 500) \<noteq> Some (grinders_key ref_nenv)" by simp
  from reserve_guarded [OF sample_grinders_run ref_good_nenv this sample_allocate k _ less] show ?thesis
    using less sample_grinders_sel(1) by (auto simp: ref_nenv_sel tagged_def)
qed

section \<open>The keeper at work\<close>

text \<open>Grinders is linked, allocates, and allocates again six days later; the quorum is there all along.\<close>

definition linked_grinders :: grinders_world where
  "linked_grinders = sample_grinders\<lparr>gn_grai := upd_state (\<lambda>s. s\<lparr>gs_grinders := 32\<rparr>) (gn_grai sample_grinders)\<rparr>"

lemma sample_links:
  "dispatch ref_env (SetGrinders 10 32 32) (gn_grai sample_grinders) = Ok (gn_grai linked_grinders)"
proof -
  have d: "length (grinders_disc ref_nenv) = 8" "length (cluster_ref sample_gstate) = 32" "gr_grai_program sample_gstate = 99"
    by (simp_all add: ref_nenv_sel sample_gstate_def utf8_def)
  note f = encode_grinders_fields [OF d(1), of sample_gstate, unfolded ref_nenv_sel]
  show ?thesis
    using f d
    by (simp add: linked_grinders_def execute_set_grinders_def check_owner_def check_grai_state_def sample_grinders_def
        sample_nledger_def sample_world_def ref_nenv_sel ref_env_sel tagged_def eval_simps
        GRINDERS_STATE_GRAI_PROGRAM_OFFSET_def pubkey_of_bytes_word)
qed

lemma linked_run: "grinders_run ref_env {7, 11} 11 ref_nenv linked_grinders"
proof -
  have "grai_then ref_env {7, 11} 11 (gn_grai sample_grinders) (gn_grai linked_grinders)"
    by (rule grai_then.instruction [OF grai_then.nothing ref_good_env _ _ _ sample_links])
      (simp_all add: same_addresses_def ref_env_sel tagged_def)
  then show ?thesis
    using grinders_run.grai [OF sample_grinders_run, of "gn_grai linked_grinders"]
    by (simp add: beats_def linked_grinders_def upd_state_def)
qed

lemma keeper_blocks_liquidation_witness:
  "\<exists>w1 w2. ndispatch ref_env ref_nenv (Allocate sample_reserve 500) linked_grinders = Ok w1 \<and>
     ndispatch (clock_env 520400) ref_nenv (Allocate sample_reserve 200) w1 = Ok w2 \<and>
     (\<nexists>g. dispatch (clock_env 600000) (Liquidate 20 32 11) (gn_grai w2) = Ok g)"
proof -
  have "\<exists>w1 w2. ndispatch ref_env ref_nenv (Allocate sample_reserve 500) linked_grinders = Ok w1 \<and>
      ndispatch (clock_env 520400) ref_nenv (Allocate sample_reserve 200) w1 = Ok w2 \<and>
      read_grinders ref_nenv (nledger w1) = Some sample_gstate \<and> \<not> liquidation (grai_state (gn_grai w1)) \<and>
      gs_grinders (grai_state (gn_grai w1)) = grinders_key ref_nenv"
    by (simp add: allocate_def accounts_Allocate_def execute_allocate_def load_grinders_def load_custodian_def read_mint_def
        owned_account_def ninvoke_def linked_grinders_def sample_reserve_def clock_env_def)
      (simp add: sample_gdefs nrefs read_grinders_def store_grinders_def heartbeat_def put_grinders_def upd_state_def
        set_nledger_def sample_world_def utf8_def)
  then obtain w1 w2 where 1: "ndispatch ref_env ref_nenv (Allocate sample_reserve 500) linked_grinders = Ok w1"
      and 2: "ndispatch (clock_env 520400) ref_nenv (Allocate sample_reserve 200) w1 = Ok w2"
      and k: "read_grinders ref_nenv (nledger w1) = Some sample_gstate" "\<not> liquidation (grai_state (gn_grai w1))"
        "gs_grinders (grai_state (gn_grai w1)) = grinders_key ref_nenv"
    by blast
  have p: "in_window (unix_timestamp ref_env) (grinding_period sample_gstate) (unix_timestamp (clock_env t)) \<longleftrightarrow>
      2000 \<le> sint t \<and> sint t \<le> 606800" for t
    by (simp add: in_window_def clock_env_def ref_env_sel sample_gstate_def)
  have "keeper_then ref_env {7, 11} 11 ref_nenv (unix_timestamp ref_env) (grinding_period sample_gstate) w1 w2"
    by (rule keeper_then.call [OF keeper_then.nothing clock_good_nenv clock_env_laws(2) _ _ _ _ 2])
      (simp_all add: p same_naddresses_def)
  from keeper_blocks_liquidation [OF linked_run ref_good_nenv _ _ _ 1 k this]
  have "\<nexists>g. dispatch (clock_env 600000) (Liquidate 20 32 11) (gn_grai w2) = Ok g"
    using clock_env_laws(1,2) by (auto simp: p same_addresses_def same_naddresses_def simp del: dispatch.simps)
  then show ?thesis using 1 2 by blast
qed

section \<open>More instances\<close>

lemma grinders_beside_grai_witness:
  "grai_run ref_env {7, 11} 11 (gn_grai sample_grinders) \<and> 24 * 60 * 60 \<le> grinding_period sample_gstate"
  using grinders_beside_grai [OF sample_grinders_run] sample_grinders_sel(1) by auto

lemma grai_reads_what_grinders_wrote_witness:
  "read_grinders ref_nenv (put_grinders ref_nenv sample_gstate sample_nledger) = Some sample_gstate"
  using grai_reads_what_grinders_wrote [of ref_nenv sample_gstate sample_nledger 0 sample_world]
  by (simp add: ref_nenv_sel sample_gstate_def utf8_def)

lemma sample_swaps:
  obtains w' where "custodian_swap ref_nenv sample_swap [(700, False, False)] 2000000000000000000 [1] sample_grinders = Ok w'"
    "map_option tk_amount (token_accounts (nledger w') (ref_ata (tagged 0 34) 11)) = Some 250"
proof -
  have "\<exists>w'. custodian_swap ref_nenv sample_swap [(700, False, False)] 2000000000000000000 [1] sample_grinders = Ok w' \<and>
      map_option tk_amount (token_accounts (nledger w') (ref_ata (tagged 0 34) 11)) = Some 250"
    by (simp add: custodian_swap_def accounts_CustodianSwap_def load_grinders_def load_custodian_def minted_account_def
        read_mint_def assert_custodian_owner_def execute_swap_def sample_grinders_sel sample_swap_def)
      (simp add: sample_gdefs nrefs swap_label_def label_hash_def label_id_def cluster_ref_str_def LABEL_NAMESPACE_def
        CAIP2_SOLANA_def LABEL_NAME_SWAP_def utf8_def ref_router_def settle_swap_def quote_per_base_def swap_pow10_def
        PRICE_DECIMALS_def)
  then show thesis using that by blast
qed

lemma swap_price_limited_witness:
  "\<exists>w' q'. custodian_swap ref_nenv sample_swap [(700, False, False)] 2000000000000000000 [1] sample_grinders = Ok w' \<and>
     token_accounts (nledger w') (sw_quote_ata sample_swap) = Some q'"
proof -
  obtain w' where w': "custodian_swap ref_nenv sample_swap [(700, False, False)] 2000000000000000000 [1] sample_grinders = Ok w'"
    by (rule sample_swaps)
  then show ?thesis using swap_price_limited [OF w'] by blast
qed

end
