(* ===== verification/Spec2Isabelle.thy ===== *)
theory Spec2Isabelle
  imports Bribe_Ask Dividend Custom_Feed Views Sample_Facts Grai_Live Grs_Claims Grinders_Sample
begin

text \<open>
  A verification library of the on-chain programs of the GrindURUS protocol for Solana
  (\<open>programs/\<close>): GRAI, a share token backed by a basket of assets; Grinders, the reserve that trades
  them through custodians; GRS, a LayerZero token with sales and vesting; and a custom price feed.

  \<^bold>\<open>The programs and how they interact.\<close>
  GRAI (\<open>programs/grai\<close>) takes deposits of listed assets against newly minted shares, passes the
  assets to Grinders, locks shares for dividends and votes, splits yield between lockers and a
  treasury with a referral tree, sells voted shares by bribe, and on a quorum of votes and a stale
  Grinders heartbeat opens a liquidation in which shares redeem for the basket. Grinders
  (\<open>programs/grinders\<close>) holds the reserve under a keeper, the toreador; custodians are NFTs whose
  holders may swap within a limit price; yield reaches GRAI by a call of its \<open>distribute\<close>, and GRAI
  reads the heartbeat from the raw bytes of the Grinders state account. GRAI prices an asset from
  Pyth, Chainlink or the custom feed (\<open>programs/custom_price_feed\<close>). GRS (\<open>programs/grs\<close>) is
  independent of these: an OFT store with its peers, a book of token sales and vestings, and the
  receiver of three kinds of cross-chain messages.

  \<^bold>\<open>How an instruction is modelled.\<close>
  A program's state is a record of maps from keys to account records beside a \<open>ledger\<close> of the
  accounts owned by the system, token and foreign programs. An instruction is its \<open>Accounts\<close> struct
  (\<open>accounts_X\<close>, the checks and account creations Anchor runs, in the order of the fields) followed
  by its handler (\<open>execute_x\<close>), a function from the state to a result: \<open>Ok\<close> of the new state, or an
  error (a code of the program, a failed account check, a failed call, or \<open>Panic\<close> for an overflow of
  unchecked arithmetic). A failed instruction changes nothing, as on chain. Machine integers are
  words; the checked, saturating and panicking operations are those of \<open>Prelude\<close>.
  What the sources only call - the token, system, metadata, oracle and endpoint programs, address
  derivation, keccak, the clock, the program a swap is routed to - is a field of an environment
  record (\<open>env\<close>, \<open>genv\<close>, \<open>nenv\<close>), and what is relied on of it is a named law over that record
  (\<open>env_laws\<close>, \<open>genv_laws\<close>, \<open>program_law\<close>, ...). \<open>Reference_Env\<close>, \<open>Grs_Sample\<close> and \<open>Grinders_Sample\<close>
  define executable environments with these laws, at which every hypothesis is discharged.

  \<^bold>\<open>Theories.\<close>
  \<^item> \<open>Prelude\<close>, \<open>Bytes\<close>, \<open>Ownable\<close>, \<open>Registry\<close>: words, results and inversion lemmas; fixed-width
    integers in byte strings; the locales of two-step ownership (interpreted for GRAI, GRS and the
    feed) and of an enumerable list (interpreted for the lockers and voters).
  \<^item> \<open>Tokenomics\<close> (\<open>tokenomics.rs\<close>), with \<open>Tokenomics_Facts\<close> and \<open>Bribe_Ask\<close>: the arithmetic over
    natural numbers - deposits do not dilute, the compound premium, the bribe ask, penalties, quorum.
  \<^item> \<open>Grai_Types\<close>, \<open>Grai_World\<close>: accounts, errors, state and environment. \<open>Dividend\<close>, \<open>Settle\<close>
    (\<open>dividend.rs\<close>), \<open>Locks\<close> (\<open>lock.rs\<close>, \<open>vote.rs\<close>, \<open>unlock.rs\<close>, \<open>state.rs\<close>), \<open>Referral\<close>, \<open>Poach\<close>
    (\<open>treasury.rs\<close>, \<open>metadata.rs\<close>), \<open>Price_Feed\<close>, \<open>Harvest\<close> (\<open>distribute.rs\<close>, \<open>bribe.rs\<close>),
    \<open>Liquidation\<close> (\<open>redeem.rs\<close>, \<open>revive.rs\<close>), \<open>Claim\<close>, \<open>Grai_Config\<close> (\<open>config.rs\<close>), \<open>Assets\<close>,
    \<open>Deposit\<close>, \<open>Views\<close> (\<open>preview.rs\<close>, \<open>views.rs\<close>): the operations, in the order of the code.
  \<^item> \<open>Referral_Loop\<close>: the cycle check ends, and decides whether the chain meets the locker.
  \<^item> \<open>Lock_Book\<close>, \<open>Flows\<close>, \<open>Treasury_Flows\<close>, \<open>Solvency*\<close>: what each operation does to the lock book
    and to the vaults, and that it keeps the invariant. \<open>Grai_Program\<close> (every entry
    point keeps it), \<open>Grai_Runs\<close> (runs and their invariant), \<open>Grai_Phases\<close> (who may do what
    and when), \<open>Grai_Live\<close> (an open liquidation can always be closed after its periods), and the
    sample run of \<open>Sample_World\<close>, \<open>Sample_Run\<close>, \<open>Sample_Liquidation\<close>, \<open>Sample_Facts\<close>.
    \<open>Grai_Entry\<close> holds the instructions and \<open>dispatch\<close>.
  \<^item> \<open>Custom_Feed\<close>: the feed program, its reachable feeds and who may change them.
  \<^item> \<open>Grs_Types\<close> (\<open>state/\<close>), \<open>Grs_Codec\<close> (\<open>msg_codec.rs\<close>, \<open>compose_msg_codec.rs\<close>), \<open>Grs_Facts\<close>,
    \<open>Grs_World\<close>, \<open>Grs_Fees\<close>, \<open>Grs_Sales\<close>, \<open>Grs_Vesting\<close>, \<open>Grs_Bridge\<close>, \<open>Grs_Admin\<close>
    (\<open>instructions/\<close>): the GRS program. \<open>Grs_Books\<close> states what it owes, with the locale of a book
    of obligations interpreted for lots and vestings; \<open>Grs_Steps\<close>, \<open>Grs_Effects\<close>, \<open>Grs_Payouts\<close>,
    \<open>Grs_Arrivals\<close>, \<open>Grs_Receiver\<close>, \<open>Grs_Peers\<close>: every operation keeps it; \<open>Grs_Program\<close>, \<open>Grs_Runs\<close>,
    \<open>Grs_Claims\<close>: entry points, runs and the properties of all runs.
  \<^item> \<open>Grinders_Types\<close>, \<open>Grinders_World\<close>, \<open>Grinders_Ops\<close>, \<open>Grinders_Moves\<close>, \<open>Grinders_Swap\<close>: the
    Grinders program on the world of GRAI. \<open>Grinders_Flows\<close>, \<open>Grinders_Steps\<close>, \<open>Grinders_Program\<close>:
    its runs simulate runs of GRAI; \<open>Grinders_Guard\<close>, \<open>Grinders_Facts\<close>: its properties;
    \<open>Grinders_Keeper\<close>: while a heartbeat is fresh, no step of either program opens the liquidation.
  \<^item> This theory: the properties of every state of a run of GRAI.

  \<^bold>\<open>Runs.\<close>
  A run (\<open>grai_run\<close>, \<open>grs_run\<close>, \<open>grinders_run\<close>) starts with the program's initialisation and
  continues with any interleaving of its instructions, each under its own clock, oracles and
  behaviour of the called programs, and of other programs' transactions, which can do anything but
  spend from the accounts the program signs for. Two premises say that no account derived from
  seeds is also a wallet: an instruction's \<open>spender\<close> is not the program's own signer.

  \<^bold>\<open>Fuel.\<close>
  One loop of the sources is bounded by nothing in its text, the tortoise and hare of
  \<open>has_referral_loop\<close>. Its model \<open>floyd\<close> takes fuel, and is run with one more round than there
  are books supplied; \<open>has_referral_loop_terminates\<close> shows that this always suffices. All
  other recursion is structural.

  \<^bold>\<open>Not modelled.\<close>
  Events, log messages and the metadata strings of the tokens; return-data encoding; rent and
  compute limits except where the code computes rent; the identity checks of the token, system and
  metadata programs passed as accounts (the environment is those programs); bumps that Anchor
  derives; which of several failing account checks reports its error. Wherever an account is checked
  to be the one derived from its seeds, the model takes its seeds and not its address. A GRS world is one OFT store, a Grinders world one linked GRAI
  program; a state account of another GRAI does not load. Token-2022 transfer fees are modelled in
  \<open>Grs_Fees\<close>, with what the code's SDK documents of them as \<open>token2022_law\<close>; only the invariant of the escrows is stated for a mint without one, whose escrows they
  would underfund, and for an initial supply within the cap. The program a swap is routed to may run
  GRAI's instructions and move tokens of others, but is assumed not to call Grinders again, which
  the runtime refuses, and to run at the time of the swap's transaction. The instruction \<open>custodian_jupiter_gasless_swap\<close> is unfinished in the source
  and fails on every input, and so it does here. Scripts, tests and the TypeScript clients are not
  part of the programs.
\<close>

section \<open>Every state of a run\<close>

text \<open>
  C1. In every state of a run the share vault holds at least the locked shares, and the vault of
  every listed asset holds at least what its lockers have accrued and not yet claimed.
\<close>

theorem vaults_cover_debts:
  assumes run: "grai_run e S gm w"
  shows "unat (total_locked (grai_state w)) \<le> bal (ledger w) (vault_key e gm) \<and>
    (\<forall>m a. assets w m = Some a \<longrightarrow> unat (total_claimable a) \<le> bal (ledger w) (vault_key e m))"
proof -
  have s: "solvent e S w" and r: "registry_inv e S gm w"
    using grai_run_inv [OF run] by (auto simp: program_inv_def grai_inv_def)
  have S: "gm \<in> S" using run by (induction rule: grai_run.induct) (simp_all add: good_envD(2))
  have o: "owed w m \<le> bal (ledger w) (vault_key e m)" if "m \<in> S" for m
    using s that by (simp add: solvent_def)
  have gm: "gs_grai_mint (grai_state w) = gm" using r by (simp add: registry_inv_def)
  have m: "m \<in> S \<and> m \<noteq> gm" if "assets w m = Some a" for m a
    using r that by (auto simp: registry_inv_def)
  have "unat (total_claimable a) \<le> bal (ledger w) (vault_key e m)" if "assets w m = Some a" for m a
    using o [of m] m [OF that] that gm by (simp add: owed_def)
  then show ?thesis using o [OF S] gm by (simp add: owed_def)
qed

theorem vaults_cover_debts_witness:
  "unat (total_locked (grai_state sample_world)) \<le> bal (ledger sample_world) (vault_key ref_env 11) \<and>
   (\<exists>a. assets sample_world 7 = Some a \<and> unat (total_claimable a) = 500000 \<and>
      500000 \<le> bal (ledger sample_world) (vault_key ref_env 7))"
proof -
  obtain a where "assets sample_world 7 = Some a" "unat (total_claimable a) = 500000"
    by (simp add: sample_world_def)
  then show ?thesis using vaults_cover_debts [OF sample_run] by force
qed

text \<open>
  C2. In every state of a run the totals are the sums over the escrow accounts, no account votes
  more than it locks, and the registries list exactly the accounts with a lock and with a vote,
  without duplicates.
\<close>

theorem lock_book_exact:
  assumes "grai_run e S gm w"
  shows "unat (total_locked (grai_state w)) = (\<Sum>u\<in>dom (escrows w). unat (es_amount (the (escrows w u))))
    \<and> unat (total_voted (grai_state w)) = (\<Sum>u\<in>dom (escrows w). unat (es_voted (the (escrows w u))))
    \<and> distinct (lockers (grai_state w)) \<and> distinct (voters (grai_state w))
    \<and> set (lockers (grai_state w)) = {u. \<exists>x. escrows w u = Some x \<and> es_amount x \<noteq> 0}
    \<and> set (voters (grai_state w)) = {u. \<exists>x. escrows w u = Some x \<and> es_voted x \<noteq> 0}
    \<and> (\<forall>u x. escrows w u = Some x \<longrightarrow> es_voted x \<le> es_amount x)"
proof -
  have "lock_inv e w" using grai_run_inv [OF assms] by (simp add: program_inv_def grai_inv_def)
  then show ?thesis by (auto simp: lock_inv_def lock_book_def tracks_def msum_def)
qed

theorem lock_book_exact_witness:
  "unat (total_locked (grai_state sample_world)) =
     (\<Sum>u\<in>dom (escrows sample_world). unat (es_amount (the (escrows sample_world u)))) \<and>
   lockers (grai_state sample_world) = [20]"
proof -
  have "lockers (grai_state sample_world) = [20]" by (simp add: sample_world_def)
  then show ?thesis using lock_book_exact [OF sample_run] by blast
qed

text \<open>
  C14. The accounts of every state of a run are well formed: the registry lists each asset once and
  exactly the assets that have a configuration, each configuration is of its own mint, the shares
  are not an asset, every listed asset has its vault, which the program owns, and only the program
  can mint shares.
\<close>

theorem registry_well_formed:
  assumes "grai_run e S gm w"
  shows "distinct (asset_mints (grai_state w)) \<and> set (asset_mints (grai_state w)) = dom (assets w)
    \<and> gs_grai_mint (grai_state w) = gm \<and> gm \<notin> dom (assets w)
    \<and> (\<forall>m a. assets w m = Some a \<longrightarrow> ac_asset_mint a = m \<and>
         (\<exists>v. token_accounts (ledger w) (vault_key e m) = Some v \<and> tk_owner v = gs_key e))
    \<and> (\<exists>x. mints (ledger w) gm = Some x \<and> mi_authority x = Some (gs_key e))"
proof -
  have r: "registry_inv e S gm w" using grai_run_inv [OF assms] by (simp add: program_inv_def grai_inv_def)
  have "\<exists>v. token_accounts (ledger w) (vault_key e m) = Some v \<and> tk_owner v = gs_key e"
    if "assets w m = Some a" for m a
  proof -
    have "m \<in> dom (assets w)" "m \<in> S" using r that by (auto simp: registry_inv_def)
    moreover from this(1) obtain v where "token_accounts (ledger w) (vault_key e m) = Some v"
      using r unfolding registry_inv_def by blast
    ultimately show ?thesis using r unfolding registry_inv_def vaults_owned_def by blast
  qed
  then show ?thesis using r by (auto simp: registry_inv_def)
qed

theorem registry_well_formed_witness:
  "asset_mints (grai_state sample_world) = [7] \<and> set (asset_mints (grai_state sample_world)) = dom (assets sample_world)"
proof -
  have "asset_mints (grai_state sample_world) = [7]" by (simp add: sample_world_def)
  then show ?thesis using registry_well_formed [OF sample_run] by blast
qed

text \<open>
  C16. In every state of a run the settings are within the protocol's bounds: the configuration is
  one that validates, its two cuts are the immutable defaults, the royalty is at most 100 percent,
  there are two affiliate levels and their shares add up to 100 percent.
\<close>

theorem settings_within_bounds:
  assumes "grai_run e S gm w"
  shows "validate_protocol_config (gs_config (grai_state w)) = Ok ()
    \<and> dividend_cut_bps (gs_config (grai_state w)) = DEFAULT_DIVIDEND_CUT_BPS
    \<and> treasury_cut_bps (gs_config (grai_state w)) = DEFAULT_TREASURY_CUT_BPS
    \<and> royalty_bps (grai_state w) \<le> BPS \<and> affiliate_levels (grai_state w) = 2
    \<and> length (affiliate_share_bps (grai_state w)) = 2
    \<and> sum_list (map unat (affiliate_share_bps (grai_state w))) = 10000"
  using grai_run_inv [OF assms] by (simp add: program_inv_def settings_inv_def Let_def)

theorem settings_within_bounds_witness:
  "validate_protocol_config (gs_config (grai_state sample_world)) = Ok () \<and>
   royalty_bps (grai_state sample_world) = DEFAULT_ROYALTY_BPS"
proof -
  have "royalty_bps (grai_state sample_world) = DEFAULT_ROYALTY_BPS" by (simp add: sample_world_def)
  then show ?thesis using settings_within_bounds [OF sample_run] by blast
qed

section \<open>The phase\<close>

text \<open>
  C5. Liquidation opens only by \<open>liquidate\<close>, with votes strictly above the quorum share of the
  supply and the Grinders heartbeat stale, and it records the time.
\<close>

theorem liquidation_opens_only_on_quorum:
  assumes "grai_run e S gm w" "admitted e S gm e' i" "dispatch e' i w = Ok w'"
    "\<not> liquidation (grai_state w)" "liquidation (grai_state w')"
  shows "(\<exists>caller gr m. i = Liquidate caller gr m) \<and> liquidation_at (grai_state w') = unix_timestamp e'
    \<and> (\<exists>m. mints (ledger w) gm = Some m \<and>
         unat (mi_supply m) * unat (quorum_bps (gs_config (grai_state w)))
           < unat (total_voted (grai_state w)) * 10000)
    \<and> grinders_grinding (gs_grinders (grai_state w)) (unix_timestamp e') w = Ok False"
  using dispatch_phase [OF admittedD [OF assms(1,2)] assms(3)] assms(4,5)
  by (auto simp: phase_def may_open_def)

theorem liquidation_opens_only_on_quorum_witness:
  "\<not> liquidation (grai_state sample_world) \<and>
   dispatch ref_env (Liquidate 20 10 11) sample_world = Ok open_world \<and>
   liquidation_at (grai_state open_world) = 2000"
proof -
  have a: "admitted ref_env {7, 11} 11 ref_env (Liquidate 20 10 11)"
    using ref_good_env by (simp add: admitted_def same_addresses_def)
  have "liquidation_at (grai_state open_world) = unix_timestamp ref_env"
    using liquidation_opens_only_on_quorum [OF sample_run a sample_opens]
    by (simp add: sample_world_def open_world_def upd_state_def)
  then show ?thesis using sample_opens by (simp add: ref_env_sel sample_world_def)
qed

text \<open>
  C6. Liquidation closes only by \<open>revive\<close>, and not before the liquidation period and the redeem
  period of the configuration have passed since it opened.
\<close>

theorem liquidation_closes_only_after_periods:
  assumes "grai_run e S gm w" "admitted e S gm e' i" "dispatch e' i w = Ok w'"
    "liquidation (grai_state w)" "\<not> liquidation (grai_state w')"
  shows "(\<exists>gr p m rem. i = Revive gr p m rem) \<and> liquidation_at (grai_state w') = 0
    \<and> sint (liquidation_at (grai_state w)) + uint (liquidation_period (gs_config (grai_state w)))
        + uint (redeem_period (gs_config (grai_state w))) \<le> sint (unix_timestamp e')"
  using dispatch_phase [OF admittedD [OF assms(1,2)] assms(3)] assms(4,5)
  by (auto simp: phase_def may_close_def)

theorem liquidation_closes_only_after_periods_witness:
  "\<exists>w. dispatch late_env sample_revive late_world = Ok w \<and> \<not> liquidation (grai_state w) \<and>
     liquidation_at (grai_state w) = 0"
proof -
  have a: "admitted ref_env {7, 11} 11 late_env sample_revive"
    using late_laws by (simp add: admitted_def sample_revive_def)
  show ?thesis
    using liquidation_closes_only_after_periods [OF late_run a sample_closes] sample_closes
    by (simp add: late_world_def open_world_def upd_state_def)
qed

text \<open>
  C11. What each phase admits: while liquidation is open no share is locked, unlocked, voted,
  bribed or poached, nothing is deposited or distributed and no setting is written except the
  ownership and the price feeds; while it is closed nothing is redeemed or revived.
\<close>

theorem liquidation_gates_instructions:
  assumes "grai_run e S gm w" "admitted e S gm e' i" "dispatch e' i w = Ok w'"
  shows "if liquidation (grai_state w) then \<not> blocked_while_open i else \<not> needs_open i"
  using dispatch_gated [OF admittedD(1-3) [OF assms(1,2)] assms(3)] by auto

theorem liquidation_gates_instructions_witness:
  "\<forall>w. dispatch ref_env (Liquidate 20 10 11) open_world \<noteq> Ok w \<and> dispatch ref_env sample_revive sample_world \<noteq> Ok w"
proof -
  have a: "admitted ref_env {7, 11} 11 ref_env i" if "i = Liquidate 20 10 11 \<or> i = sample_revive" for i
    using that ref_good_env by (auto simp: admitted_def same_addresses_def sample_revive_def)
  show ?thesis
    using liquidation_gates_instructions [OF open_run a [OF disjI1 [OF refl]]]
      liquidation_gates_instructions [OF sample_run a [OF disjI2 [OF refl]]]
    by (auto simp: open_world_def sample_world_def upd_state_def sample_revive_def)
qed

text \<open>
  C12. The settings - owner, pending owner, beneficiary, Grinders, configuration, royalty,
  affiliate shares - change only by an instruction the stored owner signed, or by the stored
  pending owner's acceptance of the ownership.
\<close>

theorem settings_change_authorised:
  assumes "grai_run e S gm w" "admitted e S gm e' i" "dispatch e' i w = Ok w'" "settings w' \<noteq> settings w"
  shows "owner_of i = Some (gs_owner (grai_state w)) \<or>
    i = AcceptOwnership (gs_pending_owner (grai_state w)) \<and> gs_pending_owner (grai_state w) \<noteq> default_pubkey"
  by (rule dispatch_settings_authorised [OF admittedD [OF assms(1,2)] assms(3,4)])

theorem settings_change_authorised_witness:
  "\<exists>w. dispatch ref_env (SetBeneficiar 10 30) sample_world = Ok w \<and> settings w \<noteq> settings sample_world \<and>
     gs_owner (grai_state sample_world) = 10"
proof -
  have a: "admitted ref_env {7, 11} 11 ref_env (SetBeneficiar 10 30)"
    using ref_good_env by (simp add: admitted_def same_addresses_def)
  obtain w where w: "dispatch ref_env (SetBeneficiar 10 30) sample_world = Ok w" "settings w \<noteq> settings sample_world"
    by (simp add: execute_set_beneficiar_def check_owner_def check_grai_state_def sample_world_def
        upd_state_def settings_def ref_env_sel)
  then show ?thesis using settings_change_authorised [OF sample_run a w] by auto
qed

end
